(* ===== verification/Treer_Prelude.thy ===== *)
theory Treer_Prelude
  imports Main "HOL-Library.Char_ord" "HOL-Library.List_Lexorder" "HOL-Library.Sublist" "HOL-Library.Product_Lexorder"
begin

text \<open>
  Shared vocabulary of the development: the wire error type of the protocol crate, Rust's
  \<open>Result\<close> as a sum type with its combinators, and the fragment of \<open>str\<close> the modelled code
  calls.  A Rust \<open>String\<close> is the list of its UTF-8 bytes, so \<open>len()\<close> is \<^const>\<open>length\<close>,
  \<open>Ord\<close> is the byte-wise lexicographic order of \<open>Char_ord\<close> and \<open>List_Lexorder\<close>, and
  searching for an ASCII character is a search in the byte list.  \<open>Instant\<close> and \<open>Duration\<close>
  are counted in nanoseconds.
\<close>

named_theorems res_simps \<open>inversion of the Result combinators\<close>
named_theorems str_simps \<open>evaluation of the str operations\<close>

type_synonym instant = nat
type_synonym duration = nat
type_synonym 'v btree_map = "(string \<times> 'v) list"

section \<open>Protocol errors and Result\<close>

datatype agent_creation_failure_state =
  NotStarted | IdentityRemoved | ReservedOutcomeUnknown | CleanupFailed

record agent_creation_error_details =
  acd_command :: "string option"
  acd_machine_id :: "string option"
  acd_agent_id :: "string option"
  acd_creation_state :: agent_creation_failure_state

record protocol_error =
  pe_hint :: "string list option"
  pe_code :: string
  pe_message :: string
  pe_details :: "agent_creation_error_details option"

definition protocol_error_new :: "string \<Rightarrow> string \<Rightarrow> protocol_error" where
  "protocol_error_new c m = \<lparr>pe_hint = None, pe_code = c, pe_message = m, pe_details = None\<rparr>"

type_synonym 'a res = "protocol_error + 'a"

definition and_then :: "'e + 'a \<Rightarrow> ('a \<Rightarrow> 'e + 'b) \<Rightarrow> 'e + 'b" where
  "and_then r f = (case r of Inl e \<Rightarrow> Inl e | Inr x \<Rightarrow> f x)"

definition ok_or_else :: "'a option \<Rightarrow> 'e \<Rightarrow> 'e + 'a" where
  "ok_or_else v e = (case v of None \<Rightarrow> Inl e | Some x \<Rightarrow> Inr x)"

definition map_err :: "('e \<Rightarrow> 'f) \<Rightarrow> 'e + 'a \<Rightarrow> 'f + 'a" where
  "map_err g r = (case r of Inl e \<Rightarrow> Inl (g e) | Inr x \<Rightarrow> Inr x)"

definition is_none_or :: "'a option \<Rightarrow> ('a \<Rightarrow> bool) \<Rightarrow> bool" where
  "is_none_or v P = (case v of None \<Rightarrow> True | Some x \<Rightarrow> P x)"

definition is_some_and :: "'a option \<Rightarrow> ('a \<Rightarrow> bool) \<Rightarrow> bool" where
  "is_some_and v P = (case v of None \<Rightarrow> False | Some x \<Rightarrow> P x)"

text \<open>A \<open>for\<close> loop whose body ends in \<open>?\<close>, and \<open>collect::<Result<Vec<_>, _>>()\<close>.\<close>

fun try_all :: "('a \<Rightarrow> 'e + unit) \<Rightarrow> 'a list \<Rightarrow> 'e + unit" where
  "try_all f [] = Inr ()"
| "try_all f (x # xs) = and_then (f x) (\<lambda>_. try_all f xs)"

fun try_map :: "('a \<Rightarrow> 'e + 'b) \<Rightarrow> 'a list \<Rightarrow> 'e + 'b list" where
  "try_map f [] = Inr []"
| "try_map f (x # xs) = and_then (f x) (\<lambda>y. and_then (try_map f xs) (\<lambda>ys. Inr (y # ys)))"

text \<open>A \<open>for\<close> loop that threads mutable state and leaves early with \<open>?\<close>.\<close>

fun try_fold :: "('a \<Rightarrow> 's \<Rightarrow> 'e + 's) \<Rightarrow> 'a list \<Rightarrow> 's \<Rightarrow> 'e + 's" where
  "try_fold f [] s = Inr s"
| "try_fold f (x # xs) s = and_then (f x s) (try_fold f xs)"

section \<open>The str operations\<close>

abbreviation ordb :: "char \<Rightarrow> nat" where
  "ordb c \<equiv> of_char c"

fun split_on :: "char \<Rightarrow> string \<Rightarrow> string list" where
  "split_on c [] = [[]]"
| "split_on c (x # xs) =
     (if x = c then [] # split_on c xs
      else (case split_on c xs of [] \<Rightarrow> [[x]] | y # ys \<Rightarrow> (x # y) # ys))"

fun join_with :: "string \<Rightarrow> string list \<Rightarrow> string" where
  "join_with sep [] = []"
| "join_with sep [x] = x"
| "join_with sep (x # y # ys) = x @ sep @ join_with sep (y # ys)"

definition starts_with :: "string \<Rightarrow> string \<Rightarrow> bool" where
  "starts_with s p \<longleftrightarrow> take (length p) s = p"

definition strip_prefix :: "string \<Rightarrow> string \<Rightarrow> string option" where
  "strip_prefix s p = (if take (length p) s = p then Some (drop (length p) s) else None)"

definition to_ascii_lowercase :: "string \<Rightarrow> string" where
  "to_ascii_lowercase s =
     map (\<lambda>c. if 65 \<le> ordb c \<and> ordb c \<le> 90 then char_of (ordb c + 32) else c) s"

definition split_once :: "char \<Rightarrow> string \<Rightarrow> (string \<times> string) option" where
  "split_once c s = (case dropWhile (\<lambda>x. x \<noteq> c) s of
      [] \<Rightarrow> None | _ # r \<Rightarrow> Some (takeWhile (\<lambda>x. x \<noteq> c) s, r))"

definition trim_end_matches :: "char \<Rightarrow> string \<Rightarrow> string" where
  "trim_end_matches c s = rev (dropWhile (\<lambda>x. x = c) (rev s))"

text \<open>The UTF-8 encodings of the Unicode \<open>White_Space\<close> characters, which \<open>trim\<close> removes.\<close>

definition ws_encodings :: "nat list list" where
  "ws_encodings =
     [[9], [10], [11], [12], [13], [32], [194, 133], [194, 160], [225, 154, 128],
      [226, 128, 128], [226, 128, 129], [226, 128, 130], [226, 128, 131], [226, 128, 132],
      [226, 128, 133], [226, 128, 134], [226, 128, 135], [226, 128, 136], [226, 128, 137],
      [226, 128, 138], [226, 128, 168], [226, 128, 169], [226, 128, 175], [226, 129, 159],
      [227, 128, 128]]"

definition ws_enc :: "string \<Rightarrow> bool" where
  "ws_enc e = (map ordb e \<in> set ws_encodings)"

definition ws_head :: "string \<Rightarrow> nat" where
  "ws_head s = (if ws_enc (take 1 s) then 1 else if ws_enc (take 2 s) then 2
                else if ws_enc (take 3 s) then 3 else 0)"

definition ws_last :: "string \<Rightarrow> nat" where
  "ws_last s = (if ws_enc (rev (take 1 (rev s))) then 1
                else if ws_enc (rev (take 2 (rev s))) then 2
                else if ws_enc (rev (take 3 (rev s))) then 3 else 0)"

function trim_start :: "string \<Rightarrow> string" where
  "trim_start s = (if s = [] \<or> ws_head s = 0 then s else trim_start (drop (ws_head s) s))"
  by pat_completeness auto
termination by (relation "measure length") auto

function trim_end :: "string \<Rightarrow> string" where
  "trim_end s = (if s = [] \<or> ws_last s = 0 then s
                 else trim_end (take (length s - ws_last s) s))"
  by pat_completeness auto
termination by (relation "measure length") auto

declare trim_start.simps [simp del] trim_end.simps [simp del]

definition trim :: "string \<Rightarrow> string" where
  "trim s = trim_end (trim_start s)"

text \<open>\<open>chars().any(char::is_control)\<close>: the C0 controls, DEL and the C1 controls U+0080 to U+009F.\<close>

fun has_control :: "string \<Rightarrow> bool" where
  "has_control [] = False"
| "has_control [a] = (ordb a < 32 \<or> ordb a = 127)"
| "has_control (a # b # r) =
     (ordb a < 32 \<or> ordb a = 127 \<or> (ordb a = 194 \<and> 128 \<le> ordb b \<and> ordb b \<le> 159)
      \<or> has_control (b # r))"

text \<open>\<open>String::from_utf8\<close> accepts exactly the well-formed byte sequences.\<close>

definition utf8_cont :: "char \<Rightarrow> bool" where
  "utf8_cont b \<longleftrightarrow> 128 \<le> ordb b \<and> ordb b \<le> 191"

text \<open>The bytes of the first character, or 0 when no well-formed character starts here.\<close>

fun utf8_head :: "string \<Rightarrow> nat" where
  "utf8_head (a # b # c # d # r) =
     (if ordb a < 128 then 1
      else if 194 \<le> ordb a \<and> ordb a \<le> 223 \<and> utf8_cont b then 2
      else if utf8_cont b \<and> utf8_cont c
        \<and> (ordb a = 224 \<and> 160 \<le> ordb b \<or> 225 \<le> ordb a \<and> ordb a \<le> 236
           \<or> ordb a = 237 \<and> ordb b \<le> 159 \<or> 238 \<le> ordb a \<and> ordb a \<le> 239) then 3
      else if utf8_cont b \<and> utf8_cont c \<and> utf8_cont d
        \<and> (ordb a = 240 \<and> 144 \<le> ordb b \<or> 241 \<le> ordb a \<and> ordb a \<le> 243
           \<or> ordb a = 244 \<and> ordb b \<le> 143) then 4
      else 0)"
| "utf8_head [a, b, c] =
     (if ordb a < 128 then 1
      else if 194 \<le> ordb a \<and> ordb a \<le> 223 \<and> utf8_cont b then 2
      else if utf8_cont b \<and> utf8_cont c
        \<and> (ordb a = 224 \<and> 160 \<le> ordb b \<or> 225 \<le> ordb a \<and> ordb a \<le> 236
           \<or> ordb a = 237 \<and> ordb b \<le> 159 \<or> 238 \<le> ordb a \<and> ordb a \<le> 239) then 3
      else 0)"
| "utf8_head [a, b] =
     (if ordb a < 128 then 1
      else if 194 \<le> ordb a \<and> ordb a \<le> 223 \<and> utf8_cont b then 2 else 0)"
| "utf8_head [a] = (if ordb a < 128 then 1 else 0)"
| "utf8_head [] = 0"

function utf8_valid :: "string \<Rightarrow> bool" where
  "utf8_valid s = (if s = [] then True else if utf8_head s = 0 then False
                    else utf8_valid (drop (utf8_head s) s))"
  by pat_completeness auto
termination by (relation "measure length") auto

declare utf8_valid.simps [simp del]

fun dec_string :: "nat \<Rightarrow> string" where
  "dec_string n = (if n < 10 then [char_of (48 + n)]
                   else dec_string (n div 10) @ [char_of (48 + n mod 10)])"

declare dec_string.simps [simp del]

text \<open>\<open>chars().count()\<close>: every byte that does not continue a character starts one.\<close>

definition chars_count :: "string \<Rightarrow> nat" where
  "chars_count s = length (filter (\<lambda>b. \<not> utf8_cont b) s)"

section \<open>Lemmas on Result\<close>

lemma and_then_simps [simp]: "and_then (Inl e) f = Inl e" "and_then (Inr x) f = f x"
  by (simp_all add: and_then_def)

lemma and_then_Inr [res_simps]: "and_then r f = Inr y \<longleftrightarrow> (\<exists>x. r = Inr x \<and> f x = Inr y)"
  by (cases r) auto

lemma and_then_Inl [res_simps]:
  "and_then r f = Inl e \<longleftrightarrow> r = Inl e \<or> (\<exists>x. r = Inr x \<and> f x = Inl e)"
  by (cases r) auto

lemma ok_or_else_simps [simp]: "ok_or_else None e = Inl e" "ok_or_else (Some x) e = Inr x"
  by (simp_all add: ok_or_else_def)

lemma ok_or_else_Inr [res_simps]: "ok_or_else v e = Inr x \<longleftrightarrow> v = Some x"
  by (cases v) auto

lemma map_err_simps [simp]: "map_err g (Inl e) = Inl (g e)" "map_err g (Inr x) = Inr x"
  by (simp_all add: map_err_def)

lemma map_err_Inr [res_simps]: "map_err g r = Inr x \<longleftrightarrow> r = Inr x"
  by (cases r) auto

lemma is_none_or_simps [simp]: "is_none_or None P" "is_none_or (Some x) P = P x"
  by (simp_all add: is_none_or_def)

lemma is_some_and_simps [simp]: "\<not> is_some_and None P" "is_some_and (Some x) P = P x"
  by (simp_all add: is_some_and_def)

lemma is_some_and_iff: "is_some_and v P \<longleftrightarrow> (\<exists>x. v = Some x \<and> P x)"
  by (cases v) auto

lemma is_none_or_iff: "is_none_or v P \<longleftrightarrow> (\<forall>x. v = Some x \<longrightarrow> P x)"
  by (cases v) auto

lemma try_all_Inr [res_simps]: "try_all f xs = Inr u \<longleftrightarrow> (\<forall>x \<in> set xs. f x = Inr ())"
  by (induction xs) (auto simp: res_simps)

lemma try_map_Inr: "try_map f xs = Inr ys \<longleftrightarrow> list_all2 (\<lambda>x y. f x = Inr y) xs ys"
  by (induction xs arbitrary: ys) (auto simp: res_simps list_all2_Cons1)

lemma try_map_Inr_length: "try_map f xs = Inr ys \<Longrightarrow> length ys = length xs"
  by (induction xs arbitrary: ys) (auto simp: res_simps)

lemma try_fold_append: "try_fold f (xs @ ys) s = and_then (try_fold f xs s) (try_fold f ys)"
  by (induction xs arbitrary: s) (auto simp: and_then_def split: sum.splits)

lemma try_fold_inv:
  assumes "try_fold f xs s = Inr t" "P s"
    and "\<And>x u v. x \<in> set xs \<Longrightarrow> P u \<Longrightarrow> f x u = Inr v \<Longrightarrow> P v"
  shows "P t"
  using assms by (induction xs arbitrary: s) (auto simp: res_simps)

section \<open>Lemmas on lists\<close>

lemma list_all2_mem1: "list_all2 P xs ys \<Longrightarrow> x \<in> set xs \<Longrightarrow> \<exists>y \<in> set ys. P x y"
  by (induction rule: list_all2_induct) auto

lemma list_all2_mem2: "list_all2 P xs ys \<Longrightarrow> y \<in> set ys \<Longrightarrow> \<exists>x \<in> set xs. P x y"
  by (induction rule: list_all2_induct) auto

text \<open>A list of rows whose prefix is rewritten by a transitive relation and that grows at the end.\<close>

lemma list_all2_grow:
  assumes "transp R" "list_all2 R xs ys" "list_all2 R (ys @ ns) zs"
  shows "\<exists>us vs. zs = us @ vs \<and> list_all2 R xs us \<and> list_all2 R ns vs"
proof -
  from assms(3) obtain us vs where "zs = us @ vs" "list_all2 R ys us" "list_all2 R ns vs"
    by (auto simp: list_all2_append1)
  moreover from this(2) assms(2) have "list_all2 R xs us"
    using list.rel_transp [OF assms(1)] by (blast dest: transpD)
  ultimately show ?thesis by blast
qed

lemma find_mem: "find P xs = Some a \<Longrightarrow> a \<in> set xs \<and> P a"
  by (auto simp: find_Some_iff)

lemma map_sort_key:
  assumes "\<And>a. k (f a) = k a"
  shows "map f (sort_key k xs) = sort_key k (map f xs)"
proof -
  have "map f (insort_key k a ys) = insort_key k (f a) (map f ys)" for a ys
    using assms by (induction ys) auto
  then show ?thesis by (induction xs) auto
qed

section \<open>Lemmas on strings\<close>

lemma starts_with_iff_prefix: "starts_with s p \<longleftrightarrow> prefix p s"
  by (metis starts_with_def append_take_drop_id prefixI prefixE append_eq_conv_conj)

lemma strip_prefix_Some: "strip_prefix s p = Some r \<longleftrightarrow> s = p @ r"
  by (auto simp: strip_prefix_def) (metis append_take_drop_id)

lemma split_on_not_Nil [simp]: "split_on c s \<noteq> []"
  by (induction s) (auto split: list.splits)

lemma split_on_no_sep: "c \<notin> set s \<Longrightarrow> split_on c s = [s]"
  by (induction s) auto

lemma split_on_append_sep: "c \<notin> set a \<Longrightarrow> split_on c (a @ c # b) = a # split_on c b"
  by (induction a) (auto split: list.splits)

lemma split_on_append: "split_on c (a @ c # b) = split_on c a @ split_on c b"
  by (induction a) (auto split: list.splits)

lemma split_on_parts_no_sep: "x \<in> set (split_on c s) \<Longrightarrow> c \<notin> set x"
  by (induction s arbitrary: x) (auto split: if_splits list.splits)

lemma join_with_Cons: "xs \<noteq> [] \<Longrightarrow> join_with sep (x # xs) = x @ sep @ join_with sep xs"
  by (cases xs) auto

lemma split_join:
  "\<lbrakk>xs \<noteq> []; \<forall>x \<in> set xs. c \<notin> set x\<rbrakk> \<Longrightarrow> split_on c (join_with [c] xs) = xs"
proof (induction xs)
  case (Cons x xs)
  then show ?case
    by (cases "xs = []") (auto simp: split_on_no_sep split_on_append_sep join_with_Cons)
qed simp

lemma join_split: "join_with [c] (split_on c s) = s"
proof (induction s)
  case (Cons x s)
  obtain y ys where "split_on c s = y # ys"
    by (meson split_on_not_Nil list.exhaust)
  with Cons show ?case by (cases ys) auto
qed simp

lemma split_once_append: "c \<notin> set a \<Longrightarrow> split_once c (a @ c # b) = Some (a, b)"
  by (induction a) (auto simp: split_once_def split: list.splits)

lemma utf8_head_append: "utf8_head s \<noteq> 0 \<Longrightarrow> utf8_head (s @ r) = utf8_head s"
proof (induction s rule: utf8_head.induct)
  case (2 a b c) then show ?case by (cases r) (auto split: if_splits)
next
  case (3 a b) then show ?case by (cases r rule: utf8_head.cases) (auto split: if_splits)
next
  case (4 a) then show ?case by (cases r rule: utf8_head.cases) (auto split: if_splits)
qed auto

lemma utf8_head_le: "utf8_head s \<le> length s"
  by (induction s rule: utf8_head.induct) auto

lemma utf8_valid_append: "utf8_valid s \<Longrightarrow> utf8_valid r \<Longrightarrow> utf8_valid (s @ r)"
proof (induction s rule: utf8_valid.induct)
  case (1 s)
  show ?case
  proof (cases "s = []")
    case False
    with 1(2) have h: "utf8_head s \<noteq> 0" and v: "utf8_valid (drop (utf8_head s) s)"
      by (auto simp: utf8_valid.simps [of s] split: if_splits)
    with 1 False have "utf8_valid (drop (utf8_head s) s @ r)" by blast
    then show ?thesis
      using h utf8_head_le [of s] by (simp add: utf8_valid.simps [of "s @ r"] utf8_head_append)
  qed (simp add: 1)
qed

section \<open>Trimming\<close>

lemma not_ws_enc_Nil [simp]: "\<not> ws_enc []"
  by (simp add: ws_enc_def ws_encodings_def)

lemma ws_head_take:
  assumes "ws_head s = 0"
  shows "ws_head (take n s) = 0"
proof -
  have "\<not> ws_enc (take k s)" if "k \<le> 3" for k
  proof -
    from that consider "k = 0" | "k = 1" | "k = 2" | "k = 3" by linarith
    then show ?thesis using assms by cases (auto simp: ws_head_def split: if_splits)
  qed
  then have "\<not> ws_enc (take (min k n) s)" if "k \<le> 3" for k
    using that by (meson min.coboundedI1)
  then show ?thesis by (simp add: ws_head_def min_def split: if_splits)
qed

lemma trim_start_id: "s = [] \<or> ws_head s = 0 \<Longrightarrow> trim_start s = s"
  by (subst trim_start.simps) simp

lemma trim_end_id: "s = [] \<or> ws_last s = 0 \<Longrightarrow> trim_end s = s"
  by (subst trim_end.simps) simp

lemma trim_start_head: "trim_start s = [] \<or> ws_head (trim_start s) = 0"
  by (induction s rule: trim_start.induct) (metis trim_start.simps)

lemma trim_end_last: "trim_end s = [] \<or> ws_last (trim_end s) = 0"
  by (induction s rule: trim_end.induct) (metis trim_end.simps)

lemma trim_end_take: "\<exists>n. trim_end s = take n s"
proof (induction s rule: trim_end.induct)
  case (1 s)
  show ?case
  proof (cases "s = [] \<or> ws_last s = 0")
    case True
    then show ?thesis by (auto simp: trim_end.simps intro: exI [of _ "length s"])
  next
    case False
    with 1 obtain n where "trim_end (take (length s - ws_last s) s) = take n (take (length s - ws_last s) s)"
      by blast
    with False show ?thesis by (auto simp: trim_end.simps [of s])
  qed
qed

lemma trim_idem [simp]: "trim (trim s) = trim s"
proof -
  obtain n where n: "trim_end (trim_start s) = take n (trim_start s)" using trim_end_take by blast
  have "trim_start (trim s) = trim s"
  proof (rule trim_start_id)
    show "trim s = [] \<or> ws_head (trim s) = 0"
      using trim_start_head [of s] ws_head_take [of "trim_start s" n] n by (auto simp: trim_def)
  qed
  moreover have "trim_end (trim s) = trim s"
    using trim_end_last [of "trim_start s"] trim_end_id by (simp add: trim_def)
  ultimately show ?thesis by (simp add: trim_def)
qed

section \<open>Transition systems and invariants\<close>

text \<open>
  The stateful components are transition systems: an initial predicate and a step relation.
  \<open>inv_system\<close> is the contract every component's invariant meets; its client lemma is that the
  invariant holds in every reachable state.
\<close>

inductive reach :: "('s \<Rightarrow> bool) \<Rightarrow> ('s \<Rightarrow> 's \<Rightarrow> bool) \<Rightarrow> 's \<Rightarrow> bool" for init step where
  reach_init: "init s \<Longrightarrow> reach init step s"
| reach_step: "reach init step s \<Longrightarrow> step s t \<Longrightarrow> reach init step t"

locale inv_system =
  fixes init :: "'s \<Rightarrow> bool" and step :: "'s \<Rightarrow> 's \<Rightarrow> bool" and inv :: "'s \<Rightarrow> bool"
  assumes inv_init: "init s \<Longrightarrow> inv s"
    and inv_step: "inv s \<Longrightarrow> step s t \<Longrightarrow> inv t"
begin

lemma reach_inv: "reach init step s \<Longrightarrow> inv s"
  by (induction rule: reach.induct) (auto intro: inv_init inv_step)

end

text \<open>
  A system whose states only grow: every step from a state of the invariant leads to a state that
  extends it, in an order that is reflexive and transitive.  Facts that survive extension can be
  carried over any later history.
\<close>

locale growing_system = inv_system +
  fixes ext :: "'a \<Rightarrow> 'a \<Rightarrow> bool"
  assumes ext_refl: "ext s s"
    and ext_trans: "ext s t \<Longrightarrow> ext t u \<Longrightarrow> ext s u"
    and ext_step: "inv s \<Longrightarrow> step s t \<Longrightarrow> ext s t"
begin

lemma history_ext: "step\<^sup>*\<^sup>* s t \<Longrightarrow> inv s \<Longrightarrow> inv t \<and> ext s t"
  by (induction rule: rtranclp_induct) (auto intro: inv_step ext_refl ext_trans ext_step)

end

section \<open>Optimistic revisions\<close>

text \<open>
  A register whose writers name the revision they have read.  \<open>occ_run\<close> runs a history of write
  attempts, in the order the database serialises them, and keeps the expected revisions of the
  attempts that succeeded.
\<close>

fun occ_run :: "(nat \<Rightarrow> 'a \<Rightarrow> 's \<Rightarrow> 's option) \<Rightarrow> (nat \<times> 'a) list \<Rightarrow> 's \<Rightarrow> nat list \<times> 's" where
  "occ_run w [] s = ([], s)"
| "occ_run w ((e, a) # hs) s =
     (case w e a s of
        None \<Rightarrow> occ_run w hs s
      | Some s' \<Rightarrow> (let (es, t) = occ_run w hs s' in (e # es, t)))"

locale occ_register =
  fixes rev_of :: "'s \<Rightarrow> nat" and attempt :: "nat \<Rightarrow> 'a \<Rightarrow> 's \<Rightarrow> 's option"
  assumes attempt_rev: "attempt e a s = Some s' \<Longrightarrow> rev_of s = e \<and> rev_of s' = Suc e"
begin

lemma run_successes:
  "rev_of s \<le> rev_of (snd (occ_run attempt hs s))
   \<and> fst (occ_run attempt hs s) = [rev_of s ..< rev_of (snd (occ_run attempt hs s))]"
proof (induction hs arbitrary: s)
  case (Cons h hs)
  obtain e a where h: "h = (e, a)" by (cases h)
  show ?case
  proof (cases "attempt e a s")
    case None
    then show ?thesis using Cons by (simp add: h)
  next
    case (Some s')
    with attempt_rev have "rev_of s = e" "rev_of s' = Suc e" by auto
    with Some Cons [of s'] show ?thesis by (auto simp: h upt_conv_Cons split: prod.splits)
  qed
qed simp

lemma run_no_lost_update: "distinct (fst (occ_run attempt hs s))"
  using run_successes [of s hs] by simp

end

end
