(* ===== verification/Workload_Tree.thy ===== *)
theory Workload_Tree
  imports Treer_Prelude
begin

text \<open>
  The workspace Tree of \<open>treer-protocol\<close> (\<open>workload_tree.rs\<close>, \<open>targets.rs\<close>): folders,
  placements, canonical paths and target resolution.  The first part holds the data and the
  operations; the lemmas show that canonical paths exist exactly for folders whose parent
  chain ends at the root, that resolving a canonical path gives back the folder or workload
  it names, and that resolution never leaves the folder it starts in.
\<close>

section \<open>Data and operations\<close>

record workload_folder =
  folder_id :: string
  folder_name :: string
  parent_id :: "string option"

record workload_placement =
  pl_agent_id :: string
  pl_folder_id :: "string option"
  pl_position :: int

record workload_tree =
  folders :: "workload_folder list"
  placements :: "workload_placement list"

record workload_target =
  wt_id :: string
  wt_name :: string

definition containing_folder :: "workload_tree \<Rightarrow> string \<Rightarrow> string option" where
  "containing_folder t i =
     Option.bind (find (\<lambda>p. pl_agent_id p = i) (placements t)) pl_folder_id"

text \<open>The \<open>while let Some(id) = next\<close> loop of \<open>folder_path\<close>; \<open>seen\<close> is its hash set.\<close>

function folder_path_loop ::
  "workload_folder list \<Rightarrow> string list \<Rightarrow> string list \<Rightarrow> string option \<Rightarrow> string list res" where
  "folder_path_loop fs seen names None = Inr names"
| "folder_path_loop fs seen names (Some i) =
     (if i \<in> set seen then
        Inl (protocol_error_new ''invalid_workload_tree'' ''folder cycle detected'')
      else (case find (\<lambda>f. folder_id f = i) fs of
          None \<Rightarrow> Inl (protocol_error_new ''folder_not_found'' ''folder no longer exists; retry'')
        | Some f \<Rightarrow> folder_path_loop fs (i # seen) (names @ [folder_name f]) (parent_id f)))"
  by pat_completeness auto
termination
proof (relation "measure (\<lambda>(fs, seen, _, _). card (folder_id ` set fs - set seen))", goal_cases)
  case (2 fs seen names i f)
  then have "i \<in> folder_id ` set fs - set seen" by (auto simp: find_Some_iff)
  then have "folder_id ` set fs - set (i # seen) \<subset> folder_id ` set fs - set seen" by auto
  then show ?case by (auto intro: psubset_card_mono)
qed simp

definition folder_path :: "workload_tree \<Rightarrow> string option \<Rightarrow> string res" where
  "folder_path t i =
     and_then (folder_path_loop (folders t) [] [] i)
       (\<lambda>names. Inr (''/'' @ join_with ''/'' (rev names)))"

definition workload_path :: "workload_tree \<Rightarrow> string \<Rightarrow> string \<Rightarrow> string res" where
  "workload_path t i name =
     and_then (folder_path t (containing_folder t i))
       (\<lambda>p. Inr (trim_end_matches CHR ''/'' p @ ''/'' @ name))"

fun push_components :: "string list \<Rightarrow> string list \<Rightarrow> string list res" where
  "push_components parts [] = Inr parts"
| "push_components parts (p # ps) =
     (if p = [] \<or> p = ''.'' then push_components parts ps
      else if p = ''..'' then push_components (butlast parts) ps
      else if trim p \<noteq> p \<or> has_control p then
        Inl (protocol_error_new ''invalid_tree_path''
          ''path components must have visible names without surrounding whitespace'')
      else push_components (parts @ [p]) ps)"

definition path_components ::
  "workload_tree \<Rightarrow> string \<Rightarrow> string option \<Rightarrow> string list res" where
  "path_components t path cwd =
     (if trim path = [] then
        Inl (protocol_error_new ''invalid_tree_path'' ''path cannot be empty'')
      else
        and_then
          (if starts_with path ''/'' then Inr []
           else and_then (folder_path t cwd)
             (\<lambda>p. Inr (filter (\<lambda>c. c \<noteq> []) (split_on CHR ''/'' p))))
          (\<lambda>parts. push_components parts (split_on CHR ''/'' path)))"

fun resolve_names ::
  "workload_folder list \<Rightarrow> string \<Rightarrow> string option \<Rightarrow> string list \<Rightarrow> string option res" where
  "resolve_names fs path parent [] = Inr parent"
| "resolve_names fs path parent (name # ns) =
     (case filter (\<lambda>f. parent_id f = parent \<and> folder_name f = name) fs of
        [] \<Rightarrow> Inl (protocol_error_new ''folder_not_found'' (''folder not found: '' @ path))
      | [f] \<Rightarrow> resolve_names fs path (Some (folder_id f)) ns
      | _ \<Rightarrow> Inl (protocol_error_new ''folder_ambiguous'' ''duplicate folder name; use its ID''))"

definition resolve_folder_path ::
  "workload_tree \<Rightarrow> string \<Rightarrow> string option \<Rightarrow> string option res" where
  "resolve_folder_path t path cwd =
     (case find (\<lambda>f. folder_id f = path) (folders t) of
        Some f \<Rightarrow> Inr (Some (folder_id f))
      | None \<Rightarrow> and_then (path_components t path cwd)
          (\<lambda>names. resolve_names (folders t) path None names))"

definition resolve_location ::
  "workload_tree \<Rightarrow> string option \<Rightarrow> string \<Rightarrow> (string option \<times> string) res" where
  "resolve_location t cwd target =
     (if CHR ''/'' \<in> set target then
        (if last target = CHR ''/'' \<or> last (split_on CHR ''/'' target) \<in> {''.'', ''..''} then
           Inl (protocol_error_new ''invalid_agent_target'' ''a folder is not an Agent target'')
         else and_then (path_components t target cwd) (\<lambda>parts.
           if parts = [] then
             Inl (protocol_error_new ''invalid_agent_target'' ''workspace root is not an Agent'')
           else and_then
             (resolve_folder_path t (''/'' @ join_with ''/'' (butlast parts)) None)
             (\<lambda>parent. Inr (parent, last parts))))
      else Inr (cwd, target))"

definition resolve_target ::
  "workload_tree \<Rightarrow> workload_target list \<Rightarrow> string option \<Rightarrow> string \<Rightarrow> string res" where
  "resolve_target t rows caller target =
     (if target = ''self'' \<or> target = ''.'' then
        ok_or_else caller (protocol_error_new ''agent_identity_required''
          ''self requires an authenticated Agent identity'')
      else if starts_with target ''ag_'' \<or> starts_with target ''app_''
          \<or> (\<exists>r \<in> set rows. wt_id r = target) then Inr target
      else
        (let cwd = Option.bind caller (containing_folder t) in
         and_then (resolve_location t cwd target) (\<lambda>(folder, name).
           case filter (\<lambda>r. wt_name r = name \<and> containing_folder t (wt_id r) = folder) rows of
             [row] \<Rightarrow> Inr (wt_id row)
           | [] \<Rightarrow>
               (if CHR ''/'' \<notin> set target then
                  and_then (try_map (\<lambda>r. workload_path t (wt_id r) (wt_name r))
                              (filter (\<lambda>r. wt_name r = target) rows)) (\<lambda>paths.
                  and_then (folder_path t cwd) (\<lambda>here.
                    Inl (protocol_error_new ''agent_not_in_folder''
                           (''no Agent named '' @ target @ '' in '' @ here
                              @ ''; use a tree path or stable ID'')
                         \<lparr>pe_hint := Some (take 10 (remdups_adj (sort paths)))\<rparr>)))
                else Inl (protocol_error_new ''agent_not_found'' (''Agent not found at '' @ target)))
           | _ \<Rightarrow> Inl (protocol_error_new ''agent_ambiguous''
               ''multiple Agents in this folder have this name; use a stable ID''))))"

definition validate_workload_label :: "string \<Rightarrow> unit res" where
  "validate_workload_label name =
     (if name = [] \<or> trim name \<noteq> name \<or> name \<in> {''self'', ''.'', ''..''}
         \<or> CHR ''/'' \<in> set name \<or> has_control name
         \<or> starts_with name ''ag_'' \<or> starts_with name ''app_'' then
        Inl (protocol_error_new ''invalid_agent_name''
          ''Agent name must be a visible path component, not self, dot, or a stable ID'')
      else Inr ())"

subsection \<open>Workspace pins\<close>

datatype workspace_pin_kind = PinAgent | PinApp | PinFolder

fun pin_kind_as_str :: "workspace_pin_kind \<Rightarrow> string" where
  "pin_kind_as_str PinAgent = ''agent''"
| "pin_kind_as_str PinApp = ''app''"
| "pin_kind_as_str PinFolder = ''folder''"

definition pin_kind_parse :: "string \<Rightarrow> workspace_pin_kind option" where
  "pin_kind_parse v =
     (if v = ''agent'' then Some PinAgent else if v = ''app'' then Some PinApp
      else if v = ''folder'' then Some PinFolder else None)"

definition ascii_alphanumeric :: "char \<Rightarrow> bool" where
  "ascii_alphanumeric c \<longleftrightarrow> (48 \<le> ordb c \<and> ordb c \<le> 57) \<or> (65 \<le> ordb c \<and> ordb c \<le> 90)
     \<or> (97 \<le> ordb c \<and> ordb c \<le> 122)"

definition workspace_pin_id_ok :: "string \<Rightarrow> bool" where
  "workspace_pin_id_ok i \<longleftrightarrow> 1 \<le> length i \<and> length i \<le> 128
     \<and> (\<forall>b \<in> set i. ascii_alphanumeric b \<or> b \<in> {CHR ''_'', CHR ''.'', CHR '':'', CHR ''-''})"

section \<open>Parent chains\<close>

text \<open>\<open>anc_chain fs i c\<close>: following parents from \<open>i\<close> visits the folders \<open>c\<close> and ends at the root.\<close>

inductive anc_chain :: "workload_folder list \<Rightarrow> string option \<Rightarrow> workload_folder list \<Rightarrow> bool" where
  chain_root: "anc_chain fs None []"
| chain_step: "find (\<lambda>f. folder_id f = i) fs = Some f \<Longrightarrow> anc_chain fs (parent_id f) c
    \<Longrightarrow> anc_chain fs (Some i) (f # c)"

inductive_cases anc_chain_SomeE: "anc_chain fs (Some i) c"
inductive_simps anc_chain_None [simp]: "anc_chain fs None c"
inductive_simps anc_chain_Nil [simp]: "anc_chain fs i []"
inductive_simps anc_chain_Cons: "anc_chain fs i (f # c)"

lemma find_folder: "find (\<lambda>f. folder_id f = i) fs = Some f \<Longrightarrow> folder_id f = i \<and> f \<in> set fs"
  by (auto simp: find_Some_iff)

lemma anc_chain_det: "anc_chain fs i c \<Longrightarrow> anc_chain fs i c' \<Longrightarrow> c = c'"
proof (induction arbitrary: c' rule: anc_chain.induct)
  case (chain_step i fs f c)
  from chain_step.prems chain_step.hyps(1) obtain d
    where "c' = f # d" "anc_chain fs (parent_id f) d"
    by (auto elim: anc_chain_SomeE)
  with chain_step.IH show ?case by simp
qed simp

lemma anc_chain_member:
  "anc_chain fs i c \<Longrightarrow> f \<in> set c \<Longrightarrow>
     \<exists>c'. anc_chain fs (Some (folder_id f)) c' \<and> length c' \<le> length c"
proof (induction rule: anc_chain.induct)
  case (chain_step i fs g c)
  show ?case
  proof (cases "f = g")
    case True
    with find_folder [OF chain_step.hyps(1)] anc_chain.chain_step [OF chain_step.hyps(1,2)]
    have "anc_chain fs (Some (folder_id f)) (f # c)" by simp
    then show ?thesis by (intro exI [of _ "f # c"]) simp
  next
    case False
    with chain_step show ?thesis by auto
  qed
qed simp

lemma anc_chain_distinct: "anc_chain fs i c \<Longrightarrow> distinct (map folder_id c)"
proof (induction rule: anc_chain.induct)
  case (chain_step i fs f c)
  have fid: "folder_id f = i" using find_folder [OF chain_step.hyps(1)] by simp
  have whole: "anc_chain fs (Some i) (f # c)"
    using chain_step.hyps by (rule anc_chain.chain_step)
  have "folder_id g \<noteq> i" if "g \<in> set c" for g
  proof
    assume "folder_id g = i"
    with anc_chain_member [OF chain_step.hyps(2) that] obtain c'
      where c': "anc_chain fs (Some i) c'" and len: "length c' \<le> length c" by blast
    from anc_chain_det [OF whole c'] len show False by auto
  qed
  then have "i \<notin> folder_id ` set c" by blast
  with chain_step.IH fid show ?case by simp
qed simp

lemma anc_chain_subset: "anc_chain fs i c \<Longrightarrow> set c \<subseteq> set fs"
  by (induction rule: anc_chain.induct) (auto dest: find_folder)

lemma folder_path_loop_chain:
  "anc_chain fs i c \<Longrightarrow> set (map folder_id c) \<inter> set seen = {} \<Longrightarrow>
     folder_path_loop fs seen names i = Inr (names @ map folder_name c)"
proof (induction arbitrary: seen names rule: anc_chain.induct)
  case (chain_step i fs f c)
  have fid: "folder_id f = i" using find_folder [OF chain_step.hyps(1)] by simp
  have "distinct (map folder_id (f # c))"
    using anc_chain_distinct [OF anc_chain.chain_step [OF chain_step.hyps]] .
  with chain_step fid show ?case by auto
qed simp

lemma folder_path_loop_Inr:
  "folder_path_loop fs seen names i = Inr ns \<Longrightarrow>
     \<exists>c. anc_chain fs i c \<and> ns = names @ map folder_name c"
proof (induction fs seen names i rule: folder_path_loop.induct)
  case (2 fs seen names i)
  then obtain f where f: "find (\<lambda>f. folder_id f = i) fs = Some f" and ni: "i \<notin> set seen"
    by (auto split: if_splits option.splits)
  with 2 obtain c where "anc_chain fs (parent_id f) c" "ns = (names @ [folder_name f]) @ map folder_name c"
    by auto
  with f show ?case by (auto intro!: exI [of _ "f # c"] anc_chain.intros)
qed (auto intro: anc_chain.intros)

lemma folder_path_iff_chain:
  "folder_path t i = Inr p \<longleftrightarrow>
     (\<exists>c. anc_chain (folders t) i c \<and> p = ''/'' @ join_with ''/'' (rev (map folder_name c)))"
  unfolding folder_path_def
  by (auto simp: res_simps dest!: folder_path_loop_Inr)
     (metis append_Nil folder_path_loop_chain inf_bot_right list.set(1))

section \<open>Well-formed trees\<close>

definition good_component :: "string \<Rightarrow> bool" where
  "good_component n \<longleftrightarrow> n \<noteq> [] \<and> n \<noteq> ''.'' \<and> n \<noteq> ''..'' \<and> CHR ''/'' \<notin> set n
     \<and> trim n = n \<and> \<not> has_control n"

definition unique_siblings :: "workload_folder list \<Rightarrow> bool" where
  "unique_siblings fs \<longleftrightarrow> distinct (map (\<lambda>f. (parent_id f, folder_name f)) fs)"

definition wf_folders :: "workload_folder list \<Rightarrow> bool" where
  "wf_folders fs \<longleftrightarrow> distinct (map folder_id fs)
     \<and> (\<forall>f \<in> set fs. good_component (folder_name f) \<and> \<not> starts_with (folder_id f) ''/'')"

lemma filter_distinct_key:
  "distinct (map k xs) \<Longrightarrow> x \<in> set xs \<Longrightarrow> filter (\<lambda>y. k y = k x) xs = [x]"
proof (induction xs)
  case (Cons a xs)
  show ?case
  proof (cases "a = x")
    case True
    with Cons.prems have "filter (\<lambda>y. k y = k x) xs = []"
      by (simp add: filter_empty_conv) (metis image_eqI)
    with True show ?thesis by simp
  next
    case False
    with Cons.prems have "k a \<noteq> k x" and "x \<in> set xs" by auto
    with Cons show ?thesis by simp
  qed
qed simp

lemma trim_slash: "trim (CHR ''/'' # s) \<noteq> []"
proof -
  have h: "ws_head (CHR ''/'' # s) = 0"
    by (simp add: ws_head_def ws_enc_def ws_encodings_def take_Cons')
  then have "trim_start (CHR ''/'' # s) = CHR ''/'' # s" by (simp add: trim_start.simps)
  moreover have "trim_end (CHR ''/'' # s) \<noteq> []" for s
  proof (induction "length s" arbitrary: s rule: less_induct)
    case less
    let ?s = "CHR ''/'' # s"
    show ?case
    proof (cases "ws_last ?s = 0")
      case True
      then show ?thesis by (simp add: trim_end.simps)
    next
      case False
      have le: "ws_last ?s \<le> length s"
      proof (cases "length s < 3")
        case True
        then consider "s = []" | a where "s = [a]" | a b where "s = [a, b]"
          by (cases s; cases "tl s"; cases "tl (tl s)") auto
        then show ?thesis
          by cases (auto simp: ws_last_def ws_enc_def ws_encodings_def take_Cons')
      qed (auto simp: ws_last_def)
      then have "take (length ?s - ws_last ?s) ?s = CHR ''/'' # take (length s - ws_last ?s) s"
        by (simp add: Suc_diff_le)
      moreover have "length (take (length s - ws_last ?s) s) < length s"
        using False le by auto
      ultimately show ?thesis using less False
        by (simp add: trim_end.simps [of ?s])
    qed
  qed
  ultimately show ?thesis by (simp add: trim_def)
qed

lemma push_components_good:
  "\<forall>n \<in> set ns. good_component n \<Longrightarrow> push_components parts ns = Inr (parts @ ns)"
  by (induction ns arbitrary: parts) (auto simp: good_component_def)

lemma push_components_result:
  "push_components parts ps = Inr r \<Longrightarrow> \<forall>n \<in> set parts. good_component n \<Longrightarrow>
     \<forall>p \<in> set ps. CHR ''/'' \<notin> set p \<Longrightarrow> \<forall>n \<in> set r. good_component n"
proof (induction parts ps rule: push_components.induct)
  case (2 parts p ps)
  have rest: "\<forall>q \<in> set ps. CHR ''/'' \<notin> set q" using "2.prems"(3) by simp
  consider "p = [] \<or> p = ''.''" | "p \<noteq> []" "p \<noteq> ''.''" "p = ''..''"
    | "p \<noteq> []" "p \<noteq> ''.''" "p \<noteq> ''..''" "trim p = p" "\<not> has_control p"
    using "2.prems"(1) by (auto simp only: push_components.simps split: if_splits)
  then show ?case
  proof cases
    case 1
    then have "push_components parts ps = Inr r" using "2.prems"(1) by auto
    then show ?thesis using "2.IH"(1) [OF 1] "2.prems"(2) rest by blast
  next
    case 2
    have "\<forall>n \<in> set (butlast parts). good_component n" using "2.prems"(2) by (meson in_set_butlastD)
    then show ?thesis using "2.IH"(2) "2.prems"(1) 2 rest by simp
  next
    case 3
    have "good_component p" using 3 "2.prems"(3) by (simp add: good_component_def)
    then have "\<forall>n \<in> set (parts @ [p]). good_component n" using "2.prems"(2) by auto
    then show ?thesis using "2.IH"(3) "2.prems"(1) 3 rest by simp
  qed
qed simp

lemma path_components_absolute:
  assumes "\<forall>n \<in> set ns. good_component n"
  shows "path_components t (''/'' @ join_with ''/'' ns) cwd = Inr ns"
proof (cases ns)
  case Nil
  then show ?thesis
    using trim_slash [of "[]"] by (simp add: path_components_def starts_with_def)
next
  case (Cons a as)
  with assms have "split_on CHR ''/'' (join_with ''/'' ns) = ns"
    by (intro split_join) (auto simp: good_component_def)
  then show ?thesis
    using trim_slash assms by (simp add: path_components_def starts_with_def push_components_good)
qed

lemma resolve_names_append:
  "resolve_names fs path parent (xs @ ys) =
     and_then (resolve_names fs path parent xs) (\<lambda>q. resolve_names fs path q ys)"
  by (induction fs path parent xs rule: resolve_names.induct) (auto split: list.splits)

lemma resolve_names_chain:
  "anc_chain fs i c \<Longrightarrow> unique_siblings fs \<Longrightarrow>
     resolve_names fs path None (rev (map folder_name c)) = Inr i"
proof (induction rule: anc_chain.induct)
  case (chain_step i fs f c)
  have f: "folder_id f = i" "f \<in> set fs" using find_folder [OF chain_step.hyps(1)] by auto
  have "filter (\<lambda>g. (parent_id g, folder_name g) = (parent_id f, folder_name f)) fs = [f]"
    using chain_step.prems f(2) unfolding unique_siblings_def by (rule filter_distinct_key)
  then have "filter (\<lambda>g. parent_id g = parent_id f \<and> folder_name g = folder_name f) fs = [f]"
    by simp
  with chain_step f show ?case by (simp add: resolve_names_append)
qed simp

lemma chain_names_good:
  "anc_chain fs i c \<Longrightarrow> wf_folders fs \<Longrightarrow> \<forall>n \<in> set (map folder_name c). good_component n"
  using anc_chain_subset by (fastforce simp: wf_folders_def)

lemma resolve_absolute_chain:
  assumes "wf_folders (folders t)" "unique_siblings (folders t)" "anc_chain (folders t) i c"
  shows "resolve_folder_path t (''/'' @ join_with ''/'' (rev (map folder_name c))) cwd = Inr i"
proof -
  let ?p = "''/'' @ join_with ''/'' (rev (map folder_name c))"
  have "find (\<lambda>f. folder_id f = ?p) (folders t) = None"
    using assms(1) by (auto simp: find_None_iff wf_folders_def starts_with_def)
  moreover have "path_components t ?p cwd = Inr (rev (map folder_name c))"
    using chain_names_good [OF assms(3,1)] by (intro path_components_absolute) simp
  ultimately show ?thesis
    using resolve_names_chain [OF assms(3,2)] by (simp add: resolve_folder_path_def)
qed

section \<open>Canonical workload paths\<close>

lemma join_with_snoc:
  "xs \<noteq> [] \<Longrightarrow> join_with sep (xs @ [x]) = join_with sep xs @ sep @ x"
  by (induction sep xs rule: join_with.induct) (auto simp: join_with_Cons)

lemma join_good_last:
  "ns \<noteq> [] \<Longrightarrow> \<forall>n \<in> set ns. good_component n \<Longrightarrow>
     join_with ''/'' ns \<noteq> [] \<and> last (join_with ''/'' ns) \<noteq> CHR ''/''"
proof (induction ns rule: rev_induct)
  case (snoc x xs)
  then have "x \<noteq> []" and "CHR ''/'' \<notin> set x" by (simp_all add: good_component_def)
  then have x: "x \<noteq> []" "last x \<noteq> CHR ''/''" using last_in_set by metis+
  then show ?case by (cases "xs = []") (auto simp: join_with_snoc)
qed simp

lemma trim_end_matches_keep: "s \<noteq> [] \<Longrightarrow> last s \<noteq> c \<Longrightarrow> trim_end_matches c s = s"
  by (cases s rule: rev_cases) (auto simp: trim_end_matches_def)

lemma trim_folder_path:
  assumes "\<forall>n \<in> set ns. good_component n"
  shows "trim_end_matches CHR ''/'' (''/'' @ join_with ''/'' ns) @ ''/'' @ x
         = ''/'' @ join_with ''/'' (ns @ [x])"
proof (cases "ns = []")
  case True
  then show ?thesis by (simp add: trim_end_matches_def)
next
  case False
  have j: "join_with ''/'' ns \<noteq> []" "last (join_with ''/'' ns) \<noteq> CHR ''/''"
    using join_good_last [OF False assms] by auto
  then have "trim_end_matches CHR ''/'' (''/'' @ join_with ''/'' ns) = ''/'' @ join_with ''/'' ns"
    by (intro trim_end_matches_keep) auto
  with False show ?thesis by (simp add: join_with_snoc)
qed

lemma workload_path_form:
  assumes "workload_path t i name = Inr p" "wf_folders (folders t)"
  obtains c where "anc_chain (folders t) (containing_folder t i) c"
    and "p = ''/'' @ join_with ''/'' (rev (map folder_name c) @ [name])"
proof -
  from assms(1) obtain c where c: "anc_chain (folders t) (containing_folder t i) c"
    and p: "p = trim_end_matches CHR ''/'' (''/'' @ join_with ''/'' (rev (map folder_name c)))
                @ ''/'' @ name"
    by (auto simp: workload_path_def res_simps folder_path_iff_chain)
  have "\<forall>n \<in> set (rev (map folder_name c)). good_component n"
    using chain_names_good [OF c assms(2)] by simp
  from trim_folder_path [OF this] p have "p = ''/'' @ join_with ''/'' (rev (map folder_name c) @ [name])"
    by simp
  with c that show ?thesis by blast
qed

lemma label_good: "validate_workload_label name = Inr () \<Longrightarrow> good_component name"
  by (auto simp: validate_workload_label_def good_component_def split: if_splits)

lemma resolve_location_path:
  assumes wf: "wf_folders (folders t)" "unique_siblings (folders t)"
    and c: "anc_chain (folders t) i c" and name: "good_component name"
  shows "resolve_location t cwd (''/'' @ join_with ''/'' (rev (map folder_name c) @ [name]))
         = Inr (i, name)"
proof -
  let ?ns = "rev (map folder_name c) @ [name]"
  have good: "\<forall>n \<in> set ?ns. good_component n"
    using chain_names_good [OF c wf(1)] name by auto
  have "split_on CHR ''/'' (join_with ''/'' ?ns) = ?ns"
    using good by (intro split_join) (auto simp: good_component_def)
  moreover have "path_components t (''/'' @ join_with ''/'' ?ns) cwd = Inr ?ns"
    by (rule path_components_absolute [OF good])
  moreover have "last (join_with ''/'' ?ns) \<noteq> CHR ''/''" "join_with ''/'' ?ns \<noteq> []"
    using join_good_last [OF _ good] by auto
  ultimately show ?thesis
    using resolve_absolute_chain [OF wf c] name by (simp add: resolve_location_def good_component_def)
qed

section \<open>Properties\<close>

definition example_tree :: workload_tree where
  "example_tree =
     \<lparr>folders = [\<lparr>folder_id = ''folder_1'', folder_name = ''team'', parent_id = None\<rparr>,
                 \<lparr>folder_id = ''folder_2'', folder_name = ''ops'', parent_id = Some ''folder_1''\<rparr>],
      placements = [\<lparr>pl_agent_id = ''ag_1'', pl_folder_id = Some ''folder_2'', pl_position = 0\<rparr>]\<rparr>"

lemma example_tree_wf: "wf_folders (folders example_tree)" "unique_siblings (folders example_tree)"
  by code_simp+

text \<open>
  \<open>folder_path\<close> answers exactly when following parents from the folder ends at the root, and
  the answer lists the folder names of that chain from the root down; otherwise (a cycle or a
  missing parent) it returns one of the two Tree errors and never loops.
\<close>

theorem folder_path_spec:
  "(folder_path t i = Inr p \<longleftrightarrow>
     (\<exists>c. anc_chain (folders t) i c \<and> p = ''/'' @ join_with ''/'' (rev (map folder_name c))))
   \<and> (folder_path t i = Inl e \<longrightarrow>
       pe_code e \<in> {''invalid_workload_tree'', ''folder_not_found''}
       \<and> \<not> (\<exists>c. anc_chain (folders t) i c))"
proof -
  have "folder_path_loop fs seen names j = Inl e \<Longrightarrow>
      pe_code e \<in> {''invalid_workload_tree'', ''folder_not_found''}" for fs seen names j
    by (induction fs seen names j rule: folder_path_loop.induct)
       (auto simp: protocol_error_new_def split: if_splits option.splits)
  moreover have "folder_path t i = Inl e \<Longrightarrow> \<not> (\<exists>c. anc_chain (folders t) i c)"
    using folder_path_iff_chain by (metis sum.distinct(1))
  ultimately show ?thesis
    by (auto simp: folder_path_iff_chain) (auto simp: folder_path_def res_simps)
qed

text \<open>
  Round trip of folder paths.  In a Tree with distinct folder IDs, valid names and unique
  sibling names, resolving the canonical path of a folder from any working folder gives that
  folder back.
\<close>

theorem folder_path_roundtrip:
  assumes "wf_folders (folders t)" and "unique_siblings (folders t)"
    and "folder_path t i = Inr p"
  shows "resolve_folder_path t p cwd = Inr i"
  using assms resolve_absolute_chain by (auto simp: folder_path_iff_chain)

theorem folder_path_roundtrip_witness:
  "resolve_folder_path example_tree ''/team/ops'' (Some ''folder_1'') = Inr (Some ''folder_2'')"
proof -
  have "folder_path example_tree (Some ''folder_2'') = Inr ''/team/ops''" by code_simp
  from folder_path_roundtrip [OF example_tree_wf this] show ?thesis by simp
qed

theorem folder_path_spec_witness:
  "folder_path example_tree (Some ''folder_2'') = Inr ''/team/ops''
   \<and> (\<exists>c. anc_chain (folders example_tree) (Some ''folder_2'') c)"
proof -
  have "folder_path example_tree (Some ''folder_2'') = Inr ''/team/ops''" by code_simp
  with folder_path_spec [of example_tree "Some ''folder_2''" "''/team/ops''"] show ?thesis by blast
qed

text \<open>
  Round trip of workload addresses.  The canonical path of a workload with a valid label,
  resolved as a target by any caller, is that workload's stable ID, as long as its name is
  unique in its folder.
\<close>

theorem workload_path_roundtrip:
  assumes wf: "wf_folders (folders t)" "unique_siblings (folders t)"
    and rows: "distinct (map (\<lambda>r. (wt_name r, containing_folder t (wt_id r))) rows)"
      "\<forall>r \<in> set rows. \<not> starts_with (wt_id r) ''/''"
    and row: "row \<in> set rows" "validate_workload_label (wt_name row) = Inr ()"
    and p: "workload_path t (wt_id row) (wt_name row) = Inr p"
  shows "resolve_target t rows caller p = Inr (wt_id row)"
proof -
  from p wf(1) obtain c where c: "anc_chain (folders t) (containing_folder t (wt_id row)) c"
    and pe: "p = ''/'' @ join_with ''/'' (rev (map folder_name c) @ [wt_name row])"
    by (rule workload_path_form)
  have loc: "resolve_location t cwd p = Inr (containing_folder t (wt_id row), wt_name row)" for cwd
    using resolve_location_path [OF wf c label_good [OF row(2)]] pe by simp
  have "filter (\<lambda>r. (wt_name r, containing_folder t (wt_id r))
                  = (wt_name row, containing_folder t (wt_id row))) rows = [row]"
    using rows(1) row(1) by (rule filter_distinct_key)
  then have "filter (\<lambda>r. wt_name r = wt_name row
       \<and> containing_folder t (wt_id r) = containing_folder t (wt_id row)) rows = [row]"
    by simp
  moreover have "\<not> starts_with p ''ag_''" "\<not> starts_with p ''app_''" "p \<noteq> ''self''" "p \<noteq> ''.''"
    and "\<forall>r \<in> set rows. wt_id r \<noteq> p"
    using rows(2) pe by (auto simp: starts_with_def)
  ultimately show ?thesis using loc by (simp add: resolve_target_def Let_def)
qed

theorem workload_path_roundtrip_witness:
  "resolve_target example_tree [\<lparr>wt_id = ''ag_1'', wt_name = ''bob''\<rparr>] None ''/team/ops/bob'' = Inr ''ag_1''"
proof -
  let ?r = "\<lparr>wt_id = ''ag_1'', wt_name = ''bob''\<rparr>"
  have "validate_workload_label (wt_name ?r) = Inr ()"
    and "workload_path example_tree (wt_id ?r) (wt_name ?r) = Inr ''/team/ops/bob''" by code_simp+
  from workload_path_roundtrip [OF example_tree_wf _ _ _ this, of "[?r]"] show ?thesis
    by (simp add: starts_with_def)
qed

text \<open>
  A bare name never escapes the caller's folder: when a target without a slash that is
  neither \<open>self\<close> nor a stable ID resolves, it is the only workload of that name placed in the
  caller's own folder (the root for a caller without one).
\<close>

theorem bare_name_stays_in_folder:
  assumes "resolve_target t rows caller target = Inr i"
    and "CHR ''/'' \<notin> set target" "target \<noteq> ''self''" "target \<noteq> ''.''"
    and "\<not> starts_with target ''ag_''" "\<not> starts_with target ''app_''"
    and "\<forall>r \<in> set rows. wt_id r \<noteq> target"
  shows "\<exists>row. filter (\<lambda>r. wt_name r = target
             \<and> containing_folder t (wt_id r) = Option.bind caller (containing_folder t)) rows = [row]
           \<and> wt_id row = i"
  using assms
  by (auto simp: resolve_target_def resolve_location_def Let_def res_simps
           split: list.splits if_splits)

theorem bare_name_stays_in_folder_witness:
  "\<exists>row. filter (\<lambda>r. wt_name r = ''bob''
      \<and> containing_folder example_tree (wt_id r)
        = Option.bind (Some ''ag_1'') (containing_folder example_tree))
      [\<lparr>wt_id = ''ag_1'', wt_name = ''bob''\<rparr>] = [row] \<and> wt_id row = ''ag_1''"
proof (rule bare_name_stays_in_folder)
  show "resolve_target example_tree [\<lparr>wt_id = ''ag_1'', wt_name = ''bob''\<rparr>] (Some ''ag_1'') ''bob''
        = Inr ''ag_1''" by code_simp
qed (simp_all add: starts_with_def)

text \<open>
  Path normalisation.  The components of an accepted path are all valid names (no empty,
  dot, dot-dot, slash, control or padded component, so \<open>..\<close> cannot climb above the root), and
  printing them as an absolute path and reading it again gives the same components.
\<close>

theorem path_components_normal:
  assumes "wf_folders (folders t)" and "path_components t path cwd = Inr ps"
  shows "(\<forall>n \<in> set ps. good_component n)
         \<and> path_components t (''/'' @ join_with ''/'' ps) cwd' = Inr ps"
proof -
  have start: "\<forall>n \<in> set (filter (\<lambda>c. c \<noteq> []) (split_on CHR ''/'' q)). good_component n"
    if "folder_path t cwd = Inr q" for q
  proof -
    from that obtain c where c: "anc_chain (folders t) cwd c"
      and q: "q = ''/'' @ join_with ''/'' (rev (map folder_name c))"
      by (auto simp: folder_path_iff_chain)
    have good: "\<forall>n \<in> set (rev (map folder_name c)). good_component n"
      using chain_names_good [OF c assms(1)] by simp
    show ?thesis
    proof (cases "c = []")
      case True
      with q show ?thesis by simp
    next
      case False
      then have "split_on CHR ''/'' (join_with ''/'' (rev (map folder_name c)))
                 = rev (map folder_name c)"
        using good by (intro split_join) (auto simp: good_component_def)
      with q good show ?thesis by auto
    qed
  qed
  have slash: "\<forall>p \<in> set (split_on CHR ''/'' path). CHR ''/'' \<notin> set p"
    using split_on_parts_no_sep by blast
  obtain base where b: "push_components base (split_on CHR ''/'' path) = Inr ps"
    and "\<forall>n \<in> set base. good_component n"
    using assms(2) start
    by (auto simp: path_components_def res_simps split: if_splits)
  with push_components_result [OF b _ slash] have "\<forall>n \<in> set ps. good_component n" by simp
  then show ?thesis using path_components_absolute [of ps t cwd'] by simp
qed

theorem path_components_normal_witness:
  "path_components example_tree ''/team/ops'' None = Inr [''team'', ''ops'']"
proof -
  have "path_components example_tree ''../x/../team/./ops'' (Some ''folder_1'') = Inr [''team'', ''ops'']"
    by code_simp
  from path_components_normal [OF example_tree_wf(1) this, of None] show ?thesis by simp
qed

end
