(* ===== verification/Workload_Store.thy ===== *)
theory Workload_Store
  imports Workload_Tree
begin

text \<open>
  The durable Tree of the Proxy (\<open>auth/workload_tree.rs\<close>): folder creation, update and removal,
  placement of workloads and the reservation of a new Agent.  The state is one workspace's rows
  of the tables those queries touch; every mutation runs in one transaction under the workspace
  lock, so it is a function from the rows to either a failure, which leaves them unchanged, or a
  result with the new rows.  IDs from the \<open>uuid\<close> crate are arguments.
\<close>

section \<open>Rows and failures\<close>

record auth_failure =
  af_status :: nat
  af_error :: protocol_error

definition bad_request :: "string \<Rightarrow> string \<Rightarrow> auth_failure" where
  "bad_request c m = \<lparr>af_status = 400, af_error = protocol_error_new c m\<rparr>"

definition auth_not_found :: "string \<Rightarrow> string \<Rightarrow> auth_failure" where
  "auth_not_found c m = \<lparr>af_status = 404, af_error = protocol_error_new c m\<rparr>"

definition auth_conflict :: "string \<Rightarrow> string \<Rightarrow> auth_failure" where
  "auth_conflict c m = \<lparr>af_status = 409, af_error = protocol_error_new c m\<rparr>"

definition auth_database_error :: auth_failure where
  "auth_database_error =
     \<lparr>af_status = 500, af_error = protocol_error_new ''database_error'' ''database operation failed''\<rparr>"

record app_row =
  ar_app_id :: string
  ar_runtime_agent_id :: "string option"
  ar_name :: string

record tree_tables =
  tt_live :: bool
  tt_folders :: "workload_folder list"
  tt_placements :: "workload_placement list"
  tt_agent_names :: "(string \<times> string) list"
  tt_credentials :: "(string \<times> bool) list"
  tt_deleted :: "string list"
  tt_apps :: "app_row list"
  tt_reservations :: "(string \<times> string) list"
  tt_audit :: "(string \<times> string \<times> string) list"

type_synonym 'a auth_res = "auth_failure + 'a"

definition tree_invalid :: "string \<Rightarrow> auth_failure" where
  "tree_invalid m = bad_request ''invalid_workload_tree'' m"

definition lock_workload_tree :: "tree_tables \<Rightarrow> unit auth_res" where
  "lock_workload_tree s =
     (if tt_live s then Inr ()
      else Inl (auth_not_found ''workspace_not_found'' ''workspace does not exist''))"

definition insert_workspace_mutation ::
  "string \<Rightarrow> string \<Rightarrow> string \<Rightarrow> tree_tables \<Rightarrow> tree_tables" where
  "insert_workspace_mutation action kind i s = s\<lparr>tt_audit := tt_audit s @ [(action, kind, i)]\<rparr>"

section \<open>Validation\<close>

definition validate_resource_name :: "string \<Rightarrow> string \<Rightarrow> string auth_res" where
  "validate_resource_name v resource =
     (let w = trim v in
      if w = [] \<or> 80 < length w \<or> has_control w then
        Inl (bad_request ''invalid_name'' (resource @ '' name must be 1-80 printable characters''))
      else Inr w)"

definition validate_folder_name :: "string \<Rightarrow> string auth_res" where
  "validate_folder_name v =
     and_then (validate_resource_name v ''folder'') (\<lambda>name.
       if CHR ''/'' \<in> set name \<or> name \<in> {''.'', ''..''} then
         Inl (tree_invalid ''folder names cannot contain / or equal . or ..'')
       else Inr name)"

definition load_folder :: "tree_tables \<Rightarrow> string \<Rightarrow> workload_folder auth_res" where
  "load_folder s i =
     ok_or_else (find (\<lambda>f. folder_id f = i) (tt_folders s))
       (auth_not_found ''folder_not_found'' ''folder does not exist in this workspace'')"

function validate_parent_loop ::
  "tree_tables \<Rightarrow> string option \<Rightarrow> string list \<Rightarrow> string option \<Rightarrow> unit auth_res" where
  "validate_parent_loop s moving seen None = Inr ()"
| "validate_parent_loop s moving seen (Some i) =
     (if moving = Some i \<or> i \<in> set seen then
        Inl (tree_invalid ''folder move would create a cycle'')
      else (case load_folder s i of
          Inl e \<Rightarrow> Inl e
        | Inr f \<Rightarrow> validate_parent_loop s moving (i # seen) (parent_id f)))"
  by pat_completeness auto
termination
proof (relation "measure (\<lambda>(s, _, seen, _). card (folder_id ` set (tt_folders s) - set seen))",
    goal_cases)
  case (2 s moving seen i f)
  then have "i \<in> folder_id ` set (tt_folders s) - set seen"
    by (auto simp: load_folder_def ok_or_else_def find_Some_iff split: option.splits)
  then have "folder_id ` set (tt_folders s) - set (i # seen) \<subset> folder_id ` set (tt_folders s) - set seen"
    by auto
  then show ?case by (auto intro: psubset_card_mono)
qed simp

definition validate_parent :: "tree_tables \<Rightarrow> string option \<Rightarrow> string option \<Rightarrow> unit auth_res" where
  "validate_parent s parent moving = validate_parent_loop s moving [] parent"

definition validate_sibling_name ::
  "tree_tables \<Rightarrow> string option \<Rightarrow> string \<Rightarrow> string option \<Rightarrow> unit auth_res" where
  "validate_sibling_name s parent name excluding =
     (if \<exists>f \<in> set (tt_folders s). parent_id f = parent \<and> folder_name f = name
          \<and> (case excluding of None \<Rightarrow> True | Some x \<Rightarrow> folder_id f \<noteq> x) then
        Inl (bad_request ''folder_exists'' ''a folder with this name already exists in the destination'')
      else Inr ())"

definition placement_folder :: "tree_tables \<Rightarrow> string \<Rightarrow> string option" where
  "placement_folder s a =
     Option.bind (find (\<lambda>p. pl_agent_id p = a) (tt_placements s)) pl_folder_id"

definition app_workload :: "app_row \<Rightarrow> string" where
  "app_workload r = (case ar_runtime_agent_id r of None \<Rightarrow> ar_app_id r | Some a \<Rightarrow> a)"

definition validate_workload_name ::
  "tree_tables \<Rightarrow> string option \<Rightarrow> string \<Rightarrow> string option \<Rightarrow> unit auth_res" where
  "validate_workload_name s folder name excluding =
     (if (\<exists>(a, n) \<in> set (tt_agent_names s). n = name \<and> placement_folder s a = folder
            \<and> excluding \<noteq> Some a \<and> (a, True) \<notin> set (tt_credentials s) \<and> a \<notin> set (tt_deleted s))
         \<or> (\<exists>r \<in> set (tt_apps s). ar_name r = name \<and> placement_folder s (app_workload r) = folder
            \<and> excluding \<noteq> Some (app_workload r)) then
        Inl (auth_conflict ''agent_name_conflict''
          ''an Agent or App in the destination folder already has this name'')
      else Inr ())"

section \<open>Folder mutations\<close>

definition create_workload_folder ::
  "string \<Rightarrow> tree_tables \<Rightarrow> string \<Rightarrow> string option \<Rightarrow> (workload_folder \<times> tree_tables) auth_res" where
  "create_workload_folder uuid s req_name req_parent =
     and_then (validate_folder_name req_name) (\<lambda>name.
     and_then (lock_workload_tree s) (\<lambda>_.
     and_then (validate_parent s req_parent None) (\<lambda>_.
     and_then (validate_sibling_name s req_parent name None) (\<lambda>_.
       let f = \<lparr>folder_id = ''folder_'' @ uuid, folder_name = name, parent_id = req_parent\<rparr> in
       Inr (f, insert_workspace_mutation ''tree.folder.create'' ''folder'' (folder_id f)
                 (s\<lparr>tt_folders := tt_folders s @ [f]\<rparr>))))))"

definition set_folder :: "string \<Rightarrow> string \<Rightarrow> string option \<Rightarrow> workload_folder list \<Rightarrow> workload_folder list" where
  "set_folder i name parent fs =
     map (\<lambda>f. if folder_id f = i then f\<lparr>folder_name := name, parent_id := parent\<rparr> else f) fs"

definition update_workload_folder ::
  "tree_tables \<Rightarrow> string \<Rightarrow> string option \<Rightarrow> string option option
     \<Rightarrow> (workload_folder \<times> tree_tables) auth_res" where
  "update_workload_folder s i req_name req_parent =
     and_then (lock_workload_tree s) (\<lambda>_.
     and_then (load_folder s i) (\<lambda>original.
     and_then (case req_name of None \<Rightarrow> Inr (folder_name original)
                 | Some n \<Rightarrow> validate_folder_name n) (\<lambda>name.
     and_then (case req_parent of None \<Rightarrow> Inr (parent_id original)
                 | Some p \<Rightarrow> and_then (validate_parent s p (Some i)) (\<lambda>_. Inr p)) (\<lambda>parent.
     and_then (validate_sibling_name s parent name (Some i)) (\<lambda>_.
       let result = original\<lparr>folder_name := name, parent_id := parent\<rparr> in
       if name = folder_name original \<and> parent = parent_id original then Inr (result, s)
       else Inr (result, insert_workspace_mutation ''tree.folder.update'' ''folder'' i
              (s\<lparr>tt_folders := set_folder i name parent (tt_folders s)\<rparr>)))))))"

text \<open>\<open>normalize\<close>: \<open>ROW_NUMBER() OVER (PARTITION BY folder_id ORDER BY position, agent_id) - 1\<close>.\<close>

definition pl_before :: "workload_placement \<Rightarrow> workload_placement \<Rightarrow> bool" where
  "pl_before q p \<longleftrightarrow> pl_folder_id q = pl_folder_id p
     \<and> (pl_position q < pl_position p
        \<or> pl_position q = pl_position p \<and> pl_agent_id q < pl_agent_id p)"

definition normalize_placements :: "workload_placement list \<Rightarrow> workload_placement list" where
  "normalize_placements ps =
     map (\<lambda>p. p\<lparr>pl_position := int (length (filter (\<lambda>q. pl_before q p) ps))\<rparr>) ps"

definition next_position :: "workload_placement list \<Rightarrow> string option \<Rightarrow> int" where
  "next_position ps folder =
     (case map pl_position (filter (\<lambda>p. pl_folder_id p = folder) ps) of
        [] \<Rightarrow> 0 | x # xs \<Rightarrow> fold max xs x + 1)"

definition promoted_rows :: "tree_tables \<Rightarrow> string \<Rightarrow> (string \<times> string) list" where
  "promoted_rows s i =
     concat (map (\<lambda>p. case map_of (tt_agent_names s) (pl_agent_id p) of
           Some n \<Rightarrow> [(pl_agent_id p, n)]
         | None \<Rightarrow> map (\<lambda>r. (pl_agent_id p, ar_name r))
             (filter (\<lambda>r. ar_runtime_agent_id r = Some (pl_agent_id p)
                         \<or> ar_app_id r = pl_agent_id p) (tt_apps s)))
       (filter (\<lambda>p. pl_folder_id p = Some i) (tt_placements s)))"

definition folder_occupied :: "tree_tables \<Rightarrow> string \<Rightarrow> bool" where
  "folder_occupied s i \<longleftrightarrow>
     (\<exists>f \<in> set (tt_folders s). parent_id f = Some i)
     \<or> (\<exists>p \<in> set (tt_placements s). pl_folder_id p = Some i
          \<and> (pl_agent_id p, False) \<in> set (tt_credentials s))"

definition promote_placements ::
  "string \<Rightarrow> string option \<Rightarrow> workload_placement list \<Rightarrow> workload_placement list" where
  "promote_placements i parent ps =
     map (\<lambda>p. if pl_folder_id p = Some i
              then p\<lparr>pl_position := pl_position p + next_position ps parent, pl_folder_id := parent\<rparr>
              else p) ps"

definition reparent_children ::
  "string \<Rightarrow> string option \<Rightarrow> workload_folder list \<Rightarrow> workload_folder list" where
  "reparent_children i parent fs =
     map (\<lambda>f. if parent_id f = Some i then f\<lparr>parent_id := parent\<rparr> else f) fs"

definition remove_workload_folder ::
  "tree_tables \<Rightarrow> string \<Rightarrow> bool \<Rightarrow> tree_tables auth_res" where
  "remove_workload_folder s i require_empty =
     and_then (lock_workload_tree s) (\<lambda>_.
     and_then (load_folder s i) (\<lambda>result.
     and_then (if require_empty \<and> folder_occupied s i
               then Inl (bad_request ''folder_not_empty'' ''folder is not empty'') else Inr ()) (\<lambda>_.
       let s1 = s\<lparr>tt_folders := reparent_children i (parent_id result) (tt_folders s)\<rparr> in
       and_then (try_all (\<lambda>(a, n). validate_workload_name s1 (parent_id result) n (Some a))
                   (promoted_rows s1 i)) (\<lambda>_.
         let ps = promote_placements i (parent_id result) (tt_placements s1);
             s2 = s1\<lparr>tt_folders := filter (\<lambda>f. folder_id f \<noteq> i) (tt_folders s1),
                     tt_placements := normalize_placements ps\<rparr>
         in Inr (insert_workspace_mutation ''tree.folder.delete'' ''folder'' i s2)))))"

definition delete_workload_folder :: "tree_tables \<Rightarrow> string \<Rightarrow> tree_tables auth_res" where
  "delete_workload_folder s i = remove_workload_folder s i False"

section \<open>Placements and reservations\<close>

definition workload_display_name :: "tree_tables \<Rightarrow> string \<Rightarrow> string option" where
  "workload_display_name s a =
     (case map_of (tt_agent_names s) a of
        Some n \<Rightarrow> Some n
      | None \<Rightarrow> map_option ar_name
          (find (\<lambda>r. ar_runtime_agent_id r = Some a \<or> ar_app_id r = a) (tt_apps s)))"

definition insert_placement ::
  "string \<Rightarrow> string option \<Rightarrow> int \<Rightarrow> workload_placement list \<Rightarrow> int \<times> workload_placement list" where
  "insert_placement agent folder wanted ps =
     (let kept = normalize_placements (filter (\<lambda>p. pl_agent_id p \<noteq> agent) ps);
          count = int (length (filter (\<lambda>p. pl_folder_id p = folder) kept));
          position = min wanted count
      in (position,
          map (\<lambda>p. if pl_folder_id p = folder \<and> position \<le> pl_position p
                   then p\<lparr>pl_position := pl_position p + 1\<rparr> else p) kept
          @ [\<lparr>pl_agent_id = agent, pl_folder_id = folder, pl_position = position\<rparr>]))"

definition set_workload_placement ::
  "tree_tables \<Rightarrow> string \<Rightarrow> string option \<Rightarrow> int \<Rightarrow> (workload_placement \<times> tree_tables) auth_res" where
  "set_workload_placement s agent folder wanted =
     (if wanted < 0 then Inl (tree_invalid ''position must be nonnegative'')
      else
        and_then (lock_workload_tree s) (\<lambda>_.
        and_then (if (agent, False) \<in> set (tt_credentials s) then Inr ()
                  else Inl (tree_invalid ''agent does not exist in this workspace'')) (\<lambda>_.
        and_then (validate_parent s folder None) (\<lambda>_.
        and_then (case workload_display_name s agent of None \<Rightarrow> Inr ()
                    | Some name \<Rightarrow> validate_workload_name s folder name (Some agent)) (\<lambda>_.
          let original = map_option (\<lambda>p. (pl_folder_id p, pl_position p))
                (find (\<lambda>p. pl_agent_id p = agent) (tt_placements s));
              (position, ps) = insert_placement agent folder wanted (tt_placements s);
              s1 = s\<lparr>tt_placements := ps\<rparr>
          in Inr (\<lparr>pl_agent_id = agent, pl_folder_id = folder, pl_position = position\<rparr>,
                  if original \<noteq> Some (folder, position)
                  then insert_workspace_mutation ''tree.placement.update'' ''agent'' agent s1
                  else s1))))))"

definition creation_folder ::
  "tree_tables \<Rightarrow> string option \<Rightarrow> string option \<Rightarrow> string option auth_res" where
  "creation_folder s requested caller =
     and_then
       (case requested of
          Some r \<Rightarrow> if r = ''/'' then Inr None else Inr (Some r)
        | None \<Rightarrow> (case caller of
            None \<Rightarrow> Inr None
          | Some c \<Rightarrow>
              (case find (\<lambda>p. pl_agent_id p = c) (tt_placements s) of
                 Some p \<Rightarrow>
                   if (c, False) \<in> set (tt_credentials s) \<and> c \<notin> set (tt_deleted s)
                   then Inr (pl_folder_id p)
                   else Inl (bad_request ''caller_unplaced''
                     ''caller has no active placement; request an explicitly authorized folder or ask the owner to place it'')
               | None \<Rightarrow> Inl (bad_request ''caller_unplaced''
                   ''caller has no active placement; request an explicitly authorized folder or ask the owner to place it''))))
       (\<lambda>destination. and_then (validate_parent s destination None) (\<lambda>_. Inr destination))"

text \<open>
  The reservation of a new Agent.  The credential string and its stored hash stay abstract: the
  model keeps the Agent ID and its revocation flag.  A second insert for the same Agent ID
  violates the primary keys and rolls back.
\<close>

definition reserve_named_agent ::
  "tree_tables \<Rightarrow> string \<Rightarrow> string \<Rightarrow> string option \<Rightarrow> string option \<Rightarrow> string option
     \<Rightarrow> tree_tables auth_res" where
  "reserve_named_agent s agent name folder caller human_creator =
     and_then (map_err (\<lambda>e. bad_request ''invalid_agent_name'' (pe_message e))
                 (validate_workload_label name)) (\<lambda>_.
     and_then (lock_workload_tree s) (\<lambda>_.
     and_then (creation_folder s folder caller) (\<lambda>destination.
     and_then (validate_parent s destination None) (\<lambda>_.
     and_then (validate_workload_name s destination name (Some agent)) (\<lambda>_.
       if agent \<in> fst ` set (tt_credentials s) \<or> agent \<in> fst ` set (tt_agent_names s)
          \<or> agent \<in> pl_agent_id ` set (tt_placements s) then Inl auth_database_error
       else Inr (insert_workspace_mutation ''tree.placement.create'' ''agent'' agent
         (s\<lparr>tt_credentials := tt_credentials s @ [(agent, False)],
            tt_agent_names := tt_agent_names s @ [(agent, name)],
            tt_placements := tt_placements s
              @ [\<lparr>pl_agent_id = agent, pl_folder_id = destination,
                  pl_position = next_position (tt_placements s) destination\<rparr>],
            tt_reservations := (case human_creator of None \<Rightarrow> tt_reservations s
              | Some c \<Rightarrow> tt_reservations s @ [(agent, c)])\<rparr>)))))))"

section \<open>The Tree invariant\<close>

definition tree_of :: "tree_tables \<Rightarrow> workload_tree" where
  "tree_of s = \<lparr>folders = tt_folders s, placements = tt_placements s\<rparr>"

definition rooted :: "workload_folder list \<Rightarrow> string option \<Rightarrow> bool" where
  "rooted fs i \<longleftrightarrow> (\<exists>c. anc_chain fs i c)"

definition store_inv :: "tree_tables \<Rightarrow> bool" where
  "store_inv s \<longleftrightarrow> wf_folders (tt_folders s)
     \<and> (\<forall>f \<in> set (tt_folders s). rooted (tt_folders s) (Some (folder_id f)))
     \<and> distinct (map pl_agent_id (tt_placements s))
     \<and> (\<forall>p \<in> set (tt_placements s). rooted (tt_folders s) (pl_folder_id p))"

lemma rooted_None [simp]: "rooted fs None"
  by (simp add: rooted_def)

lemma rooted_Some:
  "find (\<lambda>f. folder_id f = i) fs = Some f \<Longrightarrow> rooted fs (parent_id f) \<Longrightarrow> rooted fs (Some i)"
  by (auto simp: rooted_def intro: anc_chain.chain_step)

lemma rooted_SomeD:
  "rooted fs (Some i) \<Longrightarrow> \<exists>f. find (\<lambda>f. folder_id f = i) fs = Some f \<and> rooted fs (parent_id f)"
  by (auto simp: rooted_def elim!: anc_chain_SomeE)

text \<open>Carrying parent chains from one folder table to another along a renaming of parents.\<close>

lemma rooted_transfer:
  assumes "rooted fs n" and "r None = None"
    and "\<And>i f c. find (\<lambda>f. folder_id f = i) fs = Some f \<Longrightarrow> anc_chain fs (Some i) (f # c)
           \<Longrightarrow> rooted fs' (r (parent_id f)) \<Longrightarrow> rooted fs' (r (Some i))"
  shows "rooted fs' (r n)"
proof -
  from assms(1) obtain c where "anc_chain fs n c" by (auto simp: rooted_def)
  then show ?thesis using assms(2,3)
  proof (induction rule: anc_chain.induct)
    case (chain_step i fs f c)
    then have "rooted fs' (r (parent_id f))" by blast
    with chain_step.hyps chain_step.prems(2) [OF chain_step.hyps(1)] show ?case
      by (blast intro: anc_chain.chain_step)
  qed simp
qed

lemma validate_parent_loop_chain:
  "validate_parent_loop s moving seen i = Inr () \<Longrightarrow>
     \<exists>c. anc_chain (tt_folders s) i c \<and> (\<forall>f \<in> set c. moving \<noteq> Some (folder_id f))"
proof (induction s moving seen i rule: validate_parent_loop.induct)
  case (2 s moving seen i)
  then obtain f where f: "load_folder s i = Inr f" and m: "moving \<noteq> Some i" "i \<notin> set seen"
    by (auto split: if_splits sum.splits)
  with 2 obtain c where "anc_chain (tt_folders s) (parent_id f) c" "\<forall>g \<in> set c. moving \<noteq> Some (folder_id g)"
    by auto
  moreover have "find (\<lambda>f. folder_id f = i) (tt_folders s) = Some f"
    using f by (simp add: load_folder_def res_simps)
  ultimately show ?case
    using m find_folder by (intro exI [of _ "f # c"]) (auto intro: anc_chain.intros)
qed simp

lemma validate_parent_rooted: "validate_parent s i m = Inr () \<Longrightarrow> rooted (tt_folders s) i"
  using validate_parent_loop_chain by (fastforce simp: validate_parent_def rooted_def)

lemma validate_folder_name_good: "validate_folder_name v = Inr n \<Longrightarrow> good_component n"
  by (auto simp: validate_folder_name_def validate_resource_name_def good_component_def
        res_simps Let_def split: if_splits)

lemma load_folder_Inr [res_simps]:
  "load_folder s i = Inr f \<longleftrightarrow> find (\<lambda>f. folder_id f = i) (tt_folders s) = Some f"
  by (simp add: load_folder_def res_simps)

subsection \<open>Folder tables after a mutation\<close>

lemma find_set_folder:
  "find (\<lambda>f. folder_id f = j) (set_folder i n p fs) =
     map_option (\<lambda>f. if j = i then f\<lparr>folder_name := n, parent_id := p\<rparr> else f)
       (find (\<lambda>f. folder_id f = j) fs)"
  by (induction fs) (auto simp: set_folder_def)

lemma find_removed:
  "j \<noteq> i \<Longrightarrow> find (\<lambda>f. folder_id f = j) (filter (\<lambda>f. folder_id f \<noteq> i) (reparent_children i p fs)) =
     map_option (\<lambda>f. if parent_id f = Some i then f\<lparr>parent_id := p\<rparr> else f)
       (find (\<lambda>f. folder_id f = j) fs)"
  by (induction fs) (auto simp: reparent_children_def)

lemma find_append_folder:
  "find P (xs @ ys) = (case find P xs of None \<Rightarrow> find P ys | Some x \<Rightarrow> Some x)"
  by (induction xs) auto

lemma find_folder_None: "i \<notin> folder_id ` set fs \<Longrightarrow> find (\<lambda>f. folder_id f = i) fs = None"
  by (induction fs) auto

lemma rooted_add:
  assumes "rooted fs n" and "folder_id g \<notin> folder_id ` set fs"
  shows "rooted (fs @ [g]) n"
proof -
  have "rooted (fs @ [g]) ((\<lambda>x. x) n)"
    by (rule rooted_transfer [OF assms(1)]) (auto intro: rooted_Some simp: find_append_folder)
  then show ?thesis by simp
qed

lemma chain_set_folder_avoid:
  "anc_chain fs n c \<Longrightarrow> i \<notin> folder_id ` set c \<Longrightarrow> anc_chain (set_folder i nm p fs) n c"
proof (induction rule: anc_chain.induct)
  case (chain_step j fs f c)
  have "j \<noteq> i" using chain_step.prems find_folder [OF chain_step.hyps(1)] by auto
  with chain_step show ?case by (intro anc_chain.chain_step) (auto simp: find_set_folder)
qed simp

lemma rooted_set_folder:
  assumes "rooted fs n" and "anc_chain fs p d" and "i \<notin> folder_id ` set d"
  shows "rooted (set_folder i nm p fs) n"
proof -
  have p: "rooted (set_folder i nm p fs) p"
    using chain_set_folder_avoid [OF assms(2,3)] by (auto simp: rooted_def)
  have "rooted (set_folder i nm p fs) ((\<lambda>x. x) n)"
  proof (rule rooted_transfer [OF assms(1)])
    fix j f c
    assume "find (\<lambda>f. folder_id f = j) fs = Some f"
      and "rooted (set_folder i nm p fs) (parent_id f)"
    then show "rooted (set_folder i nm p fs) (Some j)"
      using p by (cases "j = i") (auto intro: rooted_Some simp: find_set_folder)
  qed simp
  then show ?thesis by simp
qed

lemma rooted_removed:
  assumes "rooted fs n" and "find (\<lambda>f. folder_id f = i) fs = Some g"
  shows "rooted (filter (\<lambda>f. folder_id f \<noteq> i) (reparent_children i (parent_id g) fs))
           (if n = Some i then parent_id g else n)" (is "rooted ?fs' _")
proof -
  let ?r = "\<lambda>x. if x = Some i then parent_id g else x"
  have "rooted ?fs' (?r n)"
  proof (rule rooted_transfer [OF assms(1)])
    fix j f c
    assume f: "find (\<lambda>f. folder_id f = j) fs = Some f"
      and ch: "anc_chain fs (Some j) (f # c)" and IH: "rooted ?fs' (?r (parent_id f))"
    show "rooted ?fs' (?r (Some j))"
    proof (cases "j = i")
      case True
      have "parent_id f \<noteq> Some i"
        using anc_chain_distinct [OF ch] ch f True
        by (auto simp: anc_chain_Cons elim!: anc_chain_SomeE dest!: find_folder)
      with True f IH assms(2) show ?thesis by simp
    next
      case False
      then show ?thesis using f IH
        by (auto intro!: rooted_Some simp: find_removed)
    qed
  qed simp
  then show ?thesis by simp
qed

subsection \<open>Preservation\<close>

lemma ids_set_folder [simp]: "map folder_id (set_folder i n p fs) = map folder_id fs"
  by (induction fs) (auto simp: set_folder_def)

lemma wf_folders_set_folder:
  "wf_folders fs \<Longrightarrow> good_component n \<Longrightarrow> wf_folders (set_folder i n p fs)"
  unfolding wf_folders_def by (simp, auto simp: set_folder_def)

lemma wf_folders_removed:
  assumes "wf_folders fs"
  shows "wf_folders (filter (\<lambda>f. folder_id f \<noteq> i) (reparent_children i p fs))"
proof -
  have "map folder_id (reparent_children i p fs) = map folder_id fs"
    by (simp add: reparent_children_def)
  then have "distinct (map folder_id (filter (\<lambda>f. folder_id f \<noteq> i) (reparent_children i p fs)))"
    using assms distinct_map_filter by (metis wf_folders_def)
  then show ?thesis using assms by (auto simp: wf_folders_def reparent_children_def)
qed

lemma create_inv:
  assumes "store_inv s" and "create_workload_folder u s n p = Inr (f, s')"
    and fresh: "''folder_'' @ u \<notin> folder_id ` set (tt_folders s)"
  shows "store_inv s'"
proof -
  let ?f = "\<lparr>folder_id = ''folder_'' @ u, folder_name = folder_name f, parent_id = p\<rparr>"
  from assms(2) have name: "good_component (folder_name f)" and par: "rooted (tt_folders s) p"
    and s': "tt_folders s' = tt_folders s @ [?f]" "tt_placements s' = tt_placements s"
    by (auto simp: create_workload_folder_def insert_workspace_mutation_def res_simps Let_def
          dest: validate_folder_name_good validate_parent_rooted)
  have keep: "rooted (tt_folders s @ [?f]) n" if "rooted (tt_folders s) n" for n
    using rooted_add [OF that] fresh by simp
  have "find (\<lambda>g. folder_id g = ''folder_'' @ u) (tt_folders s) = None"
    using fresh by (rule find_folder_None)
  then have "rooted (tt_folders s @ [?f]) (Some (''folder_'' @ u))"
    using keep [OF par] by (intro rooted_Some [of _ _ ?f]) (simp_all add: find_append_folder)
  then show ?thesis
    using assms(1) fresh name keep unfolding store_inv_def s'
    by (auto simp: wf_folders_def starts_with_def)
qed

lemma update_inv:
  assumes "store_inv s" and "update_workload_folder s i n p = Inr (f, s')"
  shows "store_inv s'"
proof -
  from assms(2) obtain g nm pp where
    g: "find (\<lambda>f. folder_id f = i) (tt_folders s) = Some g"
    and nm: "(case n of None \<Rightarrow> Inr (folder_name g) | Some x \<Rightarrow> validate_folder_name x) = Inr nm"
    and pp: "(case p of None \<Rightarrow> Inr (parent_id g)
               | Some q \<Rightarrow> and_then (validate_parent s q (Some i)) (\<lambda>_. Inr q)) = Inr pp"
    and s': "s' = s \<or> tt_folders s' = set_folder i nm pp (tt_folders s)
               \<and> tt_placements s' = tt_placements s"
    by (auto simp: update_workload_folder_def insert_workspace_mutation_def res_simps Let_def
          split: if_splits)
  have gin: "g \<in> set (tt_folders s)" and gid: "folder_id g = i" using find_folder [OF g] by auto
  have good: "good_component nm"
    using nm assms(1) gin validate_folder_name_good
    by (auto simp: store_inv_def wf_folders_def split: option.splits)
  obtain c where c: "anc_chain (tt_folders s) pp c" "i \<notin> folder_id ` set c"
  proof (cases p)
    case None
    from assms(1) gin obtain d where d: "anc_chain (tt_folders s) (Some i) d"
      by (auto simp: store_inv_def rooted_def gid)
    then obtain e where e: "d = g # e" "anc_chain (tt_folders s) (parent_id g) e"
      using g by (auto elim: anc_chain_SomeE)
    moreover have "i \<notin> folder_id ` set e" using anc_chain_distinct [OF d] e(1) gid by auto
    ultimately show ?thesis using that None pp by simp
  next
    case (Some q)
    with pp that show ?thesis
      by (auto simp: res_simps validate_parent_def dest!: validate_parent_loop_chain)
  qed
  have keep: "rooted (set_folder i nm pp (tt_folders s)) x" if "rooted (tt_folders s) x" for x
    using rooted_set_folder [OF that c] .
  have "folder_id ` set (set_folder i nm pp (tt_folders s)) = folder_id ` set (tt_folders s)"
    by (metis ids_set_folder list.set_map)
  then have ids: "\<forall>f \<in> set (set_folder i nm pp (tt_folders s)).
      rooted (tt_folders s) (Some (folder_id f))"
    using assms(1) by (auto simp: store_inv_def) (metis image_iff)
  from s' show ?thesis
    using assms(1) keep ids wf_folders_set_folder [OF _ good] by (auto simp: store_inv_def)
qed

lemma agents_normalize [simp]: "map pl_agent_id (normalize_placements ps) = map pl_agent_id ps"
  by (simp add: normalize_placements_def)

lemma agents_promote [simp]: "map pl_agent_id (promote_placements i p ps) = map pl_agent_id ps"
  by (simp add: promote_placements_def)

lemma folders_normalize: "pl_folder_id ` set (normalize_placements ps) = pl_folder_id ` set ps"
  by (simp add: normalize_placements_def image_image)

lemma remove_inv:
  assumes "store_inv s" and "remove_workload_folder s i e = Inr s'"
  shows "store_inv s'"
proof -
  from assms(2) obtain g where
    g: "find (\<lambda>f. folder_id f = i) (tt_folders s) = Some g"
    and s': "tt_folders s' = filter (\<lambda>f. folder_id f \<noteq> i)
               (reparent_children i (parent_id g) (tt_folders s))"
            "tt_placements s' = normalize_placements
               (promote_placements i (parent_id g) (tt_placements s))"
    by (auto simp: remove_workload_folder_def insert_workspace_mutation_def res_simps Let_def
          split: if_splits)
  have keep: "rooted (tt_folders s') (if x = Some i then parent_id g else x)"
    if "rooted (tt_folders s) x" for x
    using rooted_removed [OF that g] s'(1) by simp
  have "rooted (tt_folders s') (Some (folder_id f))" if "f \<in> set (tt_folders s')" for f
  proof -
    from that s'(1) have "folder_id f \<noteq> i" "folder_id f \<in> folder_id ` set (tt_folders s)"
      by (auto simp: reparent_children_def split: if_splits) 
    then show ?thesis using keep [of "Some (folder_id f)"] assms(1) by (auto simp: store_inv_def)
  qed
  moreover have "rooted (tt_folders s') (pl_folder_id q)" if "q \<in> set (tt_placements s')" for q
  proof -
    from that s'(2) have "pl_folder_id q \<in> pl_folder_id ` set (promote_placements i (parent_id g) (tt_placements s))"
      using folders_normalize by (metis imageI)
    then obtain p where "p \<in> set (tt_placements s)"
      "pl_folder_id q = (if pl_folder_id p = Some i then parent_id g else pl_folder_id p)"
      by (auto simp: promote_placements_def split: if_splits)
    then show ?thesis using keep [of "pl_folder_id p"] assms(1) by (auto simp: store_inv_def)
  qed
  ultimately show ?thesis
    using assms(1) wf_folders_removed by (auto simp: store_inv_def s' simp del: map_map)
qed

lemma insert_placement_agents:
  "map pl_agent_id (snd (insert_placement a fo w ps)) = filter (\<lambda>x. x \<noteq> a) (map pl_agent_id ps) @ [a]"
proof -
  have "map pl_agent_id (normalize_placements (filter (\<lambda>p. pl_agent_id p \<noteq> a) ps))
        = filter (\<lambda>x. x \<noteq> a) (map pl_agent_id ps)"
    by (simp add: filter_map comp_def)
  then show ?thesis by (simp add: insert_placement_def Let_def comp_def if_distrib cong: if_cong)
qed

lemma insert_placement_folders:
  "pl_folder_id ` set (snd (insert_placement a fo w ps)) \<subseteq> insert fo (pl_folder_id ` set ps)"
  using folders_normalize [of "filter (\<lambda>p. pl_agent_id p \<noteq> a) ps"]
  by (auto simp: insert_placement_def Let_def)

lemma place_inv:
  assumes "store_inv s" and "set_workload_placement s a fo w = Inr (p, s')"
  shows "store_inv s'"
proof -
  from assms(2) have fo: "rooted (tt_folders s) fo" and s': "tt_folders s' = tt_folders s"
    "tt_placements s' = snd (insert_placement a fo w (tt_placements s))"
    by (auto simp: set_workload_placement_def insert_workspace_mutation_def res_simps Let_def
          dest: validate_parent_rooted split: if_splits prod.splits)
  have "distinct (map pl_agent_id (tt_placements s'))"
    using assms(1) by (simp add: s' insert_placement_agents store_inv_def)
  moreover have "\<forall>q \<in> set (tt_placements s'). rooted (tt_folders s) (pl_folder_id q)"
    using insert_placement_folders [of a fo w "tt_placements s"] fo assms(1)
    by (auto simp: s' store_inv_def)
  ultimately show ?thesis using assms(1) by (simp add: store_inv_def s'(1))
qed

lemma reserve_inv:
  assumes "store_inv s" and "reserve_named_agent s a n fo cl hc = Inr s'"
  shows "store_inv s'"
proof -
  from assms(2) obtain d where d: "rooted (tt_folders s) d" and s': "tt_folders s' = tt_folders s"
    "tt_placements s' = tt_placements s @ [\<lparr>pl_agent_id = a, pl_folder_id = d,
        pl_position = next_position (tt_placements s) d\<rparr>]"
    and fresh: "a \<notin> pl_agent_id ` set (tt_placements s)"
    by (auto simp: reserve_named_agent_def insert_workspace_mutation_def res_simps
          dest: validate_parent_rooted split: if_splits)
  then show ?thesis using assms(1) by (auto simp: store_inv_def)
qed

section \<open>Reachable Trees\<close>

inductive tree_step :: "tree_tables \<Rightarrow> tree_tables \<Rightarrow> bool" where
  step_create: "create_workload_folder u s n p = Inr (f, s') \<Longrightarrow>
     ''folder_'' @ u \<notin> folder_id ` set (tt_folders s) \<Longrightarrow> tree_step s s'"
| step_update: "update_workload_folder s i n p = Inr (f, s') \<Longrightarrow> tree_step s s'"
| step_remove: "remove_workload_folder s i e = Inr s' \<Longrightarrow> tree_step s s'"
| step_place: "set_workload_placement s a fo w = Inr (q, s') \<Longrightarrow> tree_step s s'"
| step_reserve: "reserve_named_agent s a n fo cl hc = Inr s' \<Longrightarrow> tree_step s s'"

definition tree_init :: "tree_tables \<Rightarrow> bool" where
  "tree_init s \<longleftrightarrow> tt_folders s = [] \<and> tt_placements s = []"

interpretation tree_sys: inv_system tree_init tree_step store_inv
proof
  fix s assume "tree_init s"
  then show "store_inv s" by (simp add: tree_init_def store_inv_def wf_folders_def)
next
  fix s t assume "store_inv s" and "tree_step s t"
  from this(2,1) show "store_inv t"
    by cases (blast intro: create_inv update_inv remove_inv place_inv reserve_inv)+
qed

section \<open>Dense positions\<close>

definition positions_in :: "string option \<Rightarrow> workload_placement list \<Rightarrow> int list" where
  "positions_in fo ps = map pl_position (filter (\<lambda>p. pl_folder_id p = fo) ps)"

definition dense :: "workload_placement list \<Rightarrow> bool" where
  "dense ps \<longleftrightarrow> (\<forall>fo. distinct (positions_in fo ps)
     \<and> set (positions_in fo ps) = {0..<int (length (positions_in fo ps))})"

text \<open>Ranking a finite set by a linear key enumerates an initial segment.\<close>

lemma rank_dense:
  fixes key :: "'a \<Rightarrow> 'k::linorder"
  assumes "distinct (map key xs)"
  defines "rk \<equiv> \<lambda>x. length (filter (\<lambda>y. key y < key x) xs)"
  shows "distinct (map rk xs) \<and> set (map rk xs) = {0..<length xs}"
proof -
  have dx: "distinct xs" and inj: "inj_on key (set xs)" using assms(1) by (auto simp: distinct_map)
  have rk: "rk x = card {y \<in> set xs. key y < key x}" for x
    unfolding rk_def using dx by (metis distinct_card distinct_filter set_filter)
  have lt: "rk x < rk y" if "x \<in> set xs" "key x < key y" for x y
    unfolding rk using that by (intro psubset_card_mono) auto
  have "inj_on rk (set xs)"
    using lt inj by (intro inj_onI) (metis inj_onD less_irrefl neqE)
  moreover have "rk ` set xs \<subseteq> {0..<length xs}"
    unfolding rk_def by (auto intro: length_filter_less)
  ultimately have "rk ` set xs = {0..<length xs}"
    using dx by (intro card_subset_eq) (auto simp: card_image distinct_card)
  with \<open>inj_on rk (set xs)\<close> dx show ?thesis by (auto simp: distinct_map)
qed

lemma normalize_dense:
  assumes "distinct (map pl_agent_id ps)"
  shows "dense (normalize_placements ps)"
  unfolding dense_def
proof
  fix fo
  let ?xs = "filter (\<lambda>p. pl_folder_id p = fo) ps"
  let ?key = "\<lambda>p. (pl_position p, pl_agent_id p)"
  let ?rk = "\<lambda>p. length (filter (\<lambda>q. ?key q < ?key p) ?xs)"
  have "distinct (map pl_agent_id ?xs)" using assms by (rule distinct_map_filter)
  then have "distinct (map ?key ?xs)" by (auto simp: distinct_map inj_on_def)
  note dn = rank_dense [OF this]
  have same: "filter (\<lambda>q. pl_before q p) ps = filter (\<lambda>q. ?key q < ?key p) ?xs"
    if "pl_folder_id p = fo" for p
    using that by (auto simp: pl_before_def less_prod_def intro!: filter_cong)
  have pos: "positions_in fo (normalize_placements ps) = map (int \<circ> ?rk) ?xs"
    unfolding positions_in_def normalize_placements_def
    by (simp add: filter_map comp_def) (use same in \<open>auto intro!: map_cong\<close>)
  have "map (int \<circ> ?rk) ?xs = map int (map ?rk ?xs)" by simp
  then have "distinct (positions_in fo (normalize_placements ps))"
    using dn pos by (simp only: distinct_map [of int] inj_on_def) auto
  moreover have "set (positions_in fo (normalize_placements ps)) = int ` {0..<length ?xs}"
    using dn pos by (simp only: \<open>map (int \<circ> ?rk) ?xs = map int (map ?rk ?xs)\<close> list.set_map [of int])
  ultimately show "distinct (positions_in fo (normalize_placements ps)) \<and>
      set (positions_in fo (normalize_placements ps))
        = {0..<int (length (positions_in fo (normalize_placements ps)))}"
    by (simp add: pos image_int_atLeastLessThan)
qed

lemma shift_dense:
  fixes L :: "int list"
  assumes "distinct L" "set L = {0..<int (length L)}" "0 \<le> k" "k \<le> int (length L)"
  shows "distinct (map (\<lambda>x. if k \<le> x then x + 1 else x) L @ [k]) \<and>
         set (map (\<lambda>x. if k \<le> x then x + 1 else x) L @ [k])
           = {0..<int (length (map (\<lambda>x. if k \<le> x then x + 1 else x) L @ [k]))}"
proof -
  let ?f = "\<lambda>x. if k \<le> x then x + 1 else x :: int"
  have "inj_on ?f (set L)" by (auto simp: inj_on_def split: if_splits)
  moreover have "?f ` {0..<int (length L)} = {0..<int (length L) + 1} - {k}"
  proof
    show "?f ` {0..<int (length L)} \<subseteq> {0..<int (length L) + 1} - {k}" by auto
    show "{0..<int (length L) + 1} - {k} \<subseteq> ?f ` {0..<int (length L)}"
    proof
      fix y assume y: "y \<in> {0..<int (length L) + 1} - {k}"
      then have "y = ?f (if k < y then y - 1 else y)" by auto
      moreover have "(if k < y then y - 1 else y) \<in> {0..<int (length L)}" using y assms(3,4) by auto
      ultimately show "y \<in> ?f ` {0..<int (length L)}" by blast
    qed
  qed
  ultimately show ?thesis using assms by (auto simp: distinct_map)
qed

lemma insert_placement_dense:
  assumes "distinct (map pl_agent_id ps)" and "0 \<le> w"
  shows "dense (snd (insert_placement a fo w ps))"
  unfolding dense_def
proof
  fix fo'
  let ?kept = "normalize_placements (filter (\<lambda>p. pl_agent_id p \<noteq> a) ps)"
  let ?k = "min w (int (length (filter (\<lambda>p. pl_folder_id p = fo) ?kept)))"
  have "dense ?kept" using assms(1) by (intro normalize_dense distinct_map_filter)
  then have d: "distinct (positions_in fo' ?kept)"
    "set (positions_in fo' ?kept) = {0..<int (length (positions_in fo' ?kept))}"
    unfolding dense_def by blast+
  show "distinct (positions_in fo' (snd (insert_placement a fo w ps))) \<and>
      set (positions_in fo' (snd (insert_placement a fo w ps)))
        = {0..<int (length (positions_in fo' (snd (insert_placement a fo w ps))))}"
  proof (cases "fo' = fo")
    case True
    have eq: "positions_in fo' (snd (insert_placement a fo w ps)) =
        map (\<lambda>x. if ?k \<le> x then x + 1 else x) (positions_in fo' ?kept) @ [?k]"
      by (auto simp: insert_placement_def positions_in_def Let_def filter_map comp_def True
               intro!: map_cong filter_cong)
    have "0 \<le> ?k" "?k \<le> int (length (positions_in fo' ?kept))"
      using assms(2) by (auto simp: positions_in_def True)
    from shift_dense [OF d this] show ?thesis unfolding eq .
  next
    case False
    have "positions_in fo' (snd (insert_placement a fo w ps)) = positions_in fo' ?kept"
      using False
      by (auto simp: insert_placement_def positions_in_def Let_def filter_map comp_def
               intro!: map_cong filter_cong)
    with d show ?thesis by simp
  qed
qed

section \<open>Unique sibling names\<close>

lemma create_unique_siblings:
  assumes "create_workload_folder u s n p = Inr (f, s')" and "unique_siblings (tt_folders s)"
  shows "unique_siblings (tt_folders s')"
  using assms
  by (auto simp: create_workload_folder_def insert_workspace_mutation_def unique_siblings_def
        validate_sibling_name_def res_simps Let_def split: if_splits)

lemma distinct_map_update:
  assumes "distinct (map k xs)" and "distinct (map g xs)"
    and "\<forall>x \<in> set xs. g x \<noteq> i \<longrightarrow> k x \<noteq> v"
  shows "distinct (map (\<lambda>x. if g x = i then v else k x) xs)"
  using assms by (auto simp: distinct_map inj_on_def)

lemma update_unique_siblings:
  assumes "update_workload_folder s i n p = Inr (f, s')" and "unique_siblings (tt_folders s)"
    and "wf_folders (tt_folders s)"
  shows "unique_siblings (tt_folders s')"
proof -
  from assms(1) obtain nm pp where
    v: "validate_sibling_name s pp nm (Some i) = Inr ()"
    and s': "s' = s \<or> tt_folders s' = set_folder i nm pp (tt_folders s)"
    by (auto simp: update_workload_folder_def insert_workspace_mutation_def res_simps Let_def
          split: if_splits)
  have "\<forall>x \<in> set (tt_folders s). folder_id x \<noteq> i \<longrightarrow> (parent_id x, folder_name x) \<noteq> (pp, nm)"
    using v by (auto simp: validate_sibling_name_def split: if_splits)
  from distinct_map_update [OF _ _ this] assms(2,3)
  have "unique_siblings (set_folder i nm pp (tt_folders s))"
    by (simp add: unique_siblings_def wf_folders_def set_folder_def comp_def if_distrib cong: if_cong)
  with s' assms(2) show ?thesis by auto
qed

section \<open>Properties\<close>

text \<open>
  C39: Tree safety.  In every state reachable through folder creation, update and removal,
  placement and Agent reservation, every folder and every placed workload has a canonical path:
  the folder graph stays acyclic with existing parents, whatever the order of the mutations.
\<close>

theorem reachable_tree_has_paths:
  assumes "reach tree_init tree_step s"
  shows "(\<forall>f \<in> set (tt_folders s). \<exists>p. folder_path (tree_of s) (Some (folder_id f)) = Inr p)
       \<and> (\<forall>q \<in> set (tt_placements s). \<exists>p. workload_path (tree_of s) (pl_agent_id q) name = Inr p)"
proof -
  have inv: "store_inv s" using assms by (rule tree_sys.reach_inv)
  have path: "\<exists>p. folder_path (tree_of s) i = Inr p" if "rooted (tt_folders s) i" for i
    using that by (auto simp: rooted_def folder_path_iff_chain tree_of_def)
  have "rooted (tt_folders s) (containing_folder (tree_of s) a)" for a
    using inv unfolding containing_folder_def store_inv_def tree_of_def
    by (auto simp: find_Some_iff split: bind_splits)
  then show ?thesis
    using path inv by (auto simp: store_inv_def workload_path_def res_simps)
qed

definition empty_tables :: tree_tables where
  "empty_tables = \<lparr>tt_live = True, tt_folders = [], tt_placements = [], tt_agent_names = [],
     tt_credentials = [], tt_deleted = [], tt_apps = [], tt_reservations = [], tt_audit = []\<rparr>"

definition example_tables :: tree_tables where
  "example_tables = empty_tables\<lparr>
     tt_folders := [\<lparr>folder_id = ''folder_a'', folder_name = ''x'', parent_id = None\<rparr>],
     tt_audit := [(''tree.folder.create'', ''folder'', ''folder_a'')]\<rparr>"

lemma example_tables_reach: "reach tree_init tree_step example_tables"
proof (rule reach_step)
  show "reach tree_init tree_step empty_tables"
    by (rule reach_init) (simp add: tree_init_def empty_tables_def)
  have "create_workload_folder ''a'' empty_tables ''x'' None
        = Inr (\<lparr>folder_id = ''folder_a'', folder_name = ''x'', parent_id = None\<rparr>, example_tables)"
    by code_simp
  then show "tree_step empty_tables example_tables"
    by (rule step_create) (simp add: empty_tables_def)
qed

theorem reachable_tree_has_paths_witness:
  "\<exists>p. folder_path (tree_of example_tables) (Some ''folder_a'') = Inr p"
  using reachable_tree_has_paths [OF example_tables_reach]
  by (simp add: example_tables_def empty_tables_def)

text \<open>
  Folder creation and update keep sibling names unique, so every canonical path stays
  resolvable: in a well-formed Tree with unique sibling names the mutated Tree again has unique
  sibling names.
\<close>

theorem create_update_keep_siblings_unique:
  assumes "store_inv s" and "unique_siblings (tt_folders s)"
    and "create_workload_folder u s n p = Inr (f, s') \<or> update_workload_folder s i m q = Inr (f, s')"
  shows "unique_siblings (tt_folders s')"
  using assms create_unique_siblings update_unique_siblings by (auto simp: store_inv_def)

theorem create_update_keep_siblings_unique_witness:
  "unique_siblings (tt_folders example_tables)"
proof -
  have "store_inv empty_tables" "unique_siblings (tt_folders empty_tables)"
    by (simp_all add: store_inv_def empty_tables_def wf_folders_def unique_siblings_def)
  moreover have "create_workload_folder ''a'' empty_tables ''x'' None
        = Inr (\<lparr>folder_id = ''folder_a'', folder_name = ''x'', parent_id = None\<rparr>, example_tables)"
    by code_simp
  ultimately show ?thesis by (blast intro: create_update_keep_siblings_unique)
qed

text \<open>
  C40: Removing a folder does not keep sibling names unique.  From a reachable Tree with unique
  sibling names, deleting a folder promotes a child whose name its new parent already uses;
  afterwards the shared path is refused as ambiguous.  The check that folder creation, update
  and promoted workloads go through is missing for promoted folders.
\<close>

theorem remove_breaks_unique_siblings:
  "\<exists>s s'. reach tree_init tree_step s \<and> unique_siblings (tt_folders s)
     \<and> delete_workload_folder s ''folder_c'' = Inr s' \<and> \<not> unique_siblings (tt_folders s')
     \<and> resolve_folder_path (tree_of s) ''/x'' None = Inr (Some ''folder_a'')
     \<and> resolve_folder_path (tree_of s') ''/x'' None
        = Inl (protocol_error_new ''folder_ambiguous'' ''duplicate folder name; use its ID'')"
proof -
  define s1 where "s1 = snd (projr (create_workload_folder ''c'' example_tables ''y'' None))"
  define s2 where "s2 = snd (projr (create_workload_folder ''b'' s1 ''x'' (Some ''folder_c'')))"
  have c1: "create_workload_folder ''c'' example_tables ''y'' None
      = Inr (\<lparr>folder_id = ''folder_c'', folder_name = ''y'', parent_id = None\<rparr>, s1)"
    unfolding s1_def by code_simp
  have c2: "create_workload_folder ''b'' s1 ''x'' (Some ''folder_c'')
      = Inr (\<lparr>folder_id = ''folder_b'', folder_name = ''x'', parent_id = Some ''folder_c''\<rparr>, s2)"
    unfolding s1_def s2_def by code_simp
  have "reach tree_init tree_step s1"
    by (rule reach_step [OF example_tables_reach step_create [OF c1]])
       (simp add: example_tables_def)
  moreover have "''folder_'' @ ''b'' \<notin> folder_id ` set (tt_folders s1)"
    unfolding s1_def by code_simp
  ultimately have "reach tree_init tree_step s2"
    by (blast intro: reach_step step_create [OF c2])
  moreover have "unique_siblings (tt_folders s2)"
    and "\<not> unique_siblings (tt_folders (projr (delete_workload_folder s2 ''folder_c'')))"
    and "delete_workload_folder s2 ''folder_c''
         = Inr (projr (delete_workload_folder s2 ''folder_c''))"
    and "resolve_folder_path (tree_of s2) ''/x'' None = Inr (Some ''folder_a'')"
    and "resolve_folder_path (tree_of (projr (delete_workload_folder s2 ''folder_c''))) ''/x'' None
        = Inl (protocol_error_new ''folder_ambiguous'' ''duplicate folder name; use its ID'')"
    unfolding s2_def s1_def by code_simp+
  ultimately show ?thesis by blast
qed

text \<open>
  Placements stay dense.  After a workload is placed, and after a folder is removed, the
  positions of the workloads of every folder are exactly 0, 1, \<dots>, n - 1, each used once.
\<close>

theorem placements_stay_dense:
  assumes "store_inv s"
    and "set_workload_placement s a fo w = Inr (q, s') \<or> remove_workload_folder s i e = Inr s'"
  shows "dense (tt_placements s')"
  using assms(2)
proof
  assume "set_workload_placement s a fo w = Inr (q, s')"
  then have "tt_placements s' = snd (insert_placement a fo w (tt_placements s))" "0 \<le> w"
    by (auto simp: set_workload_placement_def insert_workspace_mutation_def res_simps Let_def
          split: if_splits prod.splits)
  with assms(1) show ?thesis by (simp add: insert_placement_dense store_inv_def)
next
  assume "remove_workload_folder s i e = Inr s'"
  then obtain ps where "tt_placements s' = normalize_placements ps"
    "map pl_agent_id ps = map pl_agent_id (tt_placements s)"
    by (auto simp: remove_workload_folder_def insert_workspace_mutation_def res_simps Let_def
          split: if_splits)
  with assms(1) show ?thesis by (metis normalize_dense store_inv_def)
qed

definition placed_tables :: tree_tables where
  "placed_tables = empty_tables\<lparr>tt_credentials := [(''ag_1'', False)],
     tt_placements := [\<lparr>pl_agent_id = ''ag_1'', pl_folder_id = None, pl_position = 0\<rparr>],
     tt_audit := [(''tree.placement.update'', ''agent'', ''ag_1'')]\<rparr>"

theorem placements_stay_dense_witness: "dense (tt_placements placed_tables)"
proof -
  let ?s = "empty_tables\<lparr>tt_credentials := [(''ag_1'', False)]\<rparr>"
  have "store_inv ?s" by (simp add: store_inv_def empty_tables_def wf_folders_def)
  moreover have "set_workload_placement ?s ''ag_1'' None 7
     = Inr (\<lparr>pl_agent_id = ''ag_1'', pl_folder_id = None, pl_position = 0\<rparr>, placed_tables)"
    by code_simp
  ultimately show ?thesis by (blast intro: placements_stay_dense)
qed

end
