(* ===== verification/Policy_Types.thy ===== *)
theory Policy_Types
  imports Treer_Prelude
begin

text \<open>
  The Policy wire types of \<open>treer-protocol\<close> (\<open>policy.rs\<close>, \<open>policy_path.rs\<close>) and the request,
  decision and explanation types of \<open>treer-proxy\<close> (\<open>policy.rs\<close>).  A \<open>BTreeMap\<close> with string keys
  is its association list in key order.
\<close>

section \<open>Documents\<close>

datatype policy_mode = Monitor | Enforce

fun policy_mode_as_str :: "policy_mode \<Rightarrow> string" where
  "policy_mode_as_str Monitor = ''monitor''"
| "policy_mode_as_str Enforce = ''enforce''"

datatype policy_effect = Allow | Deny

datatype policy_principal_kind = Human | Agent | Machine | Service

fun principal_kind_as_str :: "policy_principal_kind \<Rightarrow> string" where
  "principal_kind_as_str Human = ''human''"
| "principal_kind_as_str Agent = ''agent''"
| "principal_kind_as_str Machine = ''machine''"
| "principal_kind_as_str Service = ''service''"

record policy_principal_ref =
  pr_kind :: policy_principal_kind
  pr_id :: string

record policy_principal_group =
  pg_principals :: "policy_principal_ref list"

record policy_tree_context =
  tc_node_id :: string
  tc_kind :: string
  tc_name :: string
  tc_path :: string
  tc_folder_id :: "string option"
  tc_folder_path :: string
  tc_ancestor_ids :: "string list"
  tc_ancestor_paths :: "string list"
  tc_placed :: bool
  tc_tree_revision :: nat

record policy_path_prefix =
  pp_path :: string
  pp_include_self :: bool

record policy_tree_selector =
  sel_kind :: "string option"
  sel_name :: "string option"
  sel_folder_id :: "string option"
  sel_path_eq :: "string option"
  sel_path_glob :: "string option"
  sel_path_prefix :: "policy_path_prefix option"

datatype policy_folder_field = FieldSubject | FieldResource

datatype policy_folder_ref =
  RefVariable string
| RefField policy_folder_field
| RefId string
| RefPath string

datatype policy_tree_condition =
  SameFolder
| ResourceBelowSubjectFolder bool
| ResourceBelowFolder policy_folder_ref bool

record policy_subject_selector =
  ss_tree :: "policy_tree_selector option"
  ss_kind :: "policy_principal_kind option"
  ss_id :: "string option"
  ss_machine_id :: "string option"
  ss_group :: "string option"
  ss_is_self :: bool

record policy_resource_selector =
  rs_tree :: "policy_tree_selector option"
  rs_kind :: "string option"
  rs_id :: "string option"
  rs_principal_group :: "string option"

record workspace_policy_rule =
  rule_bindings :: "policy_folder_ref btree_map"
  rule_conditions :: "policy_tree_condition list"
  rule_id :: string
  rule_priority :: int
  rule_effect :: policy_effect
  rule_subjects :: "policy_subject_selector list"
  rule_actions :: "string list"
  rule_resources :: "policy_resource_selector list"

record workspace_policy_document =
  doc_schema_version :: nat
  doc_defaults :: "policy_effect btree_map"
  doc_groups :: "policy_principal_group btree_map"
  doc_rules :: "workspace_policy_rule list"

record workspace_policy =
  wp_workspace_id :: string
  wp_revision :: nat
  wp_mode :: policy_mode
  wp_document :: workspace_policy_document
  wp_updated_at :: instant
  wp_updated_by :: policy_principal_ref

section \<open>Providers\<close>

record policy_provider_manifest =
  pm_protocol :: string
  pm_provider_name :: string
  pm_capabilities :: "string list"

record policy_provider_bundle =
  pb_protocol :: string
  pb_workspace_id :: string
  pb_revision :: nat
  pb_mode :: policy_mode
  pb_document :: workspace_policy_document
  pb_generated_at :: instant

datatype policy_provider_failure_mode = FailClosed | FailOpen

fun failure_mode_as_str :: "policy_provider_failure_mode \<Rightarrow> string" where
  "failure_mode_as_str FailClosed = ''fail_closed''"
| "failure_mode_as_str FailOpen = ''fail_open''"

datatype policy_publish_authority = OwnerSession | ProviderOperator

fun publish_authority_as_str :: "policy_publish_authority \<Rightarrow> string" where
  "publish_authority_as_str OwnerSession = ''owner_session''"
| "publish_authority_as_str ProviderOperator = ''provider_operator''"

record workspace_policy_provider =
  wpp_workspace_id :: string
  wpp_app_id :: string
  wpp_service_id :: string
  wpp_failure_mode :: policy_provider_failure_mode
  wpp_max_stale_seconds :: nat
  wpp_revision_hint :: nat
  wpp_updated_at :: instant
  wpp_updated_by :: string
  wpp_publish_authority :: policy_publish_authority

section \<open>Requests, decisions, explanations\<close>

datatype policy_subject =
  SubjAgent (subj_server_id: string) (subj_agent_id: string)
| SubjMachine (subj_server_id: string)
| SubjHuman (subj_user_id: string)
| SubjService (subj_service_id: string)

record policy_resource =
  res_kind :: string
  res_id :: string
  res_attributes :: "string btree_map"

fun btree_insert :: "string \<Rightarrow> 'v \<Rightarrow> 'v btree_map \<Rightarrow> 'v btree_map" where
  "btree_insert k v [] = [(k, v)]"
| "btree_insert k v ((k', v') # m) =
     (if k < k' then (k, v) # (k', v') # m
      else if k = k' then (k, v) # m
      else (k', v') # btree_insert k v m)"

definition policy_resource_new :: "string \<Rightarrow> string \<Rightarrow> policy_resource" where
  "policy_resource_new kind i = \<lparr>res_kind = kind, res_id = i, res_attributes = []\<rparr>"

definition with_attribute :: "policy_resource \<Rightarrow> string \<Rightarrow> string \<Rightarrow> policy_resource" where
  "with_attribute r k v = r\<lparr>res_attributes := btree_insert k v (res_attributes r)\<rparr>"

record policy_request =
  req_workspace_id :: string
  req_subject :: policy_subject
  req_action :: string
  req_resource :: policy_resource
  req_subject_tree :: "policy_tree_context option"
  req_resource_tree :: "policy_tree_context option"
  req_tree_revision :: "nat option"

definition policy_request_new ::
  "string \<Rightarrow> policy_subject \<Rightarrow> string \<Rightarrow> policy_resource \<Rightarrow> policy_request" where
  "policy_request_new w subj action r =
     \<lparr>req_workspace_id = w, req_subject = subj, req_action = action, req_resource = r,
      req_subject_tree = None, req_resource_tree = None, req_tree_revision = None\<rparr>"

definition network_connect ::
  "string \<Rightarrow> string \<Rightarrow> string option \<Rightarrow> string \<Rightarrow> string option \<Rightarrow> string \<Rightarrow> nat \<Rightarrow> policy_request" where
  "network_connect w source_server source_agent dest_server dest_agent host port =
     (let a0 = btree_insert ''destination_server_id'' dest_server [];
          a1 = (case dest_agent of None \<Rightarrow> a0 | Some a \<Rightarrow> btree_insert ''destination_agent_id'' a a0);
          a2 = btree_insert ''host'' host a1;
          a3 = btree_insert ''port'' (dec_string port) a2;
          subj = (case source_agent of None \<Rightarrow> SubjMachine source_server
                    | Some a \<Rightarrow> SubjAgent source_server a)
      in policy_request_new w subj ''network.connect''
           \<lparr>res_kind = ''network.endpoint'',
            res_id = dest_server @ '':'' @ host @ '':'' @ dec_string port,
            res_attributes = a3\<rparr>)"

record policy_denial =
  den_code :: string
  den_message :: string

definition denial_into_error :: "policy_denial \<Rightarrow> protocol_error" where
  "denial_into_error d = protocol_error_new (den_code d) (den_message d)"

datatype policy_decision = DAllow | DDeny policy_denial

datatype policy_evaluation = Abstain | Decide policy_decision

definition decision_into_result :: "policy_decision \<Rightarrow> unit res" where
  "decision_into_result d = (case d of DAllow \<Rightarrow> Inr () | DDeny x \<Rightarrow> Inl (denial_into_error x))"

record policy_explanation =
  ex_computed_effect :: policy_effect
  ex_effective_decision :: policy_effect
  ex_mode :: policy_mode
  ex_matched_rule_id :: "string option"
  ex_reason :: string
  ex_policy_revision :: nat
  ex_tree_revision :: "nat option"
  ex_source :: string

definition policy_denied :: policy_denial where
  "policy_denied = \<lparr>den_code = ''policy_denied'', den_message = ''workspace policy denied this operation''\<rparr>"

definition into_decision :: "policy_explanation \<Rightarrow> policy_decision" where
  "into_decision x = (if ex_effective_decision x = Allow then DAllow else DDeny policy_denied)"

definition explanation_baseline :: "policy_decision \<Rightarrow> nat option \<Rightarrow> policy_explanation" where
  "explanation_baseline d tree_revision =
     (let e = (case d of DAllow \<Rightarrow> Allow | DDeny _ \<Rightarrow> Deny) in
      \<lparr>ex_computed_effect = e, ex_effective_decision = e, ex_mode = Monitor,
       ex_matched_rule_id = None, ex_reason = ''Core fallback'', ex_policy_revision = 0,
       ex_tree_revision = tree_revision, ex_source = ''baseline''\<rparr>)"

datatype policy_revision = Unrevisioned | Known nat | Unavailable

fun subject_parts :: "policy_subject \<Rightarrow> policy_principal_kind \<times> string \<times> string" where
  "subject_parts (SubjAgent server agent) = (Agent, agent, server)"
| "subject_parts (SubjMachine server) = (Machine, server, server)"
| "subject_parts (SubjHuman user) = (Human, user, [])"
| "subject_parts (SubjService service) = (Service, service, [])"

definition resource_principal :: "policy_resource \<Rightarrow> (policy_principal_kind \<times> string) option" where
  "resource_principal r =
     (if res_kind r = ''agent'' then Some (Agent, res_id r)
      else if res_kind r = ''machine'' then Some (Machine, res_id r)
      else if res_kind r = ''message.mailbox'' then
        (case map_of (res_attributes r) ''principal_kind'' of
           None \<Rightarrow> None
         | Some k \<Rightarrow>
             (if k = ''agent'' then Some (Agent, res_id r)
              else if k = ''human'' then Some (Human, res_id r)
              else if k = ''machine'' then Some (Machine, res_id r)
              else if k = ''service'' then Some (Service, res_id r) else None))
      else None)"

section \<open>Lemmas\<close>

lemma map_of_btree_insert [simp]: "map_of (btree_insert k v m) = (map_of m)(k \<mapsto> v)"
  by (induction m) (auto simp: fun_eq_iff)

lemma into_decision_Allow [simp]: "into_decision x = DAllow \<longleftrightarrow> ex_effective_decision x = Allow"
  by (simp add: into_decision_def)

lemma decision_into_result_Inr [res_simps]: "decision_into_result d = Inr u \<longleftrightarrow> d = DAllow"
  by (simp add: decision_into_result_def split: policy_decision.splits)

end
