(* ===== verification/Policy_Path.thy ===== *)
theory Policy_Path
  imports Policy_Types
begin

text \<open>
  Tree conditions of Policy rules (\<open>policy_path_match.rs\<close>): path prefixes, globs, selectors and
  folder conditions, with the reading of each as a statement about path components.
\<close>

section \<open>Operations\<close>

definition below :: "string \<Rightarrow> string \<Rightarrow> bool" where
  "below parent path \<longleftrightarrow> path \<noteq> parent
     \<and> (parent = ''/'' \<or> is_some_and (strip_prefix path parent) (\<lambda>s. starts_with s ''/''))"

text \<open>The loop of \<open>glob\<close>, consuming the pattern and path components together.\<close>

fun glob_parts :: "string list \<Rightarrow> string list \<Rightarrow> bool" where
  "glob_parts [] actual = (actual = [])"
| "glob_parts (part # ps) actual =
     (if part = ''**'' then True
      else (case actual of
          [] \<Rightarrow> False
        | v # vs \<Rightarrow> if part \<noteq> ''*'' \<and> v \<noteq> part then False else glob_parts ps vs))"

definition path_parts :: "string \<Rightarrow> string list" where
  "path_parts path = filter (\<lambda>p. p \<noteq> []) (split_on CHR ''/'' path)"

definition glob :: "string \<Rightarrow> string \<Rightarrow> bool" where
  "glob pattern path = glob_parts (path_parts pattern) (path_parts path)"

definition selector_matches ::
  "policy_tree_selector option \<Rightarrow> policy_tree_context option \<Rightarrow> bool" where
  "selector_matches selector context =
     (case selector of None \<Rightarrow> True | Some sel \<Rightarrow>
       (case context of None \<Rightarrow> False | Some c \<Rightarrow>
         tc_placed c
         \<and> is_none_or (sel_kind sel) (\<lambda>v. v = tc_kind c)
         \<and> is_none_or (sel_name sel) (\<lambda>v. v = tc_name c)
         \<and> is_none_or (sel_folder_id sel) (\<lambda>v. tc_folder_id c = Some v)
         \<and> is_none_or (sel_path_eq sel) (\<lambda>v. v = tc_path c)
         \<and> is_none_or (sel_path_glob sel) (\<lambda>v. glob v (tc_path c))
         \<and> is_none_or (sel_path_prefix sel)
             (\<lambda>v. (pp_include_self v \<and> pp_path v = tc_path c) \<or> below (pp_path v) (tc_path c))))"

definition below_context :: "policy_tree_context \<Rightarrow> string option \<Rightarrow> string \<Rightarrow> bool \<Rightarrow> bool" where
  "below_context target i path strict =
     (case i of
        Some i \<Rightarrow>
          (i \<in> set (tc_ancestor_ids target) \<or> tc_kind target = ''folder'' \<and> tc_node_id target = i)
          \<and> (\<not> strict \<or> tc_folder_id target \<noteq> Some i
                \<and> \<not> (tc_kind target = ''folder'' \<and> tc_node_id target = i))
      | None \<Rightarrow> path = ''/'' \<and> (\<not> strict \<or> tc_folder_path target \<noteq> ''/''))"

fun is_variable :: "policy_folder_ref \<Rightarrow> bool" where
  "is_variable (RefVariable _) = True"
| "is_variable _ = False"

function folder_matches ::
  "policy_folder_ref \<Rightarrow> workspace_policy_rule \<Rightarrow> policy_request \<Rightarrow> policy_tree_context \<Rightarrow> bool \<Rightarrow> bool" where
  "folder_matches (RefVariable v) rule request target strict =
     (case map_of (rule_bindings rule) v of
        None \<Rightarrow> False
      | Some ref \<Rightarrow> (if is_variable ref then False
                     else folder_matches ref rule request target strict))"
| "folder_matches (RefField f) rule request target strict =
     is_some_and (case f of FieldSubject \<Rightarrow> req_subject_tree request
                          | FieldResource \<Rightarrow> req_resource_tree request)
       (\<lambda>c. tc_placed c \<and> below_context target (tc_folder_id c) (tc_folder_path c) strict)"
| "folder_matches (RefId i) rule request target strict = below_context target (Some i) [] strict"
| "folder_matches (RefPath p) rule request target strict =
     (let is_folder = (tc_kind target = ''folder'' \<and> tc_path target = p) in
      (p \<in> set (tc_ancestor_paths target) \<or> is_folder)
      \<and> (\<not> strict \<or> tc_folder_path target \<noteq> p \<and> \<not> is_folder))"
  by pat_completeness auto
termination
  by (relation "measure (\<lambda>(ref, _). if is_variable ref then 1 else 0)") auto

definition condition_matches ::
  "workspace_policy_rule \<Rightarrow> policy_request \<Rightarrow> policy_tree_condition \<Rightarrow> bool" where
  "condition_matches rule request condition =
     (case req_resource_tree request of None \<Rightarrow> False | Some target \<Rightarrow>
       tc_placed target \<and>
       (case condition of
          SameFolder \<Rightarrow> is_some_and (req_subject_tree request)
            (\<lambda>s. tc_placed s \<and> tc_folder_id s = tc_folder_id target)
        | ResourceBelowSubjectFolder strict \<Rightarrow> is_some_and (req_subject_tree request)
            (\<lambda>s. tc_placed s \<and> below_context target (tc_folder_id s) (tc_folder_path s) strict)
        | ResourceBelowFolder folder strict \<Rightarrow> folder_matches folder rule request target strict))"

definition conditions_match :: "workspace_policy_rule \<Rightarrow> policy_request \<Rightarrow> bool" where
  "conditions_match rule request = list_all (condition_matches rule request) (rule_conditions rule)"

section \<open>Reading paths as component lists\<close>

text \<open>Component lists that canonical paths are printed from.\<close>

definition path_comps :: "string list \<Rightarrow> bool" where
  "path_comps ns \<longleftrightarrow> (\<forall>n \<in> set ns. n \<noteq> [] \<and> CHR ''/'' \<notin> set n)"

definition print_path :: "string list \<Rightarrow> string" where
  "print_path ns = ''/'' @ join_with ''/'' ns"

lemma join_comps_Nil: "path_comps ns \<Longrightarrow> join_with ''/'' ns = [] \<longleftrightarrow> ns = []"
  by (cases ns; cases "tl ns") (auto simp: path_comps_def)

lemma split_join_comps:
  "path_comps ns \<Longrightarrow> ns \<noteq> [] \<Longrightarrow> split_on CHR ''/'' (join_with ''/'' ns) = ns"
  by (rule split_join) (auto simp: path_comps_def)

lemma path_parts_print: "path_comps ns \<Longrightarrow> path_parts (print_path ns) = ns"
  by (cases "ns = []")
     (auto simp: path_parts_def print_path_def split_join_comps path_comps_def intro: filter_True)

lemma print_path_inj: "path_comps ns \<Longrightarrow> path_comps ms \<Longrightarrow> print_path ns = print_path ms \<longleftrightarrow> ns = ms"
  by (metis path_parts_print)

lemma join_with_append:
  "xs \<noteq> [] \<Longrightarrow> ys \<noteq> [] \<Longrightarrow> join_with sep (xs @ ys) = join_with sep xs @ sep @ join_with sep ys"
proof (induction xs)
  case (Cons x xs)
  then show ?case by (cases "xs = []") (auto simp: join_with_Cons)
qed simp

lemma glob_parts_no_globstar:
  "''**'' \<notin> set ps \<Longrightarrow> glob_parts ps as \<longleftrightarrow> list_all2 (\<lambda>p a. p = ''*'' \<or> p = a) ps as"
  by (induction ps arbitrary: as) (auto split: list.splits simp: list_all2_Cons1)

lemma glob_parts_globstar:
  "''**'' \<notin> set ps \<Longrightarrow> glob_parts (ps @ ''**'' # qs) as \<longleftrightarrow>
     length ps \<le> length as \<and> list_all2 (\<lambda>p a. p = ''*'' \<or> p = a) ps (take (length ps) as)"
  by (induction ps arbitrary: as) (auto split: list.splits)

lemma prefix_join_iff:
  assumes "path_comps ns" "path_comps ms" "ns \<noteq> []"
  shows "(\<exists>r. join_with ''/'' ms = join_with ''/'' ns @ CHR ''/'' # r) \<longleftrightarrow> strict_prefix ns ms"
proof
  assume "\<exists>r. join_with ''/'' ms = join_with ''/'' ns @ CHR ''/'' # r"
  then obtain r where r: "join_with ''/'' ms = join_with ''/'' ns @ CHR ''/'' # r" ..
  then have "ms \<noteq> []" by (auto simp: join_comps_Nil)
  then have "ms = split_on CHR ''/'' (join_with ''/'' ms)" using assms(2) by (simp add: split_join_comps)
  also have "\<dots> = ns @ split_on CHR ''/'' r"
    using assms by (simp add: r split_on_append split_join_comps)
  finally show "strict_prefix ns ms" by (simp add: strict_prefix_def prefix_def)
next
  assume "strict_prefix ns ms"
  then obtain ks where "ms = ns @ ks" "ks \<noteq> []" by (auto simp: strict_prefix_def prefix_def)
  then show "\<exists>r. join_with ''/'' ms = join_with ''/'' ns @ CHR ''/'' # r"
    using assms(3) by (auto simp: join_with_append)
qed

lemma below_print:
  assumes "path_comps ns" "path_comps ms"
  shows "below (print_path ns) (print_path ms) \<longleftrightarrow> strict_prefix ns ms"
proof (cases "ns = []")
  case True
  then show ?thesis using assms
    by (auto simp: below_def print_path_def join_comps_Nil strict_prefix_def)
next
  case False
  have root: "print_path ns \<noteq> ''/''" using False assms(1) by (simp add: print_path_def join_comps_Nil)
  have "is_some_and (strip_prefix (print_path ms) (print_path ns)) (\<lambda>s. starts_with s ''/'')
      \<longleftrightarrow> (\<exists>r. join_with ''/'' ms = join_with ''/'' ns @ CHR ''/'' # r)"
    by (auto simp: is_some_and_iff strip_prefix_Some print_path_def starts_with_iff_prefix prefix_def)
  then show ?thesis
    using prefix_join_iff [OF assms False] root print_path_inj [OF assms(2,1)]
    by (auto simp: below_def strict_prefix_def)
qed

section \<open>Properties\<close>

text \<open>
  Path prefixes respect component boundaries.  On canonical paths \<open>below\<close> holds exactly
  when the parent's component list is a proper prefix of the path's, so \<open>/infra\<close> is never a
  parent of \<open>/infrastructure\<close>.
\<close>

theorem below_iff_component_prefix:
  assumes "path_comps ns" and "path_comps ms"
  shows "below (print_path ns) (print_path ms) \<longleftrightarrow> strict_prefix ns ms"
  using assms by (rule below_print)

theorem below_iff_component_prefix_witness:
  "below ''/infra'' ''/infra/tool'' \<and> \<not> below ''/infra'' ''/infrastructure''"
proof -
  have "path_comps [''infra'']" "path_comps [''infra'', ''tool'']" "path_comps [''infrastructure'']"
    by (simp_all add: path_comps_def)
  with below_iff_component_prefix [of "[''infra'']" "[''infra'', ''tool'']"]
    below_iff_component_prefix [of "[''infra'']" "[''infrastructure'']"]
  show ?thesis by (simp add: print_path_def strict_prefix_def)
qed

text \<open>
  Glob semantics.  For a pattern whose components are literals, \<open>*\<close> and possibly a final
  \<open>**\<close>, a canonical path matches exactly when every component before the \<open>**\<close> matches the
  corresponding path component, \<open>*\<close> standing for one whole component, and the lengths agree
  (or the path is at least as long where the pattern ends in \<open>**\<close>).
\<close>

theorem glob_semantics:
  assumes "path_comps ps" and "path_comps as" and "''**'' \<notin> set ps"
  shows "(glob (print_path ps) (print_path as) \<longleftrightarrow> list_all2 (\<lambda>p a. p = ''*'' \<or> p = a) ps as)
    \<and> (glob (print_path (ps @ [''**''])) (print_path as) \<longleftrightarrow>
        length ps \<le> length as \<and> list_all2 (\<lambda>p a. p = ''*'' \<or> p = a) ps (take (length ps) as))"
proof -
  have "path_comps (ps @ [''**''])" using assms(1) by (auto simp: path_comps_def)
  then show ?thesis
    using assms glob_parts_globstar [OF assms(3), of "[]" as]
    by (simp add: glob_def path_parts_print glob_parts_no_globstar)
qed

theorem glob_semantics_witness:
  "glob ''/team/*'' ''/team/reviewer'' \<and> \<not> glob ''/team/*'' ''/team/sub/reviewer''
   \<and> glob ''/team/*/**'' ''/team/sub/reviewer''"
proof -
  have c: "path_comps [''team'', ''*'']" "path_comps [''team'', ''reviewer'']"
    "path_comps [''team'', ''sub'', ''reviewer'']" "''**'' \<notin> set [''team'', ''*'']"
    by (simp_all add: path_comps_def)
  from glob_semantics [OF c(1) c(2) c(4)] glob_semantics [OF c(1) c(3) c(4)]
  show ?thesis by (simp add: print_path_def)
qed

end
