(* ===== verification/Policy_Validation.thy ===== *)
theory Policy_Validation
  imports Policy_Path
begin

text \<open>
  Validation of Policy documents (\<open>policy_store.rs\<close>: \<open>validate_document\<close> and its helpers), which
  guards both the durable store and bundles fetched from a Policy App.  The JSON encoder of
  \<open>serde_json\<close> is the parameter \<open>to_vec\<close>; only the length of its output is used.  The lemmas show
  what an accepted document guarantees to the evaluator.
\<close>

section \<open>Operations\<close>

datatype policy_store_error =
  Invalid (pse_code: string) (pse_message: string)
| RevisionConflict
| Database
| Corrupt string

fun policy_store_error_code :: "policy_store_error \<Rightarrow> string" where
  "policy_store_error_code (Invalid c _) = c"
| "policy_store_error_code RevisionConflict = ''policy_revision_conflict''"
| "policy_store_error_code Database = ''database_error''"
| "policy_store_error_code (Corrupt _) = ''invalid_stored_policy''"

type_synonym 'a store_res = "policy_store_error + 'a"

definition MAX_POLICY_DOCUMENT_BYTES :: nat where
  "MAX_POLICY_DOCUMENT_BYTES = 256 * 1024"

definition MAX_POLICY_RULES :: nat where
  "MAX_POLICY_RULES = 1000"

definition validate_token :: "string \<Rightarrow> string \<Rightarrow> unit store_res" where
  "validate_token v field =
     (if v = [] \<or> 128 < length v \<or> trim v \<noteq> v \<or> has_control v then
        Inl (Invalid ''invalid_policy_document''
          (field @ '' must contain 1-128 visible characters without surrounding space''))
      else Inr ())"

definition require_group ::
  "workspace_policy_document \<Rightarrow> string \<Rightarrow> string \<Rightarrow> unit store_res" where
  "require_group doc grp selector =
     (if grp \<in> fst ` set (doc_groups doc) then Inr ()
      else Inl (Invalid ''unknown_policy_group''
        (''policy '' @ selector @ '' references unknown grp '' @ grp)))"

definition component_ok :: "bool \<Rightarrow> nat \<Rightarrow> nat \<Rightarrow> string \<Rightarrow> bool" where
  "component_ok globbing n i p \<longleftrightarrow>
     p \<noteq> [] \<and> trim p = p \<and> p \<noteq> ''.'' \<and> p \<noteq> ''..''
     \<and> (\<not> globbing
        \<or> (set p \<inter> {CHR ''?'', CHR ''['', CHR '']'', CHR 0x5C} = {}
           \<and> (CHR ''*'' \<notin> set p \<or> p = ''*'' \<or> (p = ''**'' \<and> Suc i = n))))"

definition validate_policy_path :: "string \<Rightarrow> bool \<Rightarrow> unit store_res" where
  "validate_policy_path path globbing =
     (let parts = split_on CHR ''/'' (case strip_prefix path ''/'' of None \<Rightarrow> path | Some r \<Rightarrow> r) in
      if starts_with path ''/'' \<and> length path \<le> 4096 \<and> length parts \<le> 128 \<and> \<not> has_control path
         \<and> (path = ''/'' \<or>
            list_all (\<lambda>(i, p). component_ok globbing (length parts) i p) (enumerate 0 parts))
      then Inr ()
      else Inl (Invalid ''invalid_policy_path''
        ''path must be bounded, absolute and canonical; glob uses whole components and one terminal **''))"

definition validate_ref :: "workspace_policy_rule \<Rightarrow> policy_folder_ref \<Rightarrow> bool \<Rightarrow> unit store_res" where
  "validate_ref rule ref binding =
     (case ref of
        RefVariable v \<Rightarrow>
          if binding \<or> v \<notin> fst ` set (rule_bindings rule) then
            Inl (Invalid ''invalid_policy_binding''
              ''binding chains or undeclared variables are not allowed'')
          else Inr ()
      | RefField _ \<Rightarrow> Inr ()
      | RefId i \<Rightarrow> validate_token i ''folder ID''
      | RefPath p \<Rightarrow> validate_policy_path p False)"

definition check_opt :: "('a \<Rightarrow> 'e + unit) \<Rightarrow> 'a option \<Rightarrow> 'e + unit" where
  "check_opt f v = (case v of None \<Rightarrow> Inr () | Some x \<Rightarrow> f x)"

definition validate_selector :: "policy_tree_selector \<Rightarrow> unit store_res" where
  "validate_selector sel =
     (if is_some_and (sel_kind sel) (\<lambda>k. k \<notin> {''agent'', ''app'', ''folder''}) then
        Inl (Invalid ''invalid_policy_tree_kind'' ''Tree kind must be agent, app or folder'')
      else
        and_then (check_opt (\<lambda>n. validate_token n ''Tree name'') (sel_name sel)) (\<lambda>_.
        and_then (check_opt (\<lambda>i. validate_token i ''folder ID'') (sel_folder_id sel)) (\<lambda>_.
        and_then
          (if 1 < (if sel_path_eq sel \<noteq> None then 1 else 0 :: nat)
                + (if sel_path_glob sel \<noteq> None then 1 else 0)
                + (if sel_path_prefix sel \<noteq> None then 1 else 0)
           then Inl (Invalid ''invalid_policy_path'' ''choose one path comparator'')
           else Inr ()) (\<lambda>_.
        and_then (check_opt (\<lambda>p. validate_policy_path p False) (sel_path_eq sel)) (\<lambda>_.
        and_then (check_opt (\<lambda>p. validate_policy_path p True) (sel_path_glob sel)) (\<lambda>_.
        check_opt (\<lambda>p. validate_policy_path (pp_path p) False) (sel_path_prefix sel)))))))"

definition rule_tree_selectors :: "workspace_policy_rule \<Rightarrow> policy_tree_selector list" where
  "rule_tree_selectors rule =
     List.map_filter ss_tree (rule_subjects rule) @ List.map_filter rs_tree (rule_resources rule)"

definition rule_has_tree :: "workspace_policy_rule \<Rightarrow> bool" where
  "rule_has_tree rule \<longleftrightarrow>
     list_ex (\<lambda>s. ss_tree s \<noteq> None) (rule_subjects rule)
     \<or> list_ex (\<lambda>s. rs_tree s \<noteq> None) (rule_resources rule)
     \<or> rule_bindings rule \<noteq> [] \<or> rule_conditions rule \<noteq> []"

definition validate_path_rule :: "nat \<Rightarrow> workspace_policy_rule \<Rightarrow> unit store_res" where
  "validate_path_rule schema rule =
     (if schema = 1 \<and> rule_has_tree rule then
        Inl (Invalid ''unsupported_policy_schema'' ''Tree conditions require policy schema 2'')
      else if 8 < length (rule_bindings rule) \<or> 32 < length (rule_conditions rule) then
        Inl (Invalid ''policy_expression_too_large''
          ''policy rule permits at most 8 bindings and 32 conditions'')
      else
        and_then (try_all (\<lambda>(name, ref). and_then (validate_token name ''binding name'')
                    (\<lambda>_. validate_ref rule ref True)) (rule_bindings rule)) (\<lambda>_.
        and_then (try_all validate_selector (rule_tree_selectors rule)) (\<lambda>_.
        try_all (\<lambda>c. case c of ResourceBelowFolder folder _ \<Rightarrow> validate_ref rule folder False
                       | _ \<Rightarrow> Inr ()) (rule_conditions rule))))"

definition validate_subject ::
  "workspace_policy_document \<Rightarrow> policy_subject_selector \<Rightarrow> unit store_res" where
  "validate_subject doc s =
     and_then (check_opt (\<lambda>i. validate_token i ''policy subject ID'') (ss_id s)) (\<lambda>_.
     and_then (check_opt (\<lambda>i. validate_token i ''policy machine ID'') (ss_machine_id s)) (\<lambda>_.
     check_opt (\<lambda>g. require_group doc g ''subject'') (ss_group s)))"

definition validate_resource ::
  "workspace_policy_document \<Rightarrow> policy_resource_selector \<Rightarrow> unit store_res" where
  "validate_resource doc r =
     and_then (check_opt (\<lambda>k. validate_token k ''policy resource kind'') (rs_kind r)) (\<lambda>_.
     and_then (check_opt (\<lambda>i. validate_token i ''policy resource ID'') (rs_id r)) (\<lambda>_.
     check_opt (\<lambda>g. require_group doc g ''resource'') (rs_principal_group r)))"

text \<open>The loop over the rules; \<open>seen\<close> is the hash set of rule IDs.\<close>

fun validate_rules ::
  "workspace_policy_document \<Rightarrow> string list \<Rightarrow> workspace_policy_rule list \<Rightarrow> unit store_res" where
  "validate_rules doc seen [] = Inr ()"
| "validate_rules doc seen (rule # rules) =
     and_then (validate_path_rule (doc_schema_version doc) rule) (\<lambda>_.
     and_then (validate_token (rule_id rule) ''policy rule ID'') (\<lambda>_.
     if rule_id rule \<in> set seen then
       Inl (Invalid ''duplicate_policy_rule'' ''workspace policy rule IDs must be unique'')
     else if rule_subjects rule = [] \<or> rule_actions rule = [] \<or> rule_resources rule = [] then
       Inl (Invalid ''invalid_policy_rule'' ''policy rules require subjects, actions, and resources'')
     else
       and_then (try_all (validate_subject doc) (rule_subjects rule)) (\<lambda>_.
       and_then (try_all (\<lambda>a. validate_token a ''policy action'') (rule_actions rule)) (\<lambda>_.
       and_then (try_all (validate_resource doc) (rule_resources rule)) (\<lambda>_.
       validate_rules doc (rule_id rule # seen) rules)))))"

definition validate_document ::
  "(workspace_policy_document \<Rightarrow> string + string) \<Rightarrow> workspace_policy_document \<Rightarrow> unit store_res" where
  "validate_document to_vec doc =
     (if doc_schema_version doc \<notin> {1, 2} then
        Inl (Invalid ''unsupported_policy_schema'' ''workspace policy schema version is not supported'')
      else
        and_then (map_err Corrupt (to_vec doc)) (\<lambda>encoded.
        if MAX_POLICY_DOCUMENT_BYTES < length encoded then
          Inl (Invalid ''policy_document_too_large'' ''workspace policy document exceeds 256 KiB'')
        else if MAX_POLICY_RULES < length (doc_rules doc) then
          Inl (Invalid ''too_many_policy_rules'' ''workspace policy may contain at most 1000 rules'')
        else
          and_then (try_all (\<lambda>a. validate_token a ''policy action'') (map fst (doc_defaults doc))) (\<lambda>_.
          and_then (try_all (\<lambda>(name, grp). and_then (validate_token name ''policy group'') (\<lambda>_.
              try_all (\<lambda>p. validate_token (pr_id p) ''policy principal ID'') (pg_principals grp)))
            (doc_groups doc)) (\<lambda>_.
          validate_rules doc [] (doc_rules doc)))))"

section \<open>What validation guarantees\<close>

lemma check_opt_Inr [res_simps]: "check_opt f v = Inr u \<longleftrightarrow> (\<forall>x. v = Some x \<longrightarrow> f x = Inr ())"
  by (cases v) (auto simp: check_opt_def)

lemma list_all_enumerate:
  "list_all (\<lambda>(i, p). Q i p) (enumerate k xs) \<longleftrightarrow> (\<forall>i < length xs. Q (k + i) (xs ! i))"
  by (induction xs arbitrary: k) (auto simp: less_Suc_eq_0_disj nth_Cons')

definition canonical_path :: "string \<Rightarrow> bool" where
  "canonical_path p \<longleftrightarrow> (\<exists>ns. path_comps ns \<and> p = print_path ns \<and> length ns \<le> 128
     \<and> length p \<le> 4096 \<and> (\<forall>n \<in> set ns. n \<noteq> ''.'' \<and> n \<noteq> ''..'' \<and> trim n = n))"

lemma validate_policy_path_comps:
  assumes "validate_policy_path p g = Inr ()" and "p \<noteq> ''/''"
  obtains parts where "p = print_path parts" "parts \<noteq> []" "length parts \<le> 128" "length p \<le> 4096"
    "\<forall>i < length parts. component_ok g (length parts) i (parts ! i)" "path_comps parts"
proof -
  from assms obtain r where r: "p = ''/'' @ r"
    by (auto simp: validate_policy_path_def Let_def starts_with_iff_prefix prefix_def split: if_splits)
  let ?parts = "split_on CHR ''/'' r"
  have all: "\<forall>i < length ?parts. component_ok g (length ?parts) i (?parts ! i)"
    and len: "length ?parts \<le> 128" "length p \<le> 4096"
    using assms by (auto simp: validate_policy_path_def r strip_prefix_def list_all_enumerate
        Let_def split: if_splits)
  have comps: "path_comps ?parts"
    unfolding path_comps_def using all split_on_parts_no_sep
    by (auto simp: in_set_conv_nth component_ok_def)
  have "p = print_path ?parts" by (simp add: r print_path_def join_split)
  from that [OF this _ len all comps] show thesis by simp
qed

lemma validate_policy_path_canonical:
  assumes "validate_policy_path p g = Inr ()"
  shows "canonical_path p"
proof (cases "p = ''/''")
  case True
  then show ?thesis
    unfolding canonical_path_def by (intro exI [of _ "[]"]) (simp add: print_path_def path_comps_def)
next
  case False
  with assms obtain parts where "p = print_path parts" "length parts \<le> 128" "length p \<le> 4096"
    "\<forall>i < length parts. component_ok g (length parts) i (parts ! i)" "path_comps parts"
    by (rule validate_policy_path_comps)
  then show ?thesis unfolding canonical_path_def
    by (intro exI [of _ parts]) (auto simp: in_set_conv_nth component_ok_def)
qed

lemma validate_rules_Inr:
  "validate_rules doc seen rules = Inr () \<longleftrightarrow>
     distinct (map rule_id rules) \<and> set (map rule_id rules) \<inter> set seen = {}
     \<and> (\<forall>r \<in> set rules. validate_path_rule (doc_schema_version doc) r = Inr ()
         \<and> validate_token (rule_id r) ''policy rule ID'' = Inr ()
         \<and> rule_subjects r \<noteq> [] \<and> rule_actions r \<noteq> [] \<and> rule_resources r \<noteq> []
         \<and> (\<forall>s \<in> set (rule_subjects r). validate_subject doc s = Inr ())
         \<and> (\<forall>a \<in> set (rule_actions r). validate_token a ''policy action'' = Inr ())
         \<and> (\<forall>x \<in> set (rule_resources r). validate_resource doc x = Inr ()))"
  by (induction rules arbitrary: seen) (auto simp: res_simps split: if_splits)

lemma validate_document_rules:
  "validate_document to_vec doc = Inr () \<Longrightarrow> validate_rules doc [] (doc_rules doc) = Inr ()"
  by (auto simp: validate_document_def res_simps split: if_splits)

lemma valid_rule_variable:
  assumes "validate_path_rule sv rule = Inr ()"
    and "ResourceBelowFolder (RefVariable v) strict \<in> set (rule_conditions rule)"
  shows "\<exists>ref. map_of (rule_bindings rule) v = Some ref \<and> \<not> is_variable ref"
proof -
  from assms have "validate_ref rule (RefVariable v) False = Inr ()"
    by (force simp: validate_path_rule_def res_simps split: if_splits)
  then have "v \<in> fst ` set (rule_bindings rule)" by (auto simp: validate_ref_def split: if_splits)
  then obtain ref where ref: "map_of (rule_bindings rule) v = Some ref"
    by (meson domIff map_of_eq_None_iff not_Some_eq)
  then have "(v, ref) \<in> set (rule_bindings rule)" by (rule map_of_SomeD)
  then have "validate_ref rule ref True = Inr ()"
    using assms(1) by (force simp: validate_path_rule_def res_simps split: if_splits)
  then show ?thesis using ref by (cases ref) (auto simp: validate_ref_def)
qed

section \<open>Properties\<close>

text \<open>
  An accepted document has at most 1000 rules with pairwise different IDs, every rule names
  subjects, actions and resources, every group a selector uses is declared, and every folder
  variable used in a condition is bound directly to a folder (no chains), so evaluation never
  meets an undefined name; schema 1 documents carry no Tree condition at all.
\<close>

theorem valid_document_well_formed:
  assumes "validate_document to_vec doc = Inr ()"
  shows "length (doc_rules doc) \<le> 1000 \<and> distinct (map rule_id (doc_rules doc))
    \<and> (\<forall>r \<in> set (doc_rules doc).
         rule_subjects r \<noteq> [] \<and> rule_actions r \<noteq> [] \<and> rule_resources r \<noteq> []
         \<and> (\<forall>s \<in> set (rule_subjects r). \<forall>g. ss_group s = Some g \<longrightarrow> map_of (doc_groups doc) g \<noteq> None)
         \<and> (\<forall>x \<in> set (rule_resources r).
              \<forall>g. rs_principal_group x = Some g \<longrightarrow> map_of (doc_groups doc) g \<noteq> None)
         \<and> (\<forall>v strict. ResourceBelowFolder (RefVariable v) strict \<in> set (rule_conditions r) \<longrightarrow>
              (\<exists>ref. map_of (rule_bindings r) v = Some ref \<and> \<not> is_variable ref))
         \<and> (doc_schema_version doc = 1 \<longrightarrow> \<not> rule_has_tree r))"
proof -
  note rules = validate_document_rules [OF assms, unfolded validate_rules_Inr]
  have "length (doc_rules doc) \<le> 1000"
    using assms by (auto simp: validate_document_def res_simps MAX_POLICY_RULES_def split: if_splits)
  moreover have grp: "map_of (doc_groups doc) g \<noteq> None" if "require_group doc g w = Inr ()" for g w
    using that by (auto simp: require_group_def map_of_eq_None_iff split: if_splits)
  moreover have "\<not> rule_has_tree r" if "validate_path_rule 1 r = Inr ()" for r
    using that by (auto simp: validate_path_rule_def split: if_splits)
  moreover have "map_of (doc_groups doc) g \<noteq> None"
    if "validate_subject doc s = Inr ()" "ss_group s = Some g" for s g
    using that by (intro grp [of g "''subject''"]) (simp add: validate_subject_def res_simps)
  moreover have "map_of (doc_groups doc) g \<noteq> None"
    if "validate_resource doc x = Inr ()" "rs_principal_group x = Some g" for x g
    using that by (intro grp [of g "''resource''"]) (simp add: validate_resource_def res_simps)
  ultimately show ?thesis
    using rules valid_rule_variable by (metis (no_types, lifting))
qed

definition example_rule :: workspace_policy_rule where
  "example_rule = \<lparr>rule_bindings = [(''team'', RefPath ''/team'')],
     rule_conditions = [ResourceBelowFolder (RefVariable ''team'') True],
     rule_id = ''r1'', rule_priority = 5, rule_effect = Deny,
     rule_subjects = [\<lparr>ss_tree = None, ss_kind = Some Agent, ss_id = None, ss_machine_id = None,
        ss_group = Some ''devs'', ss_is_self = False\<rparr>],
     rule_actions = [''agent.prompt''],
     rule_resources = [\<lparr>rs_tree = None, rs_kind = Some ''agent'', rs_id = None,
        rs_principal_group = None\<rparr>]\<rparr>"

definition example_document :: workspace_policy_document where
  "example_document = \<lparr>doc_schema_version = 2, doc_defaults = [(''agent.stop'', Deny)],
     doc_groups = [(''devs'', \<lparr>pg_principals = [\<lparr>pr_kind = Agent, pr_id = ''ag_1''\<rparr>]\<rparr>)],
     doc_rules = [example_rule]\<rparr>"

lemma example_document_valid: "validate_document (\<lambda>_. Inr ''{}'') example_document = Inr ()"
proof -
  have "validate_rules example_document [] (doc_rules example_document) = Inr ()" by code_simp
  moreover have "validate_token ''agent.stop'' ''policy action'' = Inr ()"
    "validate_token ''devs'' ''policy group'' = Inr ()"
    "validate_token ''ag_1'' ''policy principal ID'' = Inr ()" by code_simp+
  ultimately show ?thesis
    by (simp add: validate_document_def example_document_def MAX_POLICY_DOCUMENT_BYTES_def
        MAX_POLICY_RULES_def map_err_def)
qed

theorem valid_document_well_formed_witness:
  "distinct (map rule_id (doc_rules example_document))
   \<and> (\<exists>ref. map_of (rule_bindings example_rule) ''team'' = Some ref \<and> \<not> is_variable ref)"
  using valid_document_well_formed [OF example_document_valid]
  by (auto simp: example_document_def example_rule_def)

text \<open>
  Validated paths are canonical, and a validated glob uses \<open>**\<close> only as its last component
  and \<open>*\<close> only as a whole component, which is the form the matcher's prefix and glob semantics
  is stated for.
\<close>

theorem validated_paths_canonical:
  assumes "validate_policy_path p g = Inr ()"
  shows "canonical_path p
    \<and> (g \<longrightarrow> (\<exists>ps. path_comps ps \<and> ''**'' \<notin> set ps \<and> (\<forall>c \<in> set ps. CHR ''*'' \<in> set c \<longrightarrow> c = ''*'')
               \<and> (p = print_path ps \<or> p = print_path (ps @ [''**'']))))"
proof (cases "p = ''/''")
  case True
  then show ?thesis
    using validate_policy_path_canonical [OF assms]
    by (auto simp: path_comps_def print_path_def intro!: exI [of _ "[]"])
next
  case False
  with assms obtain parts where parts: "p = print_path parts" "parts \<noteq> []" "path_comps parts"
    and ok: "\<forall>i < length parts. component_ok g (length parts) i (parts ! i)"
    by (rule validate_policy_path_comps)
  have front: "CHR ''*'' \<in> set c \<longrightarrow> c = ''*''" if g and "c \<in> set (butlast parts)" for c
  proof -
    from that obtain i where i: "i < length parts - 1" "c = parts ! i"
      by (auto simp: in_set_conv_nth nth_butlast)
    then have "component_ok g (length parts) i c" "Suc i \<noteq> length parts" using ok by auto
    with that show ?thesis by (auto simp: component_ok_def)
  qed
  have lst: "CHR ''*'' \<in> set (last parts) \<longrightarrow> last parts = ''*'' \<or> last parts = ''**''" if g
    using that parts(2) ok [rule_format, of "length parts - 1"]
    by (auto simp: last_conv_nth component_ok_def)
  have ex: "\<exists>ps. path_comps ps \<and> ''**'' \<notin> set ps \<and> (\<forall>c \<in> set ps. CHR ''*'' \<in> set c \<longrightarrow> c = ''*'')
       \<and> (p = print_path ps \<or> p = print_path (ps @ [''**'']))" if g
  proof (cases "last parts = ''**''")
    case True
    have "path_comps (butlast parts)" using parts(3) by (auto simp: path_comps_def dest: in_set_butlastD)
    moreover have "''**'' \<notin> set (butlast parts)" using front [OF that] by fastforce
    ultimately show ?thesis
      using front [OF that] True parts(1,2)
      by (intro exI [of _ "butlast parts"]) (metis append_butlast_last_id)
  next
    case False
    have "CHR ''*'' \<in> set c \<longrightarrow> c = ''*''" if "c \<in> set parts" for c
      using that front [OF \<open>g\<close>] lst [OF \<open>g\<close>] False parts(2)
      by (metis append_butlast_last_id in_set_conv_decomp rotate1.simps(2) set_ConsD set_rotate1)
    moreover from this have "''**'' \<notin> set parts" by fastforce
    ultimately show ?thesis using parts(1,3) by blast
  qed
  with validate_policy_path_canonical [OF assms] show ?thesis by blast
qed

theorem validated_paths_canonical_witness: "canonical_path ''/infra/*/**''"
proof -
  have "validate_policy_path ''/infra/*/**'' True = Inr ()" by code_simp
  from validated_paths_canonical [OF this] show ?thesis by blast
qed

end
