(* ===== verification/Policy_Compile.thy ===== *)
theory Policy_Compile
  imports Policy_Validation "HOL-Library.Multiset"
begin

text \<open>
  Compilation of a Policy document into per-action rule lists and their evaluation
  (\<open>CompiledWorkspacePolicy\<close> in \<open>policy.rs\<close>).  The refinement compares the compiled lookup, a first
  match in a sorted list, with a declarative reading of the document: among the matching rules the
  highest priority decides, a denial wins a tie, and without a match the action's default applies.
\<close>

section \<open>Operations\<close>

record compiled_policy =
  cp_revision :: nat
  cp_mode :: policy_mode
  cp_defaults :: "policy_effect btree_map"
  cp_groups :: "string \<rightharpoonup> policy_principal_ref list"
  cp_rules_by_action :: "string \<rightharpoonup> workspace_policy_rule list"

fun effect_order :: "policy_effect \<Rightarrow> int" where
  "effect_order Allow = 0"
| "effect_order Deny = 1"

text \<open>
  \<open>sort_by\<close> is stable; the comparator of \<open>compile\<close> is the order of this key, with both integer
  comparisons reversed and the ID compared only for schema 2.
\<close>

definition rule_key :: "bool \<Rightarrow> workspace_policy_rule \<Rightarrow> int \<times> int \<times> string" where
  "rule_key stable_ties rule =
     (- rule_priority rule, - effect_order (rule_effect rule),
      if stable_ties then rule_id rule else [])"

text \<open>The inner loop over the actions of one rule, \<open>seen\<close> being the hash set.\<close>

fun push_rule ::
  "workspace_policy_rule \<Rightarrow> string list \<Rightarrow> string list \<Rightarrow> (string \<rightharpoonup> workspace_policy_rule list)
   \<Rightarrow> (string \<rightharpoonup> workspace_policy_rule list)" where
  "push_rule rule seen [] m = m"
| "push_rule rule seen (action # actions) m =
     (if action \<in> set seen then push_rule rule seen actions m
      else push_rule rule (action # seen) actions
        (m(action \<mapsto> (case m action of None \<Rightarrow> [] | Some rules \<Rightarrow> rules) @ [rule])))"

definition index_rules :: "workspace_policy_rule list \<Rightarrow> (string \<rightharpoonup> workspace_policy_rule list)" where
  "index_rules rules = fold (\<lambda>rule m. push_rule rule [] (rule_actions rule) m) rules Map.empty"

definition compile_policy :: "workspace_policy \<Rightarrow> compiled_policy" where
  "compile_policy policy =
     (let doc = wp_document policy; stable_ties = (doc_schema_version doc = 2) in
      \<lparr>cp_revision = wp_revision policy, cp_mode = wp_mode policy,
       cp_defaults = doc_defaults doc,
       cp_groups = map_of (map (\<lambda>(name, g). (name, pg_principals g)) (doc_groups doc)),
       cp_rules_by_action =
         (\<lambda>action. map_option (sort_key (rule_key stable_ties)) (index_rules (doc_rules doc) action))\<rparr>)"

definition allow_policy :: "nat \<Rightarrow> compiled_policy" where
  "allow_policy revision =
     \<lparr>cp_revision = revision, cp_mode = Monitor, cp_defaults = [], cp_groups = Map.empty,
      cp_rules_by_action = Map.empty\<rparr>"

definition group_contains :: "compiled_policy \<Rightarrow> string \<Rightarrow> policy_principal_kind \<Rightarrow> string \<Rightarrow> bool" where
  "group_contains cp grp kind i =
     is_some_and (cp_groups cp grp) (list_ex (\<lambda>p. pr_kind p = kind \<and> pr_id p = i))"

definition subject_matches :: "compiled_policy \<Rightarrow> policy_subject_selector \<Rightarrow> policy_request \<Rightarrow> bool" where
  "subject_matches cp sel request =
     (let (kind, i, machine_id) = subject_parts (req_subject request) in
      is_none_or (ss_kind sel) (\<lambda>e. e = kind)
      \<and> selector_matches (ss_tree sel) (req_subject_tree request)
      \<and> is_none_or (ss_id sel) (\<lambda>e. e = i)
      \<and> is_none_or (ss_machine_id sel) (\<lambda>e. e = machine_id)
      \<and> is_none_or (ss_group sel) (\<lambda>g. group_contains cp g kind i)
      \<and> (\<not> ss_is_self sel \<or> res_id (req_resource request) = i))"

definition resource_matches :: "compiled_policy \<Rightarrow> policy_resource_selector \<Rightarrow> policy_request \<Rightarrow> bool" where
  "resource_matches cp sel request \<longleftrightarrow>
     selector_matches (rs_tree sel) (req_resource_tree request)
     \<and> is_none_or (rs_kind sel) (\<lambda>k. k = res_kind (req_resource request))
     \<and> is_none_or (rs_id sel) (\<lambda>i. i = res_id (req_resource request))
     \<and> is_none_or (rs_principal_group sel) (\<lambda>g.
          is_some_and (resource_principal (req_resource request)) (\<lambda>(kind, i). group_contains cp g kind i))"

definition rule_matches :: "compiled_policy \<Rightarrow> policy_request \<Rightarrow> workspace_policy_rule \<Rightarrow> bool" where
  "rule_matches cp request rule \<longleftrightarrow>
     list_ex (\<lambda>s. subject_matches cp s request) (rule_subjects rule)
     \<and> list_ex (\<lambda>r. resource_matches cp r request) (rule_resources rule)
     \<and> conditions_match rule request"

definition explain_policy :: "compiled_policy \<Rightarrow> policy_request \<Rightarrow> policy_explanation" where
  "explain_policy cp request =
     (let matched = (case cp_rules_by_action cp (req_action request) of
                       None \<Rightarrow> None | Some rules \<Rightarrow> find (rule_matches cp request) rules);
          effect = (case matched of Some r \<Rightarrow> rule_effect r | None \<Rightarrow>
                     (case map_of (cp_defaults cp) (req_action request) of Some e \<Rightarrow> e | None \<Rightarrow> Allow))
      in \<lparr>ex_computed_effect = effect,
          ex_effective_decision = (if cp_mode cp = Monitor then Allow else effect),
          ex_mode = cp_mode cp,
          ex_matched_rule_id = map_option rule_id matched,
          ex_reason = (if matched \<noteq> None then ''rule matched'' else ''no rule matched; action default''),
          ex_policy_revision = cp_revision cp,
          ex_tree_revision = req_tree_revision request,
          ex_source = ''workspace_policy''\<rparr>)"

definition evaluate_policy :: "compiled_policy \<Rightarrow> policy_request \<Rightarrow> policy_decision" where
  "evaluate_policy cp request = into_decision (explain_policy cp request)"

definition explain_document ::
  "instant \<Rightarrow> workspace_policy_document \<Rightarrow> policy_mode \<Rightarrow> policy_request \<Rightarrow> policy_explanation" where
  "explain_document now doc mode request =
     explain_policy (compile_policy
       \<lparr>wp_workspace_id = req_workspace_id request, wp_revision = 0, wp_mode = mode,
        wp_document = doc, wp_updated_at = now,
        wp_updated_by = \<lparr>pr_kind = Human, pr_id = ''simulation''\<rparr>\<rparr>) request"

section \<open>The declarative reading\<close>

definition doc_group_contains ::
  "workspace_policy_document \<Rightarrow> string \<Rightarrow> policy_principal_kind \<Rightarrow> string \<Rightarrow> bool" where
  "doc_group_contains doc g kind i \<longleftrightarrow>
     (\<exists>grp. map_of (doc_groups doc) g = Some grp \<and> \<lparr>pr_kind = kind, pr_id = i\<rparr> \<in> set (pg_principals grp))"

definition doc_subject_matches ::
  "workspace_policy_document \<Rightarrow> policy_subject_selector \<Rightarrow> policy_request \<Rightarrow> bool" where
  "doc_subject_matches doc sel request \<longleftrightarrow>
     (case subject_parts (req_subject request) of (kind, i, machine_id) \<Rightarrow>
       ss_kind sel \<in> {None, Some kind} \<and> ss_id sel \<in> {None, Some i}
       \<and> ss_machine_id sel \<in> {None, Some machine_id}
       \<and> (\<forall>g. ss_group sel = Some g \<longrightarrow> doc_group_contains doc g kind i)
       \<and> (ss_is_self sel \<longrightarrow> res_id (req_resource request) = i)
       \<and> selector_matches (ss_tree sel) (req_subject_tree request))"

definition doc_resource_matches ::
  "workspace_policy_document \<Rightarrow> policy_resource_selector \<Rightarrow> policy_request \<Rightarrow> bool" where
  "doc_resource_matches doc sel request \<longleftrightarrow>
     rs_kind sel \<in> {None, Some (res_kind (req_resource request))}
     \<and> rs_id sel \<in> {None, Some (res_id (req_resource request))}
     \<and> (\<forall>g. rs_principal_group sel = Some g \<longrightarrow>
          (\<exists>kind i. resource_principal (req_resource request) = Some (kind, i)
             \<and> doc_group_contains doc g kind i))
     \<and> selector_matches (rs_tree sel) (req_resource_tree request)"

definition applicable ::
  "workspace_policy_document \<Rightarrow> policy_request \<Rightarrow> workspace_policy_rule \<Rightarrow> bool" where
  "applicable doc request rule \<longleftrightarrow>
     rule \<in> set (doc_rules doc) \<and> req_action request \<in> set (rule_actions rule)
     \<and> (\<exists>s \<in> set (rule_subjects rule). doc_subject_matches doc s request)
     \<and> (\<exists>r \<in> set (rule_resources rule). doc_resource_matches doc r request)
     \<and> (\<forall>c \<in> set (rule_conditions rule). condition_matches rule request c)"

text \<open>The rules that decide: applicable rules no applicable rule outranks.\<close>

definition top_rules ::
  "workspace_policy_document \<Rightarrow> policy_request \<Rightarrow> workspace_policy_rule set" where
  "top_rules doc request =
     {r. applicable doc request r \<and> (\<forall>r'. applicable doc request r' \<longrightarrow> rule_priority r' \<le> rule_priority r)}"

definition spec_effect :: "workspace_policy_document \<Rightarrow> policy_request \<Rightarrow> policy_effect" where
  "spec_effect doc request =
     (if \<exists>r. applicable doc request r
      then (if \<exists>r \<in> top_rules doc request. rule_effect r = Deny then Deny else Allow)
      else (case map_of (doc_defaults doc) (req_action request) of Some e \<Rightarrow> e | None \<Rightarrow> Allow))"

section \<open>Lemmas\<close>

lemma push_rule_other: "action \<notin> set actions \<Longrightarrow> push_rule rule seen actions m action = m action"
  by (induction rule seen actions m rule: push_rule.induct) auto

lemma push_rule_seen: "action \<in> set seen \<Longrightarrow> push_rule rule seen actions m action = m action"
  by (induction rule seen actions m rule: push_rule.induct) auto

lemma push_rule_in:
  "action \<in> set actions \<Longrightarrow> action \<notin> set seen \<Longrightarrow>
   push_rule rule seen actions m action
     = Some ((case m action of None \<Rightarrow> [] | Some rules \<Rightarrow> rules) @ [rule])"
proof (induction actions arbitrary: seen m)
  case (Cons a actions)
  then show ?case by (cases "a = action") (auto simp: push_rule_seen)
qed simp

lemma index_rules_aux:
  "(case fold (\<lambda>rule m. push_rule rule [] (rule_actions rule) m) rules m action of
      None \<Rightarrow> [] | Some rs \<Rightarrow> rs) =
   (case m action of None \<Rightarrow> [] | Some rs \<Rightarrow> rs) @ filter (\<lambda>r. action \<in> set (rule_actions r)) rules"
proof (induction rules arbitrary: m)
  case (Cons r rules)
  show ?case
    by (cases "action \<in> set (rule_actions r)")
      (simp_all add: Cons push_rule_in push_rule_other)
qed simp

lemma index_rules_eq:
  "(case index_rules rules action of None \<Rightarrow> [] | Some rs \<Rightarrow> rs)
   = filter (\<lambda>r. action \<in> set (rule_actions r)) rules"
  by (simp add: index_rules_def index_rules_aux)

text \<open>What the compiled policy looks up: the sorted candidates of the action.\<close>

definition candidates :: "workspace_policy_document \<Rightarrow> string \<Rightarrow> workspace_policy_rule list" where
  "candidates doc action =
     sort_key (rule_key (doc_schema_version doc = 2))
       (filter (\<lambda>r. action \<in> set (rule_actions r)) (doc_rules doc))"

lemma compiled_lookup:
  "(case cp_rules_by_action (compile_policy p) action of None \<Rightarrow> None | Some rs \<Rightarrow> find P rs)
   = find P (candidates (wp_document p) action)"
  using index_rules_eq [of "doc_rules (wp_document p)" action]
  by (cases "index_rules (doc_rules (wp_document p)) action")
     (simp_all add: compile_policy_def Let_def candidates_def)

lemma compile_groups:
  "cp_groups (compile_policy p) g = map_option pg_principals (map_of (doc_groups (wp_document p)) g)"
  by (simp add: compile_policy_def Let_def map_of_map)

lemma principal_ref_mem:
  "(\<exists>p \<in> set ps. pr_kind p = kind \<and> pr_id p = i) \<longleftrightarrow> \<lparr>pr_kind = kind, pr_id = i\<rparr> \<in> set ps"
proof
  assume "\<exists>p \<in> set ps. pr_kind p = kind \<and> pr_id p = i"
  then obtain p where p: "p \<in> set ps" "pr_kind p = kind" "pr_id p = i" by blast
  have "p = \<lparr>pr_kind = kind, pr_id = i\<rparr>" using p(2,3) by (cases p) simp
  with p(1) show "\<lparr>pr_kind = kind, pr_id = i\<rparr> \<in> set ps" by simp
qed force

lemma group_contains_compile:
  "group_contains (compile_policy p) g kind i = doc_group_contains (wp_document p) g kind i"
  by (simp add: group_contains_def doc_group_contains_def compile_groups is_some_and_def list_ex_iff
      principal_ref_mem split: option.splits)

lemma is_none_or_eq: "is_none_or v (\<lambda>e. e = k) \<longleftrightarrow> v \<in> {None, Some k}"
  by (auto simp: is_none_or_def split: option.splits)

lemma is_none_or_all: "is_none_or v P \<longleftrightarrow> (\<forall>g. v = Some g \<longrightarrow> P g)"
  by (auto simp: is_none_or_def split: option.splits)

lemma is_some_and_pair: "is_some_and v (\<lambda>(k, i). P k i) \<longleftrightarrow> (\<exists>k i. v = Some (k, i) \<and> P k i)"
  by (auto simp: is_some_and_def split: option.splits)

lemma subject_matches_compile:
  "subject_matches (compile_policy p) sel request = doc_subject_matches (wp_document p) sel request"
  unfolding subject_matches_def doc_subject_matches_def is_none_or_eq is_none_or_all [of "ss_group sel"]
    group_contains_compile Let_def
  by (simp split: prod.splits) blast

lemma resource_matches_compile:
  "resource_matches (compile_policy p) sel request = doc_resource_matches (wp_document p) sel request"
  unfolding resource_matches_def doc_resource_matches_def is_none_or_eq
    is_none_or_all [of "rs_principal_group sel"] is_some_and_pair group_contains_compile
  by blast

lemma rule_matches_compile:
  "rule \<in> set (doc_rules (wp_document p)) \<Longrightarrow> req_action request \<in> set (rule_actions rule) \<Longrightarrow>
   rule_matches (compile_policy p) request rule = applicable (wp_document p) request rule"
  by (simp add: rule_matches_def applicable_def subject_matches_compile resource_matches_compile
      conditions_match_def list_ex_iff list_all_iff)

lemma find_first:
  assumes "sorted (map k xs)" "find P xs = Some r"
  shows "r \<in> set xs \<and> P r \<and> (\<forall>r' \<in> set xs. P r' \<longrightarrow> k r \<le> k r')"
  using assms by (induction xs) (auto split: if_splits)

lemma candidates_set:
  "set (candidates doc action) = {r \<in> set (doc_rules doc). action \<in> set (rule_actions r)}"
  by (auto simp: candidates_def)

lemma candidates_sorted:
  "sorted (map (rule_key (doc_schema_version doc = 2)) (candidates doc action))"
  by (simp add: candidates_def)

lemma find_cong_set: "(\<And>x. x \<in> set xs \<Longrightarrow> P x = Q x) \<Longrightarrow> find P xs = find Q xs"
  by (induction xs) auto

definition deciding_rule ::
  "workspace_policy_document \<Rightarrow> policy_request \<Rightarrow> workspace_policy_rule option" where
  "deciding_rule doc request = find (applicable doc request) (candidates doc (req_action request))"

lemma compile_fields [simp]:
  "cp_revision (compile_policy p) = wp_revision p" "cp_mode (compile_policy p) = wp_mode p"
  "cp_defaults (compile_policy p) = doc_defaults (wp_document p)"
  by (simp_all add: compile_policy_def Let_def)

lemma explain_compiled:
  "explain_policy (compile_policy p) request =
     (let matched = deciding_rule (wp_document p) request;
          effect = (case matched of Some r \<Rightarrow> rule_effect r | None \<Rightarrow>
             (case map_of (doc_defaults (wp_document p)) (req_action request) of Some e \<Rightarrow> e | None \<Rightarrow> Allow))
      in \<lparr>ex_computed_effect = effect,
          ex_effective_decision = (if wp_mode p = Monitor then Allow else effect),
          ex_mode = wp_mode p, ex_matched_rule_id = map_option rule_id matched,
          ex_reason = (if matched \<noteq> None then ''rule matched'' else ''no rule matched; action default''),
          ex_policy_revision = wp_revision p, ex_tree_revision = req_tree_revision request,
          ex_source = ''workspace_policy''\<rparr>)"
proof -
  have "find (rule_matches (compile_policy p) request) (candidates (wp_document p) (req_action request))
      = deciding_rule (wp_document p) request"
    unfolding deciding_rule_def by (rule find_cong_set) (simp add: candidates_set rule_matches_compile)
  then show ?thesis
    unfolding explain_policy_def compiled_lookup compile_fields by (simp add: Let_def)
qed

lemma applicable_candidate: "applicable doc request r \<Longrightarrow> r \<in> set (candidates doc (req_action request))"
  by (simp add: applicable_def candidates_set)

lemma deciding_rule_None: "deciding_rule doc request = None \<longleftrightarrow> (\<nexists>r. applicable doc request r)"
  by (auto simp: deciding_rule_def find_None_iff dest: applicable_candidate)

lemma deciding_rule_Some:
  assumes "deciding_rule doc request = Some r"
  shows "applicable doc request r
    \<and> (\<forall>r'. applicable doc request r' \<longrightarrow>
          rule_key (doc_schema_version doc = 2) r \<le> rule_key (doc_schema_version doc = 2) r')"
  using find_first [OF candidates_sorted assms [unfolded deciding_rule_def]]
  by (auto dest: applicable_candidate)

lemma deciding_rule_top:
  assumes "deciding_rule doc request = Some r"
  shows "r \<in> top_rules doc request
    \<and> (rule_effect r = Allow \<longrightarrow> (\<forall>r' \<in> top_rules doc request. rule_effect r' = Allow))"
proof -
  note d = deciding_rule_Some [OF assms]
  have prio: "rule_priority r' \<le> rule_priority r" if "applicable doc request r'" for r'
    using d that by (auto simp: rule_key_def less_eq_prod_def)
  moreover have "rule_effect r' = Allow"
    if "rule_effect r = Allow" "r' \<in> top_rules doc request" for r'
  proof -
    from that d have "applicable doc request r'" "rule_priority r' = rule_priority r"
      using prio by (auto simp: top_rules_def intro: antisym)
    with d that(1) have "effect_order (rule_effect r') \<le> 0"
      by (auto simp: rule_key_def less_eq_prod_def)
    then show ?thesis by (cases "rule_effect r'") auto
  qed
  ultimately show ?thesis using d by (auto simp: top_rules_def)
qed

section \<open>Properties\<close>

text \<open>
  C1: The compiled evaluator refines the declarative reading of the document.  Its computed effect is
  the declarative one: among the applicable rules of the document the highest priority decides, one
  denial at that priority makes the result a denial, and if no rule applies the action's default
  decides (\<open>Allow\<close> when there is none).  In monitor mode the request is always let through, in
  enforce mode the effective decision is the computed effect; the reported rule is one of the
  deciding rules, and it is present exactly when some rule applies.
\<close>

theorem compiled_policy_refines_document:
  "let x = explain_policy (compile_policy p) request; doc = wp_document p in
     ex_computed_effect x = spec_effect doc request
     \<and> ex_effective_decision x = (if wp_mode p = Monitor then Allow else spec_effect doc request)
     \<and> (evaluate_policy (compile_policy p) request = DAllow
          \<longleftrightarrow> wp_mode p = Monitor \<or> spec_effect doc request = Allow)
     \<and> (case ex_matched_rule_id x of
          None \<Rightarrow> \<nexists>r. applicable doc request r
        | Some i \<Rightarrow> \<exists>r \<in> top_rules doc request. rule_id r = i \<and> rule_effect r = spec_effect doc request)"
proof (cases "deciding_rule (wp_document p) request")
  case None
  with deciding_rule_None [of "wp_document p" request] show ?thesis
    by (auto simp: explain_compiled evaluate_policy_def spec_effect_def Let_def)
next
  case (Some r)
  have eff: "spec_effect (wp_document p) request = rule_effect r"
    using deciding_rule_top [OF Some] deciding_rule_Some [OF Some]
    by (cases "rule_effect r") (auto simp: spec_effect_def)
  with Some deciding_rule_top [OF Some] show ?thesis
    by (auto simp: explain_compiled evaluate_policy_def Let_def)
qed

lemma candidates_mset:
  assumes "mset (doc_rules doc) = mset (doc_rules doc')" "distinct (map rule_id (doc_rules doc))"
    and "doc_schema_version doc = 2" "doc_schema_version doc' = 2"
  shows "candidates doc action = candidates doc' action"
proof -
  have inj: "inj_on (rule_key True) (set (doc_rules doc))"
    using assms(2) by (auto simp: inj_on_def rule_key_def distinct_map)
  have "mset (filter P (doc_rules doc)) = mset (filter P (doc_rules doc'))" for P
    using assms(1) by simp
  then show ?thesis
    unfolding candidates_def using assms(3,4) inj
    by (auto intro!: sort_key_inj_key_eq elim!: inj_on_subset)
qed

text \<open>
  For schema 2 documents whose rule IDs are pairwise different (validation ensures that),
  reordering the rules of the document changes no explanation: neither the effect nor the reported
  rule depends on the order in which an App or a user listed them.
\<close>

theorem schema2_order_independent:
  assumes "mset (doc_rules (wp_document p)) = mset rules"
    and "distinct (map rule_id (doc_rules (wp_document p)))" "doc_schema_version (wp_document p) = 2"
  shows "explain_policy (compile_policy (p\<lparr>wp_document := (wp_document p)\<lparr>doc_rules := rules\<rparr>\<rparr>)) request
    = explain_policy (compile_policy p) request"
proof -
  let ?doc = "wp_document p" and ?doc' = "(wp_document p)\<lparr>doc_rules := rules\<rparr>"
  have "candidates ?doc action = candidates ?doc' action" for action
    using assms by (intro candidates_mset) auto
  moreover have "applicable ?doc' request = applicable ?doc request"
  proof
    fix r
    have "set rules = set (doc_rules ?doc)" using assms(1) by (metis set_mset_mset)
    then show "applicable ?doc' request r = applicable ?doc request r"
      by (simp add: applicable_def doc_subject_matches_def doc_resource_matches_def doc_group_contains_def)
  qed
  ultimately have "deciding_rule ?doc' request = deciding_rule ?doc request"
    by (simp add: deciding_rule_def)
  then show ?thesis by (simp add: explain_compiled Let_def split: option.splits)
qed

definition example_policy :: workspace_policy where
  "example_policy = \<lparr>wp_workspace_id = ''ws'', wp_revision = 3, wp_mode = Enforce,
     wp_document = example_document\<lparr>doc_rules := [
       example_rule\<lparr>rule_id := ''b'', rule_bindings := [], rule_conditions := []\<rparr>,
       example_rule\<lparr>rule_id := ''a'', rule_bindings := [], rule_conditions := []\<rparr>,
       example_rule\<lparr>rule_id := ''c'', rule_bindings := [], rule_conditions := [], rule_effect := Allow\<rparr>]\<rparr>,
     wp_updated_at = 0, wp_updated_by = \<lparr>pr_kind = Human, pr_id = ''usr_owner''\<rparr>\<rparr>"

definition example_request :: policy_request where
  "example_request = policy_request_new ''ws'' (SubjAgent ''srv'' ''ag_1'') ''agent.prompt''
     (policy_resource_new ''agent'' ''ag_2'')"

theorem schema2_order_independent_witness:
  "ex_matched_rule_id (explain_policy (compile_policy (example_policy\<lparr>wp_document :=
       (wp_document example_policy)\<lparr>doc_rules := List.rev (doc_rules (wp_document example_policy))\<rparr>\<rparr>))
     example_request) = Some ''a''"
proof -
  have "ex_matched_rule_id (explain_policy (compile_policy example_policy) example_request) = Some ''a''"
    by code_simp
  moreover have "distinct (map rule_id (doc_rules (wp_document example_policy)))"
    "doc_schema_version (wp_document example_policy) = 2" by code_simp+
  ultimately show ?thesis
    using schema2_order_independent [of example_policy
        "List.rev (doc_rules (wp_document example_policy))" example_request] by simp
qed

text \<open>
  Rules fail closed towards missing Tree context.  A rule with a Tree condition, or whose
  selectors all carry a Tree selector, never applies to a request whose Tree context is missing or
  unplaced: neither can it grant access on guessed placement.
\<close>

theorem tree_rules_need_placement:
  assumes "\<not> is_some_and (req_resource_tree request) tc_placed"
    and "rule_conditions rule \<noteq> [] \<or> list_all (\<lambda>r. rs_tree r \<noteq> None) (rule_resources rule)"
  shows "\<not> rule_matches cp request rule"
  using assms
  by (cases "rule_conditions rule")
     (auto simp: rule_matches_def conditions_match_def condition_matches_def resource_matches_def
        selector_matches_def list_ex_iff list_all_iff is_some_and_def split: option.splits)

theorem tree_rules_need_placement_witness:
  "\<not> rule_matches (compile_policy example_policy) example_request example_rule"
  by (rule tree_rules_need_placement)
     (simp_all add: example_request_def policy_request_new_def example_rule_def is_some_and_def)

end
