(* ===== verification/Policy_Store.thy ===== *)
theory Policy_Store
  imports Policy_Validation
begin

text \<open>
  The durable Policy tables: \<open>workspace_policies\<close> with optimistic revisions
  (\<open>policy_store.rs\<close>) and \<open>workspace_policy_providers\<close> (\<open>policy_provider_store.rs\<close>), with the
  constraints and triggers of \<open>schema.sql\<close> that decide whether a statement succeeds.  Rows hold
  text and \<open>BIGINT\<close> columns as the table does; the JSON and timestamp codecs of \<open>serde_json\<close>, of
  PostgreSQL's \<open>jsonb\<close> and of \<open>chrono\<close> are parameters collected in \<open>policy_codec\<close>.
\<close>

section \<open>Rows\<close>

record policy_codec =
  cd_encode :: "workspace_policy_document \<Rightarrow> string + string"
  cd_jsonb_text :: "string \<Rightarrow> string"
  cd_decode :: "string \<Rightarrow> string + workspace_policy_document"
  cd_to_rfc3339 :: "instant \<Rightarrow> string"
  cd_parse_rfc3339 :: "string \<Rightarrow> string + instant"

record policy_row =
  prow_workspace_id :: string
  prow_revision :: int
  prow_schema_version :: int
  prow_mode :: string
  prow_document :: string
  prow_updated_at :: string
  prow_updated_by_kind :: string
  prow_updated_by_id :: string

record provider_row =
  vrow_workspace_id :: string
  vrow_app_id :: string
  vrow_service_id :: string
  vrow_failure_mode :: string
  vrow_max_stale_seconds :: int
  vrow_revision_hint :: int
  vrow_updated_at :: string
  vrow_updated_by :: string
  vrow_publish_authority :: string

record authority_audit =
  aa_organization_id :: string
  aa_workspace_id :: string
  aa_actor_id :: string
  aa_resource_id :: string
  aa_previous :: string
  aa_publish_authority :: policy_publish_authority

record policy_tables =
  pt_workspaces :: "string \<rightharpoonup> string"
  pt_apps :: "string list"
  pt_services :: "string list"
  pt_public_tcp :: "string list"
  pt_policies :: "string \<rightharpoonup> policy_row"
  pt_providers :: "string \<rightharpoonup> provider_row"
  pt_notifications :: "(string \<times> string \<times> nat) list"
  pt_audit :: "authority_audit list"

definition i64_max :: int where
  "i64_max = 2 ^ 63 - 1"

definition u32_max :: int where
  "u32_max = 2 ^ 32 - 1"

definition try_from_int_error :: string where
  "try_from_int_error = ''out of range integral type conversion attempted''"

definition POLICY_CHANGED_CHANNEL :: string where
  "POLICY_CHANGED_CHANNEL = ''treer_policy_changed''"

section \<open>Workspace policies\<close>

definition parse_policy_mode :: "string \<Rightarrow> policy_mode store_res" where
  "parse_policy_mode v =
     (if v = ''monitor'' then Inr Monitor else if v = ''enforce'' then Inr Enforce
      else Inl (Corrupt (''invalid mode '' @ v)))"

definition parse_actor_kind :: "string \<Rightarrow> policy_principal_kind store_res" where
  "parse_actor_kind v =
     (if v = ''human'' then Inr Human else if v = ''agent'' then Inr Agent
      else if v = ''machine'' then Inr Machine else if v = ''service'' then Inr Service
      else Inl (Corrupt (''invalid actor kind '' @ v)))"

definition workspace_policy_from_row :: "policy_codec \<Rightarrow> policy_row \<Rightarrow> workspace_policy store_res" where
  "workspace_policy_from_row c row =
     and_then (if 0 \<le> prow_revision row then Inr (nat (prow_revision row))
               else Inl (Corrupt (''invalid revision: '' @ try_from_int_error))) (\<lambda>revision.
     and_then (if 0 \<le> prow_schema_version row \<and> prow_schema_version row \<le> u32_max
               then Inr (nat (prow_schema_version row))
               else Inl (Corrupt (''invalid schema version: '' @ try_from_int_error))) (\<lambda>schema_version.
     and_then (parse_policy_mode (prow_mode row)) (\<lambda>mode.
     and_then (map_err (\<lambda>e. Corrupt (''invalid document: '' @ e)) (cd_decode c (prow_document row))) (\<lambda>doc.
     if doc_schema_version doc \<noteq> schema_version then
       Inl (Corrupt ''document and row schema versions disagree'')
     else
       and_then (parse_actor_kind (prow_updated_by_kind row)) (\<lambda>kind.
       and_then (map_err (\<lambda>e. Corrupt (''invalid timestamp: '' @ e))
                   (cd_parse_rfc3339 c (prow_updated_at row))) (\<lambda>updated_at.
       Inr \<lparr>wp_workspace_id = prow_workspace_id row, wp_revision = revision, wp_mode = mode,
            wp_document = doc, wp_updated_at = updated_at,
            wp_updated_by = \<lparr>pr_kind = kind, pr_id = prow_updated_by_id row\<rparr>\<rparr>))))))"

definition policy_get ::
  "policy_codec \<Rightarrow> string \<Rightarrow> policy_tables \<Rightarrow> workspace_policy option store_res" where
  "policy_get c w s =
     (case pt_policies s w of None \<Rightarrow> Inr None
      | Some row \<Rightarrow> and_then (workspace_policy_from_row c row) (\<lambda>p. Inr (Some p)))"

text \<open>The column constraints of \<open>workspace_policies\<close>.\<close>

definition policy_row_checks :: "policy_tables \<Rightarrow> policy_row \<Rightarrow> bool" where
  "policy_row_checks s row \<longleftrightarrow>
     0 < prow_revision row \<and> prow_revision row \<le> i64_max \<and> 0 < prow_schema_version row
     \<and> prow_mode row \<in> {''monitor'', ''enforce''}
     \<and> prow_updated_by_kind row \<in> {''human'', ''agent'', ''machine'', ''service''}
     \<and> pt_workspaces s (prow_workspace_id row) \<noteq> None"

text \<open>The two statements of \<open>replace\<close>: \<open>Inr None\<close> is a statement that affects no row.\<close>

definition insert_policy ::
  "policy_row \<Rightarrow> policy_tables \<Rightarrow> (policy_row option \<times> policy_tables) store_res" where
  "insert_policy row s =
     (case pt_policies s (prow_workspace_id row) of
        Some _ \<Rightarrow> Inr (None, s)
      | None \<Rightarrow>
          if policy_row_checks s row then
            Inr (Some row, s\<lparr>pt_policies := (pt_policies s)(prow_workspace_id row \<mapsto> row)\<rparr>)
          else Inl Database)"

definition update_policy ::
  "int \<Rightarrow> policy_row \<Rightarrow> policy_tables \<Rightarrow> (policy_row option \<times> policy_tables) store_res" where
  "update_policy expected row s =
     (case pt_policies s (prow_workspace_id row) of
        None \<Rightarrow> Inr (None, s)
      | Some old \<Rightarrow>
          if prow_revision old \<noteq> expected then Inr (None, s)
          else let row' = row\<lparr>prow_revision := prow_revision old + 1\<rparr> in
            if policy_row_checks s row' then
              Inr (Some row', s\<lparr>pt_policies := (pt_policies s)(prow_workspace_id row \<mapsto> row')\<rparr>)
            else Inl Database)"

definition replace_row ::
  "int \<Rightarrow> policy_row \<Rightarrow> policy_tables \<Rightarrow> (policy_row option \<times> policy_tables) store_res" where
  "replace_row expected row s =
     (if expected = 0 then insert_policy row s else update_policy expected row s)"

definition new_policy_row ::
  "policy_codec \<Rightarrow> instant \<Rightarrow> string \<Rightarrow> policy_mode \<Rightarrow> workspace_policy_document \<Rightarrow> string
   \<Rightarrow> policy_principal_ref \<Rightarrow> policy_row" where
  "new_policy_row c now w mode doc document_json updated_by =
     \<lparr>prow_workspace_id = w, prow_revision = 1,
      prow_schema_version = int (doc_schema_version doc),
      prow_mode = policy_mode_as_str mode,
      prow_document = cd_jsonb_text c document_json,
      prow_updated_at = cd_to_rfc3339 c now,
      prow_updated_by_kind = principal_kind_as_str (pr_kind updated_by),
      prow_updated_by_id = pr_id updated_by\<rparr>"

definition policy_replace ::
  "policy_codec \<Rightarrow> instant \<Rightarrow> string \<Rightarrow> nat \<Rightarrow> policy_mode \<Rightarrow> workspace_policy_document
   \<Rightarrow> policy_principal_ref \<Rightarrow> policy_tables \<Rightarrow> (workspace_policy \<times> policy_tables) store_res" where
  "policy_replace c now w expected_revision mode doc updated_by s =
     and_then (validate_document (cd_encode c) doc) (\<lambda>_.
     and_then (validate_token (pr_id updated_by) ''policy actor ID'') (\<lambda>_.
     and_then (map_err Corrupt (cd_encode c doc)) (\<lambda>document_json.
     and_then (if int expected_revision \<le> i64_max then Inr (int expected_revision)
               else Inl (Invalid ''invalid_policy_revision'' ''policy revision is too large'')) (\<lambda>expected.
     let row = new_policy_row c now w mode doc document_json updated_by in
     and_then (replace_row expected row s) (\<lambda>(out, s').
     and_then (ok_or_else out RevisionConflict) (\<lambda>row'.
     and_then (workspace_policy_from_row c row') (\<lambda>policy.
     Inr (policy, s'\<lparr>pt_notifications :=
        pt_notifications s' @ [(POLICY_CHANGED_CHANNEL, w, wp_revision policy)]\<rparr>))))))))"

section \<open>Policy providers\<close>

datatype sqlx_error = SqlDecode string | SqlRowNotFound | SqlDatabase

definition parse_failure_mode :: "string \<Rightarrow> string + policy_provider_failure_mode" where
  "parse_failure_mode v =
     (if v = ''fail_closed'' then Inr FailClosed else if v = ''fail_open'' then Inr FailOpen
      else Inl (''invalid policy provider failure mode '' @ v))"

definition parse_publish_authority :: "string \<Rightarrow> string + policy_publish_authority" where
  "parse_publish_authority v =
     (if v = ''owner_session'' then Inr OwnerSession
      else if v = ''provider_operator'' then Inr ProviderOperator
      else Inl (''invalid policy publication authority '' @ v))"

definition u64_try_from :: "int \<Rightarrow> string + nat" where
  "u64_try_from v = (if 0 \<le> v then Inr (nat v) else Inl try_from_int_error)"

definition i64_try_from :: "nat \<Rightarrow> string + int" where
  "i64_try_from v = (if int v \<le> i64_max then Inr (int v) else Inl try_from_int_error)"

definition provider_from_row :: "policy_codec \<Rightarrow> provider_row \<Rightarrow> string + workspace_policy_provider" where
  "provider_from_row c row =
     and_then (parse_failure_mode (vrow_failure_mode row)) (\<lambda>failure_mode.
     and_then (cd_parse_rfc3339 c (vrow_updated_at row)) (\<lambda>updated_at.
     and_then (u64_try_from (vrow_max_stale_seconds row)) (\<lambda>max_stale.
     and_then (u64_try_from (vrow_revision_hint row)) (\<lambda>hint.
     and_then (parse_publish_authority (vrow_publish_authority row)) (\<lambda>authority.
     Inr \<lparr>wpp_workspace_id = vrow_workspace_id row, wpp_app_id = vrow_app_id row,
          wpp_service_id = vrow_service_id row, wpp_failure_mode = failure_mode,
          wpp_max_stale_seconds = max_stale, wpp_revision_hint = hint,
          wpp_updated_at = updated_at, wpp_updated_by = vrow_updated_by row,
          wpp_publish_authority = authority\<rparr>)))))"

definition provider_get ::
  "policy_codec \<Rightarrow> string \<Rightarrow> policy_tables \<Rightarrow> sqlx_error + workspace_policy_provider option" where
  "provider_get c w s =
     (case pt_providers s w of None \<Rightarrow> Inr None
      | Some row \<Rightarrow> map_err SqlDecode (and_then (provider_from_row c row) (\<lambda>p. Inr (Some p))))"

text \<open>
  The column constraints and foreign keys of \<open>workspace_policy_providers\<close>, the trigger that keeps
  the service of a Policy App off public TCP, and the trigger that resets the authority.
\<close>

definition provider_row_checks :: "policy_tables \<Rightarrow> provider_row \<Rightarrow> bool" where
  "provider_row_checks s row \<longleftrightarrow>
     vrow_failure_mode row \<in> {''fail_closed'', ''fail_open''}
     \<and> 0 \<le> vrow_max_stale_seconds row \<and> vrow_max_stale_seconds row \<le> 86400
     \<and> 0 \<le> vrow_revision_hint row
     \<and> vrow_publish_authority row \<in> {''owner_session'', ''provider_operator''}
     \<and> pt_workspaces s (vrow_workspace_id row) \<noteq> None
     \<and> vrow_app_id row \<in> set (pt_apps s) \<and> vrow_service_id row \<in> set (pt_services s)"

definition reset_policy_publish_authority :: "provider_row \<Rightarrow> provider_row \<Rightarrow> provider_row" where
  "reset_policy_publish_authority old new =
     (if vrow_app_id new \<noteq> vrow_app_id old \<or> vrow_service_id new \<noteq> vrow_service_id old
      then new\<lparr>vrow_publish_authority := ''owner_session''\<rparr> else new)"

definition provider_set ::
  "policy_codec \<Rightarrow> instant \<Rightarrow> string \<Rightarrow> string \<Rightarrow> string \<Rightarrow> policy_provider_failure_mode \<Rightarrow> nat \<Rightarrow> nat
   \<Rightarrow> string \<Rightarrow> policy_tables \<Rightarrow> (sqlx_error + workspace_policy_provider) \<times> policy_tables" where
  "provider_set c now w app service failure_mode max_stale_seconds revision_hint actor s =
     (case (i64_try_from max_stale_seconds, i64_try_from revision_hint) of
        (Inl e, _) \<Rightarrow> (Inl (SqlDecode e), s)
      | (Inr _, Inl e) \<Rightarrow> (Inl (SqlDecode e), s)
      | (Inr stale, Inr hint) \<Rightarrow>
          let excluded = \<lparr>vrow_workspace_id = w, vrow_app_id = app, vrow_service_id = service,
                vrow_failure_mode = failure_mode_as_str failure_mode,
                vrow_max_stale_seconds = stale, vrow_revision_hint = hint,
                vrow_updated_at = cd_to_rfc3339 c now, vrow_updated_by = actor,
                vrow_publish_authority = ''owner_session''\<rparr>;
              row = (case pt_providers s w of
                None \<Rightarrow> excluded
              | Some old \<Rightarrow> reset_policy_publish_authority old
                  (excluded\<lparr>vrow_revision_hint :=
                      (if vrow_app_id old = app then max (vrow_revision_hint old) hint else hint),
                    vrow_publish_authority := vrow_publish_authority old\<rparr>))
          in if provider_row_checks s row \<and> service \<notin> set (pt_public_tcp s) then
               (map_err SqlDecode (provider_from_row c row),
                s\<lparr>pt_providers := (pt_providers s)(w \<mapsto> row)\<rparr>)
             else (Inl SqlDatabase, s))"

definition provider_clear :: "string \<Rightarrow> policy_tables \<Rightarrow> bool \<times> policy_tables" where
  "provider_clear w s =
     (pt_providers s w \<noteq> None, s\<lparr>pt_providers := (pt_providers s)(w := None)\<rparr>)"

definition set_publish_authority ::
  "policy_codec \<Rightarrow> instant \<Rightarrow> string \<Rightarrow> string \<Rightarrow> policy_publish_authority \<Rightarrow> string \<Rightarrow> policy_tables
   \<Rightarrow> sqlx_error + (workspace_policy_provider option \<times> policy_tables)" where
  "set_publish_authority c now w expected_app authority actor s =
     (case pt_providers s w of
        None \<Rightarrow> Inr (None, s)
      | Some old \<Rightarrow>
          if vrow_app_id old \<noteq> expected_app then Inr (None, s)
          else
            let row = old\<lparr>vrow_publish_authority := publish_authority_as_str authority,
                          vrow_updated_at := cd_to_rfc3339 c now, vrow_updated_by := actor\<rparr> in
            and_then (ok_or_else (pt_workspaces s w) SqlRowNotFound) (\<lambda>organization.
            and_then (map_err SqlDecode (provider_from_row c row)) (\<lambda>provider.
            Inr (Some provider,
              s\<lparr>pt_providers := (pt_providers s)(w \<mapsto> row),
                pt_audit := pt_audit s @
                  [\<lparr>aa_organization_id = organization, aa_workspace_id = w, aa_actor_id = actor,
                    aa_resource_id = expected_app, aa_previous = vrow_publish_authority old,
                    aa_publish_authority = authority\<rparr>]\<rparr>))))"

definition advance_revision ::
  "string \<Rightarrow> string \<Rightarrow> nat \<Rightarrow> policy_tables \<Rightarrow> (sqlx_error + nat option) \<times> policy_tables" where
  "advance_revision w app revision s =
     (case i64_try_from revision of
        Inl e \<Rightarrow> (Inl (SqlDecode e), s)
      | Inr r \<Rightarrow>
         (case pt_providers s w of
            None \<Rightarrow> (Inr None, s)
          | Some old \<Rightarrow>
              if vrow_app_id old \<noteq> app then (Inr None, s)
              else let hint = max (vrow_revision_hint old) r in
                (map_err SqlDecode (and_then (u64_try_from hint) (\<lambda>v. Inr (Some v))),
                 s\<lparr>pt_providers := (pt_providers s)(w \<mapsto> old\<lparr>vrow_revision_hint := hint\<rparr>)\<rparr>)))"

section \<open>Optimistic concurrency\<close>

definition policy_revision_of :: "string \<Rightarrow> policy_tables \<Rightarrow> nat" where
  "policy_revision_of w s = (case pt_policies s w of None \<Rightarrow> 0 | Some row \<Rightarrow> nat (prow_revision row))"

text \<open>One writer: the arguments of \<open>replace\<close> apart from the expected revision.\<close>

definition policy_write ::
  "policy_codec \<Rightarrow> string \<Rightarrow> nat \<Rightarrow>
   instant \<times> policy_mode \<times> workspace_policy_document \<times> policy_principal_ref
   \<Rightarrow> policy_tables \<Rightarrow> policy_tables option" where
  "policy_write c w e a s =
     (case a of (now, mode, doc, actor) \<Rightarrow>
        (case policy_replace c now w e mode doc actor s of Inl _ \<Rightarrow> None | Inr (_, s') \<Rightarrow> Some s'))"

lemma parse_policy_mode_as_str [simp]: "parse_policy_mode (policy_mode_as_str m) = Inr m"
  by (cases m) (simp_all add: parse_policy_mode_def)

lemma parse_actor_kind_as_str [simp]: "parse_actor_kind (principal_kind_as_str k) = Inr k"
  by (cases k) (simp_all add: parse_actor_kind_def)

lemma parse_failure_mode_as_str [simp]: "parse_failure_mode (failure_mode_as_str m) = Inr m"
  by (cases m) (simp_all add: parse_failure_mode_def)

lemma parse_publish_authority_as_str [simp]:
  "parse_publish_authority (publish_authority_as_str a) = Inr a"
  by (cases a) (simp_all add: parse_publish_authority_def)

lemma mode_str_mem [simp]: "policy_mode_as_str m \<in> {''monitor'', ''enforce''}"
  by (cases m) simp_all

lemma kind_str_mem [simp]:
  "principal_kind_as_str k \<in> {''human'', ''agent'', ''machine'', ''service''}"
  by (cases k) simp_all

lemma from_row_revision:
  "workspace_policy_from_row c row = Inr p \<Longrightarrow>
   wp_revision p = nat (prow_revision row) \<and> wp_workspace_id p = prow_workspace_id row"
  by (auto simp: workspace_policy_from_row_def res_simps split: if_splits)

lemma policy_statement_inv:
  assumes "replace_row expected row s = Inr (Some row', s')"
    and "0 \<le> expected" "prow_revision row = 1"
  shows "policy_revision_of (prow_workspace_id row) s = nat expected
    \<and> prow_revision row' = expected + 1 \<and> prow_workspace_id row' = prow_workspace_id row
    \<and> s' = s\<lparr>pt_policies := (pt_policies s)(prow_workspace_id row \<mapsto> row')\<rparr>"
  using assms
  by (auto simp: replace_row_def insert_policy_def update_policy_def policy_revision_of_def Let_def
      split: if_splits option.splits)

lemma policy_replace_Inr:
  assumes "policy_replace c now w e mode doc actor s = Inr (p, s')"
  shows "policy_revision_of w s = e \<and> wp_revision p = Suc e \<and> policy_get c w s' = Inr (Some p)
    \<and> policy_revision_of w s' = Suc e
    \<and> pt_notifications s' = pt_notifications s @ [(POLICY_CHANGED_CHANNEL, w, Suc e)]"
proof -
  from assms obtain json row' s1
    where stmt: "replace_row (int e) (new_policy_row c now w mode doc json actor) s = Inr (Some row', s1)"
      and p: "workspace_policy_from_row c row' = Inr p"
      and s': "s' = s1\<lparr>pt_notifications :=
        pt_notifications s1 @ [(POLICY_CHANGED_CHANNEL, w, wp_revision p)]\<rparr>"
    unfolding policy_replace_def Let_def by (auto simp: res_simps split: if_splits)
  have "prow_workspace_id (new_policy_row c now w mode doc json actor) = w"
    "prow_revision (new_policy_row c now w mode doc json actor) = 1"
    by (simp_all add: new_policy_row_def)
  with policy_statement_inv [OF stmt] from_row_revision [OF p] show ?thesis
    by (auto simp: s' policy_get_def p policy_revision_of_def and_then_def nat_add_distrib)
qed

interpretation policy_occ: occ_register "policy_revision_of w" "policy_write c w"
proof
  fix e a s s'
  assume "policy_write c w e a s = Some s'"
  then obtain p now mode doc actor where "policy_replace c now w e mode doc actor s = Inr (p, s')"
    by (auto simp: policy_write_def split: prod.splits sum.splits)
  from policy_replace_Inr [OF this]
  show "policy_revision_of w s = e \<and> policy_revision_of w s' = Suc e" by simp
qed

text \<open>What the caller of \<open>replace\<close> controls, and the state the table constraints maintain.\<close>

definition replace_ready ::
  "policy_codec \<Rightarrow> instant \<Rightarrow> string \<Rightarrow> workspace_policy_document \<Rightarrow> policy_principal_ref
   \<Rightarrow> policy_tables \<Rightarrow> bool" where
  "replace_ready c now w doc actor s \<longleftrightarrow>
     validate_document (cd_encode c) doc = Inr ()
     \<and> validate_token (pr_id actor) ''policy actor ID'' = Inr ()
     \<and> (case cd_encode c doc of Inl _ \<Rightarrow> False | Inr j \<Rightarrow> cd_decode c (cd_jsonb_text c j) = Inr doc)
     \<and> cd_parse_rfc3339 c (cd_to_rfc3339 c now) = Inr now
     \<and> pt_workspaces s w \<noteq> None
     \<and> (case pt_policies s w of None \<Rightarrow> True
         | Some row \<Rightarrow> 0 < prow_revision row \<and> prow_revision row < i64_max)"

lemma new_row_round_trip:
  assumes "cd_decode c (cd_jsonb_text c j) = Inr doc" "cd_parse_rfc3339 c (cd_to_rfc3339 c now) = Inr now"
    and "doc_schema_version doc \<in> {1, 2}" "0 \<le> r"
  shows "workspace_policy_from_row c ((new_policy_row c now w mode doc j actor)\<lparr>prow_revision := r\<rparr>)
    = Inr \<lparr>wp_workspace_id = w, wp_revision = nat r, wp_mode = mode, wp_document = doc,
           wp_updated_at = now, wp_updated_by = actor\<rparr>"
  using assms by (auto simp: workspace_policy_from_row_def new_policy_row_def map_err_def u32_max_def)

lemma new_row_round_trip1:
  assumes "cd_decode c (cd_jsonb_text c j) = Inr doc" "cd_parse_rfc3339 c (cd_to_rfc3339 c now) = Inr now"
    and "doc_schema_version doc \<in> {1, 2}"
  shows "workspace_policy_from_row c (new_policy_row c now w mode doc j actor)
    = Inr \<lparr>wp_workspace_id = w, wp_revision = 1, wp_mode = mode, wp_document = doc,
           wp_updated_at = now, wp_updated_by = actor\<rparr>"
proof -
  have "(new_policy_row c now w mode doc j actor)\<lparr>prow_revision := 1\<rparr>
      = new_policy_row c now w mode doc j actor" by (simp add: new_policy_row_def)
  with new_row_round_trip [OF assms, of 1 w mode actor] show ?thesis by simp
qed

lemma new_row_checks:
  assumes "pt_workspaces s w \<noteq> None" "0 < r" "r \<le> i64_max" "doc_schema_version doc \<in> {1, 2}"
  shows "policy_row_checks s ((new_policy_row c now w mode doc j actor)\<lparr>prow_revision := r\<rparr>)"
  using assms mode_str_mem [of mode] kind_str_mem [of "pr_kind actor"]
  by (auto simp: policy_row_checks_def new_policy_row_def simp del: mode_str_mem kind_str_mem)

lemma valid_document_schema:
  "validate_document to_vec doc = Inr () \<Longrightarrow> doc_schema_version doc \<in> {1, 2}"
  by (auto simp: validate_document_def split: if_splits)

section \<open>Properties\<close>

text \<open>
  C14: \<open>replace\<close> is a compare-and-swap on the revision.  For a valid document and actor it succeeds
  exactly when the expected revision is the stored one (0 when there is none), returning the new
  document at the next revision; otherwise it fails with \<open>policy_revision_conflict\<close>, and a
  failure leaves every table as it was.
\<close>

theorem replace_compare_and_swap:
  assumes "replace_ready c now w doc actor s" and "int e \<le> i64_max"
  shows "(case policy_replace c now w e mode doc actor s of
            Inl err \<Rightarrow> err = RevisionConflict \<and> policy_revision_of w s \<noteq> e
          | Inr (p, s') \<Rightarrow> policy_revision_of w s = e
              \<and> p = \<lparr>wp_workspace_id = w, wp_revision = Suc e, wp_mode = mode, wp_document = doc,
                     wp_updated_at = now, wp_updated_by = actor\<rparr>
              \<and> policy_get c w s' = Inr (Some p)
              \<and> (\<forall>w'. w' \<noteq> w \<longrightarrow> policy_get c w' s' = policy_get c w' s)
              \<and> pt_notifications s' = pt_notifications s @ [(POLICY_CHANGED_CHANNEL, w, Suc e)])"
proof -
  from assms obtain j where ok: "validate_document (cd_encode c) doc = Inr ()"
    "validate_token (pr_id actor) ''policy actor ID'' = Inr ()" "cd_encode c doc = Inr j"
    "cd_decode c (cd_jsonb_text c j) = Inr doc" "cd_parse_rfc3339 c (cd_to_rfc3339 c now) = Inr now"
    "pt_workspaces s w \<noteq> None"
    and stored: "case pt_policies s w of None \<Rightarrow> True
         | Some row \<Rightarrow> 0 < prow_revision row \<and> prow_revision row < i64_max"
    by (auto simp: replace_ready_def split: sum.splits)
  let ?row = "new_policy_row c now w mode doc j actor"
  note schema = valid_document_schema [OF ok(1)]
  have id: "prow_workspace_id ?row = w" by (simp add: new_policy_row_def)
  have row1: "policy_row_checks s ?row"
    using new_row_checks [OF ok(6), of 1 doc c now mode j actor] schema
    by (simp add: i64_max_def new_policy_row_def)
  have step: "policy_replace c now w e mode doc actor s =
     and_then (replace_row (int e) ?row s) (\<lambda>(out, s').
     and_then (ok_or_else out RevisionConflict) (\<lambda>row'.
     and_then (workspace_policy_from_row c row') (\<lambda>policy.
     Inr (policy, s'\<lparr>pt_notifications :=
        pt_notifications s' @ [(POLICY_CHANGED_CHANNEL, w, wp_revision policy)]\<rparr>))))"
    using ok assms(2) by (simp add: policy_replace_def map_err_def)
  show ?thesis
  proof (cases "policy_revision_of w s = e")
    case False
    then have "policy_replace c now w e mode doc actor s = Inl RevisionConflict"
      using stored id
      by (auto simp: step replace_row_def insert_policy_def update_policy_def policy_revision_of_def ok_or_else_def
          split: option.splits)
    with False show ?thesis by simp
  next
    case True
    have "\<exists>s'. policy_replace c now w e mode doc actor s =
        Inr (\<lparr>wp_workspace_id = w, wp_revision = Suc e, wp_mode = mode, wp_document = doc,
              wp_updated_at = now, wp_updated_by = actor\<rparr>, s')
        \<and> (\<forall>w'. w' \<noteq> w \<longrightarrow> policy_get c w' s' = policy_get c w' s)"
    proof (cases "pt_policies s w")
      case None
      with True have "e = 0" by (simp add: policy_revision_of_def)
      with None show ?thesis
        unfolding step by (simp add: replace_row_def insert_policy_def id row1 ok_or_else_def
            new_row_round_trip1 [OF ok(4,5) schema] policy_get_def)
    next
      case (Some row)
      with True stored have r: "prow_revision row = int e" "0 < e" "int e < i64_max"
        by (auto simp: policy_revision_of_def)
      with Some show ?thesis
        using new_row_checks [OF ok(6), of "int e + 1" doc c now mode j actor] schema
        unfolding step by (simp add: replace_row_def update_policy_def id ok_or_else_def policy_get_def
            new_row_round_trip [OF ok(4,5) schema] nat_add_distrib Let_def)
    qed
    then obtain p s' where "policy_replace c now w e mode doc actor s = Inr (p, s')"
      "p = \<lparr>wp_workspace_id = w, wp_revision = Suc e, wp_mode = mode, wp_document = doc,
              wp_updated_at = now, wp_updated_by = actor\<rparr>"
      "\<forall>w'. w' \<noteq> w \<longrightarrow> policy_get c w' s' = policy_get c w' s" by blast
    with policy_replace_Inr [OF this(1)] True show ?thesis by simp
  qed
qed

definition example_codec :: policy_codec where
  "example_codec = \<lparr>cd_encode = \<lambda>_. Inr ''{}'', cd_jsonb_text = id, cd_decode = \<lambda>_. Inr example_document,
     cd_to_rfc3339 = \<lambda>t. replicate t CHR ''t'', cd_parse_rfc3339 = \<lambda>s. Inr (length s)\<rparr>"

definition example_policy_tables :: policy_tables where
  "example_policy_tables = \<lparr>pt_workspaces = [''ws'' \<mapsto> ''org''], pt_apps = [''app_1'', ''app_2''],
     pt_services = [''svc_1'', ''svc_2''], pt_public_tcp = [], pt_policies = Map.empty,
     pt_providers = Map.empty, pt_notifications = [], pt_audit = []\<rparr>"

definition example_owner :: policy_principal_ref where
  "example_owner = \<lparr>pr_kind = Human, pr_id = ''usr_owner''\<rparr>"

theorem replace_compare_and_swap_witness:
  "(case policy_replace example_codec 7 ''ws'' 0 Enforce example_document example_owner example_policy_tables of
      Inl _ \<Rightarrow> False | Inr (p, s') \<Rightarrow> wp_revision p = 1 \<and> policy_get example_codec ''ws'' s' = Inr (Some p))
   \<and> policy_replace example_codec 7 ''ws'' 3 Enforce example_document example_owner example_policy_tables
     = Inl RevisionConflict"
proof -
  have tok: "validate_token ''usr_owner'' ''policy actor ID'' = Inr ()" by code_simp
  have ready: "replace_ready example_codec 7 ''ws'' example_document example_owner example_policy_tables"
    using example_document_valid tok
    by (simp add: replace_ready_def example_codec_def example_owner_def example_policy_tables_def)
  have rev0: "policy_revision_of ''ws'' example_policy_tables = 0"
    by (simp add: policy_revision_of_def example_policy_tables_def)
  from replace_compare_and_swap [OF ready, of 0 Enforce] replace_compare_and_swap [OF ready, of 3 Enforce]
  show ?thesis by (auto simp: rev0 i64_max_def split: sum.splits prod.splits)
qed

text \<open>
  No update is lost.  In any serialised history of \<open>replace\<close> calls on a workspace by any number
  of writers, the expected revisions of the calls that succeed are exactly the consecutive revisions
  from the initial one to the final one, so each stored revision was read by the writer that
  replaced it and two writers holding the same revision never both succeed.
\<close>

theorem policy_no_lost_update:
  "let (succeeded, s') = occ_run (policy_write c w) history s in
     succeeded = [policy_revision_of w s ..< policy_revision_of w s']"
  using policy_occ.run_successes [of w s c history] by (simp add: case_prod_unfold Let_def)

section \<open>Provider bindings\<close>

inductive provider_step :: "policy_codec \<Rightarrow> policy_tables \<Rightarrow> policy_tables \<Rightarrow> bool" for c where
  step_set: "provider_step c s (snd (provider_set c now w app service fm stale hint actor s))"
| step_clear: "provider_step c s (snd (provider_clear w s))"
| step_authority: "set_publish_authority c now w app authority actor s = Inr (out, s')
    \<Longrightarrow> provider_step c s s'"
| step_advance: "provider_step c s (snd (advance_revision w app revision s))"

definition provider_init :: "policy_tables \<Rightarrow> bool" where
  "provider_init s \<longleftrightarrow> pt_providers s = Map.empty"

definition authority_granted :: "policy_tables \<Rightarrow> provider_row \<Rightarrow> bool" where
  "authority_granted s row \<longleftrightarrow>
     (\<exists>a \<in> set (pt_audit s). aa_workspace_id a = vrow_workspace_id row
        \<and> aa_resource_id a = vrow_app_id row \<and> aa_publish_authority a = ProviderOperator)"

definition provider_row_inv :: "policy_codec \<Rightarrow> policy_tables \<Rightarrow> string \<Rightarrow> provider_row \<Rightarrow> bool" where
  "provider_row_inv c s w row \<longleftrightarrow>
     vrow_workspace_id row = w \<and> vrow_failure_mode row \<in> {''fail_closed'', ''fail_open''}
     \<and> 0 \<le> vrow_max_stale_seconds row \<and> vrow_max_stale_seconds row \<le> 86400
     \<and> 0 \<le> vrow_revision_hint row \<and> (\<exists>t. vrow_updated_at row = cd_to_rfc3339 c t)
     \<and> vrow_publish_authority row \<in> {''owner_session'', ''provider_operator''}
     \<and> (vrow_publish_authority row = ''provider_operator'' \<longrightarrow> authority_granted s row)"

definition provider_inv :: "policy_codec \<Rightarrow> policy_tables \<Rightarrow> bool" where
  "provider_inv c s \<longleftrightarrow> (\<forall>w row. pt_providers s w = Some row \<longrightarrow> provider_row_inv c s w row)"

lemma provider_set_shape:
  assumes "provider_set c now w app service fm stale hint actor s = (r, s')"
  shows "s' = s \<or> (\<exists>row. s' = s\<lparr>pt_providers := (pt_providers s)(w \<mapsto> row)\<rparr>
    \<and> provider_row_checks s row \<and> vrow_workspace_id row = w \<and> vrow_app_id row = app
    \<and> vrow_service_id row = service \<and> vrow_updated_at row = cd_to_rfc3339 c now
    \<and> (case pt_providers s w of
         None \<Rightarrow> vrow_publish_authority row = ''owner_session''
       | Some old \<Rightarrow>
           (vrow_app_id old = app \<longrightarrow> vrow_revision_hint old \<le> vrow_revision_hint row)
           \<and> vrow_publish_authority row =
               (if vrow_app_id old = app \<and> vrow_service_id old = service
                then vrow_publish_authority old else ''owner_session'')))"
  using assms
  by (auto simp: provider_set_def Let_def reset_policy_publish_authority_def
      split: sum.splits if_splits option.splits)

lemma provider_inv_upd:
  assumes "provider_inv c s" and "provider_row_inv c s w row"
  shows "provider_inv c (s\<lparr>pt_providers := (pt_providers s)(w \<mapsto> row)\<rparr>)"
  using assms by (auto simp: provider_inv_def provider_row_inv_def authority_granted_def)

lemma provider_set_inv:
  assumes inv: "provider_inv c s"
  shows "provider_inv c (snd (provider_set c now w app service fm stale hint actor s))"
proof -
  obtain r s' where eq: "provider_set c now w app service fm stale hint actor s = (r, s')" by force
  from provider_set_shape [OF eq] show ?thesis
  proof (elim disjE exE conjE)
    fix row
    assume s': "s' = s\<lparr>pt_providers := (pt_providers s)(w \<mapsto> row)\<rparr>"
      and row: "provider_row_checks s row" "vrow_workspace_id row = w" "vrow_app_id row = app"
        "vrow_updated_at row = cd_to_rfc3339 c now"
      and old: "case pt_providers s w of
         None \<Rightarrow> vrow_publish_authority row = ''owner_session''
       | Some old \<Rightarrow>
           (vrow_app_id old = app \<longrightarrow> vrow_revision_hint old \<le> vrow_revision_hint row)
           \<and> vrow_publish_authority row =
               (if vrow_app_id old = app \<and> vrow_service_id old = service
                then vrow_publish_authority old else ''owner_session'')"
    have "authority_granted s row" if "vrow_publish_authority row = ''provider_operator''"
    proof (cases "pt_providers s w")
      case None
      with old that show ?thesis by simp
    next
      case (Some o')
      then have "provider_row_inv c s w o'" using inv by (simp add: provider_inv_def)
      with Some old that row(2,3) show ?thesis
        by (auto simp: provider_row_inv_def authority_granted_def split: if_splits)
    qed
    with row have "provider_row_inv c s w row" by (auto simp: provider_row_inv_def provider_row_checks_def)
    with inv show ?thesis by (simp add: eq s' provider_inv_upd)
  qed (simp add: eq inv)
qed

lemma set_publish_authority_inv:
  assumes inv: "provider_inv c s" and eq: "set_publish_authority c now w app authority actor s = Inr (out, s')"
  shows "provider_inv c s'"
proof (cases "s' = s")
  case False
  with eq obtain old org where old: "pt_providers s w = Some old" "vrow_app_id old = app"
    and s': "s' = s\<lparr>pt_providers := (pt_providers s)(w \<mapsto>
              old\<lparr>vrow_publish_authority := publish_authority_as_str authority,
                  vrow_updated_at := cd_to_rfc3339 c now, vrow_updated_by := actor\<rparr>),
            pt_audit := pt_audit s @
                  [\<lparr>aa_organization_id = org, aa_workspace_id = w, aa_actor_id = actor,
                    aa_resource_id = app, aa_previous = vrow_publish_authority old,
                    aa_publish_authority = authority\<rparr>]\<rparr>"
    by (auto simp: set_publish_authority_def Let_def res_simps split: option.splits if_splits)
  have "provider_row_inv c s w old" using inv old by (simp add: provider_inv_def)
  with inv old show ?thesis unfolding s'
    by (cases authority) (auto simp: provider_inv_def provider_row_inv_def authority_granted_def)
qed (use inv in simp)

lemma advance_revision_inv:
  assumes "provider_inv c s"
  shows "provider_inv c (snd (advance_revision w app revision s))"
proof -
  have "provider_row_inv c s w (old\<lparr>vrow_revision_hint := max (vrow_revision_hint old) r\<rparr>)"
    if "pt_providers s w = Some old" for old r
    using assms that
    by (auto simp: provider_inv_def provider_row_inv_def authority_granted_def le_max_iff_disj)
  with assms show ?thesis
    by (auto simp: advance_revision_def Let_def intro!: provider_inv_upd split: sum.splits option.splits)
qed

lemma provider_clear_inv: "provider_inv c s \<Longrightarrow> provider_inv c (snd (provider_clear w s))"
  by (auto simp: provider_clear_def provider_inv_def provider_row_inv_def authority_granted_def)

interpretation provider_sys: inv_system provider_init "provider_step c" "provider_inv c"
proof
  fix s t
  assume "provider_inv c s" "provider_step c s t"
  from this(2,1) show "provider_inv c t"
    by (induction rule: provider_step.induct)
      (simp_all add: provider_set_inv set_publish_authority_inv advance_revision_inv provider_clear_inv)
qed (simp add: provider_init_def provider_inv_def)

lemma provider_row_inv_decodes:
  assumes "provider_row_inv c s w row" "\<forall>t. cd_parse_rfc3339 c (cd_to_rfc3339 c t) = Inr t"
  shows "\<exists>p. provider_from_row c row = Inr p \<and> wpp_workspace_id p = w \<and> wpp_max_stale_seconds p \<le> 86400
    \<and> (wpp_publish_authority p = ProviderOperator \<longleftrightarrow> vrow_publish_authority row = ''provider_operator'')
    \<and> wpp_app_id p = vrow_app_id row"
  using assms
  by (auto simp: provider_row_inv_def provider_from_row_def parse_failure_mode_def u64_try_from_def
      parse_publish_authority_def)

text \<open>
  After any sequence of provider operations, reading the binding of a workspace never meets a
  corrupt row, its staleness allowance is at most a day, and the authority \<open>provider_operator\<close> is
  in force only when the audit log holds an owner's grant of it to that very App: rebinding the
  workspace to another App or service, or clearing the binding, never carries a grant over.  The
  hypothesis on \<open>chrono\<close> is that a printed UTC time parses back.
\<close>

theorem provider_authority_is_granted:
  assumes "\<forall>t. cd_parse_rfc3339 c (cd_to_rfc3339 c t) = Inr t"
    and "reach provider_init (provider_step c) s"
  shows "case provider_get c w s of
           Inl _ \<Rightarrow> False
         | Inr None \<Rightarrow> pt_providers s w = None
         | Inr (Some p) \<Rightarrow> wpp_workspace_id p = w \<and> wpp_max_stale_seconds p \<le> 86400
             \<and> (wpp_publish_authority p = ProviderOperator \<longrightarrow>
                 (\<exists>a \<in> set (pt_audit s). aa_workspace_id a = w \<and> aa_resource_id a = wpp_app_id p
                    \<and> aa_publish_authority a = ProviderOperator))"
proof (cases "pt_providers s w")
  case (Some row)
  with provider_sys.reach_inv [OF assms(2)] have inv: "provider_row_inv c s w row"
    by (simp add: provider_inv_def)
  from provider_row_inv_decodes [OF this assms(1)] inv Some show ?thesis
    by (auto simp: provider_get_def map_err_def provider_row_inv_def authority_granted_def)
qed (simp add: provider_get_def)

theorem provider_authority_is_granted_witness:
  "\<exists>s p. provider_get example_codec ''ws'' s = Inr (Some p)
     \<and> wpp_publish_authority p = ProviderOperator \<and> pt_audit s \<noteq> []"
proof -
  let ?s1 = "snd (provider_set example_codec 3 ''ws'' ''app_1'' ''svc_1'' FailClosed 60 0 ''owner'' example_policy_tables)"
  let ?r = "set_publish_authority example_codec 4 ''ws'' ''app_1'' ProviderOperator ''owner'' ?s1"
  have init: "reach provider_init (provider_step example_codec) example_policy_tables"
    by (rule reach_init) (simp add: provider_init_def example_policy_tables_def)
  have ok: "\<not> isl ?r"
    "provider_get example_codec ''ws'' (snd (projr ?r)) =
       Inr (Some \<lparr>wpp_workspace_id = ''ws'', wpp_app_id = ''app_1'', wpp_service_id = ''svc_1'',
         wpp_failure_mode = FailClosed, wpp_max_stale_seconds = 60, wpp_revision_hint = 0,
         wpp_updated_at = 4, wpp_updated_by = ''owner'', wpp_publish_authority = ProviderOperator\<rparr>)"
    by code_simp+
  from ok(1) have "?r = Inr (fst (projr ?r), snd (projr ?r))" by simp
  then have "provider_step example_codec ?s1 (snd (projr ?r))" by (rule step_authority)
  with init have "reach provider_init (provider_step example_codec) (snd (projr ?r))"
    by (meson reach_step step_set)
  from provider_authority_is_granted [OF _ this, of "''ws''"] ok(2) show ?thesis
    by (force simp: example_codec_def)
qed

text \<open>
  While a workspace stays bound to the same App, its revision hint never goes back, whatever
  the operation, so a restarted Proxy cannot be made to accept an older bundle than one already
  announced.
\<close>

theorem provider_hint_monotone:
  assumes "provider_step c s s'" "pt_providers s w = Some old" "pt_providers s' w = Some new"
    and "vrow_app_id new = vrow_app_id old"
  shows "vrow_revision_hint old \<le> vrow_revision_hint new"
  using assms
proof (induction rule: provider_step.induct)
  case (step_set s now w' app service fm stale hint actor)
  obtain r s' where eq: "provider_set c now w' app service fm stale hint actor s = (r, s')" by force
  from provider_set_shape [OF eq] step_set show ?case by (auto simp: eq split: if_splits)
next
  case (step_advance s w' app revision)
  then show ?case
    by (auto simp: advance_revision_def Let_def split: sum.splits option.splits if_splits)
qed (auto simp: provider_clear_def set_publish_authority_def Let_def res_simps
      split: option.splits if_splits)

theorem provider_hint_monotone_witness:
  "let s0 = snd (provider_set example_codec 3 ''ws'' ''app_1'' ''svc_1'' FailClosed 60 9 ''owner'' example_policy_tables);
       s1 = snd (advance_revision ''ws'' ''app_1'' 4 s0)
   in vrow_revision_hint (the (pt_providers s0 ''ws'')) \<le> vrow_revision_hint (the (pt_providers s1 ''ws''))"
proof -
  let ?s0 = "snd (provider_set example_codec 3 ''ws'' ''app_1'' ''svc_1'' FailClosed 60 9 ''owner'' example_policy_tables)"
  let ?s1 = "snd (advance_revision ''ws'' ''app_1'' 4 ?s0)"
  have "provider_step example_codec ?s0 ?s1" by (rule step_advance)
  moreover have "pt_providers ?s0 ''ws'' = Some (the (pt_providers ?s0 ''ws''))"
    "pt_providers ?s1 ''ws'' = Some (the (pt_providers ?s1 ''ws''))"
    "vrow_app_id (the (pt_providers ?s1 ''ws'')) = vrow_app_id (the (pt_providers ?s0 ''ws''))"
    by code_simp+
  ultimately show ?thesis unfolding Let_def by (rule provider_hint_monotone)
qed

end
