(* ===== verification/Policy_Evaluator.thy ===== *)
theory Policy_Evaluator
  imports Policy_Compile Policy_Store
begin

text \<open>
  The two evaluators behind the Policy engine (\<open>policy.rs\<close>): \<open>DurablePolicyEvaluator\<close>, a five
  second cache over the stored document, and \<open>ProviderPolicyEvaluator\<close>, which fetches bundles from
  the bound Policy App, keeps the last good one for a bounded time and fails closed or open as
  configured.  The world is the pair of caches and an environment: clock, database, the App lookup
  and the command channel are functions of the environment, which they may change, so nothing is
  assumed about timing or about what other tasks do meanwhile.  \<open>pe_await\<close> is the wait for the
  fetch lock, during which other tasks may change the caches.
\<close>

section \<open>Operations\<close>

definition POLICY_CACHE_TTL :: duration where
  "POLICY_CACHE_TTL = 5 * 10 ^ 9"

definition as_secs :: "duration \<Rightarrow> nat" where
  "as_secs d = d div 10 ^ 9"

record cached_provider =
  cpp_app_id :: string
  cpp_checked_at :: instant
  cpp_loaded_at :: "instant option"
  cpp_policy :: "compiled_policy option"
  cpp_last_error :: "string option"

record cached_workspace_policy =
  cwp_loaded_at :: instant
  cwp_policy :: "compiled_policy option"

record 'e policy_world =
  pw_provider :: "string \<rightharpoonup> cached_provider"
  pw_durable :: "string \<rightharpoonup> cached_workspace_policy"
  pw_env :: 'e

record app_target =
  at_server_id :: string
  at_port :: nat

record service_fetch =
  sf_policy_schema_version :: "nat option"
  sf_port :: nat
  sf_path :: string
  sf_max_bytes :: nat
  sf_timeout_ms :: nat

record 'e policy_env =
  pe_codec :: policy_codec
  pe_instant :: "'e \<Rightarrow> instant"
  pe_db :: "'e \<Rightarrow> (string + policy_tables) \<times> 'e"
  pe_sqlx_display :: "sqlx_error \<Rightarrow> string"
  pe_resolve_app :: "string \<Rightarrow> string \<Rightarrow> 'e \<Rightarrow> app_target res \<times> 'e"
  pe_send_command :: "string \<Rightarrow> string \<Rightarrow> service_fetch \<Rightarrow> 'e \<Rightarrow> string res \<times> 'e"
  pe_decode_manifest :: "string \<Rightarrow> policy_provider_manifest option"
  pe_decode_bundle :: "string \<Rightarrow> policy_provider_bundle option"
  pe_form_urlencode :: "(string \<times> string) list \<Rightarrow> string"
  pe_await :: "string \<Rightarrow> 'e policy_world \<Rightarrow> 'e policy_world"

definition POLICY_PROVIDER_PROTOCOL_V1 :: string where
  "POLICY_PROVIDER_PROTOCOL_V1 = ''treer.policy-provider/v1''"

definition POLICY_PROVIDER_BUNDLE_MAX_BYTES :: nat where
  "POLICY_PROVIDER_BUNDLE_MAX_BYTES = 300 * 1024"

definition POLICY_PROVIDER_FETCH_TIMEOUT_MS :: nat where
  "POLICY_PROVIDER_FETCH_TIMEOUT_MS = 3000"

definition BUNDLE_CAPABILITY_V1 :: string where
  "BUNDLE_CAPABILITY_V1 = ''policy.bundle.v1''"

definition BUNDLE_CAPABILITY_V2 :: string where
  "BUNDLE_CAPABILITY_V2 = ''policy.bundle.v2''"

definition eff_bind ::
  "('e + 'a) \<times> 's \<Rightarrow> ('a \<Rightarrow> 's \<Rightarrow> ('e + 'b) \<times> 's) \<Rightarrow> ('e + 'b) \<times> 's" where
  "eff_bind m f = (case m of (Inl e, s) \<Rightarrow> (Inl e, s) | (Inr x, s) \<Rightarrow> f x s)"

subsection \<open>The Policy App\<close>

definition check_bundle ::
  "'e policy_env \<Rightarrow> string \<Rightarrow> bool \<Rightarrow> string \<Rightarrow> policy_provider_bundle res" where
  "check_bundle env w supports_v2 v =
     and_then (ok_or_else (pe_decode_bundle env v)
       (protocol_error_new ''invalid_policy_contract'' ''invalid Policy Provider bundle fields or types'')) (\<lambda>bundle.
     if pb_protocol bundle \<noteq> POLICY_PROVIDER_PROTOCOL_V1 then
       Inl (protocol_error_new ''unsupported_policy_provider_protocol''
         (''Policy App uses unsupported protocol '' @ pb_protocol bundle))
     else if pb_workspace_id bundle \<noteq> w then
       Inl (protocol_error_new ''policy_provider_workspace_mismatch''
         ''Policy App returned a bundle for another workspace'')
     else
       and_then (map_err (\<lambda>e. protocol_error_new ''invalid_policy_contract'' (policy_store_error_code e))
         (validate_document (cd_encode (pe_codec env)) (pb_document bundle))) (\<lambda>_.
       if doc_schema_version (pb_document bundle) = 2 \<and> \<not> supports_v2 then
         Inl (protocol_error_new ''unsupported_policy_provider''
           ''schema v2 requires policy.bundle.v2 capability'')
       else Inr bundle))"

definition fetch_bundle ::
  "'e policy_env \<Rightarrow> string \<Rightarrow> string \<Rightarrow> 'e \<Rightarrow> policy_provider_bundle res \<times> 'e" where
  "fetch_bundle env app_id w e =
     eff_bind (pe_resolve_app env w app_id e) (\<lambda>app e.
     eff_bind (pe_send_command env w (at_server_id app)
        \<lparr>sf_policy_schema_version = None, sf_port = at_port app, sf_path = ''/v1/manifest'',
         sf_max_bytes = 32 * 1024, sf_timeout_ms = POLICY_PROVIDER_FETCH_TIMEOUT_MS\<rparr> e) (\<lambda>manifest_value e.
     case pe_decode_manifest env manifest_value of
       None \<Rightarrow> (Inl (protocol_error_new ''unsupported_policy_provider''
                 ''invalid Policy Provider manifest''), e)
     | Some manifest \<Rightarrow>
         let supports_v2 = (BUNDLE_CAPABILITY_V2 \<in> set (pm_capabilities manifest)) in
         if pm_protocol manifest \<noteq> POLICY_PROVIDER_PROTOCOL_V1
            \<or> \<not> supports_v2 \<and> BUNDLE_CAPABILITY_V1 \<notin> set (pm_capabilities manifest) then
           (Inl (protocol_error_new ''unsupported_policy_provider''
              ''unsupported Policy Provider capabilities''), e)
         else
           let query = pe_form_urlencode env [(''workspace_id'', w), (''max_schema_version'', ''2'')] in
           eff_bind (pe_send_command env w (at_server_id app)
             \<lparr>sf_policy_schema_version = (if supports_v2 then Some 2 else None), sf_port = at_port app,
              sf_path = ''/v1/policy/bundle?'' @ query, sf_max_bytes = POLICY_PROVIDER_BUNDLE_MAX_BYTES,
              sf_timeout_ms = POLICY_PROVIDER_FETCH_TIMEOUT_MS\<rparr> e) (\<lambda>v e.
           (check_bundle env w supports_v2 v, e))))"

definition provider_contract_error :: "protocol_error \<Rightarrow> bool" where
  "provider_contract_error error \<longleftrightarrow>
     pe_code error \<in> {''unsupported_command'', ''unsupported_policy_provider_protocol'',
       ''unsupported_policy_schema'', ''unsupported_policy_provider'', ''invalid_policy_contract'',
       ''policy_provider_workspace_mismatch'', ''invalid_service_json'',
       ''service_http_response_too_large''}"

definition cached_provider_result :: "cached_provider \<Rightarrow> compiled_policy option res" where
  "cached_provider_result cached =
     (if cpp_app_id cached = [] \<or> cpp_policy cached \<noteq> None then Inr (cpp_policy cached)
      else Inl (protocol_error_new ''policy_provider_unavailable''
        (case cpp_last_error cached of Some m \<Rightarrow> m | None \<Rightarrow> ''Policy App is unavailable'')))"

definition put_provider ::
  "string \<Rightarrow> cached_provider \<Rightarrow> 'e policy_world \<Rightarrow> 'e policy_world" where
  "put_provider w c s = s\<lparr>pw_provider := (pw_provider s)(w \<mapsto> c)\<rparr>"

definition invalidate_provider :: "string \<Rightarrow> 'e policy_world \<Rightarrow> 'e policy_world" where
  "invalidate_provider w s = s\<lparr>pw_provider := (pw_provider s)(w := None)\<rparr>"

definition stale_policy ::
  "instant \<Rightarrow> workspace_policy_provider \<Rightarrow> cached_provider option \<Rightarrow> cached_provider option" where
  "stale_policy now provider previous =
     Option.bind previous (\<lambda>cached.
       if cpp_app_id cached = wpp_app_id provider
          \<and> is_some_and (cpp_loaded_at cached)
              (\<lambda>loaded. as_secs (now - loaded) \<le> wpp_max_stale_seconds provider)
       then Some cached else None)"

definition provider_failure ::
  "'e policy_env \<Rightarrow> string \<Rightarrow> workspace_policy_provider \<Rightarrow> cached_provider option \<Rightarrow> string
   \<Rightarrow> 'e policy_world \<Rightarrow> compiled_policy option res \<times> 'e policy_world" where
  "provider_failure env w provider previous error s =
     (let now = pe_instant env (pw_env s) in
      case stale_policy now provider previous of
        Some cached \<Rightarrow>
          (Inr (cpp_policy cached),
           put_provider w (cached\<lparr>cpp_checked_at := now, cpp_last_error := Some error\<rparr>) s)
      | None \<Rightarrow>
          if wpp_failure_mode provider = FailOpen then
            (let policy = allow_policy (wpp_revision_hint provider) in
             (Inr (Some policy),
              put_provider w \<lparr>cpp_app_id = wpp_app_id provider, cpp_checked_at = now,
                cpp_loaded_at = None, cpp_policy = Some policy, cpp_last_error = Some error\<rparr> s))
          else
            (Inl (protocol_error_new ''policy_provider_unavailable'' error),
             put_provider w \<lparr>cpp_app_id = wpp_app_id provider, cpp_checked_at = now,
                cpp_loaded_at = None, cpp_policy = None, cpp_last_error = Some error\<rparr> s))"

definition bundle_policy ::
  "string \<Rightarrow> string \<Rightarrow> policy_provider_bundle \<Rightarrow> workspace_policy" where
  "bundle_policy w service_id bundle =
     \<lparr>wp_workspace_id = w, wp_revision = pb_revision bundle, wp_mode = pb_mode bundle,
      wp_document = pb_document bundle, wp_updated_at = pb_generated_at bundle,
      wp_updated_by = \<lparr>pr_kind = Service, pr_id = service_id\<rparr>\<rparr>"

text \<open>The part of \<open>compiled\<close> after both cache checks, for a workspace with a bound provider.\<close>

definition provider_refresh ::
  "'e policy_env \<Rightarrow> string \<Rightarrow> workspace_policy_provider \<Rightarrow> 'e policy_world
   \<Rightarrow> compiled_policy option res \<times> 'e policy_world" where
  "provider_refresh env w provider s =
     (let previous = pw_provider s w;
          s1 = invalidate_provider w s in
      case fetch_bundle env (wpp_app_id provider) w (pw_env s1) of
        (Inr bundle, e) \<Rightarrow>
          let s2 = s1\<lparr>pw_env := e\<rparr>; now = pe_instant env e in
          if wpp_revision_hint provider \<le> pb_revision bundle then
            (let policy = compile_policy (bundle_policy w (wpp_service_id provider) bundle) in
             (Inr (Some policy),
              put_provider w \<lparr>cpp_app_id = wpp_app_id provider, cpp_checked_at = now,
                cpp_loaded_at = Some now, cpp_policy = Some policy, cpp_last_error = None\<rparr> s2))
          else
            provider_failure env w provider previous
              (''Policy App returned revision '' @ dec_string (pb_revision bundle)
               @ '' below announced revision '' @ dec_string (wpp_revision_hint provider)) s2
      | (Inl error, e) \<Rightarrow>
          let s2 = s1\<lparr>pw_env := e\<rparr> in
          if provider_contract_error error then (Inl error, s2)
          else provider_failure env w provider previous (pe_message error) s2)"

definition fresh_provider ::
  "'e policy_env \<Rightarrow> string \<Rightarrow> 'e policy_world \<Rightarrow> cached_provider option" where
  "fresh_provider env w s =
     Option.bind (pw_provider s w) (\<lambda>cached.
       if pe_instant env (pw_env s) - cpp_checked_at cached < POLICY_CACHE_TTL then Some cached else None)"

definition provider_compiled ::
  "'e policy_env \<Rightarrow> string \<Rightarrow> 'e policy_world \<Rightarrow> compiled_policy option res \<times> 'e policy_world" where
  "provider_compiled env w s =
     (case fresh_provider env w s of
        Some cached \<Rightarrow> (cached_provider_result cached, s)
      | None \<Rightarrow>
          let s1 = pe_await env w s in
          (case fresh_provider env w s1 of
             Some cached \<Rightarrow> (cached_provider_result cached, s1)
           | None \<Rightarrow>
               (case pe_db env (pw_env s1) of (db, e) \<Rightarrow>
                  let s2 = s1\<lparr>pw_env := e\<rparr> in
                  (case and_then db (\<lambda>tables.
                          map_err (pe_sqlx_display env) (provider_get (pe_codec env) w tables)) of
                     Inl m \<Rightarrow> (Inl (protocol_error_new ''policy_provider_store_failed'' m), s2)
                   | Inr None \<Rightarrow>
                       (Inr None, put_provider w \<lparr>cpp_app_id = [], cpp_checked_at = pe_instant env e,
                          cpp_loaded_at = None, cpp_policy = None, cpp_last_error = None\<rparr> s2)
                   | Inr (Some provider) \<Rightarrow> provider_refresh env w provider s2))))"

record provider_cache_status =
  pcs_revision :: "nat option"
  pcs_age_seconds :: "nat option"
  pcs_last_error :: "string option"

definition cache_status :: "'e policy_env \<Rightarrow> string \<Rightarrow> 'e policy_world \<Rightarrow> provider_cache_status" where
  "cache_status env w s =
     (case pw_provider s w of
        None \<Rightarrow> \<lparr>pcs_revision = None, pcs_age_seconds = None, pcs_last_error = None\<rparr>
      | Some cached \<Rightarrow>
          \<lparr>pcs_revision = map_option cp_revision (cpp_policy cached),
           pcs_age_seconds = map_option (\<lambda>l. as_secs (pe_instant env (pw_env s) - l)) (cpp_loaded_at cached),
           pcs_last_error = cpp_last_error cached\<rparr>)"

subsection \<open>The stored document\<close>

definition policy_store_error_display :: "string \<Rightarrow> policy_store_error \<Rightarrow> string" where
  "policy_store_error_display db e =
     (case e of
        Invalid c m \<Rightarrow> c @ '': '' @ m
      | RevisionConflict \<Rightarrow> ''policy_revision_conflict: workspace policy changed; reload it and retry''
      | Database \<Rightarrow> ''policy database operation failed: '' @ db
      | Corrupt m \<Rightarrow> ''stored policy is invalid: '' @ m)"

definition durable_compiled ::
  "'e policy_env \<Rightarrow> string \<Rightarrow> 'e policy_world \<Rightarrow> compiled_policy option res \<times> 'e policy_world" where
  "durable_compiled env w s =
     (case Option.bind (pw_durable s w) (\<lambda>cached.
         if pe_instant env (pw_env s) - cwp_loaded_at cached < POLICY_CACHE_TTL then Some cached else None) of
        Some cached \<Rightarrow> (Inr (cwp_policy cached), s)
      | None \<Rightarrow>
         (case pe_db env (pw_env s) of (db, e) \<Rightarrow>
            let s1 = s\<lparr>pw_env := e\<rparr> in
            (case (case db of Inl m \<Rightarrow> Inl (m, Database)
                   | Inr tables \<Rightarrow> map_err (Pair []) (policy_get (pe_codec env) w tables)) of
               Inl (m, err) \<Rightarrow>
                 (Inl (protocol_error_new (policy_store_error_code err) (policy_store_error_display m err)), s1)
             | Inr stored \<Rightarrow>
                 let policy = map_option compile_policy stored in
                 (Inr policy,
                  s1\<lparr>pw_durable := (pw_durable s1)(w \<mapsto>
                     \<lparr>cwp_loaded_at = pe_instant env e, cwp_policy = policy\<rparr>)\<rparr>))))"

subsection \<open>The evaluator interface\<close>

record policy_batch_evaluation =
  be_explanations :: "policy_explanation list"
  be_evaluations :: "policy_evaluation list"
  be_revision :: "nat option"

record 's policy_evaluator =
  ev_explain :: "policy_request \<Rightarrow> 's \<Rightarrow> policy_explanation option res \<times> 's"
  ev_evaluate :: "policy_request \<Rightarrow> 's \<Rightarrow> policy_evaluation res \<times> 's"
  ev_revision :: "string \<Rightarrow> 's \<Rightarrow> policy_revision \<times> 's"
  ev_evaluate_batch :: "policy_request list \<Rightarrow> 's \<Rightarrow> policy_batch_evaluation res \<times> 's"

text \<open>The default methods of the trait.\<close>

definition default_explain :: "policy_request \<Rightarrow> 's \<Rightarrow> policy_explanation option res \<times> 's" where
  "default_explain request s = (Inr None, s)"

definition default_revision :: "string \<Rightarrow> 's \<Rightarrow> policy_revision \<times> 's" where
  "default_revision w s = (Unrevisioned, s)"

fun default_evaluate_all ::
  "(policy_request \<Rightarrow> 's \<Rightarrow> policy_evaluation res \<times> 's) \<Rightarrow> policy_request list \<Rightarrow> 's
   \<Rightarrow> policy_evaluation list res \<times> 's" where
  "default_evaluate_all evaluate [] s = (Inr [], s)"
| "default_evaluate_all evaluate (r # rs) s =
     eff_bind (evaluate r s) (\<lambda>x s. eff_bind (default_evaluate_all evaluate rs s) (\<lambda>xs s. (Inr (x # xs), s)))"

definition default_evaluate_batch ::
  "(policy_request \<Rightarrow> 's \<Rightarrow> policy_evaluation res \<times> 's) \<Rightarrow> policy_request list \<Rightarrow> 's
   \<Rightarrow> policy_batch_evaluation res \<times> 's" where
  "default_evaluate_batch evaluate requests s =
     eff_bind (default_evaluate_all evaluate requests s) (\<lambda>xs s.
       (Inr \<lparr>be_explanations = [], be_evaluations = xs, be_revision = None\<rparr>, s))"

text \<open>
  \<open>revision\<close>, \<open>evaluate\<close> and \<open>evaluate_batch\<close> of both evaluators are the same code over their
  \<open>compiled\<close>; they differ in \<open>explain\<close>.
\<close>

type_synonym 's policy_source = "string \<Rightarrow> 's \<Rightarrow> compiled_policy option res \<times> 's"

definition source_revision :: "'s policy_source \<Rightarrow> string \<Rightarrow> 's \<Rightarrow> policy_revision \<times> 's" where
  "source_revision compiled w s =
     (case compiled w s of
        (Inr (Some policy), s) \<Rightarrow> (Known (cp_revision policy), s)
      | (Inr None, s) \<Rightarrow> (Unrevisioned, s)
      | (Inl _, s) \<Rightarrow> (Unavailable, s))"

definition source_evaluate :: "'s policy_source \<Rightarrow> policy_request \<Rightarrow> 's \<Rightarrow> policy_evaluation res \<times> 's" where
  "source_evaluate compiled request s =
     eff_bind (compiled (req_workspace_id request) s) (\<lambda>policy s.
       (Inr (case policy of None \<Rightarrow> Abstain | Some p \<Rightarrow> Decide (evaluate_policy p request)), s))"

definition source_evaluate_batch ::
  "'s policy_source \<Rightarrow> policy_request list \<Rightarrow> 's \<Rightarrow> policy_batch_evaluation res \<times> 's" where
  "source_evaluate_batch compiled requests s =
     (case requests of
        [] \<Rightarrow> (Inr \<lparr>be_explanations = [], be_evaluations = [], be_revision = None\<rparr>, s)
      | first # _ \<Rightarrow>
          if list_ex (\<lambda>r. req_workspace_id r \<noteq> req_workspace_id first) requests then
            (Inl (protocol_error_new ''policy_batch_workspace_mismatch''
               ''a policy batch must belong to one workspace''), s)
          else
            eff_bind (compiled (req_workspace_id first) s) (\<lambda>policy s.
              (Inr (case policy of
                 None \<Rightarrow> \<lparr>be_explanations = [], be_evaluations = replicate (length requests) Abstain,
                          be_revision = None\<rparr>
               | Some p \<Rightarrow> \<lparr>be_explanations = map (explain_policy p) requests,
                   be_evaluations = map (\<lambda>r. Decide (evaluate_policy p r)) requests,
                   be_revision = Some (cp_revision p)\<rparr>), s)))"

definition durable_explain ::
  "'e policy_env \<Rightarrow> policy_request \<Rightarrow> 'e policy_world \<Rightarrow> policy_explanation option res \<times> 'e policy_world" where
  "durable_explain env request s =
     eff_bind (durable_compiled env (req_workspace_id request) s) (\<lambda>policy s.
       (Inr (map_option (\<lambda>p. explain_policy p request) policy), s))"

definition provider_explain ::
  "'e policy_env \<Rightarrow> policy_request \<Rightarrow> 'e policy_world \<Rightarrow> policy_explanation option res \<times> 'e policy_world" where
  "provider_explain env request s =
     eff_bind (provider_compiled env (req_workspace_id request) s) (\<lambda>policy s.
       (Inr (case policy of
          None \<Rightarrow> None
        | Some p \<Rightarrow>
            let source = (case pw_provider s (req_workspace_id request) of
                None \<Rightarrow> ''provider''
              | Some cached \<Rightarrow>
                  if cpp_last_error cached \<noteq> None then
                    (if cpp_loaded_at cached \<noteq> None then ''provider_stale'' else ''provider_fail_open'')
                  else ''provider'')
            in Some ((explain_policy p request)\<lparr>ex_source := source\<rparr>)), s))"

definition durable_evaluator :: "'e policy_env \<Rightarrow> 'e policy_world policy_evaluator" where
  "durable_evaluator env =
     \<lparr>ev_explain = durable_explain env,
      ev_evaluate = source_evaluate (durable_compiled env),
      ev_revision = source_revision (durable_compiled env),
      ev_evaluate_batch = source_evaluate_batch (durable_compiled env)\<rparr>"

definition provider_evaluator :: "'e policy_env \<Rightarrow> 'e policy_world policy_evaluator" where
  "provider_evaluator env =
     \<lparr>ev_explain = provider_explain env,
      ev_evaluate = source_evaluate (provider_compiled env),
      ev_revision = source_revision (provider_compiled env),
      ev_evaluate_batch = source_evaluate_batch (provider_compiled env)\<rparr>"

section \<open>The cache invariant of the provider evaluator\<close>

definition MAX_STALE_SECONDS :: nat where
  "MAX_STALE_SECONDS = 86400"

text \<open>A bundle the evaluator may enforce for a workspace.\<close>

definition bundle_ok :: "'e policy_env \<Rightarrow> string \<Rightarrow> policy_provider_bundle \<Rightarrow> bool" where
  "bundle_ok env w b \<longleftrightarrow> pb_protocol b = POLICY_PROVIDER_PROTOCOL_V1 \<and> pb_workspace_id b = w
     \<and> validate_document (cd_encode (pe_codec env)) (pb_document b) = Inr ()"

definition from_bundle :: "'e policy_env \<Rightarrow> string \<Rightarrow> compiled_policy \<Rightarrow> bool" where
  "from_bundle env w p \<longleftrightarrow>
     (\<exists>service b. bundle_ok env w b \<and> p = compile_policy (bundle_policy w service b))"

definition entry_ok :: "'e policy_env \<Rightarrow> string \<Rightarrow> cached_provider \<Rightarrow> bool" where
  "entry_ok env w c \<longleftrightarrow>
     (case cpp_loaded_at c of
        Some t \<Rightarrow> cpp_app_id c \<noteq> []
          \<and> is_some_and (cpp_policy c) (from_bundle env w)
          \<and> as_secs (cpp_checked_at c - t) \<le> MAX_STALE_SECONDS
      | None \<Rightarrow>
          (case cpp_policy c of
             None \<Rightarrow> (cpp_app_id c = [] \<longleftrightarrow> cpp_last_error c = None)
           | Some p \<Rightarrow> cpp_app_id c \<noteq> [] \<and> cpp_last_error c \<noteq> None \<and> (\<exists>hint. p = allow_policy hint)))"

definition world_ok :: "'e policy_env \<Rightarrow> 'e policy_world \<Rightarrow> bool" where
  "world_ok env s \<longleftrightarrow> (\<forall>w c. pw_provider s w = Some c \<longrightarrow> entry_ok env w c)"

text \<open>
  What the evaluator relies on: bindings it reads satisfy the invariant of the provider table and
  name an App, timestamps parse back, and tasks that run while it waits for the lock keep the
  invariant (they run these same operations).
\<close>

definition env_ok :: "'e policy_env \<Rightarrow> bool" where
  "env_ok env \<longleftrightarrow>
     (\<forall>e tables e' w p. pe_db env e = (Inr tables, e') \<longrightarrow>
        provider_get (pe_codec env) w tables = Inr (Some p) \<longrightarrow>
        wpp_app_id p \<noteq> [] \<and> wpp_max_stale_seconds p \<le> MAX_STALE_SECONDS)
     \<and> (\<forall>w s. world_ok env s \<longrightarrow> world_ok env (pe_await env w s))"

lemma world_ok_put: "world_ok env s \<Longrightarrow> entry_ok env w c \<Longrightarrow> world_ok env (put_provider w c s)"
  by (simp add: world_ok_def put_provider_def)

lemma world_ok_env [simp]: "world_ok env (s\<lparr>pw_env := e\<rparr>) = world_ok env s"
  by (simp add: world_ok_def)

lemma world_ok_invalidate: "world_ok env s \<Longrightarrow> world_ok env (invalidate_provider w s)"
  by (simp add: world_ok_def invalidate_provider_def)

lemma check_bundle_ok: "check_bundle env w v2 v = Inr b \<Longrightarrow> bundle_ok env w b"
  by (auto simp: check_bundle_def bundle_ok_def res_simps split: if_splits)

lemma eff_bind_Inr: "eff_bind m f = (Inr y, s') \<longleftrightarrow> (\<exists>x s. m = (Inr x, s) \<and> f x s = (Inr y, s'))"
  by (auto simp: eff_bind_def split: prod.splits sum.splits)

lemma fetch_bundle_ok: "fetch_bundle env app w e = (Inr b, e') \<Longrightarrow> bundle_ok env w b"
  by (auto simp: fetch_bundle_def eff_bind_Inr Let_def split: option.splits if_splits
      intro: check_bundle_ok)

text \<open>A provider that was read from a table satisfying \<^const>\<open>env_ok\<close>.\<close>

definition binding_ok :: "workspace_policy_provider \<Rightarrow> bool" where
  "binding_ok p \<longleftrightarrow> wpp_app_id p \<noteq> [] \<and> wpp_max_stale_seconds p \<le> MAX_STALE_SECONDS"

text \<open>
  The result of a lookup together with the cache it leaves: a policy is the one in the cache entry,
  which was checked within the TTL, and an abstention is the entry of a workspace without provider.
\<close>

definition served ::
  "'e policy_env \<Rightarrow> string \<Rightarrow> compiled_policy option res \<Rightarrow> 'e policy_world \<Rightarrow> bool" where
  "served env w r s \<longleftrightarrow>
     (\<forall>p. r = Inr p \<longrightarrow> (\<exists>c. pw_provider s w = Some c \<and> entry_ok env w c \<and> cpp_policy c = p
        \<and> (p = None \<longrightarrow> cpp_app_id c = [])
        \<and> pe_instant env (pw_env s) - cpp_checked_at c < POLICY_CACHE_TTL))"

lemma ttl_pos [simp]: "0 < POLICY_CACHE_TTL"
  by (simp add: POLICY_CACHE_TTL_def)

lemma served_Inl [simp]: "served env w (Inl e) s"
  by (simp add: served_def)

lemma served_put:
  assumes "entry_ok env w c" "cpp_checked_at c = pe_instant env (pw_env s)" "cpp_policy c = p"
    and "p = None \<longrightarrow> cpp_app_id c = []"
  shows "served env w (Inr p) (put_provider w c s)"
  using assms by (auto simp: served_def put_provider_def)

lemma stale_entry_ok:
  assumes "stale_policy now provider previous = Some c" "binding_ok provider"
    and "\<forall>c. previous = Some c \<longrightarrow> entry_ok env w c"
  shows "entry_ok env w (c\<lparr>cpp_checked_at := now, cpp_last_error := Some error\<rparr>)
    \<and> (\<exists>p. cpp_policy c = Some p \<and> from_bundle env w p)"
  using assms
  by (auto simp: stale_policy_def bind_eq_Some_conv entry_ok_def binding_ok_def is_some_and_def from_bundle_def
      split: if_splits option.splits)

lemma provider_failure_ok:
  assumes "provider_failure env w provider previous error s = (r, s')"
    and "world_ok env s" "binding_ok provider" "\<forall>c. previous = Some c \<longrightarrow> entry_ok env w c"
  shows "world_ok env s' \<and> served env w r s' \<and> r \<noteq> Inr None
    \<and> (wpp_failure_mode provider = FailClosed \<longrightarrow> (\<forall>p. r = Inr (Some p) \<longrightarrow> from_bundle env w p))"
proof (cases "stale_policy (pe_instant env (pw_env s)) provider previous")
  case (Some c)
  note c = stale_entry_ok [OF Some assms(3,4), of error]
  have "served env w r s'"
    using c Some assms(1) by (auto simp: provider_failure_def Let_def intro!: served_put)
  with c Some assms(1,2) show ?thesis
    by (auto simp: provider_failure_def Let_def intro!: world_ok_put)
next
  case None
  have "entry_ok env w \<lparr>cpp_app_id = wpp_app_id provider, cpp_checked_at = t, cpp_loaded_at = None,
          cpp_policy = Some (allow_policy h), cpp_last_error = Some error\<rparr>"
    "entry_ok env w \<lparr>cpp_app_id = wpp_app_id provider, cpp_checked_at = t, cpp_loaded_at = None,
          cpp_policy = None, cpp_last_error = Some error\<rparr>" for t h
    using assms(3) by (auto simp: entry_ok_def binding_ok_def)
  with None assms(1,2) show ?thesis
    by (auto simp: provider_failure_def Let_def intro!: world_ok_put served_put split: if_splits)
qed

lemma provider_refresh_ok:
  assumes "provider_refresh env w provider s = (r, s')" "world_ok env s" "binding_ok provider"
  shows "world_ok env s' \<and> served env w r s' \<and> r \<noteq> Inr None
    \<and> (wpp_failure_mode provider = FailClosed \<longrightarrow> (\<forall>p. r = Inr (Some p) \<longrightarrow> from_bundle env w p))"
proof -
  let ?s1 = "invalidate_provider w s"
  have prev: "\<forall>c. pw_provider s w = Some c \<longrightarrow> entry_ok env w c" using assms(2) by (simp add: world_ok_def)
  have s1: "world_ok env (?s1\<lparr>pw_env := e\<rparr>)" for e using assms(2) by (simp add: world_ok_invalidate)
  obtain f e where f: "fetch_bundle env (wpp_app_id provider) w (pw_env ?s1) = (f, e)" by force
  show ?thesis
  proof (cases f)
    case (Inl err)
    then show ?thesis
      using assms(1) f s1 provider_failure_ok [OF _ s1 assms(3) prev]
      by (auto simp: provider_refresh_def Let_def split: if_splits)
  next
    case (Inr b)
    with f have b: "bundle_ok env w b" by (simp add: fetch_bundle_ok)
    let ?p = "compile_policy (bundle_policy w (wpp_service_id provider) b)"
    have p: "from_bundle env w ?p" using b by (auto simp: from_bundle_def)
    then have "entry_ok env w \<lparr>cpp_app_id = wpp_app_id provider, cpp_checked_at = t,
        cpp_loaded_at = Some t, cpp_policy = Some ?p, cpp_last_error = None\<rparr>" for t
      using assms(3) by (simp add: entry_ok_def binding_ok_def as_secs_def is_some_and_def)
    with p show ?thesis
      using assms(1) f Inr s1 provider_failure_ok [OF _ s1 assms(3) prev]
      by (auto simp: provider_refresh_def Let_def intro!: world_ok_put served_put split: if_splits)
  qed
qed

lemma fresh_served:
  assumes "fresh_provider env w s = Some c" "world_ok env s"
  shows "served env w (cached_provider_result c) s"
proof -
  from assms(1) have "pw_provider s w = Some c" "pe_instant env (pw_env s) - cpp_checked_at c < POLICY_CACHE_TTL"
    by (auto simp: fresh_provider_def bind_eq_Some_conv split: if_splits)
  moreover from this assms(2) have "entry_ok env w c" by (simp add: world_ok_def)
  ultimately show ?thesis
    by (auto simp: served_def cached_provider_result_def entry_ok_def split: if_splits option.splits)
qed

lemma provider_compiled_ok:
  assumes "provider_compiled env w s = (r, s')" "world_ok env s" "env_ok env"
  shows "world_ok env s' \<and> served env w r s'"
proof (cases "fresh_provider env w s")
  case (Some c)
  with assms fresh_served [OF Some] show ?thesis by (simp add: provider_compiled_def)
next
  case miss: None
  let ?s1 = "pe_await env w s"
  have s1: "world_ok env ?s1" using assms(2,3) by (simp add: env_ok_def)
  obtain db e where db: "pe_db env (pw_env ?s1) = (db, e)" by force
  show ?thesis
  proof (cases "fresh_provider env w ?s1")
    case (Some c)
    with assms(1) miss s1 fresh_served [OF Some s1] show ?thesis by (simp add: provider_compiled_def)
  next
    case None
    let ?look = "and_then db (\<lambda>tables. map_err (pe_sqlx_display env) (provider_get (pe_codec env) w tables))"
    have absent: "entry_ok env w \<lparr>cpp_app_id = [], cpp_checked_at = t, cpp_loaded_at = None,
        cpp_policy = None, cpp_last_error = None\<rparr>" for t
      by (simp add: entry_ok_def)
    have bound: "binding_ok p" if "?look = Inr (Some p)" for p
    proof -
      from that obtain tables where "db = Inr tables" "provider_get (pe_codec env) w tables = Inr (Some p)"
        by (auto simp: res_simps)
      with db assms(3) show ?thesis unfolding env_ok_def binding_ok_def by blast
    qed
    consider (fail) m where "?look = Inl m" | (unbound) "?look = Inr None" | (some) p where "?look = Inr (Some p)"
      by (metis not_Some_eq sum.exhaust)
    then show ?thesis
    proof cases
      case some
      with assms(1) miss None db have "provider_refresh env w p (?s1\<lparr>pw_env := e\<rparr>) = (r, s')"
        by (simp add: provider_compiled_def Let_def)
      from provider_refresh_ok [OF this] s1 bound [OF some] show ?thesis by simp
    qed (use assms(1) miss None db s1 absent in
          \<open>auto simp: provider_compiled_def Let_def intro!: world_ok_put served_put\<close>)
  qed
qed

lemma durable_keeps_provider: "pw_provider (snd (durable_compiled env w s)) = pw_provider s"
  by (auto simp: durable_compiled_def Let_def split: option.splits prod.splits sum.splits)

text \<open>What a Proxy does to the caches over time, with the environment moving in between.\<close>

inductive world_step :: "'e policy_env \<Rightarrow> 'e policy_world \<Rightarrow> 'e policy_world \<Rightarrow> bool" for env where
  step_provider: "world_step env s (snd (provider_compiled env w s))"
| step_durable: "world_step env s (snd (durable_compiled env w s))"
| step_invalidate: "world_step env s (invalidate_provider w s)"
| step_env: "world_step env s (s\<lparr>pw_env := e\<rparr>)"

definition world_init :: "'e policy_world \<Rightarrow> bool" where
  "world_init s \<longleftrightarrow> pw_provider s = Map.empty \<and> pw_durable s = Map.empty"

interpretation world_sys: inv_system world_init "world_step env" "\<lambda>s. env_ok env \<longrightarrow> world_ok env s"
proof
  fix s t
  assume inv: "env_ok env \<longrightarrow> world_ok env s" and step: "world_step env s t"
  show "env_ok env \<longrightarrow> world_ok env t"
  proof
    assume env: "env_ok env"
    with inv have s: "world_ok env s" by simp
    from step show "world_ok env t"
    proof cases
      case (step_provider w)
      then show ?thesis using provider_compiled_ok [OF _ s env] by (metis prod.collapse)
    next
      case (step_durable w)
      then show ?thesis using s durable_keeps_provider [of env w s] by (simp add: world_ok_def)
    qed (use s in \<open>simp_all add: world_ok_invalidate\<close>)
  qed
qed (simp add: world_init_def world_ok_def)

section \<open>Properties\<close>

text \<open>
  Where an enforced provider policy comes from.  In any run of the evaluators, a policy the
  provider evaluator applies to a workspace is either compiled from a validated bundle that the
  Policy App issued for that very workspace, loaded less than one day and six seconds ago, or the
  permissive fallback, which is always marked with the failure that caused it and never with a load
  time.  An abstention means the last lookup, at most five seconds ago, found no provider bound.
\<close>

theorem provider_policy_provenance:
  assumes "env_ok env" "reach world_init (world_step env) s"
    and "provider_compiled env w s = (Inr result, s')"
  shows "\<exists>c. pw_provider s' w = Some c \<and> cpp_policy c = result
    \<and> (case result of
         None \<Rightarrow> cpp_app_id c = [] \<and> cpp_last_error c = None
       | Some p \<Rightarrow>
           (case cpp_loaded_at c of
              Some t \<Rightarrow> from_bundle env w p \<and> pe_instant env (pw_env s') - t < (86400 + 6) * 10 ^ 9
            | None \<Rightarrow> (\<exists>hint. p = allow_policy hint) \<and> cpp_last_error c \<noteq> None))"
proof -
  have "world_ok env s" using world_sys.reach_inv [OF assms(2)] assms(1) by simp
  from provider_compiled_ok [OF assms(3) this assms(1)] obtain c
    where c: "pw_provider s' w = Some c" "entry_ok env w c" "cpp_policy c = result"
      "result = None \<longrightarrow> cpp_app_id c = []"
      "pe_instant env (pw_env s') - cpp_checked_at c < POLICY_CACHE_TTL"
    by (auto simp: served_def)
  have "pe_instant env (pw_env s') - t < 86406 * 10 ^ 9"
    if "cpp_checked_at c - t < 86401 * 10 ^ 9" for t
    using that c(5) by (simp add: POLICY_CACHE_TTL_def)
  moreover have "cpp_checked_at c - t < 86401 * 10 ^ 9" if "as_secs (cpp_checked_at c - t) \<le> 86400" for t
    using that by (simp add: as_secs_def div_le_mono less_Suc_eq_le div_less_iff_less_mult flip: less_Suc_eq_le)
  ultimately show ?thesis using c
    by (auto simp: entry_ok_def MAX_STALE_SECONDS_def is_some_and_def split: option.splits)
qed

text \<open>
  C3: A bound provider fails closed.  The provider evaluator answers from its cache only with an entry
  that was checked less than five seconds before, which for that long may be outdated (an entry of a
  workspace that was not bound then, or a policy loaded before the App broke its contract).  When it
  has no such entry it reads the binding, and then it abstains only if that very read found no
  provider: a failing read is an error, and with a provider bound the decision never falls through to
  the stored document or the permissive default.  A contract violation of the App met by that load is
  returned as an error even under \<open>fail_open\<close> and even with an older policy at hand; under
  \<open>fail_closed\<close> every policy applied comes from a validated bundle.
\<close>

theorem bound_provider_fails_closed:
  assumes "env_ok env" "reach world_init (world_step env) s" and result: "provider_compiled env w s = (r, s')"
  shows "case (fresh_provider env w s, fresh_provider env w (pe_await env w s)) of
      (Some c, _) \<Rightarrow> r = cached_provider_result c \<and> pe_instant env (pw_env s) - cpp_checked_at c < 5 * 10 ^ 9
    | (None, Some c) \<Rightarrow> r = cached_provider_result c
        \<and> pe_instant env (pw_env (pe_await env w s)) - cpp_checked_at c < 5 * 10 ^ 9
    | (None, None) \<Rightarrow>
        (\<forall>m e. pe_db env (pw_env (pe_await env w s)) = (Inl m, e) \<longrightarrow>
           r = Inl (protocol_error_new ''policy_provider_store_failed'' m))
        \<and> (\<forall>tables e. pe_db env (pw_env (pe_await env w s)) = (Inr tables, e) \<longrightarrow>
           (r = Inr None \<longleftrightarrow> provider_get (pe_codec env) w tables = Inr None)
           \<and> (\<forall>provider. provider_get (pe_codec env) w tables = Inr (Some provider) \<longrightarrow>
               (wpp_failure_mode provider = FailClosed \<longrightarrow> (\<forall>p. r = Inr (Some p) \<longrightarrow> from_bundle env w p))
               \<and> (\<forall>err e'. fetch_bundle env (wpp_app_id provider) w e = (Inl err, e') \<longrightarrow>
                    provider_contract_error err \<longrightarrow> r = Inl err)))"
proof (cases "fresh_provider env w s = None \<and> fresh_provider env w (pe_await env w s) = None")
  case False
  have "pe_instant env (pw_env u) - cpp_checked_at c < 5 * 10 ^ 9" if "fresh_provider env w u = Some c" for u c
    using that by (auto simp: fresh_provider_def bind_eq_Some_conv POLICY_CACHE_TTL_def split: if_splits)
  with False result show ?thesis by (auto simp: provider_compiled_def Let_def split: option.splits)
next
  case miss: True
  obtain db e where db: "pe_db env (pw_env (pe_await env w s)) = (db, e)" by force
  let ?s2 = "(pe_await env w s)\<lparr>pw_env := e\<rparr>"
  have "world_ok env s" using world_sys.reach_inv [OF assms(2)] assms(1) by simp
  then have s2: "world_ok env ?s2" using assms(1) by (simp add: env_ok_def)
  have bound: "r \<noteq> Inr None \<and> (wpp_failure_mode provider = FailClosed \<longrightarrow> (\<forall>p. r = Inr (Some p) \<longrightarrow> from_bundle env w p))
      \<and> (\<forall>err e'. fetch_bundle env (wpp_app_id provider) w e = (Inl err, e') \<longrightarrow> provider_contract_error err \<longrightarrow> r = Inl err)"
    if "db = Inr tables" "provider_get (pe_codec env) w tables = Inr (Some provider)" for tables provider
  proof -
    have "binding_ok provider" using assms(1) db that unfolding env_ok_def binding_ok_def by blast
    moreover have ref: "provider_refresh env w provider ?s2 = (r, s')"
      using result miss db that by (simp add: provider_compiled_def Let_def map_err_def)
    ultimately show ?thesis
      using provider_refresh_ok [OF ref s2] ref by (auto simp: provider_refresh_def invalidate_provider_def Let_def)
  qed
  have unbound: "r = Inr None" if "db = Inr tables" "provider_get (pe_codec env) w tables = Inr None" for tables
    using result miss db that by (simp add: provider_compiled_def Let_def map_err_def)
  have broken: "r \<noteq> Inr None" if "db = Inr tables" "provider_get (pe_codec env) w tables = Inl m" for tables m
    using result miss db that by (auto simp: provider_compiled_def Let_def map_err_def)
  have "r = Inr None \<longleftrightarrow> provider_get (pe_codec env) w tables = Inr None" if "db = Inr tables" for tables
  proof (cases "provider_get (pe_codec env) w tables")
    case (Inr v)
    then show ?thesis using bound [OF that] unbound [OF that] by (cases v) auto
  qed (use broken [OF that] in simp)
  moreover have "r = Inl (protocol_error_new ''policy_provider_store_failed'' m)" if "db = Inl m" for m
    using result miss db that by (simp add: provider_compiled_def Let_def)
  ultimately show ?thesis using miss db bound by (simp add: split_beta)
qed

text \<open>A Policy App that cannot be reached, answering every command with an error of the given code.\<close>

definition example_row :: provider_row where
  "example_row = \<lparr>vrow_workspace_id = ''ws'', vrow_app_id = ''app_1'', vrow_service_id = ''svc_1'',
     vrow_failure_mode = ''fail_open'', vrow_max_stale_seconds = 60, vrow_revision_hint = 4,
     vrow_updated_at = ''t'', vrow_updated_by = ''owner'', vrow_publish_authority = ''owner_session''\<rparr>"

definition example_provider :: workspace_policy_provider where
  "example_provider = \<lparr>wpp_workspace_id = ''ws'', wpp_app_id = ''app_1'', wpp_service_id = ''svc_1'',
     wpp_failure_mode = FailOpen, wpp_max_stale_seconds = 60, wpp_revision_hint = 4,
     wpp_updated_at = 1, wpp_updated_by = ''owner'', wpp_publish_authority = OwnerSession\<rparr>"

definition example_bound_tables :: policy_tables where
  "example_bound_tables = example_policy_tables\<lparr>pt_providers := [''ws'' \<mapsto> example_row]\<rparr>"

definition example_env :: "string \<Rightarrow> nat policy_env" where
  "example_env code = \<lparr>pe_codec = example_codec, pe_instant = (\<lambda>e. e),
     pe_db = (\<lambda>e. (Inr example_bound_tables, e)), pe_sqlx_display = (\<lambda>_. []),
     pe_resolve_app = (\<lambda>_ _ e. (Inr \<lparr>at_server_id = ''srv'', at_port = 8787\<rparr>, e)),
     pe_send_command = (\<lambda>_ _ _ e. (Inl (protocol_error_new code ''down''), Suc e)),
     pe_decode_manifest = (\<lambda>_. None), pe_decode_bundle = (\<lambda>_. None),
     pe_form_urlencode = (\<lambda>_. []), pe_await = (\<lambda>_ s. s)\<rparr>"

definition example_world :: "nat policy_world" where
  "example_world = \<lparr>pw_provider = Map.empty, pw_durable = Map.empty, pw_env = 7\<rparr>"

lemma example_provider_get:
  "provider_get example_codec w example_bound_tables = Inr (if w = ''ws'' then Some example_provider else None)"
  by (simp add: provider_get_def example_bound_tables_def example_policy_tables_def example_row_def
      provider_from_row_def parse_failure_mode_def parse_publish_authority_def example_codec_def
      u64_try_from_def map_err_def example_provider_def)

lemma example_env_ok: "env_ok (example_env code)"
  by (auto simp: env_ok_def example_env_def example_provider_get MAX_STALE_SECONDS_def
      example_provider_def world_ok_def split: if_splits)

lemma example_world_reach: "reach world_init (world_step env) example_world"
  by (rule reach_init) (simp add: world_init_def example_world_def)

lemma example_fresh: "fresh_provider env w example_world = None"
  by (simp add: fresh_provider_def example_world_def)

lemma example_fetch:
  "fetch_bundle (example_env code) ''app_1'' w e = (Inl (protocol_error_new code ''down''), Suc e)"
  by (simp add: fetch_bundle_def eff_bind_def example_env_def)

lemma example_env_fields [simp]:
  "pe_await (example_env code) w s = s" "pe_db (example_env code) e = (Inr example_bound_tables, e)"
  "pe_codec (example_env code) = example_codec" "pe_instant (example_env code) e = e"
  "pw_env example_world = 7" "pw_provider example_world = Map.empty"
  by (simp_all add: example_env_def example_world_def)

lemma example_refresh:
  "provider_compiled (example_env code) ''ws'' example_world
   = provider_refresh (example_env code) ''ws'' example_provider (example_world\<lparr>pw_env := 7\<rparr>)"
  by (simp add: provider_compiled_def Let_def example_fresh example_provider_get map_err_def)

theorem provider_policy_provenance_witness:
  "\<exists>s' c. provider_compiled (example_env ''machine_offline'') ''ws'' example_world
        = (Inr (Some (allow_policy 4)), s')
     \<and> pw_provider s' ''ws'' = Some c \<and> cpp_policy c = Some (allow_policy 4)"
proof -
  have "\<exists>s'. provider_compiled (example_env ''machine_offline'') ''ws'' example_world
        = (Inr (Some (allow_policy 4)), s')"
    unfolding example_refresh
    by (simp add: provider_refresh_def provider_failure_def stale_policy_def invalidate_provider_def
        example_fetch provider_contract_error_def protocol_error_new_def example_provider_def Let_def)
  then obtain s' where s': "provider_compiled (example_env ''machine_offline'') ''ws'' example_world
        = (Inr (Some (allow_policy 4)), s')" by blast
  from provider_policy_provenance [OF example_env_ok example_world_reach s'] s' show ?thesis by auto
qed

theorem bound_provider_fails_closed_witness:
  "fst (provider_compiled (example_env ''unsupported_command'') ''ws'' example_world)
     = Inl (protocol_error_new ''unsupported_command'' ''down'')"
proof -
  let ?env = "example_env ''unsupported_command''"
  obtain r s' where r: "provider_compiled ?env ''ws'' example_world = (r, s')" by force
  have "fresh_provider ?env ''ws'' (pe_await ?env ''ws'' example_world) = None"
    "pe_db ?env (pw_env (pe_await ?env ''ws'' example_world)) = (Inr example_bound_tables, 7)"
    "provider_get (pe_codec ?env) ''ws'' example_bound_tables = Inr (Some example_provider)"
    "fetch_bundle ?env (wpp_app_id example_provider) ''ws'' 7
      = (Inl (protocol_error_new ''unsupported_command'' ''down''), 8)"
    "provider_contract_error (protocol_error_new ''unsupported_command'' ''down'')"
    by (simp_all add: example_fresh example_provider_get example_fetch example_provider_def
        provider_contract_error_def protocol_error_new_def)
  with bound_provider_fails_closed [OF example_env_ok example_world_reach r] r example_fresh
  show ?thesis by simp
qed

end
