(* ===== verification/Policy_Tree.thy ===== *)
theory Policy_Tree
  imports Workload_Tree Policy_Path
begin

text \<open>
  The Tree snapshot that gives Policy requests their placement (\<open>policy_tree.rs\<close>): loading it from
  the tables in one repeatable-read transaction, the context of a node and the enrichment of a
  request.  The lemmas relate the ancestor IDs of a context to the parent chain of the Tree and to
  its path, so that ID conditions and path conditions of rules agree.
\<close>

section \<open>Operations\<close>

text \<open>The loop of \<open>context\<close> that collects ancestor IDs from the node's folder upwards.\<close>

function ancestor_loop :: "workload_folder list \<Rightarrow> string list \<Rightarrow> string option \<Rightarrow> string list res" where
  "ancestor_loop fs ids None = Inr ids"
| "ancestor_loop fs ids (Some i) =
     (if i \<in> set ids then Inl (protocol_error_new ''invalid_workload_tree'' ''folder cycle'')
      else ancestor_loop fs (ids @ [i])
             (Option.bind (find (\<lambda>f. folder_id f = i) fs) parent_id))"
  by pat_completeness auto
termination
proof (relation "measure (\<lambda>(fs, ids, next).
    2 * card (folder_id ` set fs - set ids) + (if next = None then 0 else 1))", goal_cases)
  case (2 fs ids i)
  show ?case
  proof (cases "find (\<lambda>f. folder_id f = i) fs")
    case None
    then have "folder_id ` set fs - set (ids @ [i]) = folder_id ` set fs - set ids"
      by (auto simp: find_None_iff)
    with None show ?thesis by simp
  next
    case (Some f)
    then have "i \<in> folder_id ` set fs - set ids" using 2 by (auto simp: find_Some_iff)
    then have "folder_id ` set fs - set (ids @ [i]) \<subset> folder_id ` set fs - set ids" by auto
    then have "card (folder_id ` set fs - set (ids @ [i])) < card (folder_id ` set fs - set ids)"
      by (intro psubset_card_mono) auto
    then show ?thesis by (simp split: if_splits)
  qed
qed simp

definition tree_context ::
  "workload_tree \<Rightarrow> nat \<Rightarrow> string \<Rightarrow> string \<Rightarrow> string \<Rightarrow> string option \<Rightarrow> bool
   \<Rightarrow> policy_tree_context res" where
  "tree_context t revision i kind name folder placed =
     and_then (folder_path t folder) (\<lambda>fpath.
     and_then (ancestor_loop (folders t) [] folder) (\<lambda>ids.
     let ancestor_ids = rev ids in
     and_then (try_map (\<lambda>a. folder_path t (Some a)) ancestor_ids) (\<lambda>paths.
     Inr \<lparr>tc_node_id = i, tc_kind = kind, tc_name = name,
          tc_path = trim_end_matches CHR ''/'' fpath @ ''/'' @ name,
          tc_folder_id = folder, tc_folder_path = fpath,
          tc_ancestor_ids = ancestor_ids, tc_ancestor_paths = ''/'' # paths,
          tc_placed = placed, tc_tree_revision = revision\<rparr>)))"

text \<open>The rows of the transaction: base tables of the workspace and the join of the workload query.\<close>

record credential_row =
  cr_agent_id :: string
  cr_server_id :: string
  cr_revoked :: bool

record deployment_row =
  dr_app_id :: string
  dr_name :: string
  dr_service_id :: string
  dr_runtime_agent_id :: "string option"

record tree_db =
  td_tree_revision :: "int option"
  td_folders :: "workload_folder list"
  td_placements :: "workload_placement list"
  td_credentials :: "credential_row list"
  td_agent_names :: "(string \<times> string) list"
  td_deployments :: "deployment_row list"
  td_deleted_agents :: "string list"

text \<open>One row per live credential and matching deployment; without a match the columns are NULL.\<close>

definition workload_rows ::
  "tree_db \<Rightarrow> (credential_row \<times> string option \<times> deployment_row option) list" where
  "workload_rows db =
     concat (map (\<lambda>c.
       let name = map_of (td_agent_names db) (cr_agent_id c);
           apps = filter (\<lambda>a. dr_runtime_agent_id a = Some (cr_agent_id c) \<or> dr_app_id a = cr_agent_id c)
                    (td_deployments db)
       in if apps = [] then [(c, name, None)] else map (\<lambda>a. (c, Some (dr_name a), Some a)) apps)
     (filter (\<lambda>c. \<not> cr_revoked c \<and> cr_agent_id c \<notin> set (td_deleted_agents db)) (td_credentials db)))"

record tree_snapshot =
  ts_revision :: nat
  ts_nodes :: "(string \<times> policy_tree_context) list"
  ts_agent_machines :: "(string \<times> string) list"
  ts_service_ids :: "string list"

definition hash_insert :: "'k \<Rightarrow> 'v \<Rightarrow> ('k \<times> 'v) list \<Rightarrow> ('k \<times> 'v) list" where
  "hash_insert k v m = (k, v) # filter (\<lambda>(k', _). k' \<noteq> k) m"

definition db_error :: protocol_error where
  "db_error = protocol_error_new ''policy_tree_unavailable'' ''current policy Tree context unavailable''"

fun load_folders ::
  "workload_tree \<Rightarrow> nat \<Rightarrow> workload_folder list \<Rightarrow> (string \<times> policy_tree_context) list
   \<Rightarrow> (string \<times> policy_tree_context) list res" where
  "load_folders t revision [] nodes = Inr nodes"
| "load_folders t revision (f # fs) nodes =
     and_then (tree_context t revision (folder_id f) ''folder'' (folder_name f) (parent_id f) True) (\<lambda>ctx.
     load_folders t revision fs (hash_insert (folder_id f) ctx nodes))"

fun load_workloads ::
  "workload_tree \<Rightarrow> nat \<Rightarrow> (credential_row \<times> string option \<times> deployment_row option) list
   \<Rightarrow> tree_snapshot \<Rightarrow> tree_snapshot res" where
  "load_workloads t revision [] s = Inr s"
| "load_workloads t revision ((c, name, app) # rows) s =
     (let i = cr_agent_id c;
          s1 = s\<lparr>ts_agent_machines := hash_insert i (cr_server_id c) (ts_agent_machines s)\<rparr> in
      case name of
        None \<Rightarrow> load_workloads t revision rows s1
      | Some n \<Rightarrow>
          let placement = find (\<lambda>p. pl_agent_id p = i) (placements t) in
          and_then (tree_context t revision
              (case app of Some a \<Rightarrow> dr_app_id a | None \<Rightarrow> i)
              (if app \<noteq> None then ''app'' else ''agent'') n
              (Option.bind placement pl_folder_id) (placement \<noteq> None)) (\<lambda>ctx.
          let s2 = s1\<lparr>ts_nodes := hash_insert i ctx (ts_nodes s1)\<rparr> in
          load_workloads t revision rows
            (case app of
               None \<Rightarrow> s2
             | Some a \<Rightarrow> s2\<lparr>ts_nodes := hash_insert (dr_service_id a) ctx
                              (hash_insert (dr_app_id a) ctx (ts_nodes s2)),
                           ts_service_ids := List.insert (dr_service_id a) (ts_service_ids s2)\<rparr>)))"

fun load_deployments ::
  "workload_tree \<Rightarrow> nat \<Rightarrow> deployment_row list \<Rightarrow> tree_snapshot \<Rightarrow> tree_snapshot res" where
  "load_deployments t revision [] s = Inr s"
| "load_deployments t revision (a # rows) s =
     (if map_of (ts_nodes s) (dr_app_id a) \<noteq> None then load_deployments t revision rows s
      else
        let key = (case dr_runtime_agent_id a of Some r \<Rightarrow> r | None \<Rightarrow> dr_app_id a);
            placement = find (\<lambda>p. pl_agent_id p = key) (placements t) in
        and_then (tree_context t revision (dr_app_id a) ''app'' (dr_name a)
            (Option.bind placement pl_folder_id) (placement \<noteq> None)) (\<lambda>ctx.
        load_deployments t revision rows
          (s\<lparr>ts_nodes := hash_insert (dr_service_id a) ctx (hash_insert (dr_app_id a) ctx (ts_nodes s)),
             ts_service_ids := List.insert (dr_service_id a) (ts_service_ids s)\<rparr>)))"

text \<open>\<open>load\<close>; \<open>None\<close> is a database that cannot be read.\<close>

definition load_snapshot :: "tree_db option \<Rightarrow> tree_snapshot res" where
  "load_snapshot conn =
     (case conn of None \<Rightarrow> Inl db_error | Some db \<Rightarrow>
        and_then (ok_or_else (td_tree_revision db)
          (protocol_error_new ''workspace_not_found'' ''workspace not found'')) (\<lambda>r.
        if r < 0 then Inl (protocol_error_new ''invalid_tree_revision'' ''invalid Tree revision'')
        else
          let revision = nat r;
              t = \<lparr>folders = sort_key folder_id (td_folders db), placements = td_placements db\<rparr> in
          and_then (load_folders t revision (folders t) []) (\<lambda>nodes.
          and_then (load_workloads t revision (workload_rows db)
             \<lparr>ts_revision = revision, ts_nodes = nodes, ts_agent_machines = [], ts_service_ids = []\<rparr>) (\<lambda>s.
          load_deployments t revision (td_deployments db) s))))"

definition snapshot_enrich :: "tree_snapshot \<Rightarrow> policy_request \<Rightarrow> policy_request" where
  "snapshot_enrich s request =
     (let subject = (case req_subject request of
                       SubjAgent _ agent \<Rightarrow> Some agent
                     | SubjService service \<Rightarrow> Some service
                     | _ \<Rightarrow> None);
          r = req_resource request;
          target = (if res_kind r \<in> {''message'', ''network.endpoint''} then
                      map_of (res_attributes r) ''destination_agent_id''
                    else if res_kind r = ''message.mailbox'' then
                      (if map_of (res_attributes r) ''principal_kind'' = Some ''agent''
                       then Some (res_id r) else None)
                    else if res_kind r \<in> {''agent'', ''app'', ''folder'', ''machine.service''} then
                      Some (res_id r)
                    else None)
      in request\<lparr>req_tree_revision := Some (ts_revision s),
                 req_subject_tree := Option.bind subject (map_of (ts_nodes s)),
                 req_resource_tree := Option.bind target (map_of (ts_nodes s))\<rparr>)"

text \<open>\<open>resolve_path\<close>; the iteration order of the service set is the order of the list.\<close>

definition resolve_node_path :: "tree_snapshot \<Rightarrow> string \<Rightarrow> string \<Rightarrow> string option" where
  "resolve_node_path s kind path =
     (if kind = ''service'' then
        find (\<lambda>i. is_some_and (map_of (ts_nodes s) i) (\<lambda>c. tc_placed c \<and> tc_path c = path))
          (ts_service_ids s)
      else
        (let ids = remdups_adj (sort (map (\<lambda>(_, c). tc_node_id c)
               (filter (\<lambda>(_, c). tc_placed c \<and> tc_kind c = kind \<and> tc_path c = path) (ts_nodes s))))
         in if length ids = 1 then Some (hd ids) else None))"

definition agent_subject :: "tree_snapshot \<Rightarrow> string \<Rightarrow> policy_subject option" where
  "agent_subject s i = map_option (\<lambda>server. SubjAgent server i) (map_of (ts_agent_machines s) i)"

definition is_service :: "tree_snapshot \<Rightarrow> string \<Rightarrow> bool" where
  "is_service s i \<longleftrightarrow> i \<in> set (ts_service_ids s)"

definition is_resource :: "tree_snapshot \<Rightarrow> string \<Rightarrow> string \<Rightarrow> bool" where
  "is_resource s kind i = is_some_and (map_of (ts_nodes s) i) (\<lambda>c. tc_kind c = kind)"

section \<open>Contexts and parent chains\<close>

lemma ancestor_loop_chain:
  "anc_chain fs i c \<Longrightarrow> set (map folder_id c) \<inter> set ids = {} \<Longrightarrow>
     ancestor_loop fs ids i = Inr (ids @ map folder_id c)"
proof (induction arbitrary: ids rule: anc_chain.induct)
  case (chain_step i fs f c)
  have fid: "folder_id f = i" using find_folder [OF chain_step.hyps(1)] by simp
  have "distinct (map folder_id (f # c))"
    using chain_step.hyps by (intro anc_chain_distinct) (rule anc_chain.chain_step)
  with chain_step.prems fid chain_step.IH [of "ids @ [i]"] chain_step.hyps(1) show ?case by auto
qed simp

lemma anc_chain_drop:
  "anc_chain fs i c \<Longrightarrow> k < length c \<Longrightarrow> anc_chain fs (Some (folder_id (c ! k))) (drop k c)"
proof (induction arbitrary: k rule: anc_chain.induct)
  case (chain_step i fs f c)
  have "folder_id f = i" using find_folder [OF chain_step.hyps(1)] by simp
  with chain_step show ?case by (cases k) (auto intro: anc_chain.chain_step)
qed simp

definition chain_path :: "workload_folder list \<Rightarrow> string" where
  "chain_path c = print_path (rev (map folder_name c))"

lemma folder_path_chain: "folder_path t i = Inr p \<longleftrightarrow> (\<exists>c. anc_chain (folders t) i c \<and> p = chain_path c)"
  by (simp add: folder_path_iff_chain chain_path_def print_path_def)

text \<open>What a context in a snapshot records, in terms of the parent chain of its folder.\<close>

definition ctx_ok :: "workload_tree \<Rightarrow> nat \<Rightarrow> policy_tree_context \<Rightarrow> bool" where
  "ctx_ok t revision x \<longleftrightarrow> tc_tree_revision x = revision
     \<and> folder_path t (tc_folder_id x) = Inr (tc_folder_path x)
     \<and> tc_path x = trim_end_matches CHR ''/'' (tc_folder_path x) @ ''/'' @ tc_name x
     \<and> (\<exists>c. anc_chain (folders t) (tc_folder_id x) c \<and> tc_ancestor_ids x = rev (map folder_id c))
     \<and> (\<exists>paths. tc_ancestor_paths x = ''/'' # paths
          \<and> list_all2 (\<lambda>a p. folder_path t (Some a) = Inr p) (tc_ancestor_ids x) paths)"

lemma tree_context_ok:
  assumes "tree_context t revision i kind name folder placed = Inr x"
  shows "ctx_ok t revision x \<and> tc_node_id x = i \<and> tc_kind x = kind \<and> tc_name x = name
    \<and> tc_folder_id x = folder \<and> tc_placed x = placed"
proof -
  from assms obtain c where c: "anc_chain (folders t) folder c"
    by (auto simp: tree_context_def res_simps folder_path_chain)
  with ancestor_loop_chain [OF c, of "[]"] assms show ?thesis
    by (auto simp: tree_context_def res_simps ctx_ok_def try_map_Inr Let_def)
qed

lemma folder_path_unique:
  assumes "wf_folders (folders t)" "unique_siblings (folders t)"
    and "folder_path t i = Inr p" "folder_path t j = Inr p"
  shows "i = j"
proof -
  have "resolve_folder_path t p None = Inr k" if "folder_path t k = Inr p" for k
    using that resolve_absolute_chain [OF assms(1,2)] by (auto simp: folder_path_iff_chain)
  from this [OF assms(3)] this [OF assms(4)] show ?thesis by simp
qed

lemma folder_path_not_root:
  assumes "wf_folders (folders t)" "folder_path t (Some i) = Inr p"
  shows "p \<noteq> ''/''"
proof -
  from assms(2) obtain c where c: "anc_chain (folders t) (Some i) c" "p = chain_path c"
    by (auto simp: folder_path_chain)
  have "path_comps (rev (map folder_name c))"
    using chain_names_good [OF c(1) assms(1)] by (auto simp: path_comps_def good_component_def)
  with c show ?thesis
    by (auto simp: chain_path_def print_path_def join_comps_Nil elim: anc_chain_SomeE)
qed

lemma ancestor_path_iff_id:
  assumes wf: "wf_folders (folders t)" "unique_siblings (folders t)"
    and x: "ctx_ok t revision x" and p: "folder_path t (Some i) = Inr p"
  shows "p \<in> set (tc_ancestor_paths x) \<longleftrightarrow> i \<in> set (tc_ancestor_ids x)"
proof -
  from x obtain paths where paths: "tc_ancestor_paths x = ''/'' # paths"
    "list_all2 (\<lambda>a p. folder_path t (Some a) = Inr p) (tc_ancestor_ids x) paths"
    by (auto simp: ctx_ok_def)
  have "p \<in> set paths \<longleftrightarrow> i \<in> set (tc_ancestor_ids x)"
  proof
    assume "p \<in> set paths"
    then obtain a where "a \<in> set (tc_ancestor_ids x)" "folder_path t (Some a) = Inr p"
      using list_all2_mem2 [OF paths(2)] by blast
    with folder_path_unique [OF wf this(2) p] show "i \<in> set (tc_ancestor_ids x)" by simp
  next
    assume "i \<in> set (tc_ancestor_ids x)"
    then obtain q where "q \<in> set paths" "folder_path t (Some i) = Inr q"
      using list_all2_mem1 [OF paths(2)] by blast
    with p show "p \<in> set paths" by simp
  qed
  with paths(1) folder_path_not_root [OF wf(1) p] show ?thesis by simp
qed

lemma ctx_path:
  assumes "wf_folders (folders t)" "ctx_ok t revision x" "anc_chain (folders t) (tc_folder_id x) c"
  shows "tc_path x = print_path (rev (map folder_name c) @ [tc_name x])"
proof -
  have "tc_folder_path x = ''/'' @ join_with ''/'' (rev (map folder_name c))"
    using assms(2,3) anc_chain_det by (auto simp: ctx_ok_def folder_path_iff_chain)
  moreover have "\<forall>n \<in> set (rev (map folder_name c)). good_component n"
    using chain_names_good [OF assms(3,1)] by simp
  ultimately show ?thesis
    using assms(2) trim_folder_path [of "rev (map folder_name c)" "tc_name x"]
    by (simp add: ctx_ok_def print_path_def)
qed

lemma below_iff_ancestor:
  assumes wf: "wf_folders (folders t)" "unique_siblings (folders t)"
    and x: "ctx_ok t revision x" "good_component (tc_name x)"
    and p: "folder_path t (Some i) = Inr p"
  shows "below p (tc_path x) \<longleftrightarrow> i \<in> set (tc_ancestor_ids x)"
proof -
  from p obtain d where d: "anc_chain (folders t) (Some i) d" "p = chain_path d"
    by (auto simp: folder_path_chain)
  from x(1) obtain c where c: "anc_chain (folders t) (tc_folder_id x) c"
    "tc_ancestor_ids x = rev (map folder_id c)" by (auto simp: ctx_ok_def)
  let ?ns = "rev (map folder_name d)" and ?ms = "rev (map folder_name c)"
  have comps: "path_comps ?ns" "path_comps (?ms @ [tc_name x])"
    using chain_names_good [OF d(1) wf(1)] chain_names_good [OF c(1) wf(1)] x(2)
    by (auto simp: path_comps_def good_component_def)
  have "below p (tc_path x) \<longleftrightarrow> strict_prefix ?ns (?ms @ [tc_name x])"
    using below_print [OF comps] by (simp add: d(2) chain_path_def ctx_path [OF wf(1) x(1) c(1)])
  also have "\<dots> \<longleftrightarrow> prefix ?ns ?ms" by (auto simp: strict_prefix_def)
  also have "\<dots> \<longleftrightarrow> i \<in> set (tc_ancestor_ids x)"
  proof
    assume pre: "prefix ?ns ?ms"
    let ?k = "length c - length d"
    have dne: "d \<noteq> []" using d(1) by (auto elim: anc_chain_SomeE)
    have len: "length d \<le> length c" using prefix_length_le [OF pre] by simp
    then have k: "?k < length c" using dne by (cases d) auto
    have "?ns = take (length d) ?ms" using pre by (auto simp: prefix_def)
    also have "\<dots> = rev (map folder_name (drop ?k c))" using len by (simp add: take_rev drop_map)
    finally have "chain_path (drop ?k c) = p" by (simp add: d(2) chain_path_def)
    with anc_chain_drop [OF c(1) k] have "folder_path t (Some (folder_id (c ! ?k))) = Inr p"
      by (auto simp: folder_path_chain)
    from folder_path_unique [OF wf this p] k show "i \<in> set (tc_ancestor_ids x)" by (auto simp: c(2))
  next
    assume "i \<in> set (tc_ancestor_ids x)"
    then obtain k where k: "k < length c" "i = folder_id (c ! k)"
      by (auto simp: c(2) in_set_conv_nth)
    from anc_chain_drop [OF c(1) k(1)] d(1) k(2) have "d = drop k c" using anc_chain_det by blast
    then have "?ns = take (length c - k) ?ms" using k(1) by (simp add: take_rev drop_map)
    then show "prefix ?ns ?ms" by (metis take_is_prefix)
  qed
  finally show ?thesis .
qed

section \<open>Loaded snapshots\<close>

text \<open>
  A node of a loaded snapshot is a context of the Tree at the snapshot's revision, and a folder
  node is the context of that folder.
\<close>

definition node_ok :: "workload_tree \<Rightarrow> nat \<Rightarrow> policy_tree_context \<Rightarrow> bool" where
  "node_ok t revision x \<longleftrightarrow> ctx_ok t revision x
     \<and> (tc_kind x = ''folder'' \<longrightarrow> (\<exists>f \<in> set (folders t). tc_node_id x = folder_id f
          \<and> tc_name x = folder_name f \<and> tc_folder_id x = parent_id f \<and> tc_placed x))"

definition nodes_ok :: "workload_tree \<Rightarrow> nat \<Rightarrow> (string \<times> policy_tree_context) list \<Rightarrow> bool" where
  "nodes_ok t revision m \<longleftrightarrow> (\<forall>x \<in> snd ` set m. node_ok t revision x)"

lemma find_distinct_key:
  "distinct (map k xs) \<Longrightarrow> x \<in> set xs \<Longrightarrow> find (\<lambda>y. k y = k x) xs = Some x"
  by (induction xs) (auto simp: image_iff)

lemma nodes_ok_Nil [simp]: "nodes_ok t r []"
  by (simp add: nodes_ok_def)

lemma nodes_ok_insert [intro]: "nodes_ok t r m \<Longrightarrow> node_ok t r v \<Longrightarrow> nodes_ok t r (hash_insert k v m)"
  by (auto simp: nodes_ok_def hash_insert_def)

lemma nodes_ok_lookup: "nodes_ok t r m \<Longrightarrow> map_of m i = Some x \<Longrightarrow> node_ok t r x"
  by (force simp: nodes_ok_def dest: map_of_SomeD)

lemma load_folders_ok:
  "load_folders t r fs nodes = Inr nodes' \<Longrightarrow> set fs \<subseteq> set (folders t) \<Longrightarrow>
   nodes_ok t r nodes \<Longrightarrow> nodes_ok t r nodes'"
proof (induction fs arbitrary: nodes)
  case (Cons f fs)
  then obtain ctx where ctx: "tree_context t r (folder_id f) ''folder'' (folder_name f) (parent_id f) True = Inr ctx"
    and rest: "load_folders t r fs (hash_insert (folder_id f) ctx nodes) = Inr nodes'"
    by (auto simp: res_simps)
  have "node_ok t r ctx"
    using tree_context_ok [OF ctx] Cons.prems(2) by (auto simp: node_ok_def)
  with Cons.prems show ?case by (intro Cons.IH [OF rest]) auto
qed simp

lemma tree_context_node_ok:
  "tree_context t r i kind name folder placed = Inr x \<Longrightarrow> kind \<noteq> ''folder'' \<Longrightarrow> node_ok t r x"
  using tree_context_ok [of t r i kind name folder placed x] by (simp add: node_ok_def)

lemma load_workloads_ok:
  "load_workloads t r rows s = Inr s' \<Longrightarrow> nodes_ok t r (ts_nodes s) \<Longrightarrow>
   nodes_ok t r (ts_nodes s') \<and> ts_revision s' = ts_revision s"
proof (induction rows arbitrary: s)
  case (Cons row rows)
  obtain c name app where row: "row = (c, name, app)" by (cases row)
  show ?case
  proof (cases name)
    case None
    from Cons.IH [OF Cons.prems(1) [unfolded row None load_workloads.simps Let_def option.case]]
    show ?thesis using Cons.prems(2) by simp
  next
    case (Some n)
    let ?pl = "find (\<lambda>p. pl_agent_id p = cr_agent_id c) (placements t)"
    let ?s1 = "s\<lparr>ts_agent_machines := hash_insert (cr_agent_id c) (cr_server_id c) (ts_agent_machines s)\<rparr>"
    from Cons.prems Some obtain ctx where ctx: "tree_context t r
          (case app of Some a \<Rightarrow> dr_app_id a | None \<Rightarrow> cr_agent_id c)
          (if app \<noteq> None then ''app'' else ''agent'') n
          (Option.bind ?pl pl_folder_id) (?pl \<noteq> None) = Inr ctx"
      and rest: "let s2 = ?s1\<lparr>ts_nodes := hash_insert (cr_agent_id c) ctx (ts_nodes ?s1)\<rparr> in
          load_workloads t r rows
            (case app of
               None \<Rightarrow> s2
             | Some a \<Rightarrow> s2\<lparr>ts_nodes := hash_insert (dr_service_id a) ctx
                              (hash_insert (dr_app_id a) ctx (ts_nodes s2)),
                           ts_service_ids := List.insert (dr_service_id a) (ts_service_ids s2)\<rparr>) = Inr s'"
      unfolding row load_workloads.simps Let_def Some option.case by (auto simp only: and_then_Inr)
    from ctx have "node_ok t r ctx" by (rule tree_context_node_ok) simp
    with Cons.IH [OF rest [unfolded Let_def]] Cons.prems(2) show ?thesis
      by (cases app) auto
  qed
qed simp

lemma load_deployments_ok:
  "load_deployments t r rows s = Inr s' \<Longrightarrow> nodes_ok t r (ts_nodes s) \<Longrightarrow>
   nodes_ok t r (ts_nodes s') \<and> ts_revision s' = ts_revision s"
proof (induction rows arbitrary: s)
  case (Cons a rows)
  show ?case
  proof (cases "map_of (ts_nodes s) (dr_app_id a)")
    case (Some x)
    with Cons show ?thesis by simp
  next
    case None
    let ?key = "case dr_runtime_agent_id a of Some r \<Rightarrow> r | None \<Rightarrow> dr_app_id a"
    let ?pl = "find (\<lambda>p. pl_agent_id p = ?key) (placements t)"
    from Cons.prems None obtain ctx where ctx: "tree_context t r (dr_app_id a) ''app'' (dr_name a)
            (Option.bind ?pl pl_folder_id) (?pl \<noteq> None) = Inr ctx"
      and rest: "load_deployments t r rows
          (s\<lparr>ts_nodes := hash_insert (dr_service_id a) ctx (hash_insert (dr_app_id a) ctx (ts_nodes s)),
             ts_service_ids := List.insert (dr_service_id a) (ts_service_ids s)\<rparr>) = Inr s'"
      by (auto simp: and_then_Inr Let_def)
    from ctx have "node_ok t r ctx" by (rule tree_context_node_ok) simp
    with Cons.IH [OF rest] Cons.prems(2) show ?thesis by auto
  qed
qed simp

definition db_tree :: "tree_db \<Rightarrow> workload_tree" where
  "db_tree db = \<lparr>folders = sort_key folder_id (td_folders db), placements = td_placements db\<rparr>"

lemma load_snapshot_ok:
  assumes "load_snapshot (Some db) = Inr s"
  shows "td_tree_revision db = Some (int (ts_revision s)) \<and> nodes_ok (db_tree db) (ts_revision s) (ts_nodes s)"
proof -
  from assms obtain r nodes s1 where r: "td_tree_revision db = Some r" "0 \<le> r"
    and l: "load_folders (db_tree db) (nat r) (folders (db_tree db)) [] = Inr nodes"
      "load_workloads (db_tree db) (nat r) (workload_rows db)
         \<lparr>ts_revision = nat r, ts_nodes = nodes, ts_agent_machines = [], ts_service_ids = []\<rparr> = Inr s1"
      "load_deployments (db_tree db) (nat r) (td_deployments db) s1 = Inr s"
    unfolding load_snapshot_def db_tree_def
    by (auto simp: and_then_Inr ok_or_else_Inr Let_def split: if_splits)
  from load_folders_ok [OF l(1)] have "nodes_ok (db_tree db) (nat r) nodes" by simp
  with load_workloads_ok [OF l(2)] load_deployments_ok [OF l(3)] r show ?thesis by auto
qed

lemma find_reorder:
  assumes "distinct (map k xs)" "set xs = set ys" "find (\<lambda>y. k y = i) xs = Some f"
  shows "find (\<lambda>y. k y = i) ys = Some f"
proof (cases "find (\<lambda>y. k y = i) ys")
  case None
  with assms(2,3) show ?thesis by (auto simp: find_None_iff find_Some_iff)
next
  case (Some g)
  then have "g \<in> set xs" "k g = i" using assms(2) by (auto simp: find_Some_iff)
  moreover have "f \<in> set xs" "k f = i" using assms(3) by (auto simp: find_Some_iff)
  ultimately have "g = f" using assms(1) by (auto simp: distinct_map inj_on_def)
  with Some show ?thesis by simp
qed

lemma anc_chain_reorder:
  "distinct (map folder_id fs) \<Longrightarrow> anc_chain fs i c \<Longrightarrow> set fs = set fs' \<Longrightarrow> anc_chain fs' i c"
proof (rotate_tac 1, induction rule: anc_chain.induct)
  case (chain_step i fs f c)
  then show ?case using find_reorder [of folder_id fs fs' i f] by (auto intro: anc_chain.chain_step)
qed (simp add: anc_chain.chain_root)

section \<open>Properties\<close>

text \<open>Two parent chains with one path have the same length, so no folder has the path of an ancestor.\<close>

lemma chain_path_length:
  assumes "wf_folders fs" "anc_chain fs i c" "anc_chain fs j d" "chain_path c = chain_path d"
  shows "length c = length d"
proof -
  have "path_comps (rev (map folder_name c))" "path_comps (rev (map folder_name d))"
    using chain_names_good [OF assms(2,1)] chain_names_good [OF assms(3,1)]
    by (auto simp: path_comps_def good_component_def)
  then have "map folder_name c = map folder_name d"
    using assms(4) print_path_inj by (simp add: chain_path_def)
  then show ?thesis by (rule map_eq_imp_length_eq)
qed

lemma ancestor_paths_iff:
  assumes "ctx_ok t revision x" "p \<noteq> ''/''"
  shows "p \<in> set (tc_ancestor_paths x) \<longleftrightarrow> (\<exists>j \<in> set (tc_ancestor_ids x). folder_path t (Some j) = Inr p)"
proof -
  from assms(1) obtain paths where paths: "tc_ancestor_paths x = ''/'' # paths"
    "list_all2 (\<lambda>a p. folder_path t (Some a) = Inr p) (tc_ancestor_ids x) paths" by (auto simp: ctx_ok_def)
  with assms(2) show ?thesis
    using list_all2_mem1 [OF paths(2)] list_all2_mem2 [OF paths(2)] by fastforce
qed

text \<open>The path of a folder in a snapshot is its path in the Tree.\<close>

lemma folder_node_path:
  assumes "wf_folders (folders t)" "node_ok t revision x" "tc_kind x = ''folder''" "anc_chain (folders t) (tc_folder_id x) c"
  shows "\<exists>f. tc_node_id x = folder_id f \<and> tc_path x = chain_path (f # c)
    \<and> anc_chain (folders t) (Some (folder_id f)) (f # c)"
proof -
  from assms(2,3) obtain f where f: "f \<in> set (folders t)" "tc_node_id x = folder_id f"
    "tc_name x = folder_name f" "tc_folder_id x = parent_id f" by (auto simp: node_ok_def)
  have "find (\<lambda>g. folder_id g = folder_id f) (folders t) = Some f"
    using assms(1) f(1) by (intro find_distinct_key) (auto simp: wf_folders_def)
  then have "anc_chain (folders t) (Some (folder_id f)) (f # c)"
    using assms(4) f(4) by (auto intro: anc_chain.chain_step)
  moreover have "tc_path x = chain_path (f # c)"
    using ctx_path [OF assms(1) _ assms(4)] assms(2) f(3) by (auto simp: node_ok_def chain_path_def)
  ultimately show ?thesis using f(2) by blast
qed

text \<open>A proper ancestor of the containing folder has neither its path nor that of the node.\<close>

lemma ancestor_path_differs:
  assumes "wf_folders (folders t)" "node_ok t revision x" "j \<in> set (tc_ancestor_ids x)" "folder_path t (Some j) = Inr p"
  shows "tc_folder_id x \<noteq> Some j \<Longrightarrow> tc_folder_path x \<noteq> p" "tc_kind x = ''folder'' \<Longrightarrow> tc_path x \<noteq> p"
proof -
  from assms(2) obtain c where c: "anc_chain (folders t) (tc_folder_id x) c" "tc_ancestor_ids x = rev (map folder_id c)"
    "folder_path t (tc_folder_id x) = Inr (tc_folder_path x)" by (auto simp: node_ok_def ctx_ok_def)
  from assms(3) c(2) obtain n where n: "n < length c" "j = folder_id (c ! n)" by (auto simp: in_set_conv_nth)
  have drop: "anc_chain (folders t) (Some j) (drop n c)" using anc_chain_drop [OF c(1) n(1)] n(2) by simp
  then have p: "p = chain_path (drop n c)" using assms(4) anc_chain_det by (auto simp: folder_path_chain)
  have len: "length d = length c - n" if "anc_chain (folders t) k d" "chain_path d = p" for k d
    using chain_path_length [OF assms(1) that(1) drop] that(2) p by simp
  show "tc_folder_path x \<noteq> p" if "tc_folder_id x \<noteq> Some j"
  proof
    assume "tc_folder_path x = p"
    then have "chain_path c = p" using c(3) anc_chain_det [OF c(1)] by (auto simp: folder_path_chain)
    then have "n = 0" using len [OF c(1)] n(1) by simp
    with c(1) n that show False by (cases "tc_folder_id x") (auto elim!: anc_chain_SomeE dest!: find_folder)
  qed
  show "tc_path x \<noteq> p" if "tc_kind x = ''folder''"
    using folder_node_path [OF assms(1,2) that c(1)] len by fastforce
qed

text \<open>A folder condition by path is the disjunction of the conditions by ID over the folders with the path.\<close>

lemma folder_path_condition:
  assumes wf: "wf_folders (folders t)" and x: "node_ok t revision x" and "p \<noteq> ''/''"
  shows "folder_matches (RefPath p) rule request x strict
    \<longleftrightarrow> (\<exists>j. folder_path t (Some j) = Inr p \<and> folder_matches (RefId j) rule request x strict)"
proof -
  have ctx: "ctx_ok t revision x" using x by (simp add: node_ok_def)
  then obtain c where c: "anc_chain (folders t) (tc_folder_id x) c" by (auto simp: ctx_ok_def)
  have self: "tc_path x = p \<longleftrightarrow> folder_path t (Some (tc_node_id x)) = Inr p" if "tc_kind x = ''folder''"
    using folder_node_path [OF wf x that c] by (auto simp: folder_path_chain dest: anc_chain_det)
  have inside: "tc_folder_path x = p" if "tc_folder_id x = Some j" "folder_path t (Some j) = Inr p" for j
    using ctx that by (simp add: ctx_ok_def)
  note differs = ancestor_path_differs [OF wf x]
  show ?thesis
  proof
    assume "folder_matches (RefPath p) rule request x strict"
    then have match: "p \<in> set (tc_ancestor_paths x) \<or> tc_kind x = ''folder'' \<and> tc_path x = p"
      "strict \<Longrightarrow> tc_folder_path x \<noteq> p \<and> \<not> (tc_kind x = ''folder'' \<and> tc_path x = p)" by (auto simp: Let_def)
    show "\<exists>j. folder_path t (Some j) = Inr p \<and> folder_matches (RefId j) rule request x strict"
    proof (cases "p \<in> set (tc_ancestor_paths x)")
      case True
      then obtain j where "j \<in> set (tc_ancestor_ids x)" "folder_path t (Some j) = Inr p"
        using ancestor_paths_iff [OF ctx assms(3)] by blast
      with match(2) inside self show ?thesis by (auto simp: below_context_def)
    next
      case False
      with match self show ?thesis by (auto simp: below_context_def)
    qed
  next
    assume "\<exists>j. folder_path t (Some j) = Inr p \<and> folder_matches (RefId j) rule request x strict"
    then obtain j where j: "folder_path t (Some j) = Inr p"
      "j \<in> set (tc_ancestor_ids x) \<or> tc_kind x = ''folder'' \<and> tc_node_id x = j"
      "strict \<Longrightarrow> tc_folder_id x \<noteq> Some j \<and> \<not> (tc_kind x = ''folder'' \<and> tc_node_id x = j)"
      by (auto simp: below_context_def)
    show "folder_matches (RefPath p) rule request x strict"
    proof (cases "j \<in> set (tc_ancestor_ids x)")
      case True
      then have "p \<in> set (tc_ancestor_paths x)" using j(1) ancestor_paths_iff [OF ctx assms(3)] by blast
      moreover have "tc_folder_path x \<noteq> p \<and> \<not> (tc_kind x = ''folder'' \<and> tc_path x = p)" if strict
        using differs [OF True j(1)] j(3) [OF that] by blast
      ultimately show ?thesis by (auto simp: Let_def)
    next
      case False
      with j self show ?thesis by (auto simp: Let_def)
    qed
  qed
qed

lemma snapshot_node:
  assumes "load_snapshot (Some db) = Inr s" "req_resource_tree (snapshot_enrich s request) = Some target"
  shows "node_ok (db_tree db) (ts_revision s) target"
proof -
  from assms(2) obtain k where "map_of (ts_nodes s) k = Some target"
    by (auto simp: snapshot_enrich_def Let_def bind_eq_Some_conv)
  with load_snapshot_ok [OF assms(1)] show ?thesis using nodes_ok_lookup by blast
qed

lemma db_tree_wf: "wf_folders (folders (db_tree db)) = wf_folders (td_folders db)"
  "unique_siblings (folders (db_tree db)) = unique_siblings (td_folders db)"
  by (simp_all add: db_tree_def wf_folders_def unique_siblings_def distinct_map)

definition example_db :: tree_db where
  "example_db = \<lparr>td_tree_revision = Some 7, td_folders = folders example_tree,
     td_placements = placements example_tree,
     td_credentials = [\<lparr>cr_agent_id = ''ag_1'', cr_server_id = ''srv'', cr_revoked = False\<rparr>],
     td_agent_names = [(''ag_1'', ''bob'')],
     td_deployments = [\<lparr>dr_app_id = ''app_1'', dr_name = ''web'', dr_service_id = ''svc_1'',
        dr_runtime_agent_id = None\<rparr>],
     td_deleted_agents = []\<rparr>"

definition example_snapshot :: tree_snapshot where
  "example_snapshot = projr (load_snapshot (Some example_db))"

lemma example_db_facts:
  "load_snapshot (Some example_db) = Inr example_snapshot"
  "wf_folders (folders (db_tree example_db))" "unique_siblings (folders (db_tree example_db))"
  "folder_path (db_tree example_db) (Some ''folder_1'') = Inr ''/team''"
  by code_simp+

definition example_bob :: policy_tree_context where
  "example_bob = the (map_of (ts_nodes example_snapshot) ''ag_1'')"

definition example_tree_request :: policy_request where
  "example_tree_request = policy_request_new ''ws'' (SubjAgent ''srv'' ''ag_1'') ''agent.stop''
     (policy_resource_new ''agent'' ''ag_1'')"

lemma example_bob_enriched:
  "req_resource_tree (snapshot_enrich example_snapshot example_tree_request) = Some example_bob"
  by code_simp

definition example_tree_rule :: workspace_policy_rule where
  "example_tree_rule = \<lparr>rule_bindings = [], rule_conditions = [], rule_id = ''r'', rule_priority = 0,
     rule_effect = Allow, rule_subjects = [], rule_actions = [], rule_resources = []\<rparr>"

text \<open>
  A path prefix selects a subtree.  For a node of a loaded snapshot with a well-formed name, in
  a Tree with well-formed names and unique siblings, the node's path lies below the path of a
  folder exactly when that folder is one of the node's recorded ancestors, that is, lies on the
  parent chain the Tree has for it.
\<close>

theorem path_prefix_selects_subtree:
  assumes load: "load_snapshot (Some db) = Inr s"
    and wf: "wf_folders (folders (db_tree db))" "unique_siblings (folders (db_tree db))"
    and p: "folder_path (db_tree db) (Some i) = Inr p"
    and node: "map_of (ts_nodes s) k = Some x" "good_component (tc_name x)"
  shows "(below p (tc_path x) \<longleftrightarrow> i \<in> set (tc_ancestor_ids x))
    \<and> (\<exists>c. anc_chain (td_folders db) (tc_folder_id x) c \<and> set (tc_ancestor_ids x) = folder_id ` set c)"
proof -
  have "node_ok (db_tree db) (ts_revision s) x"
    using load_snapshot_ok [OF load] nodes_ok_lookup node(1) by blast
  then have x: "ctx_ok (db_tree db) (ts_revision s) x" by (simp add: node_ok_def)
  then obtain c where c: "anc_chain (folders (db_tree db)) (tc_folder_id x) c"
    "tc_ancestor_ids x = rev (map folder_id c)" by (auto simp: ctx_ok_def)
  have "distinct (map folder_id (folders (db_tree db)))" using wf(1) by (simp add: wf_folders_def)
  then have "anc_chain (td_folders db) (tc_folder_id x) c"
    using c(1) by (rule anc_chain_reorder) (simp add: db_tree_def)
  with c(2) below_iff_ancestor [OF wf x node(2) p] show ?thesis by auto
qed

theorem path_prefix_selects_subtree_witness:
  "below ''/team'' (tc_path example_bob) \<and> ''folder_1'' \<in> set (tc_ancestor_ids example_bob)"
proof -
  have "map_of (ts_nodes example_snapshot) ''ag_1'' = Some example_bob"
    "good_component (tc_name example_bob)" "''folder_1'' \<in> set (tc_ancestor_ids example_bob)"
    by code_simp+
  with path_prefix_selects_subtree [OF example_db_facts this(1,2)] show ?thesis by blast
qed

text \<open>
  Enrichment is a snapshot.  Both Tree contexts of an enriched request and the revision it
  carries come from one revision of the Tree, the one stored for the workspace when it was loaded,
  so a rule never compares a subject and a resource placed at different revisions.
\<close>

theorem enrich_is_one_revision:
  assumes "load_snapshot (Some db) = Inr s"
  shows "let r = snapshot_enrich s request in
    \<exists>rev. td_tree_revision db = Some (int rev) \<and> req_tree_revision r = Some rev
      \<and> (\<forall>x. req_subject_tree r = Some x \<or> req_resource_tree r = Some x \<longrightarrow> tc_tree_revision x = rev)"
proof -
  have "tc_tree_revision x = ts_revision s" if "map_of (ts_nodes s) i = Some x" for i x
    using load_snapshot_ok [OF assms] nodes_ok_lookup [OF _ that] by (auto simp: node_ok_def ctx_ok_def)
  with load_snapshot_ok [OF assms] show ?thesis
    by (auto simp: snapshot_enrich_def Let_def bind_eq_Some_conv)
qed

theorem enrich_is_one_revision_witness:
  "td_tree_revision example_db = Some 7
   \<and> req_tree_revision (snapshot_enrich example_snapshot example_tree_request) = Some 7"
  using enrich_is_one_revision [OF example_db_facts(1), of example_tree_request]
  by (auto simp: example_db_def Let_def)

end
