(* ===== verification/Policy_Engine.thy ===== *)
theory Policy_Engine
  imports Policy_Evaluator Policy_Tree
begin

text \<open>
  The Policy engine (\<open>PolicyEngine\<close> in \<open>policy.rs\<close>): enrichment with the Tree, the chain of
  evaluators, the check that the Tree did not move during a decision, the bounded log of denials
  that monitor mode let through, single and batch authorization and the stricter authorization of
  sensitive reads.  The engine's own state is that log; evaluators and the database act on a world
  of any type.
\<close>

section \<open>Operations\<close>

record decision_record =
  dec_workspace_id :: string
  dec_actor_kind :: policy_principal_kind
  dec_actor_id :: string
  dec_action :: string
  dec_resource_kind :: string
  dec_resource_id :: string
  dec_occurred_at :: instant
  dec_explanation :: policy_explanation

record 's tree_pool =
  tp_load :: "string \<Rightarrow> 's \<Rightarrow> tree_db option \<times> 's"
  tp_current :: "string \<Rightarrow> 's \<Rightarrow> (unit + int option) \<times> 's"

record 's policy_engine =
  en_evaluators :: "'s policy_evaluator list"
  en_default_decision :: policy_decision
  en_tree_pool :: "'s tree_pool option"
  en_utc_now :: "'s \<Rightarrow> instant"

record 's engine_state =
  es_records :: "decision_record list"
  es_world :: 's

definition on_world :: "('s \<Rightarrow> 'a \<times> 's) \<Rightarrow> 's engine_state \<Rightarrow> 'a \<times> 's engine_state" where
  "on_world f st = (case f (es_world st) of (x, s) \<Rightarrow> (x, st\<lparr>es_world := s\<rparr>))"

definition check_tree_revision ::
  "'s policy_engine \<Rightarrow> policy_request \<Rightarrow> 's engine_state \<Rightarrow> unit res \<times> 's engine_state" where
  "check_tree_revision en request st =
     (case (en_tree_pool en, req_tree_revision request) of
        (Some pool, Some revision) \<Rightarrow>
          (case on_world (tp_current pool (req_workspace_id request)) st of
             (Inl _, st) \<Rightarrow> (Inl (protocol_error_new ''policy_tree_unavailable''
                ''cannot validate current Tree revision''), st)
           | (Inr current, st) \<Rightarrow>
               (if Option.bind current (\<lambda>v. if 0 \<le> v then Some (nat v) else None) \<noteq> Some revision then
                  Inl (protocol_error_new ''policy_tree_changed''
                    ''Tree changed during authorization; retry request'')
                else Inr (), st))
      | _ \<Rightarrow> (Inr (), st))"

definition engine_enrich ::
  "'s policy_engine \<Rightarrow> policy_request \<Rightarrow> 's engine_state \<Rightarrow> policy_request res \<times> 's engine_state" where
  "engine_enrich en request st =
     (case en_tree_pool en of
        None \<Rightarrow> (Inr request, st)
      | Some pool \<Rightarrow>
          (case on_world (tp_load pool (req_workspace_id request)) st of
             (db, st) \<Rightarrow> (and_then (load_snapshot db) (\<lambda>s. Inr (snapshot_enrich s request)), st)))"

fun explain_loop ::
  "'s policy_engine \<Rightarrow> policy_request \<Rightarrow> 's policy_evaluator list \<Rightarrow> 's engine_state
   \<Rightarrow> policy_explanation res \<times> 's engine_state" where
  "explain_loop en request [] st =
     (Inr (explanation_baseline (en_default_decision en) (req_tree_revision request)), st)"
| "explain_loop en request (ev # evs) st =
     eff_bind (on_world (ev_explain ev request) st) (\<lambda>x st.
       case x of
         Some ex \<Rightarrow> (Inr (ex\<lparr>ex_tree_revision := req_tree_revision request\<rparr>), st)
       | None \<Rightarrow>
           eff_bind (on_world (ev_evaluate ev request) st) (\<lambda>e st.
             case e of
               Abstain \<Rightarrow> explain_loop en request evs st
             | Decide d \<Rightarrow> (Inr (explanation_baseline d (req_tree_revision request)), st)))"

definition explain_request ::
  "'s policy_engine \<Rightarrow> policy_request \<Rightarrow> 's engine_state \<Rightarrow> policy_explanation res \<times> 's engine_state" where
  "explain_request en request st =
     eff_bind (engine_enrich en request st) (\<lambda>r st. explain_loop en r (en_evaluators en) st)"

definition MAX_RECORDS :: nat where
  "MAX_RECORDS = 2048"

definition record_decision ::
  "'s policy_engine \<Rightarrow> policy_request \<Rightarrow> policy_explanation \<Rightarrow> 's engine_state \<Rightarrow> 's engine_state" where
  "record_decision en request ex st =
     (if ex_mode ex \<noteq> Monitor \<or> ex_computed_effect ex \<noteq> Deny then st
      else
        (case subject_parts (req_subject request) of (kind, i, _) \<Rightarrow>
          let r = \<lparr>dec_workspace_id = req_workspace_id request, dec_actor_kind = kind, dec_actor_id = i,
                   dec_action = req_action request, dec_resource_kind = res_kind (req_resource request),
                   dec_resource_id = res_id (req_resource request),
                   dec_occurred_at = en_utc_now en (es_world st), dec_explanation = ex\<rparr>;
              records = (if length (es_records st) = MAX_RECORDS then tl (es_records st) else es_records st)
          in st\<lparr>es_records := records @ [r]\<rparr>))"

definition decision_records :: "string \<Rightarrow> 's engine_state \<Rightarrow> decision_record list" where
  "decision_records w st = take 100 (filter (\<lambda>r. dec_workspace_id r = w) (rev (es_records st)))"

definition engine_new ::
  "policy_decision \<Rightarrow> 's policy_evaluator list \<Rightarrow> ('s \<Rightarrow> instant) \<Rightarrow> 's policy_engine" where
  "engine_new d evs now = \<lparr>en_evaluators = evs, en_default_decision = d, en_tree_pool = None, en_utc_now = now\<rparr>"

definition engine_allow_all :: "('s \<Rightarrow> instant) \<Rightarrow> 's policy_engine" where
  "engine_allow_all now = engine_new DAllow [] now"

definition engine_durable ::
  "'e policy_env \<Rightarrow> 'e policy_world tree_pool \<Rightarrow> ('e policy_world \<Rightarrow> instant) \<Rightarrow> 'e policy_world policy_engine" where
  "engine_durable env pool now =
     (engine_new DAllow [durable_evaluator env] now)\<lparr>en_tree_pool := Some pool\<rparr>"

definition engine_durable_with_provider ::
  "'e policy_env \<Rightarrow> 'e policy_world tree_pool \<Rightarrow> ('e policy_world \<Rightarrow> instant) \<Rightarrow> 'e policy_world policy_engine" where
  "engine_durable_with_provider env pool now =
     \<lparr>en_evaluators = [provider_evaluator env, durable_evaluator env], en_default_decision = DAllow,
      en_tree_pool = Some pool, en_utc_now = now\<rparr>"

fun policy_revision_loop :: "'s policy_evaluator list \<Rightarrow> string \<Rightarrow> 's engine_state \<Rightarrow> policy_revision \<times> 's engine_state" where
  "policy_revision_loop [] w st = (Unrevisioned, st)"
| "policy_revision_loop (ev # evs) w st =
     (case on_world (ev_revision ev w) st of
        (Unrevisioned, st) \<Rightarrow> policy_revision_loop evs w st
      | (r, st) \<Rightarrow> (r, st))"

definition engine_policy_revision ::
  "'s policy_engine \<Rightarrow> string \<Rightarrow> 's engine_state \<Rightarrow> policy_revision \<times> 's engine_state" where
  "engine_policy_revision en w st = policy_revision_loop (en_evaluators en) w st"

fun authorize_loop ::
  "'s policy_engine \<Rightarrow> policy_request \<Rightarrow> 's policy_evaluator list \<Rightarrow> 's engine_state
   \<Rightarrow> unit res \<times> 's engine_state" where
  "authorize_loop en request [] st = (decision_into_result (en_default_decision en), st)"
| "authorize_loop en request (ev # evs) st =
     eff_bind (on_world (ev_explain ev request) st) (\<lambda>x st.
       case x of
         Some ex \<Rightarrow>
           eff_bind (check_tree_revision en request st) (\<lambda>_ st.
             (decision_into_result (into_decision ex), record_decision en request ex st))
       | None \<Rightarrow>
           eff_bind (on_world (ev_evaluate ev request) st) (\<lambda>e st.
             case e of
               Abstain \<Rightarrow> authorize_loop en request evs st
             | Decide d \<Rightarrow> (decision_into_result d, st)))"

definition authorize ::
  "'s policy_engine \<Rightarrow> policy_request \<Rightarrow> 's engine_state \<Rightarrow> unit res \<times> 's engine_state" where
  "authorize en request st =
     eff_bind (engine_enrich en request st) (\<lambda>r st. authorize_loop en r (en_evaluators en) st)"

definition sensitive_read_baseline :: "bool \<Rightarrow> unit res" where
  "sensitive_read_baseline allowed =
     (if allowed then Inr ()
      else Inl (protocol_error_new ''policy_denied''
        ''workspace audit requires an owner or an explicit enforced allow rule''))"

fun sensitive_loop ::
  "'s policy_engine \<Rightarrow> policy_request \<Rightarrow> bool \<Rightarrow> 's policy_evaluator list \<Rightarrow> 's engine_state
   \<Rightarrow> unit res \<times> 's engine_state" where
  "sensitive_loop en request role_allowed [] st =
     eff_bind (decision_into_result (en_default_decision en), st) (\<lambda>_ st.
     eff_bind (check_tree_revision en request st) (\<lambda>_ st.
       (sensitive_read_baseline role_allowed, st)))"
| "sensitive_loop en request role_allowed (ev # evs) st =
     eff_bind (on_world (ev_explain ev request) st) (\<lambda>x st.
       case x of
         Some ex \<Rightarrow>
           eff_bind (check_tree_revision en request st) (\<lambda>_ st.
             let st = record_decision en request ex st;
                 explicitly_allowed = (ex_mode ex = Enforce \<and> ex_matched_rule_id ex \<noteq> None
                    \<and> ex_effective_decision ex = Allow) in
             eff_bind (decision_into_result (into_decision ex), st) (\<lambda>_ st.
               (sensitive_read_baseline (role_allowed \<or> explicitly_allowed), st)))
       | None \<Rightarrow>
           eff_bind (on_world (ev_evaluate ev request) st) (\<lambda>e st.
             case e of
               Abstain \<Rightarrow> sensitive_loop en request role_allowed evs st
             | Decide d \<Rightarrow>
                 eff_bind (check_tree_revision en request st) (\<lambda>_ st.
                 eff_bind (decision_into_result d, st) (\<lambda>_ st.
                   (sensitive_read_baseline role_allowed, st)))))"

definition authorize_sensitive_read ::
  "'s policy_engine \<Rightarrow> policy_request \<Rightarrow> bool \<Rightarrow> 's engine_state \<Rightarrow> unit res \<times> 's engine_state" where
  "authorize_sensitive_read en request role_allowed st =
     eff_bind (engine_enrich en request st) (\<lambda>r st.
       sensitive_loop en r role_allowed (en_evaluators en) st)"

subsection \<open>Batches\<close>

record batch_denial =
  bd_request_index :: nat
  bd_error :: protocol_error

definition at_zero :: "protocol_error \<Rightarrow> batch_denial" where
  "at_zero e = \<lparr>bd_request_index = 0, bd_error = e\<rparr>"

definition map_err_fst :: "('e \<Rightarrow> 'f) \<Rightarrow> ('e + 'a) \<times> 's \<Rightarrow> ('f + 'a) \<times> 's" where
  "map_err_fst g m = (case m of (r, s) \<Rightarrow> (map_err g r, s))"

text \<open>The loop that records the explanations of requests still unresolved.\<close>

fun record_batch ::
  "'s policy_engine \<Rightarrow> policy_request list \<Rightarrow> bool list \<Rightarrow> policy_explanation list \<Rightarrow> 's engine_state
   \<Rightarrow> 's engine_state" where
  "record_batch en (r # rs) (u # us) (x # xs) st =
     record_batch en rs us xs (if u then record_decision en r x st else st)"
| "record_batch en _ _ _ st = st"

text \<open>The loop that applies the evaluations, from \<open>index\<close> on.\<close>

fun apply_evaluations ::
  "nat \<Rightarrow> bool list \<Rightarrow> policy_evaluation list \<Rightarrow> batch_denial + bool list" where
  "apply_evaluations index (u # us) (e # es) =
     (if \<not> u then and_then (apply_evaluations (Suc index) us es) (\<lambda>vs. Inr (u # vs))
      else (case e of
          Abstain \<Rightarrow> and_then (apply_evaluations (Suc index) us es) (\<lambda>vs. Inr (True # vs))
        | Decide DAllow \<Rightarrow> and_then (apply_evaluations (Suc index) us es) (\<lambda>vs. Inr (False # vs))
        | Decide (DDeny d) \<Rightarrow> Inl \<lparr>bd_request_index = index, bd_error = denial_into_error d\<rparr>))"
| "apply_evaluations index us es = Inr us"

fun apply_default :: "policy_decision \<Rightarrow> nat \<Rightarrow> bool list \<Rightarrow> batch_denial + unit" where
  "apply_default d index [] = Inr ()"
| "apply_default d index (u # us) =
     (if \<not> u then apply_default d (Suc index) us
      else (case d of
          DDeny x \<Rightarrow> Inl \<lparr>bd_request_index = index, bd_error = denial_into_error x\<rparr>
        | DAllow \<Rightarrow> apply_default d (Suc index) us))"

fun batch_loop ::
  "'s policy_engine \<Rightarrow> policy_request list \<Rightarrow> bool list \<Rightarrow> nat option \<Rightarrow> 's policy_evaluator list
   \<Rightarrow> 's engine_state \<Rightarrow> (batch_denial + bool list \<times> nat option) \<times> 's engine_state" where
  "batch_loop en requests unresolved revision [] st = (Inr (unresolved, revision), st)"
| "batch_loop en requests unresolved revision (ev # evs) st =
     (if list_all Not unresolved then (Inr (unresolved, revision), st)
      else
        eff_bind (map_err_fst at_zero (on_world (ev_evaluate_batch ev requests) st)) (\<lambda>batch st.
        if length (be_evaluations batch) \<noteq> length requests then
          (Inl (at_zero (protocol_error_new ''policy_batch_invalid''
             ''a policy evaluator returned an invalid batch result'')), st)
        else if is_some_and (be_revision batch) (\<lambda>b. is_some_and revision (\<lambda>current. current \<noteq> b)) then
          (Inl (at_zero (protocol_error_new ''policy_batch_revision_conflict''
             ''policy evaluators did not use one pinned revision'')), st)
        else
          let revision' = (case be_revision batch of Some b \<Rightarrow> Some b | None \<Rightarrow> revision) in
          eff_bind (map_err_fst at_zero (check_tree_revision en (hd requests) st)) (\<lambda>_ st.
          let st = record_batch en requests unresolved (be_explanations batch) st in
          eff_bind (apply_evaluations 0 unresolved (be_evaluations batch), st) (\<lambda>unresolved' st.
            batch_loop en requests unresolved' revision' evs st))))"

definition batch_enrich ::
  "'s policy_engine \<Rightarrow> policy_request list \<Rightarrow> 's engine_state \<Rightarrow> policy_request list res \<times> 's engine_state" where
  "batch_enrich en requests st =
     (case en_tree_pool en of
        None \<Rightarrow> (Inr requests, st)
      | Some pool \<Rightarrow>
          (case on_world (tp_load pool (req_workspace_id (hd requests))) st of
             (db, st) \<Rightarrow> (and_then (load_snapshot db) (\<lambda>s. Inr (map (snapshot_enrich s) requests)), st)))"

definition authorize_batch ::
  "'s policy_engine \<Rightarrow> policy_request list \<Rightarrow> 's engine_state \<Rightarrow> (batch_denial + nat option) \<times> 's engine_state" where
  "authorize_batch en requests st =
     (if requests = [] then (Inr None, st)
      else
        eff_bind (map_err_fst at_zero (batch_enrich en requests st)) (\<lambda>requests st.
        if list_ex (\<lambda>r. req_workspace_id r \<noteq> req_workspace_id (hd requests)) requests then
          (Inl (at_zero (protocol_error_new ''policy_batch_workspace_mismatch''
             ''a policy batch must belong to one workspace'')), st)
        else
          eff_bind (batch_loop en requests (replicate (length requests) True) None (en_evaluators en) st)
            (\<lambda>(unresolved, revision) st.
              (and_then (apply_default (en_default_decision en) 0 unresolved) (\<lambda>_. Inr revision), st))))"

section \<open>The log of monitored denials\<close>

definition log_ok :: "'s engine_state \<Rightarrow> bool" where
  "log_ok st \<longleftrightarrow> length (es_records st) \<le> MAX_RECORDS
     \<and> (\<forall>r \<in> set (es_records st). ex_mode (dec_explanation r) = Monitor
          \<and> ex_computed_effect (dec_explanation r) = Deny)"

lemma log_ok_world [simp]: "log_ok (st\<lparr>es_world := s\<rparr>) = log_ok st"
  by (simp add: log_ok_def)

lemma on_world_log [simp]: "log_ok (snd (on_world f st)) = log_ok st"
  by (simp add: on_world_def split: prod.splits)

lemma on_world_log_eq: "on_world f st = (x, st') \<Longrightarrow> log_ok st' = log_ok st"
  by (metis on_world_log snd_conv)

lemma eff_bind_inv:
  assumes "P (snd m)" and "\<And>x s. P s \<Longrightarrow> P (snd (f x s))"
  shows "P (snd (eff_bind m f))"
  using assms by (cases m; cases "fst m") (auto simp: eff_bind_def)

lemma record_log: "log_ok st \<Longrightarrow> log_ok (record_decision en request ex st)"
proof -
  assume st: "log_ok st"
  have "length (tl (es_records st)) < MAX_RECORDS" if "length (es_records st) = MAX_RECORDS"
    using that by (simp add: MAX_RECORDS_def)
  moreover have "set (tl (es_records st)) \<subseteq> set (es_records st)" by (cases "es_records st") auto
  ultimately show ?thesis
    using st by (auto simp: log_ok_def record_decision_def Let_def split: prod.splits)
qed

lemma check_tree_log [simp]: "log_ok (snd (check_tree_revision en request st)) = log_ok st"
  by (auto simp: check_tree_revision_def dest: on_world_log_eq split: option.splits prod.splits sum.splits)

lemma enrich_log [simp]: "log_ok (snd (engine_enrich en request st)) = log_ok st"
  by (auto simp: engine_enrich_def dest: on_world_log_eq split: option.splits prod.splits)

lemma batch_enrich_log [simp]: "log_ok (snd (batch_enrich en requests st)) = log_ok st"
  by (auto simp: batch_enrich_def dest: on_world_log_eq split: option.splits prod.splits)

lemma map_err_fst_snd [simp]: "snd (map_err_fst g m) = snd m"
  by (simp add: map_err_fst_def split: prod.splits)

lemma record_batch_log: "log_ok st \<Longrightarrow> log_ok (record_batch en rs us xs st)"
  by (induction en rs us xs st rule: record_batch.induct) (auto simp: record_log)

lemma explain_loop_log: "log_ok st \<Longrightarrow> log_ok (snd (explain_loop en request evs st))"
  by (induction evs arbitrary: st)
     (auto intro!: eff_bind_inv [where P = log_ok] split: option.splits policy_evaluation.splits)

lemma authorize_loop_log: "log_ok st \<Longrightarrow> log_ok (snd (authorize_loop en request evs st))"
proof (induction evs arbitrary: st)
  case (Cons ev evs)
  have none: "log_ok (snd (case e of Abstain \<Rightarrow> authorize_loop en request evs s
             | Decide d \<Rightarrow> (decision_into_result d, s)))" if "log_ok s" for e s
    using Cons.IH [OF that] that by (cases e) simp_all
  show ?case unfolding authorize_loop.simps
    by (rule eff_bind_inv)
       (use Cons.prems none in \<open>simp_all add: eff_bind_inv [where P = log_ok] record_log
          split: option.splits\<close>)
qed simp

lemma sensitive_loop_log: "log_ok st \<Longrightarrow> log_ok (snd (sensitive_loop en request role evs st))"
proof (induction evs arbitrary: st)
  case Nil
  then show ?case by (simp add: eff_bind_inv [where P = log_ok])
next
  case (Cons ev evs)
  have base: "log_ok (snd (eff_bind (r, s) (\<lambda>_ s. (b, s))))" if "log_ok s" for r :: "unit res" and b :: "unit res" and s
    using that by (simp add: eff_bind_inv [where P = log_ok])
  have none: "log_ok (snd (case e of
               Abstain \<Rightarrow> sensitive_loop en request role evs s
             | Decide d \<Rightarrow> eff_bind (check_tree_revision en request s) (\<lambda>_ st.
                 eff_bind (decision_into_result d, st) (\<lambda>_ st. (sensitive_read_baseline role, st)))))"
    if "log_ok s" for e s
    using Cons.IH [OF that] that by (cases e) (simp_all add: eff_bind_inv [where P = log_ok] base)
  show ?case unfolding sensitive_loop.simps
    by (rule eff_bind_inv)
       (use Cons.prems none base in \<open>simp_all add: eff_bind_inv [where P = log_ok] record_log Let_def
          split: option.splits\<close>)
qed

lemma batch_loop_log: "log_ok st \<Longrightarrow> log_ok (snd (batch_loop en requests us r evs st))"
  by (induction evs arbitrary: us r st)
     (auto intro!: eff_bind_inv [where P = log_ok] record_batch_log simp: Let_def)

lemma revision_loop_log: "log_ok st \<Longrightarrow> log_ok (snd (policy_revision_loop evs w st))"
proof (induction evs arbitrary: st)
  case (Cons ev evs)
  show ?case using Cons.prems Cons.IH
    by (auto dest: on_world_log_eq split: prod.splits policy_revision.splits)
qed simp

inductive engine_step :: "'s policy_engine \<Rightarrow> 's engine_state \<Rightarrow> 's engine_state \<Rightarrow> bool" for en where
  step_authorize: "engine_step en st (snd (authorize en request st))"
| step_sensitive: "engine_step en st (snd (authorize_sensitive_read en request role st))"
| step_batch: "engine_step en st (snd (authorize_batch en requests st))"
| step_explain: "engine_step en st (snd (explain_request en request st))"
| step_revision: "engine_step en st (snd (engine_policy_revision en w st))"
| step_world: "engine_step en st (st\<lparr>es_world := s\<rparr>)"

definition engine_init :: "'s engine_state \<Rightarrow> bool" where
  "engine_init st \<longleftrightarrow> es_records st = []"

interpretation engine_sys: inv_system engine_init "engine_step en" log_ok
proof
  fix st st'
  assume "log_ok st" "engine_step en st st'"
  from this(2,1) show "log_ok st'"
    by (induction rule: engine_step.induct)
       (auto simp: authorize_def authorize_sensitive_read_def authorize_batch_def explain_request_def
          engine_policy_revision_def revision_loop_log
        intro!: eff_bind_inv [where P = log_ok] authorize_loop_log sensitive_loop_log batch_loop_log
          explain_loop_log)
qed (simp add: engine_init_def log_ok_def)

section \<open>Properties\<close>

text \<open>
  The decision log is bounded and holds only what it is for.  After any sequence of engine
  operations it has at most 2048 records, each of a denial that monitor mode let through, and the
  list shown for a workspace has at most 100 of them, all of that workspace, newest first.
\<close>

theorem decision_log_bounded:
  assumes "reach engine_init (engine_step en) st"
  shows "length (es_records st) \<le> 2048 \<and> length (decision_records w st) \<le> 100
    \<and> (\<forall>r \<in> set (es_records st). ex_mode (dec_explanation r) = Monitor
          \<and> ex_computed_effect (dec_explanation r) = Deny)
    \<and> (\<forall>r \<in> set (decision_records w st). dec_workspace_id r = w)
    \<and> subseq (decision_records w st) (rev (es_records st))"
proof -
  let ?xs = "filter (\<lambda>r. dec_workspace_id r = w) (rev (es_records st))"
  have "subseq (take 100 ?xs) ?xs" by (simp add: prefix_imp_subseq take_is_prefix)
  also have "subseq ?xs (rev (es_records st))" by simp
  finally show ?thesis
    using engine_sys.reach_inv [OF assms]
    by (auto simp: log_ok_def decision_records_def MAX_RECORDS_def dest: in_set_takeD)
qed

definition example_pool :: "'s tree_pool" where
  "example_pool = \<lparr>tp_load = (\<lambda>_ s. (Some example_db, s)), tp_current = (\<lambda>_ s. (Inr (Some 7), s))\<rparr>"

definition example_monitor :: "unit policy_evaluator" where
  "example_monitor =
     (let compiled = (\<lambda>_ s. (Inr (Some (compile_policy (example_policy\<lparr>wp_mode := Monitor\<rparr>))), s)) in
      \<lparr>ev_explain = (\<lambda>r s. (Inr (Some (explain_policy (compile_policy (example_policy\<lparr>wp_mode := Monitor\<rparr>)) r)), s)),
       ev_evaluate = source_evaluate compiled, ev_revision = source_revision compiled,
       ev_evaluate_batch = source_evaluate_batch compiled\<rparr>)"

theorem decision_log_bounded_witness:
  "let en = engine_new DAllow [example_monitor] (\<lambda>_. 5);
       st = snd (authorize en example_request \<lparr>es_records = [], es_world = ()\<rparr>)
   in map dec_actor_id (es_records st) = [''ag_1''] \<and> length (es_records st) \<le> 2048"
proof -
  let ?en = "engine_new DAllow [example_monitor] (\<lambda>_. 5)"
  let ?st = "snd (authorize ?en example_request \<lparr>es_records = [], es_world = ()\<rparr>)"
  have "reach engine_init (engine_step ?en) \<lparr>es_records = [], es_world = ()\<rparr>"
    by (rule reach_init) (simp add: engine_init_def)
  then have "reach engine_init (engine_step ?en) ?st" by (rule reach_step) (rule step_authorize)
  from decision_log_bounded [OF this] have "length (es_records ?st) \<le> 2048" by blast
  moreover have "map dec_actor_id (es_records ?st) = [''ag_1'']" by code_simp
  ultimately show ?thesis by (simp add: Let_def)
qed

text \<open>
  The run of a sensitive read by the production engine: the enriched request is first shown to the
  provider evaluator, whose policy source is asked for an explanation and, when it has no policy,
  once more for a decision; only then the stored document is compiled.  The sources are asked in the
  states the run has reached.
\<close>

definition applied_policy ::
  "'e policy_env \<Rightarrow> string \<Rightarrow> 'e policy_world \<Rightarrow> compiled_policy \<Rightarrow> 'e policy_world \<Rightarrow> bool" where
  "applied_policy env w s0 p s \<longleftrightarrow> provider_compiled env w s0 = (Inr (Some p), s)
     \<or> (\<exists>s1 s2. provider_compiled env w s0 = (Inr None, s1) \<and> provider_compiled env w s1 = (Inr None, s2)
          \<and> durable_compiled env w s2 = (Inr (Some p), s))"

definition granting_rule :: "compiled_policy \<Rightarrow> policy_request \<Rightarrow> bool" where
  "granting_rule p r \<longleftrightarrow> cp_mode p = Enforce
     \<and> (\<exists>rules rule. cp_rules_by_action p (req_action r) = Some rules \<and> find (rule_matches p r) rules = Some rule
          \<and> rule_effect rule = Allow)"

lemma granting_rule_explained:
  "ex_mode (explain_policy p r) = Enforce \<and> ex_matched_rule_id (explain_policy p r) \<noteq> None
     \<and> ex_effective_decision (explain_policy p r) = Allow \<longleftrightarrow> granting_rule p r"
  by (auto simp: explain_policy_def granting_rule_def Let_def split: option.splits)

lemma check_tree_grant:
  assumes "en_tree_pool en = Some pool" "req_tree_revision r = Some revision"
  shows "check_tree_revision en r st = (Inr (), st')
    \<longleftrightarrow> tp_current pool (req_workspace_id r) (es_world st) = (Inr (Some (int revision)), es_world st')
        \<and> es_records st' = es_records st"
  using assms
  by (cases st; cases st'; cases "tp_current pool (req_workspace_id r) (es_world st)")
    (auto simp: check_tree_revision_def on_world_def bind_eq_Some_conv split: sum.splits if_splits)

lemma explained_grant:
  assumes "en_tree_pool en = Some pool" "req_tree_revision r = Some revision"
    and "ex_mode ex = ex_mode (explain_policy p r)" "ex_matched_rule_id ex = ex_matched_rule_id (explain_policy p r)"
    and "ex_effective_decision ex = ex_effective_decision (explain_policy p r)"
    and "ex_computed_effect ex = ex_computed_effect (explain_policy p r)"
  shows "eff_bind (check_tree_revision en r st) (\<lambda>_ st.
             let st = record_decision en r ex st;
                 explicitly_allowed = (ex_mode ex = Enforce \<and> ex_matched_rule_id ex \<noteq> None
                    \<and> ex_effective_decision ex = Allow) in
             eff_bind (decision_into_result (into_decision ex), st) (\<lambda>_ st.
               (sensitive_read_baseline (False \<or> explicitly_allowed), st))) = (Inr (), st')
    \<longleftrightarrow> granting_rule p r \<and> es_records st' = es_records st
        \<and> tp_current pool (req_workspace_id r) (es_world st) = (Inr (Some (int revision)), es_world st')"
proof -
  have g: "ex_mode ex = Enforce \<and> ex_matched_rule_id ex \<noteq> None \<and> ex_effective_decision ex = Allow \<longleftrightarrow> granting_rule p r"
    using assms(3-5) granting_rule_explained [of p r] by simp
  have "record_decision en r ex s = s" "decision_into_result (into_decision ex) = Inr ()" if "granting_rule p r" for s
    using g that by (simp_all add: record_decision_def into_decision_def decision_into_result_def)
  then show ?thesis
    using g check_tree_grant [OF assms(1,2)]
    by (auto simp: eff_bind_Inr Let_def sensitive_read_baseline_def split: if_splits)
qed

text \<open>One evaluator of the loop, whose source of policies is \<open>compiled\<close>.\<close>

lemma sensitive_source:
  assumes "en_tree_pool en = Some pool" "req_tree_revision r = Some revision"
    and ex: "\<And>s. ev_explain ev r s = eff_bind (compiled (req_workspace_id r) s) (\<lambda>policy s.
        (Inr (map_option (\<lambda>p. (explain_policy p r)\<lparr>ex_source := src s p\<rparr>) policy), s))"
    and ev: "ev_evaluate ev = source_evaluate compiled"
  shows "sensitive_loop en r False (ev # evs) st = (Inr (), st') \<longleftrightarrow>
    (\<exists>p s. compiled (req_workspace_id r) (es_world st) = (Inr (Some p), s) \<and> granting_rule p r
       \<and> es_records st' = es_records st \<and> tp_current pool (req_workspace_id r) s = (Inr (Some (int revision)), es_world st'))
    \<or> (\<exists>s1 s2. compiled (req_workspace_id r) (es_world st) = (Inr None, s1) \<and> compiled (req_workspace_id r) s1 = (Inr None, s2)
       \<and> sensitive_loop en r False evs (st\<lparr>es_world := s2\<rparr>) = (Inr (), st'))"
proof -
  obtain c s1 where c: "compiled (req_workspace_id r) (es_world st) = (c, s1)" by force
  obtain c2 s2 where c2: "compiled (req_workspace_id r) s1 = (c2, s2)" by force
  consider (fail) e where "c = Inl e" | (none) "c = Inr None" | (some) p where "c = Inr (Some p)"
    by (metis not_Some_eq sum.exhaust)
  then show ?thesis
  proof cases
    case fail
    with c show ?thesis by (simp add: ex on_world_def eff_bind_def)
  next
    case none
    have asked: "on_world (ev_explain ev r) st = (Inr None, st\<lparr>es_world := s1\<rparr>)"
      using c none by (simp add: ex on_world_def eff_bind_def)
    consider (fail) e where "c2 = Inl e" | (none) "c2 = Inr None" | (some) p where "c2 = Inr (Some p)"
      by (metis not_Some_eq sum.exhaust)
    then show ?thesis
    proof cases
      case fail
      with c2 have "on_world (ev_evaluate ev r) (st\<lparr>es_world := s1\<rparr>) = (Inl e, st\<lparr>es_world := s2\<rparr>)"
        by (simp add: ev on_world_def source_evaluate_def eff_bind_def)
      with c c2 none fail asked show ?thesis by (simp add: eff_bind_def)
    next
      case none
      with c2 have "on_world (ev_evaluate ev r) (st\<lparr>es_world := s1\<rparr>) = (Inr Abstain, st\<lparr>es_world := s2\<rparr>)"
        by (simp add: ev on_world_def source_evaluate_def eff_bind_def)
      with c c2 \<open>c = Inr None\<close> none asked show ?thesis by (simp add: eff_bind_def)
    next
      case some
      with c2 have "on_world (ev_evaluate ev r) (st\<lparr>es_world := s1\<rparr>) = (Inr (Decide (evaluate_policy p r)), st\<lparr>es_world := s2\<rparr>)"
        by (simp add: ev on_world_def source_evaluate_def eff_bind_def)
      with c c2 none some asked show ?thesis
        by (auto simp: eff_bind_def sensitive_read_baseline_def split: prod.splits sum.splits)
    qed
  next
    case some
    let ?x = "(explain_policy p r)\<lparr>ex_source := src s1 p\<rparr>"
    have "on_world (ev_explain ev r) st = (Inr (Some ?x), st\<lparr>es_world := s1\<rparr>)"
      using c some by (simp add: ex on_world_def eff_bind_def)
    then have "sensitive_loop en r False (ev # evs) st = (Inr (), st') \<longleftrightarrow> granting_rule p r
        \<and> es_records st' = es_records st \<and> tp_current pool (req_workspace_id r) s1 = (Inr (Some (int revision)), es_world st')"
      using explained_grant [OF assms(1,2), of ?x p "st\<lparr>es_world := s1\<rparr>" st'] by (simp add: eff_bind_def [of "(Inr _, _)"])
    with c some show ?thesis by simp
  qed
qed

lemma provider_explain_source:
  "ev_explain (provider_evaluator env) r s = eff_bind (provider_compiled env (req_workspace_id r) s) (\<lambda>policy s.
     (Inr (map_option (\<lambda>p. (explain_policy p r)\<lparr>ex_source := (case pw_provider s (req_workspace_id r) of
                None \<Rightarrow> ''provider''
              | Some cached \<Rightarrow>
                  if cpp_last_error cached \<noteq> None then
                    (if cpp_loaded_at cached \<noteq> None then ''provider_stale'' else ''provider_fail_open'')
                  else ''provider'')\<rparr>) policy), s))"
  by (simp add: provider_evaluator_def provider_explain_def eff_bind_def Let_def split: prod.splits sum.splits option.splits)

lemma durable_explain_source:
  "ev_explain (durable_evaluator env) r s = eff_bind (durable_compiled env (req_workspace_id r) s) (\<lambda>policy s.
     (Inr (map_option (\<lambda>p. (explain_policy p r)\<lparr>ex_source := ''workspace_policy''\<rparr>) policy), s))"
  by (auto simp: durable_evaluator_def durable_explain_def explain_policy_def Let_def)

lemma sensitive_end: "sensitive_loop en r False [] st \<noteq> (Inr (), st')"
  by (auto simp: eff_bind_Inr sensitive_read_baseline_def)

text \<open>
  C2: A sensitive read by someone whose role does not allow it is granted by the production engine
  exactly when, in the run that grants it, the policy applied to the enriched request (the one of
  the bound provider, or the stored document once the provider evaluator abstained twice) is
  enforced, the first matching rule for the action allows, and the Tree revision the request was
  enriched at is still the current one when it is read after that.  A monitor-mode policy, an action
  default, an abstention of every evaluator and the fail-open fallback grant nothing.
\<close>

theorem sensitive_read_needs_enforced_rule:
  "authorize_sensitive_read (engine_durable_with_provider env pool now) request False st = (Inr (), st') \<longleftrightarrow>
    (\<exists>r st0 revision p s.
      engine_enrich (engine_durable_with_provider env pool now) request st = (Inr r, st0)
      \<and> req_tree_revision r = Some revision
      \<and> applied_policy env (req_workspace_id r) (es_world st0) p s \<and> granting_rule p r
      \<and> tp_current pool (req_workspace_id r) s = (Inr (Some (int revision)), es_world st')
      \<and> es_records st' = es_records st0)"
proof -
  let ?en = "engine_durable_with_provider env pool now"
  have pool: "en_tree_pool ?en = Some pool" by (simp add: engine_durable_with_provider_def)
  have "sensitive_loop ?en r False (en_evaluators ?en) st0 = (Inr (), st') \<longleftrightarrow>
      (\<exists>p s. applied_policy env (req_workspace_id r) (es_world st0) p s \<and> granting_rule p r
        \<and> tp_current pool (req_workspace_id r) s = (Inr (Some (int revision)), es_world st')
        \<and> es_records st' = es_records st0)"
    if rev: "req_tree_revision r = Some revision" for r st0 revision
  proof -
    have evs: "en_evaluators ?en = [provider_evaluator env, durable_evaluator env]"
      by (simp add: engine_durable_with_provider_def)
    have "ev_evaluate (provider_evaluator env) = source_evaluate (provider_compiled env)"
      "ev_evaluate (durable_evaluator env) = source_evaluate (durable_compiled env)"
      by (simp_all add: provider_evaluator_def durable_evaluator_def)
    note prov = sensitive_source [where ev = "provider_evaluator env" and compiled = "provider_compiled env",
        OF pool rev provider_explain_source [of env r] this(1)]
      and dur = sensitive_source [where ev = "durable_evaluator env" and compiled = "durable_compiled env",
        OF pool rev durable_explain_source [of env r] this(2)]
    show ?thesis unfolding evs prov dur applied_policy_def using sensitive_end [of ?en r] by auto
  qed
  note loop = this
  obtain e st0 where e: "engine_enrich ?en request st = (e, st0)" by force
  show ?thesis
  proof (cases e)
    case (Inl a)
    with e show ?thesis by (simp add: authorize_sensitive_read_def eff_bind_def)
  next
    case (Inr r)
    with e obtain revision where "req_tree_revision r = Some revision"
      by (auto simp: engine_enrich_def pool res_simps snapshot_enrich_def Let_def split: prod.splits)
    with e Inr loop show ?thesis by (simp add: authorize_sensitive_read_def eff_bind_def)
  qed
qed

text \<open>A workspace without provider whose stored document allows Agents of a group to read the audit.\<close>

definition example_audit_document :: workspace_policy_document where
  "example_audit_document = example_document\<lparr>doc_rules :=
     [example_rule\<lparr>rule_bindings := [], rule_conditions := [], rule_effect := Allow\<rparr>]\<rparr>"

definition example_audit_env :: "nat policy_env" where
  "example_audit_env = (example_env [])\<lparr>pe_codec := example_codec\<lparr>cd_decode := \<lambda>_. Inr example_audit_document\<rparr>,
     pe_db := (\<lambda>e. (Inr (example_policy_tables\<lparr>pt_policies := [''ws'' \<mapsto>
        \<lparr>prow_workspace_id = ''ws'', prow_revision = 3, prow_schema_version = 2, prow_mode = ''enforce'',
         prow_document = ''{}'', prow_updated_at = ''t'', prow_updated_by_kind = ''human'',
         prow_updated_by_id = ''usr''\<rparr>]\<rparr>), e))\<rparr>"

definition example_audit_policy :: workspace_policy where
  "example_audit_policy = \<lparr>wp_workspace_id = ''ws'', wp_revision = 3, wp_mode = Enforce,
     wp_document = example_audit_document, wp_updated_at = 1,
     wp_updated_by = \<lparr>pr_kind = Human, pr_id = ''usr''\<rparr>\<rparr>"

definition example_unbound_world :: "nat policy_world" where
  "example_unbound_world = put_provider ''ws'' \<lparr>cpp_app_id = [], cpp_checked_at = 7, cpp_loaded_at = None,
     cpp_policy = None, cpp_last_error = None\<rparr> example_world"

lemma example_audit_compiled:
  "provider_compiled example_audit_env ''ws'' example_world = (Inr None, example_unbound_world)"
  "provider_compiled example_audit_env ''ws'' example_unbound_world = (Inr None, example_unbound_world)"
  "\<exists>s. durable_compiled example_audit_env ''ws'' example_unbound_world
      = (Inr (Some (compile_policy example_audit_policy)), s)"
  by (simp_all add: provider_compiled_def durable_compiled_def fresh_provider_def example_audit_env_def
      example_env_def example_unbound_world_def example_world_def put_provider_def provider_get_def
      policy_get_def workspace_policy_from_row_def parse_policy_mode_def parse_actor_kind_def
      example_policy_tables_def example_audit_policy_def example_audit_document_def example_document_def
      example_codec_def map_err_def u32_max_def cached_provider_result_def Let_def)

theorem sensitive_read_needs_enforced_rule_witness:
  "fst (authorize_sensitive_read (engine_durable_with_provider example_audit_env example_pool (\<lambda>_. 0))
      example_request False \<lparr>es_records = [], es_world = example_world\<rparr>) = Inr ()
   \<and> (\<exists>p s. applied_policy example_audit_env ''ws'' example_world p s
        \<and> granting_rule p (snapshot_enrich example_snapshot example_request))"
proof -
  let ?en = "engine_durable_with_provider example_audit_env example_pool (\<lambda>_. 0)"
  let ?st = "\<lparr>es_records = [], es_world = example_world\<rparr>"
  let ?r = "snapshot_enrich example_snapshot example_request"
  let ?x = "explain_policy (compile_policy example_audit_policy) ?r"
  obtain s2 where s2: "durable_compiled example_audit_env ''ws'' example_unbound_world
      = (Inr (Some (compile_policy example_audit_policy)), s2)" using example_audit_compiled(3) by blast
  have x: "ex_mode ?x = Enforce" "ex_matched_rule_id ?x \<noteq> None" "ex_effective_decision ?x = Allow"
    by code_simp+
  have ws: "req_workspace_id ?r = ''ws''" "req_tree_revision ?r = Some 7" by code_simp+
  have enr: "engine_enrich ?en example_request ?st = (Inr ?r, ?st)"
    by (simp add: engine_enrich_def engine_durable_with_provider_def on_world_def example_pool_def
        example_db_facts(1))
  have grant: "fst (authorize_sensitive_read ?en example_request False ?st) = Inr ()"
    using x ws s2 unfolding authorize_sensitive_read_def enr
    by (simp add: eff_bind_def engine_durable_with_provider_def on_world_def provider_evaluator_def
        durable_evaluator_def provider_explain_def durable_explain_def source_evaluate_def
        example_audit_compiled(1,2) check_tree_revision_def example_pool_def sensitive_read_baseline_def
        decision_into_result_def into_decision_def Let_def)
  then obtain st' where st': "authorize_sensitive_read ?en example_request False ?st = (Inr (), st')"
    by (metis prod.collapse)
  then obtain p s where "applied_policy example_audit_env ''ws'' example_world p s" "granting_rule p ?r"
    using sensitive_read_needs_enforced_rule [of example_audit_env example_pool "\<lambda>_. 0" example_request ?st st'] enr ws by auto
  with grant show ?thesis by blast
qed

end
