(* ===== verification/Policy_Batch.thy ===== *)
theory Policy_Batch
  imports Policy_Engine
begin

text \<open>
  Batch authorization against single authorization.  The contract of an evaluator chain towards the
  engine is the locale \<open>snapshot_chain\<close>: while nothing around it moves, each evaluator answers
  explanations, evaluations and batches from one policy per workspace.  Inside the locale a batch is
  shown to grant exactly what the single calls grant; the interpretation discharges the contract for
  the production chain of provider and stored document.
\<close>

section \<open>The outcome of a chain\<close>

fun chain_outcome ::
  "compiled_policy option res list \<Rightarrow> policy_decision \<Rightarrow> policy_request \<Rightarrow> unit res" where
  "chain_outcome [] d r = decision_into_result d"
| "chain_outcome (v # vs) d r =
     (case v of
        Inl e \<Rightarrow> Inl e
      | Inr None \<Rightarrow> chain_outcome vs d r
      | Inr (Some p) \<Rightarrow> decision_into_result (evaluate_policy p r))"

lemma chain_outcome_abstain [simp]: "chain_outcome (Inr None # vs) d = chain_outcome vs d"
  by (rule ext) simp

text \<open>The first failing request of a list, as a batch reports it.\<close>

definition batch_agrees :: "(policy_request \<Rightarrow> unit res) \<Rightarrow> policy_request list \<Rightarrow> batch_denial + 'a \<Rightarrow> bool" where
  "batch_agrees single requests out \<longleftrightarrow>
     (case out of
        Inr _ \<Rightarrow> \<forall>r \<in> set requests. single r = Inr ()
      | Inl d \<Rightarrow> bd_request_index d < length requests
          \<and> single (requests ! bd_request_index d) = Inl (bd_error d)
          \<and> (\<forall>j < bd_request_index d. single (requests ! j) = Inr ()))"

lemma apply_evaluations_decide:
  "case apply_evaluations k (replicate (length rs) True) (map (\<lambda>r. Decide (f r)) rs) of
     Inr us \<Rightarrow> us = replicate (length rs) False \<and> (\<forall>r \<in> set rs. f r = DAllow)
   | Inl d \<Rightarrow> \<exists>j < length rs. bd_request_index d = k + j
       \<and> decision_into_result (f (rs ! j)) = Inl (bd_error d) \<and> (\<forall>j' < j. f (rs ! j') = DAllow)"
proof (induction rs arbitrary: k)
  case (Cons r rs)
  show ?case
  proof (cases "f r")
    case DAllow
    with Cons [of "Suc k"] show ?thesis
      by (auto simp: and_then_def nth_Cons' split: sum.splits)
  next
    case (DDeny x)
    then show ?thesis by (auto simp: decision_into_result_def intro!: exI [of _ 0])
  qed
qed simp

lemma apply_evaluations_abstain:
  "apply_evaluations k (replicate n True) (replicate n Abstain) = Inr (replicate n True)"
  by (induction n arbitrary: k) auto

lemma apply_default_resolved [simp]: "apply_default d k (replicate n False) = Inr ()"
  by (induction n arbitrary: k) auto

lemma record_batch_world [simp]: "es_world (record_batch en rs us xs st) = es_world st"
  by (induction en rs us xs st rule: record_batch.induct)
     (auto simp: record_decision_def Let_def split: prod.splits)

lemma default_agrees:
  "rs \<noteq> [] \<Longrightarrow> batch_agrees (\<lambda>r. decision_into_result d) rs
     (and_then (apply_default d 0 (replicate (length rs) True)) (\<lambda>_. Inr v))"
proof (cases d)
  case DAllow
  have "apply_default DAllow k (replicate n True) = Inr ()" for k n by (induction n arbitrary: k) auto
  with DAllow show ?thesis by (simp add: batch_agrees_def decision_into_result_def)
next
  case (DDeny x)
  assume "rs \<noteq> []"
  with DDeny show ?thesis by (cases rs) (auto simp: batch_agrees_def decision_into_result_def)
qed

locale snapshot_chain =
  fixes evs :: "'s policy_evaluator list" and quiet :: "'s \<Rightarrow> bool"
    and verdict :: "nat \<Rightarrow> 's \<Rightarrow> string \<Rightarrow> compiled_policy option res"
  assumes explain_law: "quiet s \<Longrightarrow> i < length evs \<Longrightarrow> ev_explain (evs ! i) r s = (x, s') \<Longrightarrow>
      quiet s' \<and> (\<forall>j w. verdict j s' w = verdict j s w)
      \<and> (case verdict i s (req_workspace_id r) of
           Inl e \<Rightarrow> x = Inl e
         | Inr None \<Rightarrow> x = Inr None
         | Inr (Some p) \<Rightarrow> \<exists>src. x = Inr (Some ((explain_policy p r)\<lparr>ex_source := src\<rparr>)))"
    and evaluate_law: "quiet s \<Longrightarrow> i < length evs \<Longrightarrow> ev_evaluate (evs ! i) r s = (y, s') \<Longrightarrow>
      quiet s' \<and> (\<forall>j w. verdict j s' w = verdict j s w)
      \<and> (verdict i s (req_workspace_id r) = Inr None \<longrightarrow> y = Inr Abstain)"
    and batch_law: "quiet s \<Longrightarrow> i < length evs \<Longrightarrow> rs \<noteq> [] \<Longrightarrow> \<forall>r \<in> set rs. req_workspace_id r = w \<Longrightarrow>
      ev_evaluate_batch (evs ! i) rs s = (b, s') \<Longrightarrow>
      quiet s' \<and> (\<forall>j w. verdict j s' w = verdict j s w)
      \<and> (case verdict i s w of
           Inl e \<Rightarrow> b = Inl e
         | Inr None \<Rightarrow> (\<exists>x. b = Inr x \<and> be_evaluations x = replicate (length rs) Abstain \<and> be_revision x = None)
         | Inr (Some p) \<Rightarrow> (\<exists>x. b = Inr x \<and> be_evaluations x = map (\<lambda>r. Decide (evaluate_policy p r)) rs))"
begin

definition verdicts :: "nat \<Rightarrow> 's \<Rightarrow> string \<Rightarrow> compiled_policy option res list" where
  "verdicts i s w = map (\<lambda>j. verdict j s w) [i ..< length evs]"

lemma verdicts_Cons: "i < length evs \<Longrightarrow> verdicts i s w = verdict i s w # verdicts (Suc i) s w"
  by (simp add: verdicts_def upt_conv_Cons)

lemma verdicts_cong: "\<forall>j w. verdict j s' w = verdict j s w \<Longrightarrow> verdicts i s' w = verdicts i s w"
  by (simp add: verdicts_def)

text \<open>The Tree check passes for the requests at hand and does not disturb the chain.\<close>

definition still :: "'s policy_engine \<Rightarrow> policy_request \<Rightarrow> bool" where
  "still en r \<longleftrightarrow> (\<forall>st. quiet (es_world st) \<longrightarrow> check_tree_revision en r st = (Inr (), st))"

lemma authorize_loop_outcome:
  assumes "quiet (es_world st)" "still en r" "i \<le> length evs"
  shows "fst (authorize_loop en r (drop i evs) st)
    = chain_outcome (verdicts i (es_world st) (req_workspace_id r)) (en_default_decision en) r"
  using assms(1,3)
proof (induction "length evs - i" arbitrary: i st)
  case 0
  then show ?case by (simp add: verdicts_def)
next
  case (Suc n)
  then have i: "i < length evs" by simp
  obtain x s1 where x: "ev_explain (evs ! i) r (es_world st) = (x, s1)" by force
  note ex = explain_law [OF Suc.prems(1) i x]
  have loop: "drop i evs = evs ! i # drop (Suc i) evs" using i by (simp add: Cons_nth_drop_Suc)
  consider (err) e where "verdict i (es_world st) (req_workspace_id r) = Inl e"
    | (none) "verdict i (es_world st) (req_workspace_id r) = Inr None"
    | (pol) p where "verdict i (es_world st) (req_workspace_id r) = Inr (Some p)"
    by (metis not_Some_eq sum.exhaust)
  then show ?case
  proof cases
    case err
    with ex x show ?thesis by (simp add: loop verdicts_Cons [OF i] on_world_def eff_bind_def)
  next
    case pol
    with ex obtain src where "x = Inr (Some ((explain_policy p r)\<lparr>ex_source := src\<rparr>))" by auto
    with ex x pol assms(2) show ?thesis
      by (simp add: loop verdicts_Cons [OF i] on_world_def eff_bind_def still_def evaluate_policy_def
          into_decision_def)
  next
    case none
    obtain y s2 where y: "ev_evaluate (evs ! i) r s1 = (y, s2)" by force
    note ev = evaluate_law [OF conjunct1 [OF ex] i y]
    have "fst (authorize_loop en r (drop (Suc i) evs) (st\<lparr>es_world := s2\<rparr>))
        = chain_outcome (verdicts (Suc i) s2 (req_workspace_id r)) (en_default_decision en) r"
      using Suc ev by simp
    moreover have "verdicts (Suc i) s2 w = verdicts (Suc i) (es_world st) w" for w
      using ex ev by (intro verdicts_cong) simp
    ultimately show ?thesis
      using none ex ev x y by (simp add: loop verdicts_Cons [OF i] on_world_def eff_bind_def)
  qed
qed

lemma batch_loop_outcome:
  assumes "quiet (es_world st)" "still en (hd rs)" "i \<le> length evs" "rs \<noteq> []"
    and ws: "\<forall>r \<in> set rs. req_workspace_id r = w"
  shows "batch_agrees (chain_outcome (verdicts i (es_world st) w) (en_default_decision en)) rs
    (fst (eff_bind (batch_loop en rs (replicate (length rs) True) None (drop i evs) st)
      (\<lambda>(unresolved, revision) st.
        (and_then (apply_default (en_default_decision en) 0 unresolved) (\<lambda>_. Inr revision), st))))"
  using assms(1,3)
proof (induction "length evs - i" arbitrary: i st)
  case 0
  then show ?case using assms(4) by (simp add: verdicts_def eff_bind_def default_agrees)
next
  case (Suc n)
  then have i: "i < length evs" by simp
  obtain b s1 where b: "ev_evaluate_batch (evs ! i) rs (es_world st) = (b, s1)" by force
  note bl = batch_law [OF Suc.prems(1) i assms(4) ws b]
  have loop: "drop i evs = evs ! i # drop (Suc i) evs" using i by (simp add: Cons_nth_drop_Suc)
  have unres: "\<not> list_all Not (replicate (length rs) True)" using assms(4) by (cases rs) auto
  consider (err) e where "verdict i (es_world st) w = Inl e"
    | (none) "verdict i (es_world st) w = Inr None"
    | (pol) p where "verdict i (es_world st) w = Inr (Some p)"
    by (metis not_Some_eq sum.exhaust)
  then show ?case
  proof cases
    case err
    with bl b unres assms(4) show ?thesis
      by (simp add: loop verdicts_Cons [OF i] on_world_def eff_bind_def map_err_fst_def map_err_def
          batch_agrees_def at_zero_def)
  next
    case pol
    with bl obtain x where x: "b = Inr x" "be_evaluations x = map (\<lambda>r. Decide (evaluate_policy p r)) rs" by auto
    let ?st1 = "record_batch en rs (replicate (length rs) True) (be_explanations x) (st\<lparr>es_world := s1\<rparr>)"
    let ?out = "apply_evaluations 0 (replicate (length rs) True) (be_evaluations x)"
    have run: "batch_loop en rs (replicate (length rs) True) None (drop i evs) st
        = eff_bind (?out, ?st1) (\<lambda>us st. batch_loop en rs us (be_revision x) (drop (Suc i) evs) st)"
      using conjunct1 [OF bl] b x unres assms(2)
      by (cases "be_revision x") (simp_all add: loop on_world_def eff_bind_def map_err_fst_def map_err_def
          still_def is_some_and_def Let_def)
    have resolved: "batch_loop en rs (replicate (length rs) False) v (drop (Suc i) evs) st'
        = (Inr (replicate (length rs) False, v), st')" for v st'
      by (cases "drop (Suc i) evs") (simp_all add: list_all_iff)
    show ?thesis
      using apply_evaluations_decide [where k = 0 and rs = rs and f = "evaluate_policy p"] pol ws
      unfolding run x(2)
      by (auto simp: verdicts_Cons [OF i] eff_bind_def resolved batch_agrees_def and_then_def
          decision_into_result_def split: sum.splits)
  next
    case none
    with bl obtain x where x: "b = Inr x" "be_evaluations x = replicate (length rs) Abstain"
      "be_revision x = None" by auto
    let ?st1 = "record_batch en rs (replicate (length rs) True) (be_explanations x) (st\<lparr>es_world := s1\<rparr>)"
    have run: "batch_loop en rs (replicate (length rs) True) None (drop i evs) st
        = batch_loop en rs (replicate (length rs) True) None (drop (Suc i) evs) ?st1"
      using conjunct1 [OF bl] b x unres assms(2)
      by (simp add: loop on_world_def eff_bind_def map_err_fst_def map_err_def still_def is_some_and_def
          apply_evaluations_abstain Let_def)
    have w1: "es_world ?st1 = s1" by simp
    moreover have "verdicts (Suc i) s1 w = verdicts (Suc i) (es_world st) w"
      using bl by (intro verdicts_cong) simp
    moreover have "n = length evs - Suc i" using Suc.hyps(2) by simp
    ultimately show ?thesis
      using Suc.hyps(1) [of "Suc i" ?st1] bl none i unfolding run verdicts_Cons [OF i] by simp
  qed
qed

end

text \<open>The engine on top of such a chain, with a Tree that does not move.\<close>

locale snapshot_engine = snapshot_chain evs quiet verdict
  for evs :: "'s policy_evaluator list" and quiet and verdict +
  fixes en :: "'s policy_engine" and pool :: "'s tree_pool" and tree :: "string \<Rightarrow> tree_db option"
  assumes engine: "en_evaluators en = evs" "en_tree_pool en = Some pool"
    and load_law: "quiet s \<Longrightarrow> tp_load pool w s = (tree w, s)"
    and current_law: "quiet s \<Longrightarrow> tp_current pool w s = (Inr (Option.bind (tree w) td_tree_revision), s)"
begin

lemma enriched_still:
  assumes "load_snapshot (tree w) = Inr snap" "req_workspace_id r = w"
  shows "still en (snapshot_enrich snap r)"
proof -
  from assms(1) obtain db where db: "tree w = Some db" "load_snapshot (Some db) = Inr snap"
    by (cases "tree w") (auto simp: load_snapshot_def)
  have "td_tree_revision db = Some (int (ts_revision snap))" using load_snapshot_ok [OF db(2)] by simp
  moreover have "req_workspace_id (snapshot_enrich snap r) = w"
    "req_tree_revision (snapshot_enrich snap r) = Some (ts_revision snap)"
    using assms(2) by (simp_all add: snapshot_enrich_def Let_def)
  ultimately show ?thesis
    using db(1) current_law by (simp add: still_def check_tree_revision_def engine(2) on_world_def)
qed

lemma authorize_outcome:
  assumes "quiet (es_world st)" "req_workspace_id r = w"
  shows "fst (authorize en r st) =
    (case load_snapshot (tree w) of
       Inl e \<Rightarrow> Inl e
     | Inr snap \<Rightarrow> chain_outcome (verdicts 0 (es_world st) w) (en_default_decision en) (snapshot_enrich snap r))"
proof (cases "load_snapshot (tree w)")
  case (Inl e)
  then show ?thesis
    using assms load_law by (simp add: authorize_def engine_enrich_def engine(2) on_world_def eff_bind_def)
next
  case (Inr snap)
  have "req_workspace_id (snapshot_enrich snap r) = w" using assms(2) by (simp add: snapshot_enrich_def Let_def)
  with Inr show ?thesis
    using assms load_law authorize_loop_outcome [OF assms(1) enriched_still [OF Inr assms(2)], of 0]
    by (simp add: authorize_def engine_enrich_def engine on_world_def eff_bind_def)
qed

lemma batch_is_pointwise:
  assumes "quiet (es_world st)" "rs \<noteq> []" "\<forall>r \<in> set rs. req_workspace_id r = w"
  shows "batch_agrees (\<lambda>r. fst (authorize en r st)) rs (fst (authorize_batch en rs st))"
proof -
  have hd: "req_workspace_id (hd rs) = w" using assms(2,3) by simp
  show ?thesis
  proof (cases "load_snapshot (tree w)")
    case (Inl e)
    then have "fst (authorize_batch en rs st) = Inl (at_zero e)"
      using assms load_law hd
      by (simp add: authorize_batch_def batch_enrich_def engine(2) on_world_def eff_bind_def
          map_err_fst_def map_err_def)
    moreover have "fst (authorize en r st) = Inl e" if "r \<in> set rs" for r
      using authorize_outcome [OF assms(1), of r w] assms(3) that Inl by simp
    ultimately show ?thesis using assms(2) by (simp add: batch_agrees_def at_zero_def)
  next
    case (Inr snap)
    let ?rs = "map (snapshot_enrich snap) rs"
    have ws: "\<forall>r \<in> set ?rs. req_workspace_id r = w"
      using assms(3) by (auto simp: snapshot_enrich_def Let_def)
    have ne: "?rs \<noteq> []" using assms(2) by simp
    have st: "still en (hd ?rs)" using enriched_still [OF Inr hd] assms(2) by (simp add: hd_map)
    have "fst (authorize_batch en rs st) = fst (eff_bind
        (batch_loop en ?rs (replicate (length ?rs) True) None (drop 0 evs) st)
        (\<lambda>(unresolved, revision) st.
          (and_then (apply_default (en_default_decision en) 0 unresolved) (\<lambda>_. Inr revision), st)))"
      using assms Inr load_law hd ws ne
      by (simp add: authorize_batch_def batch_enrich_def engine on_world_def
          map_err_fst_def map_err_def eff_bind_def [of "(Inr _, _)"] list_ex_iff hd_map)
    with batch_loop_outcome [OF assms(1) st le0 ne ws]
    have "batch_agrees (chain_outcome (verdicts 0 (es_world st) w) (en_default_decision en)) ?rs
        (fst (authorize_batch en rs st))" by simp
    then have "batch_agrees (\<lambda>r. chain_outcome (verdicts 0 (es_world st) w) (en_default_decision en)
        (snapshot_enrich snap r)) rs (fst (authorize_batch en rs st))"
      by (auto simp: batch_agrees_def split: sum.splits)
    moreover have "fst (authorize en r st) = chain_outcome (verdicts 0 (es_world st) w)
        (en_default_decision en) (snapshot_enrich snap r)" if "r \<in> set rs" for r
      using authorize_outcome [OF assms(1), of r w] assms(3) that Inr by simp
    ultimately show ?thesis by (auto simp: batch_agrees_def split: sum.splits)
  qed
qed

end

section \<open>The production chain\<close>

text \<open>An environment in which the database, the Policy App and the clock stand still.\<close>

definition frozen :: "'e policy_env \<Rightarrow> 'e \<Rightarrow> bool" where
  "frozen env e \<longleftrightarrow> snd (pe_db env e) = e
     \<and> (\<forall>app w. snd (fetch_bundle env app w e) = e) \<and> (\<forall>w s. pe_await env w s = s)"

definition chain_quiet ::
  "'e policy_env \<Rightarrow> 'e policy_world tree_pool \<Rightarrow> (string \<Rightarrow> tree_db option) \<Rightarrow> 'e policy_world \<Rightarrow> bool" where
  "chain_quiet env pool tree s \<longleftrightarrow> env_ok env \<and> frozen env (pw_env s) \<and> world_ok env s
     \<and> (\<forall>w s. tp_load pool w s = (tree w, s))
     \<and> (\<forall>w s. tp_current pool w s = (Inr (Option.bind (tree w) td_tree_revision), s))"

definition chain_verdict ::
  "'e policy_env \<Rightarrow> nat \<Rightarrow> 'e policy_world \<Rightarrow> string \<Rightarrow> compiled_policy option res" where
  "chain_verdict env j s w =
     (if j = 0 then fst (provider_compiled env w s) else fst (durable_compiled env w s))"

lemma durable_frame:
  "pw_durable s' = pw_durable s \<Longrightarrow> pw_env s' = pw_env s \<Longrightarrow>
   fst (durable_compiled env w s') = fst (durable_compiled env w s)"
  by (auto simp: durable_compiled_def Let_def split: option.splits prod.splits sum.splits)

lemma provider_result_frame:
  assumes "pw_provider s' w = pw_provider s w" "pw_env s' = pw_env s" "frozen env (pw_env s)"
  shows "fst (provider_compiled env w s') = fst (provider_compiled env w s)"
proof -
  have "fst (provider_refresh env w p (s'\<lparr>pw_env := e\<rparr>)) = fst (provider_refresh env w p (s\<lparr>pw_env := e\<rparr>))"
    for p e
    using assms(1)
    by (auto simp: provider_refresh_def provider_failure_def invalidate_provider_def Let_def
        split: prod.splits sum.splits option.splits)
  then show ?thesis
    using assms
    by (auto simp: provider_compiled_def fresh_provider_def frozen_def Let_def
        split: prod.splits sum.splits option.splits)
qed

text \<open>Looking a workspace up twice in a frozen environment.\<close>

lemma durable_repeat:
  assumes "durable_compiled env w s = (r, s')" "frozen env (pw_env s)"
  shows "pw_env s' = pw_env s \<and> pw_provider s' = pw_provider s
    \<and> (\<forall>v. fst (durable_compiled env v s') = fst (durable_compiled env v s))"
  using assms
  by (auto simp: durable_compiled_def frozen_def Let_def split: option.splits prod.splits sum.splits if_splits)

text \<open>The three ways a lookup can leave the cache, each of which answers the same when repeated.\<close>

definition repeats ::
  "'e policy_env \<Rightarrow> string \<Rightarrow> 'e policy_world \<Rightarrow> compiled_policy option res \<Rightarrow> 'e policy_world \<Rightarrow> bool" where
  "repeats env w s r s' \<longleftrightarrow>
     s' = s \<and> fst (provider_compiled env w s) = r
     \<or> (\<exists>c. s' = put_provider w c s \<and> cpp_checked_at c = pe_instant env (pw_env s)
          \<and> cached_provider_result c = r)
     \<or> s' = invalidate_provider w s \<and> fst (provider_compiled env w (invalidate_provider w s)) = r"

lemma put_after_invalidate [simp]: "put_provider w c (invalidate_provider w s) = put_provider w c s"
  by (simp add: put_provider_def invalidate_provider_def)

lemma invalidate_fields [simp]:
  "pw_env (invalidate_provider w s) = pw_env s" "pw_durable (invalidate_provider w s) = pw_durable s"
  "pw_env (put_provider w c s) = pw_env s" "pw_durable (put_provider w c s) = pw_durable s"
  by (simp_all add: invalidate_provider_def put_provider_def)

lemma put_repeats:
  "cpp_checked_at c = t \<Longrightarrow> cpp_policy c = Some p \<Longrightarrow>
   \<exists>c'. put_provider w c s = put_provider w c' s \<and> cpp_checked_at c' = t
     \<and> cached_provider_result c' = Inr (Some p)"
  by (rule exI [of _ c]) (simp add: cached_provider_result_def)

lemma failure_repeats:
  assumes "provider_failure env w provider previous error (invalidate_provider w s) = (r, s')"
    and "binding_ok provider" "\<forall>c. previous = Some c \<longrightarrow> entry_ok env w c"
  shows "\<exists>c. s' = put_provider w c s \<and> cpp_checked_at c = pe_instant env (pw_env s)
    \<and> cached_provider_result c = r"
proof (cases "stale_policy (pe_instant env (pw_env s)) provider previous")
  case (Some c)
  from stale_entry_ok [OF this assms(2,3)] Some assms(1) show ?thesis
    by (auto simp: provider_failure_def Let_def cached_provider_result_def)
next
  case None
  with assms(1,2) show ?thesis
    by (auto simp: provider_failure_def Let_def cached_provider_result_def binding_ok_def split: if_splits)
qed

lemma provider_miss:
  assumes "fresh_provider env w s = None" "frozen env (pw_env s)"
  shows "provider_compiled env w s =
    (case and_then (fst (pe_db env (pw_env s))) (\<lambda>tables.
            map_err (pe_sqlx_display env) (provider_get (pe_codec env) w tables)) of
       Inl m \<Rightarrow> (Inl (protocol_error_new ''policy_provider_store_failed'' m), s)
     | Inr None \<Rightarrow> (Inr None, put_provider w \<lparr>cpp_app_id = [], cpp_checked_at = pe_instant env (pw_env s),
            cpp_loaded_at = None, cpp_policy = None, cpp_last_error = None\<rparr> s)
     | Inr (Some provider) \<Rightarrow> provider_refresh env w provider s)"
  using assms
  by (auto simp: provider_compiled_def frozen_def Let_def split: prod.splits sum.splits option.splits)

lemma refresh_frozen:
  assumes "frozen env (pw_env s)"
  shows "provider_refresh env w provider s =
    (case fst (fetch_bundle env (wpp_app_id provider) w (pw_env s)) of
       Inr bundle \<Rightarrow>
         if wpp_revision_hint provider \<le> pb_revision bundle then
           (Inr (Some (compile_policy (bundle_policy w (wpp_service_id provider) bundle))),
            put_provider w \<lparr>cpp_app_id = wpp_app_id provider, cpp_checked_at = pe_instant env (pw_env s),
              cpp_loaded_at = Some (pe_instant env (pw_env s)),
              cpp_policy = Some (compile_policy (bundle_policy w (wpp_service_id provider) bundle)),
              cpp_last_error = None\<rparr> s)
         else provider_failure env w provider (pw_provider s w)
            (''Policy App returned revision '' @ dec_string (pb_revision bundle)
               @ '' below announced revision '' @ dec_string (wpp_revision_hint provider))
            (invalidate_provider w s)
     | Inl error \<Rightarrow>
         if provider_contract_error error then (Inl error, invalidate_provider w s)
         else provider_failure env w provider (pw_provider s w) (pe_message error) (invalidate_provider w s))"
proof -
  obtain f where f: "fetch_bundle env (wpp_app_id provider) w (pw_env s) = (f, pw_env s)"
    using assms unfolding frozen_def by (metis prod.collapse)
  have env: "(invalidate_provider w s)\<lparr>pw_env := pw_env s\<rparr> = invalidate_provider w s"
    by (simp add: invalidate_provider_def)
  show ?thesis by (simp add: provider_refresh_def f env Let_def split: sum.splits)
qed

lemma provider_compiled_repeats:
  assumes eq: "provider_compiled env w s = (r, s')" and fr: "frozen env (pw_env s)"
    and "world_ok env s" "env_ok env"
  shows "repeats env w s r s'"
proof (cases "fresh_provider env w s")
  case (Some c)
  then show ?thesis using eq by (simp add: repeats_def provider_compiled_def)
next
  case miss: None
  let ?look = "and_then (fst (pe_db env (pw_env s))) (\<lambda>tables.
            map_err (pe_sqlx_display env) (provider_get (pe_codec env) w tables))"
  have prev: "\<forall>c. pw_provider s w = Some c \<longrightarrow> entry_ok env w c" using assms(3) by (simp add: world_ok_def)
  consider (fail) m where "?look = Inl m" | (unbound) "?look = Inr None" | (some) p where "?look = Inr (Some p)"
    by (metis not_Some_eq sum.exhaust)
  then show ?thesis
  proof cases
    case fail
    then show ?thesis using eq provider_miss [OF miss fr] by (simp add: repeats_def)
  next
    case unbound
    then show ?thesis
      using eq provider_miss [OF miss fr] by (auto simp: repeats_def cached_provider_result_def)
  next
    case (some p)
    then obtain tables where "fst (pe_db env (pw_env s)) = Inr tables"
      "provider_get (pe_codec env) w tables = Inr (Some p)" by (auto simp: res_simps)
    then have bind: "binding_ok p"
      using assms(4) unfolding env_ok_def binding_ok_def by (metis prod.collapse)
    have ref: "provider_refresh env w p s = (r, s')" using eq provider_miss [OF miss fr] some by simp
    have "r = Inl e \<and> s' = invalidate_provider w s \<and> fst (provider_compiled env w (invalidate_provider w s)) = r"
      if f: "fst (fetch_bundle env (wpp_app_id p) w (pw_env s)) = Inl e" "provider_contract_error e" for e
    proof -
      let ?s1 = "invalidate_provider w s"
      have miss1: "fresh_provider env w ?s1 = None" by (simp add: fresh_provider_def invalidate_provider_def)
      have fr1: "frozen env (pw_env ?s1)" using fr by simp
      have "provider_compiled env w ?s1 = provider_refresh env w p ?s1"
        unfolding provider_miss [OF miss1 fr1] using some by simp
      moreover have "fst (provider_refresh env w p ?s1) = Inl e"
        unfolding refresh_frozen [OF fr1] using f by simp
      moreover have "r = Inl e \<and> s' = ?s1" using ref f unfolding refresh_frozen [OF fr] by simp
      ultimately show ?thesis by simp
    qed
    moreover have "\<exists>c. s' = put_provider w c s \<and> cpp_checked_at c = pe_instant env (pw_env s)
        \<and> cached_provider_result c = r"
      if "\<nexists>e. fst (fetch_bundle env (wpp_app_id p) w (pw_env s)) = Inl e \<and> provider_contract_error e"
      using ref that unfolding refresh_frozen [OF fr]
      by (auto intro: failure_repeats [OF _ bind prev] put_repeats split: sum.splits if_splits)
    ultimately show ?thesis unfolding repeats_def by blast
  qed
qed

lemma provider_repeat:
  assumes "provider_compiled env w s = (r, s')" "frozen env (pw_env s)" "world_ok env s" "env_ok env"
  shows "pw_env s' = pw_env s \<and> pw_durable s' = pw_durable s
    \<and> (\<forall>v. fst (provider_compiled env v s') = fst (provider_compiled env v s))"
proof -
  from provider_compiled_repeats [OF assms] have rep: "repeats env w s r s'" .
  then have env: "pw_env s' = pw_env s" "pw_durable s' = pw_durable s"
    and other: "\<And>v. v \<noteq> w \<Longrightarrow> pw_provider s' v = pw_provider s v"
    by (auto simp: repeats_def put_provider_def invalidate_provider_def)
  have same: "fst (provider_compiled env w s') = r"
    using rep by (auto simp: repeats_def provider_compiled_def fresh_provider_def put_provider_def)
  have "fst (provider_compiled env v s') = fst (provider_compiled env v s)" for v
  proof (cases "v = w")
    case True
    then show ?thesis using same assms(1) by simp
  next
    case False
    then show ?thesis using provider_result_frame [OF other env(1) assms(2)] by simp
  qed
  with env show ?thesis by simp
qed

lemma chain_quiet_provider:
  assumes "chain_quiet env pool tree s" "provider_compiled env w s = (r, s')"
  shows "chain_quiet env pool tree s' \<and> (\<forall>j w. chain_verdict env j s' w = chain_verdict env j s w)"
  using assms provider_repeat [OF assms(2)] provider_compiled_ok [OF assms(2)]
    durable_frame [of s' s env]
  by (auto simp: chain_quiet_def chain_verdict_def)

lemma chain_quiet_durable:
  assumes "chain_quiet env pool tree s" "durable_compiled env w s = (r, s')"
  shows "chain_quiet env pool tree s' \<and> (\<forall>j w. chain_verdict env j s' w = chain_verdict env j s w)"
  using assms durable_repeat [OF assms(2)] provider_result_frame [of s' _ s env]
  by (auto simp: chain_quiet_def chain_verdict_def world_ok_def)

definition explained :: "compiled_policy option res \<Rightarrow> policy_request \<Rightarrow> policy_explanation option res \<Rightarrow> bool" where
  "explained v r x \<longleftrightarrow>
     (case v of
        Inl e \<Rightarrow> x = Inl e
      | Inr None \<Rightarrow> x = Inr None
      | Inr (Some p) \<Rightarrow> \<exists>src. x = Inr (Some ((explain_policy p r)\<lparr>ex_source := src\<rparr>)))"

lemma explain_source_id: "(explain_policy p r) = (explain_policy p r)\<lparr>ex_source := ''workspace_policy''\<rparr>"
  by (simp add: explain_policy_def Let_def)

lemma provider_explained:
  "provider_explain env r s = (x, s') \<Longrightarrow>
   \<exists>v. provider_compiled env (req_workspace_id r) s = (v, s') \<and> explained v r x"
  by (auto simp: provider_explain_def eff_bind_def explained_def Let_def
      split: prod.splits sum.splits option.splits)

lemma durable_explained:
  "durable_explain env r s = (x, s') \<Longrightarrow>
   \<exists>v. durable_compiled env (req_workspace_id r) s = (v, s') \<and> explained v r x"
  using explain_source_id
  by (fastforce simp: durable_explain_def eff_bind_def explained_def split: prod.splits sum.splits option.splits)

lemma source_evaluated:
  "source_evaluate compiled r s = (y, s') \<Longrightarrow>
   \<exists>v. compiled (req_workspace_id r) s = (v, s') \<and> (v = Inr None \<longrightarrow> y = Inr Abstain)"
  by (auto simp: source_evaluate_def eff_bind_def split: prod.splits sum.splits)

definition batched :: "compiled_policy option res \<Rightarrow> policy_request list \<Rightarrow> policy_batch_evaluation res \<Rightarrow> bool" where
  "batched v rs b \<longleftrightarrow>
     (case v of
        Inl e \<Rightarrow> b = Inl e
      | Inr None \<Rightarrow> (\<exists>x. b = Inr x \<and> be_evaluations x = replicate (length rs) Abstain \<and> be_revision x = None)
      | Inr (Some p) \<Rightarrow> (\<exists>x. b = Inr x \<and> be_evaluations x = map (\<lambda>r. Decide (evaluate_policy p r)) rs))"

lemma source_batched:
  assumes "source_evaluate_batch compiled rs s = (b, s')" "rs \<noteq> []" "\<forall>r \<in> set rs. req_workspace_id r = w"
  shows "\<exists>v. compiled w s = (v, s') \<and> batched v rs b"
proof -
  obtain r0 rs0 where rs: "rs = r0 # rs0" using assms(2) by (cases rs) auto
  with assms(3) have "req_workspace_id r0 = w" "\<not> list_ex (\<lambda>r. req_workspace_id r \<noteq> req_workspace_id r0) rs"
    by (auto simp: list_ex_iff)
  with assms(1) rs show ?thesis
    by (auto simp: source_evaluate_batch_def eff_bind_def batched_def split: prod.splits sum.splits option.splits)
qed

lemma chain_law:
  assumes "chain_quiet env pool tree s" "i < Suc (Suc 0)"
    and "if i = 0 then provider_compiled env w s = (v, s') else durable_compiled env w s = (v, s')"
  shows "chain_quiet env pool tree s' \<and> (\<forall>j w. chain_verdict env j s' w = chain_verdict env j s w)
    \<and> chain_verdict env i s w = v"
  using assms chain_quiet_provider [OF assms(1)] chain_quiet_durable [OF assms(1)]
  by (cases "i = 0") (auto simp: chain_verdict_def)

interpretation production: snapshot_chain "[provider_evaluator env, durable_evaluator env]"
  "chain_quiet env pool tree" "chain_verdict env"
proof (unfold_locales, goal_cases)
  case (1 s i r x s')
  then obtain v where v: "if i = 0 then provider_compiled env (req_workspace_id r) s = (v, s')
      else durable_compiled env (req_workspace_id r) s = (v, s')" "explained v r x"
    using provider_explained [of env r s x s'] durable_explained [of env r s x s']
    by (cases i) (auto simp: provider_evaluator_def durable_evaluator_def)
  from chain_law [OF 1(1) _ v(1)] 1(2) v(2) show ?case by (simp add: explained_def)
next
  case (2 s i r y s')
  then obtain v where v: "if i = 0 then provider_compiled env (req_workspace_id r) s = (v, s')
      else durable_compiled env (req_workspace_id r) s = (v, s')" "v = Inr None \<longrightarrow> y = Inr Abstain"
    using source_evaluated [of "provider_compiled env" r s y s'] source_evaluated [of "durable_compiled env" r s y s']
    by (cases i) (auto simp: provider_evaluator_def durable_evaluator_def)
  from chain_law [OF 2(1) _ v(1)] 2(2) v(2) show ?case by simp
next
  case (3 s i rs w b s')
  then obtain v where v: "if i = 0 then provider_compiled env w s = (v, s')
      else durable_compiled env w s = (v, s')" "batched v rs b"
    using source_batched [of "provider_compiled env" rs s b s' w] source_batched [of "durable_compiled env" rs s b s' w]
    by (cases i) (auto simp: provider_evaluator_def durable_evaluator_def)
  from chain_law [OF 3(1) _ v(1)] 3(2) v(2) show ?case by (simp add: batched_def)
qed

interpretation production_engine: snapshot_engine "[provider_evaluator env, durable_evaluator env]"
  "chain_quiet env pool tree" "chain_verdict env" "engine_durable_with_provider env pool now" pool tree
  by unfold_locales (simp_all add: engine_durable_with_provider_def chain_quiet_def)

section \<open>Properties\<close>

text \<open>
  C4: A batch is its requests.  While the database, the Policy App, the Tree and the clock stand
  still, the production engine grants a non-empty batch of requests of one workspace exactly when it
  grants each request alone; when it denies one, the index it reports is that of the first request
  that would be denied alone, with the same error, whatever the reason: a rule, the Policy App, the
  stored document or the Tree.
\<close>

theorem batch_grants_what_requests_grant:
  assumes "chain_quiet env pool tree (es_world st)" and "requests \<noteq> []"
    and "\<forall>r \<in> set requests. req_workspace_id r = w"
  shows "batch_agrees (\<lambda>r. fst (authorize (engine_durable_with_provider env pool now) r st)) requests
    (fst (authorize_batch (engine_durable_with_provider env pool now) requests st))"
  using assms by (rule production_engine.batch_is_pointwise)

lemma example_chain_quiet:
  "chain_quiet (example_audit_env\<lparr>pe_send_command := \<lambda>_ _ _ e. (Inl (protocol_error_new ''x'' ''y''), e)\<rparr>)
     example_pool (\<lambda>_. Some example_db) example_world"
  by (auto simp: chain_quiet_def env_ok_def frozen_def world_ok_def fetch_bundle_def eff_bind_def
      example_audit_env_def example_env_def example_policy_tables_def provider_get_def example_pool_def
      example_db_def)

theorem batch_grants_what_requests_grant_witness:
  "\<exists>env. batch_agrees
     (\<lambda>r. fst (authorize (engine_durable_with_provider env example_pool (\<lambda>_. 0)) r
        \<lparr>es_records = [], es_world = example_world\<rparr>))
     [example_request, example_tree_request]
     (fst (authorize_batch (engine_durable_with_provider env example_pool (\<lambda>_. 0))
        [example_request, example_tree_request] \<lparr>es_records = [], es_world = example_world\<rparr>))"
proof -
  let ?st = "\<lparr>es_records = [], es_world = example_world\<rparr>"
  have "\<forall>r \<in> set [example_request, example_tree_request]. req_workspace_id r = ''ws''"
    by (simp add: example_request_def example_tree_request_def policy_request_new_def)
  then show ?thesis
    using batch_grants_what_requests_grant [where st = ?st and requests = "[example_request, example_tree_request]"
        and now = "\<lambda>_. 0"] example_chain_quiet by fastforce
qed

end
