(* ===== verification/Message_Types.thy ===== *)
theory Message_Types
  imports Treer_Prelude
begin

text \<open>
  Wire types of Core Messages (\<open>treer-protocol/messages.rs\<close>, the event envelope of
  \<open>transport.rs\<close> and the limits of \<open>lib.rs\<close>), and the check of App endpoints.  Timestamps count
  nanoseconds.  \<open>json\<close> is \<open>serde_json::Value\<close> with objects as association lists.
\<close>

type_synonym datetime = int

datatype json = JNull | JBool bool | JNumber nat | JString string | JArray "json list"
  | JObject "(string \<times> json) list"

text \<open>How \<open>serde_json\<close> writes and reads a type.\<close>

record 'a json_codec =
  jc_to_value :: "'a \<Rightarrow> json option"
  jc_from_value :: "json \<Rightarrow> 'a option"

section \<open>Principals and messages\<close>

datatype message_principal_kind = MessageAgent | MessageHuman | MessageMachine | MessageService

fun message_kind_as_str :: "message_principal_kind \<Rightarrow> string" where
  "message_kind_as_str MessageAgent = ''agent''"
| "message_kind_as_str MessageHuman = ''human''"
| "message_kind_as_str MessageMachine = ''machine''"
| "message_kind_as_str MessageService = ''service''"

record message_principal =
  mp_app_endpoint :: "string option"
  mp_path :: "string option"
  mp_kind :: message_principal_kind
  mp_id :: string
  mp_name :: string
  mp_role :: "string option"

record message_external_source =
  es_channel :: string
  es_account_id :: "string option"
  es_conversation_id :: string
  es_message_id :: string
  es_metadata :: "string btree_map"

record core_message =
  cm_schema_version :: nat
  cm_message_id :: string
  cm_workspace_id :: string
  cm_sender :: message_principal
  cm_recipients :: "message_principal list"
  cm_context_ids :: "string list"
  cm_body :: string
  cm_created_at :: datetime
  cm_expires_at :: "datetime option"
  cm_correlation_id :: "string option"
  cm_trace_id :: "string option"
  cm_external_source :: "message_external_source option"

record message_delivery =
  md_delivery_id :: string
  md_message :: core_message
  md_recipient :: message_principal
  md_created_at :: datetime
  md_acknowledged_at :: "datetime option"
  md_expires_at :: "datetime option"

section \<open>Requests and responses\<close>

record send_message_request =
  sm_sender_endpoint :: "string option"
  sm_recipients :: "string list"
  sm_context_ids :: "string list"
  sm_body :: string
  sm_expires_at :: "datetime option"
  sm_idempotency_key :: "string option"
  sm_correlation_id :: "string option"
  sm_trace_id :: "string option"
  sm_external_source :: "message_external_source option"

record send_message_response =
  sr_message :: core_message
  sr_delivery_ids :: "string list"
  sr_idempotent_replay :: bool

record message_page =
  pg_messages :: "core_message list"
  pg_next_cursor :: "string option"
  pg_remaining_unacknowledged :: nat

record receive_messages_response =
  rr_next_cursor :: "string option"
  rr_deliveries :: "message_delivery list"
  rr_remaining_unacknowledged :: nat

record acknowledge_messages_request =
  aq_app_endpoint :: "string option"
  aq_delivery_ids :: "string list"
  aq_operation_id :: string

record acknowledge_messages_response =
  as_acknowledged_delivery_ids :: "string list"
  as_already_acknowledged_delivery_ids :: "string list"

record legacy_mail_recipient =
  lr_principal :: message_principal
  lr_position :: nat
  lr_read_at :: "datetime option"

record legacy_mail_message =
  lm_message_id :: string
  lm_workspace_id :: string
  lm_sender :: message_principal
  lm_recipients :: "legacy_mail_recipient list"
  lm_context_ids :: "string list"
  lm_body :: string
  lm_created_at :: datetime

record import_messages_request =
  im_format :: string
  im_operation_id :: string
  im_messages :: "legacy_mail_message list"

record import_messages_response =
  is_imported :: nat
  is_existing :: nat
  is_message_ids :: "string list"

section \<open>Domain events\<close>

record domain_event_actor =
  ea_kind :: string
  ea_id :: "string option"

record domain_event_resource =
  er_kind :: string
  er_id :: string

record domain_event_envelope =
  ev_event_id :: string
  ev_schema_version :: nat
  ev_organization_id :: "string option"
  ev_workspace_id :: string
  ev_actor :: domain_event_actor
  ev_action :: string
  ev_resource :: domain_event_resource
  ev_occurred_at :: datetime
  ev_trace_id :: "string option"
  ev_causation_id :: "string option"
  ev_correlation_id :: "string option"
  ev_workspace_revision :: "nat option"
  ev_payload :: json

section \<open>Limits and App endpoints\<close>

definition DOMAIN_EVENT_SCHEMA_VERSION :: nat where "DOMAIN_EVENT_SCHEMA_VERSION = 1"
definition MESSAGE_SCHEMA_VERSION :: nat where "MESSAGE_SCHEMA_VERSION = 1"
definition MAX_MESSAGE_BODY_BYTES :: nat where "MAX_MESSAGE_BODY_BYTES = 32 * 1024"
definition MAX_MESSAGE_RECIPIENTS :: nat where "MAX_MESSAGE_RECIPIENTS = 32"
definition MAX_MESSAGE_CONTEXTS :: nat where "MAX_MESSAGE_CONTEXTS = 32"
definition MAX_MESSAGE_PAGE_SIZE :: nat where "MAX_MESSAGE_PAGE_SIZE = 100"
definition MAX_MESSAGE_WAIT_MILLISECONDS :: nat where "MAX_MESSAGE_WAIT_MILLISECONDS = 30000"
definition MAX_MESSAGE_IDEMPOTENCY_KEY_BYTES :: nat where "MAX_MESSAGE_IDEMPOTENCY_KEY_BYTES = 256"
definition MAX_MESSAGE_EXTERNAL_METADATA_ENTRIES :: nat where
  "MAX_MESSAGE_EXTERNAL_METADATA_ENTRIES = 16"

definition is_ascii_alphanumeric :: "char \<Rightarrow> bool" where
  "is_ascii_alphanumeric c =
     (48 \<le> ordb c \<and> ordb c \<le> 57 \<or> 65 \<le> ordb c \<and> ordb c \<le> 90 \<or> 97 \<le> ordb c \<and> ordb c \<le> 122)"

definition endpoint_segment_ok :: "string \<Rightarrow> bool" where
  "endpoint_segment_ok segment =
     (segment \<noteq> [] \<and> length segment \<le> 64 \<and> is_ascii_alphanumeric (hd segment)
      \<and> list_all (\<lambda>b. is_ascii_alphanumeric b \<or> b = CHR ''_'' \<or> b = CHR ''-'') segment)"

definition valid_message_app_endpoint :: "string \<Rightarrow> bool" where
  "valid_message_app_endpoint v =
     (v \<noteq> [] \<and> length v \<le> 519 \<and> length (split_on CHR ''/'' v) \<le> 8
      \<and> list_all endpoint_segment_ok (split_on CHR ''/'' v))"

end
