(* ===== verification/Upload_Controller.thy ===== *)
theory Upload_Controller
  imports Message_Types "HOL-Library.AList"
begin

text \<open>
  The machine side of browser uploads (\<open>treer-agent-server/src/machine_upload.rs\<close>): the registry of
  staged files, offset-bearing chunks, parts closed by their SHA-256, publication with receipts, and
  the journals a restarted Controller recovers from.  A staged file is its bytes and write position.
  A hasher is the bytes it has been fed, and SHA-256 and base64 are parameters (\<open>upload_lib\<close>); what
  the file system answers during one call is the record \<open>upload_io\<close>.  Operations run under the
  registry's mutex, except that a commit takes the upload out of the registry, publishes without the
  lock and then stores the receipt: \<open>commit_take\<close> and \<open>commit_finish\<close> are two steps.  The Controller's
  socket loop runs one command at a time (\<open>proxy.rs\<close>), so no command comes between the two in the
  program; the transition system allows it, and what it proves of all its histories holds of those.
\<close>

section \<open>Limits and errors\<close>

definition MACHINE_UPLOAD_MAX_BYTES :: nat where "MACHINE_UPLOAD_MAX_BYTES = 128 * 1024 * 1024"
definition MACHINE_UPLOAD_CHUNK_BYTES :: nat where "MACHINE_UPLOAD_CHUNK_BYTES = 192 * 1024"
definition MACHINE_UPLOAD_PART_MAX_BYTES :: nat where "MACHINE_UPLOAD_PART_MAX_BYTES = 8 * 1024 * 1024"
definition MACHINE_UPLOAD_PART_MIN_BYTES :: nat where "MACHINE_UPLOAD_PART_MIN_BYTES = 1024 * 1024"
definition MACHINE_UPLOAD_MAX_PARTS :: nat where "MACHINE_UPLOAD_MAX_PARTS = 160"
definition MACHINE_UPLOAD_MAX_ACTIVE :: nat where "MACHINE_UPLOAD_MAX_ACTIVE = 8"
definition MACHINE_UPLOAD_IDLE_SECONDS :: nat where "MACHINE_UPLOAD_IDLE_SECONDS = 60 * 60"
definition MACHINE_UPLOAD_MAX_LIFETIME_SECONDS :: nat where "MACHINE_UPLOAD_MAX_LIFETIME_SECONDS = 6 * 60 * 60"
definition MACHINE_UPLOAD_RESULT_RETENTION_SECONDS :: nat where
  "MACHINE_UPLOAD_RESULT_RETENTION_SECONDS = 24 * 60 * 60"
definition MACHINE_UPLOAD_RECEIPT_RETENTION_SECONDS :: nat where
  "MACHINE_UPLOAD_RECEIPT_RETENTION_SECONDS = 10 * 60"
definition SPACE_RESERVE_MIN_BYTES :: nat where "SPACE_RESERVE_MIN_BYTES = 128 * 1024 * 1024"
definition MAX_STORED_RESULTS :: nat where "MAX_STORED_RESULTS = 256"
definition MAX_FAILED_SWEEPS :: nat where "MAX_FAILED_SWEEPS = 5"

definition sat_add :: "nat \<Rightarrow> nat \<Rightarrow> nat" where
  "sat_add a b = min (2 ^ 64 - 1) (a + b)"

text \<open>Kinds of \<open>std::io::Error\<close>; \<open>Uncertain\<close> is the platform's \<open>PublishedButUnconfirmed\<close>.\<close>

datatype io_kind = AlreadyExists | NotFound | PermissionDenied | InvalidInput | Unsupported | OtherKind

datatype io_error = Uncertain | Kind io_kind

fun io_failure :: "io_error \<Rightarrow> protocol_error" where
  "io_failure Uncertain = protocol_error_new ''machine_upload_commit_uncertain''
     ''destination was published but durability/cleanup is unconfirmed; inspect before retrying''"
| "io_failure (Kind AlreadyExists) = protocol_error_new ''machine_file_exists'' ''destination already exists''"
| "io_failure (Kind NotFound) = protocol_error_new ''machine_file_not_found''
     ''file or parent directory is unavailable''"
| "io_failure (Kind PermissionDenied) = protocol_error_new ''machine_file_denied'' ''upload path is not permitted''"
| "io_failure (Kind InvalidInput) = protocol_error_new ''invalid_machine_path''
     ''upload requires a safe root-relative regular-file path''"
| "io_failure (Kind Unsupported) = protocol_error_new ''machine_upload_publish_unsupported''
     ''the destination filesystem cannot publish without replacing''"
| "io_failure (Kind OtherKind) = protocol_error_new ''machine_upload_failed'' ''upload filesystem operation failed''"

definition io_check :: "io_kind option \<Rightarrow> unit res" where
  "io_check r = (case r of None \<Rightarrow> Inr () | Some k \<Rightarrow> Inl (io_failure (Kind k)))"

section \<open>State\<close>

record part_record =
  pr_offset :: nat
  pr_length :: nat
  pr_sha256 :: string

datatype stored_outcome = OutcomeCommitted | OutcomeFailed

record stored_result =
  st_upload_id :: string
  st_path :: string
  st_bytes_written :: nat
  st_sha256 :: string
  st_committed_at :: nat
  st_cleanup_pending :: bool
  st_outcome :: stored_outcome
  st_code :: "string option"

record staged_file =
  sg_bytes :: string
  sg_pos :: nat

text \<open>
  \<open>staged\<close> is an \<open>Option\<close> in the code; it is present in every registered upload and taken by a
  commit after the upload has left the registry.
\<close>

record upload =
  up_path :: string
  up_staged :: staged_file
  up_overwrite :: bool
  up_declared :: "nat option"
  up_written :: nat
  up_committed :: nat
  up_parts :: "part_record list"
  up_part_hash :: string
  up_file_hash :: string
  up_committed_hash :: string
  up_created :: instant
  up_touched :: instant

record intent_record =
  in_path :: string
  in_id :: string
  in_failed_sweeps :: nat

datatype journaled_intent = IntentRecord intent_record | LegacyIntent string string

fun intent_of :: "journaled_intent \<Rightarrow> intent_record" where
  "intent_of (IntentRecord r) = r"
| "intent_of (LegacyIntent path i) = \<lparr>in_path = path, in_id = i, in_failed_sweeps = 0\<rparr>"

text \<open>
  The registry, the two journals on disk, the uploads a commit is publishing, and the files
  published so far with the upload that published them.
\<close>

record uploads =
  ul_server_id :: string
  ul_entries :: "(string \<times> upload) list"
  ul_results :: "stored_result list"
  ul_recovered :: bool
  ul_unswept :: "intent_record list"
  ul_journal_intents :: "journaled_intent list"
  ul_journal_results :: "stored_result list"
  ul_publishing :: "(string \<times> upload) list"
  ul_published :: "(string \<times> string \<times> string) list"

record upload_lib =
  lb_b64_encode :: "string \<Rightarrow> string"
  lb_b64_decode :: "string \<Rightarrow> string option"
  lb_sha256_hex :: "string \<Rightarrow> string"
  lb_reserved_name :: "string \<Rightarrow> string"

text \<open>
  \<open>oi_write\<close> is a failing \<open>write_all\<close> with the number of bytes stored before the error; the other
  fields are the errors of the named calls, absent when they succeed.  A call of \<open>chunk\<close> may rewind
  twice: at its start (\<open>oi_set_len\<close>, \<open>oi_seek\<close>) and to discard what it wrote.
\<close>

record upload_io =
  oi_root :: "io_kind option"
  oi_recover_root :: "io_kind option"
  oi_recover_journal :: "io_kind option"
  oi_read_intents :: "protocol_error option"
  oi_read_results :: "protocol_error option"
  oi_sweep :: "string \<Rightarrow> io_kind option"
  oi_write_swept :: "protocol_error option"
  oi_target :: "io_kind option"
  oi_available :: "io_kind + nat"
  oi_journal :: "io_kind option"
  oi_write_intents :: "protocol_error option"
  oi_stage :: "io_kind option"
  oi_persist :: "protocol_error option"
  oi_persist_results :: "protocol_error option"
  oi_write :: "(nat \<times> io_kind) option"
  oi_set_len :: "io_kind option"
  oi_seek :: "io_kind option"
  oi_discard_set_len :: "io_kind option"
  oi_discard_seek :: "io_kind option"
  oi_metadata :: "io_kind option"
  oi_publish :: "io_error option"
  oi_busy :: bool
  oi_now :: instant
  oi_epoch :: nat

definition uploads_new :: "string \<Rightarrow> uploads" where
  "uploads_new server_id = \<lparr>ul_server_id = server_id, ul_entries = [], ul_results = [], ul_recovered = False,
     ul_unswept = [], ul_journal_intents = [], ul_journal_results = [], ul_publishing = [], ul_published = []\<rparr>"

section \<open>Paths\<close>

definition is_ascii_digit :: "char \<Rightarrow> bool" where
  "is_ascii_digit c = (48 \<le> ordb c \<and> ordb c \<le> 57)"

definition to_ascii_lower :: "char \<Rightarrow> char" where
  "to_ascii_lower c = (if 65 \<le> ordb c \<and> ordb c \<le> 90 then char_of (ordb c + 32) else c)"

definition to_ascii_upper :: "char \<Rightarrow> char" where
  "to_ascii_upper c = (if 97 \<le> ordb c \<and> ordb c \<le> 122 then char_of (ordb c - 32) else c)"

definition is_ascii_hexdigit :: "char \<Rightarrow> bool" where
  "is_ascii_hexdigit c = (is_ascii_digit c \<or> 65 \<le> ordb c \<and> ordb c \<le> 70 \<or> 97 \<le> ordb c \<and> ordb c \<le> 102)"

definition ends_with_char :: "string \<Rightarrow> char \<Rightarrow> bool" where
  "ends_with_char s c = (s \<noteq> [] \<and> last s = c)"

text \<open>The suffixes are the digits 1 to 9 and the superscripts one, two and three in UTF-8.\<close>

definition device_suffix :: "string \<Rightarrow> bool" where
  "device_suffix s = (s \<in> {''1'', ''2'', ''3'', ''4'', ''5'', ''6'', ''7'', ''8'', ''9''}
     \<or> map ordb s \<in> {[194, 185], [194, 178], [194, 179]})"

definition bad_component :: "string \<Rightarrow> bool" where
  "bad_component part =
     (let base = map to_ascii_upper (hd (split_on CHR ''.'' part)) in
      part = [] \<or> ends_with_char base CHR '' '' \<or> part = ''.'' \<or> part = ''..'' \<or> 255 < length part
      \<or> ends_with_char part CHR ''.'' \<or> ends_with_char part CHR '' ''
      \<or> has_control part \<or> list_ex (\<lambda>c. ordb c \<in> {92, 58, 60, 62, 34, 124, 63, 42}) part
      \<or> base \<in> {''CON'', ''PRN'', ''AUX'', ''NUL'', ''CLOCK$'', ''CONIN$'', ''CONOUT$''}
      \<or> list_ex (\<lambda>prefix. is_some_and (strip_prefix base prefix) device_suffix) [''COM'', ''LPT'']
      \<or> is_some_and (split_once CHR ''~'' part) (\<lambda>(_, tail). tail \<noteq> [] \<and> is_ascii_digit (hd tail)))"

definition validate_relative_path :: "string \<Rightarrow> io_kind + string list" where
  "validate_relative_path path =
     (let parts = split_on CHR ''/'' path in
      if 4096 < length path \<or> 128 < length parts \<or> list_ex bad_component parts then Inl InvalidInput
      else Inr parts)"

definition validate_upload_id :: "string \<Rightarrow> unit res" where
  "validate_upload_id i =
     (if length i < 8 \<or> 80 < length i \<or> \<not> list_all (\<lambda>b. is_ascii_alphanumeric b \<or> b = CHR ''_'') i then
        Inl (protocol_error_new ''invalid_machine_upload'' ''upload ID is invalid'')
      else Inr ())"

text \<open>
  A file name without separators has one component, which is \<open>Normal\<close> unless the name is empty,
  a dot or two dots.
\<close>

definition validate_file_name :: "string \<Rightarrow> unit res" where
  "validate_file_name name =
     (if name = [] \<or> name = ''.'' \<or> name = ''..'' \<or> CHR ''/'' \<in> set name \<or> CHR 0x5C \<in> set name \<or> has_control name then
        Inl (protocol_error_new ''invalid_machine_file_name''
          ''file_name must be one file name without path separators'')
      else Inr ())"

definition relative_path :: "string \<Rightarrow> string \<Rightarrow> string res" where
  "relative_path directory file_name =
     and_then (validate_file_name file_name) (\<lambda>_.
     let directory = trim directory;
         directory = trim_end_matches CHR ''/''
           (case strip_prefix directory ''./'' of Some d \<Rightarrow> d | None \<Rightarrow> directory) in
     if starts_with directory ''/'' then
       Inl (protocol_error_new ''invalid_machine_path'' ''directory must be relative to the machine root'')
     else
       let path = (if directory = [] \<or> directory = ''.'' then file_name else directory @ ''/'' @ file_name) in
       and_then (map_err (\<lambda>k. io_failure (Kind k)) (validate_relative_path path)) (\<lambda>_. Inr path))"

definition is_reserved_namespace :: "upload_lib \<Rightarrow> string \<Rightarrow> io_kind + bool" where
  "is_reserved_namespace l path =
     and_then (validate_relative_path path) (\<lambda>parts.
     Inr (list_ex (\<lambda>part. let name = lb_reserved_name l part in
       name = ''.TREER'' \<or> starts_with name ''.TREER-TRANSFER-'') parts))"

section \<open>Recovery and journals\<close>

definition upload_state_error :: "string \<Rightarrow> protocol_error" where
  "upload_state_error m = protocol_error_new ''state_error'' m"

definition sweep_one ::
  "upload_lib \<Rightarrow> upload_io \<Rightarrow> journaled_intent \<Rightarrow> intent_record list \<Rightarrow> intent_record list res" where
  "sweep_one l io intent kept =
     (let r = intent_of intent in
      if validate_upload_id (in_id r) \<noteq> Inr () \<or> \<not> starts_with (in_id r) ''upl_'' then
        Inl (upload_state_error ''invalid upload recovery identifier'')
      else
        and_then (map_err (\<lambda>k. io_failure (Kind k)) (is_reserved_namespace l (in_path r))) (\<lambda>reserved.
        if reserved then Inr kept
        else (case oi_sweep io (in_id r) of
            None \<Rightarrow> Inr kept
          | Some k \<Rightarrow>
              if k = NotFound then Inr kept
              else
                let r1 = r\<lparr>in_failed_sweeps := min (2 ^ 32 - 1) (Suc (in_failed_sweeps r))\<rparr> in
                if MAX_FAILED_SWEEPS \<le> in_failed_sweeps r1 then Inr kept else Inr (kept @ [r1]))))"

definition result_retained :: "nat \<Rightarrow> stored_result \<Rightarrow> bool" where
  "result_retained now r = (now - st_committed_at r < MACHINE_UPLOAD_RESULT_RETENTION_SECONDS)"

definition recover_intents :: "upload_lib \<Rightarrow> upload_io \<Rightarrow> uploads \<Rightarrow> intent_record list res" where
  "recover_intents l io s =
     and_then (io_check (oi_recover_root io)) (\<lambda>_.
     and_then (io_check (oi_recover_journal io)) (\<lambda>_.
     and_then (case oi_read_intents io of Some e \<Rightarrow> Inl e | None \<Rightarrow> Inr (ul_journal_intents s)) (\<lambda>intents.
     if MACHINE_UPLOAD_MAX_ACTIVE + 1 < length intents then
       Inl (upload_state_error ''too many upload recovery records'')
     else try_fold (sweep_one l io) intents [])))"

definition recover :: "upload_lib \<Rightarrow> upload_io \<Rightarrow> uploads \<Rightarrow> unit res \<times> uploads" where
  "recover l io s =
     (if ul_recovered s then (Inr (), s)
      else (case recover_intents l io s of
          Inl e \<Rightarrow> (Inl e, s)
        | Inr kept \<Rightarrow> (case oi_write_swept io of
              Some e \<Rightarrow> (Inl e, s)
            | None \<Rightarrow>
                let s1 = s\<lparr>ul_journal_intents := map IntentRecord kept, ul_unswept := kept\<rparr> in
                (case oi_read_results io of
                   Some e \<Rightarrow> (Inl e, s1)
                 | None \<Rightarrow> (Inr (), s1\<lparr>ul_results := filter (result_retained (oi_epoch io)) (ul_journal_results s1),
                                       ul_recovered := True\<rparr>)))))"

definition intents_of :: "uploads \<Rightarrow> intent_record list" where
  "intents_of s = ul_unswept s
     @ map (\<lambda>(i, u). \<lparr>in_path = up_path u, in_id = i, in_failed_sweeps = 0\<rparr>) (ul_entries s)"

text \<open>Every caller ignores the result of \<open>persist_intents\<close>.\<close>

definition persist_intents :: "upload_io \<Rightarrow> uploads \<Rightarrow> uploads" where
  "persist_intents io s = (case oi_persist io of
      Some e \<Rightarrow> s
    | None \<Rightarrow> s\<lparr>ul_journal_intents := map IntentRecord (intents_of s)\<rparr>)"

section \<open>Begin\<close>

definition new_upload :: "string \<Rightarrow> bool \<Rightarrow> nat option \<Rightarrow> instant \<Rightarrow> upload" where
  "new_upload path overwrite declared now =
     \<lparr>up_path = path, up_staged = \<lparr>sg_bytes = [], sg_pos = 0\<rparr>, up_overwrite = overwrite, up_declared = declared,
      up_written = 0, up_committed = 0, up_parts = [], up_part_hash = [], up_file_hash = [],
      up_committed_hash = [], up_created = now, up_touched = now\<rparr>"

definition outstanding_bytes :: "uploads \<Rightarrow> nat" where
  "outstanding_bytes s = sum_list (map (\<lambda>(i, u).
     (case up_declared u of None \<Rightarrow> 0 | Some n \<Rightarrow> n) - up_written u) (ul_entries s))"

definition check_space :: "upload_io \<Rightarrow> nat option \<Rightarrow> uploads \<Rightarrow> unit res" where
  "check_space io declared s = (case declared of
      None \<Rightarrow> Inr ()
    | Some n \<Rightarrow>
        let reserve = max (n div 20) SPACE_RESERVE_MIN_BYTES in
        and_then (map_err (\<lambda>k. io_failure (Kind k)) (oi_available io)) (\<lambda>available.
        if available < sat_add (sat_add n reserve) (outstanding_bytes s) then
          Inl (protocol_error_new ''machine_upload_space_insufficient''
            ''the destination volume does not have enough free space for this upload'')
        else Inr ()))"

definition begin_checks :: "upload_io \<Rightarrow> string \<Rightarrow> nat option \<Rightarrow> uploads \<Rightarrow> unit res" where
  "begin_checks io i declared s =
     and_then (io_check (oi_root io)) (\<lambda>_.
     and_then (io_check (oi_target io)) (\<lambda>_.
     if map_of (ul_entries s) i \<noteq> None then
       Inl (protocol_error_new ''machine_upload_exists'' ''upload ID is already active'')
     else if MACHINE_UPLOAD_MAX_ACTIVE \<le> length (ul_entries s) then
       Inl (protocol_error_new ''machine_upload_busy''
         (''this machine is already staging '' @ dec_string MACHINE_UPLOAD_MAX_ACTIVE @ '' uploads''))
     else
       and_then (check_space io declared s) (\<lambda>_.
       io_check (oi_journal io))))"

definition begin_target ::
  "string \<Rightarrow> string \<Rightarrow> string \<Rightarrow> nat option \<Rightarrow> string res" where
  "begin_target i directory file_name declared =
     and_then (validate_upload_id i) (\<lambda>_.
     if is_some_and declared (\<lambda>n. MACHINE_UPLOAD_MAX_BYTES < n) then
       Inl (protocol_error_new ''machine_upload_too_large''
         (''uploaded files may contain at most '' @ dec_string MACHINE_UPLOAD_MAX_BYTES @ '' bytes''))
     else relative_path directory file_name)"

definition upload_begin ::
  "upload_lib \<Rightarrow> upload_io \<Rightarrow> string \<Rightarrow> string \<Rightarrow> string \<Rightarrow> bool \<Rightarrow> nat option \<Rightarrow> uploads
   \<Rightarrow> unit res \<times> uploads" where
  "upload_begin l io i directory file_name overwrite declared s =
     (case begin_target i directory file_name declared of
        Inl e \<Rightarrow> (Inl e, s)
      | Inr path \<Rightarrow>
          let (r, s1) = recover l io s in
          (case and_then r (\<lambda>_. begin_checks io i declared s1) of
             Inl e \<Rightarrow> (Inl e, s1)
           | Inr _ \<Rightarrow>
               let planned = intents_of s1 @ [\<lparr>in_path = path, in_id = i, in_failed_sweeps = 0\<rparr>] in
               (case oi_write_intents io of
                  Some e \<Rightarrow> (Inl e, s1)
                | None \<Rightarrow>
                    let s2 = s1\<lparr>ul_journal_intents := map IntentRecord planned\<rparr> in
                    (case oi_stage io of
                       Some k \<Rightarrow> (Inl (io_failure (Kind k)), persist_intents io s2)
                     | None \<Rightarrow> (Inr (), s2\<lparr>ul_entries := ul_entries s2
                         @ [(i, new_upload path overwrite declared (oi_now io))]\<rparr>)))))"

section \<open>Chunks and parts\<close>

definition set_upload :: "string \<Rightarrow> upload \<Rightarrow> uploads \<Rightarrow> uploads" where
  "set_upload i u s = s\<lparr>ul_entries := AList.update i u (ul_entries s)\<rparr>"

definition drop_upload :: "string \<Rightarrow> uploads \<Rightarrow> uploads" where
  "drop_upload i s = s\<lparr>ul_entries := AList.delete i (ul_entries s)\<rparr>"

text \<open>Files: writing beyond the end and extending fill the gap with zeros.\<close>

definition set_len :: "nat \<Rightarrow> staged_file \<Rightarrow> staged_file" where
  "set_len n f = f\<lparr>sg_bytes := take n (sg_bytes f) @ replicate (n - length (sg_bytes f)) (CHR 0x00)\<rparr>"

definition write_bytes :: "string \<Rightarrow> staged_file \<Rightarrow> staged_file" where
  "write_bytes content f =
     (let b = sg_bytes f @ replicate (sg_pos f - length (sg_bytes f)) (CHR 0x00) in
      \<lparr>sg_bytes = take (sg_pos f) b @ content @ drop (sg_pos f + length content) b,
       sg_pos = sg_pos f + length content\<rparr>)"

definition rewind :: "io_kind option \<Rightarrow> io_kind option \<Rightarrow> upload \<Rightarrow> unit res \<times> upload" where
  "rewind truncated sought u =
     (case truncated of
        Some k \<Rightarrow> (Inl (io_failure (Kind k)), u)
      | None \<Rightarrow>
          let u1 = u\<lparr>up_staged := set_len (up_committed u) (up_staged u)\<rparr> in
          (case sought of
             Some k \<Rightarrow> (Inl (io_failure (Kind k)), u1)
           | None \<Rightarrow> (Inr (), u1\<lparr>up_staged := (up_staged u1)\<lparr>sg_pos := up_committed u1\<rparr>,
                up_written := up_committed u1, up_part_hash := [], up_file_hash := up_committed_hash u1\<rparr>)))"

definition chunk_position :: "upload_io \<Rightarrow> nat option \<Rightarrow> upload \<Rightarrow> unit res \<times> upload" where
  "chunk_position io offset u =
     (case (up_declared u, offset) of
        (None, None) \<Rightarrow> (Inr (), u)
      | (Some _, Some at) \<Rightarrow>
          if at = up_committed u \<and> up_committed u < up_written u then rewind (oi_set_len io) (oi_seek io) u
          else if at \<noteq> up_written u then
            (Inl (protocol_error_new ''machine_upload_offset''
               ''chunk offset is neither the written-through nor the committed position''), u)
          else (Inr (), u)
      | _ \<Rightarrow> (Inl (protocol_error_new ''machine_upload_mode_mismatch''
               ''chunk offsets are required for declared-size uploads and refused for legacy uploads''), u))"

definition chunk_discard :: "upload_io \<Rightarrow> string \<Rightarrow> upload \<Rightarrow> uploads \<Rightarrow> uploads" where
  "chunk_discard io i u s =
     (if up_declared u \<noteq> None then
        set_upload i (snd (rewind (oi_discard_set_len io) (oi_discard_seek io) u)) s
      else persist_intents io (drop_upload i s))"

definition chunk_write :: "upload_io \<Rightarrow> string \<Rightarrow> string \<Rightarrow> upload \<Rightarrow> uploads \<Rightarrow> nat res \<times> uploads" where
  "chunk_write io i content u s =
     (let cap = (case up_declared u of Some n \<Rightarrow> n | None \<Rightarrow> MACHINE_UPLOAD_MAX_BYTES);
          total = sat_add (up_written u) (length content) in
      if cap < total then
        (Inl (protocol_error_new ''machine_upload_too_large''
           (''upload exceeds its declared size or the '' @ dec_string cap @ '' byte limit'')),
         chunk_discard io i u s)
      else (case oi_write io of
          Some (stored, k) \<Rightarrow>
            (Inl (io_failure (Kind k)),
             chunk_discard io i (u\<lparr>up_staged := write_bytes (take stored content) (up_staged u)\<rparr>) s)
        | None \<Rightarrow>
            (Inr total, set_upload i (u\<lparr>up_staged := write_bytes content (up_staged u),
               up_part_hash := up_part_hash u @ content, up_file_hash := up_file_hash u @ content,
               up_written := total, up_touched := oi_now io\<rparr>) s)))"

definition upload_not_found :: protocol_error where
  "upload_not_found = protocol_error_new ''machine_upload_not_found'' ''upload is not active''"

definition upload_chunk ::
  "upload_lib \<Rightarrow> upload_io \<Rightarrow> string \<Rightarrow> nat option \<Rightarrow> string \<Rightarrow> uploads \<Rightarrow> nat res \<times> uploads" where
  "upload_chunk l io i offset content_base64 s =
     (case lb_b64_decode l content_base64 of
        None \<Rightarrow> (Inl (protocol_error_new ''invalid_machine_upload'' ''chunk is not valid base64''), s)
      | Some content \<Rightarrow>
          if MACHINE_UPLOAD_CHUNK_BYTES < length content then
            (Inl (protocol_error_new ''machine_upload_chunk_too_large''
               (''upload chunks may contain at most '' @ dec_string MACHINE_UPLOAD_CHUNK_BYTES @ '' bytes'')), s)
          else (case map_of (ul_entries s) i of
              None \<Rightarrow> (Inl upload_not_found, s)
            | Some u \<Rightarrow> (case chunk_position io offset u of
                  (Inl e, u1) \<Rightarrow> (Inl e, set_upload i u1 s)
                | (Inr _, u1) \<Rightarrow> chunk_write io i content u1 s)))"

definition part_answer :: "nat \<Rightarrow> bool \<Rightarrow> json" where
  "part_answer committed idempotent =
     JObject [(''committed_offset'', JNumber committed), (''idempotent'', JBool idempotent)]"

definition part_close :: "upload_lib \<Rightarrow> upload_io \<Rightarrow> nat \<Rightarrow> nat \<Rightarrow> string \<Rightarrow> upload \<Rightarrow> json res \<times> upload" where
  "part_close l io offset len sha256 u =
     (if up_declared u = None then
        (Inl (protocol_error_new ''machine_upload_mode_mismatch'' ''legacy uploads have no parts''), u)
      else if sat_add offset len \<le> up_committed u then
        (if list_ex (\<lambda>p. pr_offset p = offset \<and> pr_length p = len \<and> pr_sha256 p = sha256) (up_parts u) then
           (Inr (part_answer (up_committed u) True), u)
         else (Inl (protocol_error_new ''upload_part_conflict''
             ''a different part is already committed at this offset''), u))
      else if offset \<noteq> up_committed u \<or> sat_add offset len \<noteq> up_written u then
        (Inl (protocol_error_new ''machine_upload_offset''
           ''part does not cover exactly the bytes written since the committed offset''), u)
      else (case io_check (oi_metadata io) of
          Inl e \<Rightarrow> (Inl e, u)
        | Inr _ \<Rightarrow>
            if length (sg_bytes (up_staged u)) \<noteq> up_written u then
              (case rewind (oi_set_len io) (oi_seek io) u of
                 (Inl e, u1) \<Rightarrow> (Inl e, u1)
               | (Inr _, u1) \<Rightarrow> (Inl (protocol_error_new ''machine_upload_file_mismatch''
                   ''the staging file does not hold exactly the bytes written; the part was discarded''), u1))
            else if lb_sha256_hex l (up_part_hash u) \<noteq> sha256 then
              (case rewind (oi_set_len io) (oi_seek io) u of
                 (Inl e, u1) \<Rightarrow> (Inl e, u1)
               | (Inr _, u1) \<Rightarrow> (Inl (protocol_error_new ''upload_part_hash_mismatch''
                   ''the Controller's SHA-256 of the part differs from the declared one; the part was discarded''), u1))
            else
              (Inr (part_answer (up_written u) False),
               u\<lparr>up_committed := up_written u, up_committed_hash := up_file_hash u, up_part_hash := [],
                 up_parts := up_parts u @ [\<lparr>pr_offset = offset, pr_length = len, pr_sha256 = sha256\<rparr>],
                 up_touched := oi_now io\<rparr>)))"

definition part_commit ::
  "upload_lib \<Rightarrow> upload_io \<Rightarrow> string \<Rightarrow> nat \<Rightarrow> nat \<Rightarrow> string \<Rightarrow> uploads \<Rightarrow> json res \<times> uploads" where
  "part_commit l io i offset len sha256_text s =
     (let sha256 = map to_ascii_lower sha256_text in
      if length sha256 \<noteq> 64 \<or> \<not> list_all is_ascii_hexdigit sha256 then
        (Inl (protocol_error_new ''invalid_machine_upload'' ''part SHA-256 is invalid''), s)
      else (case map_of (ul_entries s) i of
          None \<Rightarrow> (Inl upload_not_found, s)
        | Some u \<Rightarrow> (case part_close l io offset len sha256 u of (r, u1) \<Rightarrow> (r, set_upload i u1 s))))"

section \<open>Receipts and publication\<close>

record file_response =
  fr_server_id :: string
  fr_path :: string
  fr_bytes_written :: nat
  fr_sha256 :: "string option"
  fr_cleanup_pending :: bool

definition is_failed :: "stored_result \<Rightarrow> bool" where
  "is_failed r = (st_outcome r = OutcomeFailed)"

text \<open>The first failed receipt goes, or the first of all.\<close>

definition remove_victim :: "stored_result list \<Rightarrow> stored_result list" where
  "remove_victim rs = (if list_ex is_failed rs
     then takeWhile (\<lambda>r. \<not> is_failed r) rs @ tl (dropWhile (\<lambda>r. \<not> is_failed r) rs) else tl rs)"

function trim_results :: "stored_result list \<Rightarrow> stored_result list" where
  "trim_results rs = (if MAX_STORED_RESULTS < length rs then trim_results (remove_victim rs) else rs)"
  by pat_completeness auto

lemma remove_victim_length: "rs \<noteq> [] \<Longrightarrow> Suc (length (remove_victim rs)) = length rs"
proof (cases "list_ex is_failed rs")
  case True
  then have "dropWhile (\<lambda>r. \<not> is_failed r) rs \<noteq> []" by (auto simp: list_ex_iff dropWhile_eq_Nil_conv)
  then have "Suc (length (tl (dropWhile (\<lambda>r. \<not> is_failed r) rs))) = length (dropWhile (\<lambda>r. \<not> is_failed r) rs)"
    by (cases "dropWhile (\<lambda>r. \<not> is_failed r) rs") auto
  moreover have "length (takeWhile (\<lambda>r. \<not> is_failed r) rs) + length (dropWhile (\<lambda>r. \<not> is_failed r) rs) = length rs"
    by (metis length_append takeWhile_dropWhile_id)
  ultimately show ?thesis using True by (simp only: remove_victim_def if_True length_append)
qed (simp add: remove_victim_def)

termination trim_results
proof (relation "measure length")
  fix rs :: "stored_result list" assume "MAX_STORED_RESULTS < length rs"
  then show "(remove_victim rs, rs) \<in> measure length" using remove_victim_length [of rs] by fastforce
qed simp

declare trim_results.simps [simp del]

definition store_result :: "upload_io \<Rightarrow> stored_result \<Rightarrow> uploads \<Rightarrow> uploads" where
  "store_result io receipt s =
     (if list_ex (\<lambda>r. st_upload_id r = st_upload_id receipt) (ul_results s) then s
      else
        let results = trim_results (filter (result_retained (oi_epoch io)) (ul_results s) @ [receipt]);
            s1 = s\<lparr>ul_results := results\<rparr> in
        (case oi_persist_results io of
           Some e \<Rightarrow> s1 | None \<Rightarrow> s1\<lparr>ul_journal_results := results\<rparr>))"

definition response_of :: "uploads \<Rightarrow> stored_result \<Rightarrow> file_response" where
  "response_of s r = \<lparr>fr_server_id = ul_server_id s, fr_path = st_path r, fr_bytes_written = st_bytes_written r,
     fr_sha256 = Some (st_sha256 r), fr_cleanup_pending = st_cleanup_pending r\<rparr>"

definition stored_answer :: "uploads \<Rightarrow> stored_result \<Rightarrow> file_response res" where
  "stored_answer s r = (case st_outcome r of
      OutcomeCommitted \<Rightarrow> Inr (response_of s r)
    | OutcomeFailed \<Rightarrow> Inl (protocol_error_new
        (case st_code r of Some c \<Rightarrow> c | None \<Rightarrow> ''machine_upload_failed'') ''the upload failed to publish''))"

definition stored_result_of :: "string \<Rightarrow> uploads \<Rightarrow> file_response res option" where
  "stored_result_of i s = map_option (stored_answer s) (find (\<lambda>r. st_upload_id r = i) (ul_results s))"

text \<open>
  \<open>commit_take\<close> runs until the lock is dropped: it gives the answer, or takes the upload out of the
  registry for publication.
\<close>

definition commit_take ::
  "upload_lib \<Rightarrow> upload_io \<Rightarrow> string \<Rightarrow> uploads \<Rightarrow> (file_response res + upload) \<times> uploads" where
  "commit_take l io i s =
     (case recover l io s of
        (Inl e, s1) \<Rightarrow> (Inl (Inl e), s1)
      | (Inr _, s1) \<Rightarrow> (case stored_result_of i s1 of
            Some answer \<Rightarrow> (Inl answer, s1)
          | None \<Rightarrow> (case map_of (ul_entries s1) i of
                None \<Rightarrow> (Inl (Inl upload_not_found), s1)
              | Some u \<Rightarrow>
                  if is_some_and (up_declared u) (\<lambda>n. up_committed u \<noteq> n \<or> up_written u \<noteq> n) then
                    (Inl (Inl (protocol_error_new ''machine_upload_size_mismatch''
                       ''the upload did not deliver exactly its declared size'')), s1)
                  else (Inr u, (drop_upload i s1)\<lparr>ul_publishing := ul_publishing s1 @ [(i, u)]\<rparr>))))"

definition publish_outcome :: "upload_io \<Rightarrow> unit res" where
  "publish_outcome io =
     and_then (io_check (oi_root io)) (\<lambda>_.
     and_then (io_check (oi_target io)) (\<lambda>_.
     case oi_publish io of None \<Rightarrow> Inr () | Some e \<Rightarrow> Inl (io_failure e)))"

text \<open>The destination holds the staged bytes when the platform's commit got past its last check.\<close>

definition reaches_disk :: "upload_io \<Rightarrow> bool" where
  "reaches_disk io = (oi_root io = None \<and> oi_target io = None \<and> oi_publish io \<in> {None, Some Uncertain})"

definition receipt_of :: "upload_lib \<Rightarrow> upload_io \<Rightarrow> string \<Rightarrow> upload \<Rightarrow> string option \<Rightarrow> bool \<Rightarrow> stored_result" where
  "receipt_of l io i u code cleanup =
     \<lparr>st_upload_id = i, st_path = (if code = None then up_path u else []), st_bytes_written = up_written u,
      st_sha256 = lb_sha256_hex l (if up_declared u \<noteq> None then up_committed_hash u else up_file_hash u),
      st_committed_at = oi_epoch io, st_cleanup_pending = cleanup,
      st_outcome = (if code = None then OutcomeCommitted else OutcomeFailed), st_code = code\<rparr>"

definition keep_receipt :: "upload_io \<Rightarrow> upload \<Rightarrow> stored_result \<Rightarrow> uploads \<Rightarrow> uploads" where
  "keep_receipt io u receipt s = (if up_declared u \<noteq> None then store_result io receipt s else s)"

definition commit_finish ::
  "upload_lib \<Rightarrow> upload_io \<Rightarrow> string \<Rightarrow> upload \<Rightarrow> uploads \<Rightarrow> file_response res \<times> uploads" where
  "commit_finish l io i u s =
     (let s1 = s\<lparr>ul_publishing := remove1 (i, u) (ul_publishing s),
            ul_published := ul_published s
              @ (if reaches_disk io then [(i, up_path u, sg_bytes (up_staged u))] else [])\<rparr>;
          s2 = persist_intents io s1 in
      case publish_outcome io of
        Inl e \<Rightarrow>
          if pe_code e = ''machine_upload_commit_uncertain'' then
            (Inr (response_of s2 (receipt_of l io i u None True)),
             keep_receipt io u (receipt_of l io i u None True) s2)
          else (Inl e, keep_receipt io u (receipt_of l io i u (Some (pe_code e)) False) s2)
      | Inr _ \<Rightarrow>
          (Inr (response_of s2 (receipt_of l io i u None False)),
           keep_receipt io u (receipt_of l io i u None False) s2))"

definition upload_commit ::
  "upload_lib \<Rightarrow> upload_io \<Rightarrow> upload_io \<Rightarrow> string \<Rightarrow> uploads \<Rightarrow> file_response res \<times> uploads" where
  "upload_commit l io1 io2 i s =
     (case commit_take l io1 i s of
        (Inl answer, s1) \<Rightarrow> (answer, s1)
      | (Inr u, s1) \<Rightarrow> commit_finish l io2 i u s1)"

definition response_json :: "file_response \<Rightarrow> json" where
  "response_json r = JObject ([(''server_id'', JString (fr_server_id r)), (''path'', JString (fr_path r)),
     (''bytes_written'', JNumber (fr_bytes_written r))]
     @ (case fr_sha256 r of None \<Rightarrow> [] | Some h \<Rightarrow> [(''sha256'', JString h)])
     @ (if fr_cleanup_pending r then [(''cleanup_pending'', JBool True)] else []))"

definition part_json :: "part_record \<Rightarrow> json" where
  "part_json p = JObject [(''offset'', JNumber (pr_offset p)), (''length'', JNumber (pr_length p)),
     (''sha256'', JString (pr_sha256 p))]"

definition upload_result :: "upload_lib \<Rightarrow> upload_io \<Rightarrow> string \<Rightarrow> uploads \<Rightarrow> json res \<times> uploads" where
  "upload_result l io i s =
     (case recover l io s of
        (Inl e, s1) \<Rightarrow> (Inl e, s1)
      | (Inr _, s1) \<Rightarrow> (case stored_result_of i s1 of
            Some (Inr r) \<Rightarrow> (Inr (JObject [(''state'', JString ''committed''), (''result'', response_json r)]), s1)
          | Some (Inl e) \<Rightarrow> (Inr (JObject [(''state'', JString ''failed''), (''code'', JString (pe_code e))]), s1)
          | None \<Rightarrow> (case map_of (ul_entries s1) i of
                Some u \<Rightarrow> (Inr (JObject [(''state'', JString ''active''),
                    (''committed_offset'', JNumber (up_committed u)), (''written_offset'', JNumber (up_written u)),
                    (''parts'', JArray (map part_json (up_parts u)))]), s1)
              | None \<Rightarrow> (Inr (JObject [(''state'', JString ''unknown'')]), s1))))"

section \<open>Abort, reaping and restart\<close>

definition upload_abort :: "upload_io \<Rightarrow> string \<Rightarrow> uploads \<Rightarrow> bool res \<times> uploads" where
  "upload_abort io i s =
     (if map_of (ul_entries s) i = None then (Inr False, s)
      else (Inr True, persist_intents io (drop_upload i s)))"

definition NANOS :: nat where "NANOS = 10 ^ 9"

definition reap_keeps :: "instant \<Rightarrow> upload \<Rightarrow> bool" where
  "reap_keeps now u = (now - up_touched u < MACHINE_UPLOAD_IDLE_SECONDS * NANOS
     \<and> now - up_created u < MACHINE_UPLOAD_MAX_LIFETIME_SECONDS * NANOS)"

definition upload_reap :: "upload_io \<Rightarrow> uploads \<Rightarrow> nat \<times> uploads" where
  "upload_reap io s =
     (if oi_busy io then (0, s)
      else
        let kept = filter (\<lambda>(i, u). reap_keeps (oi_now io) u) (ul_entries s);
            reaped = length (ul_entries s) - length kept;
            s1 = s\<lparr>ul_entries := kept\<rparr> in
        (reaped, if 0 < reaped then persist_intents io s1 else s1))"

text \<open>A new Controller process: only the journals, and what was published, survive.\<close>

definition upload_restart :: "uploads \<Rightarrow> uploads" where
  "upload_restart s = (uploads_new (ul_server_id s))\<lparr>ul_journal_intents := ul_journal_intents s,
     ul_journal_results := ul_journal_results s, ul_published := ul_published s\<rparr>"

end
