(* ===== verification/Upload_Store.thy ===== *)
theory Upload_Store
  imports Upload_Controller
begin

text \<open>
  The durable rows of chunked uploads on the Proxy (\<open>upload_store.rs\<close>): quotas and idempotent begins,
  the lease that keeps one part in flight, progress, the states of an upload and the queries of the
  expiry job.  The table is a list of rows; every statement is one step.  Timestamps as text, the
  collation of the database and the JSON columns are parameters (\<open>upload_env\<close>).

  A begin is a transaction under an advisory lock of the machine: it looks up the key and counts,
  and then inserts.  \<open>begin_decide\<close> and \<open>begin_insert\<close> are separate so that begins on different
  machines can be interleaved.
\<close>

section \<open>Rows\<close>

definition UPLOADS_PER_USER :: int where "UPLOADS_PER_USER = 2"
definition UPLOADS_PER_WORKSPACE :: int where "UPLOADS_PER_WORKSPACE = 8"
definition UPLOADS_PER_MACHINE :: int where "UPLOADS_PER_MACHINE = 8"
definition BEGINS_PER_MINUTE :: int where "BEGINS_PER_MINUTE = 10"
definition DECLARED_BYTES_PER_MACHINE :: int where
  "DECLARED_BYTES_PER_MACHINE = 8 * int MACHINE_UPLOAD_MAX_BYTES"
definition LEASE_SECONDS :: int where "LEASE_SECONDS = 150"
definition COMMITTING_RECOVERY_SECONDS :: int where "COMMITTING_RECOVERY_SECONDS = 120"
definition PENDING_RECOVERY_SECONDS :: int where "PENDING_RECOVERY_SECONDS = 300"

definition seconds :: "int \<Rightarrow> int" where
  "seconds n = n * 10 ^ 9"

record upload_receipt =
  rc_path :: string
  rc_bytes_written :: nat
  rc_sha256 :: "string option"
  rc_committed_at :: string
  rc_cleanup_pending :: bool

datatype upload_state = Pending | Active | Committing | Committed | Aborted | Expired | Failed

fun upload_state_as_str :: "upload_state \<Rightarrow> string" where
  "upload_state_as_str Pending = ''pending''"
| "upload_state_as_str Active = ''active''"
| "upload_state_as_str Committing = ''committing''"
| "upload_state_as_str Committed = ''committed''"
| "upload_state_as_str Aborted = ''aborted''"
| "upload_state_as_str Expired = ''expired''"
| "upload_state_as_str Failed = ''failed''"

definition parse_upload_state :: "string \<Rightarrow> upload_state" where
  "parse_upload_state s =
     (if s = ''pending'' then Pending else if s = ''active'' then Active
      else if s = ''committing'' then Committing else if s = ''committed'' then Committed
      else if s = ''aborted'' then Aborted else if s = ''expired'' then Expired else Failed)"

definition is_terminal :: "upload_state \<Rightarrow> bool" where
  "is_terminal s = (s \<in> {Committed, Aborted, Expired, Failed})"

record upload_row =
  us_upload_id :: string
  us_workspace_id :: string
  us_server_id :: string
  us_directory :: string
  us_file_name :: string
  us_overwrite :: bool
  us_size :: nat
  us_subject_kind :: string
  us_subject_id :: string
  us_idempotency_key :: string
  us_state :: upload_state
  us_committed_offset :: nat
  us_parts :: "part_record list"
  us_lease_until :: "string option"
  us_created_at :: string
  us_last_part_at :: string
  us_finished_at :: "string option"
  us_result :: "upload_receipt option"
  us_failure_code :: "string option"

definition lease_held :: "upload_row \<Rightarrow> string \<Rightarrow> bool" where
  "lease_held r now = is_some_and (us_lease_until r) (\<lambda>until. now < until)"

definition same_subject :: "upload_row \<Rightarrow> string \<Rightarrow> string \<Rightarrow> bool" where
  "same_subject r kind i = (us_subject_kind r = kind \<and> us_subject_id r = i)"

text \<open>The columns: sizes are \<open>BIGINT\<close>, the state is text and parts and result are JSON.\<close>

record upload_cols =
  uc_upload_id :: string
  uc_workspace_id :: string
  uc_server_id :: string
  uc_directory :: string
  uc_file_name :: string
  uc_overwrite :: bool
  uc_size :: int
  uc_subject_kind :: string
  uc_subject_id :: string
  uc_idempotency_key :: string
  uc_state :: string
  uc_committed_offset :: int
  uc_parts :: json
  uc_lease_until :: "string option"
  uc_created_at :: string
  uc_last_part_at :: string
  uc_finished_at :: "string option"
  uc_result :: "json option"
  uc_failure_code :: "string option"

type_synonym upload_table = "upload_cols list"

record upload_env =
  ue_stamp :: "datetime \<Rightarrow> string"
  ue_parse :: "string \<Rightarrow> datetime option"
  ue_key :: "string \<Rightarrow> string"
  ue_parts_codec :: "part_record list json_codec"
  ue_receipt_codec :: "upload_receipt json_codec"

definition sql_less :: "upload_env \<Rightarrow> string \<Rightarrow> string \<Rightarrow> bool" where
  "sql_less x a b = (ue_key x a < ue_key x b)"

text \<open>\<open>n as i64\<close> of a \<open>u64\<close>.\<close>

definition as_i64 :: "nat \<Rightarrow> int" where
  "as_i64 n = (if n < 2 ^ 63 then int n else int n - 2 ^ 64)"

definition i64_saturating_add :: "int \<Rightarrow> int \<Rightarrow> int" where
  "i64_saturating_add a b = max (- (2 ^ 63)) (min (2 ^ 63 - 1) (a + b))"

definition row_from :: "upload_env \<Rightarrow> upload_cols \<Rightarrow> upload_row" where
  "row_from x r =
     \<lparr>us_upload_id = uc_upload_id r, us_workspace_id = uc_workspace_id r, us_server_id = uc_server_id r,
      us_directory = uc_directory r, us_file_name = uc_file_name r, us_overwrite = uc_overwrite r,
      us_size = nat (max (uc_size r) 0), us_subject_kind = uc_subject_kind r, us_subject_id = uc_subject_id r,
      us_idempotency_key = uc_idempotency_key r, us_state = parse_upload_state (uc_state r),
      us_committed_offset = nat (max (uc_committed_offset r) 0),
      us_parts = (case jc_from_value (ue_parts_codec x) (uc_parts r) of Some ps \<Rightarrow> ps | None \<Rightarrow> []),
      us_lease_until = uc_lease_until r, us_created_at = uc_created_at r, us_last_part_at = uc_last_part_at r,
      us_finished_at = uc_finished_at r,
      us_result = Option.bind (uc_result r) (jc_from_value (ue_receipt_codec x)),
      us_failure_code = uc_failure_code r\<rparr>"

section \<open>Begin\<close>

record begin_params =
  bp_workspace_id :: string
  bp_server_id :: string
  bp_directory :: string
  bp_file_name :: string
  bp_overwrite :: bool
  bp_size :: nat
  bp_subject_kind :: string
  bp_subject_id :: string
  bp_idempotency_key :: string
  bp_upload_id :: string

datatype begin_outcome = Created upload_row | Replayed upload_row | KeyConflict | Refused string

definition upload_key :: "upload_cols \<Rightarrow> string \<times> string \<times> string \<times> string \<times> string" where
  "upload_key r = (uc_subject_kind r, uc_subject_id r, uc_workspace_id r, uc_server_id r, uc_idempotency_key r)"

definition params_key :: "begin_params \<Rightarrow> string \<times> string \<times> string \<times> string \<times> string" where
  "params_key p = (bp_subject_kind p, bp_subject_id p, bp_workspace_id p, bp_server_id p, bp_idempotency_key p)"

definition same_params :: "upload_row \<Rightarrow> begin_params \<Rightarrow> bool" where
  "same_params r p = (us_directory r = bp_directory p \<and> us_file_name r = bp_file_name p
     \<and> us_overwrite r = bp_overwrite p \<and> us_size r = bp_size p)"

definition live :: "upload_cols \<Rightarrow> bool" where
  "live r = (uc_state r \<in> {''pending'', ''active'', ''committing''})"

definition by_user :: "begin_params \<Rightarrow> upload_cols \<Rightarrow> bool" where
  "by_user p r = (uc_subject_kind r = bp_subject_kind p \<and> uc_subject_id r = bp_subject_id p)"

definition on_machine :: "string \<times> string \<Rightarrow> upload_cols \<Rightarrow> bool" where
  "on_machine m r = ((uc_workspace_id r, uc_server_id r) = m)"

definition bp_machine :: "begin_params \<Rightarrow> string \<times> string" where
  "bp_machine p = (bp_workspace_id p, bp_server_id p)"

definition count_rows :: "(upload_cols \<Rightarrow> bool) \<Rightarrow> upload_table \<Rightarrow> int" where
  "count_rows P t = int (length (filter P t))"

definition declared_bytes :: "string \<times> string \<Rightarrow> upload_table \<Rightarrow> int" where
  "declared_bytes m t = sum_list (map uc_size (filter (\<lambda>r. on_machine m r \<and> live r) t))"

definition begin_refused :: "upload_env \<Rightarrow> datetime \<Rightarrow> begin_params \<Rightarrow> upload_table \<Rightarrow> string option" where
  "begin_refused x now p t =
     (if BEGINS_PER_MINUTE \<le> count_rows (\<lambda>r. by_user p r
           \<and> sql_less x (ue_stamp x (now - seconds 60)) (uc_created_at r)) t then
        Some ''machine_upload_rate_limited''
      else if UPLOADS_PER_USER \<le> count_rows (\<lambda>r. by_user p r \<and> live r) t
         \<or> UPLOADS_PER_WORKSPACE \<le> count_rows (\<lambda>r. uc_workspace_id r = bp_workspace_id p \<and> live r) t
         \<or> UPLOADS_PER_MACHINE \<le> count_rows (\<lambda>r. on_machine (bp_machine p) r \<and> live r) t
         \<or> DECLARED_BYTES_PER_MACHINE
             < i64_saturating_add (declared_bytes (bp_machine p) t) (as_i64 (bp_size p)) then
        Some ''machine_upload_busy''
      else None)"

definition begin_decide ::
  "upload_env \<Rightarrow> datetime \<Rightarrow> begin_params \<Rightarrow> upload_table \<Rightarrow> begin_outcome option" where
  "begin_decide x now p t = (case find (\<lambda>r. upload_key r = params_key p) t of
      Some r \<Rightarrow> Some (if same_params (row_from x r) p then Replayed (row_from x r) else KeyConflict)
    | None \<Rightarrow> map_option Refused (begin_refused x now p t))"

definition new_upload_row :: "upload_env \<Rightarrow> datetime \<Rightarrow> begin_params \<Rightarrow> upload_cols" where
  "new_upload_row x now p =
     \<lparr>uc_upload_id = bp_upload_id p, uc_workspace_id = bp_workspace_id p, uc_server_id = bp_server_id p,
      uc_directory = bp_directory p, uc_file_name = bp_file_name p, uc_overwrite = bp_overwrite p,
      uc_size = as_i64 (bp_size p), uc_subject_kind = bp_subject_kind p, uc_subject_id = bp_subject_id p,
      uc_idempotency_key = bp_idempotency_key p, uc_state = ''pending'', uc_committed_offset = 0,
      uc_parts = JArray [], uc_lease_until = None, uc_created_at = ue_stamp x now,
      uc_last_part_at = ue_stamp x now, uc_finished_at = None, uc_result = None, uc_failure_code = None\<rparr>"

definition begin_insert ::
  "upload_env \<Rightarrow> datetime \<Rightarrow> begin_params \<Rightarrow> upload_table \<Rightarrow> string + begin_outcome \<times> upload_table" where
  "begin_insert x now p t =
     (if list_ex (\<lambda>r. uc_upload_id r = bp_upload_id p \<or> upload_key r = params_key p) t then
        Inl ''unique_violation''
      else Inr (Created (row_from x (new_upload_row x now p)), t @ [new_upload_row x now p]))"

definition store_begin ::
  "upload_env \<Rightarrow> datetime \<Rightarrow> begin_params \<Rightarrow> upload_table \<Rightarrow> string + begin_outcome \<times> upload_table" where
  "store_begin x now p t = (case begin_decide x now p t of
      Some outcome \<Rightarrow> Inr (outcome, t) | None \<Rightarrow> begin_insert x now p t)"

section \<open>The life of a row\<close>

definition update_rows :: "('a \<Rightarrow> bool) \<Rightarrow> ('a \<Rightarrow> 'a) \<Rightarrow> 'a list \<Rightarrow> 'a list" where
  "update_rows P f t = map (\<lambda>r. if P r then f r else r) t"

text \<open>An \<open>UPDATE ... RETURNING\<close> of at most one row.\<close>

definition update_returning ::
  "upload_env \<Rightarrow> (upload_cols \<Rightarrow> bool) \<Rightarrow> (upload_cols \<Rightarrow> upload_cols) \<Rightarrow> upload_table
   \<Rightarrow> upload_row option \<times> upload_table" where
  "update_returning x P f t = (map_option (row_from x \<circ> f) (find P t), update_rows P f t)"

definition store_activate :: "string \<Rightarrow> upload_table \<Rightarrow> upload_table" where
  "store_activate i = update_rows (\<lambda>r. uc_upload_id r = i \<and> uc_state r = ''pending'')
     (\<lambda>r. r\<lparr>uc_state := ''active''\<rparr>)"

definition store_delete :: "string \<Rightarrow> upload_table \<Rightarrow> upload_table" where
  "store_delete i t = filter (\<lambda>r. uc_upload_id r \<noteq> i) t"

definition store_get :: "upload_env \<Rightarrow> string \<Rightarrow> upload_table \<Rightarrow> upload_row option" where
  "store_get x i t = map_option (row_from x) (find (\<lambda>r. uc_upload_id r = i) t)"

definition list_own ::
  "upload_env \<Rightarrow> string \<Rightarrow> string \<Rightarrow> string \<Rightarrow> string \<Rightarrow> string option \<Rightarrow> upload_table \<Rightarrow> upload_row list" where
  "list_own x w server kind subject key t =
     map (row_from x) (take 16 (rev (sort_key (\<lambda>r. ue_key x (uc_created_at r))
       (filter (\<lambda>r. uc_workspace_id r = w \<and> uc_server_id r = server \<and> uc_subject_kind r = kind
         \<and> uc_subject_id r = subject \<and> is_none_or key (\<lambda>k. uc_idempotency_key r = k)) t))))"

definition lease_free :: "upload_env \<Rightarrow> datetime \<Rightarrow> upload_cols \<Rightarrow> bool" where
  "lease_free x now r = is_none_or (uc_lease_until r) (\<lambda>until. sql_less x until (ue_stamp x now))"

definition acquire_lease ::
  "upload_env \<Rightarrow> datetime \<Rightarrow> string \<Rightarrow> upload_table \<Rightarrow> upload_row option \<times> upload_table" where
  "acquire_lease x now i = update_returning x
     (\<lambda>r. uc_upload_id r = i \<and> uc_state r \<in> {''pending'', ''active''} \<and> lease_free x now r)
     (\<lambda>r. r\<lparr>uc_lease_until := Some (ue_stamp x (now + seconds LEASE_SECONDS))\<rparr>)"

definition release_lease :: "string \<Rightarrow> upload_table \<Rightarrow> upload_table" where
  "release_lease i = update_rows (\<lambda>r. uc_upload_id r = i) (\<lambda>r. r\<lparr>uc_lease_until := None\<rparr>)"

definition record_progress ::
  "upload_env \<Rightarrow> datetime \<Rightarrow> string \<Rightarrow> nat \<Rightarrow> part_record list \<Rightarrow> upload_table \<Rightarrow> upload_table" where
  "record_progress x now i offset parts = update_rows
     (\<lambda>r. uc_upload_id r = i \<and> uc_state r \<in> {''active'', ''committing''})
     (\<lambda>r. r\<lparr>uc_committed_offset := as_i64 offset,
            uc_parts := (case jc_to_value (ue_parts_codec x) parts of Some v \<Rightarrow> v | None \<Rightarrow> JArray []),
            uc_last_part_at := ue_stamp x now\<rparr>)"

definition start_commit ::
  "upload_env \<Rightarrow> datetime \<Rightarrow> string \<Rightarrow> upload_table \<Rightarrow> upload_row option \<times> upload_table" where
  "start_commit x now i = update_returning x
     (\<lambda>r. uc_upload_id r = i \<and> uc_state r = ''active'' \<and> uc_committed_offset r = uc_size r \<and> lease_free x now r)
     (\<lambda>r. r\<lparr>uc_state := ''committing'', uc_lease_until := Some (ue_stamp x (now + seconds LEASE_SECONDS))\<rparr>)"

definition set_committed ::
  "upload_env \<Rightarrow> datetime \<Rightarrow> string \<Rightarrow> upload_receipt \<Rightarrow> upload_table \<Rightarrow> upload_table" where
  "set_committed x now i receipt = update_rows
     (\<lambda>r. uc_upload_id r = i \<and> uc_state r \<in> {''active'', ''committing''})
     (\<lambda>r. r\<lparr>uc_state := ''committed'',
            uc_result := Some (case jc_to_value (ue_receipt_codec x) receipt of Some v \<Rightarrow> v | None \<Rightarrow> JNull),
            uc_finished_at := Some (ue_stamp x now), uc_lease_until := None\<rparr>)"

definition set_terminal ::
  "upload_env \<Rightarrow> datetime \<Rightarrow> string \<Rightarrow> upload_state \<Rightarrow> string \<Rightarrow> upload_table \<Rightarrow> upload_table" where
  "set_terminal x now i state code = update_rows
     (\<lambda>r. uc_upload_id r = i \<and> uc_state r \<in> {''pending'', ''active'', ''committing''})
     (\<lambda>r. r\<lparr>uc_state := upload_state_as_str state, uc_failure_code := Some code,
            uc_finished_at := Some (ue_stamp x now), uc_lease_until := None\<rparr>)"

definition expiry_due :: "upload_env \<Rightarrow> datetime \<Rightarrow> int \<Rightarrow> int \<Rightarrow> upload_cols \<Rightarrow> bool" where
  "expiry_due x now idle lifetime r =
     (uc_state r = ''active'' \<and> (sql_less x (uc_last_part_at r) (ue_stamp x (now - seconds idle))
        \<or> sql_less x (uc_created_at r) (ue_stamp x (now - seconds lifetime)))
      \<or> uc_state r = ''pending'' \<and> sql_less x (uc_created_at r) (ue_stamp x (now - seconds PENDING_RECOVERY_SECONDS))
      \<or> uc_state r = ''committing'' \<and> (is_none_or (uc_lease_until r) (\<lambda>until. sql_less x until
            (ue_stamp x (now - seconds (COMMITTING_RECOVERY_SECONDS - LEASE_SECONDS))))
          \<or> sql_less x (uc_created_at r) (ue_stamp x (now - seconds lifetime))))"

definition expiry_candidates ::
  "upload_env \<Rightarrow> datetime \<Rightarrow> int \<Rightarrow> int \<Rightarrow> upload_table \<Rightarrow> upload_row list" where
  "expiry_candidates x now idle lifetime t =
     map (row_from x) (take 64 (sort_key (\<lambda>r. ue_key x (uc_created_at r)) (filter (expiry_due x now idle lifetime) t)))"

definition purge_due :: "upload_env \<Rightarrow> datetime \<Rightarrow> upload_cols \<Rightarrow> bool" where
  "purge_due x now r = (uc_state r \<in> {''committed'', ''aborted'', ''expired'', ''failed''}
     \<and> is_some_and (uc_finished_at r) (\<lambda>at. sql_less x at
         (ue_stamp x (now - seconds (int MACHINE_UPLOAD_RECEIPT_RETENTION_SECONDS)))))"

definition purge_terminal :: "upload_env \<Rightarrow> datetime \<Rightarrow> upload_table \<Rightarrow> nat \<times> upload_table" where
  "purge_terminal x now t = (length (filter (purge_due x now) t), filter (\<lambda>r. \<not> purge_due x now r) t)"

section \<open>Histories\<close>

text \<open>One statement of the store, as an operation on the table; a begin is its own transaction.\<close>

datatype upload_op = OpActivate string | OpDelete string | OpAcquire datetime string | OpRelease string
  | OpProgress datetime string nat "part_record list" | OpStartCommit datetime string
  | OpCommitted datetime string upload_receipt | OpTerminal datetime string upload_state string
  | OpPurge datetime | OpBegin datetime begin_params

fun run_op :: "upload_env \<Rightarrow> upload_op \<Rightarrow> upload_table \<Rightarrow> upload_table" where
  "run_op x (OpActivate i) t = store_activate i t"
| "run_op x (OpDelete i) t = store_delete i t"
| "run_op x (OpAcquire now i) t = snd (acquire_lease x now i t)"
| "run_op x (OpRelease i) t = release_lease i t"
| "run_op x (OpProgress now i offset parts) t = record_progress x now i offset parts t"
| "run_op x (OpStartCommit now i) t = snd (start_commit x now i t)"
| "run_op x (OpCommitted now i receipt) t = set_committed x now i receipt t"
| "run_op x (OpTerminal now i state code) t = set_terminal x now i state code t"
| "run_op x (OpPurge now) t = snd (purge_terminal x now t)"
| "run_op x (OpBegin now p) t = (case store_begin x now p t of Inr (_, t') \<Rightarrow> t' | Inl _ \<Rightarrow> t)"

definition run_ops :: "upload_env \<Rightarrow> upload_op list \<Rightarrow> upload_table \<Rightarrow> upload_table" where
  "run_ops x ops t = fold (run_op x) ops t"

text \<open>The callers of \<open>set_terminal\<close> pass a terminal state, and begins use fresh random identifiers.\<close>

fun op_ok :: "string \<Rightarrow> upload_op \<Rightarrow> bool" where
  "op_ok i (OpTerminal now j state code) = is_terminal state"
| "op_ok i (OpBegin now p) = (bp_upload_id p \<noteq> i)"
| "op_ok i op = True"

lemma state_text: "is_terminal s \<Longrightarrow> upload_state_as_str s \<in> {''committed'', ''aborted'', ''expired'', ''failed''}"
  by (cases s) (simp_all add: is_terminal_def)

lemma parse_state_inverse: "parse_upload_state (upload_state_as_str s) = s"
  by (cases s) (simp_all add: parse_upload_state_def)

lemmas upload_op_defs = store_activate_def store_delete_def acquire_lease_def release_lease_def record_progress_def
  start_commit_def set_committed_def set_terminal_def purge_terminal_def update_returning_def update_rows_def

definition ended :: "upload_cols \<Rightarrow> bool" where
  "ended r \<longleftrightarrow> uc_state r \<in> {''committed'', ''aborted'', ''expired'', ''failed''}"

definition same_but_lease :: "upload_cols \<Rightarrow> upload_cols \<Rightarrow> bool" where
  "same_but_lease r r' \<longleftrightarrow> r' = r\<lparr>uc_lease_until := uc_lease_until r'\<rparr>"

lemma same_but_lease_trans: "same_but_lease a b \<Longrightarrow> same_but_lease b c \<Longrightarrow> same_but_lease a c"
  unfolding same_but_lease_def by (metis upload_cols.surjective upload_cols.update_convs(14))

lemma same_but_lease_refl [simp]: "same_but_lease r r"
  by (simp add: same_but_lease_def)

lemma same_but_lease_id: "same_but_lease r r' \<Longrightarrow> uc_upload_id r' = uc_upload_id r \<and> uc_state r' = uc_state r"
  unfolding same_but_lease_def by (metis upload_cols.select_convs(1,11) upload_cols.surjective upload_cols.update_convs(14))

lemma ended_update:
  assumes "r' \<in> set (update_rows P f t)" "uc_upload_id r' = i" "\<forall>r \<in> set t. uc_upload_id r = i \<longrightarrow> ended r"
    and "\<And>r. uc_upload_id (f r) = uc_upload_id r" "\<And>r. P r \<Longrightarrow> ended r \<Longrightarrow> same_but_lease r (f r)"
  shows "\<exists>r \<in> set t. same_but_lease r r'"
proof -
  obtain r where r: "r \<in> set t" "r' = (if P r then f r else r)" using assms(1) by (auto simp: update_rows_def)
  then have "ended r" using assms(2-4) by (auto split: if_splits)
  then have "same_but_lease r r'" using r(2) assms(5) by auto
  then show ?thesis using r(1) by blast
qed

lemma run_op_ended:
  assumes "op_ok i op" "r' \<in> set (run_op x op t)" "uc_upload_id r' = i"
    "\<forall>r \<in> set t. uc_upload_id r = i \<longrightarrow> ended r"
  shows "\<exists>r \<in> set t. same_but_lease r r'"
proof (cases op)
  case (OpBegin now p)
  then have "r' \<in> set t"
    using assms(1-3) by (auto simp: store_begin_def begin_insert_def new_upload_row_def split: if_splits option.splits sum.splits)
  then show ?thesis by (intro bexI [of _ r']) simp_all
next
  case (OpDelete j)
  then have "r' \<in> set t" using assms(2) by (simp add: store_delete_def)
  then show ?thesis by (intro bexI [of _ r']) simp_all
next
  case (OpPurge now)
  then have "r' \<in> set t" using assms(2) by (simp add: purge_terminal_def)
  then show ?thesis by (intro bexI [of _ r']) simp_all
next
  case (OpActivate j)
  show ?thesis using assms(2)
    unfolding OpActivate run_op.simps store_activate_def by (rule ended_update [OF _ assms(3,4)]) (auto simp: ended_def)
next
  case (OpAcquire now j)
  show ?thesis using assms(2) unfolding OpAcquire run_op.simps acquire_lease_def update_returning_def snd_conv
    by (rule ended_update [OF _ assms(3,4)]) (auto simp: ended_def)
next
  case (OpRelease j)
  show ?thesis using assms(2) unfolding OpRelease run_op.simps release_lease_def
    by (rule ended_update [OF _ assms(3,4)]) (simp_all add: same_but_lease_def)
next
  case (OpProgress now j offset parts)
  show ?thesis using assms(2) unfolding OpProgress run_op.simps record_progress_def
    by (rule ended_update [OF _ assms(3,4)]) (auto simp: ended_def)
next
  case (OpStartCommit now j)
  show ?thesis using assms(2) unfolding OpStartCommit run_op.simps start_commit_def update_returning_def snd_conv
    by (rule ended_update [OF _ assms(3,4)]) (auto simp: ended_def)
next
  case (OpCommitted now j receipt)
  show ?thesis using assms(2) unfolding OpCommitted run_op.simps set_committed_def
    by (rule ended_update [OF _ assms(3,4)]) (auto simp: ended_def)
next
  case (OpTerminal now j state code)
  show ?thesis using assms(2) unfolding OpTerminal run_op.simps set_terminal_def
    by (rule ended_update [OF _ assms(3,4)]) (auto simp: ended_def)
qed

lemma update_rows_ids: "(\<And>r. uc_upload_id (f r) = uc_upload_id r) \<Longrightarrow> map uc_upload_id (update_rows P f t) = map uc_upload_id t"
  by (simp add: update_rows_def)

lemma run_op_distinct: "distinct (map uc_upload_id t) \<Longrightarrow> distinct (map uc_upload_id (run_op x op t))"
proof (cases op)
  case (OpBegin now p)
  assume "distinct (map uc_upload_id t)"
  then show ?thesis
    by (auto simp: OpBegin store_begin_def begin_insert_def new_upload_row_def list_ex_iff split: option.splits sum.splits if_splits)
qed (simp_all add: store_activate_def store_delete_def acquire_lease_def release_lease_def record_progress_def start_commit_def
    set_committed_def set_terminal_def purge_terminal_def update_returning_def update_rows_ids distinct_map_filter)

lemma history_distinct: "distinct (map uc_upload_id (run_ops x ops []))"
proof -
  have "distinct (map uc_upload_id t) \<Longrightarrow> distinct (map uc_upload_id (fold (run_op x) ops t))" for t
    by (induction ops arbitrary: t) (simp_all add: run_op_distinct)
  then show ?thesis by (simp add: run_ops_def)
qed

lemma history_unique:
  "r \<in> set (run_ops x ops []) \<Longrightarrow> r' \<in> set (run_ops x ops []) \<Longrightarrow> uc_upload_id r = uc_upload_id r' \<Longrightarrow> r = r'"
  using history_distinct [of x ops] by (auto simp: distinct_map dest: inj_onD)

lemma run_ops_keep:
  assumes "\<And>op t. Q op \<Longrightarrow> \<forall>r \<in> set t. P r \<Longrightarrow> \<forall>r \<in> set (run_op x op t). P r"
  shows "list_all Q ops \<Longrightarrow> \<forall>r \<in> set t. P r \<Longrightarrow> \<forall>r \<in> set (run_ops x ops t). P r"
  unfolding run_ops_def
proof (induction ops arbitrary: t)
  case (Cons op ops)
  have "\<forall>r \<in> set (run_op x op t). P r" using Cons.prems by (intro assms) simp_all
  then show ?case using Cons.IH [of "run_op x op t"] Cons.prems(1) by simp
qed simp

text \<open>
  C26: An upload that has ended stays as it ended.  Once a row is committed, aborted, expired or failed,
  no later history of store operations, in whatever order requests, the expiry job and other Proxy
  instances interleave, changes its state, receipt, failure code, parts or offset: what a later read
  finds under the identifier is the same row up to its lease.  As in the callers, \<open>set_terminal\<close> is
  given a terminal state and a later begin has an identifier of its own.
\<close>

theorem ended_upload_is_final:
  assumes "r0 \<in> set (run_ops x past [])" "ended r0" "list_all (op_ok (uc_upload_id r0)) ops"
    and "r \<in> set (run_ops x ops (run_ops x past []))" "uc_upload_id r = uc_upload_id r0"
  shows "same_but_lease r0 r"
proof -
  let ?P = "\<lambda>r. uc_upload_id r = uc_upload_id r0 \<longrightarrow> same_but_lease r0 r"
  have "\<forall>r \<in> set (run_ops x ops (run_ops x past [])). ?P r"
  proof (rule run_ops_keep [where Q = "op_ok (uc_upload_id r0)"])
    fix op t assume op: "op_ok (uc_upload_id r0) op" and t: "\<forall>r \<in> set t. ?P r"
    then have e: "\<forall>r \<in> set t. uc_upload_id r = uc_upload_id r0 \<longrightarrow> ended r"
      using assms(2) same_but_lease_id by (auto simp: ended_def)
    show "\<forall>r \<in> set (run_op x op t). ?P r"
    proof (intro ballI impI)
      fix r assume r: "r \<in> set (run_op x op t)" "uc_upload_id r = uc_upload_id r0"
      obtain q where q: "q \<in> set t" "same_but_lease q r" using run_op_ended [OF op r e] by blast
      then have "same_but_lease r0 q" using t r(2) same_but_lease_id [OF q(2)] by simp
      then show "same_but_lease r0 r" using q(2) by (rule same_but_lease_trans)
    qed
  qed (use assms(1,3) in \<open>auto dest: history_unique\<close>)
  with assms(4,5) show ?thesis by blast
qed

section \<open>Leases\<close>

fun keeps_lease :: "string \<Rightarrow> upload_op \<Rightarrow> bool" where
  "keeps_lease i (OpDelete j) = (j \<noteq> i)"
| "keeps_lease i (OpAcquire now j) = (j \<noteq> i)"
| "keeps_lease i (OpRelease j) = (j \<noteq> i)"
| "keeps_lease i (OpStartCommit now j) = (j \<noteq> i)"
| "keeps_lease i (OpCommitted now j receipt) = (j \<noteq> i)"
| "keeps_lease i (OpTerminal now j state code) = (j \<noteq> i)"
| "keeps_lease i (OpBegin now p) = (bp_upload_id p \<noteq> i)"
| "keeps_lease i op = True"

text \<open>
  Documented behaviour of the timestamps: RFC 3339 texts in UTC with microseconds have a fixed width
  until the year 10000, so the database orders them by time.
\<close>

definition stamp_range :: "datetime \<Rightarrow> bool" where
  "stamp_range a \<longleftrightarrow> 0 \<le> a \<and> a < seconds 253402300800"

definition upload_env_ok :: "upload_env \<Rightarrow> bool" where
  "upload_env_ok x \<longleftrightarrow> (\<forall>a b. stamp_range a \<longrightarrow> stamp_range b
     \<longrightarrow> (ue_key x (ue_stamp x a) < ue_key x (ue_stamp x b) \<longleftrightarrow> a div 1000 < b div 1000))"

definition lease_is :: "string \<Rightarrow> string \<Rightarrow> upload_cols \<Rightarrow> bool" where
  "lease_is i until r \<longleftrightarrow> uc_upload_id r = i \<longrightarrow> uc_lease_until r = Some until"

lemma lease_kept:
  assumes op: "keeps_lease i op" and t: "\<forall>r \<in> set t. lease_is i until r"
  shows "\<forall>r \<in> set (run_op x op t). lease_is i until r"
proof (cases op)
  case (OpBegin now p)
  then show ?thesis using op t
    by (auto simp: store_begin_def begin_insert_def new_upload_row_def lease_is_def split: option.splits sum.splits if_splits)
qed (use op t in \<open>auto simp: upload_op_defs lease_is_def\<close>)

definition takes_lease :: "upload_env \<Rightarrow> datetime \<Rightarrow> string \<Rightarrow> upload_table \<Rightarrow> upload_table \<Rightarrow> bool" where
  "takes_lease x now i t t' \<longleftrightarrow> (\<exists>r. acquire_lease x now i t = (Some r, t') \<or> start_commit x now i t = (Some r, t'))"

lemma takes_lease_hit:
  "takes_lease x now i t t' \<Longrightarrow> \<exists>P f. t' = update_rows P f t \<and> (\<exists>r \<in> set t. P r \<and> uc_upload_id r = i \<and> lease_free x now r)
     \<and> (\<forall>r. P r \<longrightarrow> uc_upload_id r = i) \<and> (\<forall>r. uc_upload_id (f r) = uc_upload_id r)
     \<and> (\<forall>r. uc_lease_until (f r) = Some (ue_stamp x (now + seconds LEASE_SECONDS)))"
  unfolding takes_lease_def acquire_lease_def start_commit_def update_returning_def
  by (fastforce simp: find_Some_iff)

text \<open>
  C27: One holder at a time.  When a request has taken the lease of an upload, for a part, an abort or a
  commit, then until it is released or the upload ends, no other request takes it before the 150
  seconds of the lease are over, whatever else happens to the table in between.
\<close>

theorem lease_is_exclusive:
  assumes "upload_env_ok x" "takes_lease x a i (run_ops x past []) t1"
    and "list_all (keeps_lease i) ops" "takes_lease x b i (run_ops x ops t1) t2"
    and "stamp_range (a + seconds LEASE_SECONDS)" "stamp_range b"
  shows "(a + seconds LEASE_SECONDS) div 1000 < b div 1000"
proof -
  let ?until = "ue_stamp x (a + seconds LEASE_SECONDS)"
  obtain P f r where t1: "t1 = update_rows P f (run_ops x past [])" "r \<in> set (run_ops x past [])" "P r" "uc_upload_id r = i"
    "\<And>r. uc_upload_id (f r) = uc_upload_id r" "\<And>r. uc_lease_until (f r) = Some ?until"
    using takes_lease_hit [OF assms(2)] by blast
  have "\<forall>q \<in> set t1. lease_is i ?until q"
  proof
    fix q assume "q \<in> set t1"
    then obtain p where p: "p \<in> set (run_ops x past [])" "q = (if P p then f p else p)" by (auto simp: t1(1) update_rows_def)
    then have "uc_upload_id q = uc_upload_id p" using t1(5) by simp
    then show "lease_is i ?until q"
      using p t1(2-4,6) history_unique [OF p(1) t1(2)] by (auto simp: lease_is_def)
  qed
  from run_ops_keep [OF lease_kept assms(3) this] have "\<forall>r \<in> set (run_ops x ops t1). lease_is i ?until r" by blast
  moreover obtain q where "q \<in> set (run_ops x ops t1)" "uc_upload_id q = i" "lease_free x b q"
    using takes_lease_hit [OF assms(4)] by blast
  ultimately have "sql_less x ?until (ue_stamp x b)" by (simp add: lease_is_def lease_free_def is_none_or_def)
  then show ?thesis using assms(1,5,6) by (simp add: upload_env_ok_def sql_less_def)
qed

section \<open>Quotas\<close>

text \<open>
  Begins in progress hold the advisory lock of their machine from the decision to the insert; other
  statements run at any time.  The sizes are those the handler admits.
\<close>

type_synonym begin_world = "upload_table \<times> (begin_params \<times> datetime) list"

fun not_begin :: "upload_op \<Rightarrow> bool" where
  "not_begin (OpBegin now p) = False"
| "not_begin (OpTerminal now i state code) = is_terminal state"
| "not_begin op = True"

inductive begin_step :: "upload_env \<Rightarrow> begin_world \<Rightarrow> begin_world \<Rightarrow> bool" for x where
  step_decide: "begin_decide x now p t = None \<Longrightarrow> \<forall>b \<in> set open. bp_machine (fst b) \<noteq> bp_machine p
    \<Longrightarrow> bp_size p \<le> MACHINE_UPLOAD_MAX_BYTES \<Longrightarrow> begin_step x (t, open) (t, open @ [(p, now)])"
| step_insert: "(p, now) \<in> set open \<Longrightarrow> begin_insert x now p t = Inr (out, t')
    \<Longrightarrow> begin_step x (t, open) (t', remove1 (p, now) open)"
| step_give_up: "(p, now) \<in> set open \<Longrightarrow> begin_step x (t, open) (t, remove1 (p, now) open)"
| step_op: "not_begin op \<Longrightarrow> begin_step x (t, open) (run_op x op t, open)"

definition begin_init :: "begin_world \<Rightarrow> bool" where
  "begin_init s \<longleftrightarrow> s = ([], [])"

definition machine_live :: "string \<times> string \<Rightarrow> upload_table \<Rightarrow> upload_cols list" where
  "machine_live m t = filter (\<lambda>r. on_machine m r \<and> live r) t"

definition machine_open :: "string \<times> string \<Rightarrow> (begin_params \<times> datetime) list \<Rightarrow> (begin_params \<times> datetime) list" where
  "machine_open m open = filter (\<lambda>b. bp_machine (fst b) = m) open"

definition machine_count :: "string \<times> string \<Rightarrow> begin_world \<Rightarrow> int" where
  "machine_count m s = int (length (machine_live m (fst s))) + int (length (machine_open m (snd s)))"

definition machine_bytes :: "string \<times> string \<Rightarrow> begin_world \<Rightarrow> int" where
  "machine_bytes m s = declared_bytes m (fst s) + sum_list (map (\<lambda>b. as_i64 (bp_size (fst b))) (machine_open m (snd s)))"

definition quota_inv :: "begin_world \<Rightarrow> bool" where
  "quota_inv s \<longleftrightarrow> (\<forall>r \<in> set (fst s). 0 \<le> uc_size r) \<and> (\<forall>b \<in> set (snd s). bp_size (fst b) \<le> MACHINE_UPLOAD_MAX_BYTES)
     \<and> (\<forall>m. machine_count m s \<le> UPLOADS_PER_MACHINE \<and> machine_bytes m s \<le> DECLARED_BYTES_PER_MACHINE)"

lemma quota_invD:
  assumes "quota_inv (t, open)"
  shows "\<forall>r \<in> set t. 0 \<le> uc_size r" "\<forall>b \<in> set open. bp_size (fst b) \<le> MACHINE_UPLOAD_MAX_BYTES"
    "machine_count m (t, open) \<le> UPLOADS_PER_MACHINE" "machine_bytes m (t, open) \<le> DECLARED_BYTES_PER_MACHINE"
  using assms unfolding quota_inv_def fst_conv snd_conv by blast+

lemma quota_invI:
  assumes "\<forall>r \<in> set t. 0 \<le> uc_size r" "\<forall>b \<in> set open. bp_size (fst b) \<le> MACHINE_UPLOAD_MAX_BYTES"
    "\<And>m. machine_count m (t, open) \<le> UPLOADS_PER_MACHINE \<and> machine_bytes m (t, open) \<le> DECLARED_BYTES_PER_MACHINE"
  shows "quota_inv (t, open)"
  using assms unfolding quota_inv_def fst_conv snd_conv by blast

lemma size_as_i64: "n \<le> MACHINE_UPLOAD_MAX_BYTES \<Longrightarrow> as_i64 n = int n"
  by (simp add: as_i64_def MACHINE_UPLOAD_MAX_BYTES_def)

lemma decide_none:
  assumes "begin_decide x now p t = None" "bp_size p \<le> MACHINE_UPLOAD_MAX_BYTES" "\<forall>r \<in> set t. 0 \<le> uc_size r"
  shows "int (length (machine_live (bp_machine p) t)) < UPLOADS_PER_MACHINE"
    "declared_bytes (bp_machine p) t + as_i64 (bp_size p) \<le> DECLARED_BYTES_PER_MACHINE"
proof -
  have none: "begin_refused x now p t = None" using assms(1) by (auto simp: begin_decide_def split: option.splits)
  then show "int (length (machine_live (bp_machine p) t)) < UPLOADS_PER_MACHINE"
    by (auto simp: begin_refused_def count_rows_def machine_live_def split: if_splits)
  have "0 \<le> declared_bytes (bp_machine p) t" unfolding declared_bytes_def using assms(3) by (intro sum_list_nonneg) auto
  moreover have "i64_saturating_add (declared_bytes (bp_machine p) t) (as_i64 (bp_size p)) \<le> DECLARED_BYTES_PER_MACHINE"
    using none by (auto simp: begin_refused_def split: if_splits)
  ultimately show "declared_bytes (bp_machine p) t + as_i64 (bp_size p) \<le> DECLARED_BYTES_PER_MACHINE"
    using size_as_i64 [OF assms(2)]
    by (auto simp: i64_saturating_add_def DECLARED_BYTES_PER_MACHINE_def MACHINE_UPLOAD_MAX_BYTES_def max_def min_def split: if_splits)
qed

text \<open>Statements other than a begin never add a live row or change a size.\<close>

definition shrinks :: "upload_table \<Rightarrow> upload_table \<Rightarrow> bool" where
  "shrinks t t' \<longleftrightarrow> (\<forall>m. length (machine_live m t') \<le> length (machine_live m t)
     \<and> ((\<forall>r \<in> set t. 0 \<le> uc_size r) \<longrightarrow> declared_bytes m t' \<le> declared_bytes m t))
     \<and> uc_size ` set t' \<subseteq> uc_size ` set t"

lemma shrinks_update:
  assumes "\<And>r. P r \<Longrightarrow> uc_size (f r) = uc_size r \<and> on_machine m (f r) = on_machine m r \<and> (live (f r) \<longrightarrow> live r)"
  shows "length (machine_live m (update_rows P f t)) \<le> length (machine_live m t)
    \<and> ((\<forall>r \<in> set t. 0 \<le> uc_size r) \<longrightarrow> declared_bytes m (update_rows P f t) \<le> declared_bytes m t)"
  using assms by (induction t) (auto simp: update_rows_def machine_live_def declared_bytes_def)

lemma shrinks_filter:
  "length (machine_live m (filter P t)) \<le> length (machine_live m t)
    \<and> ((\<forall>r \<in> set t. 0 \<le> uc_size r) \<longrightarrow> declared_bytes m (filter P t) \<le> declared_bytes m t)"
  by (induction t) (auto simp: machine_live_def declared_bytes_def)

lemma update_sizes: "(\<And>r. uc_size (f r) = uc_size r) \<Longrightarrow> uc_size ` set (update_rows P f t) \<subseteq> uc_size ` set t"
  by (auto simp: update_rows_def)

lemma op_shrinks:
  assumes "not_begin op"
  shows "shrinks t (run_op x op t)"
proof -
  have upd: "shrinks t (update_rows P f t)"
    if "\<And>m r. P r \<Longrightarrow> uc_size (f r) = uc_size r \<and> on_machine m (f r) = on_machine m r \<and> (live (f r) \<longrightarrow> live r)"
      "\<And>r. uc_size (f r) = uc_size r" for P f
    using shrinks_update [of P f _ t] update_sizes [of f P t] that unfolding shrinks_def by blast
  have fil: "shrinks t (filter P t)" for P
    using shrinks_filter [of _ P t] unfolding shrinks_def by auto
  show ?thesis
    using assms
    by (cases op) (auto simp: store_activate_def store_delete_def acquire_lease_def release_lease_def record_progress_def
        start_commit_def set_committed_def set_terminal_def purge_terminal_def update_returning_def on_machine_def live_def
        intro!: upd fil dest: state_text)
qed

lemma quota_op:
  assumes "quota_inv (t, open)" "not_begin op"
  shows "quota_inv (run_op x op t, open)"
proof -
  note inv = quota_invD [OF assms(1)]
  have s: "uc_size ` set (run_op x op t) \<subseteq> uc_size ` set t"
    "length (machine_live m (run_op x op t)) \<le> length (machine_live m t)"
    "declared_bytes m (run_op x op t) \<le> declared_bytes m t" for m
    using op_shrinks [OF assms(2), of t x] inv(1) unfolding shrinks_def by blast+
  show ?thesis
  proof (rule quota_invI)
    show "\<forall>r \<in> set (run_op x op t). 0 \<le> uc_size r" using s(1) inv(1) by fastforce
    fix m
    show "machine_count m (run_op x op t, open) \<le> UPLOADS_PER_MACHINE
        \<and> machine_bytes m (run_op x op t, open) \<le> DECLARED_BYTES_PER_MACHINE"
      using s(2,3) [of m] inv(3,4) [of m] by (simp add: machine_count_def machine_bytes_def)
  qed (rule inv(2))
qed

lemma sum_remove1:
  "a \<in> set xs \<Longrightarrow> sum_list (map g (filter P xs)) = sum_list (map g (filter P (remove1 a xs))) + (if P a then g a else (0 :: int))"
  by (induction xs) auto

lemma length_remove1:
  "a \<in> set xs \<Longrightarrow> length (filter P xs) = length (filter P (remove1 a xs)) + (if P a then 1 else 0)"
  by (induction xs) auto

lemma open_remove:
  assumes "(p, now) \<in> set open"
  shows "length (machine_open m open) = length (machine_open m (remove1 (p, now) open)) + (if bp_machine p = m then 1 else 0)"
    "sum_list (map (\<lambda>b. as_i64 (bp_size (fst b))) (machine_open m open))
      = sum_list (map (\<lambda>b. as_i64 (bp_size (fst b))) (machine_open m (remove1 (p, now) open)))
        + (if bp_machine p = m then as_i64 (bp_size p) else 0)"
  using length_remove1 [OF assms, of "\<lambda>b. bp_machine (fst b) = m"]
    sum_remove1 [OF assms, of "\<lambda>b. as_i64 (bp_size (fst b))" "\<lambda>b. bp_machine (fst b) = m"]
  unfolding machine_open_def fst_conv .

lemma quota_remove:
  assumes "quota_inv (t, open)" "(p, now) \<in> set open"
  shows "quota_inv (t, remove1 (p, now) open)"
proof -
  note inv = quota_invD [OF assms(1)]
  have "bp_size p \<le> MACHINE_UPLOAD_MAX_BYTES" using inv(2) assms(2) by auto
  note size = size_as_i64 [OF this]
  show ?thesis
  proof (rule quota_invI [OF inv(1)])
    show "\<forall>b \<in> set (remove1 (p, now) open). bp_size (fst b) \<le> MACHINE_UPLOAD_MAX_BYTES"
      using inv(2) notin_set_remove1 by fast
    fix m
    show "machine_count m (t, remove1 (p, now) open) \<le> UPLOADS_PER_MACHINE
        \<and> machine_bytes m (t, remove1 (p, now) open) \<le> DECLARED_BYTES_PER_MACHINE"
      using open_remove [OF assms(2), of m] inv(3,4) [of m] size
      by (auto simp: machine_count_def machine_bytes_def split: if_splits)
  qed
qed

lemma quota_insert:
  assumes "quota_inv (t, open)" and p: "(p, now) \<in> set open" and ins: "begin_insert x now p t = Inr (out, t')"
  shows "quota_inv (t', remove1 (p, now) open)"
proof -
  note inv = quota_invD [OF assms(1)]
  have size: "bp_size p \<le> MACHINE_UPLOAD_MAX_BYTES" using inv(2) p by auto
  have t': "t' = t @ [new_upload_row x now p]" using ins by (simp add: begin_insert_def split: if_splits)
  have eq: "machine_count m (t', remove1 (p, now) open) = machine_count m (t, open)"
    "machine_bytes m (t', remove1 (p, now) open) = machine_bytes m (t, open)" for m
    using open_remove [OF p, of m]
    by (auto simp: t' machine_count_def machine_bytes_def machine_live_def declared_bytes_def on_machine_def live_def
        new_upload_row_def bp_machine_def)
  show ?thesis
  proof (rule quota_invI)
    show "\<forall>r \<in> set t'. 0 \<le> uc_size r" using inv(1) size_as_i64 [OF size] by (simp add: t' new_upload_row_def)
    show "\<forall>b \<in> set (remove1 (p, now) open). bp_size (fst b) \<le> MACHINE_UPLOAD_MAX_BYTES"
      using inv(2) notin_set_remove1 by fast
  qed (use eq inv(3,4) in simp)
qed

lemma quota_decide:
  assumes "quota_inv (t, open)" and dec: "begin_decide x now p t = None" "\<forall>b \<in> set open. bp_machine (fst b) \<noteq> bp_machine p"
    "bp_size p \<le> MACHINE_UPLOAD_MAX_BYTES"
  shows "quota_inv (t, open @ [(p, now)])"
proof -
  note inv = quota_invD [OF assms(1)]
  have none: "machine_open (bp_machine p) open = []" using dec(2) by (auto simp: machine_open_def filter_empty_conv)
  show ?thesis
  proof (rule quota_invI [OF inv(1)])
    fix m
    show "machine_count m (t, open @ [(p, now)]) \<le> UPLOADS_PER_MACHINE
        \<and> machine_bytes m (t, open @ [(p, now)]) \<le> DECLARED_BYTES_PER_MACHINE"
    proof (cases "m = bp_machine p")
      case True
      then show ?thesis using decide_none [OF dec(1,3) inv(1)] none
        by (simp add: machine_count_def machine_bytes_def machine_open_def)
    next
      case False
      then show ?thesis using inv(3,4) [of m] by (simp add: machine_count_def machine_bytes_def machine_open_def)
    qed
  qed (use inv(2) dec(3) in auto)
qed

interpretation quotas: inv_system begin_init "begin_step x" quota_inv for x
proof
  show "quota_inv s" if "begin_init s" for s
    using that by (simp add: begin_init_def quota_inv_def machine_count_def machine_bytes_def machine_live_def machine_open_def
        declared_bytes_def UPLOADS_PER_MACHINE_def DECLARED_BYTES_PER_MACHINE_def)
  show "quota_inv t" if "quota_inv s" "begin_step x s t" for s t
    using that(2,1) by cases (auto intro: quota_decide quota_insert quota_remove quota_op)
qed

text \<open>
  C28: The quotas of a machine hold across Proxy instances.  Whatever begins, requests and expiry jobs of
  any number of instances interleave, as long as a begin holds the lock of its machine from its
  count to its insert, a machine never has more than eight live uploads, and never more than eight
  times the maximal size declared.
\<close>

theorem machine_quota_holds:
  assumes "reach begin_init (begin_step x) (t, open)"
  shows "count_rows (\<lambda>r. on_machine m r \<and> live r) t \<le> UPLOADS_PER_MACHINE
    \<and> declared_bytes m t \<le> DECLARED_BYTES_PER_MACHINE"
proof -
  have "quota_inv (t, open)" using assms by (rule quotas.reach_inv)
  note inv = quota_invD [OF this]
  have "0 \<le> sum_list (map (\<lambda>b. as_i64 (bp_size (fst b))) (machine_open m open))"
    using inv(2) size_as_i64 by (intro sum_list_nonneg) (auto simp: machine_open_def)
  then show ?thesis using inv(3,4) [of m] by (simp add: machine_count_def machine_bytes_def count_rows_def machine_live_def)
qed

end
