(* ===== verification/Upload_Gate.thy ===== *)
theory Upload_Gate
  imports Treer_Prelude
begin

text \<open>
  Admission of chunked machine uploads on one Proxy (\<open>upload_gate.rs\<close>): a bounded number of part
  bodies in flight, released when their permit is dropped, and fixed-window rate limits per key.
  The mutex makes each operation atomic; a step of the system is one operation, and the permits
  alive at a moment are counted beside the gate's own state.
\<close>

section \<open>Operations\<close>

definition PART_BODIES_PER_INSTANCE :: nat where
  "PART_BODIES_PER_INSTANCE = 32"

definition WINDOW :: duration where
  "WINDOW = 60 * 10 ^ 9"

definition WINDOWS_SWEEP :: nat where
  "WINDOWS_SWEEP = 4096"

record gate_inner =
  gi_in_flight :: nat
  gi_windows :: "(string \<times> instant \<times> nat) list"

definition gate_default :: gate_inner where
  "gate_default = \<lparr>gi_in_flight = 0, gi_windows = []\<rparr>"

definition acquire_body :: "gate_inner \<Rightarrow> bool \<times> gate_inner" where
  "acquire_body g =
     (if PART_BODIES_PER_INSTANCE \<le> gi_in_flight g then (False, g)
      else (True, g\<lparr>gi_in_flight := gi_in_flight g + 1\<rparr>))"

definition drop_permit :: "gate_inner \<Rightarrow> gate_inner" where
  "drop_permit g = g\<lparr>gi_in_flight := gi_in_flight g - 1\<rparr>"

text \<open>\<open>allow\<close>: sweep, find or insert the key's window, restart it when expired, count.\<close>

definition sweep_windows :: "instant \<Rightarrow> (string \<times> instant \<times> nat) list \<Rightarrow> (string \<times> instant \<times> nat) list" where
  "sweep_windows now ws =
     (if WINDOWS_SWEEP < length ws then filter (\<lambda>(_, started, _). now - started < WINDOW) ws else ws)"

definition window_entry :: "instant \<Rightarrow> string \<Rightarrow> (string \<times> instant \<times> nat) list \<Rightarrow> instant \<times> nat" where
  "window_entry now key ws =
     (case map_of ws key of
        None \<Rightarrow> (now, 0)
      | Some (started, n) \<Rightarrow> if WINDOW \<le> now - started then (now, 0) else (started, n))"

definition put_window ::
  "string \<Rightarrow> instant \<times> nat \<Rightarrow> (string \<times> instant \<times> nat) list \<Rightarrow> (string \<times> instant \<times> nat) list" where
  "put_window key e ws = (key, e) # filter (\<lambda>(k, _). k \<noteq> key) ws"

definition allow :: "instant \<Rightarrow> string \<Rightarrow> nat \<Rightarrow> gate_inner \<Rightarrow> bool \<times> gate_inner" where
  "allow now key limit g =
     (let ws = sweep_windows now (gi_windows g);
          (started, n) = window_entry now key ws
      in if limit \<le> n then (False, g\<lparr>gi_windows := put_window key (started, n) ws\<rparr>)
         else (True, g\<lparr>gi_windows := put_window key (started, n + 1) ws\<rparr>))"

section \<open>Part bodies\<close>

text \<open>The gate together with the number of permits that are alive.\<close>

inductive gate_step :: "gate_inner \<times> nat \<Rightarrow> gate_inner \<times> nat \<Rightarrow> bool" where
  step_acquire: "acquire_body g = (True, g') \<Longrightarrow> gate_step (g, live) (g', Suc live)"
| step_refuse: "acquire_body g = (False, g') \<Longrightarrow> gate_step (g, live) (g', live)"
| step_drop: "gate_step (g, Suc live) (drop_permit g, live)"
| step_allow: "gate_step (g, live) (snd (allow now key limit g), live)"

definition gate_init :: "gate_inner \<times> nat \<Rightarrow> bool" where
  "gate_init s \<longleftrightarrow> s = (gate_default, 0)"

definition gate_inv :: "gate_inner \<times> nat \<Rightarrow> bool" where
  "gate_inv s \<longleftrightarrow> gi_in_flight (fst s) = snd s \<and> snd s \<le> PART_BODIES_PER_INSTANCE"

lemma allow_in_flight [simp]: "gi_in_flight (snd (allow now key limit g)) = gi_in_flight g"
  by (simp add: allow_def Let_def split: prod.splits)

interpretation gate_sys: inv_system gate_init gate_step gate_inv
proof
  fix s t
  assume "gate_inv s" "gate_step s t"
  from this(2,1) show "gate_inv t"
    by (induction rule: gate_step.induct)
       (auto simp: gate_inv_def acquire_body_def drop_permit_def split: if_splits)
qed (simp add: gate_init_def gate_inv_def gate_default_def)

section \<open>Rate windows\<close>

text \<open>
  A history of calls, each with its time, key and limit; the run keeps, for one key, the time of
  every granted call together with the start of the window that granted it.
\<close>

fun gate_run ::
  "string \<Rightarrow> (instant \<times> string \<times> nat) list \<Rightarrow> gate_inner \<Rightarrow> (instant \<times> instant) list" where
  "gate_run k [] g = []"
| "gate_run k ((now, key, limit) # cs) g =
     (case allow now key limit g of (granted, g') \<Rightarrow>
        (if granted \<and> key = k then [(now, fst (the (map_of (gi_windows g') k)))] else [])
        @ gate_run k cs g')"

text \<open>Grants of one key: inside their window, windows a full length apart, at most the limit in each.\<close>

definition grants_ok :: "nat \<Rightarrow> (instant \<times> instant) list \<Rightarrow> bool" where
  "grants_ok limit gs \<longleftrightarrow>
     (\<forall>(t, s) \<in> set gs. s \<le> t \<and> t < s + WINDOW)
     \<and> (\<forall>s \<in> snd ` set gs. \<forall>s' \<in> snd ` set gs. s = s' \<or> s + WINDOW \<le> s' \<or> s' + WINDOW \<le> s)
     \<and> (\<forall>s. length (filter (\<lambda>(_, s'). s' = s) gs) \<le> limit)"

text \<open>How past grants relate to the table, at or after time \<open>now\<close>.\<close>

definition table_ok :: "string \<Rightarrow> nat \<Rightarrow> instant \<Rightarrow> (instant \<times> instant) list \<Rightarrow> gate_inner \<Rightarrow> bool" where
  "table_ok k limit now gs g \<longleftrightarrow> distinct (map fst (gi_windows g)) \<and>
     (case map_of (gi_windows g) k of
        None \<Rightarrow> \<forall>s \<in> snd ` set gs. s + WINDOW \<le> now
      | Some (started, n) \<Rightarrow> started \<le> now \<and> n \<le> limit
          \<and> length (filter (\<lambda>(_, s). s = started) gs) = n
          \<and> (\<forall>s \<in> snd ` set gs. s = started \<or> s + WINDOW \<le> started))"

lemma map_of_filter_distinct:
  "distinct (map fst ws) \<Longrightarrow>
   map_of (filter P ws) k = Option.bind (map_of ws k) (\<lambda>v. if P (k, v) then Some v else None)"
proof (induction ws)
  case (Cons w ws)
  have "map_of ws (fst w) = None" using Cons.prems by (auto simp: map_of_eq_None_iff)
  with Cons show ?case by (cases w) auto
qed simp

lemma distinct_filter_keys: "distinct (map fst ws) \<Longrightarrow> distinct (map fst (filter P ws))"
  by (induction ws) auto

lemma table_ok_sweep:
  assumes "table_ok k L now0 gs g" "now0 \<le> now"
  shows "table_ok k L now gs (g\<lparr>gi_windows := sweep_windows now (gi_windows g)\<rparr>)"
proof -
  have d: "distinct (map fst (gi_windows g))" using assms(1) by (simp add: table_ok_def)
  have look: "map_of (sweep_windows now (gi_windows g)) k =
      Option.bind (map_of (gi_windows g) k) (\<lambda>(started, n).
        if WINDOWS_SWEEP < length (gi_windows g) \<and> WINDOW \<le> now - started then None else Some (started, n))"
    using map_of_filter_distinct [OF d, of _ k]
    by (cases "map_of (gi_windows g) k") (auto simp: sweep_windows_def)
  have dist: "distinct (map fst (sweep_windows now (gi_windows g)))"
    using d by (simp add: sweep_windows_def distinct_filter_keys)
  show ?thesis
  proof (cases "map_of (gi_windows g) k")
    case None
    with assms look dist show ?thesis by (auto simp: table_ok_def)
  next
    case (Some e)
    obtain started n where "e = (started, n)" by force
    with Some assms have "started \<le> now0" "n \<le> L" "length (filter (\<lambda>(_, s). s = started) gs) = n"
      "\<forall>s \<in> snd ` set gs. s = started \<or> s + WINDOW \<le> started"
      by (auto simp: table_ok_def simp del: map_of_eq_Some_iff)
    with Some \<open>e = (started, n)\<close> assms(2) look dist show ?thesis
      by (auto simp: table_ok_def simp del: map_of_eq_Some_iff)
  qed
qed

lemma put_window_lookup:
  "map_of (put_window key e ws) k = (if k = key then Some e else map_of (filter (\<lambda>(k, _). k \<noteq> key) ws) k)"
  by (simp add: put_window_def)

lemma put_window_distinct: "distinct (map fst ws) \<Longrightarrow> distinct (map fst (put_window key e ws))"
  by (auto simp: put_window_def distinct_filter_keys)

lemma window_entry_ok:
  assumes "table_ok k L now gs g" "window_entry now k (gi_windows g) = (s, n)"
  shows "s \<le> now \<and> now < s + WINDOW \<and> n \<le> L \<and> length (filter (\<lambda>(_, s'). s' = s) gs) = n
    \<and> (\<forall>s' \<in> snd ` set gs. s' = s \<or> s' + WINDOW \<le> s)"
proof -
  have w: "0 < WINDOW" by (simp add: WINDOW_def)
  have none: "length (filter (\<lambda>(_, s'). s' = now) gs) = 0"
    if "\<forall>s' \<in> snd ` set gs. s' + WINDOW \<le> now"
    using that w by (force simp: filter_empty_conv)
  from assms show ?thesis
  proof (cases "map_of (gi_windows g) k")
    case None
    with assms none w show ?thesis by (auto simp: table_ok_def window_entry_def)
  next
    case (Some e)
    obtain started m where e: "e = (started, m)" by force
    show ?thesis
    proof (cases "WINDOW \<le> now - started")
      case True
      with Some e assms have old: "\<forall>s' \<in> snd ` set gs. s' + WINDOW \<le> now" "s = now" "n = 0"
        using w by (auto simp: table_ok_def window_entry_def)
      with none w show ?thesis by simp
    next
      case False
      with Some e assms w show ?thesis by (auto simp: table_ok_def window_entry_def)
    qed
  qed
qed

lemma allow_step:
  assumes tab: "table_ok k L now0 gs g" and ok: "grants_ok L gs" and t: "now0 \<le> now"
    and lim: "key = k \<longrightarrow> limit = L" and eq: "allow now key limit g = (granted, g')"
  defines "gs' \<equiv> gs @ (if granted \<and> key = k then [(now, fst (the (map_of (gi_windows g') k)))] else [])"
  shows "table_ok k L now gs' g' \<and> grants_ok L gs'"
proof -
  let ?g1 = "g\<lparr>gi_windows := sweep_windows now (gi_windows g)\<rparr>"
  have tab1: "table_ok k L now gs ?g1" by (rule table_ok_sweep [OF tab t])
  obtain s n where e: "window_entry now key (gi_windows ?g1) = (s, n)" by force
  have g': "gi_windows g' = put_window key (s, if granted then n + 1 else n) (gi_windows ?g1)"
    and gr: "granted \<longleftrightarrow> n < limit"
    using eq e by (auto simp: allow_def Let_def split: if_splits)
  have dist: "distinct (map fst (gi_windows g'))"
    using tab1 by (auto simp: g' table_ok_def intro: put_window_distinct)
  show ?thesis
  proof (cases "key = k")
    case False
    have "map_of (gi_windows g') k = map_of (gi_windows ?g1) k"
      using False tab1 by (auto simp: g' put_window_lookup map_of_filter_distinct table_ok_def
          split: Option.bind_splits)
    with tab1 dist ok False show ?thesis by (simp add: gs'_def table_ok_def)
  next
    case True
    note w = window_entry_ok [OF tab1 e [unfolded True]]
    have look: "map_of (gi_windows g') k = Some (s, if granted then n + 1 else n)"
      by (simp add: g' put_window_lookup True)
    show ?thesis
    proof (cases granted)
      case False
      with look w dist ok True show ?thesis by (simp add: gs'_def table_ok_def)
    next
      case yes: True
      have new: "gs' = gs @ [(now, s)]" using look yes True by (simp add: gs'_def)
      have "table_ok k L now gs' g'"
        using look w dist yes gr lim True by (auto simp: table_ok_def new)
      moreover have "grants_ok L gs'"
        using ok w yes gr lim True unfolding grants_ok_def new by auto
      ultimately show ?thesis by simp
    qed
  qed
qed

lemma gate_run_ok:
  assumes "sorted (now0 # map fst cs)" "\<forall>(t, key, limit) \<in> set cs. key = k \<longrightarrow> limit = L"
    and "table_ok k L now0 gs g" "grants_ok L gs"
  shows "grants_ok L (gs @ gate_run k cs g)"
  using assms
proof (induction cs arbitrary: now0 gs g)
  case (Cons c cs)
  obtain now key limit where c: "c = (now, key, limit)" by (cases c)
  obtain granted g' where eq: "allow now key limit g = (granted, g')" by force
  let ?new = "if granted \<and> key = k then [(now, fst (the (map_of (gi_windows g') k)))] else []"
  have "table_ok k L now (gs @ ?new) g' \<and> grants_ok L (gs @ ?new)"
    using Cons.prems by (intro allow_step [OF _ _ _ _ eq]) (auto simp: c)
  with Cons.IH [of now "gs @ ?new" g'] Cons.prems show ?case by (auto simp: c eq)
qed simp

lemma card_spaced:
  assumes "finite S" "\<forall>s \<in> S. a < s + W \<and> s < a + (W :: nat)"
    and "\<forall>s \<in> S. \<forall>s' \<in> S. s = s' \<or> s + W \<le> s' \<or> s' + W \<le> s"
  shows "card S \<le> 2"
proof (rule ccontr)
  assume "\<not> card S \<le> 2"
  then obtain T where "T \<subseteq> S" "card T = 3" by (metis Suc_leI numeral_3_eq_3 not_le obtain_subset_with_card_n numeral_2_eq_2)
  then obtain x y z where "x \<in> S" "y \<in> S" "z \<in> S" "x \<noteq> y" "y \<noteq> z" "x \<noteq> z"
    by (auto simp: card_3_iff)
  with assms(2,3) show False by (smt (verit) add.commute le_less_trans less_imp_le_nat add_mono nat_less_le not_less trans_le_add1)
qed

lemma length_filter_by_key:
  "finite S \<Longrightarrow> snd ` set xs \<subseteq> S \<Longrightarrow> length xs = (\<Sum>s \<in> S. length (filter (\<lambda>x. snd x = s) xs))"
proof (induction xs)
  case (Cons x xs)
  have "(\<Sum>s \<in> S. length (filter (\<lambda>y. snd y = s) (x # xs)))
      = (\<Sum>s \<in> S. (if snd x = s then 1 else 0) + length (filter (\<lambda>y. snd y = s) xs))"
    by (intro sum.cong) auto
  also have "\<dots> = 1 + (\<Sum>s \<in> S. length (filter (\<lambda>y. snd y = s) xs))"
    using Cons.prems by (simp add: sum.distrib)
  finally show ?case using Cons by simp
qed simp

lemma grants_interval:
  assumes "grants_ok L gs"
  shows "length (filter (\<lambda>(t, _). a \<le> t \<and> t < a + WINDOW) gs) \<le> 2 * L"
proof -
  let ?xs = "filter (\<lambda>(t, _). a \<le> t \<and> t < a + WINDOW) gs"
  let ?S = "snd ` set ?xs"
  have "card ?S \<le> 2"
    by (rule card_spaced [of _ a WINDOW]) (use assms in \<open>fastforce simp: grants_ok_def\<close>)+
  moreover have "length (filter (\<lambda>x. snd x = s) ?xs) \<le> L" for s
  proof -
    have "length (filter (\<lambda>x. snd x = s) ?xs) \<le> length (filter (\<lambda>(_, s'). s' = s) gs)"
      by (induction gs) auto
    also have "\<dots> \<le> L" using assms by (simp add: grants_ok_def)
    finally show ?thesis .
  qed
  then have "(\<Sum>s \<in> ?S. length (filter (\<lambda>x. snd x = s) ?xs)) \<le> card ?S * L"
    by (metis (no_types, lifting) sum_bounded_above mult.commute of_nat_id)
  ultimately show ?thesis
    using length_filter_by_key [of ?S ?xs] by (metis (no_types, lifting) List.finite_set finite_imageI
        le_trans mult_le_mono1 order_refl)
qed

section \<open>Properties\<close>

text \<open>
  Part bodies are bounded and accounted for.  After any sequence of acquisitions, drops and
  rate checks, the gate's counter is exactly the number of permits alive, never more than 32; so
  \<open>saturating_sub\<close> never hides a double release, a free slot is always granted and no slot leaks.
\<close>

theorem body_slots_exact:
  assumes "reach gate_init gate_step (g, live)"
  shows "gi_in_flight g = live \<and> live \<le> 32
    \<and> (fst (acquire_body g) \<longleftrightarrow> live < 32)
    \<and> gi_in_flight ((drop_permit ^^ live) g) = 0"
proof -
  have inv: "gi_in_flight g = live" "live \<le> 32"
    using gate_sys.reach_inv [OF assms] by (auto simp: gate_inv_def PART_BODIES_PER_INSTANCE_def)
  have "gi_in_flight ((drop_permit ^^ n) g) = gi_in_flight g - n" for n
    by (induction n) (auto simp: drop_permit_def)
  with inv show ?thesis by (auto simp: acquire_body_def PART_BODIES_PER_INSTANCE_def)
qed

theorem body_slots_exact_witness:
  "fst (acquire_body (snd (acquire_body gate_default)))"
proof -
  have "acquire_body gate_default = (True, snd (acquire_body gate_default))" by code_simp
  then have "gate_step (gate_default, 0) (snd (acquire_body gate_default), Suc 0)" by (rule step_acquire)
  moreover have "reach gate_init gate_step (gate_default, 0)" by (rule reach_init) (simp add: gate_init_def)
  ultimately have "reach gate_init gate_step (snd (acquire_body gate_default), Suc 0)" by (rule reach_step [rotated])
  from body_slots_exact [OF this] show ?thesis by simp
qed

text \<open>
  The rate limit holds over any minute.  Whatever other keys do, if every check of a key uses
  the limit \<open>L\<close> and the clock does not go back, then in no interval of sixty seconds are more than
  \<open>2 L\<close> checks of that key granted; the sweep of a large table never forgives a grant early.
\<close>

theorem rate_limit_per_minute:
  assumes "sorted (map fst calls)" and "\<forall>(t, key, limit) \<in> set calls. key = k \<longrightarrow> limit = L"
  shows "length (filter (\<lambda>(t, _). a \<le> t \<and> t < a + WINDOW) (gate_run k calls gate_default)) \<le> 2 * L"
proof -
  have "grants_ok L ([] @ gate_run k calls gate_default)"
    by (rule gate_run_ok [of 0]) (use assms in \<open>auto simp: table_ok_def gate_default_def grants_ok_def\<close>)
  then show ?thesis using grants_interval by simp
qed

theorem rate_limit_per_minute_witness:
  "length (filter (\<lambda>(t, _). 0 \<le> t \<and> t < 0 + WINDOW)
     (gate_run ''a'' [(1, ''a'', 1), (2, ''b'', 5), (3, ''a'', 1)] gate_default)) \<le> 2 * 1"
  by (rule rate_limit_per_minute) simp_all

end
