(* ===== verification/Upload_Api.thy ===== *)
theory Upload_Api
  imports Upload_Store Upload_Gate
begin

text \<open>
  The routes of chunked uploads on the Proxy (\<open>api/agents/machine_upload.rs\<close>): begin, list, status,
  part, commit, abort and the expiry job, with the error type of the API (\<open>api/errors.rs\<close>).

  A handler is a function of a world: the table, the instance's gate, the commands sent to the
  Controller and the audit events.  Its environment gives the Controller's answers in the order of
  the commands and, for every access to the table, the moment of that access: the time, what other
  requests and instances did to the table and the gate since the previous access, and whether the
  database fails.  Theorems hold for every environment, so for every interleaving.  What a request
  passes before this file's code (session, target, Policy, capabilities) is an argument.
\<close>

section \<open>Failures\<close>

record api_failure =
  af_status :: nat
  af_error :: protocol_error

definition api_failure_new :: "nat \<Rightarrow> string \<Rightarrow> string \<Rightarrow> api_failure" where
  "api_failure_new status code message = \<lparr>af_status = status, af_error = protocol_error_new code message\<rparr>"

definition api_forbidden :: "string \<Rightarrow> string \<Rightarrow> api_failure" where "api_forbidden = api_failure_new 403"
definition api_bad_request :: "string \<Rightarrow> string \<Rightarrow> api_failure" where "api_bad_request = api_failure_new 400"
definition api_not_found :: "string \<Rightarrow> string \<Rightarrow> api_failure" where "api_not_found = api_failure_new 404"
definition api_internal :: "string \<Rightarrow> string \<Rightarrow> api_failure" where "api_internal = api_failure_new 500"
definition api_conflict :: "string \<Rightarrow> string \<Rightarrow> api_failure" where "api_conflict = api_failure_new 409"
definition too_large :: "string \<Rightarrow> string \<Rightarrow> api_failure" where "too_large = api_failure_new 413"
definition too_many :: "string \<Rightarrow> string \<Rightarrow> api_failure" where "too_many = api_failure_new 429"

definition protocol_status :: "string \<Rightarrow> nat" where
  "protocol_status code =
     (if code \<in> {''workspace_not_found'', ''server_not_found'', ''agent_not_found'', ''agent_not_in_folder'',
           ''recipient_not_found''} then 404
      else if code \<in> {''workspace_exists'', ''agent_name_conflict'', ''agent_ambiguous'', ''server_ambiguous'',
           ''recipient_ambiguous''} then 409
      else if code = ''machine_file_exists'' then 409
      else if code = ''file_transfer_unsupported'' then 501
      else if code = ''machine_file_denied'' then 403
      else if code \<in> {''machine_transfer_not_found'', ''machine_file_not_found''} then 404
      else if code \<in> {''machine_file_too_large'', ''machine_upload_too_large''} then 413
      else if code \<in> {''machine_upload_busy'', ''machine_upload_rate_limited''} then 429
      else if code = ''machine_upload_space_insufficient'' then 507
      else if code \<in> {''machine_upload_size_mismatch'', ''machine_upload_content_mismatch'',
           ''machine_upload_file_mismatch'', ''upload_part_length_mismatch'', ''upload_part_hash_mismatch'',
           ''upload_part_too_small'', ''invalid_upload_length''} then 400
      else if code \<in> {''machine_upload_not_found'', ''machine_upload_exists'', ''machine_upload_offset'',
           ''machine_upload_mode_mismatch'', ''machine_upload_publish_unsupported'', ''machine_upload_commit_uncertain'',
           ''upload_part_conflict'', ''upload_offset_gap'', ''upload_busy'', ''upload_committing'', ''upload_committed'',
           ''upload_incomplete'', ''upload_not_active'', ''upload_begin_conflict'', ''upload_lost'',
           ''controller_update_required''} then 409
      else if code = ''upload_not_found'' then 404
      else if code \<in> {''upload_overrun'', ''upload_too_many_parts'', ''upload_part_too_large''} then 413
      else if code \<in> {''machine_upload_idle'', ''machine_upload_timeout''} then 408
      else if code = ''length_required'' then 411
      else if code \<in> {''machine_transfer_limit'', ''machine_transfer_busy''} then 429
      else if code \<in> {''machine_file_checksum_mismatch'', ''machine_file_changed'', ''machine_file_commit_uncertain'',
           ''machine_transfer_stale''} then 409
      else if code = ''agent_startup_not_found'' then 404
      else if code \<in> {''policy_denied'', ''policy_subject_mismatch'', ''agent_identity_mismatch''} then 403
      else if code \<in> {''server_offline'', ''no_online_server'', ''ssh_unsupported'', ''scp_unsupported''} then 503
      else if code \<in> {''invalid_agent_identity'', ''invalid_name'', ''invalid_request'', ''invalid_machine_exec'',
           ''invalid_machine_exec_timeout'', ''invalid_machine_path'', ''invalid_machine_file_name'',
           ''invalid_machine_upload'', ''invalid_machine_file'', ''machine_transfer_direction'',
           ''machine_transfer_offset'', ''machine_upload_chunk_too_large''} then 400
      else if code \<in> {''invalid_agent_startup'', ''invalid_agent_startup_validation''} then 400
      else 502)"

definition api_failure_from :: "protocol_error \<Rightarrow> api_failure" where
  "api_failure_from e = \<lparr>af_status = protocol_status (pe_code e), af_error = e\<rparr>"

datatype api_body = BodyJson json | BodyError protocol_error

record api_response =
  rs_status :: nat
  rs_body :: api_body
  rs_close :: bool
  rs_retry_after :: "nat option"

definition RETRY_AFTER_SECONDS :: nat where "RETRY_AFTER_SECONDS = 5"
definition PARTS_PER_UPLOAD_PER_MINUTE :: nat where "PARTS_PER_UPLOAD_PER_MINUTE = 160"
definition STATUS_PER_UPLOAD_PER_MINUTE :: nat where "STATUS_PER_UPLOAD_PER_MINUTE = 60"
definition CHUNKS_IN_FLIGHT :: nat where "CHUNKS_IN_FLIGHT = 2"

definition json_response :: "nat \<Rightarrow> json \<Rightarrow> api_response" where
  "json_response status body = \<lparr>rs_status = status, rs_body = BodyJson body, rs_close = False, rs_retry_after = None\<rparr>"

definition closing :: "api_failure \<Rightarrow> api_response" where
  "closing f = \<lparr>rs_status = af_status f, rs_body = BodyError (af_error f), rs_close = True,
     rs_retry_after = (if af_status f \<in> {429, 409} then Some RETRY_AFTER_SECONDS else None)\<rparr>"

definition store_failure :: api_failure where
  "store_failure = api_internal ''upload_store_error'' ''the upload registry is unavailable''"

definition upload_row_not_found :: api_failure where
  "upload_row_not_found = api_not_found ''upload_not_found'' ''upload does not exist''"

definition with_hint :: "string \<Rightarrow> api_failure \<Rightarrow> api_failure" where
  "with_hint h f = f\<lparr>af_error := (af_error f)\<lparr>pe_hint := Some [h]\<rparr>\<rparr>"

section \<open>Requests\<close>

record begin_request =
  rq_directory :: string
  rq_file_name :: string
  rq_overwrite :: bool
  rq_size :: nat

definition validate_begin :: "begin_request \<Rightarrow> api_failure + unit" where
  "validate_begin q =
     (let name = rq_file_name q in
      if name = [] \<or> 255 < length name \<or> CHR ''/'' \<in> set name \<or> CHR 0x5C \<in> set name \<or> has_control name
         \<or> name = ''.'' \<or> name = ''..'' then
        Inl (api_bad_request ''invalid_machine_file_name'' ''file_name must be one file name without path separators'')
      else if 4096 < length (rq_directory q) \<or> has_control (rq_directory q) \<or> starts_with (rq_directory q) ''/'' then
        Inl (api_bad_request ''invalid_machine_path'' ''directory must be a relative path beneath the machine root'')
      else if MACHINE_UPLOAD_MAX_BYTES < rq_size q then
        Inl (too_large ''machine_file_too_large''
          (''uploaded files may contain at most '' @ dec_string MACHINE_UPLOAD_MAX_BYTES @ '' bytes''))
      else Inr ())"

text \<open>\<open>headers\<close> gives the values of a header in order, \<open>None\<close> where one is not visible ASCII.\<close>

type_synonym headers = "string \<Rightarrow> string option list"

definition unwrap_or_default :: "string option \<Rightarrow> string" where
  "unwrap_or_default v = (case v of Some s \<Rightarrow> s | None \<Rightarrow> [])"

definition upload_idempotency_key :: "headers \<Rightarrow> api_failure + string" where
  "upload_idempotency_key headers = (case headers ''idempotency-key'' of
      [v] \<Rightarrow>
        let key = unwrap_or_default v in
        if length key < 32 \<or> 128 < length key
           \<or> \<not> list_all (\<lambda>b. is_ascii_alphanumeric b \<or> b = CHR ''_'' \<or> b = CHR ''-'') key then
          Inl (api_bad_request ''invalid_idempotency_key''
            ''Idempotency-Key must be 32 to 128 characters of letters, digits, _ or -'')
        else Inr key
    | _ \<Rightarrow> Inl (api_bad_request ''invalid_idempotency_key''
        ''begin requires exactly one Idempotency-Key header of 32 to 128 characters''))"

definition parse_u64 :: "string \<Rightarrow> nat option" where
  "parse_u64 s =
     (let digits = (case strip_prefix s ''+'' of Some d \<Rightarrow> d | None \<Rightarrow> s);
          n = fold (\<lambda>c acc. 10 * acc + (ordb c - 48)) digits 0 in
      if digits \<noteq> [] \<and> list_all is_ascii_digit digits \<and> n < 2 ^ 64 then Some n else None)"

definition declared_length :: "headers \<Rightarrow> api_failure + nat" where
  "declared_length headers =
     (if headers ''transfer-encoding'' \<noteq> [] then
        Inl (api_failure_new 411 ''length_required''
          ''parts need one exact Content-Length; chunked bodies are not accepted'')
      else (case headers ''content-length'' of
          [v] \<Rightarrow> ok_or_else (Option.bind v (\<lambda>text. parse_u64 (trim text)))
            (api_bad_request ''invalid_upload_length'' ''Content-Length is not a number'')
        | _ \<Rightarrow> Inl (api_failure_new 411 ''length_required'' ''parts need exactly one Content-Length'')))"

definition part_sha256 :: "headers \<Rightarrow> api_failure + string" where
  "part_sha256 headers = (case headers ''x-treer-part-sha256'' of
      [v] \<Rightarrow>
        let hex = map to_ascii_lower (trim (unwrap_or_default v)) in
        if length hex \<noteq> 64 \<or> \<not> list_all is_ascii_hexdigit hex then
          Inl (api_bad_request ''invalid_part_sha256'' ''X-Treer-Part-Sha256 must be 64 hex characters'')
        else Inr hex
    | _ \<Rightarrow> Inl (api_bad_request ''invalid_part_sha256'' ''parts need exactly one X-Treer-Part-Sha256 header''))"

section \<open>The world of a handler\<close>

datatype upload_command = CmdBegin string string string bool "nat option" | CmdChunk string string "nat option"
  | CmdPartCommit string nat nat string | CmdResult string | CmdCommit string | CmdAbort string

record caller =
  ca_workspace_id :: string
  ca_server_id :: string
  ca_subject_kind :: string
  ca_subject_id :: string

record audit_event =
  ad_caller :: caller
  ad_action :: string
  ad_payload :: json

record moment =
  mt_now :: datetime
  mt_instant :: instant
  mt_ops :: "upload_op list"
  mt_gate :: "gate_inner \<Rightarrow> gate_inner"
  mt_fail :: bool

record api_env =
  ae_rows :: upload_env
  ae_lib :: upload_lib
  ae_moment :: "nat \<Rightarrow> moment"
  ae_answer :: "nat \<Rightarrow> json res"

record api_world =
  aw_table :: upload_table
  aw_gate :: gate_inner
  aw_now :: datetime
  aw_steps :: nat
  aw_sent :: "(string \<times> string \<times> upload_command) list"
  aw_audit :: "audit_event list"

type_synonym 'a api = "api_world \<Rightarrow> (api_failure + 'a) \<times> api_world"

definition api_pure :: "'a \<Rightarrow> 'a api" where
  "api_pure v w = (Inr v, w)"

definition api_lift :: "api_failure + 'a \<Rightarrow> 'a api" where
  "api_lift r w = (r, w)"

definition api_bind :: "'a api \<Rightarrow> ('a \<Rightarrow> 'b api) \<Rightarrow> 'b api" where
  "api_bind m f w = (case m w of (Inl e, w1) \<Rightarrow> (Inl e, w1) | (Inr v, w1) \<Rightarrow> f v w1)"

definition next_moment :: "api_env \<Rightarrow> api_world \<Rightarrow> moment \<times> api_world" where
  "next_moment x w =
     (let m = ae_moment x (aw_steps w) in
      (m, w\<lparr>aw_steps := Suc (aw_steps w), aw_now := mt_now m,
            aw_table := run_ops (ae_rows x) (mt_ops m) (aw_table w), aw_gate := mt_gate m (aw_gate w)\<rparr>))"

definition statement :: "api_env \<Rightarrow> (datetime \<Rightarrow> upload_table \<Rightarrow> string + 'a \<times> upload_table) \<Rightarrow> 'a api" where
  "statement x f w =
     (let (m, w1) = next_moment x w in
      if mt_fail m then (Inl store_failure, w1)
      else (case f (aw_now w1) (aw_table w1) of
          Inl _ \<Rightarrow> (Inl store_failure, w1)
        | Inr (v, t) \<Rightarrow> (Inr v, w1\<lparr>aw_table := t\<rparr>)))"

definition query :: "api_env \<Rightarrow> (upload_table \<Rightarrow> 'a) \<Rightarrow> 'a api" where
  "query x f = statement x (\<lambda>now t. Inr (f t, t))"

definition execute :: "api_env \<Rightarrow> (datetime \<Rightarrow> upload_table \<Rightarrow> upload_table) \<Rightarrow> unit api" where
  "execute x f = statement x (\<lambda>now t. Inr ((), f now t))"

definition gate_call :: "api_env \<Rightarrow> (instant \<Rightarrow> gate_inner \<Rightarrow> bool \<times> gate_inner) \<Rightarrow> bool api" where
  "gate_call x f w =
     (let (m, w1) = next_moment x w; (granted, g) = f (mt_instant m) (aw_gate w1) in
      (Inr granted, w1\<lparr>aw_gate := g\<rparr>))"

definition send_command ::
  "api_env \<Rightarrow> string \<Rightarrow> string \<Rightarrow> upload_command \<Rightarrow> api_world \<Rightarrow> json res \<times> api_world" where
  "send_command x workspace server c w =
     (ae_answer x (length (aw_sent w)), w\<lparr>aw_sent := aw_sent w @ [(workspace, server, c)]\<rparr>)"

definition audit :: "caller \<Rightarrow> string \<Rightarrow> json \<Rightarrow> api_world \<Rightarrow> api_world" where
  "audit c action payload w = w\<lparr>aw_audit := aw_audit w @ [\<lparr>ad_caller = c, ad_action = action, ad_payload = payload\<rparr>]\<rparr>"

definition api_audit :: "caller \<Rightarrow> string \<Rightarrow> json \<Rightarrow> unit api" where
  "api_audit c action payload w = (Inr (), audit c action payload w)"

section \<open>Authorization and ownership\<close>

text \<open>What the shared code of the API answers: absent where the check passes.\<close>

record auth_checks =
  ac_resolve :: "api_failure option"
  ac_subject :: "api_failure option"
  ac_target :: "api_failure option"
  ac_policy :: "api_failure option"
  ac_actor :: "string \<times> string option"
  ac_capabilities :: "api_failure + string list"

definition check :: "api_failure option \<Rightarrow> api_failure + unit" where
  "check r = (case r of Some e \<Rightarrow> Inl e | None \<Rightarrow> Inr ())"

definition authorize_caller :: "auth_checks \<Rightarrow> string \<Rightarrow> string \<Rightarrow> api_failure + caller" where
  "authorize_caller a workspace server =
     and_then (check (ac_resolve a)) (\<lambda>_.
     and_then (check (ac_subject a)) (\<lambda>_.
     and_then (check (ac_target a)) (\<lambda>_.
     and_then (check (ac_policy a)) (\<lambda>_.
     case ac_actor a of
       (kind, None) \<Rightarrow> Inl (api_forbidden ''identity_required'' ''machine uploads require an authenticated identity'')
     | (kind, Some i) \<Rightarrow> Inr \<lparr>ca_workspace_id = workspace, ca_server_id = server, ca_subject_kind = kind,
         ca_subject_id = i\<rparr>))))"

definition owns :: "caller \<Rightarrow> upload_row \<Rightarrow> bool" where
  "owns c r = (same_subject r (ca_subject_kind c) (ca_subject_id c) \<and> us_workspace_id r = ca_workspace_id c
     \<and> us_server_id r = ca_server_id c)"

definition get_row :: "api_env \<Rightarrow> string \<Rightarrow> upload_row api" where
  "get_row x i = api_bind (query x (store_get (ae_rows x) i)) (\<lambda>r. api_lift (ok_or_else r upload_row_not_found))"

definition own_row :: "api_env \<Rightarrow> caller \<Rightarrow> string \<Rightarrow> upload_row api" where
  "own_row x c i = api_bind (get_row x i) (\<lambda>r. if owns c r then api_pure r else api_lift (Inl upload_row_not_found))"

section \<open>Status\<close>

definition json_at :: "json \<Rightarrow> string \<Rightarrow> json" where
  "json_at v k = (case v of JObject kvs \<Rightarrow> (case map_of kvs k of Some j \<Rightarrow> j | None \<Rightarrow> JNull) | _ \<Rightarrow> JNull)"

definition json_as_str :: "json \<Rightarrow> string option" where
  "json_as_str v = (case v of JString s \<Rightarrow> Some s | _ \<Rightarrow> None)"

definition json_as_u64 :: "json \<Rightarrow> nat option" where
  "json_as_u64 v = (case v of JNumber n \<Rightarrow> if n < 2 ^ 64 then Some n else None | _ \<Rightarrow> None)"

definition json_as_bool :: "json \<Rightarrow> bool option" where
  "json_as_bool v = (case v of JBool b \<Rightarrow> Some b | _ \<Rightarrow> None)"

definition json_opt :: "('a \<Rightarrow> json) \<Rightarrow> 'a option \<Rightarrow> json" where
  "json_opt f v = (case v of Some a \<Rightarrow> f a | None \<Rightarrow> JNull)"

definition json_set :: "string \<Rightarrow> json \<Rightarrow> json \<Rightarrow> json" where
  "json_set k v j = (case j of JObject kvs \<Rightarrow> JObject (AList.update k v kvs) | _ \<Rightarrow> j)"

definition receipt_json :: "upload_env \<Rightarrow> upload_receipt \<Rightarrow> json" where
  "receipt_json x r = (case jc_to_value (ue_receipt_codec x) r of Some v \<Rightarrow> v | None \<Rightarrow> JNull)"

definition status_json :: "upload_env \<Rightarrow> upload_row \<Rightarrow> bool \<Rightarrow> json" where
  "status_json x r reconciled =
     (let after = (\<lambda>n at. JString (ue_stamp x (at + seconds (int n)))) in
      JObject [(''upload_id'', JString (us_upload_id r)), (''size'', JNumber (us_size r)),
        (''committed_offset'', JNumber (us_committed_offset r)),
        (''part_bytes_max'', JNumber MACHINE_UPLOAD_PART_MAX_BYTES),
        (''part_bytes_min'', JNumber MACHINE_UPLOAD_PART_MIN_BYTES),
        (''state'', JString (upload_state_as_str (us_state r))),
        (''failure_code'', json_opt JString (us_failure_code r)),
        (''result'', json_opt (receipt_json x) (us_result r)),
        (''idempotency_key'', JString (us_idempotency_key r)),
        (''finished_at'', json_opt JString (us_finished_at r)),
        (''terminal'', JBool (is_terminal (us_state r))),
        (''expires_at'', json_opt (after MACHINE_UPLOAD_MAX_LIFETIME_SECONDS) (ue_parse x (us_created_at r))),
        (''idle_expires_at'', json_opt (after MACHINE_UPLOAD_IDLE_SECONDS) (ue_parse x (us_last_part_at r))),
        (''reconciled'', JBool reconciled)])"

definition status_response :: "api_env \<Rightarrow> upload_row \<Rightarrow> bool \<Rightarrow> api_response" where
  "status_response x r reconciled = json_response 200 (status_json (ae_rows x) r reconciled)"

definition unreconciled :: "api_env \<Rightarrow> upload_row \<Rightarrow> api_response" where
  "unreconciled x r = \<lparr>rs_status = 503,
     rs_body = BodyJson (json_set ''error'' (JObject [(''code'', JString ''controller_unavailable''),
       (''message'', JString ''the machine's Controller did not answer; the state shown is the last known one'')])
       (status_json (ae_rows x) r False)),
     rs_close = True, rs_retry_after = Some RETRY_AFTER_SECONDS\<rparr>"

definition receipt_from :: "api_env \<Rightarrow> datetime \<Rightarrow> json \<Rightarrow> upload_receipt" where
  "receipt_from x now v =
     \<lparr>rc_path = unwrap_or_default (json_as_str (json_at v ''path'')),
      rc_bytes_written = (case json_as_u64 (json_at v ''bytes_written'') of Some n \<Rightarrow> n | None \<Rightarrow> 0),
      rc_sha256 = json_as_str (json_at v ''sha256''), rc_committed_at = ue_stamp (ae_rows x) now,
      rc_cleanup_pending = (case json_as_bool (json_at v ''cleanup_pending'') of Some b \<Rightarrow> b | None \<Rightarrow> False)\<rparr>"

definition uploaded_payload :: "string \<Rightarrow> upload_receipt \<Rightarrow> bool \<Rightarrow> json" where
  "uploaded_payload i receipt recovered =
     JObject ([(''upload_id'', JString i), (''path'', JString (rc_path receipt)),
       (''bytes_written'', JNumber (rc_bytes_written receipt)), (''sha256'', json_opt JString (rc_sha256 receipt)),
       (''chunked'', JBool True)] @ (if recovered then [(''recovered'', JBool True)] else []))"

definition reason_payload :: "string \<Rightarrow> string \<Rightarrow> json" where
  "reason_payload i reason = JObject [(''upload_id'', JString i), (''reason'', JString reason)]"

definition failure_code_ok :: "string \<Rightarrow> bool" where
  "failure_code_ok code = (code \<noteq> [] \<and> length code \<le> 64
     \<and> list_all (\<lambda>b. 97 \<le> ordb b \<and> ordb b \<le> 122 \<or> b = CHR ''_'') code)"

definition fail_row :: "api_env \<Rightarrow> caller \<Rightarrow> string \<Rightarrow> string \<Rightarrow> unit api" where
  "fail_row x c i code =
     api_bind (execute x (\<lambda>now. set_terminal (ae_rows x) now i Failed code)) (\<lambda>_.
     api_audit c ''machine.file.upload_aborted'' (reason_payload i code))"

definition adopt_answer :: "api_env \<Rightarrow> caller \<Rightarrow> upload_row \<Rightarrow> json \<Rightarrow> unit api" where
  "adopt_answer x c r answer w =
     (let i = us_upload_id r;
          state = (case json_as_str (json_at answer ''state'') of Some s \<Rightarrow> s | None \<Rightarrow> ''unknown'') in
      if state = ''committed'' then
        let receipt = receipt_from x (aw_now w) (json_at answer ''result'') in
        api_bind (execute x (\<lambda>now. set_committed (ae_rows x) now i receipt)) (\<lambda>_.
        api_audit c ''machine.file.uploaded'' (uploaded_payload i receipt True)) w
      else if state = ''active'' then
        let committed = (case json_as_u64 (json_at answer ''committed_offset'') of Some n \<Rightarrow> n | None \<Rightarrow> 0) in
        if committed \<noteq> us_committed_offset r \<and> us_state r = Active then
          let parts = (case jc_from_value (ue_parts_codec (ae_rows x)) (json_at answer ''parts'') of
              Some ps \<Rightarrow> ps | None \<Rightarrow> []) in
          execute x (\<lambda>now. record_progress (ae_rows x) now i committed parts) w
        else (Inr (), w)
      else if state = ''failed'' then
        fail_row x c i (case json_as_str (json_at answer ''code'') of
            Some code \<Rightarrow> if failure_code_ok code then code else ''machine_upload_failed''
          | None \<Rightarrow> ''machine_upload_failed'') w
      else if us_state r = Active then fail_row x c i ''upload_lost'' w
      else (Inr (), w))"

text \<open>A time-out of the reconciliation is an error answer: both leave the row as it is.\<close>

definition reconcile :: "api_env \<Rightarrow> caller \<Rightarrow> upload_row \<Rightarrow> (upload_row \<times> bool) api" where
  "reconcile x c r w =
     (if us_state r \<notin> {Active, Committing} then (Inr (r, True), w)
      else (case send_command x (us_workspace_id r) (us_server_id r) (CmdResult (us_upload_id r)) w of
          (Inl _, w1) \<Rightarrow> (Inr (r, False), w1)
        | (Inr answer, w1) \<Rightarrow>
            api_bind (adopt_answer x c r answer) (\<lambda>_.
            api_bind (get_row x (us_upload_id r)) (\<lambda>r1. api_pure (r1, True))) w1))"

section \<open>Begin, list and status\<close>

definition path_of_request :: "begin_request \<Rightarrow> string" where
  "path_of_request q = trim_end_matches CHR ''/'' (dropWhile (\<lambda>c. c = CHR ''/'') (rq_directory q)) @ ''/'' @ rq_file_name q"

definition params_of :: "caller \<Rightarrow> begin_request \<Rightarrow> string \<Rightarrow> string \<Rightarrow> begin_params" where
  "params_of c q key i = \<lparr>bp_workspace_id = ca_workspace_id c, bp_server_id = ca_server_id c,
     bp_directory = rq_directory q, bp_file_name = rq_file_name q, bp_overwrite = rq_overwrite q, bp_size = rq_size q,
     bp_subject_kind = ca_subject_kind c, bp_subject_id = ca_subject_id c, bp_idempotency_key = key, bp_upload_id = i\<rparr>"

definition begin_created :: "api_env \<Rightarrow> caller \<Rightarrow> begin_request \<Rightarrow> upload_row \<Rightarrow> api_response api" where
  "begin_created x c q r w =
     (let i = us_upload_id r in
      case send_command x (ca_workspace_id c) (ca_server_id c)
        (CmdBegin i (rq_directory q) (rq_file_name q) (rq_overwrite q) (Some (rq_size q))) w of
        (Inl e, w1) \<Rightarrow>
          api_bind (execute x (\<lambda>now. store_delete i)) (\<lambda>_. api_lift (Inl (api_failure_from e))) w1
      | (Inr _, w1) \<Rightarrow>
          api_bind (execute x (\<lambda>now. store_activate i)) (\<lambda>_.
          api_bind (api_audit c ''machine.file.upload_begun'' (JObject [(''upload_id'', JString i),
            (''path'', JString (path_of_request q)), (''size'', JNumber (rq_size q))])) (\<lambda>_.
          api_bind (get_row x i) (\<lambda>r1.
          api_pure (json_response 201 (status_json (ae_rows x) r1 False))))) w1)"

definition or_closing :: "api_response api \<Rightarrow> api_response api" where
  "or_closing m w = (case m w of (Inl e, w1) \<Rightarrow> (Inr (closing e), w1) | (Inr r, w1) \<Rightarrow> (Inr r, w1))"

definition begin_machine_upload ::
  "api_env \<Rightarrow> auth_checks \<Rightarrow> headers \<Rightarrow> string \<Rightarrow> string \<Rightarrow> string \<Rightarrow> begin_request \<Rightarrow> api_response api" where
  "begin_machine_upload x a headers workspace server fresh q =
     api_bind (api_lift (authorize_caller a workspace server)) (\<lambda>c. or_closing (
     api_bind (api_lift (upload_idempotency_key headers)) (\<lambda>key.
     api_bind (api_lift (validate_begin q)) (\<lambda>_.
     api_bind (api_lift (ac_capabilities a)) (\<lambda>capabilities.
     if ''machine.upload.v3'' \<notin> set capabilities then
       api_lift (Inl (api_conflict ''controller_update_required''
         ''this machine's Controller does not support chunked uploads yet''))
     else
       api_bind (statement x (\<lambda>now. store_begin (ae_rows x) now (params_of c q key fresh))) (\<lambda>outcome.
       case outcome of
         Replayed r \<Rightarrow> api_pure (status_response x r False)
       | KeyConflict \<Rightarrow> api_lift (Inl (api_conflict ''upload_begin_conflict''
           ''this Idempotency-Key was used with different parameters''))
       | Refused code \<Rightarrow> api_lift (Inl (too_many code
           ''too many uploads for this user, workspace or machine, or begin rate exceeded''))
       | Created r \<Rightarrow> begin_created x c q r))))))"

definition list_machine_uploads ::
  "api_env \<Rightarrow> auth_checks \<Rightarrow> string \<Rightarrow> string \<Rightarrow> string option \<Rightarrow> api_response api" where
  "list_machine_uploads x a workspace server key =
     api_bind (api_lift (authorize_caller a workspace server)) (\<lambda>c.
     api_bind (query x (list_own (ae_rows x) workspace server (ca_subject_kind c) (ca_subject_id c) key)) (\<lambda>rows.
     api_pure (json_response 200 (JObject [(''uploads'', JArray (map (\<lambda>r. status_json (ae_rows x) r False) rows))]))))"

definition machine_upload_status ::
  "api_env \<Rightarrow> auth_checks \<Rightarrow> string \<Rightarrow> string \<Rightarrow> string \<Rightarrow> api_response api" where
  "machine_upload_status x a workspace server i =
     api_bind (api_lift (authorize_caller a workspace server)) (\<lambda>c.
     api_bind (own_row x c i) (\<lambda>r.
     api_bind (gate_call x (\<lambda>now. allow now (''status:'' @ i) STATUS_PER_UPLOAD_PER_MINUTE)) (\<lambda>allowed.
     if \<not> allowed then
       api_pure (closing (too_many ''machine_upload_rate_limited'' ''status is polled too often for this upload''))
     else
       api_bind (reconcile x c r) (\<lambda>(r1, reconciled).
       api_pure (if reconciled then status_response x r1 True else unreconciled x r1)))))"

section \<open>Streaming a part\<close>

text \<open>
  What the read of a part body yields: a frame, an error, its end, no data within the idle limit, or
  the overall deadline found over before the read.  A list that ends is a body that ended.
\<close>

datatype body_event = Frame string | FrameError | IdleTimeout | DeadlineReached

record stream_state =
  sm_buffer :: string
  sm_in_flight :: "json res list"
  sm_hashed :: string
  sm_received :: nat
  sm_position :: nat

fun settle :: "nat \<Rightarrow> json res list \<Rightarrow> json res list res" where
  "settle keep [] = Inr []"
| "settle keep (r # q) = (if keep < Suc (length q) then (case r of Inl e \<Rightarrow> Inl e | Inr _ \<Rightarrow> settle keep q) else Inr (r # q))"

definition dispatch_chunk ::
  "api_env \<Rightarrow> upload_row \<Rightarrow> stream_state \<times> api_world \<Rightarrow> unit res \<times> stream_state \<times> api_world" where
  "dispatch_chunk x r sw =
     (case sw of (s, w) \<Rightarrow> (case settle (CHUNKS_IN_FLIGHT - 1) (sm_in_flight s) of
        Inl e \<Rightarrow> (Inl e, s, w)
      | Inr waiting \<Rightarrow>
          let chunk = sm_buffer s;
              (answer, w1) = send_command x (us_workspace_id r) (us_server_id r)
                (CmdChunk (us_upload_id r) (lb_b64_encode (ae_lib x) chunk) (Some (sm_position s))) w in
          (Inr (), s\<lparr>sm_buffer := [], sm_in_flight := waiting @ [answer], sm_position := sm_position s + length chunk\<rparr>, w1)))"

text \<open>A buffer longer than a chunk does not arise: the code's subtraction would overflow there.\<close>

function feed ::
  "api_env \<Rightarrow> upload_row \<Rightarrow> string \<Rightarrow> stream_state \<Rightarrow> api_world \<Rightarrow> unit res \<times> stream_state \<times> api_world" where
  "feed x r frame s w =
     (if frame = [] \<or> MACHINE_UPLOAD_CHUNK_BYTES < length (sm_buffer s) then (Inr (), s, w)
      else
        let n = min (MACHINE_UPLOAD_CHUNK_BYTES - length (sm_buffer s)) (length frame);
            s1 = s\<lparr>sm_buffer := sm_buffer s @ take n frame\<rparr> in
        if length (sm_buffer s1) = MACHINE_UPLOAD_CHUNK_BYTES then
          (case dispatch_chunk x r (s1, w) of
             (Inl e, s2, w2) \<Rightarrow> (Inl e, s2, w2)
           | (Inr _, s2, w2) \<Rightarrow> feed x r (drop n frame) s2 w2)
        else feed x r (drop n frame) s1 w)"
  by pat_completeness auto

lemma dispatch_empties: "dispatch_chunk x r sw = (Inr u, s, w) \<Longrightarrow> sm_buffer s = []"
  by (auto simp: dispatch_chunk_def Let_def split: prod.splits sum.splits)

termination feed
  by (relation "measure (\<lambda>(x, r, frame, s, w). 2 * length frame
      + (if MACHINE_UPLOAD_CHUNK_BYTES \<le> length (sm_buffer s) then 1 else 0))")
    (auto simp: min_def MACHINE_UPLOAD_CHUNK_BYTES_def dest!: dispatch_empties [OF sym] split: if_splits)

declare feed.simps [simp del]

fun read_body ::
  "api_env \<Rightarrow> upload_row \<Rightarrow> nat \<Rightarrow> body_event list \<Rightarrow> stream_state \<Rightarrow> api_world
   \<Rightarrow> unit res \<times> stream_state \<times> api_world" where
  "read_body x r len [] s w = (Inr (), s, w)"
| "read_body x r len (e # es) s w =
     (if len \<le> sm_received s then (Inr (), s, w)
      else (case e of
          DeadlineReached \<Rightarrow> (Inl (protocol_error_new ''machine_upload_timeout''
            ''the part did not finish within its time limit''), s, w)
        | FrameError \<Rightarrow> (Inl (protocol_error_new ''machine_upload_body_error'' ''the part body ended with an error''), s, w)
        | IdleTimeout \<Rightarrow> (Inl (protocol_error_new ''machine_upload_idle'' ''no part data arrived within the idle limit''), s, w)
        | Frame frame \<Rightarrow>
            let s1 = s\<lparr>sm_received := sat_add (sm_received s) (length frame)\<rparr> in
            if len < sm_received s1 then
              (Inl (protocol_error_new ''upload_part_length_mismatch''
                 ''the part body is longer than its Content-Length''), s1, w)
            else (case feed x r frame (s1\<lparr>sm_hashed := sm_hashed s1 @ frame\<rparr>) w of
                (Inl err, s2, w2) \<Rightarrow> (Inl err, s2, w2)
              | (Inr _, s2, w2) \<Rightarrow> read_body x r len es s2 w2)))"

definition stream_start :: "nat \<Rightarrow> stream_state" where
  "stream_start offset = \<lparr>sm_buffer = [], sm_in_flight = [], sm_hashed = [], sm_received = 0, sm_position = offset\<rparr>"

definition stream_rest ::
  "api_env \<Rightarrow> upload_row \<Rightarrow> nat \<Rightarrow> stream_state \<times> api_world \<Rightarrow> unit res \<times> stream_state \<times> api_world" where
  "stream_rest x r len sw =
     (case sw of (s, w) \<Rightarrow>
      if sm_received s \<noteq> len then
        (Inl (protocol_error_new ''upload_part_length_mismatch'' ''the part body ended before its Content-Length''), s, w)
      else (case (if sm_buffer s \<noteq> [] then dispatch_chunk x r (s, w) else (Inr (), s, w)) of
          (Inl e, s1, w1) \<Rightarrow> (Inl e, s1, w1)
        | (Inr _, s1, w1) \<Rightarrow> (case settle 0 (sm_in_flight s1) of
              Inl e \<Rightarrow> (Inl e, s1, w1) | Inr q \<Rightarrow> (Inr (), s1\<lparr>sm_in_flight := q\<rparr>, w1))))"

definition stream_part ::
  "api_env \<Rightarrow> upload_row \<Rightarrow> nat \<Rightarrow> nat \<Rightarrow> string \<Rightarrow> body_event list \<Rightarrow> api_world
   \<Rightarrow> (nat \<times> part_record list) res \<times> api_world" where
  "stream_part x r offset len sha256 body w =
     (case read_body x r len body (stream_start offset) w of
        (Inl e, s1, w1) \<Rightarrow> (Inl e, w1)
      | (Inr _, s1, w1) \<Rightarrow> (case stream_rest x r len (s1, w1) of
            (Inl e, s2, w2) \<Rightarrow> (Inl e, w2)
          | (Inr _, s2, w2) \<Rightarrow>
              if lb_sha256_hex (ae_lib x) (sm_hashed s2) \<noteq> sha256 then
                (Inl (protocol_error_new ''upload_part_hash_mismatch''
                   ''the part's SHA-256 does not match X-Treer-Part-Sha256; the part was discarded''), w2)
              else (case send_command x (us_workspace_id r) (us_server_id r)
                  (CmdPartCommit (us_upload_id r) offset len sha256) w2 of
                  (Inl e, w3) \<Rightarrow> (Inl e, w3)
                | (Inr answer, w3) \<Rightarrow>
                    (Inr (case json_as_u64 (json_at answer ''committed_offset'') of Some n \<Rightarrow> n | None \<Rightarrow> offset + len,
                        us_parts r @ [\<lparr>pr_offset = offset, pr_length = len, pr_sha256 = sha256\<rparr>]), w3))))"

section \<open>Parts\<close>

definition part_state :: "upload_row \<Rightarrow> api_failure + unit" where
  "part_state r = (case us_state r of
      Active \<Rightarrow> Inr ()
    | Committing \<Rightarrow> Inl (api_conflict ''upload_committing'' ''the upload is being committed'')
    | Pending \<Rightarrow> Inl (api_conflict ''upload_not_active'' ''the upload has not been accepted yet'')
    | _ \<Rightarrow> Inl (api_conflict ''upload_not_active'' ''the upload has ended''))"

definition known_part :: "upload_row \<Rightarrow> nat \<Rightarrow> nat \<Rightarrow> string \<Rightarrow> bool" where
  "known_part r offset len sha256 =
     list_ex (\<lambda>p. pr_offset p = offset \<and> pr_length p = len \<and> pr_sha256 p = sha256) (us_parts r)"

definition part_conflict :: api_failure where
  "part_conflict = api_conflict ''upload_part_conflict'' ''a different part is already committed over this range''"

definition offset_gap :: "string \<Rightarrow> upload_row \<Rightarrow> api_failure" where
  "offset_gap message r = with_hint (''committed_offset='' @ dec_string (us_committed_offset r))
     (api_conflict ''upload_offset_gap'' message)"

text \<open>\<open>Inr True\<close> is the replay of a committed part, \<open>Inr False\<close> a part to admit.\<close>

definition part_range :: "upload_row \<Rightarrow> nat \<Rightarrow> nat \<Rightarrow> string \<Rightarrow> api_failure + bool" where
  "part_range r offset len sha256 =
     (let end = offset + len in
      if 2 ^ 64 \<le> end \<or> us_size r < end then
        Inl (too_large ''upload_overrun'' ''the part extends past the declared size'')
      else if MACHINE_UPLOAD_PART_MAX_BYTES < len then
        Inl (too_large ''upload_part_too_large''
          (''parts may contain at most '' @ dec_string MACHINE_UPLOAD_PART_MAX_BYTES @ '' bytes''))
      else if end < us_size r \<and> len < MACHINE_UPLOAD_PART_MIN_BYTES then
        Inl (api_bad_request ''upload_part_too_small'' (''parts other than the last must contain at least ''
          @ dec_string MACHINE_UPLOAD_PART_MIN_BYTES @ '' bytes''))
      else if offset < us_committed_offset r then
        (if known_part r offset len sha256 \<and> end \<le> us_committed_offset r then Inr True else Inl part_conflict)
      else if us_committed_offset r < offset then
        Inl (offset_gap ''the part does not start at the committed offset'' r)
      else if MACHINE_UPLOAD_MAX_PARTS \<le> length (us_parts r) then
        Inl (too_large ''upload_too_many_parts''
          (''an upload may have at most '' @ dec_string MACHINE_UPLOAD_MAX_PARTS @ '' parts''))
      else Inr False)"

definition drop_body_permit :: "'a \<times> api_world \<Rightarrow> 'a \<times> api_world" where
  "drop_body_permit rw = (case rw of (r, w) \<Rightarrow> (r, w\<lparr>aw_gate := drop_permit (aw_gate w)\<rparr>))"

definition admit_leased :: "api_env \<Rightarrow> string \<Rightarrow> upload_row api" where
  "admit_leased x i =
     api_bind (gate_call x (\<lambda>now. allow now (''parts:'' @ i) PARTS_PER_UPLOAD_PER_MINUTE)) (\<lambda>allowed.
     if \<not> allowed then
       api_lift (Inl (too_many ''machine_upload_rate_limited'' ''parts are sent too often for this upload''))
     else
       api_bind (gate_call x (\<lambda>_. acquire_body)) (\<lambda>slot.
       if \<not> slot then
         api_lift (Inl (too_many ''machine_upload_busy'' ''this Proxy is streaming too many parts right now''))
       else (\<lambda>w. (case statement x (\<lambda>now t. Inr (acquire_lease (ae_rows x) now i t)) w of
           (Inl e, w1) \<Rightarrow> drop_body_permit (Inl e, w1)
         | (Inr None, w1) \<Rightarrow>
             drop_body_permit (Inl (api_conflict ''upload_busy'' ''another part of this upload is in flight''), w1)
         | (Inr (Some r), w1) \<Rightarrow> (Inr r, w1)))))"

definition admit_part ::
  "api_env \<Rightarrow> caller \<Rightarrow> headers \<Rightarrow> string \<Rightarrow> nat \<Rightarrow> (upload_row \<times> nat \<times> string) option api" where
  "admit_part x c headers i offset =
     api_bind (own_row x c i) (\<lambda>r.
     api_bind (api_lift (declared_length headers)) (\<lambda>len.
     api_bind (api_lift (part_sha256 headers)) (\<lambda>sha256.
     api_bind (api_lift (part_state r)) (\<lambda>_.
     api_bind (api_lift (part_range r offset len sha256)) (\<lambda>replay.
     if replay then api_pure None
     else api_bind (admit_leased x i) (\<lambda>leased. api_pure (Some (leased, len, sha256))))))))"

definition release :: "api_env \<Rightarrow> string \<Rightarrow> api_world \<Rightarrow> api_world" where
  "release x i w = snd (execute x (\<lambda>now. release_lease i) w)"

definition part_done :: "nat \<Rightarrow> nat \<Rightarrow> bool \<Rightarrow> api_response" where
  "part_done committed whole idempotent = json_response 200 (JObject [(''committed_offset'', JNumber committed),
     (''size'', JNumber whole), (''idempotent'', JBool idempotent)])"

text \<open>Ending with an error drops the guard, which releases the lease as well.\<close>

definition stream_leased ::
  "api_env \<Rightarrow> string \<Rightarrow> nat \<Rightarrow> nat \<Rightarrow> string \<Rightarrow> body_event list \<Rightarrow> upload_row \<Rightarrow> api_response api" where
  "stream_leased x i offset len sha256 body r w =
     (case stream_part x r offset len sha256 body w of
        (Inl e, w1) \<Rightarrow> (Inr (closing (api_failure_from e)), release x i w1)
      | (Inr (committed, parts), w1) \<Rightarrow>
          (case execute x (\<lambda>now. record_progress (ae_rows x) now i committed parts) w1 of
             (Inl e, w2) \<Rightarrow> (Inl e, release x i w2)
           | (Inr _, w2) \<Rightarrow> api_bind (execute x (\<lambda>now. release_lease i)) (\<lambda>_.
               api_pure (part_done committed (us_size r) False)) w2))"

definition part_under_lease ::
  "api_env \<Rightarrow> caller \<Rightarrow> string \<Rightarrow> nat \<Rightarrow> nat \<Rightarrow> string \<Rightarrow> body_event list \<Rightarrow> upload_row \<Rightarrow> api_response api" where
  "part_under_lease x c i offset len sha256 body leased w =
     (case reconcile x c leased w of
        (Inl e, w1) \<Rightarrow> (Inl e, release x i w1)
      | (Inr (r, reconciled), w1) \<Rightarrow>
          if \<not> reconciled then (Inr (unreconciled x r), release x i w1)
          else if us_state r \<noteq> Active then
            (Inr (closing (api_conflict ''upload_not_active'' ''the upload has ended'')), release x i w1)
          else if offset < us_committed_offset r then
            (Inr (if known_part r offset len sha256 \<and> offset + len \<le> us_committed_offset r
                  then part_done (us_committed_offset r) (us_size r) True else closing part_conflict), release x i w1)
          else if offset \<noteq> us_committed_offset r then
            (Inr (closing (offset_gap ''the committed offset moved; query status and resume from it'' r)), release x i w1)
          else stream_leased x i offset len sha256 body r w1)"

definition put_machine_upload_part ::
  "api_env \<Rightarrow> auth_checks \<Rightarrow> headers \<Rightarrow> string \<Rightarrow> string \<Rightarrow> string \<Rightarrow> nat \<Rightarrow> body_event list \<Rightarrow> api_response api" where
  "put_machine_upload_part x a headers workspace server i offset body =
     api_bind (api_lift (authorize_caller a workspace server)) (\<lambda>c w.
       (case admit_part x c headers i offset w of
          (Inl e, w1) \<Rightarrow> (Inr (closing e), w1)
        | (Inr None, w1) \<Rightarrow> api_bind (own_row x c i) (\<lambda>r.
            api_pure (part_done (us_committed_offset r) (us_size r) True)) w1
        | (Inr (Some (leased, len, sha256)), w1) \<Rightarrow>
            drop_body_permit (part_under_lease x c i offset len sha256 body leased w1)))"

section \<open>Commit and abort\<close>

definition definitive_code :: "string \<Rightarrow> string option" where
  "definitive_code code =
     (if code \<in> {''machine_file_exists'', ''machine_upload_size_mismatch'', ''machine_upload_publish_unsupported'',
           ''machine_upload_space_insufficient'', ''machine_upload_content_mismatch'', ''machine_upload_file_mismatch'',
           ''upload_part_hash_mismatch'', ''invalid_machine_path'', ''invalid_machine_file_name'',
           ''machine_file_denied'', ''machine_file_not_found''} then Some code
      else if code = ''machine_upload_not_found'' then Some ''upload_lost'' else None)"

text \<open>The detached task of a commit.  It ignores failures of the database.\<close>

definition commit_task :: "api_env \<Rightarrow> caller \<Rightarrow> upload_row \<Rightarrow> api_world \<Rightarrow> api_world" where
  "commit_task x c r w =
     (let i = us_upload_id r in
      case send_command x (us_workspace_id r) (us_server_id r) (CmdCommit i) w of
        (Inr value, w1) \<Rightarrow>
          let receipt = receipt_from x (aw_now w1) value in
          audit c ''machine.file.uploaded'' (uploaded_payload i receipt False)
            (snd (execute x (\<lambda>now. set_committed (ae_rows x) now i receipt) w1))
      | (Inl e, w1) \<Rightarrow> (case definitive_code (pe_code e) of
            None \<Rightarrow> w1
          | Some code \<Rightarrow>
              let w2 = (if code \<in> {''machine_upload_content_mismatch'', ''machine_upload_file_mismatch''}
                then snd (send_command x (us_workspace_id r) (us_server_id r) (CmdAbort i) w1) else w1) in
              audit c ''machine.file.upload_aborted'' (reason_payload i code)
                (snd (execute x (\<lambda>now. set_terminal (ae_rows x) now i Failed code) w2))))"

definition commit_answer :: "api_env \<Rightarrow> upload_row \<Rightarrow> api_response" where
  "commit_answer x r = (case us_state r of
      Committed \<Rightarrow> status_response x r True
    | Failed \<Rightarrow> closing (api_failure_from (protocol_error_new
        (case us_failure_code r of Some c \<Rightarrow> c | None \<Rightarrow> ''machine_upload_failed'')
        ''the Controller could not publish the upload''))
    | _ \<Rightarrow> unreconciled x r)"

definition commit_ready :: "api_env \<Rightarrow> caller \<Rightarrow> string \<Rightarrow> upload_row \<Rightarrow> api_response api" where
  "commit_ready x c i r =
     (if us_committed_offset r \<noteq> us_size r then
        api_pure (closing (with_hint (''committed_offset='' @ dec_string (us_committed_offset r)
            @ '' size='' @ dec_string (us_size r))
          (api_conflict ''upload_incomplete'' ''not every byte has been committed yet'')))
      else
        api_bind (statement x (\<lambda>now t. Inr (start_commit (ae_rows x) now i t))) (\<lambda>started.
        case started of
          None \<Rightarrow> api_pure (closing (api_conflict ''upload_busy'' ''a part of this upload is still in flight''))
        | Some r1 \<Rightarrow> (\<lambda>w. api_bind (own_row x c i) (\<lambda>r2. api_pure (commit_answer x r2)) (commit_task x c r1 w))))"

definition commit_machine_upload ::
  "api_env \<Rightarrow> auth_checks \<Rightarrow> string \<Rightarrow> string \<Rightarrow> string \<Rightarrow> api_response api" where
  "commit_machine_upload x a workspace server i =
     api_bind (api_lift (authorize_caller a workspace server)) (\<lambda>c.
     api_bind (own_row x c i) (\<lambda>r0.
     api_bind (reconcile x c r0) (\<lambda>(r, reconciled).
     if \<not> reconciled then api_pure (unreconciled x r)
     else (case us_state r of
         Committed \<Rightarrow> api_pure (status_response x r True)
       | Committing \<Rightarrow> api_bind (reconcile x c r) (\<lambda>(r1, _). api_pure (status_response x r1 True))
       | Pending \<Rightarrow> commit_ready x c i r
       | Active \<Rightarrow> commit_ready x c i r
       | _ \<Rightarrow> api_pure (closing (api_conflict
           (case us_failure_code r of Some code \<Rightarrow> code | None \<Rightarrow> ''upload_not_active'')
           ''the upload ended without a committed file''))))))"

definition abort_leased :: "api_env \<Rightarrow> caller \<Rightarrow> string \<Rightarrow> api_response api" where
  "abort_leased x c i w =
     (case send_command x (ca_workspace_id c) (ca_server_id c) (CmdAbort i) w of (cleanup, w1) \<Rightarrow>
        let ok = (case cleanup of Inr _ \<Rightarrow> True | Inl _ \<Rightarrow> False);
            code = (if ok then ''client_abort'' else ''controller_unavailable'') in
        api_bind (execute x (\<lambda>now. set_terminal (ae_rows x) now i Aborted code)) (\<lambda>_.
        api_bind (api_audit c ''machine.file.upload_aborted'' (reason_payload i code)) (\<lambda>_.
        api_bind (own_row x c i) (\<lambda>r.
        api_pure (json_response 200 (json_set ''cleanup_pending'' (JBool (\<not> ok)) (status_json (ae_rows x) r ok)))))) w1)"

definition upload_in_flight :: api_failure where
  "upload_in_flight = api_conflict ''upload_busy'' ''a part of this upload is in flight''"

definition abort_machine_upload ::
  "api_env \<Rightarrow> auth_checks \<Rightarrow> string \<Rightarrow> string \<Rightarrow> string \<Rightarrow> api_response api" where
  "abort_machine_upload x a workspace server i =
     api_bind (api_lift (authorize_caller a workspace server)) (\<lambda>c.
     api_bind (own_row x c i) (\<lambda>r w.
       (if us_state r = Committing then
          (Inr (closing (api_conflict ''upload_committing'' ''the upload is being committed and cannot be aborted'')), w)
        else if us_state r \<in> {Active, Pending} \<and> lease_held r (ue_stamp (ae_rows x) (aw_now w)) then
          (Inr (closing upload_in_flight), w)
        else if us_state r = Committed then
          (Inr (closing (api_conflict ''upload_committed'' ''the upload is already published and cannot be aborted'')), w)
        else if us_state r \<in> {Active, Pending} then
          api_bind (statement x (\<lambda>now t. Inr (acquire_lease (ae_rows x) now i t))) (\<lambda>leased.
          if leased = None then api_pure (closing upload_in_flight) else abort_leased x c i) w
        else (Inr (status_response x r True), w))))"

section \<open>Expiry\<close>

definition expiry_caller :: "upload_row \<Rightarrow> caller" where
  "expiry_caller r = \<lparr>ca_workspace_id = us_workspace_id r, ca_server_id = us_server_id r,
     ca_subject_kind = (if us_subject_kind r \<in> {''user'', ''agent'', ''machine''} then us_subject_kind r else ''human''),
     ca_subject_id = us_subject_id r\<rparr>"

definition lifetime_over :: "api_env \<Rightarrow> upload_row \<Rightarrow> api_world \<Rightarrow> bool" where
  "lifetime_over x r w = is_some_and (ue_parse (ae_rows x) (us_created_at r))
     (\<lambda>created. seconds (int MACHINE_UPLOAD_MAX_LIFETIME_SECONDS) \<le> aw_now w - created)"

definition end_row :: "api_env \<Rightarrow> caller \<Rightarrow> upload_row \<Rightarrow> upload_state \<Rightarrow> string \<Rightarrow> api_world \<Rightarrow> api_world" where
  "end_row x c r state reason w =
     audit c ''machine.file.upload_aborted'' (reason_payload (us_upload_id r) reason)
       (snd (execute x (\<lambda>now. set_terminal (ae_rows x) now (us_upload_id r) state reason) w))"

definition send_abort :: "api_env \<Rightarrow> upload_row \<Rightarrow> api_world \<Rightarrow> api_world" where
  "send_abort x r w = snd (send_command x (us_workspace_id r) (us_server_id r) (CmdAbort (us_upload_id r)) w)"

definition expire_one :: "api_env \<Rightarrow> upload_row \<Rightarrow> api_world \<Rightarrow> api_world" where
  "expire_one x r w = (case us_state r of
      Committing \<Rightarrow> (case reconcile x (expiry_caller r) r w of
          (Inl _, w1) \<Rightarrow> w1
        | (Inr (r1, _), w1) \<Rightarrow>
            if us_state r1 = Committing \<and> lifetime_over x r w then end_row x (expiry_caller r) r1 Failed ''outcome_unknown'' w1 else w1)
    | Pending \<Rightarrow> snd (execute x (\<lambda>now. store_delete (us_upload_id r)) (send_abort x r w))
    | _ \<Rightarrow> end_row x (expiry_caller r) r Expired (if lifetime_over x r w then ''lifetime_expired'' else ''idle_expired'') (send_abort x r w))"

definition expire_machine_uploads :: "api_env \<Rightarrow> api_world \<Rightarrow> api_world" where
  "expire_machine_uploads x w =
     (case statement x (\<lambda>now t. Inr (expiry_candidates (ae_rows x) now (int MACHINE_UPLOAD_IDLE_SECONDS)
         (int MACHINE_UPLOAD_MAX_LIFETIME_SECONDS) t, t)) w of
        (Inl _, w1) \<Rightarrow> w1
      | (Inr rows, w1) \<Rightarrow>
          snd (statement x (\<lambda>now t. Inr (purge_terminal (ae_rows x) now t)) (fold (expire_one x) rows w1)))"

end
