(* ===== verification/Upload_Staging.thy ===== *)
theory Upload_Staging
  imports Upload_Controller
begin

text \<open>
  What the machine side of uploads guarantees: paths stay below the machine root, a published file
  is exactly the bytes whose parts were verified, receipts tell the truth across restarts, and a
  case in which the recovery after a restart fails for good.
\<close>

section \<open>Paths\<close>

lemma relative_path_safe:
  assumes "relative_path directory file_name = Inr path"
  shows "\<forall>c \<in> set (split_on CHR ''/'' path). c \<noteq> [] \<and> c \<noteq> ''.'' \<and> c \<noteq> ''..''"
  using assms
  by (auto simp: relative_path_def Let_def res_simps map_err_def validate_relative_path_def bad_component_def
      list_ex_iff split: if_splits sum.splits option.splits)

section \<open>Staged content\<close>

fun covers :: "upload_lib \<Rightarrow> nat \<Rightarrow> part_record list \<Rightarrow> string \<Rightarrow> bool" where
  "covers l at [] content = (content = [])"
| "covers l at (p # ps) content = (pr_offset p = at \<and> pr_length p \<le> length content
     \<and> pr_sha256 p = lb_sha256_hex l (take (pr_length p) content)
     \<and> covers l (at + pr_length p) ps (drop (pr_length p) content))"

lemma covers_append:
  "covers l at ps c \<Longrightarrow> covers l at (ps @ [\<lparr>pr_offset = at + length c, pr_length = length d, pr_sha256 = lb_sha256_hex l d\<rparr>]) (c @ d)"
proof (induction ps arbitrary: at c)
  case (Cons p ps)
  then have "covers l (at + pr_length p) (ps @ [\<lparr>pr_offset = (at + pr_length p) + length (drop (pr_length p) c),
      pr_length = length d, pr_sha256 = lb_sha256_hex l d\<rparr>]) (drop (pr_length p) c @ d)" by fastforce
  with Cons.prems show ?case by simp
qed simp

text \<open>
  The bytes on disk are those the hashers have seen whenever the file has the expected length; a
  file that is longer has a failed write that could not be truncated, and no part can be closed on it.
\<close>

definition chunked_ok :: "upload_lib \<Rightarrow> nat \<Rightarrow> upload \<Rightarrow> bool" where
  "chunked_ok l n u \<longleftrightarrow> n \<le> MACHINE_UPLOAD_MAX_BYTES \<and> up_committed u \<le> up_written u \<and> up_written u \<le> n
     \<and> sg_pos (up_staged u) = length (sg_bytes (up_staged u)) \<and> up_written u \<le> length (sg_bytes (up_staged u))
     \<and> length (up_committed_hash u) = up_committed u
     \<and> take (up_committed u) (sg_bytes (up_staged u)) = up_committed_hash u
     \<and> up_file_hash u = up_committed_hash u @ up_part_hash u \<and> length (up_file_hash u) = up_written u
     \<and> (length (sg_bytes (up_staged u)) = up_written u \<longrightarrow> sg_bytes (up_staged u) = up_file_hash u)
     \<and> (up_committed u = n \<longrightarrow> length (sg_bytes (up_staged u)) = n)
     \<and> covers l 0 (up_parts u) (up_committed_hash u)"

definition legacy_ok :: "upload \<Rightarrow> bool" where
  "legacy_ok u \<longleftrightarrow> sg_pos (up_staged u) = length (sg_bytes (up_staged u))
     \<and> sg_bytes (up_staged u) = up_file_hash u \<and> length (up_file_hash u) = up_written u
     \<and> up_written u \<le> MACHINE_UPLOAD_MAX_BYTES"

definition upload_ok :: "upload_lib \<Rightarrow> upload \<Rightarrow> bool" where
  "upload_ok l u \<longleftrightarrow> (case up_declared u of Some n \<Rightarrow> chunked_ok l n u | None \<Rightarrow> legacy_ok u)"

lemma chunked_okD:
  assumes "chunked_ok l n u"
  shows "n \<le> MACHINE_UPLOAD_MAX_BYTES" "up_committed u \<le> up_written u" "up_written u \<le> n"
    "sg_pos (up_staged u) = length (sg_bytes (up_staged u))" "up_written u \<le> length (sg_bytes (up_staged u))"
    "length (up_committed_hash u) = up_committed u"
    "take (up_committed u) (sg_bytes (up_staged u)) = up_committed_hash u"
    "up_file_hash u = up_committed_hash u @ up_part_hash u" "length (up_file_hash u) = up_written u"
    "length (sg_bytes (up_staged u)) = up_written u \<Longrightarrow> sg_bytes (up_staged u) = up_file_hash u"
    "up_committed u = n \<Longrightarrow> length (sg_bytes (up_staged u)) = n"
    "covers l 0 (up_parts u) (up_committed_hash u)"
  using assms unfolding chunked_ok_def by blast+

lemma write_at_end: "sg_pos f = length (sg_bytes f) \<Longrightarrow>
    write_bytes c f = \<lparr>sg_bytes = sg_bytes f @ c, sg_pos = length (sg_bytes f) + length c\<rparr>"
  by (simp add: write_bytes_def Let_def)

lemma sat_add_small: "sat_add a b \<le> MACHINE_UPLOAD_MAX_BYTES \<Longrightarrow> sat_add a b = a + b"
  by (auto simp: sat_add_def MACHINE_UPLOAD_MAX_BYTES_def min_def split: if_splits)

lemma new_upload_ok: "is_none_or n (\<lambda>n. n \<le> MACHINE_UPLOAD_MAX_BYTES) \<Longrightarrow> upload_ok l (new_upload path ov n now)"
  by (cases n) (auto simp: upload_ok_def new_upload_def chunked_ok_def legacy_ok_def is_none_or_def)

lemma rewind_ok:
  assumes "upload_ok l u" "up_declared u = Some n"
  shows "upload_ok l (snd (rewind truncated None u)) \<and> up_declared (snd (rewind truncated None u)) = Some n"
  using assms by (cases truncated) (auto simp: rewind_def upload_ok_def chunked_ok_def Let_def set_len_def min_def)

lemma chunk_position_ok:
  assumes "upload_ok l u" "oi_seek io = None" "chunk_position io offset u = (r, u')"
  shows "upload_ok l u' \<and> up_declared u' = up_declared u"
proof (cases "up_declared u")
  case None
  then show ?thesis using assms by (auto simp: chunk_position_def split: option.splits if_splits)
next
  case (Some n)
  then show ?thesis
    using assms rewind_ok [OF assms(1) Some, of "oi_set_len io"]
    by (auto simp: chunk_position_def split: option.splits if_splits)
qed

text \<open>A rewind repairs a file that is longer than expected, or leaves it too long.\<close>

lemma partial_write_rewind:
  assumes "upload_ok l u" "up_declared u = Some n" "up_written u + length c \<le> n"
  shows "upload_ok l (snd (rewind truncated None (u\<lparr>up_staged := write_bytes (take k c) (up_staged u)\<rparr>)))"
proof (cases truncated)
  case None
  then show ?thesis using assms
    by (auto simp: rewind_def upload_ok_def chunked_ok_def Let_def set_len_def write_at_end min_def)
next
  case (Some e)
  show ?thesis
  proof (cases "take k c = []")
    case True
    have "sg_pos (up_staged u) = length (sg_bytes (up_staged u))" using assms by (simp add: upload_ok_def chunked_ok_def)
    then have "write_bytes [] (up_staged u) = up_staged u" by (simp add: write_at_end)
    then show ?thesis using assms Some by (simp add: True rewind_def del: take_eq_Nil)
  next
    case False
    then have "0 < length (take k c)" by blast
    then have c: "0 < length c" "0 < min (length c) k" by auto
    have "chunked_ok l n u" using assms(1,2) by (simp add: upload_ok_def)
    note f = chunked_okD [OF this]
    have "take (up_committed u) (sg_bytes (up_staged u) @ take k c) = up_committed_hash u" using f(2,5,7) by simp
    moreover have "up_committed u \<noteq> n" using assms(3) f(2) c by linarith
    moreover have "length (sg_bytes (up_staged u)) + min (length c) k \<noteq> up_written u" using f(5) c by linarith
    ultimately show ?thesis using assms(2) Some f(1-6,9,12)
      by (simp add: rewind_def upload_ok_def chunked_ok_def write_at_end f(4)) (simp add: f(8))
  qed
qed

lemma write_ok:
  assumes "upload_ok l u" "up_declared u = Some n" "up_written u + length c \<le> n"
  shows "upload_ok l (u\<lparr>up_staged := write_bytes c (up_staged u), up_part_hash := up_part_hash u @ c,
    up_file_hash := up_file_hash u @ c, up_written := up_written u + length c, up_touched := now\<rparr>)"
proof -
  have "chunked_ok l n u" using assms(1,2) by (simp add: upload_ok_def)
  note f = chunked_okD [OF this]
  have "take (up_committed u) (sg_bytes (up_staged u) @ c) = up_committed_hash u" using f(2,5,7) by simp
  moreover have "length c = 0" if "up_committed u = n" using assms(3) f(2) that by linarith
  ultimately show ?thesis
    using assms(2,3) f(1,2,4-6,9-12) by (simp add: upload_ok_def chunked_ok_def write_at_end f(4)) (simp add: f(8))
qed

lemma legacy_write_ok:
  assumes "upload_ok l u" "up_declared u = None" "up_written u + length c \<le> MACHINE_UPLOAD_MAX_BYTES"
  shows "upload_ok l (u\<lparr>up_staged := write_bytes c (up_staged u), up_part_hash := up_part_hash u @ c,
    up_file_hash := up_file_hash u @ c, up_written := up_written u + length c, up_touched := now\<rparr>)"
  using assms by (auto simp: upload_ok_def legacy_ok_def write_at_end)

lemma part_close_ok:
  assumes ok: "upload_ok l u" and seek: "oi_seek io = None" and close: "part_close l io offset len sha u = (r, u')"
  shows "upload_ok l u'"
proof (cases "up_declared u")
  case None
  then show ?thesis using ok close by (simp add: part_close_def)
next
  case (Some n)
  have c: "chunked_ok l n u" using ok Some by (simp add: upload_ok_def)
  note rw = rewind_ok [OF ok Some, of "oi_set_len io"]
  have u': "u' = snd (part_close l io offset len sha u)" using close by simp
  show ?thesis
  proof (cases "sat_add offset len \<le> up_committed u \<or> offset \<noteq> up_committed u
      \<or> sat_add offset len \<noteq> up_written u \<or> oi_metadata io \<noteq> None")
    case True
    then have "u' = u" using Some by (auto simp: u' part_close_def io_check_def)
    then show ?thesis using ok by simp
  next
    case at: False
    show ?thesis
    proof (cases "length (sg_bytes (up_staged u)) \<noteq> up_written u \<or> lb_sha256_hex l (up_part_hash u) \<noteq> sha")
      case True
      then have "u' = snd (rewind (oi_set_len io) (oi_seek io) u)"
        using at Some by (auto simp: u' part_close_def io_check_def split: prod.splits sum.splits)
      then show ?thesis using rw seek by simp
    next
      case False
      then have final: "u' = u\<lparr>up_committed := up_written u, up_committed_hash := up_file_hash u, up_part_hash := [],
         up_parts := up_parts u @ [\<lparr>pr_offset = offset, pr_length = len, pr_sha256 = sha\<rparr>], up_touched := oi_now io\<rparr>"
        using at Some by (auto simp: u' part_close_def io_check_def)
      have "up_committed u + len = up_written u"
        using sat_add_small [of offset len] at chunked_okD(1,3) [OF c] by (metis order_trans)
      then have len: "len = length (up_part_hash u)" using chunked_okD(6,8,9) [OF c] by simp
      have "covers l 0 (up_parts u @ [\<lparr>pr_offset = 0 + length (up_committed_hash u), pr_length = length (up_part_hash u),
          pr_sha256 = lb_sha256_hex l (up_part_hash u)\<rparr>]) (up_committed_hash u @ up_part_hash u)"
        using chunked_okD(12) [OF c] by (rule covers_append)
      then have cov: "covers l 0 (up_parts u @ [\<lparr>pr_offset = offset, pr_length = len, pr_sha256 = sha\<rparr>]) (up_file_hash u)"
        using chunked_okD(6,8) [OF c] at False len by simp
      have bytes: "sg_bytes (up_staged u) = up_file_hash u" using chunked_okD(10) [OF c] False by simp
      show ?thesis
        using chunked_okD(1,3,4,9) [OF c] False Some cov by (simp add: final upload_ok_def chunked_ok_def bytes)
    qed
  qed
qed

definition publishable :: "upload \<Rightarrow> bool" where
  "publishable u \<longleftrightarrow> is_none_or (up_declared u) (\<lambda>n. up_committed u = n \<and> up_written u = n)"

lemma publishable_content:
  assumes "upload_ok l u" "publishable u"
  shows "length (sg_bytes (up_staged u)) = up_written u"
    "sg_bytes (up_staged u) = (if up_declared u \<noteq> None then up_committed_hash u else up_file_hash u)"
    "up_declared u = Some n \<Longrightarrow> length (sg_bytes (up_staged u)) = n \<and> covers l 0 (up_parts u) (sg_bytes (up_staged u))"
  using assms by (auto simp: upload_ok_def publishable_def is_none_or_def chunked_ok_def legacy_ok_def split: option.splits)

section \<open>The registry as a transition system\<close>

text \<open>Seeking in a regular file does not fail; everything else may fail at any time.\<close>

definition io_ok :: "upload_io \<Rightarrow> bool" where
  "io_ok io \<longleftrightarrow> oi_seek io = None \<and> oi_discard_seek io = None"

inductive upload_step :: "upload_lib \<Rightarrow> uploads \<Rightarrow> uploads \<Rightarrow> bool" for l where
  step_begin: "io_ok io \<Longrightarrow> upload_begin l io i d f ov n s = (r, s') \<Longrightarrow> upload_step l s s'"
| step_chunk: "io_ok io \<Longrightarrow> upload_chunk l io i offset c s = (r, s') \<Longrightarrow> upload_step l s s'"
| step_part: "io_ok io \<Longrightarrow> part_commit l io i at len sha s = (r, s') \<Longrightarrow> upload_step l s s'"
| step_take: "io_ok io \<Longrightarrow> commit_take l io i s = (r, s') \<Longrightarrow> upload_step l s s'"
| step_finish: "io_ok io \<Longrightarrow> (i, u) \<in> set (ul_publishing s) \<Longrightarrow> commit_finish l io i u s = (r, s')
    \<Longrightarrow> upload_step l s s'"
| step_result: "io_ok io \<Longrightarrow> upload_result l io i s = (r, s') \<Longrightarrow> upload_step l s s'"
| step_abort: "io_ok io \<Longrightarrow> upload_abort io i s = (r, s') \<Longrightarrow> upload_step l s s'"
| step_reap: "io_ok io \<Longrightarrow> upload_reap io s = (n, s') \<Longrightarrow> upload_step l s s'"
| step_restart: "upload_step l s (upload_restart s)"

definition uploads_init :: "uploads \<Rightarrow> bool" where
  "uploads_init s \<longleftrightarrow> (\<exists>server_id. s = uploads_new server_id)"

definition receipt_true :: "upload_lib \<Rightarrow> (string \<times> string \<times> string) list \<Rightarrow> stored_result \<Rightarrow> bool" where
  "receipt_true l published r \<longleftrightarrow> st_outcome r = OutcomeCommitted \<longrightarrow>
     (\<exists>content. (st_upload_id r, st_path r, content) \<in> set published
       \<and> st_bytes_written r = length content \<and> st_sha256 r = lb_sha256_hex l content)"

definition uploads_ok :: "upload_lib \<Rightarrow> uploads \<Rightarrow> bool" where
  "uploads_ok l s \<longleftrightarrow> distinct (map fst (ul_entries s)) \<and> length (ul_entries s) \<le> MACHINE_UPLOAD_MAX_ACTIVE
     \<and> (\<forall>(i, u) \<in> set (ul_entries s). upload_ok l u)
     \<and> (\<forall>(i, u) \<in> set (ul_publishing s). upload_ok l u \<and> publishable u)
     \<and> (\<forall>r \<in> set (ul_results s) \<union> set (ul_journal_results s). receipt_true l (ul_published s) r)
     \<and> length (ul_results s) \<le> MAX_STORED_RESULTS \<and> length (ul_journal_results s) \<le> MAX_STORED_RESULTS"

lemma recover_keeps:
  "recover l io s = (r, s') \<Longrightarrow> ul_entries s' = ul_entries s \<and> ul_publishing s' = ul_publishing s
     \<and> ul_published s' = ul_published s \<and> ul_journal_results s' = ul_journal_results s
     \<and> (ul_results s' = ul_results s \<or> ul_results s' = filter (result_retained (oi_epoch io)) (ul_journal_results s))
     \<and> ul_server_id s' = ul_server_id s"
  by (auto simp: recover_def Let_def split: if_splits sum.splits option.splits)

lemma recover_ok: "uploads_ok l s \<Longrightarrow> recover l io s = (r, s') \<Longrightarrow> uploads_ok l s'"
  using recover_keeps [of l io s r s'] by (auto simp: uploads_ok_def intro: order_trans [OF length_filter_le])

lemma persist_ok: "uploads_ok l s \<Longrightarrow> uploads_ok l (persist_intents io s)"
  by (auto simp: persist_intents_def uploads_ok_def split: option.splits)

lemma update_mem: "(a, b) \<in> set (AList.update k v xs) \<Longrightarrow> (a = k \<and> b = v) \<or> (a, b) \<in> set xs"
  by (induction xs) (auto split: if_splits)

lemma set_upload_ok:
  assumes "uploads_ok l s" "map_of (ul_entries s) i = Some u" "upload_ok l u'"
  shows "uploads_ok l (set_upload i u' s)"
proof -
  have d: "distinct (map fst (ul_entries s))" using assms(1) by (simp add: uploads_ok_def)
  have k: "i \<in> fst ` set (ul_entries s)" using assms(2) by (metis domI dom_map_of_conv_image_fst)
  then have "map fst (AList.update i u' (ul_entries s)) = map fst (ul_entries s)" by (simp add: AList.update_keys)
  moreover from this have "length (AList.update i u' (ul_entries s)) = length (ul_entries s)" by (metis length_map)
  moreover have "(\<forall>(j, v) \<in> set (AList.update i u' (ul_entries s)). upload_ok l v)"
    using assms(1,3) by (auto simp: uploads_ok_def dest!: update_mem)
  ultimately show ?thesis using assms(1) by (simp add: uploads_ok_def set_upload_def)
qed

lemma drop_upload_ok: "uploads_ok l s \<Longrightarrow> uploads_ok l (drop_upload i s)"
  by (auto simp: uploads_ok_def drop_upload_def AList.delete_eq distinct_map_filter intro: order_trans [OF length_filter_le])

lemma entry_ok: "uploads_ok l s \<Longrightarrow> map_of (ul_entries s) i = Some u \<Longrightarrow> upload_ok l u"
  by (auto simp: uploads_ok_def dest!: map_of_SomeD)

lemma begin_ok:
  assumes ok: "uploads_ok l s" and run: "upload_begin l io i d f ov n s = (r, s')"
  shows "uploads_ok l s'"
proof (cases "begin_target i d f n")
  case (Inl e)
  then show ?thesis using assms by (simp add: upload_begin_def)
next
  case (Inr path)
  then have n: "is_none_or n (\<lambda>n. n \<le> MACHINE_UPLOAD_MAX_BYTES)"
    by (cases n) (auto simp: begin_target_def res_simps is_none_or_def is_some_and_def split: if_splits)
  obtain q s1 where rec: "recover l io s = (q, s1)" by fastforce
  note ok1 = recover_ok [OF ok rec]
  show ?thesis
  proof (cases "and_then q (\<lambda>_. begin_checks io i n s1)")
    case (Inl e)
    then show ?thesis using run Inr rec ok1 by (simp add: upload_begin_def)
  next
    case chk: (Inr u)
    then have free: "i \<notin> fst ` set (ul_entries s1)" "length (ul_entries s1) < MACHINE_UPLOAD_MAX_ACTIVE"
      by (auto simp: begin_checks_def res_simps map_of_eq_None_iff split: if_splits)
    let ?s2 = "s1\<lparr>ul_journal_intents := map IntentRecord (intents_of s1 @ [\<lparr>in_path = path, in_id = i, in_failed_sweeps = 0\<rparr>])\<rparr>"
    have ok2: "uploads_ok l ?s2" using ok1 by (simp add: uploads_ok_def)
    have ok3: "uploads_ok l (?s2\<lparr>ul_entries := ul_entries ?s2 @ [(i, new_upload path ov n (oi_now io))]\<rparr>)"
      using ok1 free new_upload_ok [OF n] by (auto simp: uploads_ok_def)
    show ?thesis
    proof (cases "oi_write_intents io")
      case (Some e)
      then show ?thesis using run Inr rec chk ok1 by (simp add: upload_begin_def)
    next
      case None
      then have "s' = (case oi_stage io of Some k \<Rightarrow> persist_intents io ?s2
          | None \<Rightarrow> ?s2\<lparr>ul_entries := ul_entries ?s2 @ [(i, new_upload path ov n (oi_now io))]\<rparr>)"
        using run Inr rec chk by (simp add: upload_begin_def Let_def split: option.splits)
      then show ?thesis using persist_ok [OF ok2] ok3 by (cases "oi_stage io") (simp_all only: option.case)
    qed
  qed
qed

lemma chunk_discard_ok:
  assumes ok: "uploads_ok l s" and e: "map_of (ul_entries s) i = Some v" and io: "io_ok io"
    and u: "\<And>n. up_declared u = Some n \<Longrightarrow> upload_ok l (snd (rewind (oi_discard_set_len io) None u))"
  shows "uploads_ok l (chunk_discard io i u s)"
proof (cases "up_declared u")
  case None
  then show ?thesis using persist_ok [OF drop_upload_ok [OF ok]] by (simp add: chunk_discard_def)
next
  case (Some n)
  then show ?thesis using set_upload_ok [OF ok e] u io by (simp add: chunk_discard_def io_ok_def)
qed

lemma chunk_write_ok:
  assumes ok: "uploads_ok l s" and e: "map_of (ul_entries s) i = Some v" and io: "io_ok io" and u: "upload_ok l u"
    and run: "chunk_write io i c u s = (r, s')"
  shows "uploads_ok l s'"
proof -
  let ?cap = "case up_declared u of Some n \<Rightarrow> n | None \<Rightarrow> MACHINE_UPLOAD_MAX_BYTES"
  have cap: "?cap \<le> MACHINE_UPLOAD_MAX_BYTES"
    using u by (auto simp: upload_ok_def chunked_ok_def split: option.splits)
  show ?thesis
  proof (cases "?cap < sat_add (up_written u) (length c)")
    case True
    have "uploads_ok l (chunk_discard io i u s)"
      using rewind_ok [OF u] by (intro chunk_discard_ok [OF ok e io]) blast
    then show ?thesis using run True by (simp add: chunk_write_def Let_def)
  next
    case False
    then have total: "sat_add (up_written u) (length c) = up_written u + length c" using cap by (intro sat_add_small) simp
    with False have fits: "up_written u + length c \<le> ?cap" by simp
    show ?thesis
    proof (cases "oi_write io")
      case None
      have "upload_ok l (u\<lparr>up_staged := write_bytes c (up_staged u), up_part_hash := up_part_hash u @ c,
          up_file_hash := up_file_hash u @ c, up_written := up_written u + length c, up_touched := oi_now io\<rparr>)"
        using fits by (cases "up_declared u") (simp_all add: write_ok [OF u] legacy_write_ok [OF u])
      from set_upload_ok [OF ok e this] show ?thesis using run False None total by (simp add: chunk_write_def Let_def)
    next
      case (Some w)
      then obtain k err where w: "oi_write io = Some (k, err)" by (cases w) simp
      have "uploads_ok l (chunk_discard io i (u\<lparr>up_staged := write_bytes (take k c) (up_staged u)\<rparr>) s)"
        using fits by (intro chunk_discard_ok [OF ok e io]) (auto intro: partial_write_rewind [OF u])
      then show ?thesis using run False w by (simp add: chunk_write_def Let_def)
    qed
  qed
qed

lemma chunk_ok:
  assumes ok: "uploads_ok l s" and io: "io_ok io" and run: "upload_chunk l io i offset c s = (r, s')"
  shows "uploads_ok l s'"
proof (cases "map_of (ul_entries s) i")
  case None
  then show ?thesis using ok run by (auto simp: upload_chunk_def split: option.splits if_splits)
next
  case (Some u)
  obtain q u1 where pos: "chunk_position io offset u = (q, u1)" by fastforce
  have u1: "upload_ok l u1" using chunk_position_ok [OF entry_ok [OF ok Some] _ pos] io by (simp add: io_ok_def)
  show ?thesis
    using run Some pos ok set_upload_ok [OF ok Some u1] chunk_write_ok [OF ok Some io u1]
    by (auto simp: upload_chunk_def split: option.splits if_splits sum.splits)
qed

lemma part_ok:
  assumes ok: "uploads_ok l s" and io: "io_ok io" and run: "part_commit l io i at len sha s = (r, s')"
  shows "uploads_ok l s'"
proof (cases "map_of (ul_entries s) i")
  case None
  then show ?thesis using ok run by (auto simp: part_commit_def Let_def split: if_splits)
next
  case (Some u)
  obtain q u1 where close: "part_close l io at len (map to_ascii_lower sha) u = (q, u1)" by fastforce
  have "upload_ok l u1" using part_close_ok [OF entry_ok [OF ok Some] _ close] io by (simp add: io_ok_def)
  then show ?thesis
    using run Some close ok set_upload_ok [OF ok Some] by (auto simp: part_commit_def Let_def split: if_splits)
qed

lemma remove_victim_subset: "set (remove_victim rs) \<subseteq> set rs"
  unfolding remove_victim_def
  by (auto dest: set_takeWhileD set_dropWhileD list.set_sel(2) [rotated] split: if_splits)
    (metis list.sel(2) list.set_sel(2) set_dropWhileD)+

lemma trim_results_ok: "set (trim_results rs) \<subseteq> set rs \<and> length (trim_results rs) \<le> MAX_STORED_RESULTS"
proof (induction rs rule: trim_results.induct)
  case (1 rs)
  then show ?case using remove_victim_subset [of rs] by (simp add: trim_results.simps [of rs]) blast
qed

lemma receipt_true_mono: "receipt_true l ps r \<Longrightarrow> receipt_true l (ps @ qs) r"
  by (auto simp: receipt_true_def)

lemma store_result_ok:
  assumes ok: "uploads_ok l s" and r: "receipt_true l (ul_published s) r"
  shows "uploads_ok l (store_result io r s)"
proof -
  have "set (trim_results (filter (result_retained (oi_epoch io)) (ul_results s) @ [r])) \<subseteq> insert r (set (ul_results s))"
    using trim_results_ok by fastforce
  then show ?thesis
    using ok r trim_results_ok
    by (auto simp: uploads_ok_def store_result_def Let_def split: option.splits)
qed

lemma keep_receipt_ok:
  "uploads_ok l s \<Longrightarrow> receipt_true l (ul_published s) r \<Longrightarrow> uploads_ok l (keep_receipt io u r s)"
  by (simp add: keep_receipt_def store_result_ok)

lemma commit_take_ok:
  assumes ok: "uploads_ok l s" and run: "commit_take l io i s = (r, s')"
  shows "uploads_ok l s'"
proof -
  obtain q s1 where rec: "recover l io s = (q, s1)" by fastforce
  note ok1 = recover_ok [OF ok rec]
  have "uploads_ok l ((drop_upload i s1)\<lparr>ul_publishing := ul_publishing s1 @ [(i, u)]\<rparr>)"
    if "map_of (ul_entries s1) i = Some u"
      "\<not> is_some_and (up_declared u) (\<lambda>n. up_committed u \<noteq> n \<or> up_written u \<noteq> n)" for u
    using drop_upload_ok [OF ok1, of i] entry_ok [OF ok1 that(1)] that(2)
    by (auto simp: uploads_ok_def drop_upload_def publishable_def is_some_and_def is_none_or_def split: option.splits)
  then show ?thesis
    using run rec ok1 by (auto simp: commit_take_def split: sum.splits option.splits if_splits)
qed

lemma commit_code: "pe_code (io_failure e) = ''machine_upload_commit_uncertain'' \<longleftrightarrow> e = Uncertain"
  by (cases e rule: io_failure.cases) (simp_all add: protocol_error_new_def)

lemma publish_outcome_cases:
  "publish_outcome io = Inr () \<longleftrightarrow> reaches_disk io \<and> oi_publish io = None"
  "publish_outcome io = Inl e \<Longrightarrow> pe_code e = ''machine_upload_commit_uncertain'' \<longleftrightarrow> reaches_disk io"
  by (auto simp: publish_outcome_def reaches_disk_def io_check_def commit_code protocol_error_new_def
      split: option.splits)

lemma persist_fields [simp]:
  "ul_published (persist_intents io s) = ul_published s" "ul_publishing (persist_intents io s) = ul_publishing s"
  "ul_server_id (persist_intents io s) = ul_server_id s" "ul_results (persist_intents io s) = ul_results s"
  "ul_entries (persist_intents io s) = ul_entries s"
  by (simp_all add: persist_intents_def split: option.splits)

lemma store_fields [simp]:
  "ul_published (store_result io r s) = ul_published s" "ul_published (keep_receipt io u r s) = ul_published s"
  by (simp_all add: keep_receipt_def store_result_def Let_def split: option.splits)

lemma receipt_of_true:
  assumes "upload_ok l u" "publishable u" "(i, up_path u, sg_bytes (up_staged u)) \<in> set ps"
  shows "receipt_true l ps (receipt_of l io i u None cleanup)"
  using assms(3) publishable_content(1,2) [OF assms(1,2)]
  by (auto simp: receipt_true_def receipt_of_def intro!: exI [of _ "sg_bytes (up_staged u)"])

lemma finish_ok:
  assumes ok: "uploads_ok l s" and u: "(i, u) \<in> set (ul_publishing s)" and run: "commit_finish l io i u s = (r, s')"
  shows "uploads_ok l s'"
proof -
  let ?s1 = "s\<lparr>ul_publishing := remove1 (i, u) (ul_publishing s),
            ul_published := ul_published s
              @ (if reaches_disk io then [(i, up_path u, sg_bytes (up_staged u))] else [])\<rparr>"
  have up: "upload_ok l u" "publishable u" using ok u by (auto simp: uploads_ok_def)
  have "uploads_ok l ?s1"
    using ok by (auto simp: uploads_ok_def receipt_true_mono dest: notin_set_remove1)
  note ok2 = persist_ok [OF this, of io]
  have failed: "receipt_true l ps (receipt_of l io i u (Some c) b)" for ps c b by (simp add: receipt_true_def receipt_of_def)
  have good: "receipt_true l (ul_published (persist_intents io ?s1)) (receipt_of l io i u None b)" if "reaches_disk io" for b
    using receipt_of_true [OF up] that by simp
  show ?thesis
  proof (cases "publish_outcome io")
    case (Inl e)
    then show ?thesis
      using run keep_receipt_ok [OF ok2 failed] keep_receipt_ok [OF ok2 good] publish_outcome_cases(2) [OF Inl]
      by (auto simp: commit_finish_def Let_def split: if_splits)
  next
    case (Inr v)
    then have "reaches_disk io" using publish_outcome_cases(1) [of io] by simp
    then show ?thesis using run Inr keep_receipt_ok [OF ok2 good] by (auto simp: commit_finish_def Let_def)
  qed
qed

lemma result_ok: "uploads_ok l s \<Longrightarrow> upload_result l io i s = (r, s') \<Longrightarrow> uploads_ok l s'"
  using recover_ok [of l s io] by (auto simp: upload_result_def split: prod.splits sum.splits option.splits)

lemma abort_ok: "uploads_ok l s \<Longrightarrow> upload_abort io i s = (r, s') \<Longrightarrow> uploads_ok l s'"
  by (auto simp: upload_abort_def persist_ok drop_upload_ok split: if_splits)

lemma reap_ok:
  assumes "uploads_ok l s" "upload_reap io s = (n, s')"
  shows "uploads_ok l s'"
proof -
  have "uploads_ok l (s\<lparr>ul_entries := filter (\<lambda>(i, u). reap_keeps (oi_now io) u) (ul_entries s)\<rparr>)"
    using assms(1) by (auto simp: uploads_ok_def distinct_map_filter intro: order_trans [OF length_filter_le])
  with assms persist_ok [OF this] show ?thesis by (auto simp: upload_reap_def Let_def split: if_splits)
qed

lemma restart_ok: "uploads_ok l s \<Longrightarrow> uploads_ok l (upload_restart s)"
  by (simp add: upload_restart_def uploads_new_def uploads_ok_def)

interpretation staging: inv_system uploads_init "upload_step l" "uploads_ok l" for l
proof
  show "uploads_ok l s" if "uploads_init s" for s
    using that by (auto simp: uploads_init_def uploads_new_def uploads_ok_def)
  show "uploads_ok l t" if "uploads_ok l s" "upload_step l s t" for s t
    using that(2,1)
    by cases (auto intro: begin_ok chunk_ok part_ok commit_take_ok finish_ok result_ok abort_ok reap_ok restart_ok)
qed

section \<open>Published files\<close>

text \<open>
  C23: A published file is exactly what was verified.  In every reachable state of the Controller,
  including failed and partial writes, rewinds, reaping and restarts, when a commit reports success
  the destination holds a file whose length is the reported one and whose SHA-256 is the reported
  one; for a chunked upload it has the declared length and is the concatenation of the parts, each
  with the SHA-256 its part was closed with.  A commit that reports a failure publishes nothing.
\<close>

theorem published_is_verified:
  assumes "reach uploads_init (upload_step l) s" "(i, u) \<in> set (ul_publishing s)"
    and "commit_finish l io i u s = (r, s')"
  shows "case r of
      Inr response \<Rightarrow> \<exists>content. ul_published s' = ul_published s @ [(i, fr_path response, content)]
        \<and> fr_bytes_written response = length content \<and> fr_sha256 response = Some (lb_sha256_hex l content)
        \<and> (\<forall>n. up_declared u = Some n \<longrightarrow> length content = n \<and> covers l 0 (up_parts u) content)
    | Inl e \<Rightarrow> ul_published s' = ul_published s"
proof -
  have ok: "uploads_ok l s" using assms(1) by (rule staging.reach_inv)
  have up: "upload_ok l u" "publishable u" using ok assms(2) by (auto simp: uploads_ok_def)
  note c = publishable_content [OF up]
  show ?thesis
  proof (cases "publish_outcome io")
    case (Inl e)
    then show ?thesis
      using assms(3) publish_outcome_cases(2) [OF Inl] c
      by (auto simp: commit_finish_def Let_def response_of_def receipt_of_def split: if_splits)
  next
    case (Inr v)
    then have "reaches_disk io" using publish_outcome_cases(1) [of io] by simp
    then show ?thesis using assms(3) Inr c
      by (auto simp: commit_finish_def Let_def response_of_def receipt_of_def)
  qed
qed

text \<open>
  C24: Receipts tell the truth, also after restarts.  In every reachable state, every receipt of a
  committed upload, in memory or in the journal, names a file that was published by that upload,
  with its length and SHA-256; there are never more than 256 receipts and never more than eight
  staged uploads.
\<close>

theorem receipts_are_true:
  assumes "reach uploads_init (upload_step l) s"
  shows "(\<forall>r \<in> set (ul_results s) \<union> set (ul_journal_results s). st_outcome r = OutcomeCommitted \<longrightarrow>
      (\<exists>content. (st_upload_id r, st_path r, content) \<in> set (ul_published s)
        \<and> st_bytes_written r = length content \<and> st_sha256 r = lb_sha256_hex l content))
    \<and> length (ul_results s) \<le> MAX_STORED_RESULTS \<and> length (ul_entries s) \<le> MACHINE_UPLOAD_MAX_ACTIVE"
  using staging.reach_inv [OF assms] by (auto simp: uploads_ok_def receipt_true_def)

section \<open>A recovery that never succeeds\<close>

definition blocked :: "uploads \<Rightarrow> bool" where
  "blocked s \<longleftrightarrow> \<not> ul_recovered s \<and> ul_entries s = [] \<and> ul_publishing s = []
     \<and> MACHINE_UPLOAD_MAX_ACTIVE + 1 < length (ul_journal_intents s)"

lemma blocked_recover: "blocked s \<Longrightarrow> \<exists>e. recover l io s = (Inl e, s)"
  by (auto simp: blocked_def recover_def recover_intents_def io_check_def split: option.splits)

lemma blocked_begin: "blocked s \<Longrightarrow> \<exists>e. upload_begin l io i d f ov n s = (Inl e, s)"
  using blocked_recover [of s l io] by (auto simp: upload_begin_def split: sum.splits)

lemma blocked_step:
  assumes "blocked s" "upload_step l s t"
  shows "blocked t"
  using assms(2)
proof cases
  case (step_begin io i d f ov n r)
  then show ?thesis using assms(1) blocked_begin [OF assms(1), of l io i d f ov n] by auto
next
  case (step_chunk io i offset c r)
  then show ?thesis using assms(1) by (auto simp: upload_chunk_def blocked_def split: option.splits if_splits)
next
  case (step_part io i at len sha r)
  then show ?thesis using assms(1) by (auto simp: part_commit_def blocked_def Let_def split: if_splits)
next
  case (step_take io i r)
  then show ?thesis using assms(1) blocked_recover [OF assms(1), of l io] by (auto simp: commit_take_def)
next
  case (step_finish io i u r)
  then show ?thesis using assms(1) by (simp add: blocked_def)
next
  case (step_result io i r)
  then show ?thesis using assms(1) blocked_recover [OF assms(1), of l io] by (auto simp: upload_result_def)
next
  case (step_abort io i r)
  then show ?thesis using assms(1) by (simp add: upload_abort_def blocked_def)
next
  case (step_reap io n)
  then show ?thesis using assms(1) by (auto simp: upload_reap_def blocked_def split: if_splits)
next
  case step_restart
  then show ?thesis using assms(1) by (simp add: upload_restart_def uploads_new_def blocked_def)
qed

definition sample_lib :: upload_lib where
  "sample_lib = \<lparr>lb_b64_encode = id, lb_b64_decode = Some, lb_sha256_hex = id, lb_reserved_name = id\<rparr>"

text \<open>All calls succeed, except that a sweep of a staging name fails with \<open>sweep\<close>.\<close>

definition sample_io :: "io_kind option \<Rightarrow> upload_io" where
  "sample_io sweep = \<lparr>oi_root = None, oi_recover_root = None, oi_recover_journal = None, oi_read_intents = None,
     oi_read_results = None, oi_sweep = (\<lambda>_. sweep), oi_write_swept = None, oi_target = None,
     oi_available = Inr (2 ^ 40), oi_journal = None, oi_write_intents = None, oi_stage = None, oi_persist = None,
     oi_persist_results = None, oi_write = None, oi_set_len = None, oi_seek = None, oi_discard_set_len = None,
     oi_discard_seek = None, oi_metadata = None, oi_publish = None, oi_busy = False, oi_now = 0, oi_epoch = 0\<rparr>"

definition legacy_begin :: "upload_io \<Rightarrow> uploads \<Rightarrow> string \<Rightarrow> uploads" where
  "legacy_begin io s i = snd (upload_begin sample_lib io i [] ''f'' False None s)"

definition ask :: "upload_io \<Rightarrow> uploads \<Rightarrow> uploads" where
  "ask io s = snd (upload_result sample_lib io ''upl_none'' s)"

lemma sample_fields [simp]:
  "oi_root (sample_io k) = None" "oi_recover_root (sample_io k) = None" "oi_recover_journal (sample_io k) = None"
  "oi_read_intents (sample_io k) = None" "oi_read_results (sample_io k) = None" "oi_sweep (sample_io k) i = k"
  "oi_write_swept (sample_io k) = None" "oi_target (sample_io k) = None" "oi_journal (sample_io k) = None"
  "oi_write_intents (sample_io k) = None" "oi_stage (sample_io k) = None" "oi_now (sample_io k) = 0"
  by (simp_all add: sample_io_def)

lemma new_fields [simp]:
  "ul_entries (uploads_new m) = []" "ul_results (uploads_new m) = []" "ul_recovered (uploads_new m) = False"
  "ul_unswept (uploads_new m) = []" "ul_journal_intents (uploads_new m) = []" "ul_journal_results (uploads_new m) = []"
  "ul_publishing (uploads_new m) = []" "ul_published (uploads_new m) = []" "ul_server_id (uploads_new m) = m"
  by (simp_all add: uploads_new_def)

lemma sample_io_ok: "io_ok (sample_io k)"
  by (simp add: io_ok_def sample_io_def)

lemma begin_reach:
  assumes "reach uploads_init (upload_step sample_lib) s"
  shows "reach uploads_init (upload_step sample_lib) (legacy_begin (sample_io k) s i)"
  using assms unfolding legacy_begin_def
  by (rule reach_step) (rule step_begin [OF sample_io_ok prod.collapse [symmetric]])

lemma begins_reach:
  "reach uploads_init (upload_step sample_lib) s
   \<Longrightarrow> reach uploads_init (upload_step sample_lib) (foldl (legacy_begin (sample_io k)) s is)"
  by (induction "is" arbitrary: s) (simp_all add: begin_reach)

lemma ask_reach:
  assumes "reach uploads_init (upload_step sample_lib) s"
  shows "reach uploads_init (upload_step sample_lib) (ask (sample_io k) s)"
  using assms unfolding ask_def
  by (rule reach_step) (rule step_result [OF sample_io_ok prod.collapse [symmetric]])

lemma restart_reach:
  "reach uploads_init (upload_step sample_lib) s \<Longrightarrow> reach uploads_init (upload_step sample_lib) (upload_restart s)"
  by (erule reach_step) (rule step_restart)

lemma relative_path_sample: "relative_path [] ''f'' = Inr ''f''"
  by code_simp

lemma legacy_begin_eq:
  assumes "ul_recovered s" "i \<notin> fst ` set (ul_entries s)" "length (ul_entries s) < 8" "validate_upload_id i = Inr ()"
  shows "legacy_begin (sample_io k) s i = s\<lparr>
    ul_journal_intents := map IntentRecord (intents_of s @ [\<lparr>in_path = ''f'', in_id = i, in_failed_sweeps = 0\<rparr>]),
    ul_entries := ul_entries s @ [(i, new_upload ''f'' False None 0)]\<rparr>"
proof -
  have "map_of (ul_entries s) i = None" using assms(2) by (simp add: map_of_eq_None_iff)
  then show ?thesis using assms(1,3,4) relative_path_sample
    by (simp add: legacy_begin_def upload_begin_def begin_target_def recover_def begin_checks_def
        io_check_def check_space_def MACHINE_UPLOAD_MAX_ACTIVE_def is_some_and_def)
qed

lemma begins_journal:
  assumes "ul_recovered s" "distinct (map fst (ul_entries s) @ is)" "length (ul_entries s) + length is \<le> 8"
    "\<forall>i \<in> set is. validate_upload_id i = Inr ()" "is \<noteq> []"
  shows "length (ul_journal_intents (foldl (legacy_begin (sample_io k)) s is))
      = length (ul_unswept s) + length (ul_entries s) + length is"
  using assms
proof (induction "is" arbitrary: s)
  case (Cons i "is")
  let ?t = "legacy_begin (sample_io k) s i"
  have t: "?t = s\<lparr>ul_journal_intents := map IntentRecord (intents_of s @ [\<lparr>in_path = ''f'', in_id = i, in_failed_sweeps = 0\<rparr>]),
    ul_entries := ul_entries s @ [(i, new_upload ''f'' False None 0)]\<rparr>"
    using Cons.prems by (intro legacy_begin_eq) auto
  show ?case
  proof (cases "is = []")
    case True
    then show ?thesis by (simp add: t intents_of_def)
  next
    case False
    have "length (ul_journal_intents (foldl (legacy_begin (sample_io k)) ?t is))
        = length (ul_unswept ?t) + length (ul_entries ?t) + length is"
      using Cons.prems False by (intro Cons.IH) (auto simp: t)
    then show ?thesis by (simp add: t)
  qed
qed simp

definition one_running :: uploads where
  "one_running = foldl (legacy_begin (sample_io None)) (ask (sample_io None) (uploads_new ''m'')) [''upl_000a'', ''upl_000b'']"

definition unswept_two :: uploads where
  "unswept_two = ask (sample_io (Some PermissionDenied)) (upload_restart one_running)"

definition sample_restarted :: uploads where
  "sample_restarted = upload_restart (foldl (legacy_begin (sample_io None)) unswept_two (map (\<lambda>c. ''upl_000'' @ [c]) ''cdefghij''))"

lemma ids_ok: "validate_upload_id (''upl_000'' @ [c]) = Inr ()" if "c \<in> set ''abcdefghij''" for c
  using that by (auto simp: validate_upload_id_def is_ascii_alphanumeric_def)

lemma fresh_recovered: "ask (sample_io None) (uploads_new ''m'') = (uploads_new ''m'')\<lparr>ul_recovered := True\<rparr>"
  by (simp add: ask_def upload_result_def recover_def recover_intents_def uploads_new_def sample_io_def io_check_def
      stored_result_of_def)

lemma one_running_journal:
  "ul_journal_intents one_running = [IntentRecord \<lparr>in_path = ''f'', in_id = ''upl_000a'', in_failed_sweeps = 0\<rparr>,
     IntentRecord \<lparr>in_path = ''f'', in_id = ''upl_000b'', in_failed_sweeps = 0\<rparr>]"
  "ul_journal_results one_running = []"
  using ids_ok [of "CHR ''a''"] ids_ok [of "CHR ''b''"]
  by (simp_all add: one_running_def fresh_recovered legacy_begin_eq intents_of_def new_upload_def)

lemma sweep_sample:
  assumes "validate_upload_id i = Inr ()" "starts_with i ''upl_''"
  shows "sweep_one sample_lib (sample_io (Some PermissionDenied)) (IntentRecord \<lparr>in_path = ''f'', in_id = i, in_failed_sweeps = 0\<rparr>) kept
    = Inr (kept @ [\<lparr>in_path = ''f'', in_id = i, in_failed_sweeps = 1\<rparr>])"
proof -
  have "is_reserved_namespace sample_lib ''f'' = Inr False" by code_simp
  then show ?thesis using assms by (simp add: sweep_one_def map_err_def MAX_FAILED_SWEEPS_def Let_def)
qed

lemma unswept_two_eq:
  "ul_recovered unswept_two" "length (ul_unswept unswept_two) = 2" "ul_entries unswept_two = []"
  using sweep_sample [of "''upl_000a''"] sweep_sample [of "''upl_000b''"] ids_ok [of "CHR ''a''"] ids_ok [of "CHR ''b''"]
  by (simp_all add: unswept_two_def ask_def upload_result_def recover_def recover_intents_def upload_restart_def
      one_running_journal stored_result_of_def starts_with_def io_check_def MACHINE_UPLOAD_MAX_ACTIVE_def)

text \<open>
  The recovery after a restart can fail for good.  The sweep keeps at most five times a staging name
  it cannot remove, so that it does not block later uploads; but with two such names and the eight
  uploads a Controller may stage, the journal holds ten records, and the recovery refuses any
  journal with more than nine.  From the state after that restart, no begin succeeds, in any
  continuation and whatever the file system answers.
\<close>

theorem recovery_blocks_uploads:
  "\<exists>s. reach uploads_init (upload_step sample_lib) s
     \<and> {t. (upload_step sample_lib)\<^sup>*\<^sup>* s t}
         \<subseteq> {t. \<forall>io i d f ov n. \<exists>e. upload_begin sample_lib io i d f ov n t = (Inl e, t)}"
proof (rule exI [of _ sample_restarted], intro conjI subsetI CollectI)
  let ?ids = "map (\<lambda>c. ''upl_000'' @ [c]) ''cdefghij''"
  have "reach uploads_init (upload_step sample_lib) (uploads_new ''m'')"
    by (rule reach_init) (auto simp: uploads_init_def)
  then show "reach uploads_init (upload_step sample_lib) sample_restarted"
    unfolding sample_restarted_def unswept_two_def one_running_def
    by (intro restart_reach begins_reach ask_reach)
  fix t assume "t \<in> {t. (upload_step sample_lib)\<^sup>*\<^sup>* sample_restarted t}"
  then have steps: "(upload_step sample_lib)\<^sup>*\<^sup>* sample_restarted t" by simp
  have "length (ul_journal_intents (foldl (legacy_begin (sample_io None)) unswept_two ?ids))
      = length (ul_unswept unswept_two) + length (ul_entries unswept_two) + length ?ids"
    using unswept_two_eq ids_ok by (intro begins_journal) auto
  then have "blocked sample_restarted"
    using unswept_two_eq by (simp add: sample_restarted_def blocked_def upload_restart_def MACHINE_UPLOAD_MAX_ACTIVE_def)
  with steps have "blocked t" by (induction rule: rtranclp_induct) (auto intro: blocked_step)
  then show "\<forall>io i d f ov n. \<exists>e. upload_begin sample_lib io i d f ov n t = (Inl e, t)" using blocked_begin by blast
qed

section \<open>An upload from begin to publication\<close>

definition part_text :: string where
  "part_text = replicate 64 (CHR ''a'')"

lemma part_text_ok: "length part_text = 64" "map to_ascii_lower part_text = part_text" "list_all is_ascii_hexdigit part_text"
  by (simp_all add: part_text_def to_ascii_lower_def is_ascii_hexdigit_def list_all_iff map_replicate_const)

definition sample_begun :: uploads where
  "sample_begun = snd (upload_begin sample_lib (sample_io None) ''upl_000a'' [] ''f'' False (Some 64)
     (ask (sample_io None) (uploads_new ''m'')))"

definition sample_chunked :: uploads where
  "sample_chunked = snd (upload_chunk sample_lib (sample_io None) ''upl_000a'' (Some 0) part_text sample_begun)"

definition sample_closed :: uploads where
  "sample_closed = snd (part_commit sample_lib (sample_io None) ''upl_000a'' 0 64 part_text sample_chunked)"

definition sample_taken :: uploads where
  "sample_taken = snd (commit_take sample_lib (sample_io None) ''upl_000a'' sample_closed)"

definition full_upload :: upload where
  "full_upload = \<lparr>up_path = ''f'', up_staged = \<lparr>sg_bytes = part_text, sg_pos = 64\<rparr>, up_overwrite = False,
     up_declared = Some 64, up_written = 64, up_committed = 64,
     up_parts = [\<lparr>pr_offset = 0, pr_length = 64, pr_sha256 = part_text\<rparr>], up_part_hash = [],
     up_file_hash = part_text, up_committed_hash = part_text, up_created = 0, up_touched = 0\<rparr>"

lemma sample_begun_reach: "reach uploads_init (upload_step sample_lib) sample_begun"
proof -
  have "reach uploads_init (upload_step sample_lib) (ask (sample_io None) (uploads_new ''m''))"
    by (intro ask_reach reach_init) (auto simp: uploads_init_def)
  then show ?thesis unfolding sample_begun_def
    by (rule reach_step) (rule step_begin [OF sample_io_ok prod.collapse [symmetric]])
qed

lemma sample_closed_reach: "reach uploads_init (upload_step sample_lib) sample_closed"
proof -
  note sample_begun_reach
  then have "reach uploads_init (upload_step sample_lib) sample_chunked" unfolding sample_chunked_def
    by (rule reach_step) (rule step_chunk [OF sample_io_ok prod.collapse [symmetric]])
  then show ?thesis unfolding sample_closed_def
    by (rule reach_step) (rule step_part [OF sample_io_ok prod.collapse [symmetric]])
qed

lemma sample_taken_reach: "reach uploads_init (upload_step sample_lib) sample_taken"
  unfolding sample_taken_def using sample_closed_reach
  by (rule reach_step) (rule step_take [OF sample_io_ok prod.collapse [symmetric]])

lemma sample_io_more [simp]:
  "oi_available (sample_io k) = Inr (2 ^ 40)" "oi_write (sample_io k) = None" "oi_metadata (sample_io k) = None"
  "oi_publish (sample_io k) = None" "oi_persist (sample_io k) = None" "oi_epoch (sample_io k) = 0"
  "oi_persist_results (sample_io k) = None"
  by (simp_all add: sample_io_def)

lemma sample_lib_fields [simp]: "lb_b64_decode sample_lib c = Some c" "lb_sha256_hex sample_lib c = c"
  by (simp_all add: sample_lib_def)

lemma sample_begun_eq: "ul_entries sample_begun = [(''upl_000a'', new_upload ''f'' False (Some 64) 0)]" "ul_recovered sample_begun" "ul_results sample_begun = []"
  using ids_ok [of "CHR ''a''"] relative_path_sample
  by (simp_all add: sample_begun_def fresh_recovered upload_begin_def begin_target_def recover_def begin_checks_def io_check_def
      check_space_def map_err_def sat_add_def outstanding_bytes_def SPACE_RESERVE_MIN_BYTES_def MACHINE_UPLOAD_MAX_BYTES_def
      MACHINE_UPLOAD_MAX_ACTIVE_def is_some_and_def)

lemma sample_chunked_eq:
  "ul_entries sample_chunked = [(''upl_000a'', full_upload\<lparr>up_committed := 0, up_parts := [], up_part_hash := part_text, up_committed_hash := []\<rparr>)]"
  "ul_recovered sample_chunked" "ul_results sample_chunked = []"
  using part_text_ok
  by (simp_all add: sample_chunked_def sample_begun_eq upload_chunk_def chunk_position_def chunk_write_def set_upload_def new_upload_def
      full_upload_def write_bytes_def sat_add_def MACHINE_UPLOAD_CHUNK_BYTES_def)

lemma sample_closed_eq: "ul_entries sample_closed = [(''upl_000a'', full_upload)]" "ul_recovered sample_closed" "ul_results sample_closed = []"
  using part_text_ok
  by (simp_all add: sample_closed_def sample_chunked_eq part_commit_def part_close_def set_upload_def full_upload_def sat_add_def io_check_def)

lemma sample_taken_eq: "(''upl_000a'', full_upload) \<in> set (ul_publishing sample_taken)"
  by (simp add: sample_taken_def commit_take_def recover_def sample_closed_eq stored_result_of_def is_some_and_def full_upload_def)

lemma full_declared: "up_declared full_upload = Some 64"
  by (simp add: full_upload_def)

theorem published_is_verified_witness:
  "\<exists>response s' content. commit_finish sample_lib (sample_io None) ''upl_000a'' full_upload sample_taken = (Inr response, s')
     \<and> ul_published s' = ul_published sample_taken @ [(''upl_000a'', fr_path response, content)]
     \<and> length content = 64 \<and> covers sample_lib 0 (up_parts full_upload) content"
proof -
  have "publish_outcome (sample_io None) = Inr ()" by (simp add: publish_outcome_def io_check_def)
  then obtain response s' where run: "commit_finish sample_lib (sample_io None) ''upl_000a'' full_upload sample_taken = (Inr response, s')"
    by (simp add: commit_finish_def Let_def)
  from published_is_verified [OF sample_taken_reach sample_taken_eq this] obtain content where
    "ul_published s' = ul_published sample_taken @ [(''upl_000a'', fr_path response, content)]"
    "\<forall>n. up_declared full_upload = Some n \<longrightarrow> length content = n \<and> covers sample_lib 0 (up_parts full_upload) content"
    by auto
  with full_declared run show ?thesis by blast
qed

definition sample_committed :: uploads where
  "sample_committed = snd (commit_finish sample_lib (sample_io None) ''upl_000a'' full_upload sample_taken)"

theorem receipts_are_true_witness:
  "\<exists>r \<in> set (ul_journal_results sample_committed). st_outcome r = OutcomeCommitted
     \<and> (\<exists>content. (st_upload_id r, st_path r, content) \<in> set (ul_published sample_committed) \<and> st_sha256 r = content)"
proof -
  have "reach uploads_init (upload_step sample_lib) sample_committed" unfolding sample_committed_def
    using sample_taken_reach by (rule reach_step) (rule step_finish [OF sample_io_ok sample_taken_eq prod.collapse [symmetric]])
  note true = receipts_are_true [OF this]
  have "ul_results sample_taken = []"
    by (simp add: sample_taken_def commit_take_def recover_def sample_closed_eq stored_result_of_def is_some_and_def full_upload_def drop_upload_def)
  then have "receipt_of sample_lib (sample_io None) ''upl_000a'' full_upload None False \<in> set (ul_journal_results sample_committed)"
    by (simp add: sample_committed_def commit_finish_def publish_outcome_def io_check_def keep_receipt_def store_result_def
        trim_results.simps MAX_STORED_RESULTS_def full_declared Let_def)
  moreover have "st_outcome (receipt_of sample_lib (sample_io None) ''upl_000a'' full_upload None False) = OutcomeCommitted"
    by (simp add: receipt_of_def)
  ultimately show ?thesis using true unfolding sample_lib_fields by (meson UnI2)
qed

end
