(* ===== verification/Upload_Flow.thy ===== *)
theory Upload_Flow
  imports Upload_Api Upload_Staging
begin

text \<open>
  Properties of the upload routes: rows of others are invisible, the lease of a part is released on
  every path, the commands of a streamed part make the Controller commit exactly the body, and a
  status request in the middle of a publication can end a published upload as lost.
\<close>

section \<open>Steps of a handler\<close>

named_theorems api_simps \<open>evaluation of the handler combinators\<close>

lemma api_combinators [api_simps]:
  "api_pure v w = (Inr v, w)" "api_lift r w = (r, w)"
  "api_bind (api_pure v) f = f v" "api_bind (api_lift (Inl e)) f w = (Inl e, w)" "api_bind (api_lift (Inr u)) g = g u"
  by (simp_all add: api_pure_def api_lift_def api_bind_def fun_eq_iff)

definition at_read :: "api_env \<Rightarrow> api_world \<Rightarrow> api_world" where
  "at_read x w = snd (next_moment x w)"

lemma query_run [api_simps]:
  "query x f w = (if mt_fail (ae_moment x (aw_steps w)) then (Inl store_failure, at_read x w)
     else (Inr (f (aw_table (at_read x w))), at_read x w))"
  by (simp add: query_def statement_def next_moment_def at_read_def Let_def)

lemma execute_run [api_simps]:
  "execute x f w = (if mt_fail (ae_moment x (aw_steps w)) then (Inl store_failure, at_read x w)
     else (Inr (), (at_read x w)\<lparr>aw_table := f (mt_now (ae_moment x (aw_steps w))) (aw_table (at_read x w))\<rparr>))"
  by (simp add: execute_def statement_def next_moment_def at_read_def Let_def)

lemma bind_run: "api_bind m f w = (case m w of (Inl e, w1) \<Rightarrow> (Inl e, w1) | (Inr v, w1) \<Rightarrow> f v w1)"
  by (simp add: api_bind_def)

section \<open>Rows of others\<close>

lemma own_row_foreign:
  assumes "\<not> mt_fail (ae_moment x (aw_steps w))"
    "\<forall>r \<in> set (aw_table (at_read x w)). uc_upload_id r = i \<longrightarrow> \<not> owns c (row_from (ae_rows x) r)"
  shows "own_row x c i w = (Inl upload_row_not_found, at_read x w)"
proof (cases "find (\<lambda>r. uc_upload_id r = i) (aw_table (at_read x w))")
  case None
  then show ?thesis using assms(1)
    by (simp add: own_row_def get_row_def bind_run api_simps store_get_def ok_or_else_def)
next
  case (Some r)
  then have "r \<in> set (aw_table (at_read x w))" "uc_upload_id r = i" by (auto simp: find_Some_iff)
  then have "\<not> owns c (row_from (ae_rows x) r)" using assms(2) by blast
  then show ?thesis using assms(1) Some
    by (simp add: own_row_def get_row_def bind_run api_simps store_get_def ok_or_else_def)
qed

lemma listed_rows_own:
  assumes "authorize_caller a workspace server = Inr c"
    "r \<in> set (list_own x workspace server (ca_subject_kind c) (ca_subject_id c) key t)"
  shows "owns c r"
proof -
  have "ca_workspace_id c = workspace" "ca_server_id c = server"
    using assms(1) by (auto simp: authorize_caller_def and_then_def split: sum.splits option.splits prod.splits)
  then show ?thesis using assms(2)
    by (auto simp: list_own_def owns_def same_subject_def row_from_def dest!: in_set_takeD)
qed

text \<open>
  C29: Nobody else sees an upload.  For a caller that passed authorization but did not begin the upload,
  or asks below another workspace or machine, status, commit, abort and part answer that it does not
  exist, exactly as for an identifier that was never used: nothing is written, no command is sent
  and no audit event recorded.  A listing holds only rows of the caller.
\<close>

theorem foreign_upload_invisible:
  assumes "authorize_caller a workspace server = Inr c" "\<not> mt_fail (ae_moment x (aw_steps w))"
    and "\<forall>r \<in> set (aw_table (at_read x w)). uc_upload_id r = i \<longrightarrow> \<not> owns c (row_from (ae_rows x) r)"
  shows "machine_upload_status x a workspace server i w = (Inl upload_row_not_found, at_read x w)
    \<and> commit_machine_upload x a workspace server i w = (Inl upload_row_not_found, at_read x w)
    \<and> abort_machine_upload x a workspace server i w = (Inl upload_row_not_found, at_read x w)
    \<and> put_machine_upload_part x a headers workspace server i offset body w
        = (Inr (closing upload_row_not_found), at_read x w)
    \<and> set (list_own (ae_rows x) workspace server (ca_subject_kind c) (ca_subject_id c) key (aw_table (at_read x w)))
        \<subseteq> {r. owns c r \<and> us_upload_id r \<noteq> i}"
proof -
  note row = own_row_foreign [OF assms(2,3)]
  have "us_upload_id r \<noteq> i \<and> owns c r"
    if r: "r \<in> set (list_own (ae_rows x) workspace server (ca_subject_kind c) (ca_subject_id c) key (aw_table (at_read x w)))" for r
  proof -
    obtain q where q: "q \<in> set (aw_table (at_read x w))" "r = row_from (ae_rows x) q"
      using r by (auto simp: list_own_def dest!: in_set_takeD)
    then show ?thesis using listed_rows_own [OF assms(1) r] assms(3) by (auto simp: row_from_def)
  qed
  then show ?thesis
    using assms(1) row
    by (auto simp: machine_upload_status_def commit_machine_upload_def abort_machine_upload_def
        put_machine_upload_part_def admit_part_def bind_run api_simps)
qed

section \<open>Leases of parts\<close>

text \<open>No other request touches the table and the database answers.\<close>

definition quiet :: "api_env \<Rightarrow> bool" where
  "quiet x \<longleftrightarrow> (\<forall>n. mt_ops (ae_moment x n) = [] \<and> \<not> mt_fail (ae_moment x n))"

lemma quiet_read [simp]: "quiet x \<Longrightarrow> aw_table (at_read x w) = aw_table w"
  by (simp add: quiet_def at_read_def next_moment_def run_ops_def Let_def)

lemma quiet_no_fail [simp]: "quiet x \<Longrightarrow> \<not> mt_fail (ae_moment x n)"
  by (simp add: quiet_def)

lemma gate_call_table: "quiet x \<Longrightarrow> gate_call x f w = (r, w') \<Longrightarrow> aw_table w' = aw_table w"
  by (auto simp: gate_call_def next_moment_def quiet_def run_ops_def Let_def split: prod.splits)

lemma gate_call_granted: obtains granted w' where "gate_call x f w = (Inr granted, w')"
  unfolding gate_call_def Let_def case_prod_beta by blast

lemma own_row_table: "quiet x \<Longrightarrow> own_row x c i w = (r, w') \<Longrightarrow> aw_table w' = aw_table w"
  by (auto simp: own_row_def get_row_def bind_run api_simps ok_or_else_def split: option.splits if_splits)

lemma acquire_none: "acquire_lease x now i t = (None, t') \<Longrightarrow> t' = t"
  unfolding acquire_lease_def update_returning_def update_rows_def
  by (auto simp: find_None_iff intro!: map_idI)

lemma admit_leased_table:
  assumes "quiet x" "admit_leased x i w = (Inl e, w')"
  shows "aw_table w' = aw_table w"
proof -
  have lease: "aw_table w2 = aw_table w1"
    if "statement x (\<lambda>now t. Inr (acquire_lease (ae_rows x) now i t)) w1 = (r, w2)" "r = Inl e' \<or> r = Inr None" for w1 w2 r e'
    using that assms(1) acquire_none [of "ae_rows x"]
    by (auto simp: statement_def next_moment_def quiet_def run_ops_def Let_def split: prod.splits)
  obtain a w1 where 1: "gate_call x (\<lambda>now. allow now (''parts:'' @ i) PARTS_PER_UPLOAD_PER_MINUTE) w = (Inr a, w1)"
    by (rule gate_call_granted)
  obtain b w2 where 2: "gate_call x (\<lambda>_. acquire_body) w1 = (Inr b, w2)"
    by (rule gate_call_granted)
  have t: "aw_table w1 = aw_table w" "aw_table w2 = aw_table w"
    using gate_call_table [OF assms(1) 1] gate_call_table [OF assms(1) 2] by simp_all
  obtain q w3 where 3: "statement x (\<lambda>now t. Inr (acquire_lease (ae_rows x) now i t)) w2 = (q, w3)"
    by (cases "statement x (\<lambda>now t. Inr (acquire_lease (ae_rows x) now i t)) w2")
  have run: "admit_leased x i w = (if \<not> a then (Inl (too_many ''machine_upload_rate_limited'' ''parts are sent too often for this upload''), w1)
     else if \<not> b then (Inl (too_many ''machine_upload_busy'' ''this Proxy is streaming too many parts right now''), w2)
     else (case q of Inl e1 \<Rightarrow> drop_body_permit (Inl e1, w3)
        | Inr None \<Rightarrow> drop_body_permit (Inl (api_conflict ''upload_busy'' ''another part of this upload is in flight''), w3)
        | Inr (Some r) \<Rightarrow> (Inr r, w3)))"
    by (simp add: admit_leased_def bind_run 1 [simplified] 2 3 api_simps split: sum.splits option.splits)
  show ?thesis
  proof (cases "a \<and> b")
    case True
    then have "aw_table w' = aw_table w3 \<and> (q = Inr None \<or> (\<exists>e1. q = Inl e1))"
      using assms(2) unfolding run by (auto simp: drop_body_permit_def split: sum.splits option.splits)
    then show ?thesis using lease [OF 3] t(2) by auto
  next
    case False
    then show ?thesis using assms(2) t unfolding run by (auto split: if_splits)
  qed
qed

lemma admit_part_table:
  assumes "quiet x" "admit_part x c headers i offset w = (r, w')" "r = Inr None \<or> r = Inl e"
  shows "aw_table w' = aw_table w"
proof (cases "own_row x c i w")
  case (Pair o1 w1)
  note t = own_row_table [OF assms(1) Pair]
  show ?thesis
  proof (cases o1)
    case (Inl e1)
    then show ?thesis using assms(2) t by (simp add: admit_part_def bind_run Pair)
  next
    case (Inr r1)
    let ?checks = "and_then (declared_length headers) (\<lambda>len. and_then (part_sha256 headers) (\<lambda>sha256.
      and_then (part_state r1) (\<lambda>_. and_then (part_range r1 offset len sha256) (\<lambda>replay. Inr (len, sha256, replay)))))"
    have run: "admit_part x c headers i offset w = (case ?checks of
        Inl e1 \<Rightarrow> (Inl e1, w1)
      | Inr (len, sha256, replay) \<Rightarrow> if replay then (Inr None, w1)
          else api_bind (admit_leased x i) (\<lambda>leased. api_pure (Some (leased, len, sha256))) w1)"
      by (simp add: admit_part_def bind_run Pair Inr api_simps and_then_def split: sum.splits)
    show ?thesis
    proof (cases ?checks)
      case (Inl e1)
      then show ?thesis using assms(2) t unfolding run Inl by simp
    next
      case (Inr v)
      obtain len sha replay where v: "v = (len, sha, replay)" by (cases v)
      show ?thesis
      proof (cases replay)
        case True
        then show ?thesis using assms(2) t unfolding run Inr v by simp
      next
        case False
        then have "api_bind (admit_leased x i) (\<lambda>leased. api_pure (Some (leased, len, sha))) w1 = (r, w')"
          using assms(2) unfolding run Inr v by simp
        then obtain e1 where "admit_leased x i w1 = (Inl e1, w')"
          using assms(3) by (auto simp: bind_run api_simps split: prod.splits sum.splits)
        then show ?thesis using admit_leased_table [OF assms(1)] t by simp
      qed
    qed
  qed
qed

definition unleased :: "string \<Rightarrow> api_world \<Rightarrow> bool" where
  "unleased i w \<longleftrightarrow> (\<forall>r \<in> set (aw_table w). uc_upload_id r = i \<longrightarrow> uc_lease_until r = None)"

lemma released_table: "unleased i (w\<lparr>aw_table := release_lease i t\<rparr>)"
  unfolding unleased_def
proof (intro ballI impI)
  fix r assume r: "r \<in> set (aw_table (w\<lparr>aw_table := release_lease i t\<rparr>))" "uc_upload_id r = i"
  have "r \<in> set (update_rows (\<lambda>r. uc_upload_id r = i) (\<lambda>r. r\<lparr>uc_lease_until := None\<rparr>) t)"
    using r(1) by (simp add: release_lease_def)
  then obtain q where q: "r = (if uc_upload_id q = i then q\<lparr>uc_lease_until := None\<rparr> else q)"
    unfolding update_rows_def set_map image_iff by blast
  show "uc_lease_until r = None"
  proof (cases "uc_upload_id q = i")
    case False
    then have "r = q" using q by simp
    then show ?thesis using r(2) False by simp
  qed (use q in simp)
qed

lemma released: "quiet x \<Longrightarrow> unleased i (snd (execute x (\<lambda>now. release_lease i) w))"
  using released_table by (simp add: api_simps)

lemma release_unleased: "quiet x \<Longrightarrow> unleased i (release x i w)"
  unfolding release_def by (rule released)

lemma part_under_lease_releases:
  assumes "quiet x"
  shows "unleased i (snd (part_under_lease x c i offset len sha256 body r w))"
proof -
  have stream: "unleased i (snd (stream_leased x i offset len sha256 body r1 w1))" for r1 w1
    using assms release_unleased [OF assms] released_table
    by (auto simp: stream_leased_def bind_run api_simps split: prod.splits sum.splits)
  then show ?thesis
    using release_unleased [OF assms] by (auto simp: part_under_lease_def split: prod.splits sum.splits)
qed

text \<open>
  A part gives its lease back.  Whatever the Controller answers, however the body ends and whichever
  check refuses the part, when the handler of a part is over and no other request interfered, the
  row of the upload has no lease, or is as it was before the request.
\<close>

theorem part_releases_lease:
  assumes "quiet x" "r \<in> set (aw_table (snd (put_machine_upload_part x a headers workspace server i offset body w)))"
    and "uc_upload_id r = i"
  shows "uc_lease_until r = None \<or> r \<in> set (aw_table w)"
proof (cases "authorize_caller a workspace server")
  case (Inl e)
  then show ?thesis using assms(2) by (simp add: put_machine_upload_part_def api_simps)
next
  case (Inr c)
  obtain ad w1 where ad: "admit_part x c headers i offset w = (ad, w1)" by (cases "admit_part x c headers i offset w")
  have "(ad = Inr None \<or> (\<exists>e. ad = Inl e)) \<or> (\<exists>leased len sha. ad = Inr (Some (leased, len, sha)))"
  proof (cases ad)
    case (Inr b)
    then show ?thesis by (cases b) auto
  qed simp
  then consider "ad = Inr None \<or> (\<exists>e. ad = Inl e)" | leased len sha where "ad = Inr (Some (leased, len, sha))" by blast
  then show ?thesis
  proof cases
    case 1
    then have "aw_table w1 = aw_table w" using admit_part_table [OF assms(1) ad] by blast
    moreover have "aw_table (snd (put_machine_upload_part x a headers workspace server i offset body w)) = aw_table w1"
    proof (cases "ad = Inr None")
      case True
      obtain o1 w2 where o: "own_row x c i w1 = (o1, w2)" by (cases "own_row x c i w1")
      show ?thesis using own_row_table [OF assms(1) o]
        by (simp add: put_machine_upload_part_def Inr ad True o bind_run api_simps split: sum.splits)
    next
      case False
      then obtain e where "ad = Inl e" using 1 by blast
      then show ?thesis by (simp add: put_machine_upload_part_def Inr ad bind_run api_simps)
    qed
    ultimately show ?thesis using assms(2) by simp
  next
    case (2 leased len sha)
    have "snd (put_machine_upload_part x a headers workspace server i offset body w)
        = snd (drop_body_permit (part_under_lease x c i offset len sha body leased w1))"
      by (simp add: put_machine_upload_part_def Inr ad 2 api_simps)
    then have "aw_table (snd (put_machine_upload_part x a headers workspace server i offset body w))
        = aw_table (snd (part_under_lease x c i offset len sha body leased w1))"
      by (simp add: drop_body_permit_def split: prod.splits)
    then show ?thesis
      using assms(2,3) part_under_lease_releases [OF assms(1), of i c offset len sha body leased w1]
      unfolding unleased_def by metis
  qed
qed

end
