(* ===== verification/Upload_Stream.thy ===== *)
theory Upload_Stream
  imports Upload_Api Upload_Staging
begin

text \<open>
  A part from the Proxy to the Controller.  The Proxy cuts a body into chunk commands
  (\<open>stream_part\<close>); the Controller executes them (\<open>controller_execute\<close>, the upload commands of
  \<open>proxy.rs\<close> of the agent server).  \<open>chunk_sink\<close> is what the Proxy relies on when it streams: a
  destination that takes chunks at consecutive positions.
\<close>

section \<open>Commands on the Controller\<close>

definition answered :: "('a \<Rightarrow> json) \<Rightarrow> 'a res \<times> 's \<Rightarrow> json res \<times> 's" where
  "answered f rs = (case rs of (Inl e, s) \<Rightarrow> (Inl e, s) | (Inr v, s) \<Rightarrow> (Inr (f v), s))"

fun controller_execute :: "upload_lib \<Rightarrow> upload_io \<Rightarrow> upload_command \<Rightarrow> uploads \<Rightarrow> json res \<times> uploads" where
  "controller_execute l io (CmdBegin i directory file_name overwrite n) s =
     answered (\<lambda>_. JObject [(''accepted'', JBool True)]) (upload_begin l io i directory file_name overwrite n s)"
| "controller_execute l io (CmdChunk i content offset) s =
     answered (\<lambda>n. JObject [(''bytes_written'', JNumber n)]) (upload_chunk l io i offset content s)"
| "controller_execute l io (CmdPartCommit i offset len sha256) s = part_commit l io i offset len sha256 s"
| "controller_execute l io (CmdResult i) s = upload_result l io i s"
| "controller_execute l io (CmdCommit i) s = answered response_json (upload_commit l io io i s)"
| "controller_execute l io (CmdAbort i) s = answered (\<lambda>b. JObject [(''aborted'', JBool b)]) (upload_abort io i s)"

fun controller_run :: "upload_lib \<Rightarrow> upload_io \<Rightarrow> upload_command list \<Rightarrow> uploads \<Rightarrow> json res list \<times> uploads" where
  "controller_run l io [] s = ([], s)"
| "controller_run l io (c # cs) s =
     (case controller_execute l io c s of (r, s1) \<Rightarrow> (case controller_run l io cs s1 of (rs, s2) \<Rightarrow> (r # rs, s2)))"

section \<open>The commands of a stream\<close>

fun numbered :: "nat \<Rightarrow> string list \<Rightarrow> (nat \<times> string) list" where
  "numbered pos [] = []"
| "numbered pos (c # cs) = (pos, c) # numbered (pos + length c) cs"

definition chunk_command :: "api_env \<Rightarrow> upload_row \<Rightarrow> nat \<times> string \<Rightarrow> string \<times> string \<times> upload_command" where
  "chunk_command x r pc = (case pc of (pos, c) \<Rightarrow>
     (us_workspace_id r, us_server_id r, CmdChunk (us_upload_id r) (lb_b64_encode (ae_lib x) c) (Some pos)))"

definition chunk_ok :: "string \<Rightarrow> bool" where
  "chunk_ok c \<longleftrightarrow> c \<noteq> [] \<and> length c \<le> MACHINE_UPLOAD_CHUNK_BYTES"

lemma numbered_append: "numbered pos (cs @ ds) = numbered pos cs @ numbered (pos + length (concat cs)) ds"
  by (induction cs arbitrary: pos) (simp_all add: add.assoc)

text \<open>What has been sent since \<open>sent\<close>: full chunks; the buffer and \<open>rest\<close> are still to come.\<close>

definition streamed ::
  "api_env \<Rightarrow> upload_row \<Rightarrow> nat \<Rightarrow> (string \<times> string \<times> upload_command) list \<Rightarrow> string list \<Rightarrow> string
   \<Rightarrow> stream_state \<Rightarrow> api_world \<Rightarrow> bool" where
  "streamed x r offset sent chunks rest s w \<longleftrightarrow>
     aw_sent w = sent @ map (chunk_command x r) (numbered offset chunks)
     \<and> concat chunks @ sm_buffer s @ rest = sm_hashed s \<and> sm_position s = offset + length (concat chunks)
     \<and> list_all chunk_ok chunks"

lemma dispatch_streamed:
  assumes "dispatch_chunk x r (s, w) = (Inr v, s', w')" "streamed x r offset sent chunks rest s w" "chunk_ok (sm_buffer s)"
  shows "streamed x r offset sent (chunks @ [sm_buffer s]) rest s' w' \<and> sm_buffer s' = []
    \<and> sm_hashed s' = sm_hashed s \<and> sm_received s' = sm_received s"
  using assms
  by (auto simp: dispatch_chunk_def send_command_def streamed_def numbered_append chunk_command_def Let_def split: sum.splits)

lemma feed_streamed:
  assumes "feed x r frame s w = (Inr v, s', w')" "streamed x r offset sent chunks frame s w"
    "length (sm_buffer s) < MACHINE_UPLOAD_CHUNK_BYTES"
  shows "(\<exists>chunks'. streamed x r offset sent chunks' [] s' w') \<and> length (sm_buffer s') < MACHINE_UPLOAD_CHUNK_BYTES
    \<and> sm_hashed s' = sm_hashed s \<and> sm_received s' = sm_received s"
  using assms
proof (induction x r frame s w arbitrary: chunks rule: feed.induct)
  case (1 x r frame s w)
  show ?case
  proof (cases "frame = []")
    case True
    then show ?thesis using "1.prems" by (auto simp: feed.simps [of x r "[]"])
  next
    case False
    let ?n = "min (MACHINE_UPLOAD_CHUNK_BYTES - length (sm_buffer s)) (length frame)"
    let ?s1 = "s\<lparr>sm_buffer := sm_buffer s @ take ?n frame\<rparr>"
    have s1: "streamed x r offset sent chunks (drop ?n frame) ?s1 w" using "1.prems"(2) by (simp add: streamed_def)
    have len: "length (sm_buffer ?s1) \<le> MACHINE_UPLOAD_CHUNK_BYTES" "sm_buffer ?s1 \<noteq> []"
      using "1.prems"(3) False by auto
    show ?thesis
    proof (cases "length (sm_buffer ?s1) = MACHINE_UPLOAD_CHUNK_BYTES")
      case True
      obtain d s2 w2 where d: "dispatch_chunk x r (?s1, w) = (d, s2, w2)" by (cases "dispatch_chunk x r (?s1, w)")
      have run: "feed x r frame s w = (case d of Inl e \<Rightarrow> (Inl e, s2, w2) | Inr _ \<Rightarrow> feed x r (drop ?n frame) s2 w2)"
        using False "1.prems"(3) True d by (simp add: feed.simps [of x r frame s w] Let_def split: sum.splits)
      obtain y where y: "d = Inr y" using "1.prems"(1) run by (cases d) auto
      have ds: "streamed x r offset sent (chunks @ [sm_buffer ?s1]) (drop ?n frame) s2 w2" "sm_buffer s2 = []"
          "sm_hashed s2 = sm_hashed ?s1" "sm_received s2 = sm_received ?s1"
        using dispatch_streamed [OF d [unfolded y] s1] len by (simp_all add: chunk_ok_def)
      have "feed x r (drop ?n frame) s2 w2 = (Inr v, s', w')" using "1.prems"(1) run y by simp
      then show ?thesis
        using "1.IH"(1) [OF _ refl refl True d [symmetric] y refl] False "1.prems"(3) ds
        by (simp add: MACHINE_UPLOAD_CHUNK_BYTES_def)
    next
      case nf: False
      then have "feed x r (drop ?n frame) ?s1 w = (Inr v, s', w')"
        using "1.prems"(1,3) False unfolding feed.simps [of x r frame s w] Let_def by (simp only: if_False de_Morgan_disj) simp
      then show ?thesis
        using "1.IH"(2) [OF _ refl refl nf] False "1.prems"(3) s1 len nf by simp
    qed
  qed
qed

lemma read_streamed:
  assumes "read_body x r len body s w = (Inr v, s', w')" "len \<le> MACHINE_UPLOAD_PART_MAX_BYTES"
    "streamed x r offset sent chunks [] s w" "length (sm_buffer s) < MACHINE_UPLOAD_CHUNK_BYTES"
    "sm_received s = length (sm_hashed s)"
  shows "(\<exists>k fs. take k body = map Frame fs \<and> sm_hashed s' = sm_hashed s @ concat fs)
    \<and> (\<exists>chunks'. streamed x r offset sent chunks' [] s' w') \<and> length (sm_buffer s') < MACHINE_UPLOAD_CHUNK_BYTES
    \<and> sm_received s' = length (sm_hashed s')"
  using assms
proof (induction body arbitrary: s w chunks)
  case Nil
  then have "s' = s" "w' = w" by simp_all
  moreover have "take 0 [] = map Frame []" by simp
  ultimately show ?case using Nil.prems(3-5) by fastforce
next
  case (Cons e body)
  have stop: ?case if "s' = s" "w' = w"
  proof -
    have "take 0 (e # body) = map Frame [] \<and> sm_hashed s' = sm_hashed s @ concat []" using that by simp
    then show ?thesis using that Cons.prems(3-5) by blast
  qed
  show ?case
  proof (cases "len \<le> sm_received s")
    case True
    then show ?thesis using stop Cons.prems(1) by simp
  next
    case False
    then obtain f where e: "e = Frame f" using Cons.prems(1) by (cases e) simp_all
    let ?s1 = "s\<lparr>sm_received := sat_add (sm_received s) (length f)\<rparr>"
    let ?s2 = "?s1\<lparr>sm_hashed := sm_hashed ?s1 @ f\<rparr>"
    have small: "\<not> len < sm_received ?s1" using Cons.prems(1) False e by (auto simp: Let_def split: if_splits)
    then have rec: "sat_add (sm_received s) (length f) = sm_received s + length f"
      using Cons.prems(2) by (auto simp: sat_add_def MACHINE_UPLOAD_PART_MAX_BYTES_def min_def split: if_splits)
    obtain d s3 w3 where d: "feed x r f ?s2 w = (d, s3, w3)" by (cases "feed x r f ?s2 w")
    have run: "read_body x r len (e # body) s w = (case d of Inl err \<Rightarrow> (Inl err, s3, w3) | Inr _ \<Rightarrow> read_body x r len body s3 w3)"
      using False small d by (simp add: e Let_def split: sum.splits)
    then obtain y where y: "d = Inr y" using Cons.prems(1) by (cases d) auto
    have "streamed x r offset sent chunks f ?s2 w" using Cons.prems(3) by (simp add: streamed_def flip: append_assoc)
    note fd = feed_streamed [OF d [unfolded y] this]
    obtain chunks3 where s3: "streamed x r offset sent chunks3 [] s3 w3" "length (sm_buffer s3) < MACHINE_UPLOAD_CHUNK_BYTES"
        "sm_hashed s3 = sm_hashed s @ f" "sm_received s3 = length (sm_hashed s3)"
      using fd Cons.prems(4,5) rec by auto
    have "read_body x r len body s3 w3 = (Inr v, s', w')" using Cons.prems(1) run y by simp
    note ih = Cons.IH [OF this Cons.prems(2) s3(1,2,4)]
    then obtain k fs where "take k body = map Frame fs" "sm_hashed s' = sm_hashed s3 @ concat fs" by blast
    then have "take (Suc k) (e # body) = map Frame (f # fs)" "sm_hashed s' = sm_hashed s @ concat (f # fs)"
      using s3(3) e by simp_all
    then show ?thesis using ih by blast
  qed
qed

lemma rest_streamed:
  assumes "stream_rest x r len (s, w) = (Inr v, s', w')" "streamed x r offset sent chunks [] s w"
    "length (sm_buffer s) < MACHINE_UPLOAD_CHUNK_BYTES"
  shows "(\<exists>chunks'. streamed x r offset sent chunks' [] s' w') \<and> sm_buffer s' = [] \<and> sm_received s = len
    \<and> sm_hashed s' = sm_hashed s"
proof (cases "sm_buffer s = []")
  case True
  then show ?thesis using assms(1,2)
    by (auto simp: stream_rest_def streamed_def split: if_splits sum.splits)
next
  case False
  obtain d s2 w2 where d: "dispatch_chunk x r (s, w) = (d, s2, w2)" by (cases "dispatch_chunk x r (s, w)")
  have run: "stream_rest x r len (s, w) = (if sm_received s \<noteq> len
      then (Inl (protocol_error_new ''upload_part_length_mismatch'' ''the part body ended before its Content-Length''), s, w)
      else (case d of Inl e \<Rightarrow> (Inl e, s2, w2) | Inr _ \<Rightarrow> (case settle 0 (sm_in_flight s2) of
        Inl e \<Rightarrow> (Inl e, s2, w2) | Inr q \<Rightarrow> (Inr (), s2\<lparr>sm_in_flight := q\<rparr>, w2))))"
    using False by (cases d) (simp_all add: stream_rest_def d)
  then obtain y q where y: "d = Inr y" "sm_received s = len" "s' = s2\<lparr>sm_in_flight := q\<rparr>" "w' = w2"
    using assms(1) by (auto split: if_splits sum.splits)
  have "chunk_ok (sm_buffer s)" using False assms(3) by (simp add: chunk_ok_def)
  from dispatch_streamed [OF d [unfolded y(1)] assms(2) this]
  have "streamed x r offset sent (chunks @ [sm_buffer s]) [] s' w' \<and> sm_buffer s' = [] \<and> sm_hashed s' = sm_hashed s"
    by (auto simp: y streamed_def)
  then show ?thesis using y(2) by blast
qed

text \<open>
  The chunk commands of a part that was streamed are its body, cut in order into non-empty chunks at
  consecutive offsets, followed by the command that closes the part.
\<close>

lemma stream_part_sent:
  assumes "stream_part x r offset len sha256 body w = (Inr (committed, parts), w')" "len \<le> MACHINE_UPLOAD_PART_MAX_BYTES"
  obtains chunks k fs where "take k body = map Frame fs" "concat chunks = concat fs" "length (concat chunks) = len"
    "lb_sha256_hex (ae_lib x) (concat chunks) = sha256" "list_all chunk_ok chunks"
    "aw_sent w' = aw_sent w @ map (chunk_command x r) (numbered offset chunks)
      @ [(us_workspace_id r, us_server_id r, CmdPartCommit (us_upload_id r) offset len sha256)]"
proof -
  obtain s1 w1 where 1: "read_body x r len body (stream_start offset) w = (Inr (), s1, w1)"
    using assms(1) by (auto simp: stream_part_def split: prod.splits sum.splits)
  obtain s2 w2 where 2: "stream_rest x r len (s1, w1) = (Inr (), s2, w2)"
    using assms(1) by (auto simp: stream_part_def 1 split: prod.splits sum.splits)
  have "streamed x r offset (aw_sent w) [] [] (stream_start offset) w" by (simp add: streamed_def stream_start_def)
  note rd = read_streamed [OF 1 assms(2) this, unfolded stream_start_def, simplified]
  obtain k fs chunks1 where r1: "take k body = map Frame fs" "sm_hashed s1 = concat fs"
      "streamed x r offset (aw_sent w) chunks1 [] s1 w1" "length (sm_buffer s1) < MACHINE_UPLOAD_CHUNK_BYTES"
      "sm_received s1 = length (sm_hashed s1)"
    using rd by (auto simp: MACHINE_UPLOAD_CHUNK_BYTES_def)
  obtain chunks2 where r2: "streamed x r offset (aw_sent w) chunks2 [] s2 w2" "sm_buffer s2 = []" "sm_received s1 = len"
      "sm_hashed s2 = sm_hashed s1"
    using rest_streamed [OF 2 r1(3,4)] by blast
  have cat: "concat chunks2 = concat fs" using r1(2) r2(1,2,4) by (simp add: streamed_def)
  moreover have "length (concat chunks2) = len" using cat r1(2,5) r2(3) by simp
  moreover have "lb_sha256_hex (ae_lib x) (concat chunks2) = sha256"
    "aw_sent w' = aw_sent w2 @ [(us_workspace_id r, us_server_id r, CmdPartCommit (us_upload_id r) offset len sha256)]"
    using assms(1) cat r1(2) r2(4) by (auto simp: stream_part_def 1 2 send_command_def split: if_splits sum.splits prod.splits)
  ultimately show ?thesis using that [of k fs chunks2] r1(1) r2(1) by (simp add: streamed_def)
qed

section \<open>Consecutive chunks\<close>

fun run_writes :: "(nat \<Rightarrow> string \<Rightarrow> 's \<Rightarrow> 'r res \<times> 's) \<Rightarrow> (nat \<times> string) list \<Rightarrow> 's \<Rightarrow> bool \<times> 's" where
  "run_writes f [] s = (True, s)"
| "run_writes f ((pos, c) # pcs) s = (case f pos c s of (Inl e, s1) \<Rightarrow> (False, s1) | (Inr v, s1) \<Rightarrow> run_writes f pcs s1)"

text \<open>
  \<open>holds pos acc s\<close>: the sink has taken \<open>acc\<close> since its committed offset and continues at \<open>pos\<close>.
\<close>

locale chunk_sink =
  fixes put :: "nat \<Rightarrow> string \<Rightarrow> 's \<Rightarrow> 'r res \<times> 's" and holds :: "nat \<Rightarrow> string \<Rightarrow> 's \<Rightarrow> bool" and limit :: nat
  assumes put_ok: "holds pos acc s \<Longrightarrow> chunk_ok c \<Longrightarrow> pos + length c \<le> limit
    \<Longrightarrow> \<exists>v s'. put pos c s = (Inr v, s') \<and> holds (pos + length c) (acc @ c) s'"
begin

lemma consecutive:
  "holds pos acc s \<Longrightarrow> list_all chunk_ok chunks \<Longrightarrow> pos + length (concat chunks) \<le> limit
   \<Longrightarrow> \<exists>s'. run_writes put (numbered pos chunks) s = (True, s') \<and> holds (pos + length (concat chunks)) (acc @ concat chunks) s'"
proof (induction chunks arbitrary: pos acc s)
  case (Cons c chunks)
  then obtain v s1 where 1: "put pos c s = (Inr v, s1)" "holds (pos + length c) (acc @ c) s1"
    using put_ok [of pos acc s c] by auto
  with Cons.prems obtain s' where "run_writes put (numbered (pos + length c) chunks) s1 = (True, s')"
      "holds (pos + length c + length (concat chunks)) ((acc @ c) @ concat chunks) s'"
    using Cons.IH [OF 1(2)] by auto
  with 1 show ?case by (simp add: add.assoc)
qed simp

end

section \<open>The Controller as a sink\<close>

definition io_fine :: "upload_io \<Rightarrow> bool" where
  "io_fine io \<longleftrightarrow> oi_write io = None \<and> oi_set_len io = None \<and> oi_seek io = None \<and> oi_metadata io = None"

text \<open>Documented behaviour of the libraries: decoding inverts encoding.\<close>

definition b64_ok :: "upload_lib \<Rightarrow> bool" where
  "b64_ok l \<longleftrightarrow> (\<forall>c. lb_b64_decode l (lb_b64_encode l c) = Some c)"

definition staged_whole :: "upload \<Rightarrow> bool" where
  "staged_whole u \<longleftrightarrow> length (sg_bytes (up_staged u)) = up_written u"

text \<open>
  The upload was at \<open>u0\<close>; \<open>acc\<close> has been written after its committed bytes, or the next chunk starts
  the part over.
\<close>

definition since :: "upload_lib \<Rightarrow> upload_io \<Rightarrow> string \<Rightarrow> nat \<Rightarrow> upload \<Rightarrow> nat \<Rightarrow> string \<Rightarrow> uploads \<Rightarrow> bool" where
  "since l io i n u0 pos acc s \<longleftrightarrow> io_fine io \<and> b64_ok l \<and> (\<exists>u. map_of (ul_entries s) i = Some u
     \<and> chunked_ok l n u \<and> up_declared u = Some n \<and> staged_whole u \<and> up_committed u = up_committed u0
     \<and> up_committed_hash u = up_committed_hash u0 \<and> up_parts u = up_parts u0
     \<and> (up_written u = pos \<and> up_part_hash u = acc \<or> acc = [] \<and> pos = up_committed u0))"

definition rewound :: "upload \<Rightarrow> upload" where
  "rewound u = u\<lparr>up_staged := \<lparr>sg_bytes = up_committed_hash u, sg_pos = up_committed u\<rparr>, up_written := up_committed u,
     up_part_hash := [], up_file_hash := up_committed_hash u\<rparr>"

lemma position_ready:
  assumes "io_fine io" "chunked_ok l n u" "up_declared u = Some n" "staged_whole u"
    "up_written u = pos \<and> up_part_hash u = acc \<or> acc = [] \<and> pos = up_committed u"
  obtains u1 where "chunk_position io (Some pos) u = (Inr (), u1)" "chunked_ok l n u1" "up_declared u1 = Some n"
    "staged_whole u1" "up_committed u1 = up_committed u" "up_committed_hash u1 = up_committed_hash u"
    "up_parts u1 = up_parts u" "up_written u1 = pos" "up_part_hash u1 = acc"
proof -
  note f = chunked_okD [OF assms(2)]
  show thesis
  proof (cases "pos = up_committed u \<and> up_committed u < up_written u")
    case True
    then have acc: "acc = []" "pos = up_committed u" using assms(5) by auto
    have "set_len (up_committed u) (up_staged u) = (up_staged u)\<lparr>sg_bytes := up_committed_hash u\<rparr>"
      using f(2,5,7) by (simp add: set_len_def)
    then have "chunk_position io (Some pos) u = (Inr (), rewound u)"
      using assms(1,3) True by (simp add: chunk_position_def rewind_def io_fine_def Let_def rewound_def)
    moreover have "chunked_ok l n (rewound u)" "staged_whole (rewound u)"
      using f(1-3,6,12) by (auto simp: chunked_ok_def rewound_def staged_whole_def)
    ultimately show ?thesis using that [of "rewound u"] assms(3) acc by (simp add: rewound_def)
  next
    case False
    have eq: "up_written u = pos \<and> up_part_hash u = acc"
    proof (cases "acc = [] \<and> pos = up_committed u")
      case True
      then have "up_written u = up_committed u" using False f(2) by linarith
      then show ?thesis using True f(6,8,9) by simp
    qed (use assms(5) in blast)
    then have "chunk_position io (Some pos) u = (Inr (), u)" using assms(3) False by (auto simp: chunk_position_def)
    then show ?thesis using that [of u] assms(2-4) eq by simp
  qed
qed

lemma chunk_since:
  assumes "since l io i n u0 pos acc s" "chunk_ok c" "pos + length c \<le> n"
  shows "\<exists>v s'. upload_chunk l io i (Some pos) (lb_b64_encode l c) s = (Inr v, s') \<and> since l io i n u0 (pos + length c) (acc @ c) s'"
proof -
  obtain u where u: "io_fine io" "b64_ok l" "map_of (ul_entries s) i = Some u" "chunked_ok l n u" "up_declared u = Some n"
      "staged_whole u" "up_committed u = up_committed u0" "up_committed_hash u = up_committed_hash u0" "up_parts u = up_parts u0"
      "up_written u = pos \<and> up_part_hash u = acc \<or> acc = [] \<and> pos = up_committed u"
    using assms(1) by (auto simp: since_def)
  obtain u1 where u1: "chunk_position io (Some pos) u = (Inr (), u1)" "chunked_ok l n u1" "up_declared u1 = Some n"
      "staged_whole u1" "up_committed u1 = up_committed u" "up_committed_hash u1 = up_committed_hash u"
      "up_parts u1 = up_parts u" "up_written u1 = pos" "up_part_hash u1 = acc"
    using position_ready [OF u(1,4-6,10)] by blast
  note f = chunked_okD [OF u1(2)]
  have total: "sat_add pos (length c) = pos + length c"
    using assms(3) f(1) by (simp add: sat_add_def MACHINE_UPLOAD_MAX_BYTES_def)
  let ?u2 = "u1\<lparr>up_staged := write_bytes c (up_staged u1), up_part_hash := up_part_hash u1 @ c,
    up_file_hash := up_file_hash u1 @ c, up_written := up_written u1 + length c, up_touched := oi_now io\<rparr>"
  have "chunk_write io i c u1 s = (Inr (pos + length c), set_upload i ?u2 s)"
    using u(1) u1(3,8) assms(3) total by (simp add: chunk_write_def io_fine_def Let_def)
  moreover have "lb_b64_decode l (lb_b64_encode l c) = Some c" using u(2) by (simp add: b64_ok_def)
  ultimately have run: "upload_chunk l io i (Some pos) (lb_b64_encode l c) s = (Inr (pos + length c), set_upload i ?u2 s)"
    using assms(2) u(3) u1(1) by (simp add: upload_chunk_def chunk_ok_def)
  have "upload_ok l ?u2" using write_ok [of l u1 n c "oi_now io"] u1(2,3,8) assms(3) by (simp add: upload_ok_def)
  then have "chunked_ok l n ?u2" using u1(3) by (simp add: upload_ok_def)
  moreover have "staged_whole ?u2" using u1(4) f(4) by (simp add: staged_whole_def write_at_end)
  ultimately have "since l io i n u0 (pos + length c) (acc @ c) (set_upload i ?u2 s)"
    using u(1,2,7-9) u1(3,5-9) by (simp add: since_def set_upload_def update_conv)
  with run show ?thesis by blast
qed

interpretation controller: chunk_sink "\<lambda>pos c. upload_chunk l io i (Some pos) (lb_b64_encode l c)" "since l io i n u0" n
  for l io i n u0
  by unfold_locales (rule chunk_since)

definition accepted :: "json res \<Rightarrow> bool" where
  "accepted r = (case r of Inr v \<Rightarrow> True | Inl e \<Rightarrow> False)"

lemma accepted_simps [simp]: "accepted (Inr v)" "\<not> accepted (Inl e)"
  by (simp_all add: accepted_def)

lemma controller_run_append:
  "controller_run l io (cs @ ds) s = (case controller_run l io cs s of (rs, s1) \<Rightarrow>
     (case controller_run l io ds s1 of (qs, s2) \<Rightarrow> (rs @ qs, s2)))"
  by (induction cs arbitrary: s) (simp_all split: prod.splits)

lemma chunks_executed:
  assumes "run_writes (\<lambda>pos c. upload_chunk (ae_lib x) io (us_upload_id r) (Some pos) (lb_b64_encode (ae_lib x) c)) pcs s = (True, s')"
  shows "\<exists>rs. controller_run (ae_lib x) io (map (\<lambda>pc. snd (snd (chunk_command x r pc))) pcs) s = (rs, s') \<and> list_all accepted rs"
  using assms
proof (induction pcs arbitrary: s)
  case (Cons pc pcs)
  obtain pos c where pc: "pc = (pos, c)" by (cases pc)
  obtain v s1 where 1: "upload_chunk (ae_lib x) io (us_upload_id r) (Some pos) (lb_b64_encode (ae_lib x) c) s = (Inr v, s1)"
    using Cons.prems pc by (auto split: prod.splits sum.splits)
  then have "run_writes (\<lambda>pos c. upload_chunk (ae_lib x) io (us_upload_id r) (Some pos) (lb_b64_encode (ae_lib x) c)) pcs s1 = (True, s')"
    using Cons.prems pc by simp
  from Cons.IH [OF this] obtain rs where
    "controller_run (ae_lib x) io (map (\<lambda>pc. snd (snd (chunk_command x r pc))) pcs) s1 = (rs, s')" "list_all accepted rs"
    by blast
  with 1 pc show ?case by (simp add: chunk_command_def answered_def)
qed simp

definition part_hash_ok :: "string \<Rightarrow> bool" where
  "part_hash_ok h \<longleftrightarrow> length h = 64 \<and> list_all is_ascii_hexdigit h \<and> map to_ascii_lower h = h"

lemma close_since:
  assumes "since l io i n u0 (up_committed u0 + len) content s" "content \<noteq> []" "len = length content"
    "part_hash_ok sha256" "lb_sha256_hex l content = sha256"
  shows "\<exists>u' s'. part_commit l io i (up_committed u0) len sha256 s = (Inr (part_answer (up_committed u0 + len) False), s')
    \<and> map_of (ul_entries s') i = Some u' \<and> up_committed u' = up_committed u0 + len \<and> up_written u' = up_committed u'
    \<and> sg_bytes (up_staged u') = up_committed_hash u0 @ content
    \<and> up_parts u' = up_parts u0 @ [\<lparr>pr_offset = up_committed u0, pr_length = len, pr_sha256 = sha256\<rparr>]"
proof -
  obtain u where u: "io_fine io" "map_of (ul_entries s) i = Some u" "chunked_ok l n u" "up_declared u = Some n"
      "staged_whole u" "up_committed u = up_committed u0" "up_committed_hash u = up_committed_hash u0" "up_parts u = up_parts u0"
      "up_written u = up_committed u0 + len" "up_part_hash u = content"
    using assms(1-3) by (auto simp: since_def)
  note f = chunked_okD [OF u(3)]
  have total: "sat_add (up_committed u0) len = up_committed u0 + len"
    using f(1,3) u(9) by (simp add: sat_add_def MACHINE_UPLOAD_MAX_BYTES_def)
  have bytes: "sg_bytes (up_staged u) = up_committed_hash u0 @ content"
    using f(8,10) u(5,7,10) by (simp add: staged_whole_def)
  let ?u' = "u\<lparr>up_committed := up_written u, up_committed_hash := up_file_hash u, up_part_hash := [],
    up_parts := up_parts u @ [\<lparr>pr_offset = up_committed u0, pr_length = len, pr_sha256 = sha256\<rparr>], up_touched := oi_now io\<rparr>"
  have "0 < len" using assms(2,3) by simp
  then have "part_close l io (up_committed u0) len sha256 u = (Inr (part_answer (up_committed u0 + len) False), ?u')"
    using u(1,4-6,9,10) total assms(5) by (simp add: part_close_def io_fine_def io_check_def staged_whole_def)
  then have "part_commit l io i (up_committed u0) len sha256 s = (Inr (part_answer (up_committed u0 + len) False), set_upload i ?u' s)"
    using u(2) assms(4) by (simp add: part_commit_def part_hash_ok_def)
  then show ?thesis using u(8,9) bytes by (auto simp: set_upload_def update_conv intro!: exI [of _ ?u'])
qed

text \<open>
  C25: A part that the Proxy streams is what the Controller commits.  When a part was streamed with
  success, its body had exactly the declared length and hash; and a Controller whose upload stands at
  the offset of the part, executing the commands in the order they were sent without an input or
  output error, accepts each of them and ends with the body appended to the committed bytes, the
  committed offset advanced by the length and the part recorded.  Bytes left over from an earlier
  attempt at the part are discarded.
\<close>

theorem streamed_part_is_committed:
  assumes stream: "stream_part x r offset len sha256 body w = (Inr (committed, parts), w')"
    and part: "0 < len" "len \<le> MACHINE_UPLOAD_PART_MAX_BYTES" "part_hash_ok sha256"
    and ctl: "reach uploads_init (upload_step (ae_lib x)) s" "map_of (ul_entries s) (us_upload_id r) = Some u"
      "up_declared u = Some n" "up_committed u = offset" "offset + len \<le> n" "staged_whole u"
    and io: "io_fine io" "b64_ok (ae_lib x)"
  shows "\<exists>k fs rs s' u'. take k body = map Frame fs \<and> length (concat fs) = len
    \<and> lb_sha256_hex (ae_lib x) (concat fs) = sha256
    \<and> controller_run (ae_lib x) io (map (\<lambda>c. snd (snd c)) (drop (length (aw_sent w)) (aw_sent w'))) s
        = (rs @ [Inr (part_answer (offset + len) False)], s')
    \<and> list_all accepted rs \<and> map_of (ul_entries s') (us_upload_id r) = Some u'
    \<and> up_committed u' = offset + len \<and> up_written u' = offset + len
    \<and> sg_bytes (up_staged u') = up_committed_hash u @ concat fs
    \<and> up_parts u' = up_parts u @ [\<lparr>pr_offset = offset, pr_length = len, pr_sha256 = sha256\<rparr>]"
proof -
  obtain chunks k fs where c: "take k body = map Frame fs" "concat chunks = concat fs" "length (concat chunks) = len"
      "lb_sha256_hex (ae_lib x) (concat chunks) = sha256" "list_all chunk_ok chunks"
      "aw_sent w' = aw_sent w @ map (chunk_command x r) (numbered offset chunks)
        @ [(us_workspace_id r, us_server_id r, CmdPartCommit (us_upload_id r) offset len sha256)]"
    using stream_part_sent [OF stream part(2)] by metis
  have "uploads_ok (ae_lib x) s" using ctl(1) by (rule staging.reach_inv)
  then have "chunked_ok (ae_lib x) n u" using entry_ok [OF _ ctl(2)] ctl(3) by (simp add: upload_ok_def)
  then have "since (ae_lib x) io (us_upload_id r) n u offset [] s" using ctl io by (simp add: since_def)
  from controller.consecutive [OF this c(5)] obtain s1 where s1:
      "run_writes (\<lambda>pos c. upload_chunk (ae_lib x) io (us_upload_id r) (Some pos) (lb_b64_encode (ae_lib x) c)) (numbered offset chunks) s = (True, s1)"
      "since (ae_lib x) io (us_upload_id r) n u (offset + len) (concat chunks) s1"
    using c(3) ctl(5) by auto
  obtain rs where rs: "controller_run (ae_lib x) io (map (\<lambda>pc. snd (snd (chunk_command x r pc))) (numbered offset chunks)) s = (rs, s1)"
      "list_all accepted rs"
    using chunks_executed [OF s1(1)] by blast
  have "since (ae_lib x) io (us_upload_id r) n u (up_committed u + len) (concat chunks) s1" using s1(2) unfolding ctl(4) .
  moreover have "concat chunks \<noteq> []" using c(3) part(1) by auto
  ultimately have "\<exists>u' s'. part_commit (ae_lib x) io (us_upload_id r) (up_committed u) len sha256 s1
      = (Inr (part_answer (up_committed u + len) False), s')
    \<and> map_of (ul_entries s') (us_upload_id r) = Some u' \<and> up_committed u' = up_committed u + len \<and> up_written u' = up_committed u'
    \<and> sg_bytes (up_staged u') = up_committed_hash u @ concat chunks
    \<and> up_parts u' = up_parts u @ [\<lparr>pr_offset = up_committed u, pr_length = len, pr_sha256 = sha256\<rparr>]"
    by (rule close_since [OF _ _ c(3) [symmetric] part(3) c(4)])
  then obtain u' s' where fin: "part_commit (ae_lib x) io (us_upload_id r) offset len sha256 s1 = (Inr (part_answer (offset + len) False), s')"
      "map_of (ul_entries s') (us_upload_id r) = Some u'" "up_committed u' = offset + len" "up_written u' = up_committed u'"
      "sg_bytes (up_staged u') = up_committed_hash u @ concat chunks"
      "up_parts u' = up_parts u @ [\<lparr>pr_offset = offset, pr_length = len, pr_sha256 = sha256\<rparr>]"
    unfolding ctl(4) by blast
  have "map (\<lambda>c. snd (snd c)) (drop (length (aw_sent w)) (aw_sent w'))
      = map (\<lambda>pc. snd (snd (chunk_command x r pc))) (numbered offset chunks) @ [CmdPartCommit (us_upload_id r) offset len sha256]"
    by (simp add: c(6) comp_def)
  then have "controller_run (ae_lib x) io (map (\<lambda>c. snd (snd c)) (drop (length (aw_sent w)) (aw_sent w'))) s
      = (rs @ [Inr (part_answer (offset + len) False)], s')"
    by (simp only: controller_run_append rs(1) prod.case controller_run.simps controller_execute.simps fin(1))
  then show ?thesis
    using c(1-4) rs(2) fin(2-6)
    by (intro exI [of _ k] exI [of _ fs] exI [of _ rs] exI [of _ s'] exI [of _ u']) simp
qed

end
