(* ===== verification/Upload_Examples.thy ===== *)
theory Upload_Examples
  imports Upload_Store
begin

text \<open>
  An environment that satisfies what the upload rows rely on, short histories of the table in it,
  the instances of the properties of the rows at these histories, and a history of three begins in
  progress at once that goes past the quota of a user.
\<close>

section \<open>An environment\<close>

definition rows_env :: upload_env where
  "rows_env = \<lparr>ue_stamp = (\<lambda>a. replicate (nat (a div 1000)) CHR ''1''),
     ue_parse = (\<lambda>s. Some (int (length s) * 1000)), ue_key = id,
     ue_parts_codec = \<lparr>jc_to_value = (\<lambda>_. None), jc_from_value = (\<lambda>_. None)\<rparr>,
     ue_receipt_codec = \<lparr>jc_to_value = (\<lambda>_. None), jc_from_value = (\<lambda>_. None)\<rparr>\<rparr>"

lemma replicate_less: "replicate m c < replicate n c \<longleftrightarrow> m < n" for c :: char
  by (induction m n rule: diff_induct) simp_all

lemma rows_env_ok: "upload_env_ok rows_env"
  by (auto simp: upload_env_ok_def rows_env_def replicate_less stamp_range_def)

definition begin_of :: "string \<Rightarrow> string \<Rightarrow> begin_params" where
  "begin_of server i = \<lparr>bp_workspace_id = ''w'', bp_server_id = server, bp_directory = ''d'', bp_file_name = ''f'',
     bp_overwrite = False, bp_size = 0, bp_subject_kind = ''user'', bp_subject_id = ''u'',
     bp_idempotency_key = i, bp_upload_id = i\<rparr>"

definition row_of :: "upload_env \<Rightarrow> string \<Rightarrow> string \<Rightarrow> upload_cols" where
  "row_of x server i = new_upload_row x 0 (begin_of server i)"

lemmas row_simps = row_of_def new_upload_row_def begin_of_def

lemma begin_empty: "begin_decide x now p [] = None" if "bp_size p \<le> MACHINE_UPLOAD_MAX_BYTES"
  using that size_as_i64 [of "bp_size p"] by (simp add: begin_decide_def begin_refused_def count_rows_def declared_bytes_def BEGINS_PER_MINUTE_def
      UPLOADS_PER_USER_def UPLOADS_PER_WORKSPACE_def UPLOADS_PER_MACHINE_def i64_saturating_add_def
      DECLARED_BYTES_PER_MACHINE_def MACHINE_UPLOAD_MAX_BYTES_def)

lemma begin_one: "run_ops x [OpBegin 0 (begin_of s i)] [] = [row_of x s i]"
proof -
  have "begin_decide x 0 (begin_of s i) [] = None" by (rule begin_empty) (simp add: begin_of_def)
  then show ?thesis by (simp add: run_ops_def store_begin_def begin_insert_def row_of_def)
qed

section \<open>Instances\<close>

text \<open>An upload that was published, and what a late part, a late abort, the expiry job and a second commit then do.\<close>

definition sample_receipt :: upload_receipt where
  "sample_receipt = \<lparr>rc_path = ''d/f'', rc_bytes_written = 0, rc_sha256 = None, rc_committed_at = [], rc_cleanup_pending = False\<rparr>"

definition published_ops :: "upload_op list" where
  "published_ops = [OpBegin 0 (begin_of ''m'' ''a''), OpActivate ''a'', OpStartCommit 0 ''a'', OpCommitted 0 ''a'' sample_receipt]"

definition late_ops :: "upload_op list" where
  "late_ops = [OpAcquire 1000 ''a'', OpProgress 1000 ''a'' 5 [], OpTerminal 2000 ''a'' Aborted ''client_abort'', OpRelease ''a'',
     OpTerminal 3000 ''a'' Expired ''idle_timeout'', OpStartCommit 4000 ''a'',
     OpCommitted 4000 ''a'' (sample_receipt\<lparr>rc_path := ''e''\<rparr>), OpActivate ''a'']"

definition published_row :: upload_cols where
  "published_row = (row_of rows_env ''m'' ''a'')\<lparr>uc_state := ''committed'', uc_result := Some JNull,
     uc_finished_at := Some (ue_stamp rows_env 0)\<rparr>"

lemmas store_ops = update_rows_def update_returning_def store_activate_def start_commit_def set_committed_def acquire_lease_def
  record_progress_def set_terminal_def release_lease_def

lemma published_history: "run_ops rows_env published_ops [] = [published_row]"
proof -
  have "lease_free rows_env 0 (row_of rows_env ''m'' ''a''\<lparr>uc_state := ''active''\<rparr>)"
    by (simp add: lease_free_def is_none_or_def row_simps)
  moreover have "jc_to_value (ue_receipt_codec rows_env) sample_receipt = None" by (simp add: rows_env_def)
  ultimately show ?thesis
    using begin_one [of rows_env "''m''" "''a''"]
    by (simp add: run_ops_def published_ops_def store_ops published_row_def row_simps as_i64_def)
qed

lemma late_history: "\<exists>r. run_ops rows_env late_ops [published_row] = [r] \<and> uc_upload_id r = ''a''"
  by (simp add: run_ops_def late_ops_def store_ops published_row_def row_simps)

theorem ended_upload_is_final_witness:
  "\<exists>r. run_ops rows_env published_ops [] = [published_row] \<and> run_ops rows_env late_ops [published_row] = [r]
     \<and> uc_state r = ''committed'' \<and> uc_result r = uc_result published_row \<and> uc_failure_code r = None
     \<and> uc_committed_offset r = uc_committed_offset published_row"
proof -
  from late_history obtain r where r: "run_ops rows_env late_ops [published_row] = [r]" "uc_upload_id r = ''a''" by blast
  have ended: "ended published_row" "uc_upload_id published_row = ''a''" "uc_failure_code published_row = None"
    "uc_state published_row = ''committed''"
    by (simp_all add: ended_def published_row_def is_terminal_def row_simps)
  have ok: "list_all (op_ok (uc_upload_id published_row)) late_ops" by (simp add: late_ops_def is_terminal_def)
  have "same_but_lease published_row r"
    by (rule ended_upload_is_final [where past = published_ops and ops = late_ops and x = rows_env])
      (use ok in \<open>simp_all add: published_history r ended\<close>)
  then obtain v where "r = published_row\<lparr>uc_lease_until := v\<rparr>" unfolding same_but_lease_def by blast
  then show ?thesis using published_history r(1) ended by simp
qed

definition leased :: "datetime \<Rightarrow> upload_cols" where
  "leased now = (row_of rows_env ''m'' ''a'')\<lparr>uc_lease_until := Some (ue_stamp rows_env (now + seconds LEASE_SECONDS))\<rparr>"

lemma takes_leaseI: "acquire_lease x now i t = (Some r, t') \<Longrightarrow> takes_lease x now i t t'"
  by (auto simp: takes_lease_def)

lemma first_lease: "takes_lease rows_env 0 ''a'' [row_of rows_env ''m'' ''a''] [leased 0]"
  by (rule takes_leaseI [where r = "row_from rows_env (leased 0)"])
    (simp add: acquire_lease_def update_returning_def row_simps lease_free_def is_none_or_def update_rows_def leased_def)

lemma second_lease: "takes_lease rows_env (seconds 151) ''a'' [leased 0] [leased (seconds 151)]"
proof -
  have free: "lease_free rows_env (seconds 151) (leased 0)"
    using rows_env_ok
    by (simp add: lease_free_def is_none_or_def leased_def sql_less_def upload_env_ok_def stamp_range_def seconds_def LEASE_SECONDS_def)
  have f: "uc_upload_id (leased 0) = ''a''" "uc_state (leased 0) = ''pending''"
    by (simp_all add: leased_def row_simps)
  have e: "(leased 0)\<lparr>uc_lease_until := Some (ue_stamp rows_env (seconds 151 + seconds LEASE_SECONDS))\<rparr> = leased (seconds 151)"
    by (simp add: leased_def)
  show ?thesis
    by (rule takes_leaseI [where r = "row_from rows_env (leased (seconds 151))"])
      (simp add: acquire_lease_def update_returning_def update_rows_def free f e)
qed

theorem lease_is_exclusive_witness:
  "(0 + seconds LEASE_SECONDS) div 1000 < seconds 151 div 1000"
proof (rule lease_is_exclusive)
  show "takes_lease rows_env 0 ''a'' (run_ops rows_env [OpBegin 0 (begin_of ''m'' ''a'')] []) [leased 0]"
    unfolding begin_one by (rule first_lease)
  show "takes_lease rows_env (seconds 151) ''a'' (run_ops rows_env [] [leased 0]) [leased (seconds 151)]"
    using second_lease by (simp add: run_ops_def)
qed (simp_all add: rows_env_ok stamp_range_def seconds_def LEASE_SECONDS_def)

section \<open>Begins in progress at once\<close>

lemma begin_step_insert:
  assumes "list_all (\<lambda>r. uc_upload_id r \<noteq> i \<and> uc_idempotency_key r \<noteq> i) t"
  shows "begin_step x (t, (begin_of s i, 0) # open) (t @ [row_of x s i], open)"
proof -
  have "\<not> list_ex (\<lambda>r. uc_upload_id r = bp_upload_id (begin_of s i) \<or> upload_key r = params_key (begin_of s i)) t"
    using assms by (auto simp: list_ex_iff list_all_iff begin_of_def upload_key_def params_key_def)
  then have "begin_insert x 0 (begin_of s i) t = Inr (Created (row_from x (row_of x s i)), t @ [row_of x s i])"
    by (simp add: begin_insert_def row_of_def)
  from begin_step.step_insert [OF _ this, of "(begin_of s i, 0) # open"] show ?thesis by simp
qed

lemma begin_step_decide:
  assumes "\<forall>b \<in> set open. bp_machine (fst b) \<noteq> (''w'', s)"
  shows "begin_step x ([], open) ([], open @ [(begin_of s i, 0)])"
  by (rule begin_step.step_decide, rule begin_empty) (use assms in \<open>simp_all add: begin_of_def bp_machine_def\<close>)

definition three_rows :: "upload_env \<Rightarrow> upload_table" where
  "three_rows x = [row_of x ''m1'' ''a'', row_of x ''m2'' ''b'', row_of x ''m3'' ''c'']"

lemma three_begins: "reach begin_init (begin_step x) (three_rows x, [])"
proof -
  let ?p = "(begin_of ''m1'' ''a'', 0)" and ?q = "(begin_of ''m2'' ''b'', 0)" and ?r = "(begin_of ''m3'' ''c'', 0)"
  have "reach begin_init (begin_step x) ([], [])" by (rule reach_init) (simp add: begin_init_def)
  then have "reach begin_init (begin_step x) ([], [?p])"
    by (rule reach_step) (use begin_step_decide [of "[]"] in simp)
  then have "reach begin_init (begin_step x) ([], [?p, ?q])"
    by (rule reach_step) (use begin_step_decide [of "[?p]" "''m2''" x "''b''"] in \<open>simp add: begin_of_def bp_machine_def\<close>)
  then have "reach begin_init (begin_step x) ([], [?p, ?q, ?r])"
    by (rule reach_step) (use begin_step_decide [of "[?p, ?q]" "''m3''" x "''c''"] in \<open>simp add: begin_of_def bp_machine_def\<close>)
  then have "reach begin_init (begin_step x) ([row_of x ''m1'' ''a''], [?q, ?r])"
    by (rule reach_step) (use begin_step_insert [of "''a''" "[]"] in simp)
  then have "reach begin_init (begin_step x) ([row_of x ''m1'' ''a'', row_of x ''m2'' ''b''], [?r])"
    by (rule reach_step) (use begin_step_insert [of "''b''" "[row_of x ''m1'' ''a'']"] in \<open>simp add: row_simps\<close>)
  then show ?thesis unfolding three_rows_def
    by (rule reach_step)
      (use begin_step_insert [of "''c''" "[row_of x ''m1'' ''a'', row_of x ''m2'' ''b'']"] in \<open>simp add: row_simps\<close>)
qed

theorem machine_quota_holds_witness:
  "count_rows (\<lambda>r. on_machine (''w'', ''m1'') r \<and> live r) (three_rows rows_env) \<le> UPLOADS_PER_MACHINE
    \<and> declared_bytes (''w'', ''m1'') (three_rows rows_env) \<le> DECLARED_BYTES_PER_MACHINE"
  by (rule machine_quota_holds [OF three_begins])

text \<open>
  The quota of a user does not hold.  A begin counts under the lock of its machine only, so the
  begins of one user on three machines can all count before any of them inserts: the user then has
  three live uploads, where two are allowed.
\<close>

theorem user_quota_can_be_exceeded:
  "\<exists>t. reach begin_init (begin_step x) (t, [])
     \<and> UPLOADS_PER_USER < count_rows (\<lambda>r. by_user (begin_of ''m1'' ''a'') r \<and> live r) t"
  using three_begins [of x]
  by (intro exI [of _ "three_rows x"])
    (simp add: three_rows_def count_rows_def by_user_def live_def row_simps UPLOADS_PER_USER_def)

end
