(* ===== verification/Upload_Scenario.thy ===== *)
theory Upload_Scenario
  imports Upload_Flow Upload_Stream Upload_Examples
begin

text \<open>
  Concrete runs of the upload routes: the instances of their properties.
\<close>

section \<open>An upload of one part\<close>

abbreviation upl :: string where
  "upl \<equiv> ''upl_000a''"

definition full_params :: begin_params where
  "full_params = (begin_of ''m'' upl)\<lparr>bp_size := 64\<rparr>"

definition complete_row :: upload_cols where
  "complete_row = (new_upload_row rows_env 0 full_params)\<lparr>uc_state := ''active'', uc_committed_offset := 64\<rparr>"

definition user_checks :: "string \<Rightarrow> auth_checks" where
  "user_checks u = \<lparr>ac_resolve = None, ac_subject = None, ac_target = None, ac_policy = None,
     ac_actor = (''user'', Some u), ac_capabilities = Inr [''machine.upload.v3'']\<rparr>"

definition user_caller :: "string \<Rightarrow> caller" where
  "user_caller u = \<lparr>ca_workspace_id = ''w'', ca_server_id = ''m'', ca_subject_kind = ''user'', ca_subject_id = u\<rparr>"

lemma user_authorized: "authorize_caller (user_checks u) ''w'' ''m'' = Inr (user_caller u)"
  by (simp add: authorize_caller_def user_checks_def user_caller_def check_def)

definition world_of :: "upload_table \<Rightarrow> api_world" where
  "world_of t = \<lparr>aw_table = t, aw_gate = gate_default, aw_now = 0, aw_steps = 0, aw_sent = [], aw_audit = []\<rparr>"

definition env_of :: "(nat \<Rightarrow> upload_op list) \<Rightarrow> json res \<Rightarrow> api_env" where
  "env_of ops answer = \<lparr>ae_rows = rows_env, ae_lib = sample_lib,
     ae_moment = (\<lambda>n. \<lparr>mt_now = 0, mt_instant = 0, mt_ops = ops n, mt_gate = id, mt_fail = False\<rparr>),
     ae_answer = (\<lambda>_. answer)\<rparr>"

lemma env_fields [simp]:
  "ae_rows (env_of ops r) = rows_env" "ae_lib (env_of ops r) = sample_lib" "mt_now (ae_moment (env_of ops r) n) = 0"
  "mt_instant (ae_moment (env_of ops r) n) = 0" "mt_ops (ae_moment (env_of ops r) n) = ops n"
  "mt_gate (ae_moment (env_of ops r) n) = id" "\<not> mt_fail (ae_moment (env_of ops r) n)" "ae_answer (env_of ops r) n = r"
  by (simp_all add: env_of_def)

lemma complete_fields [simp]:
  "uc_upload_id complete_row = upl" "uc_state complete_row = ''active''" "uc_lease_until complete_row = None"
  "uc_committed_offset complete_row = uc_size complete_row"
  by (simp_all add: complete_row_def new_upload_row_def full_params_def begin_of_def as_i64_def)

lemma complete_row_view: "us_state (row_from rows_env complete_row) = Active" "us_upload_id (row_from rows_env complete_row) = upl"
  "us_workspace_id (row_from rows_env complete_row) = ''w''" "us_server_id (row_from rows_env complete_row) = ''m''"
  "owns (user_caller u) (row_from rows_env complete_row) \<longleftrightarrow> u = ''u''"
  by (auto simp: row_from_def complete_row_def new_upload_row_def full_params_def begin_of_def parse_upload_state_def
      owns_def same_subject_def user_caller_def)

lemmas run_simps = bind_run api_simps own_row_def get_row_def store_get_def ok_or_else_def at_read_def next_moment_def
  gate_call_def world_of_def run_ops_def Let_def

definition stream_env :: api_env where
  "stream_env = env_of (\<lambda>_. []) (Inr JNull)"

section \<open>Instances\<close>

theorem foreign_upload_invisible_witness:
  "machine_upload_status stream_env (user_checks ''v'') ''w'' ''m'' upl (world_of [complete_row])
     = (Inl upload_row_not_found, at_read stream_env (world_of [complete_row]))"
  using foreign_upload_invisible [OF user_authorized [of "''v''"], of stream_env "world_of [complete_row]" upl]
  by (simp add: stream_env_def complete_row_view run_simps)

definition part_headers :: headers where
  "part_headers h = (if h = ''content-length'' then [Some ''64''] else if h = ''x-treer-part-sha256'' then [Some part_text] else [])"

definition begun_row :: upload_cols where
  "begun_row = complete_row\<lparr>uc_committed_offset := 0\<rparr>"

definition refused_env :: api_env where
  "refused_env = env_of (\<lambda>_. []) (Inl upload_not_found)"

lemma stream_sample:
  "\<exists>w'. stream_part stream_env (row_from rows_env begun_row) 0 64 part_text [Frame part_text] (world_of [begun_row])
    = (Inr (64, [\<lparr>pr_offset = 0, pr_length = 64, pr_sha256 = part_text\<rparr>]), w')"
  using part_text_ok
  by (simp add: stream_part_def stream_start_def stream_rest_def stream_env_def dispatch_chunk_def send_command_def feed.simps
      sat_add_def MACHINE_UPLOAD_CHUNK_BYTES_def CHUNKS_IN_FLIGHT_def json_at_def json_as_u64_def row_from_def begun_row_def
      complete_row_def new_upload_row_def rows_env_def)

lemma begun_view: "us_upload_id (row_from rows_env begun_row) = upl" "us_parts (row_from rows_env begun_row) = []"
  by (simp_all add: row_from_def begun_row_def rows_env_def)

theorem streamed_part_is_committed_witness:
  "\<exists>rs s' u'. controller_run sample_lib (sample_io None) (map (\<lambda>c. snd (snd c)) (aw_sent (snd
       (stream_part stream_env (row_from rows_env begun_row) 0 64 part_text [Frame part_text] (world_of [begun_row]))))) sample_begun
     = (rs @ [Inr (part_answer 64 False)], s')
   \<and> map_of (ul_entries s') upl = Some u' \<and> up_committed u' = 64
   \<and> up_parts u' = [\<lparr>pr_offset = 0, pr_length = 64, pr_sha256 = part_text\<rparr>]"
proof -
  let ?u = "new_upload ''f'' False (Some 64) 0"
  obtain w' where run: "stream_part stream_env (row_from rows_env begun_row) 0 64 part_text [Frame part_text] (world_of [begun_row])
      = (Inr (64, [\<lparr>pr_offset = 0, pr_length = 64, pr_sha256 = part_text\<rparr>]), w')"
    using stream_sample by blast
  have lib: "ae_lib stream_env = sample_lib" by (simp add: stream_env_def)
  have part: "(64 :: nat) \<le> MACHINE_UPLOAD_PART_MAX_BYTES" "part_hash_ok part_text"
    using part_text_ok by (simp_all add: MACHINE_UPLOAD_PART_MAX_BYTES_def part_hash_ok_def)
  have up: "map_of (ul_entries sample_begun) (us_upload_id (row_from rows_env begun_row)) = Some ?u"
      "up_declared ?u = Some 64" "up_committed ?u = 0" "staged_whole ?u" "up_parts ?u = []"
    by (simp_all add: sample_begun_eq begun_view new_upload_def staged_whole_def)
  have io: "io_fine (sample_io None)" "b64_ok sample_lib"
    by (simp_all add: io_fine_def b64_ok_def sample_io_def sample_lib_def)
  have sent: "aw_sent (world_of [begun_row]) = []" by (simp add: world_of_def)
  show ?thesis
    unfolding run snd_conv
    using streamed_part_is_committed [OF run _ part, unfolded lib, OF _ sample_begun_reach up(1-3) _ up(4) io]
    by (simp add: begun_view sent up(5)) blast
qed

lemma part_text_trim: "trim part_text = part_text"
  unfolding part_text_def by code_simp

lemma part_headers_sample: "declared_length part_headers = Inr 64" "part_sha256 part_headers = Inr part_text"
proof -
  have "trim ''64'' = ''64''" by code_simp
  moreover have "parse_u64 ''64'' = Some 64" by (simp add: parse_u64_def strip_prefix_def is_ascii_digit_def)
  ultimately show "declared_length part_headers = Inr 64" by (simp add: declared_length_def part_headers_def ok_or_else_def)
  show "part_sha256 part_headers = Inr part_text"
    using part_text_ok by (simp add: part_sha256_def part_headers_def unwrap_or_default_def part_text_trim)
qed

lemma begun_row_view:
  "part_state (row_from rows_env begun_row) = Inr ()" "part_range (row_from rows_env begun_row) 0 64 part_text = Inr False"
  "owns (user_caller ''u'') (row_from rows_env begun_row)"
  by (simp_all add: row_from_def begun_row_def complete_row_def new_upload_row_def full_params_def begin_of_def parse_upload_state_def
      part_state_def part_range_def owns_def same_subject_def user_caller_def as_i64_def MACHINE_UPLOAD_PART_MAX_BYTES_def
      MACHINE_UPLOAD_MAX_PARTS_def rows_env_def Let_def)

definition begun_leased :: upload_cols where
  "begun_leased = begun_row\<lparr>uc_lease_until := Some (ue_stamp rows_env (seconds LEASE_SECONDS))\<rparr>"

lemma lease_begun: "acquire_lease rows_env 0 upl [begun_row] = (Some (row_from rows_env begun_leased), [begun_leased])"
  by (simp add: acquire_lease_def update_returning_def update_rows_def lease_free_def is_none_or_def begun_row_def begun_leased_def)

lemma begun_leased_view: "us_state (row_from rows_env begun_leased) = Active" "us_upload_id (row_from rows_env begun_leased) = upl"
  by (simp_all add: begun_leased_def begun_row_def row_from_def parse_upload_state_def)

lemma refused_part:
  "aw_table (snd (put_machine_upload_part refused_env (user_checks ''u'') part_headers ''w'' ''m'' upl 0 [] (world_of [begun_row])))
     = [begun_row]"
proof -
  have id: "uc_upload_id begun_row = upl" by (simp add: begun_row_def)
  have rel: "release_lease upl [begun_leased] = [begun_row]"
    by (simp add: release_lease_def update_rows_def begun_leased_def begun_row_def)
  show ?thesis
    by (simp add: put_machine_upload_part_def user_authorized refused_env_def run_simps admit_part_def id begun_row_view
        part_headers_sample admit_leased_def drop_body_permit_def statement_def lease_begun part_under_lease_def reconcile_def
        begun_leased_view send_command_def release_def rel
        allow_def gate_default_def sweep_windows_def window_entry_def PARTS_PER_UPLOAD_PER_MINUTE_def WINDOWS_SWEEP_def
        acquire_body_def PART_BODIES_PER_INSTANCE_def put_window_def)
qed

theorem part_releases_lease_witness:
  "uc_lease_until begun_row = None \<or> begun_row \<in> set (aw_table (world_of [begun_row]))"
proof (rule part_releases_lease)
  show "begun_row \<in> set (aw_table (snd (put_machine_upload_part refused_env (user_checks ''u'') part_headers ''w'' ''m'' upl 0 []
      (world_of [begun_row]))))"
    unfolding refused_part by simp
qed (simp_all add: quiet_def refused_env_def begun_row_def)

end
