(* ===== verification/Ip_Addr.thy ===== *)
theory Ip_Addr
  imports Treer_Prelude "HOL-Library.Word"
begin

text \<open>
  IP addresses as machine words, their text forms as the standard library parses them
  (\<open>Ipv4Addr\<close>, \<open>Ipv6Addr\<close>, \<open>IpAddr\<close> and \<open>SocketAddr\<close>), and the address functions of
  \<open>ingress_guard.rs\<close>: normalisation, private ranges and rate keys.
\<close>

unbundle bit_operations_syntax

section \<open>Addresses\<close>

datatype ip_addr = IpV4 "32 word" | IpV6 "128 word"

definition to_ipv4_mapped :: "128 word \<Rightarrow> 32 word option" where
  "to_ipv4_mapped v = (if drop_bit 32 v = 0xFFFF then Some (ucast v) else None)"

definition normalize_ip :: "ip_addr \<Rightarrow> ip_addr" where
  "normalize_ip a =
     (case a of IpV6 v \<Rightarrow> (case to_ipv4_mapped v of Some v4 \<Rightarrow> IpV4 v4 | None \<Rightarrow> IpV6 v) | other \<Rightarrow> other)"

definition octet :: "nat \<Rightarrow> 32 word \<Rightarrow> 32 word" where
  "octet i v = drop_bit (24 - 8 * i) v AND 0xFF"

definition segment0 :: "128 word \<Rightarrow> 128 word" where
  "segment0 v = drop_bit 112 v"

text \<open>\<open>is_private\<close>, \<open>is_loopback\<close>, \<open>is_link_local\<close> and \<open>is_unspecified\<close> of the standard library.\<close>

definition v4_private :: "32 word \<Rightarrow> bool" where
  "v4_private v \<longleftrightarrow> octet 0 v = 10 \<or> (octet 0 v = 172 \<and> octet 1 v AND 0xF0 = 16)
     \<or> (octet 0 v = 192 \<and> octet 1 v = 168)"

definition is_private_or_local :: "ip_addr \<Rightarrow> bool" where
  "is_private_or_local a =
     (case normalize_ip a of
        IpV4 v \<Rightarrow> v4_private v \<or> octet 0 v = 127 \<or> (octet 0 v = 169 \<and> octet 1 v = 254) \<or> v = 0
          \<or> octet 0 v = 100 \<and> 64 \<le> octet 1 v \<and> octet 1 v \<le> 127
      | IpV6 v \<Rightarrow> v = 1 \<or> v = 0 \<or> segment0 v AND 0xFE00 = 0xFC00 \<or> segment0 v AND 0xFFC0 = 0xFE80)"

definition rate_key :: "ip_addr \<Rightarrow> ip_addr" where
  "rate_key a =
     (case normalize_ip a of IpV6 v \<Rightarrow> IpV6 (push_bit 64 (drop_bit 64 v)) | v4 \<Rightarrow> v4)"

section \<open>Text forms\<close>

text \<open>
  A reader takes the rest of the input and returns what it read with what is left; a reader that
  fails consumes nothing.
\<close>

definition to_digit :: "int \<Rightarrow> char \<Rightarrow> int option" where
  "to_digit radix c =
     (let n = of_char c;
          d = (if 48 \<le> n \<and> n \<le> 57 then n - 48
               else if 97 \<le> n \<and> n \<le> 122 then n - 87
               else if 65 \<le> n \<and> n \<le> 90 then n - 55 else radix)
      in if d < radix then Some d else None)"

definition digit_run :: "int \<Rightarrow> string \<Rightarrow> string" where
  "digit_run radix s = takeWhile (\<lambda>c. to_digit radix c \<noteq> None) s"

definition digits_value :: "int \<Rightarrow> string \<Rightarrow> int" where
  "digits_value radix s = foldl (\<lambda>v c. v * radix + the (to_digit radix c)) 0 s"

text \<open>\<open>bound\<close> is the exclusive bound of the integer type that is read.\<close>

definition read_number :: "int \<Rightarrow> nat option \<Rightarrow> bool \<Rightarrow> int \<Rightarrow> string \<Rightarrow> (int \<times> string) option" where
  "read_number radix max_digits allow_zero_prefix bound s =
     (let ds = digit_run radix s in
      if ds = [] \<or> is_some_and max_digits (\<lambda>m. m < length ds)
         \<or> \<not> allow_zero_prefix \<and> hd ds = CHR ''0'' \<and> 1 < length ds
         \<or> bound \<le> digits_value radix ds
      then None else Some (digits_value radix ds, drop (length ds) s))"

definition read_given_char :: "char \<Rightarrow> string \<Rightarrow> string option" where
  "read_given_char c s = (case s of x # rest \<Rightarrow> if x = c then Some rest else None | [] \<Rightarrow> None)"

definition read_separator ::
  "char \<Rightarrow> nat \<Rightarrow> (string \<Rightarrow> ('a \<times> string) option) \<Rightarrow> string \<Rightarrow> ('a \<times> string) option" where
  "read_separator sep i inner s =
     (if 0 < i then Option.bind (read_given_char sep s) inner else inner s)"

fun read_octets :: "nat \<Rightarrow> nat \<Rightarrow> string \<Rightarrow> (int list \<times> string) option" where
  "read_octets i 0 s = Some ([], s)"
| "read_octets i (Suc n) s =
     Option.bind (read_separator CHR ''.'' i (read_number 10 (Some 3) False 256) s) (\<lambda>(o1, s').
       map_option (\<lambda>(os, r). (o1 # os, r)) (read_octets (Suc i) n s'))"

definition read_ipv4_addr :: "string \<Rightarrow> (int list \<times> string) option" where
  "read_ipv4_addr s = read_octets 0 4 s"

text \<open>\<open>read_groups\<close>: the groups read, whether an IPv4 tail ended them, and the rest.\<close>

fun read_groups :: "nat \<Rightarrow> nat \<Rightarrow> string \<Rightarrow> int list \<times> bool \<times> string" where
  "read_groups i 0 s = ([], False, s)"
| "read_groups i (Suc n) s =
     (let ipv4 = (if 0 < n then read_separator CHR '':'' i read_ipv4_addr s else None) in
      case ipv4 of
        Some (os, r) \<Rightarrow> ([os ! 0 * 256 + os ! 1, os ! 2 * 256 + os ! 3], True, r)
      | None \<Rightarrow>
          (case read_separator CHR '':'' i (read_number 16 (Some 4) True 65536) s of
             None \<Rightarrow> ([], False, s)
           | Some (g, r) \<Rightarrow> (case read_groups (Suc i) n r of (gs, v4, r') \<Rightarrow> (g # gs, v4, r'))))"

definition read_ipv6_addr :: "string \<Rightarrow> (int list \<times> string) option" where
  "read_ipv6_addr s =
     (case read_groups 0 8 s of (head, head_ipv4, r) \<Rightarrow>
        if length head = 8 then Some (head, r)
        else if head_ipv4 then None
        else Option.bind (read_given_char CHR '':'' r) (\<lambda>r1.
          Option.bind (read_given_char CHR '':'' r1) (\<lambda>r2.
            case read_groups 0 (8 - (length head + 1)) r2 of (tail, _, r3) \<Rightarrow>
              Some (head @ replicate (8 - length head - length tail) 0 @ tail, r3))))"

definition v4_of_octets :: "int list \<Rightarrow> 32 word" where
  "v4_of_octets os = foldl (\<lambda>v b. v * 256 + of_int b) 0 os"

definition v6_of_groups :: "int list \<Rightarrow> 128 word" where
  "v6_of_groups gs = foldl (\<lambda>v g. v * 65536 + of_int g) 0 gs"

definition parse_with :: "(string \<Rightarrow> ('a \<times> string) option) \<Rightarrow> string \<Rightarrow> 'a option" where
  "parse_with inner s = (case inner s of Some (a, []) \<Rightarrow> Some a | _ \<Rightarrow> None)"

definition read_ip_addr :: "string \<Rightarrow> (ip_addr \<times> string) option" where
  "read_ip_addr s =
     (case read_ipv4_addr s of
        Some (os, r) \<Rightarrow> Some (IpV4 (v4_of_octets os), r)
      | None \<Rightarrow> map_option (\<lambda>(gs, r). (IpV6 (v6_of_groups gs), r)) (read_ipv6_addr s))"

definition parse_ip :: "string \<Rightarrow> ip_addr option" where
  "parse_ip s = parse_with read_ip_addr s"

definition parse_ipv6 :: "string \<Rightarrow> 128 word option" where
  "parse_ipv6 s = map_option v6_of_groups (parse_with read_ipv6_addr s)"

definition read_port :: "string \<Rightarrow> (int \<times> string) option" where
  "read_port s = Option.bind (read_given_char CHR '':'' s) (read_number 10 None True 65536)"

definition read_scope_id :: "string \<Rightarrow> string" where
  "read_scope_id s =
     (case Option.bind (read_given_char CHR ''%'' s) (read_number 10 None True (2 ^ 32)) of
        Some (_, r) \<Rightarrow> r | None \<Rightarrow> s)"

definition read_socket_v4 :: "string \<Rightarrow> (ip_addr \<times> string) option" where
  "read_socket_v4 s =
     Option.bind (read_ipv4_addr s) (\<lambda>(os, r).
       map_option (\<lambda>(_, r'). (IpV4 (v4_of_octets os), r')) (read_port r))"

definition read_socket_v6 :: "string \<Rightarrow> (ip_addr \<times> string) option" where
  "read_socket_v6 s =
     Option.bind (read_given_char CHR ''['' s) (\<lambda>r.
       Option.bind (read_ipv6_addr r) (\<lambda>(gs, r1).
         Option.bind (read_given_char CHR '']'' (read_scope_id r1)) (\<lambda>r2.
           map_option (\<lambda>(_, r3). (IpV6 (v6_of_groups gs), r3)) (read_port r2))))"

text \<open>The address of a \<open>SocketAddr\<close>.\<close>

definition parse_socket_ip :: "string \<Rightarrow> ip_addr option" where
  "parse_socket_ip s =
     parse_with (\<lambda>s. case read_socket_v4 s of Some r \<Rightarrow> Some r | None \<Rightarrow> read_socket_v6 s) s"

section \<open>Facts\<close>

text \<open>Two addresses that differ only inside their /64 share a rate key; keys are stable.\<close>

lemma octets_length: "read_octets i n s = Some (os, r) \<Longrightarrow> length os = n"
  by (induction i n s arbitrary: os r rule: read_octets.induct) (auto split: Option.bind_splits)

lemma to_ipv4_mapped_high:
  "drop_bit 64 v \<noteq> 0 \<Longrightarrow> to_ipv4_mapped v = None"
proof -
  assume h: "drop_bit 64 v \<noteq> 0"
  have "drop_bit 32 v \<noteq> 0xFFFF"
  proof
    assume "drop_bit 32 v = 0xFFFF"
    then have "drop_bit 32 (drop_bit 32 v) = (drop_bit 32 0xFFFF :: 128 word)" by simp
    then show False using h by (simp add: drop_bit_drop_bit)
  qed
  then show ?thesis by (simp add: to_ipv4_mapped_def)
qed

lemma rate_key_same_prefix:
  assumes "drop_bit 64 v = drop_bit 64 w" "drop_bit 64 v \<noteq> 0"
  shows "rate_key (IpV6 v) = rate_key (IpV6 w)"
  using assms to_ipv4_mapped_high [of v] to_ipv4_mapped_high [of w]
  by (simp add: rate_key_def normalize_ip_def)

lemma normalize_ip_idem [simp]: "normalize_ip (normalize_ip a) = normalize_ip a"
  by (cases a) (auto simp: normalize_ip_def split: option.splits)

end
