(* ===== verification/Token_Bucket.thy ===== *)
theory Token_Bucket
  imports Treer_Prelude Complex_Main "HOL-Library.Word" "HOL-Library.Log_Nat"
begin

text \<open>
  The token bucket of \<open>ingress_guard.rs\<close>.  Its \<open>f64\<close> arithmetic is rational arithmetic in which
  every operation is rounded to the nearest double, ties to even (\<open>f64_round\<close>).  All the values
  are non-negative and far below the overflow threshold, so signs, infinities and NaN do not occur.
\<close>

section \<open>Rounding to a double\<close>

text \<open>The exponent of a positive rational: \<open>2\<^sup>e \<le> x < 2\<^sup>(e+1)\<close>.\<close>

definition ilog2 :: "rat \<Rightarrow> int" where
  "ilog2 x = (case quotient_of x of (p, q) \<Rightarrow>
     let d = bitlen p - bitlen q in if 2 powi d \<le> x then d else d - 1)"

definition round_half_even :: "rat \<Rightarrow> int" where
  "round_half_even x =
     (let f = floor x; d = x - of_int f in
      if d < 1 / 2 then f else if 1 / 2 < d then f + 1 else if even f then f else f + 1)"

definition f64_round :: "rat \<Rightarrow> rat" where
  "f64_round x =
     (if x = 0 then 0
      else let e = max (ilog2 x - 52) (- 1074) in of_int (round_half_even (x / 2 powi e)) * 2 powi e)"

lemma ilog2_bounds:
  assumes "0 < x"
  shows "2 powi ilog2 x \<le> x" "x < 2 powi (ilog2 x + 1)"
proof -
  obtain p q where pq: "quotient_of x = (p, q)" by (cases "quotient_of x")
  have q: "0 < q" using quotient_of_denom_pos [OF pq] .
  have x: "x = of_int p / of_int q" using quotient_of_div [OF pq] .
  have p: "0 < p" using assms x q by (simp add: zero_less_divide_iff)
  define bp bq where "bp = bitlen p" and "bq = bitlen q"
  have pos: "1 \<le> bp" "1 \<le> bq" using p q by (simp_all add: bp_def bq_def bitlen_bounds bitlen_ge_iff_power)
  have pw: "(2 :: rat) powi (k - 1) = of_int (2 ^ nat (k - 1))" "(2 :: rat) powi k = of_int (2 ^ nat k)"
    if "1 \<le> k" for k using that by (simp_all add: power_int_def)
  have bnd: "of_int (2 ^ nat (bitlen n - 1)) \<le> (of_int n :: rat)" "(of_int n :: rat) < of_int (2 ^ nat (bitlen n))"
    if "0 < n" for n using bitlen_bounds [OF that] by (simp_all only: of_int_le_iff of_int_less_iff)
  have P: "2 powi (bp - 1) \<le> (of_int p :: rat)" "(of_int p :: rat) < 2 powi bp"
    using bnd [OF p] pw [OF pos(1)] by (simp_all add: bp_def)
  have Q: "2 powi (bq - 1) \<le> (of_int q :: rat)" "(of_int q :: rat) < 2 powi bq"
    using bnd [OF q] pw [OF pos(2)] by (simp_all add: bq_def)
  have up: "x < 2 powi (bp - bq + 1)"
  proof -
    have "x \<le> of_int p / 2 powi (bq - 1)" using p Q(1) x by (simp add: frac_le)
    also have "\<dots> < 2 powi bp / 2 powi (bq - 1)" using P(2) by (simp add: divide_strict_right_mono)
    also have "\<dots> = 2 powi (bp - bq + 1)" by (simp add: power_int_diff [symmetric] algebra_simps)
    finally show ?thesis .
  qed
  have lo: "2 powi (bp - bq - 1) \<le> x"
  proof -
    have "2 powi (bp - bq - 1) = (2 :: rat) powi (bp - 1) / 2 powi bq"
      by (simp add: power_int_diff [symmetric] algebra_simps)
    also have "\<dots> \<le> of_int p / of_int q" using P(1) Q(2) p q by (intro frac_le) simp_all
    finally show ?thesis using x by simp
  qed
  show "2 powi ilog2 x \<le> x" "x < 2 powi (ilog2 x + 1)"
    using up lo by (auto simp: ilog2_def pq bp_def [symmetric] bq_def [symmetric] Let_def)
qed

lemma ilog2_le: "0 < x \<Longrightarrow> x < 2 powi (k + 1) \<Longrightarrow> ilog2 x \<le> k"
proof (rule ccontr)
  assume "0 < x" "x < 2 powi (k + 1)" "\<not> ilog2 x \<le> k"
  then have "(2 :: rat) powi (k + 1) \<le> 2 powi ilog2 x" by (intro power_int_increasing) auto
  with \<open>0 < x\<close> \<open>x < 2 powi (k + 1)\<close> ilog2_bounds(1) [of x] show False by simp
qed

lemma ilog2_mono: "0 < x \<Longrightarrow> x \<le> y \<Longrightarrow> ilog2 x \<le> ilog2 y"
  using ilog2_bounds(2) [of y] by (intro ilog2_le) auto

lemma round_half_even_int [simp]: "round_half_even (of_int n) = n"
  by (simp add: round_half_even_def)

lemma round_half_even_bounds: "floor x \<le> round_half_even x" "round_half_even x \<le> floor x + 1"
  by (simp_all add: round_half_even_def Let_def)

lemma round_half_even_mono: "x \<le> y \<Longrightarrow> round_half_even x \<le> round_half_even y"
proof (cases "floor x = floor y")
  case True
  assume "x \<le> y"
  with True show ?thesis by (auto simp: round_half_even_def Let_def)
next
  case False
  assume "x \<le> y"
  with False have "floor x + 1 \<le> floor y" using floor_mono by force
  then show ?thesis using round_half_even_bounds(2) [of x] round_half_even_bounds(1) [of y] by linarith
qed

lemma round_half_even_le: "x \<le> of_int n \<Longrightarrow> round_half_even x \<le> n"
  using round_half_even_mono [of x "of_int n"] by simp

lemma round_half_even_ge: "of_int n \<le> x \<Longrightarrow> n \<le> round_half_even x"
  using round_half_even_mono [of "of_int n" x] by simp

lemma f64_round_nonneg: "0 \<le> x \<Longrightarrow> 0 \<le> f64_round x"
  using round_half_even_ge [of 0] by (simp add: f64_round_def Let_def)

lemma powi_of_int: "0 \<le> k \<Longrightarrow> (2 :: rat) powi k = of_int (2 ^ nat k)"
  by (simp add: power_int_def)

text \<open>Rounding is monotone, also across a change of exponent.\<close>

lemma f64_round_mono:
  assumes "0 \<le> x" "x \<le> y"
  shows "f64_round x \<le> f64_round y"
proof (cases "x = 0")
  case True
  then show ?thesis using assms f64_round_nonneg [of y] by (simp add: f64_round_def [of 0])
next
  case False
  define ex ey where "ex = max (ilog2 x - 52) (- 1074)" and "ey = max (ilog2 y - 52) (- 1074)"
  have pos: "0 < x" "0 < y" using assms False by auto
  have fx: "f64_round x = of_int (round_half_even (x / 2 powi ex)) * 2 powi ex"
    and fy: "f64_round y = of_int (round_half_even (y / 2 powi ey)) * 2 powi ey"
    using pos by (simp_all add: f64_round_def Let_def ex_def ey_def)
  have "ex \<le> ey" using ilog2_mono [OF pos(1) assms(2)] by (simp add: ex_def ey_def)
  then consider "ex = ey" | "ex < ey" by linarith
  then show ?thesis
  proof cases
    case 1
    then have "round_half_even (x / 2 powi ex) \<le> round_half_even (y / 2 powi ey)"
      using assms by (intro round_half_even_mono) (simp add: divide_right_mono)
    with 1 show ?thesis by (simp add: fx fy mult_right_mono)
  next
    case 2
    then have ey: "ey = ilog2 y - 52" and le: "ilog2 x + 1 \<le> ilog2 y" and k: "0 \<le> ilog2 y - ex"
      by (auto simp: ex_def ey_def max_def split: if_splits)
    have "x \<le> 2 powi ilog2 y"
      using ilog2_bounds(2) [OF pos(1)] power_int_increasing [OF le, of "2 :: rat"] by simp
    then have "x / 2 powi ex \<le> 2 powi (ilog2 y - ex)"
      by (simp add: power_int_diff divide_right_mono)
    then have "round_half_even (x / 2 powi ex) \<le> 2 ^ nat (ilog2 y - ex)"
      using k by (intro round_half_even_le) (simp add: powi_of_int)
    then have "of_int (round_half_even (x / 2 powi ex)) \<le> (2 :: rat) powi (ilog2 y - ex)"
      unfolding powi_of_int [OF k] by (simp only: of_int_le_iff)
    then have up: "f64_round x \<le> 2 powi ilog2 y" by (simp add: fx power_int_diff pos_le_divide_eq)
    have "of_int (2 ^ 52) \<le> y / 2 powi ey"
      using ilog2_bounds(1) [OF pos(2)] by (simp add: ey power_int_diff field_simps)
    then have "(2 ^ 52 :: rat) \<le> of_int (round_half_even (y / 2 powi ey))"
      using round_half_even_ge [of "2 ^ 52" "y / 2 powi ey"] by (metis of_int_le_iff of_int_numeral of_int_power)
    then have "2 ^ 52 * 2 powi ey \<le> f64_round y" by (simp add: fy mult_right_mono)
    moreover have "2 ^ 52 * 2 powi ey = (2 :: rat) powi ilog2 y" by (simp add: ey power_int_diff)
    ultimately show ?thesis using up by simp
  qed
qed

lemma f64_round_nat:
  assumes "n < 2 ^ 53"
  shows "f64_round (of_nat n) = of_nat n"
proof (cases "n = 0")
  case True
  then show ?thesis by (simp add: f64_round_def)
next
  case False
  define e where "e = max (ilog2 (of_nat n) - 52) (- 1074)"
  have "(of_nat n :: rat) < of_nat (2 ^ 53)" using assms by (simp only: of_nat_less_iff)
  then have "(of_nat n :: rat) < 2 powi (52 + 1)" by (simp add: power_int_def)
  then have e: "e \<le> 0" using False ilog2_le [of "of_nat n" 52] by (simp add: e_def)
  have "of_nat n / 2 powi e = (of_int (int n * 2 ^ nat (- e)) :: rat)"
    using e powi_of_int [of "- e"] by (simp add: power_int_minus divide_inverse)
  then have "round_half_even (of_nat n / 2 powi e) = int n * 2 ^ nat (- e)" by (simp only: round_half_even_int)
  moreover have "(2 :: rat) ^ nat (- e) * 2 powi e = 1"
  proof -
    have "(2 :: rat) ^ nat (- e) = inverse (2 powi e)"
      using e powi_of_int [of "- e"] by (simp add: power_int_minus)
    then show ?thesis by simp
  qed
  ultimately show ?thesis using False by (simp add: f64_round_def Let_def e_def [symmetric])
qed

lemma f64_round_le_nat: "0 \<le> x \<Longrightarrow> x \<le> of_nat n \<Longrightarrow> n < 2 ^ 53 \<Longrightarrow> f64_round x \<le> of_nat n"
  using f64_round_mono [of x "of_nat n"] by (simp add: f64_round_nat)

text \<open>Error bounds: relative for normal numbers, absolute below a ceiling.\<close>

definition tiny :: rat where
  "tiny = 1 / 2 ^ 100"

definition ulp :: rat where
  "ulp = 1 / 2 ^ 52"

lemma tiny_pos [simp]: "0 < tiny"
  by (simp add: tiny_def)

lemma ulp_pos [simp]: "0 < ulp" "0 \<le> ulp"
  by (simp_all add: ulp_def)

lemma f64_round_upper: "0 < x \<Longrightarrow> f64_round x \<le> x + 2 powi (max (ilog2 x - 52) (- 1074)) / 2"
proof -
  assume "0 < x"
  define e where "e = max (ilog2 x - 52) (- 1074)"
  have half: "of_int (round_half_even z) \<le> z + 1 / 2" for z :: rat
    by (simp add: round_half_even_def Let_def) linarith
  have "of_int (round_half_even (x / 2 powi e)) * 2 powi e \<le> (x / 2 powi e + 1 / 2) * 2 powi e"
    by (rule mult_right_mono [OF half]) simp
  also have "\<dots> = x + 2 powi e / 2" by (simp add: field_simps)
  finally show ?thesis using \<open>0 < x\<close> by (simp add: f64_round_def Let_def e_def [symmetric])
qed

lemma ilog2_tiny: "tiny \<le> x \<Longrightarrow> - 100 \<le> ilog2 x"
proof (rule ccontr)
  assume x: "tiny \<le> x" and n: "\<not> - 100 \<le> ilog2 x"
  have "0 < x" using x tiny_pos by linarith
  then have "x < 2 powi (ilog2 x + 1)" by (rule ilog2_bounds)
  also have "\<dots> \<le> 2 powi (- 100)" using n by (intro power_int_increasing) auto
  also have "\<dots> = tiny" by (simp add: tiny_def power_int_def power_one_over)
  finally show False using x by simp
qed

lemma powi_ulp: "2 powi (k - 52) = 2 powi k * ulp"
  by (simp add: power_int_diff ulp_def)

lemma f64_round_rel: "x = 0 \<or> tiny \<le> x \<Longrightarrow> f64_round x \<le> x * (1 + ulp)"
proof (cases "x = 0")
  case False
  assume "x = 0 \<or> tiny \<le> x"
  with False have x: "tiny \<le> x" by simp
  then have pos: "0 < x" using tiny_pos by linarith
  have "f64_round x \<le> x + 2 powi ilog2 x * ulp / 2"
    using f64_round_upper [OF pos] ilog2_tiny [OF x] by (simp add: max_def powi_ulp)
  also have "\<dots> \<le> x + x * ulp"
    using ilog2_bounds(1) [OF pos] pos mult_right_mono [of "2 powi ilog2 x" x ulp] by (simp add: field_simps)
  finally show ?thesis by (simp add: distrib_left)
qed (simp add: f64_round_def)

lemma f64_round_abs:
  assumes "0 \<le> x" "x \<le> c" "1 \<le> c"
  shows "f64_round x \<le> x + c * ulp"
proof (cases "tiny \<le> x")
  case True
  then have "f64_round x \<le> x * (1 + ulp)" by (simp add: f64_round_rel)
  also have "\<dots> \<le> x + c * ulp" using assms by (simp add: distrib_left mult_right_mono)
  finally show ?thesis .
next
  case False
  then have "f64_round x \<le> f64_round tiny" using assms by (intro f64_round_mono) auto
  also have "\<dots> \<le> tiny * (1 + ulp)" by (rule f64_round_rel) simp
  also have "\<dots> \<le> ulp" by (simp add: tiny_def ulp_def)
  also have "ulp \<le> x + c * ulp"
  proof -
    have "1 * ulp \<le> c * ulp" using assms(3) by (rule mult_right_mono) simp
    with assms(1) show ?thesis by linarith
  qed
  finally show ?thesis .
qed

lemma f64_round_lower: "tiny \<le> x \<Longrightarrow> x / 2 \<le> f64_round x"
proof -
  assume x: "tiny \<le> x"
  then have pos: "0 < x" using tiny_pos by linarith
  define e where "e = ilog2 x - 52"
  have "of_int (2 ^ 52) \<le> x / 2 powi e"
    using ilog2_bounds(1) [OF pos] by (simp add: e_def power_int_diff field_simps)
  then have "(2 ^ 52 :: rat) \<le> of_int (round_half_even (x / 2 powi e))"
    using round_half_even_ge [of "2 ^ 52" "x / 2 powi e"] by (metis of_int_le_iff of_int_numeral of_int_power)
  then have "2 ^ 52 * 2 powi e \<le> f64_round x"
    using ilog2_tiny [OF x] pos
    by (simp add: f64_round_def Let_def max_def e_def [symmetric] mult_right_mono) (simp add: e_def)
  moreover have "2 ^ 52 * 2 powi e = (2 :: rat) powi ilog2 x" by (simp add: e_def power_int_diff)
  moreover have "x / 2 \<le> 2 powi ilog2 x" using ilog2_bounds(2) [OF pos] by (simp add: power_int_add)
  ultimately show ?thesis by simp
qed

section \<open>The bucket\<close>

record bucket =
  bk_tokens :: rat
  bk_updated :: instant
  bk_last_used :: instant

definition f64_from :: "32 word \<Rightarrow> rat" where
  "f64_from w = of_nat (unat w)"

definition bucket_new :: "32 word \<Rightarrow> instant \<Rightarrow> bucket" where
  "bucket_new burst now = \<lparr>bk_tokens = f64_from burst, bk_updated = now, bk_last_used = now\<rparr>"

text \<open>\<open>Duration::as_secs_f64\<close>\<close>

definition as_secs_f64 :: "duration \<Rightarrow> rat" where
  "as_secs_f64 d =
     f64_round (f64_round (of_nat (d div 10 ^ 9)) + f64_round (of_nat (d mod 10 ^ 9) / 10 ^ 9))"

definition rate_per_second :: "32 word \<Rightarrow> rat" where
  "rate_per_second rate_per_minute = f64_round (f64_from (max rate_per_minute 1) / 60)"

definition refill :: "32 word \<Rightarrow> 32 word \<Rightarrow> instant \<Rightarrow> bucket \<Rightarrow> rat" where
  "refill rate_per_minute burst now b =
     min (f64_round (bk_tokens b
            + f64_round (as_secs_f64 (now - bk_updated b) * rate_per_second rate_per_minute)))
         (f64_from (max burst 1))"

definition bucket_take ::
  "32 word \<Rightarrow> 32 word \<Rightarrow> instant \<Rightarrow> bucket \<Rightarrow> (nat + unit) \<times> bucket" where
  "bucket_take rate_per_minute burst now b =
     (let tokens = refill rate_per_minute burst now b in
      if 1 \<le> tokens then
        (Inr (), \<lparr>bk_tokens = f64_round (tokens - 1), bk_updated = now, bk_last_used = now\<rparr>)
      else
        let wait = f64_round (f64_round (1 - tokens) / rate_per_second rate_per_minute) in
        (Inl (nat (max (ceiling wait) 1)), \<lparr>bk_tokens = tokens, bk_updated = now, bk_last_used = now\<rparr>))"

definition bucket_cap :: "32 word \<Rightarrow> rat" where
  "bucket_cap burst = f64_from (max burst 1)"

definition bucket_ok :: "32 word \<Rightarrow> bucket \<Rightarrow> bool" where
  "bucket_ok burst b \<longleftrightarrow> 0 \<le> bk_tokens b \<and> bk_tokens b \<le> bucket_cap burst"

lemma bucket_cap_ge_1: "1 \<le> bucket_cap burst"
proof -
  have "1 \<le> unat (max burst 1)" by (simp add: max_def word_le_nat_alt split: if_splits)
  then have "(of_nat 1 :: rat) \<le> of_nat (unat (max burst 1))" by (simp only: of_nat_le_iff)
  then show ?thesis by (simp add: bucket_cap_def f64_from_def)
qed

lemma f64_from_le_cap: "f64_from burst \<le> bucket_cap burst"
proof -
  have "unat burst \<le> unat (max burst 1)" by (simp add: max_def word_le_nat_alt)
  then show ?thesis unfolding f64_from_def bucket_cap_def by (simp only: of_nat_le_iff)
qed

lemma f64_from_nonneg: "0 \<le> f64_from w"
  unfolding f64_from_def by (rule of_nat_0_le_iff)

lemma f64_from_bound: "unat (w :: 32 word) < 2 ^ 53"
  using unsigned_less [where 'a = nat and w = w] by simp

lemma bucket_new_ok: "bucket_ok burst (bucket_new burst now)"
  using f64_from_le_cap [of burst] by (simp add: bucket_ok_def bucket_new_def f64_from_nonneg)

lemma as_secs_nonneg: "0 \<le> as_secs_f64 d"
  unfolding as_secs_f64_def by (intro f64_round_nonneg add_nonneg_nonneg) simp_all

lemma rate_pos: "1 / 120 \<le> rate_per_second r"
proof -
  have "1 / 60 \<le> bucket_cap r / 60" using bucket_cap_ge_1 [of r] by simp
  moreover have "(bucket_cap r / 60) / 2 \<le> rate_per_second r"
    unfolding rate_per_second_def bucket_cap_def [symmetric]
    using bucket_cap_ge_1 [of r] by (intro f64_round_lower) (simp add: tiny_def)
  ultimately show ?thesis by simp
qed

lemma refill_nonneg: "bucket_ok burst b \<Longrightarrow> 0 \<le> refill r burst now b"
  unfolding refill_def bucket_ok_def
  using bucket_cap_ge_1 [of burst] as_secs_nonneg [of "now - bk_updated b"] rate_pos [of r]
  by (auto simp: bucket_cap_def [symmetric] intro!: f64_round_nonneg add_nonneg_nonneg mult_nonneg_nonneg)

lemma refill_le_cap: "refill r burst now b \<le> bucket_cap burst"
  by (simp add: refill_def bucket_cap_def)

lemma take_ok:
  assumes "bucket_ok burst b"
  shows "bucket_ok burst (snd (bucket_take r burst now b))"
proof -
  have "f64_round (refill r burst now b - 1) \<le> bucket_cap burst" if "1 \<le> refill r burst now b"
    using that f64_round_le_nat [of "refill r burst now b - 1" "unat (max burst 1)"] f64_from_bound [of "max burst 1"]
      refill_le_cap [of r burst now b] by (simp add: bucket_cap_def f64_from_def)
  then show ?thesis
    using refill_nonneg [OF assms, of r now] refill_le_cap [of r burst now b]
    by (auto simp: bucket_ok_def bucket_take_def Let_def f64_round_nonneg)
qed

text \<open>How much one refill adds, and what one call costs.\<close>

lemma as_secs_large: "d \<noteq> 0 \<Longrightarrow> 1 / 10 ^ 10 \<le> as_secs_f64 d"
proof -
  assume "d \<noteq> 0"
  define s n :: rat where "s = of_nat (d div 10 ^ 9)" and "n = of_nat (d mod 10 ^ 9) / 10 ^ 9"
  have nn: "0 \<le> f64_round s" "0 \<le> f64_round n" by (simp_all add: s_def n_def f64_round_nonneg)
  have big: "c / 2 \<le> f64_round x" if "tiny \<le> c" "c \<le> x" for c x
    using f64_round_lower [of x] that by linarith
  consider "d div 10 ^ 9 \<noteq> 0" | "d mod 10 ^ 9 \<noteq> 0"
    using \<open>d \<noteq> 0\<close> div_mult_mod_eq [of d "10 ^ 9"] by force
  then have "1 / (4 * 10 ^ 9) \<le> (f64_round s + f64_round n) / 2"
  proof cases
    case 1
    then have "1 \<le> s" by (simp add: s_def)
    with nn big [of 1 s] show ?thesis by (simp add: tiny_def)
  next
    case 2
    then have "1 / 10 ^ 9 \<le> n" by (simp add: n_def)
    with nn big [of "1 / 10 ^ 9" n] show ?thesis by (simp add: tiny_def)
  qed
  moreover from this have "tiny \<le> f64_round s + f64_round n" by (simp add: tiny_def)
  then have "(f64_round s + f64_round n) / 2 \<le> as_secs_f64 d"
    unfolding as_secs_f64_def s_def [symmetric] n_def [symmetric] by (rule f64_round_lower)
  ultimately show ?thesis by simp
qed

lemma as_secs_upper: "as_secs_f64 d \<le> of_nat d / 10 ^ 9 * (1 + ulp) ^ 2"
proof -
  define s n :: rat where "s = of_nat (d div 10 ^ 9)" and "n = of_nat (d mod 10 ^ 9) / 10 ^ 9"
  have "of_nat (a * b + c) / of_nat b = (of_nat a + of_nat c / of_nat b :: rat)" if "b \<noteq> 0" for a b c
    using that by (simp add: add_divide_distrib)
  from this [of "10 ^ 9" "d div 10 ^ 9" "d mod 10 ^ 9"]
  have d: "s + n = of_nat d / 10 ^ 9" by (simp only: s_def n_def div_mult_mod_eq) simp
  have s: "s = 0 \<or> 1 \<le> s" by (auto simp: s_def)
  have n: "n = 0 \<or> 1 / 10 ^ 9 \<le> n" by (cases "d mod 10 ^ 9 = 0") (auto simp: n_def)
  have ok: "c = 0 \<or> tiny \<le> c" if "c = 0 \<or> 1 / 10 ^ 9 \<le> c" for c
    using that by (auto simp: tiny_def)
  have "f64_round s + f64_round n = 0 \<or> tiny \<le> f64_round s + f64_round n"
  proof (cases "d = 0")
    case True
    then show ?thesis by (simp add: s_def n_def f64_round_def)
  next
    case False
    have nn: "0 \<le> f64_round s" "0 \<le> f64_round n" by (simp_all add: s_def n_def f64_round_nonneg)
    have half: "tiny \<le> f64_round x" if "2 * tiny \<le> x" for x
      using f64_round_lower [of x] that tiny_pos by linarith
    have "2 * tiny \<le> s \<or> 2 * tiny \<le> n"
      using s n False d by (auto simp: tiny_def)
    with half nn show ?thesis by force
  qed
  then have "as_secs_f64 d \<le> (f64_round s + f64_round n) * (1 + ulp)"
    unfolding as_secs_f64_def s_def [symmetric] n_def [symmetric] by (rule f64_round_rel)
  also have "\<dots> \<le> (s * (1 + ulp) + n * (1 + ulp)) * (1 + ulp)"
    using s n by (intro mult_right_mono add_mono f64_round_rel ok) auto
  also have "\<dots> = of_nat d / 10 ^ 9 * (1 + ulp) ^ 2" unfolding d [symmetric] by (simp add: power2_eq_square algebra_simps)
  finally show ?thesis .
qed

definition refill_bound :: "32 word \<Rightarrow> duration \<Rightarrow> rat" where
  "refill_bound r d = of_nat d / 10 ^ 9 * (f64_from (max r 1) / 60) * (1 + ulp) ^ 4"

lemma refill_inc: "f64_round (as_secs_f64 d * rate_per_second r) \<le> refill_bound r d"
proof -
  have rate: "rate_per_second r \<le> f64_from (max r 1) / 60 * (1 + ulp)"
    unfolding rate_per_second_def bucket_cap_def [symmetric]
    using bucket_cap_ge_1 [of r] by (intro f64_round_rel) (simp add: tiny_def)
  have "as_secs_f64 d * rate_per_second r = 0 \<or> tiny \<le> as_secs_f64 d * rate_per_second r"
  proof (cases "d = 0")
    case False
    have "1 / 10 ^ 10 * (1 / 120) \<le> as_secs_f64 d * rate_per_second r"
      using as_secs_large [OF False] rate_pos [of r] by (intro mult_mono) auto
    then show ?thesis by (simp add: tiny_def)
  qed (simp add: as_secs_f64_def f64_round_def)
  then have "f64_round (as_secs_f64 d * rate_per_second r)
      \<le> as_secs_f64 d * rate_per_second r * (1 + ulp)" by (rule f64_round_rel)
  also have "\<dots> \<le> (of_nat d / 10 ^ 9 * (1 + ulp) ^ 2) * (f64_from (max r 1) / 60 * (1 + ulp)) * (1 + ulp)"
    using as_secs_upper [of d] rate as_secs_nonneg [of d] rate_pos [of r]
    by (intro mult_right_mono mult_mono) (auto simp: zero_le_mult_iff)
  also have "\<dots> = refill_bound r d"
    by (simp add: refill_bound_def power2_eq_square eval_nat_numeral algebra_simps)
  finally show ?thesis .
qed

lemma refill_gain:
  assumes "bucket_ok burst b"
  shows "refill r burst now b \<le> bk_tokens b + refill_bound r (now - bk_updated b) + bucket_cap burst * ulp"
proof -
  define x where "x = bk_tokens b + f64_round (as_secs_f64 (now - bk_updated b) * rate_per_second r)"
  have x: "x \<le> bk_tokens b + refill_bound r (now - bk_updated b)" using refill_inc by (simp add: x_def)
  have nn: "0 \<le> x" using assms as_secs_nonneg rate_pos [of r]
    by (auto simp: x_def bucket_ok_def intro!: add_nonneg_nonneg f64_round_nonneg mult_nonneg_nonneg)
  have ref: "refill r burst now b = min (f64_round x) (bucket_cap burst)"
    by (simp add: refill_def x_def bucket_cap_def)
  show ?thesis
  proof (cases "x \<le> bucket_cap burst")
    case True
    with nn have "f64_round x \<le> x + bucket_cap burst * ulp"
      by (intro f64_round_abs bucket_cap_ge_1)
    with ref x show ?thesis by simp
  next
    case False
    have "0 \<le> bucket_cap burst * ulp" using bucket_cap_ge_1 [of burst] by simp
    with False ref x show ?thesis by simp
  qed
qed

lemma take_cost:
  assumes "bucket_ok burst b" "bucket_take r burst now b = (res, b')"
  shows "bk_tokens b' + (if res = Inr () then 1 else 0)
     \<le> bk_tokens b + refill_bound r (now - bk_updated b) + 2 * bucket_cap burst * ulp"
proof -
  define t where "t = refill r burst now b"
  have t: "t \<le> bk_tokens b + refill_bound r (now - bk_updated b) + bucket_cap burst * ulp"
    unfolding t_def by (rule refill_gain [OF assms(1)])
  have cap: "0 \<le> bucket_cap burst * ulp" using bucket_cap_ge_1 [of burst] by simp
  show ?thesis
  proof (cases "1 \<le> t")
    case True
    then have "f64_round (t - 1) \<le> t - 1 + bucket_cap burst * ulp"
      using refill_le_cap [of r burst now b] by (intro f64_round_abs bucket_cap_ge_1) (auto simp: t_def)
    moreover have "res = Inr ()" "bk_tokens b' = f64_round (t - 1)"
      using True assms(2) by (auto simp: bucket_take_def Let_def t_def)
    ultimately show ?thesis using t by (simp only: simp_thms if_True)
  next
    case False
    then have "res \<noteq> Inr ()" "bk_tokens b' = t" using assms(2) by (auto simp: bucket_take_def Let_def t_def)
    with t cap show ?thesis by simp
  qed
qed

section \<open>The rate limit\<close>

text \<open>Calls in the order the lock serialises them, each with the time it read; the grants counted.\<close>

fun bucket_run :: "32 word \<Rightarrow> 32 word \<Rightarrow> instant list \<Rightarrow> bucket \<Rightarrow> nat \<times> bucket" where
  "bucket_run r burst [] b = (0, b)"
| "bucket_run r burst (now # ts) b =
     (case bucket_take r burst now b of (res, b') \<Rightarrow>
        case bucket_run r burst ts b' of (n, b'') \<Rightarrow>
          ((if res = Inr () then Suc n else n), b''))"

lemma take_updated: "bucket_take r burst now b = (res, b') \<Longrightarrow> bk_updated b' = now"
  by (auto simp: bucket_take_def Let_def split: if_splits)

lemma refill_bound_add: "refill_bound r (c + d) = refill_bound r c + refill_bound r d"
  by (simp add: refill_bound_def algebra_simps add_divide_distrib)

text \<open>
  The callers read the clock before they take the lock, so a call may come later than one with a later
  time; it then sets the bucket's clock back.  \<open>rewound\<close> is the sum of these backward steps.
\<close>

fun rewound :: "instant list \<Rightarrow> duration" where
  "rewound (s # t # ts) = (s - t) + rewound (t # ts)"
| "rewound _ = 0"

lemma rewound_sorted: "sorted ts \<Longrightarrow> rewound ts = 0"
  by (induction ts rule: rewound.induct) auto

lemma start_le_rewound: "s \<le> last (s # ts) + rewound (s # ts)"
proof (induction ts arbitrary: s)
  case (Cons t ts)
  have "last (s # t # ts) + rewound (s # t # ts) = last (t # ts) + rewound (t # ts) + (s - t)" by simp
  with Cons.IH [of t] show ?case by linarith
qed simp

lemma run_cost:
  assumes "bucket_ok burst b"
  shows "of_nat (fst (bucket_run r burst ts b)) \<le>
    bk_tokens b + refill_bound r (last (bk_updated b # ts) + rewound (bk_updated b # ts) - bk_updated b)
      + of_nat (length ts) * (2 * bucket_cap burst * ulp)"
  using assms
proof (induction ts arbitrary: b)
  case Nil
  then show ?case by (simp add: bucket_ok_def refill_bound_def)
next
  case (Cons now ts)
  let ?stop = "last (now # ts) + rewound (now # ts)"
  obtain res b' where tk: "bucket_take r burst now b = (res, b')" by force
  have up: "bk_updated b' = now" using take_updated [OF tk] .
  have ok': "bucket_ok burst b'" using take_ok [OF Cons.prems, of r now] tk by simp
  have split: "last (bk_updated b # now # ts) + rewound (bk_updated b # now # ts) - bk_updated b
      = (now - bk_updated b) + (?stop - now)"
    using start_le_rewound [of now ts] by simp
  have "of_nat (fst (bucket_run r burst (now # ts) b))
      = (if res = Inr () then 1 else 0) + (of_nat (fst (bucket_run r burst ts b')) :: rat)"
    by (simp add: tk split: prod.splits)
  also have "\<dots> \<le> (if res = Inr () then 1 else 0) + (bk_tokens b' + refill_bound r (?stop - now)
      + of_nat (length ts) * (2 * bucket_cap burst * ulp))"
    using Cons.IH [OF ok'] by (simp only: up add_left_mono)
  also have "\<dots> \<le> bk_tokens b + refill_bound r (now - bk_updated b) + 2 * bucket_cap burst * ulp
      + refill_bound r (?stop - now) + of_nat (length ts) * (2 * bucket_cap burst * ulp)"
    using take_cost [OF Cons.prems tk] by linarith
  also have "\<dots> = bk_tokens b
      + refill_bound r (last (bk_updated b # now # ts) + rewound (bk_updated b # now # ts) - bk_updated b)
      + of_nat (length (now # ts)) * (2 * bucket_cap burst * ulp)"
    unfolding split by (simp add: refill_bound_add algebra_simps)
  finally show ?case .
qed

text \<open>One token per second, and a call that read the clock at 0 but gets the lock after one at 1 s.\<close>

lemma second_refilled_twice: "fst (bucket_run 60 1 [0, 10 ^ 9, 0, 10 ^ 9] (bucket_new 1 0)) = 3"
proof -
  have r [simp]: "f64_round 1 = 1" "f64_round 0 = 0"
    using f64_round_nat [of 1] by (simp_all add: f64_round_def [of 0])
  have secs: "as_secs_f64 (10 ^ 9) = 1" "as_secs_f64 0 = 0" by (simp_all add: as_secs_f64_def)
  have rate: "rate_per_second 60 = 1" by (simp add: rate_per_second_def f64_from_def max_def word_le_nat_alt)
  have "bucket_take 60 1 0 \<lparr>bk_tokens = 1, bk_updated = 0, bk_last_used = 0\<rparr>
      = (Inr (), \<lparr>bk_tokens = 0, bk_updated = 0, bk_last_used = 0\<rparr>)"
    "bucket_take 60 1 (10 ^ 9) \<lparr>bk_tokens = 0, bk_updated = 0, bk_last_used = 0\<rparr>
      = (Inr (), \<lparr>bk_tokens = 0, bk_updated = 10 ^ 9, bk_last_used = 10 ^ 9\<rparr>)"
    "\<exists>n. bucket_take 60 1 0 \<lparr>bk_tokens = 0, bk_updated = 10 ^ 9, bk_last_used = 10 ^ 9\<rparr>
      = (Inl n, \<lparr>bk_tokens = 0, bk_updated = 0, bk_last_used = 0\<rparr>)"
    using secs by (simp_all add: bucket_take_def refill_def rate Let_def f64_from_def)
  then show ?thesis by (auto simp: bucket_new_def f64_from_def)
qed

text \<open>
  C34: A token bucket keeps its rate in double arithmetic.  Over any sequence of calls, in the order
  of the lock, a fresh bucket grants at most the burst plus the configured rate times the time between
  the first and the last call and the time by which late calls have set the bucket's clock back, up to
  the accumulated rounding: a factor (1 + 2^-52)^4 on the refill and 2^-51 of the capacity per call.
  For calls at non-decreasing times nothing is set back.  The callers do not ensure such times, and the
  excess is real: with one token per second and a burst of one, three calls are granted within a second.
\<close>

theorem bucket_rate_limit:
  "of_nat (fst (bucket_run rate burst ts (bucket_new burst start)))
    \<le> of_nat (unat burst)
      + of_nat (last (start # ts) + rewound (start # ts) - start) / 10 ^ 9 * (of_nat (max (unat rate) 1) / 60) * (1 + 1 / 2 ^ 52) ^ 4
      + of_nat (length ts) * (of_nat (max (unat burst) 1) / 2 ^ 51 :: rat)
   \<and> (sorted (start # ts) \<longrightarrow> rewound (start # ts) = 0)
   \<and> fst (bucket_run 60 1 [0, 10 ^ 9, 0, 10 ^ 9] (bucket_new 1 0)) = 3"
proof (intro conjI impI)
  have m: "unat (max w 1) = max (unat w) 1" for w :: "32 word"
    by (simp add: max_def word_le_nat_alt)
  have "of_nat (fst (bucket_run rate burst ts (bucket_new burst start)))
      \<le> f64_from burst + refill_bound rate (last (start # ts) + rewound (start # ts) - start)
        + of_nat (length ts) * (2 * bucket_cap burst * ulp)"
    using run_cost [OF bucket_new_ok [of burst start], where r = rate and ts = ts] by (simp only: bucket_new_def bucket.simps)
  moreover have "2 * bucket_cap burst * ulp = of_nat (max (unat burst) 1) / 2 ^ 51"
    unfolding bucket_cap_def f64_from_def m by (simp add: ulp_def)
  moreover have "refill_bound rate d
      = of_nat d / 10 ^ 9 * (of_nat (max (unat rate) 1) / 60) * (1 + 1 / 2 ^ 52) ^ 4" for d
    unfolding refill_bound_def f64_from_def m ulp_def by simp
  ultimately show "of_nat (fst (bucket_run rate burst ts (bucket_new burst start)))
    \<le> of_nat (unat burst)
      + of_nat (last (start # ts) + rewound (start # ts) - start) / 10 ^ 9 * (of_nat (max (unat rate) 1) / 60) * (1 + 1 / 2 ^ 52) ^ 4
      + of_nat (length ts) * (of_nat (max (unat burst) 1) / 2 ^ 51 :: rat)"
    unfolding f64_from_def by metis
qed (rule rewound_sorted second_refilled_twice; assumption?)+

theorem bucket_rate_limit_witness:
  "of_nat (fst (bucket_run 60 2 [5, 3, 10] (bucket_new 2 0)))
    \<le> of_nat (unat (2 :: 32 word))
      + of_nat (10 + 2 - 0) / 10 ^ 9 * (of_nat (max (unat (60 :: 32 word)) 1) / 60) * (1 + 1 / 2 ^ 52) ^ 4
      + of_nat (length [5 :: nat, 3, 10]) * (of_nat (max (unat (2 :: 32 word)) 1) / 2 ^ 51 :: rat)
   \<and> rewound [0, 5, 10] = 0"
proof -
  have "rewound [0, 5, 3, 10] = 2" "sorted [0 :: nat, 5, 10]" by simp_all
  then show ?thesis
    using bucket_rate_limit [of 60 2 "[5, 3, 10]" 0] bucket_rate_limit [of 60 2 "[5, 10]" 0] by simp
qed

lemma take_grants_nat:
  assumes "bucket_ok burst b" "of_nat (Suc n) \<le> bk_tokens b" "n < unat burst"
  shows "\<exists>b'. bucket_take r burst now b = (Inr (), b') \<and> of_nat n \<le> bk_tokens b'"
proof -
  define x where "x = bk_tokens b + f64_round (as_secs_f64 (now - bk_updated b) * rate_per_second r)"
  have small: "Suc n < 2 ^ 53" using assms(3) f64_from_bound [of burst] by simp
  have "0 \<le> f64_round (as_secs_f64 (now - bk_updated b) * rate_per_second r)"
    using as_secs_nonneg rate_pos [of r] by (auto intro!: f64_round_nonneg mult_nonneg_nonneg)
  then have "of_nat (Suc n) \<le> x" using assms(2) unfolding x_def by linarith
  then have "f64_round (of_nat (Suc n)) \<le> f64_round x" by (intro f64_round_mono of_nat_0_le_iff)
  then have "of_nat (Suc n) \<le> f64_round x" unfolding f64_round_nat [OF small] .
  moreover have "of_nat (Suc n) \<le> bucket_cap burst" using assms(1,2) by (simp add: bucket_ok_def)
  ultimately have t: "of_nat (Suc n) \<le> refill r burst now b"
    by (simp add: refill_def x_def bucket_cap_def)
  then have le: "of_nat n \<le> refill r burst now b - 1" by simp
  have "f64_round (of_nat n) \<le> f64_round (refill r burst now b - 1)"
    by (rule f64_round_mono [OF of_nat_0_le_iff le])
  moreover have "f64_round (of_nat n) = of_nat n" using small by (intro f64_round_nat) simp
  moreover have "1 \<le> refill r burst now b" using le of_nat_0_le_iff [of n] by linarith
  ultimately show ?thesis by (simp add: bucket_take_def Let_def)
qed

lemma run_grants_nat:
  assumes "bucket_ok burst b" "of_nat n \<le> bk_tokens b" "n \<le> unat burst"
  shows "min (length ts) n \<le> fst (bucket_run r burst ts b)"
  using assms
proof (induction ts arbitrary: b n)
  case (Cons now ts)
  show ?case
  proof (cases n)
    case (Suc m)
    with take_grants_nat [OF Cons.prems(1), of m r now] Cons.prems obtain b' where
      tk: "bucket_take r burst now b = (Inr (), b')" and m: "of_nat m \<le> bk_tokens b'" by auto
    have "bucket_ok burst b'" using take_ok [OF Cons.prems(1), of r now] tk by simp
    then have "min (length ts) m \<le> fst (bucket_run r burst ts b')"
      using Cons.IH [of b' m] m Cons.prems(3) Suc by simp
    then show ?thesis by (cases "bucket_run r burst ts b'") (simp add: tk Suc)
  qed simp
qed simp

text \<open>
  The bucket is not stricter than configured: whatever the times of the calls, the first
  \<open>burst\<close> calls on a fresh bucket are all granted.
\<close>

theorem bucket_grants_burst:
  "min (length ts) (unat burst) \<le> fst (bucket_run rate burst ts (bucket_new burst start))"
  using run_grants_nat [OF bucket_new_ok, of "unat burst" burst start ts rate]
  by (simp add: bucket_new_def f64_from_def)

end
