(* ===== verification/Ingress_Guard.thy ===== *)
theory Ingress_Guard
  imports Ip_Addr Token_Bucket "HOL-Library.AList"
begin

text \<open>
  Public ingress protection (\<open>ingress_guard.rs\<close>, the limits in \<open>treer-protocol/network.rs\<close>): which
  address a request is accounted to, token buckets per client and per ingress, in-flight permits and
  rejection counters.  Networks (the \<open>ipnet\<close> crate) and header names (the \<open>http\<close> crate) are the
  parameter \<open>net_lib\<close>.  The counters and the in-flight gauge are 64-bit words.  Each operation runs
  under a mutex (releases are one atomic decrement) and is one step; the time an operation reads is
  its argument.
\<close>

unbundle bit_operations_syntax

section \<open>Limits\<close>

record service_ingress_limits =
  sil_rate_limit_per_minute :: "32 word option"
  sil_rate_burst :: "32 word option"
  sil_concurrency_limit :: "32 word option"
  sil_ip_rate_limit_per_minute :: "32 word option"
  sil_ip_rate_burst :: "32 word option"
  sil_max_body_bytes :: "64 word option"
  sil_response_timeout_secs :: "32 word option"
  sil_body_timeout_secs :: "32 word option"

record effective_ingress_limits =
  eil_rate_limit_per_minute :: "32 word"
  eil_rate_burst :: "32 word"
  eil_concurrency_limit :: "32 word"
  eil_ip_rate_limit_per_minute :: "32 word"
  eil_ip_rate_burst :: "32 word"
  eil_max_body_bytes :: "64 word"
  eil_response_timeout_secs :: "32 word"
  eil_body_timeout_secs :: "32 word"

definition default_limits :: effective_ingress_limits where
  "default_limits = \<lparr>eil_rate_limit_per_minute = 600, eil_rate_burst = 120, eil_concurrency_limit = 64,
     eil_ip_rate_limit_per_minute = 120, eil_ip_rate_burst = 30, eil_max_body_bytes = 1024 * 1024,
     eil_response_timeout_secs = 35, eil_body_timeout_secs = 60\<rparr>"

definition unwrap_or :: "'a option \<Rightarrow> 'a \<Rightarrow> 'a" where
  "unwrap_or v d = (case v of Some x \<Rightarrow> x | None \<Rightarrow> d)"

definition effective_limits :: "service_ingress_limits \<Rightarrow> effective_ingress_limits" where
  "effective_limits l =
     \<lparr>eil_rate_limit_per_minute = unwrap_or (sil_rate_limit_per_minute l) (eil_rate_limit_per_minute default_limits),
      eil_rate_burst = unwrap_or (sil_rate_burst l) (eil_rate_burst default_limits),
      eil_concurrency_limit = unwrap_or (sil_concurrency_limit l) (eil_concurrency_limit default_limits),
      eil_ip_rate_limit_per_minute =
        unwrap_or (sil_ip_rate_limit_per_minute l) (eil_ip_rate_limit_per_minute default_limits),
      eil_ip_rate_burst = unwrap_or (sil_ip_rate_burst l) (eil_ip_rate_burst default_limits),
      eil_max_body_bytes = unwrap_or (sil_max_body_bytes l) (eil_max_body_bytes default_limits),
      eil_response_timeout_secs =
        unwrap_or (sil_response_timeout_secs l) (eil_response_timeout_secs default_limits),
      eil_body_timeout_secs = unwrap_or (sil_body_timeout_secs l) (eil_body_timeout_secs default_limits)\<rparr>"

definition INGRESS_MAX_RATE_PER_MINUTE :: "32 word" where
  "INGRESS_MAX_RATE_PER_MINUTE = 60000"

definition INGRESS_MAX_CONCURRENCY :: "32 word" where
  "INGRESS_MAX_CONCURRENCY = 4096"

definition INGRESS_MAX_BODY_BYTES :: "64 word" where
  "INGRESS_MAX_BODY_BYTES = 64 * 1024 * 1024"

definition INGRESS_MIN_RESPONSE_TIMEOUT_SECS :: "32 word" where
  "INGRESS_MIN_RESPONSE_TIMEOUT_SECS = 5"

definition INGRESS_MAX_RESPONSE_TIMEOUT_SECS :: "32 word" where
  "INGRESS_MAX_RESPONSE_TIMEOUT_SECS = 600"

definition check_limit :: "'a :: {zero, ord} option \<times> 'a \<times> string \<Rightarrow> string + unit" where
  "check_limit e = (case e of (v, bound, name) \<Rightarrow>
     if is_some_and v (\<lambda>x. x = 0 \<or> bound < x) then Inl name else Inr ())"

definition check_timeout :: "32 word option \<Rightarrow> string \<Rightarrow> string + unit" where
  "check_timeout v name =
     (if is_some_and v (\<lambda>secs. \<not> (INGRESS_MIN_RESPONSE_TIMEOUT_SECS \<le> secs
           \<and> secs \<le> INGRESS_MAX_RESPONSE_TIMEOUT_SECS))
      then Inl name else Inr ())"

definition limits_validate :: "service_ingress_limits \<Rightarrow> string + unit" where
  "limits_validate l =
     and_then (try_all check_limit
       [(sil_rate_limit_per_minute l, INGRESS_MAX_RATE_PER_MINUTE, ''rate_limit_per_minute''),
        (sil_rate_burst l, INGRESS_MAX_RATE_PER_MINUTE, ''rate_burst''),
        (sil_concurrency_limit l, INGRESS_MAX_CONCURRENCY, ''concurrency_limit''),
        (sil_ip_rate_limit_per_minute l, INGRESS_MAX_RATE_PER_MINUTE, ''ip_rate_limit_per_minute''),
        (sil_ip_rate_burst l, INGRESS_MAX_RATE_PER_MINUTE, ''ip_rate_burst'')]) (\<lambda>_.
     and_then (check_limit (sil_max_body_bytes l, INGRESS_MAX_BODY_BYTES, ''max_body_bytes'')) (\<lambda>_.
     and_then (check_timeout (sil_response_timeout_secs l) ''response_timeout_secs'') (\<lambda>_.
       check_timeout (sil_body_timeout_secs l) ''body_timeout_secs'')))"

section \<open>Trusted fronts\<close>

record 'n net_lib =
  nl_parse :: "string \<Rightarrow> 'n option"
  nl_of_ip :: "ip_addr \<Rightarrow> 'n"
  nl_is_v4 :: "'n \<Rightarrow> bool"
  nl_prefix_len :: "'n \<Rightarrow> nat"
  nl_contains :: "'n \<Rightarrow> ip_addr \<Rightarrow> bool"
  nl_header_name :: "string \<Rightarrow> string option"

record 'n trusted_proxies =
  tp_ranges :: "'n list"
  tp_header :: "string option"

datatype 'n trusted_proxies_error =
  InvalidRange string | RangeTooWide 'n | InvalidHeader string | HeaderWithoutRanges

definition trusted_none :: "'n trusted_proxies" where
  "trusted_none = \<lparr>tp_ranges = [], tp_header = None\<rparr>"

fun parse_ranges ::
  "'n net_lib \<Rightarrow> bool \<Rightarrow> string list \<Rightarrow> 'n list \<Rightarrow> 'n trusted_proxies_error + 'n list" where
  "parse_ranges lib allow_wide [] parsed = Inr parsed"
| "parse_ranges lib allow_wide (t # ts) parsed =
     (let text = trim t in
      if text = [] then parse_ranges lib allow_wide ts parsed
      else
        (case (case nl_parse lib text of Some n \<Rightarrow> Some n
               | None \<Rightarrow> map_option (nl_of_ip lib) (parse_ip text)) of
           None \<Rightarrow> Inl (InvalidRange text)
         | Some net \<Rightarrow>
             let too_wide = (if nl_is_v4 lib net then nl_prefix_len lib net < 8
                             else nl_prefix_len lib net < 32) in
             if nl_prefix_len lib net = 0 \<or> too_wide \<and> \<not> allow_wide then Inl (RangeTooWide net)
             else parse_ranges lib allow_wide ts (parsed @ [net])))"

definition trusted_parse ::
  "'n net_lib \<Rightarrow> string list \<Rightarrow> string option \<Rightarrow> bool \<Rightarrow> 'n trusted_proxies_error + 'n trusted_proxies" where
  "trusted_parse lib ranges header allow_wide =
     and_then (parse_ranges lib allow_wide (concat (map (split_on CHR '','') ranges)) []) (\<lambda>parsed.
       case Option.bind header (\<lambda>h. if trim h \<noteq> [] then Some (trim h) else None) of
         None \<Rightarrow> Inr \<lparr>tp_ranges = parsed, tp_header = None\<rparr>
       | Some name \<Rightarrow>
           if parsed = [] then Inl HeaderWithoutRanges
           else (case nl_header_name lib (to_ascii_lowercase name) of
               None \<Rightarrow> Inl (InvalidHeader name)
             | Some h \<Rightarrow> Inr \<lparr>tp_ranges = parsed, tp_header = Some h\<rparr>))"

definition trusted_configured :: "'n trusted_proxies \<Rightarrow> bool" where
  "trusted_configured t \<longleftrightarrow> tp_ranges t \<noteq> []"

definition trusts :: "'n net_lib \<Rightarrow> 'n trusted_proxies \<Rightarrow> ip_addr \<Rightarrow> bool" where
  "trusts lib t a = list_ex (\<lambda>net. nl_contains lib net (normalize_ip a)) (tp_ranges t)"

datatype client_ip_source = Peer | TrustedHeader | Fallback

record client_ip_info =
  ci_address :: ip_addr
  ci_source :: client_ip_source

definition trim_matches :: "(char \<Rightarrow> bool) \<Rightarrow> string \<Rightarrow> string" where
  "trim_matches P s = rev (dropWhile P (rev (dropWhile P s)))"

definition parse_forwarded_ip :: "string \<Rightarrow> ip_addr option" where
  "parse_forwarded_ip s =
     (if 64 < length s then None
      else
        let text = trim_matches (\<lambda>c. c = CHR 0x22 \<or> c = CHR '' '') s in
        (case parse_ip text of
           Some a \<Rightarrow> Some a
         | None \<Rightarrow>
             (case parse_socket_ip text of
                Some a \<Rightarrow> Some a
              | None \<Rightarrow>
                  map_option IpV6 (Option.bind (strip_prefix text ''['') (\<lambda>rest.
                    parse_ipv6 (hd (split_on CHR '']'' rest)))))))"

text \<open>\<open>headers\<close> gives the values of a header in order, \<open>None\<close> where one is not visible ASCII.\<close>

definition client_ip ::
  "'n net_lib \<Rightarrow> 'n trusted_proxies \<Rightarrow> ip_addr \<Rightarrow> (string \<Rightarrow> string option list) \<Rightarrow> client_ip_info" where
  "client_ip lib trusted peer headers =
     (let peer = normalize_ip peer in
      case tp_header trusted of
        None \<Rightarrow> \<lparr>ci_address = peer, ci_source = Peer\<rparr>
      | Some header \<Rightarrow>
          if \<not> trusts lib trusted peer then \<lparr>ci_address = peer, ci_source = Peer\<rparr>
          else
            (case headers header of
               [Some text] \<Rightarrow>
                 let resolved =
                   (if header = ''x-forwarded-for'' then
                      find (\<lambda>a. \<not> trusts lib trusted a)
                        (List.map_filter (\<lambda>p. parse_forwarded_ip (trim p)) (rev (split_on CHR '','' text)))
                    else
                      (case split_on CHR '','' text of
                         [p] \<Rightarrow> parse_forwarded_ip (trim p)
                       | _ \<Rightarrow> None))
                 in (case resolved of
                       Some a \<Rightarrow> \<lparr>ci_address = normalize_ip a, ci_source = TrustedHeader\<rparr>
                     | None \<Rightarrow> \<lparr>ci_address = peer, ci_source = Fallback\<rparr>)
             | _ \<Rightarrow> \<lparr>ci_address = peer, ci_source = Fallback\<rparr>))"

section \<open>Guard state\<close>

text \<open>The counters and the in-flight gauge are \<open>AtomicU64\<close>s, which wrap around.\<close>

record counters =
  cn_rate_limited :: "64 word"
  cn_ip_rate_limited :: "64 word"
  cn_concurrency_limited :: "64 word"
  cn_body_too_large :: "64 word"
  cn_body_timeout :: "64 word"
  cn_upstream_timeout :: "64 word"
  cn_request_rejected :: "64 word"
  cn_client_ip_fallback :: "64 word"

definition counters_default :: counters where
  "counters_default = \<lparr>cn_rate_limited = 0, cn_ip_rate_limited = 0, cn_concurrency_limited = 0,
     cn_body_too_large = 0, cn_body_timeout = 0, cn_upstream_timeout = 0, cn_request_rejected = 0,
     cn_client_ip_fallback = 0\<rparr>"

datatype rejection =
  RateLimited | IpRateLimited | ConcurrencyLimited | BodyTooLarge | BodyTimeout | UpstreamTimeout
  | RequestRejected

type_synonym buckets = "(ip_addr \<times> bucket) list"

record service_state =
  ss_bucket :: bucket
  ss_in_flight :: "64 word"
  ss_clients :: buckets
  ss_overflow :: bucket
  ss_counters :: counters
  ss_last_warning :: "instant option"
  ss_last_evict :: instant

definition service_new :: "effective_ingress_limits \<Rightarrow> instant \<Rightarrow> service_state" where
  "service_new limits now =
     \<lparr>ss_bucket = bucket_new (eil_rate_burst limits) now, ss_in_flight = 0, ss_clients = [],
      ss_overflow = bucket_new (eil_ip_rate_burst limits) now, ss_counters = counters_default,
      ss_last_warning = None, ss_last_evict = now\<rparr>"

definition EVICT_INTERVAL :: duration where
  "EVICT_INTERVAL = 10 * 10 ^ 9"

definition BUCKET_IDLE_TTL :: duration where
  "BUCKET_IDLE_TTL = 600 * 10 ^ 9"

definition retain_fresh :: "instant \<Rightarrow> buckets \<Rightarrow> buckets" where
  "retain_fresh now bs = filter (\<lambda>(_, b). now - bk_last_used b < BUCKET_IDLE_TTL) bs"

definition service_evict :: "instant \<Rightarrow> service_state \<Rightarrow> service_state" where
  "service_evict now s =
     (if now - ss_last_evict s < EVICT_INTERVAL then s
      else s\<lparr>ss_last_evict := now, ss_clients := retain_fresh now (ss_clients s)\<rparr>)"

text \<open>A permit holds its ingress' gauge (services are never removed, so the identifier names it).\<close>

record permit =
  pm_ingress :: string
  pm_released :: bool

record admission =
  ad_permit :: permit
  ad_client :: client_ip_info
  ad_per_ip_enforced :: bool

record refusal =
  rf_rejection :: rejection
  rf_retry_after :: "nat option"

record 'n guard =
  gd_trusted :: "'n trusted_proxies"
  gd_services :: "string \<Rightarrow> service_state option"
  gd_peers :: buckets
  gd_peers_last_evict :: instant
  gd_peers_overflow :: bucket
  gd_private_peer_warned :: bool

definition GLOBAL_PEER_RATE_PER_MINUTE :: "32 word" where
  "GLOBAL_PEER_RATE_PER_MINUTE = 1200"

definition GLOBAL_PEER_BURST :: "32 word" where
  "GLOBAL_PEER_BURST = 300"

definition CLIENT_KEYS_PER_INGRESS :: nat where
  "CLIENT_KEYS_PER_INGRESS = 20000"

definition GLOBAL_PEER_KEYS :: nat where
  "GLOBAL_PEER_KEYS = 100000"

definition guard_new :: "instant \<Rightarrow> 'n trusted_proxies \<Rightarrow> 'n guard" where
  "guard_new now trusted =
     \<lparr>gd_trusted = trusted, gd_services = (\<lambda>_. None), gd_peers = [], gd_peers_last_evict = now,
      gd_peers_overflow = bucket_new GLOBAL_PEER_BURST now, gd_private_peer_warned = False\<rparr>"

section \<open>Guard operations\<close>

text \<open>\<open>entry(key).or_insert_with(...).take(...)\<close> on a table of buckets\<close>

definition contains_key :: "ip_addr \<Rightarrow> buckets \<Rightarrow> bool" where
  "contains_key k bs \<longleftrightarrow> map_of bs k \<noteq> None"

definition entry_take ::
  "ip_addr \<Rightarrow> 32 word \<Rightarrow> 32 word \<Rightarrow> instant \<Rightarrow> buckets \<Rightarrow> (nat + unit) \<times> buckets" where
  "entry_take key rate burst now bs =
     (case bucket_take rate burst now (unwrap_or (map_of bs key) (bucket_new burst now)) of
        (res, b) \<Rightarrow> (res, AList.update key b bs))"

definition warn_private_peer_once :: "'n guard \<Rightarrow> 'n guard" where
  "warn_private_peer_once g = g\<lparr>gd_private_peer_warned := True\<rparr>"

definition admit_unknown_host ::
  "'n net_lib \<Rightarrow> instant \<Rightarrow> ip_addr \<Rightarrow> (string \<Rightarrow> string option list) \<Rightarrow> 'n guard \<Rightarrow>
   (refusal + unit) \<times> 'n guard" where
  "admit_unknown_host lib now peer headers g =
     (let client = client_ip lib (gd_trusted g) peer headers in
      if \<not> trusted_configured (gd_trusted g) \<and> is_private_or_local (ci_address client)
      then (Inr (), warn_private_peer_once g)
      else
        let key = rate_key (ci_address client);
            full = GLOBAL_PEER_KEYS \<le> length (gd_peers g) \<and> \<not> contains_key key (gd_peers g);
            g1 = (if full \<and> EVICT_INTERVAL \<le> now - gd_peers_last_evict g
                  then g\<lparr>gd_peers_last_evict := now, gd_peers := retain_fresh now (gd_peers g)\<rparr> else g);
            refuse = map_err (\<lambda>retry. \<lparr>rf_rejection = RateLimited, rf_retry_after = Some retry\<rparr>)
        in if full \<and> GLOBAL_PEER_KEYS \<le> length (gd_peers g1) then
             (case bucket_take GLOBAL_PEER_RATE_PER_MINUTE GLOBAL_PEER_BURST now (gd_peers_overflow g1) of
                (res, b) \<Rightarrow> (refuse res, g1\<lparr>gd_peers_overflow := b\<rparr>))
           else
             (case entry_take key GLOBAL_PEER_RATE_PER_MINUTE GLOBAL_PEER_BURST now (gd_peers g1) of
                (res, bs) \<Rightarrow> (refuse res, g1\<lparr>gd_peers := bs\<rparr>)))"

definition maybe_warn :: "instant \<Rightarrow> service_state \<Rightarrow> service_state" where
  "maybe_warn now s =
     (if is_none_or (ss_last_warning s) (\<lambda>t. 60 * 10 ^ 9 \<le> now - t)
      then s\<lparr>ss_last_warning := Some now\<rparr> else s)"

definition bump :: "((64 word \<Rightarrow> 64 word) \<Rightarrow> counters \<Rightarrow> counters) \<Rightarrow> service_state \<Rightarrow> service_state" where
  "bump upd s = s\<lparr>ss_counters := upd (\<lambda>n. n + 1) (ss_counters s)\<rparr>"

text \<open>The per-client part of \<open>admit\<close>: the seconds to wait, or the request passes.\<close>

definition client_take ::
  "effective_ingress_limits \<Rightarrow> instant \<Rightarrow> ip_addr \<Rightarrow> service_state \<Rightarrow> (nat + unit) \<times> service_state" where
  "client_take limits now key s =
     (let full = (\<lambda>s. CLIENT_KEYS_PER_INGRESS \<le> length (ss_clients s) \<and> \<not> contains_key key (ss_clients s));
          s1 = (if full s then service_evict now s else s)
      in if full s1 then
           (case bucket_take (eil_ip_rate_limit_per_minute limits) (eil_ip_rate_burst limits) now (ss_overflow s1) of
              (res, b) \<Rightarrow> (res, s1\<lparr>ss_overflow := b\<rparr>))
         else
           (case entry_take key (eil_ip_rate_limit_per_minute limits) (eil_ip_rate_burst limits) now (ss_clients s1) of
              (res, bs) \<Rightarrow> (res, s1\<lparr>ss_clients := bs\<rparr>)))"

text \<open>The rest of \<open>admit\<close> under the lock: service bucket, then an in-flight slot.\<close>

definition service_admit ::
  "effective_ingress_limits \<Rightarrow> instant \<Rightarrow> service_state \<Rightarrow> (refusal + unit) \<times> service_state" where
  "service_admit limits now s =
     (case bucket_take (eil_rate_limit_per_minute limits) (eil_rate_burst limits) now (ss_bucket s) of
        (res, b) \<Rightarrow>
          let s1 = s\<lparr>ss_bucket := b\<rparr> in
          (case res of
             Inl retry \<Rightarrow>
               (Inl \<lparr>rf_rejection = RateLimited, rf_retry_after = Some retry\<rparr>,
                maybe_warn now (bump cn_rate_limited_update s1))
           | Inr _ \<Rightarrow>
               let current = ss_in_flight s1 + 1;
                   s2 = s1\<lparr>ss_in_flight := current\<rparr>
               in if ucast (eil_concurrency_limit limits) < current then
                    (Inl \<lparr>rf_rejection = ConcurrencyLimited, rf_retry_after = Some 1\<rparr>,
                     maybe_warn now (bump cn_concurrency_limited_update (s2\<lparr>ss_in_flight := current - 1\<rparr>)))
                  else (Inr (), s2)))"

definition admit ::
  "'n net_lib \<Rightarrow> instant \<Rightarrow> string \<Rightarrow> effective_ingress_limits \<Rightarrow> ip_addr \<Rightarrow>
   (string \<Rightarrow> string option list) \<Rightarrow> 'n guard \<Rightarrow> (refusal + admission) \<times> 'n guard" where
  "admit lib now ingress_id limits peer headers g =
     (let client = client_ip lib (gd_trusted g) peer headers;
          per_ip = trusted_configured (gd_trusted g) \<or> \<not> is_private_or_local (ci_address client);
          s0 = unwrap_or (gd_services g ingress_id) (service_new limits now);
          s1 = (if ci_source client = Fallback then bump cn_client_ip_fallback_update s0 else s0);
          g1 = (if \<not> per_ip then warn_private_peer_once g else g);
          store = (\<lambda>s. g1\<lparr>gd_services := (gd_services g)(ingress_id \<mapsto> s)\<rparr>);
          (ip_res, s2) = (if per_ip then client_take limits now (rate_key (ci_address client)) s1 else (Inr (), s1))
      in case ip_res of
           Inl retry \<Rightarrow>
             (Inl \<lparr>rf_rejection = IpRateLimited, rf_retry_after = Some retry\<rparr>,
              store (bump cn_ip_rate_limited_update s2))
         | Inr _ \<Rightarrow>
             (case service_admit limits now s2 of
                (Inl refused, s3) \<Rightarrow> (Inl refused, store s3)
              | (Inr _, s3) \<Rightarrow>
                  (Inr \<lparr>ad_permit = \<lparr>pm_ingress = ingress_id, pm_released = False\<rparr>, ad_client = client,
                        ad_per_ip_enforced = per_ip\<rparr>,
                   store s3)))"

definition rejection_counter :: "rejection \<Rightarrow> (64 word \<Rightarrow> 64 word) \<Rightarrow> counters \<Rightarrow> counters" where
  "rejection_counter r =
     (case r of
        RateLimited \<Rightarrow> cn_rate_limited_update
      | IpRateLimited \<Rightarrow> cn_ip_rate_limited_update
      | ConcurrencyLimited \<Rightarrow> cn_concurrency_limited_update
      | BodyTooLarge \<Rightarrow> cn_body_too_large_update
      | BodyTimeout \<Rightarrow> cn_body_timeout_update
      | UpstreamTimeout \<Rightarrow> cn_upstream_timeout_update
      | RequestRejected \<Rightarrow> cn_request_rejected_update)"

definition record_rejection :: "instant \<Rightarrow> string \<Rightarrow> rejection \<Rightarrow> 'n guard \<Rightarrow> 'n guard" where
  "record_rejection now ingress_id r g =
     g\<lparr>gd_services := (gd_services g)(ingress_id \<mapsto>
        bump (rejection_counter r)
          (unwrap_or (gd_services g ingress_id) (service_new default_limits now)))\<rparr>"

definition guard_counters :: "string \<Rightarrow> 'n guard \<Rightarrow> counters" where
  "guard_counters ingress_id g =
     (case gd_services g ingress_id of Some s \<Rightarrow> ss_counters s | None \<Rightarrow> counters_default)"

definition guard_in_flight :: "string \<Rightarrow> 'n guard \<Rightarrow> 64 word" where
  "guard_in_flight ingress_id g =
     (case gd_services g ingress_id of Some s \<Rightarrow> ss_in_flight s | None \<Rightarrow> 0)"

text \<open>\<open>Permit::release\<close>, also run by \<open>Drop\<close>: the first call returns the slot.\<close>

definition permit_release :: "permit \<Rightarrow> 'n guard \<Rightarrow> permit \<times> 'n guard" where
  "permit_release p g =
     (p\<lparr>pm_released := True\<rparr>,
      if pm_released p then g
      else g\<lparr>gd_services := (gd_services g)(pm_ingress p :=
             map_option (\<lambda>s. s\<lparr>ss_in_flight := ss_in_flight s - 1\<rparr>) (gd_services g (pm_ingress p)))\<rparr>)"

section \<open>The guard as a system\<close>

text \<open>The guard together with every permit it has handed out.\<close>

inductive ingress_step ::
  "'n net_lib \<Rightarrow> 'n guard \<times> permit list \<Rightarrow> 'n guard \<times> permit list \<Rightarrow> bool" for lib where
  step_admit: "admit lib now ingress_id limits peer headers g = (Inr a, g') \<Longrightarrow>
     ingress_step lib (g, ps) (g', ps @ [ad_permit a])"
| step_refuse: "admit lib now ingress_id limits peer headers g = (Inl r, g') \<Longrightarrow>
     ingress_step lib (g, ps) (g', ps)"
| step_unknown: "admit_unknown_host lib now peer headers g = (r, g') \<Longrightarrow> ingress_step lib (g, ps) (g', ps)"
| step_record: "ingress_step lib (g, ps) (record_rejection now ingress_id r g, ps)"
| step_release: "i < length ps \<Longrightarrow> permit_release (ps ! i) g = (p, g') \<Longrightarrow>
     ingress_step lib (g, ps) (g', ps[i := p])"

definition ingress_init :: "'n guard \<times> permit list \<Rightarrow> bool" where
  "ingress_init s \<longleftrightarrow> (\<exists>now trusted. s = (guard_new now trusted, []))"

definition live :: "string \<Rightarrow> permit \<Rightarrow> bool" where
  "live ingress_id p \<longleftrightarrow> pm_ingress p = ingress_id \<and> \<not> pm_released p"

definition service_ok :: "service_state \<Rightarrow> bool" where
  "service_ok s \<longleftrightarrow> length (ss_clients s) \<le> CLIENT_KEYS_PER_INGRESS \<and> unat (ss_in_flight s) < 2 ^ 32"

definition ingress_inv :: "'n guard \<times> permit list \<Rightarrow> bool" where
  "ingress_inv gp = (case gp of (g, ps) \<Rightarrow>
     length (gd_peers g) \<le> GLOBAL_PEER_KEYS
     \<and> (\<forall>i s. gd_services g i = Some s \<longrightarrow> service_ok s)
     \<and> (\<forall>i. unat (guard_in_flight i g) = length (filter (live i) ps)))"

lemma length_alist_update:
  "length (AList.update k v bs) = (if contains_key k bs then length bs else Suc (length bs))"
  by (induction bs) (auto simp: contains_key_def split: if_splits)

lemma entry_take_length:
  "entry_take k r burst now bs = (res, bs') \<Longrightarrow>
   length bs' = (if contains_key k bs then length bs else Suc (length bs))"
  by (auto simp: entry_take_def length_alist_update split: prod.splits)

lemma retain_fresh_length: "length (retain_fresh now bs) \<le> length bs"
  by (simp add: retain_fresh_def)

lemma retain_fresh_absent: "\<not> contains_key k bs \<Longrightarrow> \<not> contains_key k (retain_fresh now bs)"
  by (auto simp: contains_key_def retain_fresh_def map_of_eq_None_iff)

text \<open>What each part of \<open>admit\<close> keeps of a service.\<close>

lemma bump_fields [simp]:
  "ss_bucket (bump f s) = ss_bucket s" "ss_in_flight (bump f s) = ss_in_flight s"
  "ss_clients (bump f s) = ss_clients s" "ss_overflow (bump f s) = ss_overflow s"
  by (simp_all add: bump_def)

lemma maybe_warn_fields [simp]:
  "ss_bucket (maybe_warn now s) = ss_bucket s" "ss_in_flight (maybe_warn now s) = ss_in_flight s"
  "ss_clients (maybe_warn now s) = ss_clients s" "ss_counters (maybe_warn now s) = ss_counters s"
  by (simp_all add: maybe_warn_def)

lemma service_evict_fields [simp]:
  "ss_bucket (service_evict now s) = ss_bucket s" "ss_in_flight (service_evict now s) = ss_in_flight s"
  "ss_counters (service_evict now s) = ss_counters s"
  by (simp_all add: service_evict_def)

lemma service_evict_length: "length (ss_clients (service_evict now s)) \<le> length (ss_clients s)"
  by (simp add: service_evict_def retain_fresh_length)

lemma service_evict_absent:
  "\<not> contains_key k (ss_clients s) \<Longrightarrow> \<not> contains_key k (ss_clients (service_evict now s))"
  by (simp add: service_evict_def retain_fresh_absent)

lemma client_take_fields:
  assumes "client_take limits now k s = (res, s')"
  shows "ss_in_flight s' = ss_in_flight s" "ss_bucket s' = ss_bucket s" "ss_counters s' = ss_counters s"
  using assms by (auto simp: client_take_def Let_def split: prod.splits if_splits)

lemma client_take_length:
  assumes "client_take limits now k s = (res, s')" "length (ss_clients s) \<le> CLIENT_KEYS_PER_INGRESS"
  shows "length (ss_clients s') \<le> CLIENT_KEYS_PER_INGRESS"
proof -
  define s1 where "s1 = (if CLIENT_KEYS_PER_INGRESS \<le> length (ss_clients s) \<and> \<not> contains_key k (ss_clients s)
    then service_evict now s else s)"
  have "length (ss_clients s1) \<le> CLIENT_KEYS_PER_INGRESS"
    using assms(2) service_evict_length [of now s] by (simp add: s1_def)
  with assms(1) show ?thesis
    by (auto simp: client_take_def Let_def s1_def [symmetric] split: prod.splits if_splits
        dest!: entry_take_length)
qed

lemma service_admit_clients:
  "service_admit limits now s = (res, s') \<Longrightarrow> ss_clients s' = ss_clients s"
  by (auto simp: service_admit_def Let_def split: prod.splits sum.splits if_splits)

lemma service_admit_refused:
  "service_admit limits now s = (Inl r, s') \<Longrightarrow> ss_in_flight s' = ss_in_flight s"
  by (auto simp: service_admit_def Let_def split: prod.splits sum.splits if_splits)

lemma service_admit_granted:
  assumes "service_admit limits now s = (Inr u, s')" "unat (ss_in_flight s) < 2 ^ 32"
  shows "unat (ss_in_flight s') = Suc (unat (ss_in_flight s))"
    "unat (ss_in_flight s') \<le> unat (eil_concurrency_limit limits)"
proof -
  have s': "ss_in_flight s' = ss_in_flight s + 1"
    "\<not> (ucast (eil_concurrency_limit limits) :: 64 word) < ss_in_flight s + 1"
    using assms(1) by (auto simp: service_admit_def Let_def split: prod.splits sum.splits if_splits)
  show "unat (ss_in_flight s') = Suc (unat (ss_in_flight s))"
    using assms(2) by (simp add: s'(1) unat_word_ariths)
  have "unat (ucast (eil_concurrency_limit limits) :: 64 word) = unat (eil_concurrency_limit limits)"
    using unsigned_less [where 'a = nat and w = "eil_concurrency_limit limits"]
    by (simp add: unsigned_ucast_eq take_bit_nat_eq_self)
  with s' show "unat (ss_in_flight s') \<le> unat (eil_concurrency_limit limits)"
    by (simp add: word_less_nat_alt)
qed

text \<open>\<open>admit\<close> changes one service and never the peers.\<close>

lemma admit_peers:
  "admit lib now i limits peer headers g = (r, g') \<Longrightarrow> gd_peers g' = gd_peers g"
  by (auto simp: admit_def Let_def warn_private_peer_once_def split: prod.splits sum.splits if_splits)

lemma admit_other:
  "admit lib now i limits peer headers g = (r, g') \<Longrightarrow> j \<noteq> i \<Longrightarrow> gd_services g' j = gd_services g j"
  by (auto simp: admit_def Let_def warn_private_peer_once_def split: prod.splits sum.splits if_splits)

definition service_at :: "effective_ingress_limits \<Rightarrow> instant \<Rightarrow> string \<Rightarrow> 'n guard \<Rightarrow> service_state" where
  "service_at limits now i g = unwrap_or (gd_services g i) (service_new limits now)"

lemma service_at_in_flight: "ss_in_flight (service_at limits now i g) = guard_in_flight i g"
  by (simp add: service_at_def unwrap_or_def guard_in_flight_def service_new_def split: option.splits)

lemma service_at_ok:
  "(\<And>s. gd_services g i = Some s \<Longrightarrow> service_ok s) \<Longrightarrow> service_ok (service_at limits now i g)"
  by (auto simp: service_at_def unwrap_or_def service_new_def service_ok_def split: option.splits)

text \<open>The two stages of \<open>admit\<close> on its own service.\<close>

lemma admit_cases:
  assumes "admit lib now i limits peer headers g = (r, g')"
  obtains s1 s2 where
    "ss_in_flight s1 = ss_in_flight (service_at limits now i g)"
    "ss_bucket s1 = ss_bucket (service_at limits now i g)"
    "length (ss_clients (service_at limits now i g)) \<le> CLIENT_KEYS_PER_INGRESS \<Longrightarrow>
       length (ss_clients s1) \<le> CLIENT_KEYS_PER_INGRESS"
    "(\<exists>retry. r = Inl \<lparr>rf_rejection = IpRateLimited, rf_retry_after = Some retry\<rparr>)
        \<and> gd_services g' i = Some (bump cn_ip_rate_limited_update s1)
     \<or> (\<exists>refused. r = Inl refused \<and> rf_rejection refused \<noteq> IpRateLimited
          \<and> service_admit limits now s1 = (Inl refused, s2)) \<and> gd_services g' i = Some s2
     \<or> (\<exists>a. r = Inr a \<and> ad_permit a = \<lparr>pm_ingress = i, pm_released = False\<rparr>
          \<and> service_admit limits now s1 = (Inr (), s2)) \<and> gd_services g' i = Some s2"
proof -
  define client where "client = client_ip lib (gd_trusted g) peer headers"
  define per_ip where "per_ip = (trusted_configured (gd_trusted g) \<or> \<not> is_private_or_local (ci_address client))"
  define s0 where "s0 = service_at limits now i g"
  define s0' where "s0' = (if ci_source client = Fallback then bump cn_client_ip_fallback_update s0 else s0)"
  obtain ip_res s1 where st: "(if per_ip then client_take limits now (rate_key (ci_address client)) s0' else (Inr (), s0'))
      = (ip_res, s1)" by force
  obtain res s2 where sa: "service_admit limits now s1 = (res, s2)" by force
  have s0': "ss_in_flight s0' = ss_in_flight s0" "ss_bucket s0' = ss_bucket s0" "ss_clients s0' = ss_clients s0"
    by (simp_all add: s0'_def)
  have kept: "ss_in_flight s1 = ss_in_flight s0" "ss_bucket s1 = ss_bucket s0"
    "length (ss_clients s0) \<le> CLIENT_KEYS_PER_INGRESS \<Longrightarrow> length (ss_clients s1) \<le> CLIENT_KEYS_PER_INGRESS"
    using st s0' by (auto split: if_splits dest: client_take_fields client_take_length)
  have kind: "rf_rejection refused \<noteq> IpRateLimited" if "res = Inl refused" for refused
    using sa that by (auto simp: service_admit_def Let_def split: prod.splits sum.splits if_splits)
  from assms st sa have "(\<exists>retry. r = Inl \<lparr>rf_rejection = IpRateLimited, rf_retry_after = Some retry\<rparr>)
        \<and> gd_services g' i = Some (bump cn_ip_rate_limited_update s1)
     \<or> (\<exists>refused. r = Inl refused \<and> res = Inl refused) \<and> gd_services g' i = Some s2
     \<or> (\<exists>a. r = Inr a \<and> ad_permit a = \<lparr>pm_ingress = i, pm_released = False\<rparr> \<and> res = Inr ()) \<and> gd_services g' i = Some s2"
    unfolding admit_def Let_def client_def [symmetric] per_ip_def [symmetric] service_at_def [symmetric]
      s0_def [symmetric] s0'_def [symmetric]
    by (auto split: sum.splits)
  with kept sa kind show thesis using that [of s1 s2] unfolding s0_def by auto
qed

lemma admit_service_ok:
  assumes adm: "admit lib now i limits peer headers g = (r, g')"
    and ok: "\<And>s. gd_services g i = Some s \<Longrightarrow> service_ok s" and s: "gd_services g' i = Some s'"
  shows "service_ok s'"
proof -
  have lim: "unat (eil_concurrency_limit limits) < 2 ^ 32"
    using unsigned_less [where 'a = nat and w = "eil_concurrency_limit limits"] by simp
  have s0: "service_ok (service_at limits now i g)" by (rule service_at_ok [OF ok])
  from adm show ?thesis
  proof (cases rule: admit_cases)
    case (1 s1 s2)
    then have s1: "service_ok s1" using s0 by (simp add: service_ok_def)
    from 1(4) s show ?thesis
    proof (elim disjE conjE exE)
      fix retry assume "gd_services g' i = Some (bump cn_ip_rate_limited_update s1)"
      with s s1 show ?thesis by (auto simp: service_ok_def)
    next
      fix refused assume "gd_services g' i = Some s2" "service_admit limits now s1 = (Inl refused, s2)"
      with s s1 show ?thesis
        by (simp add: service_ok_def service_admit_clients service_admit_refused)
    next
      fix a assume g': "gd_services g' i = Some s2" and sa: "service_admit limits now s1 = (Inr (), s2)"
      with s s1 service_admit_granted(2) [OF sa] lim show ?thesis
        by (simp add: service_ok_def service_admit_clients)
    qed
  qed
qed

lemma admit_gauge:
  assumes adm: "admit lib now i limits peer headers g = (r, g')"
    and ok: "\<And>s. gd_services g i = Some s \<Longrightarrow> service_ok s"
  shows "unat (guard_in_flight i g') = unat (guard_in_flight i g) + (if isl r then 0 else 1)"
    "\<not> isl r \<Longrightarrow> unat (guard_in_flight i g') \<le> unat (eil_concurrency_limit limits)"
proof -
  have "service_ok (service_at limits now i g)" by (rule service_at_ok [OF ok])
  then have small: "unat (guard_in_flight i g) < 2 ^ 32" by (simp add: service_ok_def service_at_in_flight)
  from adm have "unat (guard_in_flight i g') = unat (guard_in_flight i g) + (if isl r then 0 else 1)
      \<and> (\<not> isl r \<longrightarrow> unat (guard_in_flight i g') \<le> unat (eil_concurrency_limit limits))"
  proof (cases rule: admit_cases)
    case (1 s1 s2)
    then have s1: "ss_in_flight s1 = guard_in_flight i g" by (simp add: service_at_in_flight)
    from 1(4) show ?thesis
    proof (elim disjE conjE exE)
      fix retry assume "gd_services g' i = Some (bump cn_ip_rate_limited_update s1)"
        "r = Inl \<lparr>rf_rejection = IpRateLimited, rf_retry_after = Some retry\<rparr>"
      with s1 show ?thesis by (simp add: guard_in_flight_def)
    next
      fix refused assume "gd_services g' i = Some s2" "r = Inl refused" "service_admit limits now s1 = (Inl refused, s2)"
      with s1 show ?thesis by (simp add: guard_in_flight_def [of i g'] service_admit_refused)
    next
      fix a assume g': "gd_services g' i = Some s2" and r: "r = Inr a"
        and sa: "service_admit limits now s1 = (Inr (), s2)"
      have "unat (ss_in_flight s1) < 2 ^ 32" using small s1 by simp
      from service_admit_granted [OF sa this] g' r s1 show ?thesis
        by (simp add: guard_in_flight_def [of i g'])
    qed
  qed
  then show "unat (guard_in_flight i g') = unat (guard_in_flight i g) + (if isl r then 0 else 1)"
    "\<not> isl r \<Longrightarrow> unat (guard_in_flight i g') \<le> unat (eil_concurrency_limit limits)" by auto
qed

lemma admit_permit: "admit lib now i limits peer headers g = (Inr a, g') \<Longrightarrow>
   ad_permit a = \<lparr>pm_ingress = i, pm_released = False\<rparr>"
  by (erule admit_cases) auto

lemma unknown_peers:
  assumes "admit_unknown_host lib now peer headers g = (r, g')" "length (gd_peers g) \<le> GLOBAL_PEER_KEYS"
  shows "length (gd_peers g') \<le> GLOBAL_PEER_KEYS" "gd_services g' = gd_services g"
proof -
  let ?key = "rate_key (ci_address (client_ip lib (gd_trusted g) peer headers))"
  have fresh: "length (retain_fresh now (gd_peers g)) \<le> GLOBAL_PEER_KEYS"
    using retain_fresh_length [of now "gd_peers g"] assms(2) by simp
  show "gd_services g' = gd_services g"
    using assms(1) by (auto simp: admit_unknown_host_def Let_def warn_private_peer_once_def
        split: prod.splits if_splits)
  show "length (gd_peers g') \<le> GLOBAL_PEER_KEYS"
    using assms fresh retain_fresh_absent [of ?key "gd_peers g" now]
    by (auto simp: admit_unknown_host_def Let_def warn_private_peer_once_def
        split: prod.splits if_splits dest!: entry_take_length)
qed

lemma length_filter_update:
  "k < length xs \<Longrightarrow> length (filter P (xs[k := y])) + (if P (xs ! k) then 1 else 0)
     = length (filter P xs) + (if P y then 1 else 0)"
proof (induction xs arbitrary: k)
  case (Cons x xs)
  then show ?case by (cases k) auto
qed simp

lemma inv_admit:
  assumes inv: "ingress_inv (g, ps)" and adm: "admit lib now i limits peer headers g = (r, g')"
  shows "ingress_inv (g', ps @ (case r of Inl _ \<Rightarrow> [] | Inr a \<Rightarrow> [ad_permit a]))"
proof -
  have ok: "service_ok s" if "gd_services g j = Some s" for j s
    using inv that by (simp add: ingress_inv_def)
  have gauge: "unat (guard_in_flight j g') = length (filter (live j) (ps @ (case r of Inl _ \<Rightarrow> [] | Inr a \<Rightarrow> [ad_permit a])))"
    for j
  proof (cases "j = i")
    case True
    then show ?thesis using admit_gauge(1) [OF adm ok] inv adm
      by (auto simp: ingress_inv_def live_def split: sum.splits dest: admit_permit)
  next
    case False
    then have "guard_in_flight j g' = guard_in_flight j g"
      using admit_other [OF adm False] by (simp add: guard_in_flight_def)
    then show ?thesis using inv adm False
      by (auto simp: ingress_inv_def live_def split: sum.splits dest: admit_permit)
  qed
  have "service_ok s" if "gd_services g' j = Some s" for j s
  proof (cases "j = i")
    case True
    with that admit_service_ok [OF adm ok] show ?thesis by simp
  next
    case False
    with that ok admit_other [OF adm False] show ?thesis by simp
  qed
  with gauge inv adm show ?thesis by (simp add: ingress_inv_def admit_peers)
qed

lemma inv_record:
  assumes "ingress_inv (g, ps)"
  shows "ingress_inv (record_rejection now i r g, ps)"
proof -
  have "service_ok (service_at default_limits now i g)"
    using assms by (intro service_at_ok) (simp add: ingress_inv_def)
  moreover have "guard_in_flight j (record_rejection now i r g) = guard_in_flight j g" for j
    using service_at_in_flight [of default_limits now i g]
    by (simp add: record_rejection_def guard_in_flight_def [of j] service_at_def)
      (simp add: guard_in_flight_def)
  ultimately show ?thesis
    using assms by (auto simp: ingress_inv_def record_rejection_def service_ok_def service_at_def)
qed

lemma inv_release:
  assumes inv: "ingress_inv (g, ps)" and k: "k < length ps" and rel: "permit_release (ps ! k) g = (p, g')"
  shows "ingress_inv (g', ps[k := p])"
proof (cases "pm_released (ps ! k)")
  case True
  then have "g' = g" "p = (ps ! k)\<lparr>pm_released := True\<rparr>" using rel by (auto simp: permit_release_def)
  moreover have "length (filter (live j) (ps[k := p])) = length (filter (live j) ps)" for j
    using length_filter_update [OF k, of "live j" p] True calculation by (simp add: live_def split: if_splits)
  ultimately show ?thesis using inv by (simp add: ingress_inv_def)
next
  case False
  define i where "i = pm_ingress (ps ! k)"
  have p: "p = (ps ! k)\<lparr>pm_released := True\<rparr>"
    and g': "g' = g\<lparr>gd_services := (gd_services g)(i := map_option (\<lambda>s. s\<lparr>ss_in_flight := ss_in_flight s - 1\<rparr>) (gd_services g i))\<rparr>"
    using rel False by (auto simp: permit_release_def i_def)
  have count: "length (filter (live j) (ps[k := p])) + (if j = i then 1 else 0) = length (filter (live j) ps)" for j
    using length_filter_update [OF k, of "live j" p] False p by (auto simp: live_def i_def)
  have gauge: "unat (guard_in_flight j g) = length (filter (live j) ps)" for j
    using inv by (simp add: ingress_inv_def)
  have pos: "0 < unat (guard_in_flight i g)" using count [of i] unfolding gauge by (simp only: simp_thms if_True)
  then obtain s where s: "gd_services g i = Some s" by (auto simp: guard_in_flight_def split: option.splits)
  have "ss_in_flight s \<noteq> 0" using pos s by (auto simp: guard_in_flight_def)
  then have dec: "unat (ss_in_flight s - 1) = unat (ss_in_flight s) - 1" by (rule unat_minus_one)
  have "unat (guard_in_flight j g') + (if j = i then 1 else 0) = unat (guard_in_flight j g)" for j
    using pos s dec by (simp add: guard_in_flight_def g')
  then have "unat (guard_in_flight j g') = length (filter (live j) (ps[k := p]))" for j
    using count [of j] gauge [of j] by (metis add_right_cancel)
  moreover have "service_ok t" if "gd_services g' j = Some t" for j t
  proof (cases "j = i")
    case True
    have "service_ok s" using inv s by (simp add: ingress_inv_def)
    with True that s dec show ?thesis by (auto simp: g' service_ok_def)
  next
    case False
    with that inv show ?thesis by (simp add: g' ingress_inv_def)
  qed
  ultimately show ?thesis using inv by (simp add: ingress_inv_def g')
qed

interpretation ingress_sys: inv_system ingress_init "ingress_step lib" ingress_inv for lib
proof
  fix s t
  assume "ingress_inv s" "ingress_step lib s t"
  from this(2,1) show "ingress_inv t"
  proof (induction rule: ingress_step.induct)
    case (step_admit now i limits peer headers g a g' ps)
    from inv_admit [OF step_admit(2,1)] show ?case by simp
  next
    case (step_refuse now i limits peer headers g r g' ps)
    from inv_admit [OF step_refuse(2,1)] show ?case by simp
  next
    case (step_unknown now peer headers g r g' ps)
    then show ?case using unknown_peers [OF step_unknown(1)] by (simp add: ingress_inv_def guard_in_flight_def)
  qed (auto intro: inv_record inv_release)
qed (auto simp: ingress_init_def ingress_inv_def guard_new_def guard_in_flight_def)

section \<open>Properties\<close>

definition example_net_lib :: "ip_addr net_lib" where
  "example_net_lib = \<lparr>nl_parse = (\<lambda>_. None), nl_of_ip = (\<lambda>a. a), nl_is_v4 = (\<lambda>_. True), nl_prefix_len = (\<lambda>_. 32),
     nl_contains = (\<lambda>n a. n = a), nl_header_name = Some\<rparr>"

definition example_guard :: "ip_addr guard" where
  "example_guard = guard_new 0 trusted_none"

lemma example_guard_reach: "reach ingress_init (ingress_step example_net_lib) (example_guard, [])"
  by (rule reach_init) (auto simp: ingress_init_def example_guard_def)

text \<open>
  C32: In-flight slots are exact under every interleaving of admissions, refusals, recorded
  rejections and releases (explicit, repeated or by drop): the wrapping 64-bit gauge of an ingress
  always equals the number of its permits that are not yet released, and an admission never leaves
  more of them than the ingress' concurrency limit.
\<close>

theorem ingress_permits_exact:
  assumes "reach ingress_init (ingress_step lib) (g, ps)"
  shows "unat (guard_in_flight i g) = length (filter (live i) ps)
    \<and> (\<forall>now limits peer headers.
         case admit lib now i limits peer headers g of
           (Inl _, g') \<Rightarrow> guard_in_flight i g' = guard_in_flight i g
         | (Inr a, g') \<Rightarrow> unat (guard_in_flight i g') = length (filter (live i) (ps @ [ad_permit a]))
             \<and> length (filter (live i) (ps @ [ad_permit a])) \<le> unat (eil_concurrency_limit limits))"
proof -
  have inv: "ingress_inv (g, ps)" using assms by (rule ingress_sys.reach_inv)
  have "case admit lib now i limits peer headers g of
      (Inl _, g') \<Rightarrow> guard_in_flight i g' = guard_in_flight i g
    | (Inr a, g') \<Rightarrow> unat (guard_in_flight i g') = length (filter (live i) (ps @ [ad_permit a]))
        \<and> length (filter (live i) (ps @ [ad_permit a])) \<le> unat (eil_concurrency_limit limits)"
    for now limits peer headers
  proof -
    obtain r g' where adm: "admit lib now i limits peer headers g = (r, g')" by force
    have ok: "service_ok s" if "gd_services g i = Some s" for s using inv that by (simp add: ingress_inv_def)
    have "unat (guard_in_flight i g') = length (filter (live i) (ps @ [ad_permit a]))" if "r = Inr a" for a
      using inv_admit [OF inv adm] that by (simp add: ingress_inv_def)
    then show ?thesis
      using admit_gauge [OF adm ok] adm by (auto simp: word_unat_eq_iff split: sum.splits)
  qed
  then show ?thesis using inv by (simp add: ingress_inv_def)
qed

theorem ingress_permits_exact_witness:
  "reach ingress_init (ingress_step example_net_lib) (example_guard, [])
   \<and> unat (guard_in_flight ''ing'' example_guard) = length (filter (live ''ing'') [])"
  using ingress_permits_exact [OF example_guard_reach, of "''ing''"] example_guard_reach by simp

text \<open>
  A flood of fresh addresses cannot grow memory: in every reachable state the client table
  of each ingress has at most 20,000 keys and the table of unknown-host peers at most 100,000.
\<close>

theorem ingress_tables_bounded:
  assumes "reach ingress_init (ingress_step lib) (g, ps)"
  shows "length (gd_peers g) \<le> 100000
    \<and> (\<forall>i s. gd_services g i = Some s \<longrightarrow> length (ss_clients s) \<le> 20000)"
  using ingress_sys.reach_inv [OF assms]
  by (simp add: ingress_inv_def service_ok_def GLOBAL_PEER_KEYS_def CLIENT_KEYS_PER_INGRESS_def)

theorem ingress_tables_bounded_witness:
  "reach ingress_init (ingress_step example_net_lib) (example_guard, [])
   \<and> length (gd_peers example_guard) \<le> 100000"
  using ingress_tables_bounded [OF example_guard_reach] example_guard_reach by simp

text \<open>
  A noisy client cannot spend the service's budget: when a request is refused by the
  per-client limit, the service bucket and the in-flight gauge of the ingress are those it had, no
  other ingress changes, and exactly one rejection is added to the client-limit counter and none to
  the service-limit counters.
\<close>

theorem ip_refusal_spares_service:
  assumes "admit lib now i limits peer headers g = (Inl refused, g')" "rf_rejection refused = IpRateLimited"
    "gd_services g i = Some s"
  shows "\<exists>s'. gd_services g' i = Some s' \<and> ss_bucket s' = ss_bucket s \<and> ss_in_flight s' = ss_in_flight s
    \<and> cn_ip_rate_limited (ss_counters s') = cn_ip_rate_limited (ss_counters s) + 1
    \<and> cn_rate_limited (ss_counters s') = cn_rate_limited (ss_counters s)
    \<and> cn_concurrency_limited (ss_counters s') = cn_concurrency_limited (ss_counters s)
    \<and> (\<forall>j. j \<noteq> i \<longrightarrow> gd_services g' j = gd_services g j)"
proof -
  have kind: "rf_rejection r \<noteq> IpRateLimited" if "service_admit limits now t = (Inl r, t')" for t r t'
    using that by (auto simp: service_admit_def Let_def split: prod.splits sum.splits if_splits)
  have other: "\<forall>j. j \<noteq> i \<longrightarrow> gd_services g' j = gd_services g j" using admit_other [OF assms(1)] by simp
  from assms(1,2,3) obtain t k where
    t: "client_take limits now k
        (if ci_source (client_ip lib (gd_trusted g) peer headers) = Fallback
         then bump cn_client_ip_fallback_update s else s) = (Inl (the (rf_retry_after refused)), t)"
    and g': "gd_services g' i = Some (bump cn_ip_rate_limited_update t)"
    unfolding admit_def Let_def unwrap_or_def
    by (auto split: prod.splits sum.splits if_splits dest: kind)
  show ?thesis
    using client_take_fields [OF t] g' other by (auto simp: bump_def split: if_splits)
qed

definition drained_bucket :: bucket where
  "drained_bucket = \<lparr>bk_tokens = 0, bk_updated = 0, bk_last_used = 0\<rparr>"

definition example_service :: service_state where
  "example_service = (service_new default_limits 0)\<lparr>ss_clients := [(IpV4 0x08080808, drained_bucket)]\<rparr>"

definition example_busy :: "ip_addr guard" where
  "example_busy = example_guard\<lparr>gd_services := [''ing'' \<mapsto> example_service]\<rparr>"

lemma drained_refuses: "\<exists>retry b. bucket_take r burst 0 drained_bucket = (Inl retry, b)"
proof -
  have "f64_round 0 = 0" by (simp add: f64_round_def)
  then have "refill r burst 0 drained_bucket \<le> 0"
    by (simp add: refill_def drained_bucket_def as_secs_f64_def)
  then show ?thesis by (simp add: bucket_take_def Let_def)
qed

lemma example_busy_refuses:
  "\<exists>refused g'. admit example_net_lib 0 ''ing'' default_limits (IpV4 0x08080808) (\<lambda>_. []) example_busy
     = (Inl refused, g') \<and> rf_rejection refused = IpRateLimited"
proof -
  have key: "rate_key (IpV4 0x08080808) = IpV4 0x08080808" "\<not> is_private_or_local (IpV4 0x08080808)" by code_simp+
  have ip: "client_ip example_net_lib trusted_none (IpV4 0x08080808) (\<lambda>_. [])
      = \<lparr>ci_address = IpV4 0x08080808, ci_source = Peer\<rparr>"
    by (simp add: client_ip_def trusted_none_def normalize_ip_def Let_def)
  obtain retry b where tk: "bucket_take (eil_ip_rate_limit_per_minute default_limits) (eil_ip_rate_burst default_limits) 0
      drained_bucket = (Inl retry, b)" using drained_refuses by blast
  have "client_take default_limits 0 (IpV4 0x08080808) example_service
      = (Inl retry, example_service\<lparr>ss_clients := [(IpV4 0x08080808, b)]\<rparr>)"
    by (simp add: client_take_def Let_def contains_key_def entry_take_def example_service_def unwrap_or_def tk)
  then show ?thesis
    by (simp add: admit_def Let_def example_busy_def example_guard_def guard_new_def ip key unwrap_or_def)
qed

theorem ip_refusal_spares_service_witness:
  "\<exists>(g' :: ip_addr guard) s'. gd_services example_busy ''ing'' = Some example_service
    \<and> gd_services g' ''ing'' = Some s' \<and> ss_bucket s' = ss_bucket example_service
    \<and> cn_ip_rate_limited (ss_counters s') = 1"
proof -
  obtain refused g' where adm: "admit example_net_lib 0 ''ing'' default_limits (IpV4 0x08080808) (\<lambda>_. []) example_busy
      = (Inl refused, g')" and kind: "rf_rejection refused = IpRateLimited" using example_busy_refuses by blast
  have s: "gd_services example_busy ''ing'' = Some example_service" by (simp add: example_busy_def)
  have "cn_ip_rate_limited (ss_counters example_service) = 0"
    by (simp add: example_service_def service_new_def counters_default_def)
  with ip_refusal_spares_service [OF adm kind s] s show ?thesis by auto
qed

text \<open>
  Limits an owner sets can be loosened but never switched off: when \<open>validate\<close> accepts the
  overrides, every effective limit is positive and within its hard ceiling, and the two timeouts
  stay between 5 and 600 seconds.
\<close>

theorem validated_limits_within_ceilings:
  assumes "limits_validate l = Inr ()" and "e = effective_limits l"
  shows "0 < eil_rate_limit_per_minute e \<and> eil_rate_limit_per_minute e \<le> 60000
    \<and> 0 < eil_rate_burst e \<and> eil_rate_burst e \<le> 60000
    \<and> 0 < eil_concurrency_limit e \<and> eil_concurrency_limit e \<le> 4096
    \<and> 0 < eil_ip_rate_limit_per_minute e \<and> eil_ip_rate_limit_per_minute e \<le> 60000
    \<and> 0 < eil_ip_rate_burst e \<and> eil_ip_rate_burst e \<le> 60000
    \<and> 0 < eil_max_body_bytes e \<and> eil_max_body_bytes e \<le> 67108864
    \<and> 5 \<le> eil_response_timeout_secs e \<and> eil_response_timeout_secs e \<le> 600
    \<and> 5 \<le> eil_body_timeout_secs e \<and> eil_body_timeout_secs e \<le> 600"
proof -
  have lim: "0 < unwrap_or v d \<and> unwrap_or v d \<le> m" if "check_limit (v, m, nm) = Inr ()" "0 < d" "d \<le> m"
    for v and d m :: "'w :: len word" and nm
    using that by (cases v) (auto simp: check_limit_def unwrap_or_def not_less word_neq_0_conv split: if_splits)
  have tim: "5 \<le> unwrap_or v d \<and> unwrap_or v d \<le> 600" if "check_timeout v nm = Inr ()" "5 \<le> d" "d \<le> 600" for v d nm
    using that by (cases v) (auto simp: check_timeout_def unwrap_or_def INGRESS_MIN_RESPONSE_TIMEOUT_SECS_def
        INGRESS_MAX_RESPONSE_TIMEOUT_SECS_def split: if_splits)
  have ok: "check_limit (sil_rate_limit_per_minute l, 60000, ''rate_limit_per_minute'') = Inr ()"
    "check_limit (sil_rate_burst l, 60000, ''rate_burst'') = Inr ()"
    "check_limit (sil_concurrency_limit l, 4096, ''concurrency_limit'') = Inr ()"
    "check_limit (sil_ip_rate_limit_per_minute l, 60000, ''ip_rate_limit_per_minute'') = Inr ()"
    "check_limit (sil_ip_rate_burst l, 60000, ''ip_rate_burst'') = Inr ()"
    "check_limit (sil_max_body_bytes l, 67108864, ''max_body_bytes'') = Inr ()"
    "check_timeout (sil_response_timeout_secs l) ''response_timeout_secs'' = Inr ()"
    "check_timeout (sil_body_timeout_secs l) ''body_timeout_secs'' = Inr ()"
    using assms(1) by (simp_all add: limits_validate_def res_simps INGRESS_MAX_RATE_PER_MINUTE_def
        INGRESS_MAX_CONCURRENCY_def INGRESS_MAX_BODY_BYTES_def)
  show ?thesis
    using lim [OF ok(1), of 600] lim [OF ok(2), of 120] lim [OF ok(3), of 64] lim [OF ok(4), of 120]
      lim [OF ok(5), of 30] lim [OF ok(6), of "1024 * 1024"] tim [OF ok(7), of 35] tim [OF ok(8), of 60]
    by (simp add: assms(2) effective_limits_def default_limits_def)
qed

theorem validated_limits_within_ceilings_witness:
  "limits_validate \<lparr>sil_rate_limit_per_minute = Some 60000, sil_rate_burst = None, sil_concurrency_limit = Some 1,
     sil_ip_rate_limit_per_minute = None, sil_ip_rate_burst = None, sil_max_body_bytes = None,
     sil_response_timeout_secs = Some 5, sil_body_timeout_secs = None\<rparr> = Inr ()
   \<and> eil_concurrency_limit (effective_limits \<lparr>sil_rate_limit_per_minute = Some 60000, sil_rate_burst = None,
     sil_concurrency_limit = Some 1, sil_ip_rate_limit_per_minute = None, sil_ip_rate_burst = None,
     sil_max_body_bytes = None, sil_response_timeout_secs = Some 5, sil_body_timeout_secs = None\<rparr>) \<le> 4096"
proof -
  let ?l = "\<lparr>sil_rate_limit_per_minute = Some 60000, sil_rate_burst = None, sil_concurrency_limit = Some 1,
     sil_ip_rate_limit_per_minute = None, sil_ip_rate_burst = None, sil_max_body_bytes = None,
     sil_response_timeout_secs = Some 5, sil_body_timeout_secs = None\<rparr>"
  have "limits_validate ?l = Inr ()"
    by (simp add: limits_validate_def check_limit_def check_timeout_def INGRESS_MAX_RATE_PER_MINUTE_def
        INGRESS_MAX_CONCURRENCY_def INGRESS_MIN_RESPONSE_TIMEOUT_SECS_def INGRESS_MAX_RESPONSE_TIMEOUT_SECS_def)
  with validated_limits_within_ceilings [OF this refl] show ?thesis by simp
qed

lemma findP: "find P xs = Some x \<Longrightarrow> P x"
  by (auto simp: find_Some_iff)

lemma find_append: "find P (xs @ ys) = (case find P xs of Some x \<Rightarrow> Some x | None \<Rightarrow> find P ys)"
  by (induction xs) auto

text \<open>The hops of a forwarded-for value, nearest first, and the client they name.\<close>

definition hops :: "string \<Rightarrow> ip_addr list" where
  "hops text = List.map_filter (\<lambda>p. parse_forwarded_ip (trim p)) (rev (split_on CHR '','' text))"

definition xff_client :: "'n net_lib \<Rightarrow> 'n trusted_proxies \<Rightarrow> string \<Rightarrow> ip_addr option" where
  "xff_client lib t text = find (\<lambda>a. \<not> trusts lib t a) (hops text)"

lemma hops_append: "hops (forged @ CHR '','' # text) = hops text @ hops forged"
  by (simp add: hops_def split_on_append map_filter_def)

lemma client_ip_xff:
  assumes "tp_header t = Some ''x-forwarded-for''" "trusts lib t (normalize_ip peer)"
    "headers ''x-forwarded-for'' = [Some text]"
  shows "client_ip lib t peer headers =
    (case xff_client lib t text of
       Some a \<Rightarrow> \<lparr>ci_address = normalize_ip a, ci_source = TrustedHeader\<rparr>
     | None \<Rightarrow> \<lparr>ci_address = normalize_ip peer, ci_source = Fallback\<rparr>)"
  using assms by (simp add: client_ip_def Let_def xff_client_def hops_def)

text \<open>
  C31: Who can choose the client address.  A peer that is not a trusted front cannot, whichever header
  is configured and whatever it sends: the client is the peer.  Behind a trusted front that sends a
  header with one address, such as CF-Connecting-IP, a value that comes with a second value or inside
  a list is never used.  Behind a trusted front that appends to X-Forwarded-For, what stands before
  the appended part is irrelevant if the appended part names a hop that is not a trusted front, and
  is used otherwise; the address found is never one of the trusted fronts.
\<close>

theorem client_ip_unforgeable:
  shows "(\<not> trusts lib t peer \<longrightarrow> client_ip lib t peer headers = \<lparr>ci_address = normalize_ip peer, ci_source = Peer\<rparr>)
    \<and> (trusts lib t peer \<and> tp_header t = Some h \<and> h \<noteq> ''x-forwarded-for'' \<longrightarrow>
      client_ip lib t peer (headers(h := [Some (forged @ CHR '','' # text)])) = \<lparr>ci_address = normalize_ip peer, ci_source = Fallback\<rparr>
      \<and> client_ip lib t peer (headers(h := v # v' # vs)) = \<lparr>ci_address = normalize_ip peer, ci_source = Fallback\<rparr>)
    \<and> (trusts lib t peer \<and> tp_header t = Some ''x-forwarded-for'' \<longrightarrow>
      client_ip lib t peer (headers(''x-forwarded-for'' := [Some (forged @ CHR '','' # text)]))
        = client_ip lib t peer (headers(''x-forwarded-for'' := [Some (if xff_client lib t text = None then forged else text)]))
      \<and> (ci_source (client_ip lib t peer headers) = TrustedHeader \<longrightarrow> \<not> trusts lib t (ci_address (client_ip lib t peer headers))))"
proof (intro conjI impI; (elim conjE)?)
  have norm: "trusts lib t (normalize_ip a) = trusts lib t a" for a by (simp add: trusts_def)
  show "client_ip lib t peer headers = \<lparr>ci_address = normalize_ip peer, ci_source = Peer\<rparr>" if "\<not> trusts lib t peer"
    using that by (simp add: client_ip_def norm Let_def split: option.splits)
  show "client_ip lib t peer (headers(h := v # v' # vs)) = \<lparr>ci_address = normalize_ip peer, ci_source = Fallback\<rparr>"
    if "trusts lib t peer" "tp_header t = Some h"
    using that by (simp add: client_ip_def norm Let_def split: option.splits)
  show "client_ip lib t peer (headers(h := [Some (forged @ CHR '','' # text)])) = \<lparr>ci_address = normalize_ip peer, ci_source = Fallback\<rparr>"
    if "trusts lib t peer" "tp_header t = Some h" "h \<noteq> ''x-forwarded-for''"
  proof -
    have "split_on CHR '','' (forged @ CHR '','' # text) \<noteq> [p]" for p
      by (simp add: split_on_append append_eq_Cons_conv)
    then show ?thesis using that by (auto simp: client_ip_def norm Let_def split: list.splits)
  qed
  assume front: "trusts lib t peer" "tp_header t = Some ''x-forwarded-for''"
  then have trusted: "trusts lib t (normalize_ip peer)" by (simp add: norm)
  have "xff_client lib t (forged @ CHR '','' # text) = xff_client lib t (if xff_client lib t text = None then forged else text)"
    by (auto simp: xff_client_def hops_append find_append split: option.splits)
  then show "client_ip lib t peer (headers(''x-forwarded-for'' := [Some (forged @ CHR '','' # text)]))
      = client_ip lib t peer (headers(''x-forwarded-for'' := [Some (if xff_client lib t text = None then forged else text)]))"
    by (simp only: client_ip_xff [OF front(2) trusted] fun_upd_same)
  show "\<not> trusts lib t (ci_address (client_ip lib t peer headers))" if "ci_source (client_ip lib t peer headers) = TrustedHeader"
    using that front trusted findP [of "\<lambda>a. \<not> trusts lib t a"]
    by (auto simp: client_ip_def Let_def norm split: list.splits option.splits)
qed

definition example_front :: "ip_addr trusted_proxies" where
  "example_front = \<lparr>tp_ranges = [IpV4 0x0A000002], tp_header = Some ''x-forwarded-for''\<rparr>"

definition cloudflare_front :: "ip_addr trusted_proxies" where
  "cloudflare_front = \<lparr>tp_ranges = [IpV4 0x0A000002], tp_header = Some ''cf-connecting-ip''\<rparr>"

definition forged_headers :: "string \<Rightarrow> string option list" where
  "forged_headers = (\<lambda>_. [Some ''1.2.3.4''])"

theorem client_ip_unforgeable_witness:
  "client_ip example_net_lib cloudflare_front (IpV4 0x08080808) forged_headers = \<lparr>ci_address = IpV4 0x08080808, ci_source = Peer\<rparr>
   \<and> ci_source (client_ip example_net_lib cloudflare_front (IpV4 0x0A000002) (forged_headers(''cf-connecting-ip'' :=
       [Some ''1.2.3.4'', Some ''203.0.113.9'']))) = Fallback
   \<and> client_ip example_net_lib example_front (IpV4 0x0A000002)
       (forged_headers(''x-forwarded-for'' := [Some (''1.2.3.4'' @ CHR '','' # ''203.0.113.9'')]))
     = \<lparr>ci_address = IpV4 0xCB007109, ci_source = TrustedHeader\<rparr>"
proof -
  have x: "xff_client example_net_lib example_front ''203.0.113.9'' \<noteq> None" by code_simp
  have t: "trusts example_net_lib example_front (IpV4 0x0A000002)" "trusts example_net_lib cloudflare_front (IpV4 0x0A000002)"
    "\<not> trusts example_net_lib cloudflare_front (IpV4 0x08080808)" by code_simp+
  have f: "tp_header example_front = Some ''x-forwarded-for''" "tp_header cloudflare_front = Some ''cf-connecting-ip''"
    by (simp_all add: example_front_def cloudflare_front_def)
  have r: "client_ip example_net_lib example_front (IpV4 0x0A000002) (forged_headers(''x-forwarded-for'' := [Some ''203.0.113.9'']))
     = \<lparr>ci_address = IpV4 0xCB007109, ci_source = TrustedHeader\<rparr>" by code_simp
  have "client_ip example_net_lib cloudflare_front (IpV4 0x08080808) forged_headers = \<lparr>ci_address = IpV4 0x08080808, ci_source = Peer\<rparr>"
    using client_ip_unforgeable [of example_net_lib cloudflare_front "IpV4 0x08080808" forged_headers] t(3)
    by (simp add: normalize_ip_def)
  moreover have "ci_source (client_ip example_net_lib cloudflare_front (IpV4 0x0A000002) (forged_headers(''cf-connecting-ip'' :=
       [Some ''1.2.3.4'', Some ''203.0.113.9'']))) = Fallback"
    using client_ip_unforgeable [of example_net_lib cloudflare_front "IpV4 0x0A000002" forged_headers "''cf-connecting-ip''" _ _
      "Some ''1.2.3.4''" "Some ''203.0.113.9''" "[]"] t(2) f(2) by simp
  moreover have "client_ip example_net_lib example_front (IpV4 0x0A000002)
       (forged_headers(''x-forwarded-for'' := [Some (''1.2.3.4'' @ CHR '','' # ''203.0.113.9'')]))
     = client_ip example_net_lib example_front (IpV4 0x0A000002) (forged_headers(''x-forwarded-for'' := [Some ''203.0.113.9'']))"
    using client_ip_unforgeable [of example_net_lib example_front "IpV4 0x0A000002" forged_headers _ "''1.2.3.4''" "''203.0.113.9''"]
      t(1) f(1) x by simp
  ultimately show ?thesis using r by simp
qed

end
