(* ===== verification/Host_Protocol.thy ===== *)
theory Host_Protocol
  imports Treer_Prelude
begin

text \<open>
  The protocol between a machine's controller and its host daemon
  (\<open>crates/treer-host-protocol\<close>) and the length-prefixed frames both ends read and write
  (\<open>write_frame\<close> and \<open>read_frame\<close> of \<open>crates/treer-agent-host\<close>).  The \<open>bincode\<close> codec is a
  parameter.  A \<open>DateTime<Utc>\<close> is a number of nanoseconds; the \<open>serde\<close> attributes of the time fields put
  whole milliseconds on the wire, and the serialised form is what the codec sees.  A \<open>u64\<close> counter is
  a natural number that saturates at \<open>U64_MAX\<close>.
\<close>

type_synonym bytes = string
type_synonym nanos = int

definition U64_MAX :: nat where
  "U64_MAX = 2 ^ 64 - 1"

definition sat_add64 :: "nat \<Rightarrow> nat \<Rightarrow> nat" where
  "sat_add64 a b = min (a + b) U64_MAX"

section \<open>Messages\<close>

definition HOST_PROTOCOL_VERSION :: nat where
  "HOST_PROTOCOL_VERSION = 2"

definition MAX_HOST_FRAME_BYTES :: nat where
  "MAX_HOST_FRAME_BYTES = 16 * 1024 * 1024"

record host_build_info =
  hb_version :: string
  hb_git_commit :: string

record host_process_info =
  hp_process_id :: string
  hp_pid :: "nat option"
  hp_cwd :: string
  hp_running :: bool
  hp_started_at :: nanos
  hp_last_output_at :: nanos
  hp_exited_at :: "nanos option"
  hp_exit_code :: "int option"
  hp_stream_epoch :: string
  hp_first_revision :: nat
  hp_next_revision :: nat
  hp_bracketed_paste :: bool
  hp_metadata :: string

record host_output_chunk =
  hc_process_id :: string
  hc_stream_epoch :: string
  hc_revision :: nat
  hc_data :: bytes
  hc_bracketed_paste :: bool
  hc_emitted_at :: nanos

record host_output_replay =
  hr_process_id :: string
  hr_stream_epoch :: string
  hr_first_available_revision :: nat
  hr_next_revision :: nat
  hr_gap :: bool
  hr_chunks :: "host_output_chunk list"

record output_cursor =
  oc_stream_epoch :: string
  oc_revision :: nat

record host_spawn_request =
  sr_process_id :: string
  sr_command :: string
  sr_args :: "string list"
  sr_cwd :: string
  sr_env :: "string btree_map"
  sr_cols :: nat
  sr_rows :: nat
  sr_metadata :: string

record host_write =
  hw_data :: bytes
  hw_delay_ms :: nat

datatype host_command =
  Sync "output_cursor btree_map"
| Spawn host_spawn_request
| Read string "output_cursor option"
| Write string "host_write list"
| Resize string nat nat
| Stop string
| RestartController

fun is_mutating :: "host_command \<Rightarrow> bool" where
  "is_mutating (Spawn _) = True"
| "is_mutating (Write _ _) = True"
| "is_mutating (Resize _ _ _) = True"
| "is_mutating (Stop _) = True"
| "is_mutating RestartController = True"
| "is_mutating _ = False"

record host_request =
  rq_protocol :: nat
  rq_request_id :: string
  rq_operation_id :: "string option"
  rq_command :: host_command

datatype host_response =
  Synced string host_build_info "host_process_info list" "host_output_replay list"
| RespProcess host_process_info
| RespOutput host_output_replay
| Ack

record host_error =
  he_code :: string
  he_message :: string

definition host_error_new :: "string \<Rightarrow> string \<Rightarrow> host_error" where
  "host_error_new code message = \<lparr>he_code = code, he_message = message\<rparr>"

datatype host_message =
  MsgResponse string "host_response option" "host_error option"
| MsgOutput host_output_chunk
| MsgProcess host_process_info

section \<open>Codec and frames\<close>

text \<open>
  The time fields are serialised with \<open>chrono::serde::ts_milliseconds\<close>, a parameter here, so the serialised
  form of a message has in its time fields what \<open>ch_serialize\<close> gives.
\<close>

record chrono_lib =
  ch_serialize :: "nanos \<Rightarrow> int"
  ch_deserialize :: "int \<Rightarrow> nanos"

definition with_times_process :: "(int \<Rightarrow> int) \<Rightarrow> host_process_info \<Rightarrow> host_process_info" where
  "with_times_process f p = p\<lparr>hp_started_at := f (hp_started_at p), hp_last_output_at := f (hp_last_output_at p),
     hp_exited_at := map_option f (hp_exited_at p)\<rparr>"

definition with_times_chunk :: "(int \<Rightarrow> int) \<Rightarrow> host_output_chunk \<Rightarrow> host_output_chunk" where
  "with_times_chunk f c = c\<lparr>hc_emitted_at := f (hc_emitted_at c)\<rparr>"

definition with_times_replay :: "(int \<Rightarrow> int) \<Rightarrow> host_output_replay \<Rightarrow> host_output_replay" where
  "with_times_replay f r = r\<lparr>hr_chunks := map (with_times_chunk f) (hr_chunks r)\<rparr>"

fun with_times_response :: "(int \<Rightarrow> int) \<Rightarrow> host_response \<Rightarrow> host_response" where
  "with_times_response f (Synced epoch build processes replay) =
     Synced epoch build (map (with_times_process f) processes) (map (with_times_replay f) replay)"
| "with_times_response f (RespProcess p) = RespProcess (with_times_process f p)"
| "with_times_response f (RespOutput r) = RespOutput (with_times_replay f r)"
| "with_times_response f Ack = Ack"

fun with_times :: "(int \<Rightarrow> int) \<Rightarrow> host_message \<Rightarrow> host_message" where
  "with_times f (MsgResponse i response error) = MsgResponse i (map_option (with_times_response f) response) error"
| "with_times f (MsgOutput c) = MsgOutput (with_times_chunk f c)"
| "with_times f (MsgProcess p) = MsgProcess (with_times_process f p)"

text \<open>The serialised form of a type and back; requests have no time fields.\<close>

record 'm serde =
  sd_serialize :: "'m \<Rightarrow> 'm"
  sd_deserialize :: "'m \<Rightarrow> 'm"

definition request_serde :: "host_request serde" where
  "request_serde = \<lparr>sd_serialize = id, sd_deserialize = id\<rparr>"

definition message_serde :: "chrono_lib \<Rightarrow> host_message serde" where
  "message_serde ch = \<lparr>sd_serialize = with_times (ch_serialize ch), sd_deserialize = with_times (ch_deserialize ch)\<rparr>"

text \<open>\<open>bincode\<close>: encoding may fail; decoding returns the value and how many bytes it used.\<close>

record 'm host_codec =
  bc_encode :: "'m \<Rightarrow> string + bytes"
  bc_decode :: "bytes \<Rightarrow> string + ('m \<times> nat)"

definition encode_message :: "'m serde \<Rightarrow> 'm host_codec \<Rightarrow> 'm \<Rightarrow> string + bytes" where
  "encode_message sd c v = bc_encode c (sd_serialize sd v)"

definition decode_message :: "'m serde \<Rightarrow> 'm host_codec \<Rightarrow> bytes \<Rightarrow> string + 'm" where
  "decode_message sd c encoded =
     and_then (bc_decode c encoded) (\<lambda>(v, consumed).
       if consumed \<noteq> length encoded then Inl ''host frame contains trailing bytes'' else Inr (sd_deserialize sd v))"

text \<open>\<open>write_u32\<close> and \<open>read_u32\<close> are big-endian.\<close>

definition u32_bytes :: "nat \<Rightarrow> bytes" where
  "u32_bytes n = map char_of [n div 2 ^ 24 mod 256, n div 2 ^ 16 mod 256, n div 2 ^ 8 mod 256, n mod 256]"

definition u32_of_bytes :: "bytes \<Rightarrow> nat" where
  "u32_of_bytes bs = foldl (\<lambda>v c. v * 256 + of_char c) 0 bs"

definition write_frame :: "'m serde \<Rightarrow> 'm host_codec \<Rightarrow> 'm \<Rightarrow> string + bytes" where
  "write_frame sd c v =
     and_then (encode_message sd c v) (\<lambda>encoded.
       if MAX_HOST_FRAME_BYTES < length encoded then Inl ''host frame exceeds 16777216 bytes''
       else if 2 ^ 32 \<le> length encoded then Inl ''host frame length exceeds u32''
       else Inr (u32_bytes (length encoded) @ encoded))"

text \<open>
  \<open>read_frame\<close> on the bytes that are still to come before the peer closes: \<open>None\<close> when the stream
  ends where a length would start or inside one, otherwise the message and the remaining bytes.
\<close>

definition read_frame :: "'m serde \<Rightarrow> 'm host_codec \<Rightarrow> bytes \<Rightarrow> string + ('m \<times> bytes) option" where
  "read_frame sd c s =
     (if length s < 4 then Inr None
      else
        let n = u32_of_bytes (take 4 s); rest = drop 4 s in
        if MAX_HOST_FRAME_BYTES < n then Inl ''host frame exceeds 16777216 bytes''
        else if length rest < n then Inl ''early eof''
        else and_then (decode_message sd c (take n rest)) (\<lambda>v. Inr (Some (v, drop n rest))))"

text \<open>The reader's loop: every frame of the stream in order, until the end or the first error.\<close>

function read_frames :: "'m serde \<Rightarrow> 'm host_codec \<Rightarrow> bytes \<Rightarrow> 'm list \<times> string option" where
  "read_frames sd c s =
     (case read_frame sd c s of
        Inl e \<Rightarrow> ([], Some e)
      | Inr None \<Rightarrow> ([], None)
      | Inr (Some (v, rest)) \<Rightarrow> (case read_frames sd c rest of (vs, e) \<Rightarrow> (v # vs, e)))"
  by pat_completeness auto
termination
proof (relation "measure (\<lambda>(sd, c, s). length s)", goal_cases)
  case (2 sd c s r p v rest)
  then show ?case by (auto simp: read_frame_def Let_def res_simps split: if_splits)
qed simp

declare read_frames.simps [simp del]

section \<open>Facts\<close>

lemma u32_bytes_length [simp]: "length (u32_bytes n) = 4"
  by (simp add: u32_bytes_def)

lemma u32_round_trip: "n < 2 ^ 32 \<Longrightarrow> u32_of_bytes (u32_bytes n) = n"
proof -
  assume n: "n < 2 ^ 32"
  define a b c d where "a = n div 2 ^ 24 mod 256" and "b = n div 2 ^ 16 mod 256"
    and "c = n div 2 ^ 8 mod 256" and "d = n mod 256"
  have a: "a = n div 2 ^ 24" using n by (simp add: a_def)
  have "n div 2 ^ 8 = n div 2 ^ 16 * 256 + c" "n div 2 ^ 16 = n div 2 ^ 24 * 256 + b" "n = n div 2 ^ 8 * 256 + d"
    using div_mult_mod_eq [of "n div 2 ^ 8" 256] div_mult_mod_eq [of "n div 2 ^ 16" 256] div_mult_mod_eq [of n 256]
    by (simp_all add: b_def c_def d_def div_mult2_eq [symmetric])
  then have sum: "((a * 256 + b) * 256 + c) * 256 + d = n" using a by simp
  have "u32_bytes n = [char_of a, char_of b, char_of c, char_of d]"
    by (simp add: u32_bytes_def a_def b_def c_def d_def)
  moreover have "a mod 256 = a" "b mod 256 = b" "c mod 256 = c" "d mod 256 = d"
    by (simp_all add: a_def b_def c_def d_def)
  ultimately have "u32_of_bytes (u32_bytes n) = ((a * 256 + b) * 256 + c) * 256 + d"
    by (simp add: u32_of_bytes_def)
  with sum show ?thesis by simp
qed

text \<open>What the protocol relies on: on serialised forms, decoding undoes encoding and uses every byte.\<close>

definition codec_ok :: "'m host_codec \<Rightarrow> bool" where
  "codec_ok c \<longleftrightarrow> (\<forall>v bs. bc_encode c v = Inr bs \<longrightarrow> bc_decode c bs = Inr (v, length bs))"

text \<open>\<open>ts_milliseconds\<close> is documented to store a time as its whole milliseconds since the epoch.\<close>

definition chrono_ok :: "chrono_lib \<Rightarrow> bool" where
  "chrono_ok ch \<longleftrightarrow> (\<forall>t. ch_serialize ch t = t div 10 ^ 6) \<and> (\<forall>m. ch_deserialize ch m = m * 10 ^ 6)"

definition reread :: "'m serde \<Rightarrow> 'm \<Rightarrow> 'm" where
  "reread sd v = sd_deserialize sd (sd_serialize sd v)"

lemma frame_round_trip:
  assumes "codec_ok c" "write_frame sd c v = Inr f"
  shows "read_frame sd c (f @ rest) = Inr (Some (reread sd v, rest))"
proof -
  obtain e where e: "bc_encode c (sd_serialize sd v) = Inr e" "length e \<le> MAX_HOST_FRAME_BYTES" "f = u32_bytes (length e) @ e"
    using assms(2) by (auto simp: write_frame_def encode_message_def res_simps split: if_splits)
  then have "length e < 2 ^ 32" by (simp add: MAX_HOST_FRAME_BYTES_def)
  then have "u32_of_bytes (u32_bytes (length e)) = length e" by (rule u32_round_trip)
  moreover have "decode_message sd c e = Inr (reread sd v)"
    using assms(1) e(1) by (auto simp: codec_ok_def decode_message_def reread_def)
  ultimately show ?thesis using e by (simp add: read_frame_def Let_def)
qed

lemma frame_progress: "write_frame sd c v = Inr f \<Longrightarrow> 4 \<le> length f \<and> length f \<le> 4 + MAX_HOST_FRAME_BYTES"
  by (auto simp: write_frame_def res_simps split: if_splits)

lemma stream_round_trip:
  assumes "codec_ok c" "list_all2 (\<lambda>v f. write_frame sd c v = Inr f) vs fs" "length partial < 4"
  shows "read_frames sd c (concat fs @ partial) = (map (reread sd) vs, None)
    \<and> (\<forall>f \<in> set fs. length f \<le> 4 + MAX_HOST_FRAME_BYTES)"
  using assms(2)
proof (induction rule: list_all2_induct)
  case Nil
  then show ?case using assms(3) by (simp add: read_frames.simps read_frame_def)
next
  case (Cons v vs f fs)
  have "read_frame sd c (f @ concat fs @ partial) = Inr (Some (reread sd v, concat fs @ partial))"
    by (rule frame_round_trip [OF assms(1) Cons.hyps(1)])
  then show ?case
    using Cons frame_progress [OF Cons.hyps(1)]
    by (simp add: read_frames.simps [of sd c "f @ concat fs @ partial"])
qed

definition whole_millis :: "nanos \<Rightarrow> nanos" where
  "whole_millis t = t - t mod 10 ^ 6"

lemma millis_round_trip: "chrono_ok ch \<Longrightarrow> ch_deserialize ch (ch_serialize ch t) = whole_millis t"
  unfolding chrono_ok_def whole_millis_def by (simp only: minus_mod_eq_div_mult)

lemma with_times_comp:
  "with_times_process f (with_times_process g p) = with_times_process (f \<circ> g) p"
  "with_times_chunk f (with_times_chunk g c) = with_times_chunk (f \<circ> g) c"
  "with_times_replay f (with_times_replay g r) = with_times_replay (f \<circ> g) r"
  by (simp_all add: with_times_process_def with_times_chunk_def with_times_replay_def option.map_comp)

lemma with_times_response_comp: "with_times_response f (with_times_response g r) = with_times_response (f \<circ> g) r"
  by (cases r) (simp_all add: with_times_comp)

lemma reread_request: "reread request_serde v = v"
  by (simp add: reread_def request_serde_def)

lemma reread_message: "reread (message_serde ch) m = with_times whole_millis m" if "chrono_ok ch"
proof -
  have "ch_deserialize ch \<circ> ch_serialize ch = whole_millis" by (simp add: fun_eq_iff millis_round_trip [OF that])
  then show ?thesis
    by (cases m) (simp_all add: reread_def message_serde_def with_times_comp with_times_response_comp option.map_comp o_def)
qed

text \<open>
  C38: Frames survive the stream.  With a codec that reads back the serialised values it wrote and times
  serialised as milliseconds, whatever requests a controller writes, the host's read loop returns exactly them in order and then
  stops cleanly, also when the connection is cut in the middle of the next length.  The messages of the
  host arrive in order as well, each with its times cut to whole milliseconds and otherwise unchanged.
  Every frame on the wire is at most 16 MiB plus its length.
\<close>

theorem frames_round_trip:
  assumes "codec_ok cq" "list_all2 (\<lambda>v f. write_frame request_serde cq v = Inr f) requests fs"
    and "codec_ok cm" "list_all2 (\<lambda>v f. write_frame (message_serde ch) cm v = Inr f) messages gs"
    and "chrono_ok ch" "length partial < 4"
  shows "read_frames request_serde cq (concat fs @ partial) = (requests, None)
    \<and> read_frames (message_serde ch) cm (concat gs @ partial) = (map (with_times (\<lambda>t. t - t mod 10 ^ 6)) messages, None)
    \<and> (\<forall>f \<in> set (fs @ gs). length f \<le> 4 + 16 * 1024 * 1024)"
proof -
  have "(\<lambda>t. t - t mod 10 ^ 6) = whole_millis" by (simp add: fun_eq_iff whole_millis_def)
  moreover have "map (reread request_serde) requests = requests" by (rule map_idI) (rule reread_request)
  moreover have "map (reread (message_serde ch)) messages = map (with_times whole_millis) messages"
    using reread_message [OF assms(5)] by simp
  ultimately show ?thesis
    using stream_round_trip [OF assms(1,2,6)] stream_round_trip [OF assms(3,4,6)] by (auto simp: MAX_HOST_FRAME_BYTES_def)
qed

section \<open>An instance\<close>

text \<open>A codec of fixed-width numbers and length-prefixed strings for two kinds of frames; it refuses the others.\<close>

definition put_str :: "string \<Rightarrow> bytes" where
  "put_str s = u32_bytes (length s) @ s"

definition get_num :: "bytes \<Rightarrow> nat \<times> bytes" where
  "get_num bs = (u32_of_bytes (take 4 bs), drop 4 bs)"

definition get_str :: "bytes \<Rightarrow> string \<times> bytes" where
  "get_str bs = (case get_num bs of (n, r) \<Rightarrow> (take n r, drop n r))"

lemma get_num_put: "n < 2 ^ 32 \<Longrightarrow> get_num (u32_bytes n @ r) = (n, r)"
  by (simp add: get_num_def u32_round_trip)

lemma get_str_put: "length s < 2 ^ 32 \<Longrightarrow> get_str (put_str s @ r) = (s, r)"
  by (simp add: get_str_def put_str_def get_num_put)

definition short :: "string \<Rightarrow> bool" where
  "short s \<longleftrightarrow> length s < 2 ^ 32"

fun stop_encode :: "host_request \<Rightarrow> string + bytes" where
  "stop_encode q = (case (rq_operation_id q, rq_command q) of
     (Some operation, Stop i) \<Rightarrow>
       if rq_protocol q < 2 ^ 32 \<and> short (rq_request_id q) \<and> short operation \<and> short i then
         Inr (u32_bytes (rq_protocol q) @ put_str (rq_request_id q) @ put_str operation @ put_str i)
       else Inl ''too long''
   | _ \<Rightarrow> Inl ''not supported'')"

definition stop_decode :: "bytes \<Rightarrow> string + (host_request \<times> nat)" where
  "stop_decode bs =
     (case get_num bs of (n, b1) \<Rightarrow> case get_str b1 of (q, b2) \<Rightarrow> case get_str b2 of (p, b3) \<Rightarrow> case get_str b3 of (i, b4) \<Rightarrow>
       Inr (\<lparr>rq_protocol = n, rq_request_id = q, rq_operation_id = Some p, rq_command = Stop i\<rparr>, length bs - length b4))"

definition stop_codec :: "host_request host_codec" where
  "stop_codec = \<lparr>bc_encode = stop_encode, bc_decode = stop_decode\<rparr>"

fun chunk_encode :: "host_message \<Rightarrow> string + bytes" where
  "chunk_encode (MsgOutput c) =
     (if short (hc_process_id c) \<and> short (hc_stream_epoch c) \<and> hc_revision c < 2 ^ 32 \<and> short (hc_data c)
         \<and> 0 \<le> hc_emitted_at c \<and> hc_emitted_at c < 2 ^ 32 then
        Inr (put_str (hc_process_id c) @ put_str (hc_stream_epoch c) @ u32_bytes (hc_revision c) @ put_str (hc_data c)
          @ u32_bytes (if hc_bracketed_paste c then 1 else 0) @ u32_bytes (nat (hc_emitted_at c)))
      else Inl ''too long'')"
| "chunk_encode _ = Inl ''not supported''"

definition chunk_decode :: "bytes \<Rightarrow> string + (host_message \<times> nat)" where
  "chunk_decode bs =
     (case get_str bs of (i, b1) \<Rightarrow> case get_str b1 of (e, b2) \<Rightarrow> case get_num b2 of (n, b3) \<Rightarrow> case get_str b3 of (d, b4) \<Rightarrow>
      case get_num b4 of (p, b5) \<Rightarrow> case get_num b5 of (t, b6) \<Rightarrow>
       Inr (MsgOutput \<lparr>hc_process_id = i, hc_stream_epoch = e, hc_revision = n, hc_data = d,
         hc_bracketed_paste = (p = 1), hc_emitted_at = int t\<rparr>, length bs - length b6))"

definition chunk_codec :: "host_message host_codec" where
  "chunk_codec = \<lparr>bc_encode = chunk_encode, bc_decode = chunk_decode\<rparr>"

lemma get_num_all: "n < 2 ^ 32 \<Longrightarrow> get_num (u32_bytes n) = (n, [])"
  using get_num_put [of n "[]"] by simp

lemma get_str_all: "length s < 2 ^ 32 \<Longrightarrow> get_str (put_str s) = (s, [])"
  using get_str_put [of s "[]"] by simp

lemmas get_put = get_num_put get_num_all get_str_put get_str_all short_def

lemma stop_codec_ok: "codec_ok stop_codec"
  by (auto simp: codec_ok_def stop_codec_def stop_decode_def get_put split: option.splits host_command.splits if_splits)

lemma chunk_codec_ok: "codec_ok chunk_codec"
proof -
  have "chunk_decode bs = Inr (v, length bs)" if "chunk_encode v = Inr bs" for v bs
    using that by (cases v) (auto simp: chunk_decode_def get_put split: if_splits)
  then show ?thesis by (simp add: codec_ok_def chunk_codec_def)
qed

definition millis_lib :: chrono_lib where
  "millis_lib = \<lparr>ch_serialize = (\<lambda>t. t div 10 ^ 6), ch_deserialize = (\<lambda>m. m * 10 ^ 6)\<rparr>"

lemma millis_lib_ok: "chrono_ok millis_lib"
  by (simp add: chrono_ok_def millis_lib_def)

definition stop_request :: host_request where
  "stop_request = \<lparr>rq_protocol = 2, rq_request_id = ''req_1'', rq_operation_id = Some ''cmd_1'', rq_command = Stop ''p1''\<rparr>"

definition timed_chunk :: "nanos \<Rightarrow> host_message" where
  "timed_chunk t = MsgOutput \<lparr>hc_process_id = ''p1'', hc_stream_epoch = ''s'', hc_revision = 9, hc_data = ''out'',
     hc_bracketed_paste = False, hc_emitted_at = t\<rparr>"

theorem frames_round_trip_witness:
  "\<exists>f g h. write_frame request_serde stop_codec stop_request = Inr f
     \<and> write_frame (message_serde millis_lib) chunk_codec (timed_chunk 1234567) = Inr g
     \<and> write_frame (message_serde millis_lib) chunk_codec (timed_chunk 3000000) = Inr h
     \<and> read_frames request_serde stop_codec (f @ f @ ''xy'') = ([stop_request, stop_request], None)
     \<and> read_frames (message_serde millis_lib) chunk_codec (g @ h @ ''xy'') = ([timed_chunk 1000000, timed_chunk 3000000], None)"
proof -
  obtain f where f: "write_frame request_serde stop_codec stop_request = Inr f"
    by (simp add: write_frame_def encode_message_def request_serde_def stop_codec_def stop_request_def short_def put_str_def
        MAX_HOST_FRAME_BYTES_def)
  have "\<exists>g. write_frame (message_serde millis_lib) chunk_codec (timed_chunk t) = Inr g" if "0 \<le> t div 10 ^ 6" "t div 10 ^ 6 < 2 ^ 32" for t
    using that by (simp add: write_frame_def encode_message_def message_serde_def chunk_codec_def timed_chunk_def short_def put_str_def
        with_times_chunk_def millis_lib_def MAX_HOST_FRAME_BYTES_def)
  from this [of 1234567] this [of 3000000] obtain g h where
    gh: "write_frame (message_serde millis_lib) chunk_codec (timed_chunk 1234567) = Inr g"
      "write_frame (message_serde millis_lib) chunk_codec (timed_chunk 3000000) = Inr h" by auto
  have "with_times (\<lambda>t. t - t mod 10 ^ 6) (timed_chunk t) = timed_chunk (t - t mod 10 ^ 6)" for t
    by (simp add: timed_chunk_def with_times_chunk_def)
  then show ?thesis
    using frames_round_trip [OF stop_codec_ok _ chunk_codec_ok _ millis_lib_ok, of "[stop_request, stop_request]" "[f, f]"
        "[timed_chunk 1234567, timed_chunk 3000000]" "[g, h]" "''xy''"] f gh by simp
qed

end
