(* ===== verification/Host_Output.thy ===== *)
theory Host_Output
  imports Host_Protocol
begin

text \<open>
  Output of a hosted process (\<open>OutputBuffer\<close> and \<open>ConPtyCursorQuery\<close> of
  \<open>crates/treer-agent-runtime\<close>): a ring of chunks with revisions, replay from a cursor, and the two
  scanners of terminal sequences, which see the output in arbitrary pieces.
\<close>

section \<open>The buffer\<close>

definition OUTPUT_LIMIT_BYTES :: nat where
  "OUTPUT_LIMIT_BYTES = 512 * 1024"

definition BRACKETED_PASTE_ENABLE :: bytes where
  "BRACKETED_PASTE_ENABLE = CHR 0x1B # ''[?2004h''"

definition BRACKETED_PASTE_DISABLE :: bytes where
  "BRACKETED_PASTE_DISABLE = CHR 0x1B # ''[?2004l''"

record output_buffer =
  ob_stream_epoch :: string
  ob_chunks :: "host_output_chunk list"
  ob_byte_len :: nat
  ob_next_revision :: nat
  ob_mode_tail :: bytes
  ob_bracketed_paste :: bool

definition output_new :: "string \<Rightarrow> output_buffer" where
  "output_new epoch = \<lparr>ob_stream_epoch = epoch, ob_chunks = [], ob_byte_len = 0, ob_next_revision = 1,
     ob_mode_tail = [], ob_bracketed_paste = False\<rparr>"

text \<open>The loop over the suffixes of \<open>scan\<close>.\<close>

fun scan_modes :: "bool \<Rightarrow> bytes \<Rightarrow> bool" where
  "scan_modes paste [] = paste"
| "scan_modes paste (c # cs) =
     scan_modes (if starts_with (c # cs) BRACKETED_PASTE_ENABLE then True
                 else if starts_with (c # cs) BRACKETED_PASTE_DISABLE then False else paste) cs"

definition update_terminal_modes :: "bytes \<Rightarrow> output_buffer \<Rightarrow> output_buffer" where
  "update_terminal_modes bs b =
     (let scan = ob_mode_tail b @ bs;
          tail_len = min (max (length BRACKETED_PASTE_ENABLE) (length BRACKETED_PASTE_DISABLE) - 1) (length scan)
      in b\<lparr>ob_bracketed_paste := scan_modes (ob_bracketed_paste b) scan,
           ob_mode_tail := drop (length scan - tail_len) scan\<rparr>)"

fun evict_chunks :: "nat \<Rightarrow> host_output_chunk list \<Rightarrow> nat \<times> host_output_chunk list" where
  "evict_chunks n [] = (n, [])"
| "evict_chunks n (c # cs) =
     (if OUTPUT_LIMIT_BYTES < n then evict_chunks (n - length (hc_data c)) cs else (n, c # cs))"

definition output_push ::
  "nanos \<Rightarrow> string \<Rightarrow> bytes \<Rightarrow> output_buffer \<Rightarrow> host_output_chunk \<times> output_buffer" where
  "output_push now process_id bs b0 =
     (let b = update_terminal_modes bs b0;
          chunk = \<lparr>hc_process_id = process_id, hc_stream_epoch = ob_stream_epoch b,
                   hc_revision = ob_next_revision b, hc_data = bs,
                   hc_bracketed_paste = ob_bracketed_paste b, hc_emitted_at = now\<rparr>;
          (n, cs) = evict_chunks (ob_byte_len b + length bs) (ob_chunks b @ [chunk])
      in (chunk, b\<lparr>ob_next_revision := sat_add64 (ob_next_revision b) 1, ob_byte_len := n, ob_chunks := cs\<rparr>))"

definition output_first_revision :: "output_buffer \<Rightarrow> nat" where
  "output_first_revision b = (case ob_chunks b of [] \<Rightarrow> ob_next_revision b | c # _ \<Rightarrow> hc_revision c)"

definition output_replay :: "string \<Rightarrow> output_cursor option \<Rightarrow> output_buffer \<Rightarrow> host_output_replay" where
  "output_replay process_id cursor b =
     (let first = output_first_revision b;
          matching = (case cursor of
             Some c \<Rightarrow> if oc_stream_epoch c = ob_stream_epoch b then oc_revision c else 0 | None \<Rightarrow> 0);
          gap = is_some_and cursor (\<lambda>c. oc_stream_epoch c \<noteq> ob_stream_epoch b
                  \<or> sat_add64 (oc_revision c) 1 < first)
      in \<lparr>hr_process_id = process_id, hr_stream_epoch = ob_stream_epoch b,
          hr_first_available_revision = first, hr_next_revision = ob_next_revision b, hr_gap = gap,
          hr_chunks = filter (\<lambda>c. matching < hc_revision c) (ob_chunks b)\<rparr>)"

section \<open>The cursor query\<close>

definition QUERY :: bytes where
  "QUERY = CHR 0x1B # ''[6n''"

record cursor_query =
  cq_matched :: nat
  cq_answered :: bool

definition query_default :: cursor_query where
  "query_default = \<lparr>cq_matched = 0, cq_answered = False\<rparr>"

fun observe_bytes :: "nat \<Rightarrow> bytes \<Rightarrow> bool \<times> nat" where
  "observe_bytes m [] = (False, m)"
| "observe_bytes m (b # bs) =
     (if b = QUERY ! m then
        (if m + 1 = length QUERY then (True, m + 1) else observe_bytes (m + 1) bs)
      else observe_bytes (if b = QUERY ! 0 then 1 else 0) bs)"

definition observe :: "bytes \<Rightarrow> cursor_query \<Rightarrow> bool \<times> cursor_query" where
  "observe bs q =
     (if cq_answered q then (False, q)
      else case observe_bytes (cq_matched q) bs of (found, m) \<Rightarrow>
        (found, \<lparr>cq_matched = m, cq_answered = found\<rparr>))"

section \<open>Terminal modes do not depend on the pieces\<close>

fun push_all :: "string \<Rightarrow> (nanos \<times> bytes) list \<Rightarrow> output_buffer \<Rightarrow> output_buffer" where
  "push_all process_id [] b = b"
| "push_all process_id ((now, bs) # ps) b = push_all process_id ps (snd (output_push now process_id bs b))"

lemma push_all_append: "push_all i (ps @ qs) b = push_all i qs (push_all i ps b)"
  by (induction ps arbitrary: b) auto

lemma push_epoch [simp]: "ob_stream_epoch (snd (output_push now i bs b)) = ob_stream_epoch b"
  by (simp add: output_push_def update_terminal_modes_def Let_def split: prod.splits)

lemma push_all_epoch [simp]: "ob_stream_epoch (push_all i ps b) = ob_stream_epoch b"
  by (induction i ps b rule: push_all.induct) simp_all

lemma starts_with_append:
  "length p \<le> length s \<Longrightarrow> starts_with (s @ t) p = starts_with s p"
  by (simp add: starts_with_def)

lemma paste_length [simp]: "length BRACKETED_PASTE_ENABLE = 8" "length BRACKETED_PASTE_DISABLE = 8"
  by (simp_all add: BRACKETED_PASTE_ENABLE_def BRACKETED_PASTE_DISABLE_def)

lemma starts_with_short: "length s < length p \<Longrightarrow> \<not> starts_with s p"
  by (auto simp: starts_with_def)

lemma scan_short: "length s < 8 \<Longrightarrow> scan_modes m s = m"
  by (induction s arbitrary: m) (auto simp: starts_with_short)

text \<open>A tail of seven bytes is enough to continue the scan.\<close>

lemma scan_continue:
  assumes "length t \<le> 7" "p = [] \<or> length t = 7"
  shows "scan_modes m (p @ t @ s) = scan_modes (scan_modes m (p @ t)) (t @ s)"
  using assms(2)
proof (induction p arbitrary: m)
  case Nil
  then show ?case using assms(1) by (simp add: scan_short)
next
  case (Cons c p)
  then have "starts_with ((c # p @ t) @ s) q = starts_with (c # p @ t) q" if "length q = 8" for q
    using that by (intro starts_with_append) simp
  from this [of BRACKETED_PASTE_ENABLE] this [of BRACKETED_PASTE_DISABLE] Cons show ?case by simp
qed

definition modes_ok :: "bytes \<Rightarrow> output_buffer \<Rightarrow> bool" where
  "modes_ok s b \<longleftrightarrow> ob_bracketed_paste b = scan_modes False s
     \<and> ob_mode_tail b = drop (length s - min 7 (length s)) s"

lemma update_modes_ok:
  assumes "modes_ok s b"
  shows "modes_ok (s @ bs) (update_terminal_modes bs b)"
proof -
  define k where "k = length s - min 7 (length s)"
  define p t where "p = take k s" and "t = drop k s"
  have s: "s = p @ t" by (simp add: p_def t_def)
  have t: "length t \<le> 7" "p = [] \<or> length t = 7" by (auto simp: p_def t_def k_def)
  have b: "ob_mode_tail b = t" using assms by (simp add: modes_ok_def t_def k_def)
  have f: "ob_bracketed_paste b = scan_modes False (p @ t)"
    using assms unfolding modes_ok_def s [symmetric] by simp
  have "scan_modes (scan_modes False (p @ t)) (t @ bs) = scan_modes False (s @ bs)"
    using scan_continue [OF t, of False bs] by (simp add: s)
  moreover have "drop (length (t @ bs) - min 7 (length (t @ bs))) (t @ bs)
      = drop (length (s @ bs) - min 7 (length (s @ bs))) (s @ bs)"
  proof (cases "p = []")
    case False
    then have "length (s @ bs) - min 7 (length (s @ bs)) = length p + (length (t @ bs) - min 7 (length (t @ bs)))"
      using t(2) by (simp add: s)
    then show ?thesis by (simp add: s)
  qed (simp add: s)
  ultimately show ?thesis
    using b f by (simp add: modes_ok_def update_terminal_modes_def Let_def min.commute)
qed

lemma push_modes_ok: "modes_ok s b \<Longrightarrow> modes_ok (s @ bs) (snd (output_push now i bs b))"
  using update_modes_ok [of s b bs]
  by (simp add: output_push_def Let_def modes_ok_def split: prod.splits)

lemma push_all_modes: "modes_ok s b \<Longrightarrow> modes_ok (s @ concat (map snd ps)) (push_all i ps b)"
proof (induction ps arbitrary: s b)
  case (Cons p ps)
  obtain now bs where "p = (now, bs)" by force
  with Cons.IH [OF push_modes_ok [OF Cons.prems, of bs now i]] show ?case by simp
qed simp

text \<open>
  Bracketed-paste detection does not depend on how the terminal output was cut into reads:
  after any sequence of pushes the flag is the one a single scan of the whole output gives, so a
  mode sequence split across two reads is neither missed nor applied twice.
\<close>

theorem paste_mode_ignores_chunking:
  "ob_bracketed_paste (push_all i ps (output_new epoch)) = scan_modes False (concat (map snd ps))"
proof -
  have "modes_ok [] (output_new epoch)" by (simp add: modes_ok_def output_new_def)
  from push_all_modes [OF this, of ps i] show ?thesis by (simp add: modes_ok_def)
qed

section \<open>Replay\<close>

declare upt_Suc [simp del]

definition chunk_bytes :: "host_output_chunk list \<Rightarrow> nat" where
  "chunk_bytes cs = sum_list (map (\<lambda>c. length (hc_data c)) cs)"

lemma chunk_bytes_Cons [simp]: "chunk_bytes (c # cs) = length (hc_data c) + chunk_bytes cs"
  by (simp add: chunk_bytes_def)

lemma chunk_bytes_data: "chunk_bytes cs = sum_list (map length (map hc_data cs))"
  by (simp add: chunk_bytes_def comp_def)

lemma evict_chunks_spec:
  assumes "n = chunk_bytes cs" "evict_chunks n cs = (n', cs')"
  shows "\<exists>k \<le> length cs. cs' = drop k cs \<and> n' = chunk_bytes cs'
    \<and> n' \<le> OUTPUT_LIMIT_BYTES
    \<and> (0 < k \<longrightarrow> OUTPUT_LIMIT_BYTES < chunk_bytes (drop (k - 1) cs))"
  using assms
proof (induction n cs rule: evict_chunks.induct)
  case (2 n c cs)
  show ?case
  proof (cases "OUTPUT_LIMIT_BYTES < n")
    case True
    with 2 obtain k where k: "k \<le> length cs" "cs' = drop k cs" "n' = chunk_bytes cs'"
      "n' \<le> OUTPUT_LIMIT_BYTES" "0 < k \<longrightarrow> OUTPUT_LIMIT_BYTES < chunk_bytes (drop (k - 1) cs)"
      by auto
    have "OUTPUT_LIMIT_BYTES < chunk_bytes (drop k (c # cs))"
      using k(5) True 2 by (cases k) auto
    with k show ?thesis by (intro exI [of _ "Suc k"]) simp
  next
    case False
    with 2 show ?thesis by (intro exI [of _ 0]) auto
  qed
qed (auto simp: OUTPUT_LIMIT_BYTES_def chunk_bytes_def)

text \<open>The buffer after a history of pieces \<open>ds\<close>, of which the first \<open>k\<close> are no longer kept.\<close>

definition holds :: "nat \<Rightarrow> bytes list \<Rightarrow> output_buffer \<Rightarrow> bool" where
  "holds k ds b \<longleftrightarrow> k \<le> length ds \<and> ob_next_revision b = length ds + 1
     \<and> map (\<lambda>c. (hc_revision c, hc_data c)) (ob_chunks b) = zip [k + 1 ..< length ds + 1] (drop k ds)
     \<and> ob_byte_len b = sum_list (map length (drop k ds)) \<and> ob_byte_len b \<le> OUTPUT_LIMIT_BYTES
     \<and> (0 < k \<longrightarrow> OUTPUT_LIMIT_BYTES < sum_list (map length (drop (k - 1) ds)))"

lemma pair_data: "map (\<lambda>c. (f c, g c)) cs = zip xs ys \<Longrightarrow> length xs = length ys \<Longrightarrow> map g cs = ys"
proof -
  assume eq: "map (\<lambda>c. (f c, g c)) cs = zip xs ys" and len: "length xs = length ys"
  have "map g cs = map snd (map (\<lambda>c. (f c, g c)) cs)" by (simp add: comp_def)
  also have "\<dots> = ys" using len by (simp only: eq map_snd_zip)
  finally show ?thesis .
qed

lemma holds_data: "holds k ds b \<Longrightarrow> map hc_data (ob_chunks b) = drop k ds"
  unfolding holds_def by (elim conjE) (rule pair_data, auto)

lemma push_holds:
  assumes h: "holds k ds b" and small: "length ds + 1 < U64_MAX"
  shows "\<exists>k' \<ge> k. holds k' (ds @ [d]) (snd (output_push now i d b))"
proof -
  define c where "c = \<lparr>hc_process_id = i, hc_stream_epoch = ob_stream_epoch b, hc_revision = ob_next_revision b,
    hc_data = d, hc_bracketed_paste = ob_bracketed_paste (update_terminal_modes d b), hc_emitted_at = now\<rparr>"
  define cs where "cs = ob_chunks b @ [c]"
  have kept: "ob_stream_epoch (update_terminal_modes d b) = ob_stream_epoch b"
    "ob_next_revision (update_terminal_modes d b) = ob_next_revision b"
    "ob_byte_len (update_terminal_modes d b) = ob_byte_len b" "ob_chunks (update_terminal_modes d b) = ob_chunks b"
    by (simp_all add: update_terminal_modes_def Let_def)
  have k: "k \<le> length ds" and nr: "ob_next_revision b = length ds + 1"
    and old: "0 < k \<longrightarrow> OUTPUT_LIMIT_BYTES < sum_list (map length (drop (k - 1) ds))"
    using h by (auto simp: holds_def)
  have data: "map hc_data cs = drop k ds @ [d]" using holds_data [OF h] by (simp add: cs_def c_def)
  then have data': "map hc_data cs = drop k (ds @ [d])" using k by simp
  have pairs: "map (\<lambda>c. (hc_revision c, hc_data c)) cs = zip [k + 1 ..< length ds + 2] (drop k (ds @ [d]))"
  proof -
    have "[k + 1 ..< length ds + 2] = [k + 1 ..< length ds + 1] @ [length ds + 1]"
      using k upt_Suc_append [of "k + 1" "length ds + 1"] by simp
    moreover have "drop k (ds @ [d]) = drop k ds @ [d]" using k by simp
    ultimately show ?thesis using h k by (simp add: holds_def cs_def c_def nr zip_append)
  qed
  obtain n' cs' where ev: "evict_chunks (ob_byte_len b + length d) cs = (n', cs')" by force
  have "ob_byte_len b + length d = chunk_bytes cs"
    using h k by (simp add: chunk_bytes_data data holds_def del: map_map)
  from evict_chunks_spec [OF this ev] obtain j where j: "j \<le> length cs" "cs' = drop j cs"
    "n' = chunk_bytes cs'" "n' \<le> OUTPUT_LIMIT_BYTES"
    "0 < j \<longrightarrow> OUTPUT_LIMIT_BYTES < chunk_bytes (drop (j - 1) cs)" by auto
  have sums: "chunk_bytes (drop m cs) = sum_list (map length (drop (k + m) (ds @ [d])))" for m
    by (simp add: chunk_bytes_data drop_map [symmetric] data' add.commute del: drop_append map_map)
  have len: "length cs = length ds + 1 - k" using arg_cong [OF data, of length] k by simp
  have drops: "map (\<lambda>c. (hc_revision c, hc_data c)) (drop j cs)
      = zip [k + j + 1 ..< length ds + 2] (drop (k + j) (ds @ [d]))"
    by (simp add: drop_map [symmetric] pairs drop_zip add.commute add.left_commute del: drop_append)
  have more: "0 < k + j \<longrightarrow> OUTPUT_LIMIT_BYTES < sum_list (map length (drop (k + j - 1) (ds @ [d])))"
  proof (cases j)
    case 0
    with old k show ?thesis by (auto simp: trans_less_add1)
  next
    case (Suc m)
    then show ?thesis using j(5) sums [of m] by simp
  qed
  have push: "snd (output_push now i d b) = (update_terminal_modes d b)
      \<lparr>ob_next_revision := sat_add64 (ob_next_revision b) 1, ob_byte_len := n', ob_chunks := cs'\<rparr>"
    by (simp add: output_push_def Let_def kept c_def [symmetric] cs_def [symmetric] ev)
  have "holds (k + j) (ds @ [d]) (snd (output_push now i d b))"
    unfolding holds_def push using j(1-4) len k drops more small sums [of j] nr
    by (simp add: sat_add64_def del: drop_append)
  then show ?thesis by (intro exI [of _ "k + j"]) simp
qed

lemma push_all_holds:
  "holds k ds b \<Longrightarrow> length ds + length ps + 1 < U64_MAX \<Longrightarrow> \<exists>k'. holds k' (ds @ map snd ps) (push_all i ps b)"
proof (induction ps arbitrary: k ds b)
  case (Cons p ps)
  obtain now d where p: "p = (now, d)" by force
  obtain k' where "holds k' (ds @ [d]) (snd (output_push now i d b))"
    using push_holds [OF Cons.prems(1), of d now i] Cons.prems(2) by auto
  from Cons.IH [OF this] Cons.prems(2) show ?case by (simp add: p)
qed auto

lemma filter_zip_upt:
  "filter (\<lambda>(r, _). m < r) (zip [Suc a ..< Suc (a + length ds)] ds)
    = zip [Suc (max m a) ..< Suc (a + length ds)] (drop (max m a - a) ds)"
proof (induction ds arbitrary: a)
  case (Cons d ds)
  have up: "[Suc a ..< Suc (Suc (a + length ds))] = Suc a # [Suc (Suc a) ..< Suc (Suc a + length ds)]"
    by (simp add: upt_conv_Cons)
  consider "m \<le> a" | j where "m = Suc (a + j)" by (metis less_imp_Suc_add not_less)
  then show ?case
  proof cases
    case 1
    then have "filter (\<lambda>(r, _). m < r) (zip [Suc a ..< Suc (a + length (d # ds))] (d # ds))
        = zip [Suc a ..< Suc (a + length (d # ds))] (d # ds)"
      by (auto simp: filter_id_conv dest: set_zip_leftD)
    with 1 show ?thesis by (simp add: max_def)
  next
    case 2
    then have "max m a = m" "max m (Suc a) = m" by auto
    with 2 Cons.IH [of "Suc a"] show ?thesis by (simp add: up)
  qed
qed simp

lemma holds_replay:
  assumes h: "holds k ds b" and r: "r \<le> length ds" and small: "length ds + 1 < U64_MAX"
    and rep_def: "rep = output_replay i (Some \<lparr>oc_stream_epoch = ob_stream_epoch b, oc_revision = r\<rparr>) b"
  shows "hr_gap rep \<longleftrightarrow> r < k"
    and "map (\<lambda>c. (hc_revision c, hc_data c)) (hr_chunks rep) = zip [max r k + 1 ..< length ds + 1] (drop (max r k) ds)"
proof -
  have k: "k \<le> length ds" and nr: "ob_next_revision b = length ds + 1"
    and pairs: "map (\<lambda>c. (hc_revision c, hc_data c)) (ob_chunks b) = zip [k + 1 ..< length ds + 1] (drop k ds)"
    using h by (auto simp: holds_def)
  have first: "output_first_revision b = k + 1"
  proof (cases "ob_chunks b")
    case Nil
    then have "k = length ds" using arg_cong [OF pairs, of length] k by simp
    with Nil nr show ?thesis by (simp add: output_first_revision_def)
  next
    case (Cons c cs)
    then have "k < length ds" using arg_cong [OF pairs, of length] k by simp
    then have "zip [k + 1 ..< length ds + 1] (drop k ds)
        = (k + 1, ds ! k) # zip [k + 2 ..< length ds + 1] (drop (Suc k) ds)"
      by (simp add: upt_conv_Cons Cons_nth_drop_Suc [symmetric])
    with pairs Cons show ?thesis by (simp add: output_first_revision_def)
  qed
  show "hr_gap rep \<longleftrightarrow> r < k"
    using first r small by (simp add: rep_def output_replay_def Let_def sat_add64_def)
  have "map (\<lambda>c. (hc_revision c, hc_data c)) (hr_chunks rep)
      = filter (\<lambda>(n, _). r < n) (map (\<lambda>c. (hc_revision c, hc_data c)) (ob_chunks b))"
    by (simp add: rep_def output_replay_def Let_def filter_map comp_def)
  also have "\<dots> = zip [max r k + 1 ..< length ds + 1] (drop (max r k) ds)"
    using filter_zip_upt [of r k "drop k ds"] k by (simp add: pairs)
  finally show "map (\<lambda>c. (hc_revision c, hc_data c)) (hr_chunks rep)
      = zip [max r k + 1 ..< length ds + 1] (drop (max r k) ds)" .
qed

text \<open>
  Replay is exact.  After any history of output pieces there is a cut: the pieces before it
  were dropped, and only because keeping one more would exceed 512 KiB; the pieces after it are
  kept.  A client that presents the revision of the last piece it saw gets exactly the pieces it
  has not seen, in order and with consecutive revisions, and \<open>gap\<close> is reported exactly when a
  piece it has not seen was dropped.
\<close>

theorem output_replay_exact:
  assumes "length ps + 1 < U64_MAX" and "b = push_all i ps (output_new epoch)" and "ds = map snd ps"
  shows "\<exists>k \<le> length ds. sum_list (map length (drop k ds)) \<le> 512 * 1024
    \<and> (0 < k \<longrightarrow> 512 * 1024 < sum_list (map length (drop (k - 1) ds)))
    \<and> (\<forall>r \<le> length ds.
         let rep = output_replay i (Some \<lparr>oc_stream_epoch = ob_stream_epoch b, oc_revision = r\<rparr>) b in
         (hr_gap rep \<longleftrightarrow> r < k)
         \<and> map hc_revision (hr_chunks rep) = [max r k + 1 ..< length ds + 1]
         \<and> map hc_data (hr_chunks rep) = drop (max r k) ds)"
proof -
  have "holds 0 [] (output_new epoch)" by (simp add: holds_def output_new_def)
  from push_all_holds [OF this, of ps i] assms obtain k where h: "holds k ds b" by auto
  have k: "k \<le> length ds" using h by (simp add: holds_def)
  have small: "length ds + 1 < U64_MAX" using assms(1,3) by simp
  have "let rep = output_replay i (Some \<lparr>oc_stream_epoch = ob_stream_epoch b, oc_revision = r\<rparr>) b in
         (hr_gap rep \<longleftrightarrow> r < k)
         \<and> map hc_revision (hr_chunks rep) = [max r k + 1 ..< length ds + 1]
         \<and> map hc_data (hr_chunks rep) = drop (max r k) ds" if r: "r \<le> length ds" for r
  proof -
    let ?rep = "output_replay i (Some \<lparr>oc_stream_epoch = ob_stream_epoch b, oc_revision = r\<rparr>) b"
    note rep = holds_replay [OF h r small refl, of i]
    have len: "length [max r k + 1 ..< length ds + 1] = length (drop (max r k) ds)" using r k by simp
    have "map hc_revision (hr_chunks ?rep) = map fst (map (\<lambda>c. (hc_revision c, hc_data c)) (hr_chunks ?rep))"
      by (simp add: comp_def)
    also have "\<dots> = [max r k + 1 ..< length ds + 1]" unfolding rep(2) using len by (rule map_fst_zip)
    finally show ?thesis using rep(1) pair_data [OF rep(2) len] by (simp add: Let_def)
  qed
  then show ?thesis using h k
    by (intro exI [of _ k]) (simp add: holds_def OUTPUT_LIMIT_BYTES_def)
qed

declare upt_Suc [simp]

theorem output_replay_exact_witness:
  "\<exists>k \<le> length [''ab'', ''c''].
     map hc_data (hr_chunks (output_replay ''p'' (Some \<lparr>oc_stream_epoch = ''s'', oc_revision = 1\<rparr>)
       (push_all ''p'' [(0, ''ab''), (1, ''c'')] (output_new ''s'')))) = drop (max 1 k) [''ab'', ''c'']"
proof -
  have n: "length [(0 :: nanos, ''ab''), (1, ''c'')] + 1 < U64_MAX" by (simp add: U64_MAX_def)
  have e: "ob_stream_epoch (push_all ''p'' [(0, ''ab''), (1, ''c'')] (output_new ''s'')) = ''s''"
    by (simp add: output_new_def)
  from output_replay_exact [OF n refl refl, of "''p''" "''s''"] show ?thesis
    unfolding e by (auto simp: Let_def)
qed

section \<open>The query is answered once\<close>

text \<open>\<open>m\<close> is the length of the longest prefix of the query that ends the output \<open>s\<close>.\<close>

definition tracks :: "nat \<Rightarrow> bytes \<Rightarrow> bool" where
  "tracks m s \<longleftrightarrow> m < 4 \<and> suffix (take m QUERY) s
     \<and> (\<forall>m' \<in> {1, 2, 3}. m < m' \<longrightarrow> \<not> suffix (take m' QUERY) s) \<and> \<not> sublist QUERY s"

lemma QUERY_takes:
  "take 1 QUERY = [CHR 0x1B]" "take 2 QUERY = [CHR 0x1B, CHR ''['']" "take 3 QUERY = [CHR 0x1B, CHR ''['', CHR ''6'']"
  "QUERY = [CHR 0x1B, CHR ''['', CHR ''6'', CHR ''n'']"
  by (simp_all add: QUERY_def eval_nat_numeral)

lemma suffix_snoc2: "suffix (xs @ [x]) (ys @ [y]) \<longleftrightarrow> x = y \<and> suffix xs ys"
  by (auto simp: suffix_def)

lemma query_suffixes:
  "suffix (take 1 QUERY) (s @ [b]) \<longleftrightarrow> b = CHR 0x1B"
  "suffix (take 2 QUERY) (s @ [b]) \<longleftrightarrow> b = CHR ''['' \<and> suffix (take 1 QUERY) s"
  "suffix (take 3 QUERY) (s @ [b]) \<longleftrightarrow> b = CHR ''6'' \<and> suffix (take 2 QUERY) s"
  "suffix QUERY (s @ [b]) \<longleftrightarrow> b = CHR ''n'' \<and> suffix (take 3 QUERY) s"
  using suffix_snoc2 [of "[]" "CHR 0x1B" s b] suffix_snoc2 [of "[CHR 0x1B]" "CHR ''[''" s b]
    suffix_snoc2 [of "[CHR 0x1B, CHR ''['']" "CHR ''6''" s b]
    suffix_snoc2 [of "[CHR 0x1B, CHR ''['', CHR ''6'']" "CHR ''n''" s b]
  by (auto simp: QUERY_takes)

lemma sublist_extend: "sublist q s \<Longrightarrow> sublist q (s @ t)"
  by (metis append.assoc sublist_def)

lemma query_suffix_unique:
  "suffix (take 2 QUERY) s \<Longrightarrow> \<not> suffix (take 1 QUERY) s"
  "suffix (take 3 QUERY) s \<Longrightarrow> \<not> suffix (take 1 QUERY) s"
  "suffix (take 3 QUERY) s \<Longrightarrow> \<not> suffix (take 2 QUERY) s"
  by (cases s rule: rev_cases; auto simp: query_suffixes QUERY_takes)+

lemma tracks_hit:
  assumes "tracks m s" "b = QUERY ! m"
  shows "if m = 3 then suffix QUERY (s @ [b]) else tracks (Suc m) (s @ [b])"
proof -
  have "m = 0 \<or> m = 1 \<or> m = 2 \<or> m = 3" using assms(1) by (auto simp: tracks_def)
  then show ?thesis
    using assms query_suffix_unique [of s]
    by (elim disjE) (simp_all add: tracks_def query_suffixes sublist_snoc QUERY_takes(4) eval_nat_numeral)
qed

lemma tracks_miss:
  assumes "tracks m s" "b \<noteq> QUERY ! m"
  shows "tracks (if b = QUERY ! 0 then 1 else 0) (s @ [b])"
proof -
  have "m = 0 \<or> m = 1 \<or> m = 2 \<or> m = 3" using assms(1) by (auto simp: tracks_def)
  then show ?thesis
    using assms query_suffix_unique [of s]
    by (elim disjE) (simp_all add: tracks_def query_suffixes sublist_snoc QUERY_takes(4) eval_nat_numeral)
qed

lemma QUERY_length [simp]: "length QUERY = 4"
  by (simp add: QUERY_def)

lemma observe_bytes_tracks:
  assumes "tracks m s" "observe_bytes m bs = (found, m')"
  shows "(found \<longleftrightarrow> sublist QUERY (s @ bs)) \<and> (\<not> found \<longrightarrow> tracks m' (s @ bs))"
  using assms
proof (induction m bs arbitrary: s rule: observe_bytes.induct)
  case (1 m)
  then show ?case by (auto simp: tracks_def)
next
  case (2 m b bs)
  show ?case
  proof (cases "b = QUERY ! m")
    case True
    show ?thesis
    proof (cases "m = 3")
      case m: True
      with 2(3) True tracks_hit [OF _ True, of s] have "suffix QUERY (s @ [b])" by simp
      then have "sublist QUERY ((s @ [b]) @ bs)" by (intro sublist_extend suffix_imp_sublist)
      with m True 2(4) show ?thesis by simp
    next
      case False
      with 2(3) True have "tracks (Suc m) (s @ [b])" using tracks_hit [OF _ True, of s] by simp
      with 2(1) [of "s @ [b]"] False True 2(4) show ?thesis by simp
    qed
  next
    case False
    with 2(2) [of "s @ [b]"] 2(4) tracks_miss [OF 2(3) False] show ?thesis by simp
  qed
qed

fun observe_run :: "cursor_query \<Rightarrow> bytes list \<Rightarrow> bool list" where
  "observe_run q [] = []"
| "observe_run q (bs # rest) = (case observe bs q of (found, q') \<Rightarrow> found # observe_run q' rest)"

definition query_ok :: "bytes \<Rightarrow> cursor_query \<Rightarrow> bool" where
  "query_ok s q \<longleftrightarrow> (if cq_answered q then sublist QUERY s else tracks (cq_matched q) s)"

lemma observe_ok:
  assumes "query_ok s q" "observe bs q = (found, q')"
  shows "query_ok (s @ bs) q'" "found \<longleftrightarrow> sublist QUERY (s @ bs) \<and> \<not> sublist QUERY s"
proof -
  have "query_ok (s @ bs) q' \<and> (found \<longleftrightarrow> sublist QUERY (s @ bs) \<and> \<not> sublist QUERY s)"
  proof (cases "cq_answered q")
    case True
    then have "sublist QUERY (s @ bs)" using assms(1) by (auto simp: query_ok_def intro: sublist_extend)
    with True assms show ?thesis by (auto simp: query_ok_def observe_def)
  next
    case False
    then have tr: "tracks (cq_matched q) s" using assms(1) by (simp add: query_ok_def)
    obtain m where ob: "observe_bytes (cq_matched q) bs = (found, m)"
      and q': "q' = \<lparr>cq_matched = m, cq_answered = found\<rparr>"
      using False assms(2) by (auto simp: observe_def split: prod.splits)
    have "\<not> sublist QUERY s" using tr by (simp add: tracks_def)
    with observe_bytes_tracks [OF tr ob] show ?thesis by (simp add: query_ok_def q')
  qed
  then show "query_ok (s @ bs) q'" "found \<longleftrightarrow> sublist QUERY (s @ bs) \<and> \<not> sublist QUERY s" by auto
qed

lemma observe_run_nth:
  assumes "query_ok s q" "k < length ps"
  shows "observe_run q ps ! k \<longleftrightarrow>
    sublist QUERY (s @ concat (take (Suc k) ps)) \<and> \<not> sublist QUERY (s @ concat (take k ps))"
  using assms
proof (induction ps arbitrary: s q k)
  case (Cons p ps)
  obtain found q' where o: "observe p q = (found, q')" by force
  show ?case
  proof (cases k)
    case 0
    with observe_ok(2) [OF Cons.prems(1) o] o show ?thesis by simp
  next
    case (Suc j)
    with Cons.IH [OF observe_ok(1) [OF Cons.prems(1) o], of j] Cons.prems(2) o show ?thesis by simp
  qed
qed simp

text \<open>
  The cursor query of a starting terminal is answered exactly once and as soon as it is
  complete: \<open>observe\<close> returns true for a read exactly when the output up to that read contains the
  query and the output before it did not, however the query is split across reads.
\<close>

theorem cursor_query_answered_once:
  assumes "k < length ps"
  shows "observe_run query_default ps ! k \<longleftrightarrow>
    sublist QUERY (concat (take (Suc k) ps)) \<and> \<not> sublist QUERY (concat (take k ps))"
proof -
  have "query_ok [] query_default" by (simp add: query_ok_def query_default_def tracks_def QUERY_def)
  from observe_run_nth [OF this assms] show ?thesis by simp
qed

theorem cursor_query_answered_once_witness:
  "observe_run query_default [[CHR 0x1B], ''[6'', ''n''] ! 2"
  by (subst cursor_query_answered_once) (simp_all add: eval_nat_numeral, code_simp)

end
