(* ===== verification/Host_Runtime.thy ===== *)
theory Host_Runtime
  imports Host_Output "HOL-Library.AList"
begin

text \<open>
  The process registry of the host (\<open>HostRuntime\<close> of \<open>crates/treer-agent-runtime\<close>).  A process is
  an object shared between the registry and its threads, so processes live in a store and the
  registry maps an identifier to an object number; comparing numbers is \<open>ptr::eq\<close>.  What the
  operating system answers (paths, terminals, children) is the argument \<open>os\<close> of the operation
  that asks.  Locks are never poisoned.  The events sent to subscribers are kept as logs.
\<close>

section \<open>State\<close>

datatype runtime_error =
  ProcessExists string | ProcessNotFound string | ProcessNotRunning string | InvalidCwd string
| InvalidRequest string | SpawnFailed string | Terminal string

fun runtime_error_code :: "runtime_error \<Rightarrow> string" where
  "runtime_error_code (ProcessExists _) = ''process_exists''"
| "runtime_error_code (ProcessNotFound _) = ''process_not_found''"
| "runtime_error_code (ProcessNotRunning _) = ''process_not_running''"
| "runtime_error_code (InvalidCwd _) = ''invalid_cwd''"
| "runtime_error_code (InvalidRequest _) = ''invalid_request''"
| "runtime_error_code (SpawnFailed _) = ''spawn_failed''"
| "runtime_error_code (Terminal _) = ''terminal_error''"

fun runtime_error_display :: "runtime_error \<Rightarrow> string" where
  "runtime_error_display (ProcessExists i) = ''process '' @ i @ '' already exists''"
| "runtime_error_display (ProcessNotFound i) = ''process '' @ i @ '' was not found''"
| "runtime_error_display (ProcessNotRunning i) = ''process '' @ i @ '' is no longer running''"
| "runtime_error_display (InvalidCwd m) = ''invalid working directory: '' @ m"
| "runtime_error_display (InvalidRequest m) = ''invalid process request: '' @ m"
| "runtime_error_display (SpawnFailed m) = ''failed to start process: '' @ m"
| "runtime_error_display (Terminal m) = ''terminal operation failed: '' @ m"

type_synonym 'a rt_res = "runtime_error + 'a"

record host_process =
  pr_info :: host_process_info
  pr_input :: bool
  pr_child :: bool
  pr_master :: bool
  pr_output :: output_buffer
  pr_stopping :: bool

record runtime =
  rt_host_epoch :: string
  rt_root :: "string list"
  rt_store :: "nat \<Rightarrow> host_process option"
  rt_next :: nat
  rt_processes :: "(string \<times> nat) list"
  rt_completed :: "string list"
  rt_process_events :: "host_process_info list"
  rt_output_events :: "host_output_chunk list"

definition COMPLETED_PROCESS_LIMIT :: nat where
  "COMPLETED_PROCESS_LIMIT = 256"

definition runtime_new :: "string \<Rightarrow> string list \<Rightarrow> runtime" where
  "runtime_new epoch root = \<lparr>rt_host_epoch = epoch, rt_root = root, rt_store = (\<lambda>_. None), rt_next = 0,
     rt_processes = [], rt_completed = [], rt_process_events = [], rt_output_events = []\<rparr>"

section \<open>Lookups\<close>

definition runtime_get :: "string \<Rightarrow> runtime \<Rightarrow> (nat \<times> host_process) rt_res" where
  "runtime_get i r =
     ok_or_else (Option.bind (map_of (rt_processes r) i) (\<lambda>n. map_option (Pair n) (rt_store r n)))
       (ProcessNotFound i)"

definition get_running :: "string \<Rightarrow> runtime \<Rightarrow> (nat \<times> host_process) rt_res" where
  "get_running i r =
     and_then (runtime_get i r) (\<lambda>(n, p).
       if hp_running (pr_info p) then Inr (n, p) else Inl (ProcessNotRunning i))"

definition runtime_list :: "runtime \<Rightarrow> host_process_info list" where
  "runtime_list r =
     sort_key hp_process_id (List.map_filter (\<lambda>(_, n). map_option pr_info (rt_store r n)) (rt_processes r))"

definition runtime_read :: "string \<Rightarrow> output_cursor option \<Rightarrow> runtime \<Rightarrow> host_output_replay rt_res" where
  "runtime_read i cursor r =
     and_then (runtime_get i r) (\<lambda>(_, p). Inr (output_replay i cursor (pr_output p)))"

section \<open>Spawning\<close>

record spawn_os =
  so_canonicalize :: "string list \<Rightarrow> string \<Rightarrow> string + string list"
  so_openpty :: "string + unit"
  so_builder :: "string + unit"
  so_child :: "string + nat option"
  so_reader :: "string + unit"
  so_writer :: "string + unit"
  so_epoch :: string
  so_now :: nanos

text \<open>Paths are lists of components; a relative display of the root itself is a dot.\<close>

definition resolve_cwd :: "spawn_os \<Rightarrow> runtime \<Rightarrow> string \<Rightarrow> string list rt_res" where
  "resolve_cwd os r requested =
     (let requested = (if trim requested = [] then ''.'' else requested) in
      if starts_with requested ''/'' then Inl (InvalidCwd ''cwd must be relative to the host root'')
      else and_then (map_err InvalidCwd (so_canonicalize os (rt_root r) requested)) (\<lambda>cwd.
        if \<not> prefix (rt_root r) cwd then Inl (InvalidCwd ''cwd resolves outside the host root'')
        else Inr cwd))"

definition relative_display :: "string list \<Rightarrow> string list \<Rightarrow> string" where
  "relative_display root cwd =
     (if prefix root cwd \<and> cwd \<noteq> root then join_with ''/'' (drop (length root) cwd) else ''.'')"

definition spawn_info :: "spawn_os \<Rightarrow> host_spawn_request \<Rightarrow> string \<Rightarrow> nat option \<Rightarrow> host_process_info" where
  "spawn_info os request cwd pid =
     (let output = output_new (so_epoch os) in
      \<lparr>hp_process_id = sr_process_id request, hp_pid = pid, hp_cwd = cwd, hp_running = True,
       hp_started_at = so_now os, hp_last_output_at = so_now os, hp_exited_at = None, hp_exit_code = None,
       hp_stream_epoch = ob_stream_epoch output, hp_first_revision = output_first_revision output,
       hp_next_revision = ob_next_revision output, hp_bracketed_paste = False,
       hp_metadata = sr_metadata request\<rparr>)"

text \<open>What happens after the registry checks: everything that can still fail.\<close>

definition spawn_child :: "spawn_os \<Rightarrow> host_spawn_request \<Rightarrow> runtime \<Rightarrow> host_process_info rt_res" where
  "spawn_child os request r =
     and_then (resolve_cwd os r (sr_cwd request)) (\<lambda>cwd.
     and_then (map_err Terminal (so_openpty os)) (\<lambda>_.
     and_then (map_err SpawnFailed (so_builder os)) (\<lambda>_.
     and_then (map_err SpawnFailed (so_child os)) (\<lambda>pid.
     and_then (map_err Terminal (so_reader os)) (\<lambda>_.
     and_then (map_err Terminal (so_writer os)) (\<lambda>_.
       Inr (spawn_info os request (relative_display (rt_root r) cwd) pid)))))))"

definition spawn_refused :: "host_spawn_request \<Rightarrow> runtime \<Rightarrow> runtime_error option" where
  "spawn_refused request r =
     (if trim (sr_process_id request) = [] \<or> trim (sr_command request) = [] then
        Some (InvalidRequest ''process_id and command must not be empty'')
      else if is_some_and (Option.bind (map_of (rt_processes r) (sr_process_id request)) (rt_store r))
                (\<lambda>p. hp_running (pr_info p))
      then Some (ProcessExists (sr_process_id request))
      else None)"

text \<open>A respawn takes the identifier out of the completed queue before anything else can fail.\<close>

definition forget_completed :: "string \<Rightarrow> runtime \<Rightarrow> runtime" where
  "forget_completed i r =
     (if map_of (rt_processes r) i \<noteq> None
      then r\<lparr>rt_completed := filter (\<lambda>j. j \<noteq> i) (rt_completed r)\<rparr> else r)"

definition insert_process :: "string \<Rightarrow> host_process \<Rightarrow> runtime \<Rightarrow> runtime" where
  "insert_process i p r =
     r\<lparr>rt_store := (rt_store r)(rt_next r \<mapsto> p), rt_next := rt_next r + 1,
       rt_processes := AList.update i (rt_next r) (rt_processes r),
       rt_process_events := rt_process_events r @ [pr_info p]\<rparr>"

definition runtime_spawn ::
  "spawn_os \<Rightarrow> host_spawn_request \<Rightarrow> runtime \<Rightarrow> host_process_info rt_res \<times> runtime" where
  "runtime_spawn os request r =
     (case spawn_refused request r of
        Some e \<Rightarrow> (Inl e, r)
      | None \<Rightarrow>
          let r1 = forget_completed (sr_process_id request) r in
          (case spawn_child os request r1 of
             Inl e \<Rightarrow> (Inl e, r1)
           | Inr info \<Rightarrow>
               let p = \<lparr>pr_info = info, pr_input = True, pr_child = True, pr_master = True,
                        pr_output = output_new (so_epoch os), pr_stopping = False\<rparr>
               in (Inr info, insert_process (sr_process_id request) p r1)))"

section \<open>Operations on a process\<close>

definition update_process ::
  "nat \<Rightarrow> (host_process_info \<Rightarrow> host_process_info) \<Rightarrow> runtime \<Rightarrow> runtime" where
  "update_process n f r =
     (case rt_store r n of
        None \<Rightarrow> r
      | Some p \<Rightarrow>
          r\<lparr>rt_store := (rt_store r)(n \<mapsto> p\<lparr>pr_info := f (pr_info p)\<rparr>),
            rt_process_events := rt_process_events r @ [f (pr_info p)]\<rparr>)"

text \<open>\<open>results\<close> are the answers of the input thread, one per write it is given.\<close>

fun send_writes :: "bool \<Rightarrow> string \<Rightarrow> host_write list \<Rightarrow> (string + unit) list \<Rightarrow> unit rt_res" where
  "send_writes input i [] results = Inr ()"
| "send_writes input i (w # ws) results =
     (if \<not> input then Inl (ProcessNotRunning i)
      else (case results of
          [] \<Rightarrow> Inl (Terminal ''terminal input queue closed'')
        | Inl e # _ \<Rightarrow> Inl (Terminal e)
        | Inr _ # rest \<Rightarrow> send_writes input i ws rest))"

definition runtime_write ::
  "(string + unit) list \<Rightarrow> string \<Rightarrow> host_write list \<Rightarrow> runtime \<Rightarrow> host_process_info rt_res" where
  "runtime_write results i writes r =
     (if writes = [] then Inl (InvalidRequest ''writes must not be empty'')
      else and_then (get_running i r) (\<lambda>(_, p).
        and_then (send_writes (pr_input p) i writes results) (\<lambda>_. Inr (pr_info p))))"

definition runtime_resize :: "(string + unit) \<Rightarrow> string \<Rightarrow> runtime \<Rightarrow> host_process_info rt_res" where
  "runtime_resize resized i r =
     and_then (get_running i r) (\<lambda>(_, p).
       if \<not> pr_master p then Inl (ProcessNotRunning i)
       else and_then (map_err Terminal resized) (\<lambda>_. Inr (pr_info p)))"

definition runtime_stop ::
  "(string + unit) \<Rightarrow> nanos \<Rightarrow> string \<Rightarrow> runtime \<Rightarrow> host_process_info rt_res \<times> runtime" where
  "runtime_stop killed now i r =
     (case get_running i r of
        Inl e \<Rightarrow> (Inl e, r)
      | Inr (n, p) \<Rightarrow>
          let r1 = r\<lparr>rt_store := (rt_store r)(n \<mapsto> p\<lparr>pr_stopping := True\<rparr>)\<rparr> in
          if \<not> pr_child p then (Inl (ProcessNotRunning i), r1)
          else (case killed of
              Inl e \<Rightarrow> (Inl (Terminal e), r1)
            | Inr _ \<Rightarrow>
                let f = (\<lambda>info. info\<lparr>hp_running := False, hp_exited_at := Some now\<rparr>)
                in (Inr (f (pr_info p)), update_process n f r1)))"

section \<open>Threads\<close>

text \<open>One read of the output thread.\<close>

definition reader_output :: "nanos \<Rightarrow> nat \<Rightarrow> bytes \<Rightarrow> runtime \<Rightarrow> runtime" where
  "reader_output now n bs r =
     (case rt_store r n of
        None \<Rightarrow> r
      | Some p \<Rightarrow>
          (case output_push now (hp_process_id (pr_info p)) bs (pr_output p) of (chunk, b) \<Rightarrow>
             r\<lparr>rt_store := (rt_store r)(n \<mapsto> p\<lparr>pr_output := b,
                 pr_info := (pr_info p)\<lparr>hp_last_output_at := hc_emitted_at chunk,
                   hp_first_revision := output_first_revision b, hp_next_revision := ob_next_revision b,
                   hp_bracketed_paste := ob_bracketed_paste b\<rparr>\<rparr>),
               rt_output_events := rt_output_events r @ [chunk]\<rparr>))"

definition push_bounded :: "string list \<Rightarrow> string \<Rightarrow> nat \<Rightarrow> string option \<times> string list" where
  "push_bounded completed i limit =
     (let c = completed @ [i] in if limit < length c then (Some (hd c), tl c) else (None, c))"

definition finish_process :: "nat \<Rightarrow> runtime \<Rightarrow> runtime" where
  "finish_process n r =
     (case rt_store r n of
        None \<Rightarrow> r
      | Some p \<Rightarrow>
          let r1 = r\<lparr>rt_store := (rt_store r)(n \<mapsto> p\<lparr>pr_input := False, pr_master := False, pr_child := False\<rparr>)\<rparr>;
              i = hp_process_id (pr_info p)
          in if map_of (rt_processes r1) i \<noteq> Some n then r1
             else (case push_bounded (rt_completed r1) i COMPLETED_PROCESS_LIMIT of
                (None, c) \<Rightarrow> r1\<lparr>rt_completed := c\<rparr>
              | (Some evicted, c) \<Rightarrow>
                  r1\<lparr>rt_completed := c, rt_processes := AList.delete evicted (rt_processes r1)\<rparr>))"

text \<open>What the monitor does when it sees the child's exit, before it finishes the process.\<close>

definition monitor_exit :: "nanos \<Rightarrow> int option \<Rightarrow> nat \<Rightarrow> runtime \<Rightarrow> runtime" where
  "monitor_exit now code n r =
     update_process n (\<lambda>info. info\<lparr>hp_running := False, hp_exit_code := code, hp_exited_at := Some now\<rparr>) r"

section \<open>The host as a system\<close>

text \<open>
  The runtime with the objects whose monitor still waits for the child (\<open>hs_watched\<close>) and those
  whose monitor has seen the exit but not yet finished the process (\<open>hs_exiting\<close>): a spawn or a stop
  can run between the two.
\<close>

record host_sys =
  hs_runtime :: runtime
  hs_watched :: "nat set"
  hs_exiting :: "nat set"

inductive host_step :: "host_sys \<Rightarrow> host_sys \<Rightarrow> bool" where
  step_spawned: "runtime_spawn os request (hs_runtime s) = (Inr info, r) \<Longrightarrow>
     host_step s (s\<lparr>hs_runtime := r, hs_watched := insert (rt_next (hs_runtime s)) (hs_watched s)\<rparr>)"
| step_spawn_failed: "runtime_spawn os request (hs_runtime s) = (Inl e, r) \<Longrightarrow>
     host_step s (s\<lparr>hs_runtime := r\<rparr>)"
| step_stop: "runtime_stop killed now i (hs_runtime s) = (res, r) \<Longrightarrow> host_step s (s\<lparr>hs_runtime := r\<rparr>)"
| step_output: "host_step s (s\<lparr>hs_runtime := reader_output now n bs (hs_runtime s)\<rparr>)"
| step_exit: "n \<in> hs_watched s \<Longrightarrow>
     host_step s (s\<lparr>hs_runtime := monitor_exit now code n (hs_runtime s),
       hs_watched := hs_watched s - {n}, hs_exiting := insert n (hs_exiting s)\<rparr>)"
| step_finish: "n \<in> hs_exiting s \<Longrightarrow>
     host_step s (s\<lparr>hs_runtime := finish_process n (hs_runtime s), hs_exiting := hs_exiting s - {n}\<rparr>)"

definition host_init :: "host_sys \<Rightarrow> bool" where
  "host_init s \<longleftrightarrow> (\<exists>epoch root. s = \<lparr>hs_runtime = runtime_new epoch root, hs_watched = {}, hs_exiting = {}\<rparr>)"

definition obj_running :: "runtime \<Rightarrow> nat \<Rightarrow> bool" where
  "obj_running r n \<longleftrightarrow> is_some_and (rt_store r n) (\<lambda>p. hp_running (pr_info p))"

definition registered :: "runtime \<Rightarrow> string \<Rightarrow> nat \<Rightarrow> bool" where
  "registered r i n \<longleftrightarrow> map_of (rt_processes r) i = Some n"

definition host_ok :: "runtime \<Rightarrow> nat set \<Rightarrow> nat set \<Rightarrow> bool" where
  "host_ok r watched exiting \<longleftrightarrow>
     (\<forall>i n. registered r i n \<longrightarrow> (\<exists>p. rt_store r n = Some p \<and> hp_process_id (pr_info p) = i))
     \<and> (\<forall>n p. rt_store r n = Some p \<longrightarrow> n < rt_next r)
     \<and> (\<forall>n. obj_running r n \<longrightarrow> n \<in> watched)
     \<and> watched \<inter> exiting = {}
     \<and> watched \<union> exiting \<subseteq> {..< rt_next r}
     \<and> distinct (rt_completed r) \<and> length (rt_completed r) \<le> COMPLETED_PROCESS_LIMIT
     \<and> (\<forall>i \<in> set (rt_completed r). \<exists>n. registered r i n \<and> n \<notin> watched \<union> exiting)"

definition host_inv :: "host_sys \<Rightarrow> bool" where
  "host_inv s \<longleftrightarrow> host_ok (hs_runtime s) (hs_watched s) (hs_exiting s)"

lemmas host_inv_defs = host_inv_def host_ok_def registered_def obj_running_def is_some_and_iff

text \<open>An operation that rewrites one object without touching its identity keeps the invariant.\<close>

lemma inv_object:
  assumes inv: "host_inv s" and p: "rt_store (hs_runtime s) n = Some p"
    and r: "rt_store r = (rt_store (hs_runtime s))(n \<mapsto> p')" "rt_next r = rt_next (hs_runtime s)"
      "rt_processes r = rt_processes (hs_runtime s)" "rt_completed r = rt_completed (hs_runtime s)"
    and id: "hp_process_id (pr_info p') = hp_process_id (pr_info p)"
    and run: "hp_running (pr_info p') \<longrightarrow> hp_running (pr_info p)"
  shows "host_inv (s\<lparr>hs_runtime := r\<rparr>)"
proof -
  have reg: "registered r = registered (hs_runtime s)" by (simp add: registered_def r fun_eq_iff)
  have run': "obj_running r m \<Longrightarrow> obj_running (hs_runtime s) m" for m
    using run p by (auto simp: obj_running_def is_some_and_iff r split: if_splits)
  have store: "rt_store r m = Some q \<Longrightarrow> \<exists>q'. rt_store (hs_runtime s) m = Some q'
      \<and> hp_process_id (pr_info q') = hp_process_id (pr_info q)" for m q
    using p id by (auto simp: r split: if_splits)
  have forth: "rt_store (hs_runtime s) m = Some q \<Longrightarrow> \<exists>q'. rt_store r m = Some q'
      \<and> hp_process_id (pr_info q') = hp_process_id (pr_info q)" for m q
    using p id by (auto simp: r)
  show ?thesis
    using inv run' unfolding host_inv_def host_ok_def by (auto simp: reg r(2,4) dest: store forth) (metis forth)
qed

lemma inv_output: "host_inv s \<Longrightarrow> host_inv (s\<lparr>hs_runtime := reader_output now n bs (hs_runtime s)\<rparr>)"
proof (cases "rt_store (hs_runtime s) n")
  case (Some p)
  assume "host_inv s"
  obtain c b where "output_push now (hp_process_id (pr_info p)) bs (pr_output p) = (c, b)" by force
  with Some show ?thesis
    by (intro inv_object [OF \<open>host_inv s\<close> Some, where p' = "the (rt_store (reader_output now n bs (hs_runtime s)) n)"])
       (auto simp: reader_output_def)
qed (simp add: reader_output_def)

lemma inv_stop:
  assumes inv: "host_inv s" and stop: "runtime_stop killed now i (hs_runtime s) = (res, r)"
  shows "host_inv (s\<lparr>hs_runtime := r\<rparr>)"
proof (cases "get_running i (hs_runtime s)")
  case (Inl e)
  then have "r = hs_runtime s" using stop by (simp add: runtime_stop_def)
  with inv show ?thesis by simp
next
  case (Inr np)
  then obtain n p where np: "np = (n, p)" "rt_store (hs_runtime s) n = Some p"
    by (auto simp: get_running_def runtime_get_def res_simps split: if_splits bind_splits)
  show ?thesis
    using stop Inr np
    by (intro inv_object [OF inv np(2), where p' = "the (rt_store r n)"])
       (auto simp: runtime_stop_def update_process_def Let_def split: if_splits sum.splits)
qed

lemma inv_exit:
  assumes inv: "host_inv s" and n: "n \<in> hs_watched s"
  shows "host_inv (s\<lparr>hs_runtime := monitor_exit now code n (hs_runtime s),
    hs_watched := hs_watched s - {n}, hs_exiting := insert n (hs_exiting s)\<rparr>)"
proof -
  let ?r = "monitor_exit now code n (hs_runtime s)"
  have inv': "host_inv (s\<lparr>hs_runtime := ?r\<rparr>)"
  proof (cases "rt_store (hs_runtime s) n")
    case (Some p)
    then show ?thesis
      by (intro inv_object [OF inv Some, where p' = "the (rt_store ?r n)"]) (auto simp: monitor_exit_def update_process_def)
  qed (use inv in \<open>simp add: monitor_exit_def update_process_def\<close>)
  have "\<not> obj_running ?r n"
    by (auto simp: obj_running_def monitor_exit_def update_process_def is_some_and_iff split: option.splits)
  then have run: "obj_running ?r m \<Longrightarrow> m \<in> hs_watched s - {n}" for m
    using inv' by (auto simp: host_inv_def host_ok_def)
  have union: "hs_watched s - {n} \<union> insert n (hs_exiting s) = hs_watched s \<union> hs_exiting s" using n by auto
  have "(hs_watched s - {n}) \<inter> insert n (hs_exiting s) = {}" using inv by (auto simp: host_inv_def host_ok_def)
  with inv' have "host_ok ?r (hs_watched s - {n}) (insert n (hs_exiting s))"
    unfolding host_inv_def host_ok_def union using run by simp
  then show ?thesis by (simp add: host_inv_def)
qed

lemma registered_delete:
  "map_of (AList.delete j xs) i = Some n \<longleftrightarrow> i \<noteq> j \<and> map_of xs i = Some n"
  by (simp add: AList.delete_conv)

lemma inv_finish:
  assumes inv: "host_inv s" and n: "n \<in> hs_exiting s"
  shows "host_inv (s\<lparr>hs_runtime := finish_process n (hs_runtime s), hs_exiting := hs_exiting s - {n}\<rparr>)"
proof (cases "rt_store (hs_runtime s) n")
  case None
  with inv show ?thesis by (auto simp: finish_process_def host_inv_def host_ok_def)
next
  case (Some p)
  define i where "i = hp_process_id (pr_info p)"
  define r1 where "r1 = (hs_runtime s)\<lparr>rt_store := (rt_store (hs_runtime s))
    (n \<mapsto> p\<lparr>pr_input := False, pr_master := False, pr_child := False\<rparr>)\<rparr>"
  have inv1: "host_inv (s\<lparr>hs_runtime := r1\<rparr>)"
    by (rule inv_object [OF inv Some, where p' = "p\<lparr>pr_input := False, pr_master := False, pr_child := False\<rparr>"])
       (simp_all add: r1_def)
  then have inv2: "host_inv (s\<lparr>hs_runtime := r1, hs_exiting := hs_exiting s - {n}\<rparr>)"
    by (auto simp: host_inv_def host_ok_def)
  show ?thesis
  proof (cases "registered r1 i n")
    case False
    then have "finish_process n (hs_runtime s) = r1"
      using Some by (simp add: finish_process_def r1_def i_def registered_def)
    with inv2 show ?thesis by simp
  next
    case reg: True
    have fresh: "i \<notin> set (rt_completed r1)"
      using inv1 reg n by (auto simp: host_inv_def host_ok_def registered_def)
    have gone: "n \<notin> hs_watched s" using inv n by (auto simp: host_inv_def host_ok_def)
    let ?c = "rt_completed r1 @ [i]"
    have fin: "finish_process n (hs_runtime s) =
        (if COMPLETED_PROCESS_LIMIT < length ?c
         then r1\<lparr>rt_completed := tl ?c, rt_processes := AList.delete (hd ?c) (rt_processes r1)\<rparr>
         else r1\<lparr>rt_completed := ?c\<rparr>)"
      using Some reg
      by (simp add: finish_process_def r1_def [symmetric] i_def [symmetric] registered_def push_bounded_def Let_def)
    have dist: "distinct ?c" using fresh inv1 by (simp add: host_inv_def host_ok_def)
    have mem: "\<exists>m. registered r1 j m \<and> m \<notin> hs_watched s \<union> (hs_exiting s - {n})" if "j \<in> set ?c" for j
      using that inv1 reg gone by (auto simp: host_inv_def host_ok_def)
    show ?thesis
    proof (cases "COMPLETED_PROCESS_LIMIT < length ?c")
      case False
      with fin inv2 dist mem show ?thesis by (simp add: host_inv_defs)
    next
      case True
      then obtain e es where c: "?c = e # es" by (cases ?c) auto
      then have "e \<notin> set es" "distinct es" using dist by (metis distinct.simps(2))+
      moreover have "length es \<le> COMPLETED_PROCESS_LIMIT"
        using inv1 arg_cong [OF c, of length] by (simp add: host_inv_def host_ok_def)
      moreover have "\<exists>m. (j \<noteq> e \<and> registered r1 j m) \<and> m \<notin> hs_watched s \<union> (hs_exiting s - {n})" if "j \<in> set es" for j
        using mem [of j] that c \<open>e \<notin> set es\<close> by force
      ultimately show ?thesis
        using fin True c inv2 by (auto simp: host_inv_defs registered_delete)
    qed
  qed
qed

lemma forget_fields [simp]:
  "rt_store (forget_completed i r) = rt_store r" "rt_next (forget_completed i r) = rt_next r"
  "rt_processes (forget_completed i r) = rt_processes r"
  by (simp_all add: forget_completed_def)

lemma inv_forget:
  assumes "host_ok r W E"
  shows "host_ok (forget_completed i r) W E" "i \<notin> set (rt_completed (forget_completed i r))"
proof -
  have "set (rt_completed (forget_completed i r)) \<subseteq> set (rt_completed r) - {i}"
    using assms by (auto simp: forget_completed_def host_ok_def registered_def)
  moreover have "distinct (rt_completed (forget_completed i r))"
    "length (rt_completed (forget_completed i r)) \<le> COMPLETED_PROCESS_LIMIT"
    using assms by (auto simp: forget_completed_def host_ok_def intro: le_trans [OF length_filter_le])
  ultimately show "host_ok (forget_completed i r) W E" "i \<notin> set (rt_completed (forget_completed i r))"
    using assms by (auto simp: host_ok_def registered_def obj_running_def)
qed

lemma inv_insert:
  assumes ok: "host_ok r W E" and i: "i \<notin> set (rt_completed r)" and p: "hp_process_id (pr_info p) = i"
  shows "host_ok (insert_process i p r) (insert (rt_next r) W) E"
proof -
  let ?r = "insert_process i p r"
  have reg: "registered ?r j n \<longleftrightarrow> (if j = i then n = rt_next r else registered r j n)" for j n
    by (auto simp: registered_def insert_process_def AList.update_conv)
  have store: "rt_store ?r n = (if n = rt_next r then Some p else rt_store r n)" for n
    by (simp add: insert_process_def)
  have old: "n < rt_next r" if "rt_store r n = Some q" for n q using ok that by (auto simp: host_ok_def)
  have old': "n < rt_next r" if reg: "registered r j n" for j n
  proof -
    obtain q where "rt_store r n = Some q" using ok reg unfolding host_ok_def by blast
    then show ?thesis by (rule old)
  qed
  have c: "rt_completed ?r = rt_completed r" "rt_next ?r = Suc (rt_next r)" by (simp_all add: insert_process_def)
  show ?thesis
    unfolding host_ok_def c
  proof (intro conjI allI ballI impI)
    fix j n assume jn: "registered ?r j n"
    show "\<exists>q. rt_store ?r n = Some q \<and> hp_process_id (pr_info q) = j"
    proof (cases "j = i")
      case True
      with jn p show ?thesis by (simp add: reg store)
    next
      case False
      then have "registered r j n" using jn by (simp add: reg)
      with old' [OF this] ok show ?thesis by (simp add: store host_ok_def)
    qed
  next
    fix n q assume "rt_store ?r n = Some q"
    then show "n < Suc (rt_next r)" using old by (auto simp: store less_Suc_eq split: if_splits)
  next
    fix n assume "obj_running ?r n"
    then show "n \<in> insert (rt_next r) W"
      using ok by (auto simp: obj_running_def store host_ok_def split: if_splits)
  next
    fix j assume j: "j \<in> set (rt_completed r)"
    then obtain n where "registered r j n" "n \<notin> W \<union> E" using ok by (auto simp: host_ok_def)
    then show "\<exists>n. registered ?r j n \<and> n \<notin> insert (rt_next r) W \<union> E"
      using i j old' [of j n] by (intro exI [of _ n]) (auto simp: reg)
  qed (use ok in \<open>auto simp: host_ok_def\<close>)
qed

lemma inv_spawn:
  assumes inv: "host_inv s" and sp: "runtime_spawn os request (hs_runtime s) = (res, r)"
  shows "host_ok r (if isl res then hs_watched s else insert (rt_next (hs_runtime s)) (hs_watched s)) (hs_exiting s)"
proof -
  let ?i = "sr_process_id request"
  have ok: "host_ok (hs_runtime s) (hs_watched s) (hs_exiting s)" using inv by (simp add: host_inv_def)
  have id: "hp_process_id info = ?i" if "spawn_child os request q = Inr info" for q info
    using that by (auto simp: spawn_child_def res_simps spawn_info_def Let_def)
  show ?thesis
  proof (cases "spawn_refused request (hs_runtime s)")
    case (Some e)
    with sp ok show ?thesis by (auto simp: runtime_spawn_def)
  next
    case None
    show ?thesis
    proof (cases "spawn_child os request (forget_completed ?i (hs_runtime s))")
      case (Inl e)
      have "res = Inl e" "r = forget_completed ?i (hs_runtime s)"
        using sp by (simp_all add: runtime_spawn_def Let_def None Inl)
      with inv_forget [OF ok, of ?i] show ?thesis by simp
    next
      case (Inr info)
      have "res = Inr info" "r = insert_process ?i \<lparr>pr_info = info, pr_input = True, pr_child = True,
          pr_master = True, pr_output = output_new (so_epoch os), pr_stopping = False\<rparr>
          (forget_completed ?i (hs_runtime s))"
        using sp by (simp_all add: runtime_spawn_def Let_def None Inr)
      with inv_insert [OF inv_forget [OF ok, of ?i]] id [OF Inr] show ?thesis by simp
    qed
  qed
qed

interpretation host_runtime: inv_system host_init host_step host_inv
proof
  fix s t
  assume "host_inv s" "host_step s t"
  from this(2,1) show "host_inv t"
  proof (induction rule: host_step.induct)
    case (step_spawned os request s info r)
    from inv_spawn [OF step_spawned(2,1)] show ?case by (simp add: host_inv_def)
  next
    case (step_spawn_failed os request s e r)
    from inv_spawn [OF step_spawn_failed(2,1)] show ?case by (simp add: host_inv_def)
  qed (auto intro: inv_stop inv_output inv_exit inv_finish)
qed (auto simp: host_init_def host_inv_defs runtime_new_def)

section \<open>Properties\<close>

lemma finish_keeps_running:
  assumes inv: "host_inv s" and n: "n \<in> hs_exiting s"
    and reg: "registered (hs_runtime s) i m" and run: "obj_running (hs_runtime s) m"
  shows "registered (finish_process n (hs_runtime s)) i m"
proof (cases "rt_store (hs_runtime s) n")
  case (Some p)
  have m: "m \<in> hs_watched s" using inv run by (simp add: host_inv_def host_ok_def)
  have "j \<noteq> i" if "j \<in> set (rt_completed (hs_runtime s) @ [hp_process_id (pr_info p)])"
    "registered (hs_runtime s) (hp_process_id (pr_info p)) n" for j
    using that inv reg m n by (auto simp: host_inv_def host_ok_def registered_def)
  moreover have "hd (xs @ [x]) \<in> set (xs @ [x])" for xs and x :: string by (cases xs) auto
  ultimately show ?thesis
    using reg Some
    by (auto simp: finish_process_def Let_def registered_def push_bounded_def registered_delete split: if_splits)
qed (use reg in \<open>simp add: finish_process_def\<close>)

lemma spawn_keeps_running:
  assumes "runtime_spawn os request r = (res, r')" "registered r i m" "obj_running r m"
  shows "registered r' i m"
  using assms
  by (auto simp: runtime_spawn_def spawn_refused_def insert_process_def registered_def obj_running_def Let_def
      AList.update_conv split: option.splits sum.splits if_splits)

lemma stop_registered: "runtime_stop killed now j r = (res, r') \<Longrightarrow> rt_processes r' = rt_processes r"
  by (auto simp: runtime_stop_def update_process_def Let_def split: sum.splits if_splits option.splits)

text \<open>
  C37: A running process is never lost.  In every reachable state of the host, whatever step comes
  next (spawns and respawns, stops, output, exits and the clean-up of exited processes, in any
  interleaving), an identifier registered for a running process stays registered for that same
  process, and the queue of completed processes never exceeds 256 entries.
\<close>

theorem running_process_never_evicted:
  assumes "reach host_init host_step s" "host_step s t"
    "registered (hs_runtime s) i m" "obj_running (hs_runtime s) m"
  shows "registered (hs_runtime t) i m \<and> length (rt_completed (hs_runtime t)) \<le> 256"
proof -
  have inv: "host_inv s" using assms(1) by (rule host_runtime.reach_inv)
  have "host_inv t" using host_runtime.inv_step [OF inv assms(2)] .
  moreover have "registered (hs_runtime t) i m"
    using assms(2,3,4) inv
  proof (induction rule: host_step.induct)
    case (step_output s now n bs)
    then show ?case by (auto simp: reader_output_def registered_def split: option.splits prod.splits)
  next
    case (step_exit n s now code)
    then show ?case by (auto simp: monitor_exit_def update_process_def registered_def split: option.splits)
  next
    case (step_finish n s)
    then show ?case by (auto intro: finish_keeps_running)
  next
    case (step_stop killed now j s res r)
    then show ?case by (auto simp: registered_def dest: stop_registered)
  qed (auto intro: spawn_keeps_running)
  ultimately show ?thesis by (simp add: host_inv_def host_ok_def COMPLETED_PROCESS_LIMIT_def)
qed

definition example_request :: "string \<Rightarrow> host_spawn_request" where
  "example_request i = \<lparr>sr_process_id = i, sr_command = ''sh'', sr_args = [], sr_cwd = ''.'', sr_env = [],
     sr_cols = 80, sr_rows = 24, sr_metadata = []\<rparr>"

definition example_os :: spawn_os where
  "example_os = \<lparr>so_canonicalize = (\<lambda>root _. Inr root), so_openpty = Inr (), so_builder = Inr (),
     so_child = Inr (Some 7), so_reader = Inr (), so_writer = Inr (), so_epoch = ''stream'', so_now = 0\<rparr>"

definition example_start :: host_sys where
  "example_start = \<lparr>hs_runtime = runtime_new ''host'' [''srv''], hs_watched = {}, hs_exiting = {}\<rparr>"

definition example_running :: host_sys where
  "example_running = example_start\<lparr>
     hs_runtime := snd (runtime_spawn example_os (example_request ''p'') (hs_runtime example_start)),
     hs_watched := {0}\<rparr>"

lemma example_spawns:
  "runtime_spawn example_os (example_request ''p'') (hs_runtime example_start) =
     (Inr (spawn_info example_os (example_request ''p'') ''.'' (Some 7)), hs_runtime example_running)"
proof -
  have "trim ''p'' = ''p''" "trim ''sh'' = ''sh''" "trim ''.'' = ''.''" by code_simp+
  then show ?thesis
    by (simp add: example_running_def example_start_def runtime_spawn_def spawn_refused_def spawn_child_def
        resolve_cwd_def relative_display_def example_request_def example_os_def runtime_new_def
        forget_completed_def starts_with_def Let_def)
qed

lemma example_running_reach: "reach host_init host_step example_running"
proof (rule reach_step)
  show "reach host_init host_step example_start"
    by (rule reach_init) (auto simp: host_init_def example_start_def)
  from step_spawned [OF example_spawns] show "host_step example_start example_running"
    by (simp add: example_running_def example_start_def runtime_new_def)
qed

lemma example_running_runtime:
  "hs_runtime example_running = insert_process ''p''
     \<lparr>pr_info = spawn_info example_os (example_request ''p'') ''.'' (Some 7), pr_input = True, pr_child = True,
      pr_master = True, pr_output = output_new ''stream'', pr_stopping = False\<rparr> (runtime_new ''host'' [''srv''])"
  using example_spawns
  by (auto simp: runtime_spawn_def Let_def example_start_def example_request_def example_os_def
      forget_completed_def runtime_new_def split: option.splits sum.splits)

theorem running_process_never_evicted_witness:
  "registered (hs_runtime (example_running\<lparr>hs_runtime := reader_output 1 0 ''hi'' (hs_runtime example_running)\<rparr>)) ''p'' 0"
proof -
  have "registered (hs_runtime example_running) ''p'' 0" "obj_running (hs_runtime example_running) 0"
    by (simp_all add: example_running_runtime registered_def obj_running_def insert_process_def runtime_new_def spawn_info_def Let_def)
  from running_process_never_evicted [OF example_running_reach step_output this] show ?thesis by simp
qed

text \<open>
  A failed respawn forgets the completed process.  When a process that has exited is spawned
  again and the spawn fails after the registry checks (here: a working directory that does not
  resolve), the old process stays registered but is no longer in the queue of completed processes,
  so the clean-up that keeps at most 256 of them can never remove it.
\<close>

theorem failed_respawn_leaks:
  assumes "spawn_refused request r = None" "map_of (rt_processes r) (sr_process_id request) = Some n"
    "resolve_cwd os r (sr_cwd request) = Inl e"
  shows "\<exists>r'. runtime_spawn os request r = (Inl e, r') \<and> registered r' (sr_process_id request) n
    \<and> rt_store r' = rt_store r \<and> sr_process_id request \<notin> set (rt_completed r')"
  using assms
  by (auto simp: runtime_spawn_def spawn_child_def forget_completed_def resolve_cwd_def registered_def Let_def)

definition example_exited :: runtime where
  "example_exited = finish_process 0 (monitor_exit 5 (Some 0) 0 (hs_runtime example_running))"

definition example_bad_cwd :: spawn_os where
  "example_bad_cwd = example_os\<lparr>so_canonicalize := (\<lambda>_ _. Inl ''not found'')\<rparr>"

theorem failed_respawn_leaks_witness:
  "\<exists>r'. runtime_spawn example_bad_cwd (example_request ''p'') example_exited = (Inl (InvalidCwd ''not found''), r')
    \<and> registered r' ''p'' 0 \<and> ''p'' \<notin> set (rt_completed r') \<and> ''p'' \<in> set (rt_completed example_exited)"
proof -
  have e: "rt_processes example_exited = [(''p'', 0)]" "rt_completed example_exited = [''p'']"
    "\<exists>p. rt_store example_exited 0 = Some p \<and> \<not> hp_running (pr_info p)"
    by (simp_all add: example_exited_def example_running_runtime finish_process_def monitor_exit_def update_process_def insert_process_def
        runtime_new_def push_bounded_def COMPLETED_PROCESS_LIMIT_def spawn_info_def example_request_def Let_def)
  have t: "trim ''p'' = ''p''" "trim ''sh'' = ''sh''" "trim ''.'' = ''.''" by code_simp+
  have ref: "spawn_refused (example_request ''p'') example_exited = None"
    using e t by (auto simp: spawn_refused_def example_request_def)
  have reg: "map_of (rt_processes example_exited) (sr_process_id (example_request ''p'')) = Some 0"
    by (simp add: e example_request_def)
  have cwd: "resolve_cwd example_bad_cwd example_exited (sr_cwd (example_request ''p'')) = Inl (InvalidCwd ''not found'')"
    using t by (simp add: resolve_cwd_def example_request_def example_bad_cwd_def example_os_def starts_with_def Let_def)
  from failed_respawn_leaks [OF ref reg cwd] e show ?thesis by (auto simp: example_request_def)
qed

end
