(* ===== verification/Host_Daemon.thy ===== *)
theory Host_Daemon
  imports Host_Runtime
begin

text \<open>
  The host daemon (\<open>crates/treer-agent-host/src/main.rs\<close>): the cache that makes mutating requests
  idempotent, the execution of requests, and a client connection with its replay and live output.
  Mutating requests run one at a time under the operation gate, so executing one is one step.
\<close>

section \<open>Results of operations\<close>

definition RESULT_CACHE_LIMIT :: nat where
  "RESULT_CACHE_LIMIT = 1024"

type_synonym host_result = "host_error + host_response"

record result_cache =
  rc_values :: "(string \<times> host_result) list"
  rc_order :: "string list"

definition cache_new :: result_cache where
  "cache_new = \<lparr>rc_values = [], rc_order = []\<rparr>"

function evict_results :: "result_cache \<Rightarrow> result_cache" where
  "evict_results c =
     (if RESULT_CACHE_LIMIT \<le> length (rc_order c) then
        (case rc_order c of
           [] \<Rightarrow> c
         | oldest # rest \<Rightarrow> evict_results \<lparr>rc_values = AList.delete oldest (rc_values c), rc_order = rest\<rparr>)
      else c)"
  by pat_completeness auto
termination
  by (relation "measure (\<lambda>c. length (rc_order c))") auto

declare evict_results.simps [simp del]

definition cache_insert :: "string \<Rightarrow> host_result \<Rightarrow> result_cache \<Rightarrow> result_cache" where
  "cache_insert operation_id response c =
     (if map_of (rc_values c) operation_id \<noteq> None then c
      else let c1 = evict_results c in
        \<lparr>rc_values = AList.update operation_id response (rc_values c1), rc_order = rc_order c1 @ [operation_id]\<rparr>)"

section \<open>Requests\<close>

record host_state =
  hd_runtime :: runtime
  hd_results :: result_cache
  hd_restarts :: nat

text \<open>What the operating system and the supervisor answer while one request runs.\<close>

record exec_env =
  ee_spawn :: spawn_os
  ee_writes :: "(string + unit) list"
  ee_resized :: "string + unit"
  ee_killed :: "string + unit"
  ee_now :: nanos
  ee_supervisor :: bool

definition host_runtime_error :: "runtime_error \<Rightarrow> host_error" where
  "host_runtime_error e = host_error_new (runtime_error_code e) (runtime_error_display e)"

text \<open>\<open>Sync\<close> never reaches this point; the code marks that branch unreachable.\<close>

fun run_command :: "exec_env \<Rightarrow> host_command \<Rightarrow> host_state \<Rightarrow> host_result \<times> host_state" where
  "run_command env (Sync _) st = (Inl (host_error_new ''unreachable'' ''sync is handled by the connection''), st)"
| "run_command env (Spawn request) st =
     (case runtime_spawn (ee_spawn env) request (hd_runtime st) of (res, r) \<Rightarrow>
        (and_then (map_err host_runtime_error res) (\<lambda>p. Inr (RespProcess p)), st\<lparr>hd_runtime := r\<rparr>))"
| "run_command env (Read i cursor) st =
     (and_then (map_err host_runtime_error (runtime_read i cursor (hd_runtime st))) (\<lambda>o1. Inr (RespOutput o1)), st)"
| "run_command env (Write i writes) st =
     (and_then (map_err host_runtime_error (runtime_write (ee_writes env) i writes (hd_runtime st)))
        (\<lambda>p. Inr (RespProcess p)), st)"
| "run_command env (Resize i cols rows) st =
     (and_then (map_err host_runtime_error (runtime_resize (ee_resized env) i (hd_runtime st)))
        (\<lambda>p. Inr (RespProcess p)), st)"
| "run_command env (Stop i) st =
     (case runtime_stop (ee_killed env) (ee_now env) i (hd_runtime st) of (res, r) \<Rightarrow>
        (and_then (map_err host_runtime_error res) (\<lambda>p. Inr (RespProcess p)), st\<lparr>hd_runtime := r\<rparr>))"
| "run_command env RestartController st =
     (if ee_supervisor env then (Inr Ack, st\<lparr>hd_restarts := hd_restarts st + 1\<rparr>)
      else (Inl (host_error_new ''supervisor_stopped'' ''controller supervisor stopped''), st))"

definition execute_request :: "exec_env \<Rightarrow> host_request \<Rightarrow> host_state \<Rightarrow> host_result \<times> host_state" where
  "execute_request env request st =
     (let run = (\<lambda>_. case run_command env (rq_command request) st of (response, st1) \<Rightarrow>
            (response,
             case rq_operation_id request of
               Some i \<Rightarrow> st1\<lparr>hd_results := cache_insert i response (hd_results st1)\<rparr>
             | None \<Rightarrow> st1))
      in if is_mutating (rq_command request) then
           (case rq_operation_id request of
              None \<Rightarrow> (Inl (host_error_new ''operation_id_required'' ''mutating commands need operation_id''), st)
            | Some i \<Rightarrow>
                (case map_of (rc_values (hd_results st)) i of
                   Some response \<Rightarrow> (response, st)
                 | None \<Rightarrow> run ()))
         else run ())"

section \<open>Connections\<close>

definition sync_runtime ::
  "host_build_info \<Rightarrow> runtime \<Rightarrow> output_cursor btree_map \<Rightarrow> runtime_error + host_response" where
  "sync_runtime build r cursors =
     (let processes = runtime_list r in
      and_then (try_map (\<lambda>p. runtime_read (hp_process_id p) (map_of cursors (hp_process_id p)) r) processes)
        (\<lambda>replay. Inr (Synced (rt_host_epoch r) build processes replay)))"

record connection =
  cn_synced :: bool
  cn_live_after :: "(string \<times> output_cursor) list"
  cn_outgoing :: "host_message list"

definition connection_new :: connection where
  "connection_new = \<lparr>cn_synced = False, cn_live_after = [], cn_outgoing = []\<rparr>"

definition send_response :: "string \<Rightarrow> host_result \<Rightarrow> connection \<Rightarrow> connection" where
  "send_response i result c =
     c\<lparr>cn_outgoing := cn_outgoing c @
        [case result of Inr response \<Rightarrow> MsgResponse i (Some response) None
         | Inl e \<Rightarrow> MsgResponse i None (Some e)]\<rparr>"

definition live_cursors :: "host_output_replay list \<Rightarrow> (string \<times> output_cursor) list" where
  "live_cursors replay =
     rev (map (\<lambda>r. (hr_process_id r,
        \<lparr>oc_stream_epoch = hr_stream_epoch r, oc_revision = hr_next_revision r - 1\<rparr>)) replay)"

text \<open>
  One request of a connection; \<open>Inl\<close> ends the connection with that error.  What was sent before is
  kept beside it.
\<close>

definition handle_request ::
  "host_build_info \<Rightarrow> exec_env \<Rightarrow> host_request \<Rightarrow> connection \<times> host_state \<Rightarrow>
   (string + unit) \<times> connection \<times> host_state" where
  "handle_request build env request cs =
     (case cs of (c, st) \<Rightarrow>
        if rq_protocol request \<noteq> HOST_PROTOCOL_VERSION then
          (Inl ''host protocol mismatch'',
           send_response (rq_request_id request) (Inl (host_error_new ''protocol_mismatch'' ''host protocol is 2'')) c, st)
        else (case rq_command request of
            Sync cursors \<Rightarrow>
              (case sync_runtime build (hd_runtime st) cursors of
                 Inl e \<Rightarrow> (Inl (runtime_error_display e), c, st)
               | Inr response \<Rightarrow>
                   (Inr (),
                    send_response (rq_request_id request) (Inr response)
                      (c\<lparr>cn_live_after := (case response of
                           Synced _ _ _ replay \<Rightarrow> live_cursors replay | _ \<Rightarrow> cn_live_after c),
                         cn_synced := True\<rparr>), st))
          | _ \<Rightarrow>
              (case execute_request env request st of (result, st1) \<Rightarrow>
                 (Inr (), send_response (rq_request_id request) result c, st1))))"

definition handle_output :: "host_output_chunk \<Rightarrow> connection \<Rightarrow> connection" where
  "handle_output chunk c =
     (if is_none_or (map_of (cn_live_after c) (hc_process_id chunk))
           (\<lambda>cursor. oc_stream_epoch cursor \<noteq> hc_stream_epoch chunk \<or> oc_revision cursor < hc_revision chunk)
      then c\<lparr>cn_live_after := AList.update (hc_process_id chunk)
                \<lparr>oc_stream_epoch = hc_stream_epoch chunk, oc_revision = hc_revision chunk\<rparr> (cn_live_after c),
             cn_outgoing := cn_outgoing c @ [MsgOutput chunk]\<rparr>
      else c)"

definition handle_process :: "host_process_info \<Rightarrow> connection \<Rightarrow> connection" where
  "handle_process info c = c\<lparr>cn_outgoing := cn_outgoing c @ [MsgProcess info]\<rparr>"

section \<open>A mutating operation runs once\<close>

definition cache_ok :: "result_cache \<Rightarrow> bool" where
  "cache_ok c \<longleftrightarrow> distinct (rc_order c) \<and> length (rc_order c) \<le> RESULT_CACHE_LIMIT
     \<and> (\<forall>i. map_of (rc_values c) i \<noteq> None \<longleftrightarrow> i \<in> set (rc_order c))"

text \<open>The entry of \<open>i\<close> with at most \<open>k\<close> newer ones behind it.\<close>

definition cached :: "string \<Rightarrow> host_result \<Rightarrow> nat \<Rightarrow> result_cache \<Rightarrow> bool" where
  "cached i v k c \<longleftrightarrow> map_of (rc_values c) i = Some v
     \<and> (\<exists>pre post. rc_order c = pre @ i # post \<and> length post \<le> k)"

lemma cached_mono: "cached i v k c \<Longrightarrow> k \<le> k' \<Longrightarrow> cached i v k' c"
  unfolding cached_def by (meson le_trans)

lemma evict_results_ok:
  assumes "cache_ok c"
  shows "evict_results c =
    (if length (rc_order c) = RESULT_CACHE_LIMIT
     then \<lparr>rc_values = AList.delete (hd (rc_order c)) (rc_values c), rc_order = tl (rc_order c)\<rparr> else c)"
proof (cases "rc_order c")
  case Nil
  then show ?thesis by (simp add: evict_results.simps RESULT_CACHE_LIMIT_def)
next
  case (Cons i js)
  then have "length js < RESULT_CACHE_LIMIT" using assms by (simp add: cache_ok_def)
  then have stop: "evict_results \<lparr>rc_values = vs, rc_order = js\<rparr> = \<lparr>rc_values = vs, rc_order = js\<rparr>" for vs
    by (simp add: evict_results.simps)
  show ?thesis
    using assms Cons by (subst evict_results.simps) (auto simp: stop cache_ok_def)
qed

lemma insert_new:
  assumes ok: "cache_ok c" and new: "map_of (rc_values c) i = None"
  defines "full \<equiv> length (rc_order c) = RESULT_CACHE_LIMIT"
  shows "rc_order (cache_insert i v c) = (if full then tl (rc_order c) else rc_order c) @ [i]"
    and "map_of (rc_values (cache_insert i v c)) j =
      (if j = i then Some v else if full \<and> j = hd (rc_order c) then None else map_of (rc_values c) j)"
  using new
  by (simp_all add: cache_insert_def evict_results_ok [OF ok] full_def Let_def AList.update_conv AList.delete_conv
      restrict_map_def)

lemma cache_insert_ok:
  assumes ok: "cache_ok c"
  shows "cache_ok (cache_insert i v c)"
proof (cases "map_of (rc_values c) i")
  case (Some w)
  with ok show ?thesis by (simp add: cache_insert_def)
next
  case None
  note new = insert_new [OF ok None, of v]
  have i: "i \<notin> set (rc_order c)" using ok None by (simp add: cache_ok_def) (metis option.distinct(1))
  show ?thesis
  proof (cases "length (rc_order c) = RESULT_CACHE_LIMIT")
    case True
    then obtain h t where ht: "rc_order c = h # t" by (cases "rc_order c") (auto simp: RESULT_CACHE_LIMIT_def)
    with ok i True new show ?thesis by (auto simp: cache_ok_def)
  next
    case False
    with ok i new show ?thesis by (auto simp: cache_ok_def)
  qed
qed

lemma cache_insert_new:
  "cache_ok c \<Longrightarrow> map_of (rc_values c) i = None \<Longrightarrow> cached i v 0 (cache_insert i v c)"
  using insert_new [of c i v] by (auto simp: cached_def)

lemma cache_insert_keeps:
  assumes ok: "cache_ok c" and c: "cached i v k c" and k: "Suc k < RESULT_CACHE_LIMIT"
  shows "cached i v (Suc k) (cache_insert j w c)"
proof (cases "map_of (rc_values c) j")
  case (Some u)
  with c show ?thesis by (auto simp: cache_insert_def intro: cached_mono)
next
  case None
  note new = insert_new [OF ok None, of w]
  obtain pre post where o: "rc_order c = pre @ i # post" "length post \<le> k" and m: "map_of (rc_values c) i = Some v"
    using c by (auto simp: cached_def)
  show ?thesis
  proof (cases "length (rc_order c) = RESULT_CACHE_LIMIT")
    case False
    then have "rc_order (cache_insert j w c) = pre @ i # (post @ [j])" using new(1) o by simp
    moreover have "map_of (rc_values (cache_insert j w c)) i = Some v" using new(2) [of i] False m None by auto
    ultimately show ?thesis using o(2) unfolding cached_def by (intro conjI exI) auto
  next
    case True
    then obtain h pre' where pre: "pre = h # pre'" using o k by (cases pre) auto
    then have "h \<noteq> i" using ok o by (auto simp: cache_ok_def)
    then have "map_of (rc_values (cache_insert j w c)) i = Some v" using new(2) [of i] o pre m None by auto
    moreover have "rc_order (cache_insert j w c) = pre' @ i # (post @ [j])" using new(1) True o pre by simp
    ultimately show ?thesis using o(2) unfolding cached_def by (intro conjI exI) auto
  qed
qed

lemma run_command_results: "hd_results (snd (run_command env cmd st)) = hd_results st"
  by (induction env cmd st rule: run_command.induct) (auto split: prod.splits)

definition after_run :: "host_request \<Rightarrow> host_result \<times> host_state \<Rightarrow> host_result \<times> host_state" where
  "after_run request rs = (fst rs,
     case rq_operation_id request of
       Some i \<Rightarrow> (snd rs)\<lparr>hd_results := cache_insert i (fst rs) (hd_results (snd rs))\<rparr> | None \<Rightarrow> snd rs)"

lemma execute_request_alt:
  "execute_request env request st =
     (if is_mutating (rq_command request) then
        (case rq_operation_id request of
           None \<Rightarrow> (Inl (host_error_new ''operation_id_required'' ''mutating commands need operation_id''), st)
         | Some i \<Rightarrow> (case map_of (rc_values (hd_results st)) i of
             Some response \<Rightarrow> (response, st) | None \<Rightarrow> after_run request (run_command env (rq_command request) st)))
      else after_run request (run_command env (rq_command request) st))"
  by (auto simp: execute_request_def after_run_def Let_def case_prod_beta split: option.splits)

lemma after_run_results:
  "hd_results (snd (after_run request (run_command env cmd st))) =
     (case rq_operation_id request of
        None \<Rightarrow> hd_results st
      | Some i \<Rightarrow> cache_insert i (fst (run_command env cmd st)) (hd_results st))"
  by (simp add: after_run_def run_command_results split: option.splits)

lemma execute_results:
  "\<exists>i v. hd_results (snd (execute_request env request st)) \<in> {hd_results st, cache_insert i v (hd_results st)}"
  by (auto simp: execute_request_alt after_run_results split: option.splits)

fun execute_all :: "(exec_env \<times> host_request) list \<Rightarrow> host_state \<Rightarrow> host_state" where
  "execute_all [] st = st"
| "execute_all ((env, request) # rest) st = execute_all rest (snd (execute_request env request st))"

lemma execute_ok: "cache_ok (hd_results st) \<Longrightarrow> cache_ok (hd_results (snd (execute_request env request st)))"
  using execute_results [of env request st] by (auto simp: cache_insert_ok)

lemma execute_all_ok: "cache_ok (hd_results st) \<Longrightarrow> cache_ok (hd_results (execute_all qs st))"
  by (induction qs st rule: execute_all.induct) (auto intro: execute_ok)

lemma execute_keeps:
  assumes "cache_ok (hd_results st)" "cached i v k (hd_results st)" "Suc k < RESULT_CACHE_LIMIT"
  shows "cached i v (Suc k) (hd_results (snd (execute_request env request st)))"
  using execute_results [of env request st] cache_insert_keeps [OF assms] cached_mono [OF assms(2), of "Suc k"]
  by auto

lemma execute_all_keeps:
  "cache_ok (hd_results st) \<Longrightarrow> cached i v k (hd_results st) \<Longrightarrow> k + length qs < RESULT_CACHE_LIMIT \<Longrightarrow>
   cached i v (k + length qs) (hd_results (execute_all qs st))"
proof (induction qs st arbitrary: k rule: execute_all.induct)
  case (2 env request rest st)
  from "2.IH" [OF execute_ok [OF "2.prems"(1)] execute_keeps [OF "2.prems"(1,2)]] "2.prems"(3) show ?case by simp
qed simp

text \<open>
  C35: Mutating operations are idempotent.  Starting from any history of requests, when a mutating
  request with a fresh operation identifier has been executed, a retry with the same identifier
  (of any mutating command, with whatever the system would answer now) after at most 1023 other
  requests returns the first response, successful or not, and changes nothing: no process is
  spawned, written to, stopped or restarted a second time.
\<close>

theorem retried_operation_runs_once:
  assumes "cache_ok (hd_results st0)" and st: "st = execute_all history st0"
    and "is_mutating (rq_command q)" "rq_operation_id q = Some i" "map_of (rc_values (hd_results st)) i = None"
    and run: "execute_request env q st = (response, st1)"
    and "length later < 1024" "st2 = execute_all later st1"
    and "is_mutating (rq_command q')" "rq_operation_id q' = Some i"
  shows "execute_request env' q' st2 = (response, st2)"
proof -
  have ok: "cache_ok (hd_results st)" unfolding st by (rule execute_all_ok [OF assms(1)])
  have "response = fst (run_command env (rq_command q) st)" "st1 = snd (after_run q (run_command env (rq_command q) st))"
    using run assms(3-5) by (auto simp: execute_request_alt after_run_def)
  then have c: "cached i response 0 (hd_results st1)"
    using cache_insert_new [OF ok assms(5)] assms(4) by (simp add: after_run_results)
  have "cache_ok (hd_results st1)" using execute_ok [OF ok, of env q] run by simp
  from execute_all_keeps [OF this c, of later] assms(7,8)
  have "map_of (rc_values (hd_results st2)) i = Some response" by (auto simp: RESULT_CACHE_LIMIT_def cached_def)
  then show ?thesis using assms(9,10) by (simp add: execute_request_def)
qed

definition restart_request :: host_request where
  "restart_request = \<lparr>rq_protocol = 2, rq_request_id = ''req'', rq_operation_id = Some ''op'',
     rq_command = RestartController\<rparr>"

definition example_env :: exec_env where
  "example_env = \<lparr>ee_spawn = example_os, ee_writes = [], ee_resized = Inr (), ee_killed = Inr (), ee_now = 0,
     ee_supervisor = True\<rparr>"

definition example_host :: host_state where
  "example_host = \<lparr>hd_runtime = runtime_new ''host'' [''srv''], hd_results = cache_new, hd_restarts = 0\<rparr>"

theorem retried_operation_runs_once_witness:
  "let st1 = snd (execute_request example_env restart_request example_host)
   in execute_request example_env restart_request st1 = (Inr Ack, st1) \<and> hd_restarts st1 = 1"
proof -
  have ok: "cache_ok (hd_results example_host)"
    by (simp add: cache_ok_def example_host_def cache_new_def)
  have ex: "execute_request example_env restart_request example_host = (Inr Ack, example_host\<lparr>hd_restarts := 1,
      hd_results := cache_insert ''op'' (Inr Ack) cache_new\<rparr>)"
    by (simp add: execute_request_def restart_request_def example_env_def example_host_def cache_new_def Let_def)
  let ?st1 = "example_host\<lparr>hd_restarts := 1, hd_results := cache_insert ''op'' (Inr Ack) cache_new\<rparr>"
  have q: "is_mutating (rq_command restart_request)" "rq_operation_id restart_request = Some ''op''"
    by (simp_all add: restart_request_def)
  have new: "map_of (rc_values (hd_results example_host)) ''op'' = None"
    by (simp add: example_host_def cache_new_def)
  have "execute_request example_env restart_request ?st1 = (Inr Ack, ?st1)"
    by (rule retried_operation_runs_once [OF ok _ q new ex, of "[]" "[]"]) (simp_all add: q)
  then show ?thesis unfolding ex Let_def by simp
qed

section \<open>The client sees every piece of output once\<close>

fun emit_all :: "string \<Rightarrow> (nanos \<times> bytes) list \<Rightarrow> output_buffer \<Rightarrow> host_output_chunk list" where
  "emit_all i [] b = []"
| "emit_all i ((now, bs) # ps) b = (case output_push now i bs b of (c, b') \<Rightarrow> c # emit_all i ps b')"

lemma push_chunk:
  assumes "output_push now i bs b = (c, b')"
  shows "hc_process_id c = i" "hc_stream_epoch c = ob_stream_epoch b" "hc_revision c = ob_next_revision b"
    "hc_data c = bs" "ob_next_revision b' = sat_add64 (ob_next_revision b) 1" "ob_stream_epoch b' = ob_stream_epoch b"
  using assms by (auto simp: output_push_def update_terminal_modes_def Let_def split: prod.splits)

lemma emit_all_facts:
  assumes "ob_next_revision b + length ps \<le> U64_MAX"
  shows "map hc_revision (emit_all i ps b) = [ob_next_revision b ..< ob_next_revision b + length ps]
    \<and> map hc_data (emit_all i ps b) = map snd ps
    \<and> (\<forall>c \<in> set (emit_all i ps b). hc_process_id c = i \<and> hc_stream_epoch c = ob_stream_epoch b)"
  using assms
proof (induction i ps b rule: emit_all.induct)
  case (2 i now bs ps b)
  obtain c b' where p: "output_push now i bs b = (c, b')" by force
  have n: "ob_next_revision b' = ob_next_revision b + 1"
    using push_chunk(5) [OF p] 2(2) by (simp add: sat_add64_def)
  have "ob_next_revision b' + length ps \<le> U64_MAX" using n 2(2) by simp
  moreover have "[ob_next_revision b ..< ob_next_revision b + length ((now, bs) # ps)]
      = ob_next_revision b # [ob_next_revision b' ..< ob_next_revision b' + length ps]"
    using n by (simp add: upt_conv_Cons del: upt_Suc)
  ultimately show ?case using 2(1) [OF p [symmetric]] push_chunk(1-4,6) [OF p] by (simp add: p del: upt_Suc)
qed simp

definition output_of :: "string \<Rightarrow> host_message list \<Rightarrow> host_output_chunk list" where
  "output_of i ms = List.map_filter (\<lambda>m. case m of MsgOutput c \<Rightarrow> if hc_process_id c = i then Some c else None
      | _ \<Rightarrow> None) ms"

lemma output_of_append [simp]: "output_of i (ms @ ns) = output_of i ms @ output_of i ns"
  by (simp add: output_of_def map_filter_def)

lemma output_of_single [simp]: "output_of i [MsgOutput c] = (if hc_process_id c = i then [c] else [])"
  by (simp add: output_of_def map_filter_def)

text \<open>
  The forwarding rule.  Chunks of one process and stream come with increasing revisions.  As long as only
  chunks of the stream of the cursor come, those after the cursor are forwarded; from the first chunk of
  another stream on, every chunk is.
\<close>

definition chunks_of :: "string \<Rightarrow> host_output_chunk list \<Rightarrow> host_output_chunk list" where
  "chunks_of i xs = filter (\<lambda>x. hc_process_id x = i) xs"

definition in_order :: "host_output_chunk list \<Rightarrow> bool" where
  "in_order xs \<longleftrightarrow> (\<forall>f. sorted_wrt (<) (map hc_revision (filter (\<lambda>x. hc_stream_epoch x = f) xs)))"

lemma in_order_Cons:
  "in_order (x # xs) \<longleftrightarrow> (\<forall>y \<in> set xs. hc_stream_epoch y = hc_stream_epoch x \<longrightarrow> hc_revision x < hc_revision y) \<and> in_order xs"
  by (auto simp: in_order_def)

lemma chunks_of_simps [simp]: "chunks_of i [] = []"
  "chunks_of i (x # xs) = (if hc_process_id x = i then x # chunks_of i xs else chunks_of i xs)"
  by (simp_all add: chunks_of_def)

lemma handle_other:
  assumes "hc_process_id x \<noteq> i"
  shows "map_of (cn_live_after (handle_output x c)) i = map_of (cn_live_after c) i"
    "output_of i (cn_outgoing (handle_output x c)) = output_of i (cn_outgoing c)"
  using assms by (auto simp: handle_output_def AList.update_conv)

lemma handle_forwarded:
  assumes "map_of (cn_live_after c) (hc_process_id x) = Some \<lparr>oc_stream_epoch = e, oc_revision = n\<rparr>"
    and "hc_stream_epoch x \<noteq> e \<or> n < hc_revision x"
  shows "map_of (cn_live_after (handle_output x c)) (hc_process_id x)
      = Some \<lparr>oc_stream_epoch = hc_stream_epoch x, oc_revision = hc_revision x\<rparr>"
    "output_of (hc_process_id x) (cn_outgoing (handle_output x c)) = output_of (hc_process_id x) (cn_outgoing c) @ [x]"
  using assms by (auto simp: handle_output_def AList.update_conv)

lemma live_all:
  assumes "map_of (cn_live_after c) i = Some \<lparr>oc_stream_epoch = f, oc_revision = n\<rparr>" "in_order (chunks_of i xs)"
    and "\<forall>x \<in> set (chunks_of i xs). hc_stream_epoch x = f \<longrightarrow> n < hc_revision x"
  shows "output_of i (cn_outgoing (fold handle_output xs c)) = output_of i (cn_outgoing c) @ chunks_of i xs"
  using assms
proof (induction xs arbitrary: c f n)
  case (Cons x xs)
  show ?case
  proof (cases "hc_process_id x = i")
    case True
    with Cons.prems have "hc_stream_epoch x \<noteq> f \<or> n < hc_revision x" by auto
    from handle_forwarded [OF _ this, of c] Cons.prems(1) True Cons.IH [of "handle_output x c"] Cons.prems(2)
    show ?thesis by (simp add: in_order_Cons)
  next
    case False
    with handle_other [OF False, of c] Cons.IH [of "handle_output x c"] Cons.prems show ?thesis by simp
  qed
qed simp

lemma live_output:
  assumes "map_of (cn_live_after c) i = Some \<lparr>oc_stream_epoch = e, oc_revision = n\<rparr>" "in_order (chunks_of i xs)"
  shows "output_of i (cn_outgoing (fold handle_output xs c)) = output_of i (cn_outgoing c)
    @ filter (\<lambda>x. n < hc_revision x) (takeWhile (\<lambda>x. hc_stream_epoch x = e) (chunks_of i xs))
    @ dropWhile (\<lambda>x. hc_stream_epoch x = e) (chunks_of i xs)"
  using assms
proof (induction xs arbitrary: c n)
  case (Cons x xs)
  consider (other) "hc_process_id x \<noteq> i" | (stale) "hc_process_id x = i" "hc_stream_epoch x = e" "\<not> n < hc_revision x"
    | (new) "hc_process_id x = i" "hc_stream_epoch x = e" "n < hc_revision x"
    | (switch) "hc_process_id x = i" "hc_stream_epoch x \<noteq> e" by blast
  then show ?case
  proof cases
    case other
    with handle_other [OF other, of c] Cons.IH [of "handle_output x c"] Cons.prems show ?thesis by simp
  next
    case stale
    then have "handle_output x c = c" using Cons.prems(1) by (simp add: handle_output_def)
    with stale Cons.IH [of c] Cons.prems show ?thesis by (simp add: in_order_Cons)
  next
    case new
    have later: "filter (\<lambda>y. hc_revision x < hc_revision y) (takeWhile (\<lambda>x. hc_stream_epoch x = e) (chunks_of i xs))
        = filter (\<lambda>y. n < hc_revision y) (takeWhile (\<lambda>x. hc_stream_epoch x = e) (chunks_of i xs))"
      using new Cons.prems(2) by (intro filter_cong) (auto simp: in_order_Cons dest: set_takeWhileD)
    from handle_forwarded [of c x e n] new Cons.prems(1) Cons.IH [of "handle_output x c" "hc_revision x"] Cons.prems(2)
    show ?thesis by (simp add: in_order_Cons later)
  next
    case switch
    from handle_forwarded [of c x e n] switch Cons.prems
      live_all [of "handle_output x c" i "hc_stream_epoch x" "hc_revision x" xs]
    show ?thesis by (simp add: in_order_Cons)
  qed
qed simp

lemma list_registered:
  assumes "map_of (rt_processes r) i = Some n" "rt_store r n = Some p"
  shows "pr_info p \<in> set (runtime_list r)"
proof -
  have "(i, n) \<in> set (rt_processes r)" using assms(1) by (rule map_of_SomeD)
  then show ?thesis using assms(2) by (force simp: runtime_list_def map_filter_def)
qed

lemma try_map_members:
  "try_map f xs = Inr ys \<Longrightarrow> (\<forall>y \<in> set ys. \<exists>x \<in> set xs. f x = Inr y) \<and> (\<forall>x \<in> set xs. \<exists>y \<in> set ys. f x = Inr y)"
  unfolding try_map_Inr by (induction rule: list_all2_induct) auto

lemma filter_numbered:
  assumes "map f xs = [1 ..< Suc (length xs)]" "s \<le> m"
  shows "filter (\<lambda>x. m < f x) (drop s xs) = drop m xs"
proof -
  have nth: "f (xs ! j) = Suc j" if "j < length xs" for j
    using arg_cong [OF assms(1), of "\<lambda>l. l ! j"] that by (simp del: upt_Suc)
  have "drop s xs = take (m - s) (drop s xs) @ drop m xs"
    using assms(2) append_take_drop_id [of "m - s" "drop s xs"] by (simp add: add.commute)
  moreover have "f x \<le> m" if "x \<in> set (take (m - s) (drop s xs))" for x
    using that assms(2) nth by (auto simp: in_set_conv_nth)
  moreover have "m < f x" if "x \<in> set (drop m xs)" for x
    using that nth by (auto simp: in_set_conv_nth)
  ultimately show ?thesis
    by (metis (no_types, lifting) append_Nil filter_False filter_True filter_append linorder_not_le)
qed

lemma map_of_all:
  assumes "\<And>v. (i, v) \<in> set xs \<Longrightarrow> v = w" "(i, w) \<in> set xs"
  shows "map_of xs i = Some w"
proof -
  obtain v where "map_of xs i = Some v" using assms(2) weak_map_of_SomeI by fast
  with assms(1) [OF map_of_SomeD] show ?thesis by metis
qed

text \<open>What a sync leaves in the connection for a registered process.\<close>

lemma sync_live_after:
  assumes run: "handle_request build env q (c0, st) = (Inr (), c1, st1)" and q: "rq_command q = Sync cursors"
    and p: "map_of (rt_processes (hd_runtime st)) i = Some n" "rt_store (hd_runtime st) n = Some p"
      "hp_process_id (pr_info p) = i"
    and rep: "rep = output_replay i (map_of cursors i) (pr_output p)"
  shows "\<exists>procs replay. cn_outgoing c1 = cn_outgoing c0 @
      [MsgResponse (rq_request_id q) (Some (Synced (rt_host_epoch (hd_runtime st)) build procs replay)) None]
    \<and> rep \<in> set replay
    \<and> map_of (cn_live_after c1) i = Some \<lparr>oc_stream_epoch = hr_stream_epoch rep, oc_revision = hr_next_revision rep - 1\<rparr>"
proof -
  let ?read = "\<lambda>p :: host_process_info. runtime_read (hp_process_id p) (map_of cursors (hp_process_id p)) (hd_runtime st)"
  obtain replay where tm: "try_map ?read (runtime_list (hd_runtime st)) = Inr replay"
    and c1: "c1 = send_response (rq_request_id q)
        (Inr (Synced (rt_host_epoch (hd_runtime st)) build (runtime_list (hd_runtime st)) replay))
        (c0\<lparr>cn_live_after := live_cursors replay, cn_synced := True\<rparr>)"
    using run q
    by (auto simp: handle_request_def sync_runtime_def Let_def res_simps split: if_splits sum.splits)
  have read: "?read (pr_info p) = Inr rep" using p rep by (simp add: runtime_read_def runtime_get_def)
  have mem: "rep \<in> set replay" using try_map_members [OF tm] list_registered [OF p(1,2)] read by fastforce
  have id: "hr_process_id (output_replay j cur b) = j" for j cur b by (simp add: output_replay_def Let_def)
  have only: "r = rep" if r: "r \<in> set replay" "hr_process_id r = i" for r
  proof -
    obtain x where "?read x = Inr r" using try_map_members [OF tm] r(1) by blast
    moreover from this have "hp_process_id x = i"
      using r(2) id by (auto simp: runtime_read_def res_simps split: prod.splits)
    ultimately show ?thesis using read p(3) by simp
  qed
  have "map_of (live_cursors replay) i
      = Some \<lparr>oc_stream_epoch = hr_stream_epoch rep, oc_revision = hr_next_revision rep - 1\<rparr>"
  proof (intro map_of_all)
    fix v assume "(i, v) \<in> set (live_cursors replay)"
    then obtain x where "x \<in> set replay" "hr_process_id x = i"
      "v = \<lparr>oc_stream_epoch = hr_stream_epoch x, oc_revision = hr_next_revision x - 1\<rparr>"
      by (auto simp: live_cursors_def)
    with only show "v = \<lparr>oc_stream_epoch = hr_stream_epoch rep, oc_revision = hr_next_revision rep - 1\<rparr>" by blast
  next
    have "hr_process_id rep = i" by (simp add: rep id)
    then show "(i, \<lparr>oc_stream_epoch = hr_stream_epoch rep, oc_revision = hr_next_revision rep - 1\<rparr>) \<in> set (live_cursors replay)"
      using mem by (auto simp: live_cursors_def)
  qed
  with mem c1 show ?thesis by (auto simp: send_response_def)
qed

text \<open>A replay without a gap, followed by what was emitted after it, continues the cursor.\<close>

lemma replayed_then_live:
  assumes h: "holds k (map snd ps) b" and r: "r \<le> length ps" and small: "length ps + 1 < U64_MAX"
    and rep: "rep = output_replay i (Some \<lparr>oc_stream_epoch = ob_stream_epoch b, oc_revision = r\<rparr>) b" and gap: "\<not> hr_gap rep"
    and all: "map hc_revision all = [1 ..< length ps + length qs + 1]" "map hc_data all = map snd (ps @ qs)"
  shows "map hc_revision (hr_chunks rep @ drop (length ps) all) = [r + 1 ..< length ps + length qs + 1]
    \<and> map hc_data (hr_chunks rep @ drop (length ps) all) = drop r (map snd (ps @ qs))"
proof -
  have rl: "r \<le> length (map snd ps)" and sm: "length (map snd ps) + 1 < U64_MAX" using r small by auto
  note R = holds_replay [OF h rl sm rep]
  have m: "max r k = r" using R(1) gap by simp
  have len: "length [r + 1 ..< length ps + 1] = length (drop r (map snd ps))" by (simp del: upt_Suc)
  have pr: "map (\<lambda>c. (hc_revision c, hc_data c)) (hr_chunks rep) = zip [r + 1 ..< length ps + 1] (drop r (map snd ps))"
    using R(2) m by simp
  have "map hc_revision (hr_chunks rep) = map fst (map (\<lambda>c. (hc_revision c, hc_data c)) (hr_chunks rep))"
    by (simp add: comp_def)
  also have "\<dots> = [r + 1 ..< length ps + 1]" unfolding pr using len by (rule map_fst_zip)
  finally have revs: "map hc_revision (hr_chunks rep) = [r + 1 ..< length ps + 1]" .
  have "[r + 1 ..< length ps + 1] @ [length ps + 1 ..< length ps + length qs + 1] = [r + 1 ..< length ps + length qs + 1]"
    using r upt_add_eq_append [of "r + 1" "length ps + 1" "length qs"] by (simp add: add.commute del: upt_Suc)
  then show ?thesis
    using revs pair_data [OF pr len] r by (simp add: drop_map [symmetric] all del: upt_Suc)
qed

lemma drop_numbered:
  assumes "map f xs = [1 ..< Suc (length xs)]" "y \<in> set (drop m xs)"
  shows "m < f y"
proof -
  from assms(2) obtain j where "j < length (drop m xs)" "y = drop m xs ! j" by (metis in_set_conv_nth)
  then have j: "m + j < length xs" "y = xs ! (m + j)" by simp_all
  then show ?thesis using arg_cong [OF assms(1), of "\<lambda>l. l ! (m + j)"] by (simp del: upt_Suc)
qed

text \<open>The chunks of one stream that the connection forwards, when the pieces before the cursor come first.\<close>

lemma stream_part:
  assumes num: "map f all = [1 ..< Suc (length all)]" and part: "filter P xs = drop s all" and "s \<le> m"
    and first: "m \<le> s + length (takeWhile P xs)"
  shows "filter P (filter (\<lambda>x. m < f x) (takeWhile P xs) @ dropWhile P xs) = drop m all"
proof -
  have P: "filter P (takeWhile P xs) = takeWhile P xs" by (auto intro!: filter_True dest: set_takeWhileD)
  have split: "takeWhile P xs @ filter P (dropWhile P xs) = drop s all"
    using part P filter_append [of P "takeWhile P xs" "dropWhile P xs"] by simp
  then have "filter P (dropWhile P xs) = drop (s + length (takeWhile P xs)) all"
    by (metis append_eq_conv_conj drop_drop add.commute)
  then have "filter (\<lambda>x. m < f x) (filter P (dropWhile P xs)) = filter P (dropWhile P xs)"
    using drop_numbered [OF num] first by (intro filter_True) (metis le_less_trans)
  then have "filter P (filter (\<lambda>x. m < f x) (takeWhile P xs) @ dropWhile P xs)
      = filter (\<lambda>x. m < f x) (takeWhile P xs @ filter P (dropWhile P xs))"
    by (auto intro!: filter_cong dest: set_takeWhileD)
  then show ?thesis using split filter_numbered [OF num \<open>s \<le> m\<close>] by simp
qed

text \<open>
  C36: What a reconnecting client sees.  The client syncs with the cursor of the last piece it saw of a
  process; the connection's event queue may start anywhere before the sync, and carries the output of
  other processes and of earlier or later incarnations of this process under the same identifier too,
  each stream in the order of its revisions.  Unless the sync reports a gap, the connection forwards
  after the replay: of the events of the current incarnation that come before the first event of
  another one, those that the replay has not sent, and from there on every event.  So nothing is lost,
  and if the events before the sync come before those of other incarnations, the replay and the
  forwarded output of the incarnation are exactly its output after the cursor, with consecutive
  revisions.  If not, what the replay has sent is sent again.
\<close>

theorem client_stream_complete:
  assumes run: "handle_request build env q (c0, st) = (Inr (), c1, st1)" "rq_command q = Sync cursors"
    and cur: "map_of cursors i = Some \<lparr>oc_stream_epoch = e, oc_revision = r\<rparr>" "r \<le> length ps"
    and p: "map_of (rt_processes (hd_runtime st)) i = Some n" "rt_store (hd_runtime st) n = Some p"
      "hp_process_id (pr_info p) = i" "pr_output p = push_all i ps (output_new e)"
    and small: "length ps + length qs + 1 < U64_MAX"
    and events: "filter (\<lambda>c. hc_stream_epoch c = e) (chunks_of i events) = drop s0 (emit_all i (ps @ qs) (output_new e))"
      "s0 \<le> length ps" "in_order (chunks_of i events)"
    and c0: "output_of i (cn_outgoing c0) = []"
  shows "\<exists>procs replay rep. cn_outgoing c1 = cn_outgoing c0 @
      [MsgResponse (rq_request_id q) (Some (Synced (rt_host_epoch (hd_runtime st)) build procs replay)) None]
    \<and> rep \<in> set replay \<and> hr_process_id rep = i
    \<and> (hr_gap rep \<or>
       (let live = output_of i (cn_outgoing (fold handle_output events c1));
            before = takeWhile (\<lambda>c. hc_stream_epoch c = e) (chunks_of i events);
            seen = hr_chunks rep @ filter (\<lambda>c. hc_stream_epoch c = e) live in
        live = filter (\<lambda>c. length ps < hc_revision c) before @ dropWhile (\<lambda>c. hc_stream_epoch c = e) (chunks_of i events)
        \<and> (length ps \<le> s0 + length before \<longrightarrow>
             map hc_revision seen = [r + 1 ..< length ps + length qs + 1] \<and> map hc_data seen = drop r (map snd (ps @ qs)))))"
proof -
  let ?b = "push_all i ps (output_new e)" and ?P = "\<lambda>c. hc_stream_epoch c = e"
  define rep where "rep = output_replay i (map_of cursors i) (pr_output p)"
  obtain procs replay where out: "cn_outgoing c1 = cn_outgoing c0 @
      [MsgResponse (rq_request_id q) (Some (Synced (rt_host_epoch (hd_runtime st)) build procs replay)) None]"
    and mem: "rep \<in> set replay"
    and la: "map_of (cn_live_after c1) i = Some \<lparr>oc_stream_epoch = hr_stream_epoch rep, oc_revision = hr_next_revision rep - 1\<rparr>"
    using sync_live_after [OF run p(1,2,3) rep_def] by blast
  have ep: "ob_stream_epoch ?b = e" by (simp add: output_new_def)
  have "holds 0 [] (output_new e)" by (simp add: holds_def output_new_def)
  from push_all_holds [OF this, of ps i] small obtain k where h: "holds k (map snd ps) ?b" by auto
  have rep: "rep = output_replay i (Some \<lparr>oc_stream_epoch = ob_stream_epoch ?b, oc_revision = r\<rparr>) ?b"
    unfolding ep by (simp add: rep_def cur p)
  have nr: "hr_next_revision rep = length ps + 1" "hr_stream_epoch rep = e" "hr_process_id rep = i"
    using h ep by (simp_all add: rep output_replay_def holds_def Let_def)
  let ?all = "emit_all i (ps @ qs) (output_new e)"
  let ?live = "filter (\<lambda>c. length ps < hc_revision c) (takeWhile ?P (chunks_of i events)) @ dropWhile ?P (chunks_of i events)"
  have all: "map hc_revision ?all = [1 ..< length ps + length qs + 1]" "map hc_data ?all = map snd (ps @ qs)"
    using emit_all_facts [of "output_new e" "ps @ qs" i] small by (simp_all add: output_new_def)
  have "output_of i (cn_outgoing c1) = []" using c0 out by (simp add: output_of_def map_filter_def)
  with live_output [of c1 i e "length ps" events] la nr events(3)
  have live: "output_of i (cn_outgoing (fold handle_output events c1)) = ?live" by simp
  have "length ?all = length ps + length qs" using arg_cong [OF all(2), of length] by simp
  then have num: "map hc_revision ?all = [1 ..< Suc (length ?all)]" using all(1) by (simp del: upt_Suc)
  have "map hc_revision (hr_chunks rep @ filter ?P ?live) = [r + 1 ..< length ps + length qs + 1]
      \<and> map hc_data (hr_chunks rep @ filter ?P ?live) = drop r (map snd (ps @ qs))"
    if gap: "\<not> hr_gap rep" and first: "length ps \<le> s0 + length (takeWhile ?P (chunks_of i events))"
    unfolding stream_part [OF num events(1,2) first]
    using replayed_then_live [OF h cur(2) _ rep gap all] small by simp
  with out mem nr show ?thesis unfolding Let_def live by blast
qed

definition example_live_host :: host_state where
  "example_live_host = example_host\<lparr>hd_runtime := reader_output 1 0 ''one'' (hs_runtime example_running)\<rparr>"

definition sync_request :: host_request where
  "sync_request = \<lparr>rq_protocol = 2, rq_request_id = ''req'', rq_operation_id = None,
     rq_command = Sync [(''p'', \<lparr>oc_stream_epoch = ''stream'', oc_revision = 0\<rparr>)]\<rparr>"

definition example_build :: host_build_info where
  "example_build = \<lparr>hb_version = ''1'', hb_git_commit = ''c''\<rparr>"

lemma example_live_process:
  "rt_processes (hd_runtime example_live_host) = [(''p'', 0)]"
  "\<exists>p. rt_store (hd_runtime example_live_host) 0 = Some p \<and> hp_process_id (pr_info p) = ''p''
     \<and> pr_output p = push_all ''p'' [(1, ''one'')] (output_new ''stream'')"
  by (auto simp: example_live_host_def example_running_runtime reader_output_def insert_process_def runtime_new_def
      spawn_info_def example_request_def Let_def split: prod.splits)

lemma first_piece_no_gap:
  "\<not> hr_gap (output_replay i (Some \<lparr>oc_stream_epoch = e, oc_revision = 0\<rparr>) (push_all i [(t, ''one'')] (output_new e)))"
  by (simp add: output_replay_def output_push_def update_terminal_modes_def output_new_def output_first_revision_def
      sat_add64_def U64_MAX_def OUTPUT_LIMIT_BYTES_def is_some_and_def Let_def split: prod.splits)

text \<open>The process writes twice, around the sync, is respawned and writes again with the revision 1.\<close>

definition respawn_events :: "host_output_chunk list" where
  "respawn_events = emit_all ''p'' [(1, ''one''), (2, ''two'')] (output_new ''stream'')
     @ emit_all ''p'' [(9, ''again'')] (output_new ''other'')"

lemma respawn_chunks:
  obtains a b d where "emit_all ''p'' [(1, ''one''), (2, ''two'')] (output_new ''stream'') = [a, b]"
    "emit_all ''p'' [(9, ''again'')] (output_new ''other'') = [d]"
    "hc_process_id a = ''p''" "hc_process_id b = ''p''" "hc_process_id d = ''p''"
    "hc_stream_epoch a = ''stream''" "hc_stream_epoch b = ''stream''" "hc_stream_epoch d = ''other''"
    "hc_revision a = 1" "hc_revision b = 2" "hc_data a = ''one''" "hc_data b = ''two''" "hc_data d = ''again''"
proof -
  let ?x = "emit_all ''p'' [(1, ''one''), (2, ''two'')] (output_new ''stream'')"
    and ?y = "emit_all ''p'' [(9, ''again'')] (output_new ''other'')"
  have small: "ob_next_revision (output_new e) + n \<le> U64_MAX" if "n \<le> 2" for e n
    using that by (simp add: U64_MAX_def output_new_def)
  have x: "map hc_revision ?x = [1, 2]" "map hc_data ?x = [''one'', ''two'']"
    "\<forall>c \<in> set ?x. hc_process_id c = ''p'' \<and> hc_stream_epoch c = ''stream''"
    using emit_all_facts [of "output_new ''stream''" "[(1, ''one''), (2, ''two'')]" "''p''"] small [of 2]
    by (simp_all add: output_new_def upt_rec del: emit_all.simps)
  have y: "map hc_data ?y = [''again'']" "\<forall>c \<in> set ?y. hc_process_id c = ''p'' \<and> hc_stream_epoch c = ''other''"
    using emit_all_facts [of "output_new ''other''" "[(9, ''again'')]" "''p''"] small [of 1]
    by (simp_all add: output_new_def del: emit_all.simps)
  from x(2) obtain a b where ab: "?x = [a, b]" unfolding map_eq_Cons_conv by auto
  from y(1) obtain d where d: "?y = [d]" unfolding map_eq_Cons_conv by auto
  show thesis by (rule that [OF ab d]) (use x y in \<open>simp_all add: ab d del: emit_all.simps\<close>)
qed

theorem client_stream_complete_witness:
  "\<exists>c1 (rep :: host_output_replay). cn_synced c1 \<and> hr_process_id rep = ''p'' \<and> \<not> hr_gap rep \<and>
      (let live = output_of ''p'' (cn_outgoing (fold handle_output respawn_events c1)) in
       map hc_data live = [''two'', ''again'']
       \<and> map hc_data (hr_chunks rep @ filter (\<lambda>c. hc_stream_epoch c = ''stream'') live) = [''one'', ''two''])"
proof -
  obtain p where p: "rt_store (hd_runtime example_live_host) 0 = Some p" "hp_process_id (pr_info p) = ''p''"
    "pr_output p = push_all ''p'' [(1, ''one'')] (output_new ''stream'')" using example_live_process(2) by blast
  have reg: "map_of (rt_processes (hd_runtime example_live_host)) ''p'' = Some 0"
    by (simp add: example_live_process)
  let ?rep = "output_replay ''p'' (Some \<lparr>oc_stream_epoch = ''stream'', oc_revision = 0\<rparr>) (pr_output p)"
  obtain c1 procs where run: "handle_request example_build example_env sync_request (connection_new, example_live_host)
      = (Inr (), c1, example_live_host)" and sy: "cn_synced c1"
    and out: "cn_outgoing c1 = cn_outgoing connection_new @
      [MsgResponse ''req'' (Some (Synced (rt_host_epoch (hd_runtime example_live_host)) example_build procs [?rep])) None]"
    using p reg
    by (auto simp: handle_request_def sync_request_def HOST_PROTOCOL_VERSION_def sync_runtime_def runtime_list_def
        example_live_process map_filter_def runtime_read_def runtime_get_def send_response_def Let_def)
  have q: "rq_command sync_request = Sync [(''p'', \<lparr>oc_stream_epoch = ''stream'', oc_revision = 0\<rparr>)]"
    by (simp add: sync_request_def)
  have cur: "map_of [(''p'', \<lparr>oc_stream_epoch = ''stream'', oc_revision = 0\<rparr>)] ''p''
      = Some \<lparr>oc_stream_epoch = ''stream'', oc_revision = 0\<rparr>" by simp
  have le: "0 \<le> length [(1 :: nanos, ''one'')]" and le0: "(0 :: nat) \<le> length [(1 :: nanos, ''one'')]" by simp_all
  have sm: "length [(1 :: nanos, ''one'')] + length [(2 :: nanos, ''two'')] + 1 < U64_MAX" by (simp add: U64_MAX_def)
  obtain a b d where ab: "emit_all ''p'' [(1, ''one''), (2, ''two'')] (output_new ''stream'') = [a, b]"
      "emit_all ''p'' [(9, ''again'')] (output_new ''other'') = [d]"
    and abd: "hc_process_id a = ''p''" "hc_process_id b = ''p''" "hc_process_id d = ''p''"
      "hc_stream_epoch a = ''stream''" "hc_stream_epoch b = ''stream''" "hc_stream_epoch d = ''other''"
      "hc_revision a = 1" "hc_revision b = 2" "hc_data a = ''one''" "hc_data b = ''two''" "hc_data d = ''again''"
    by (rule respawn_chunks)
  have events: "respawn_events = [a, b, d]" unfolding respawn_events_def ab by simp
  have chunks: "chunks_of ''p'' [a, b, d] = [a, b, d]" "in_order [a, b, d]"
    by (simp_all add: abd in_order_Cons) (simp add: in_order_def)
  have ev: "filter (\<lambda>c. hc_stream_epoch c = ''stream'') (chunks_of ''p'' [a, b, d])
      = drop 0 (emit_all ''p'' ([(1, ''one'')] @ [(2, ''two'')]) (output_new ''stream''))" "in_order (chunks_of ''p'' [a, b, d])"
    unfolding chunks append.simps ab drop_0 using chunks(2) by (simp_all add: abd)
  have none: "output_of ''p'' (cn_outgoing connection_new) = []"
    by (simp add: connection_new_def output_of_def map_filter_def)
  have gap: "\<not> hr_gap ?rep" "hr_process_id ?rep = ''p''"
    unfolding p(3) by (rule first_piece_no_gap) (simp add: output_replay_def Let_def)
  have "output_of ''p'' (cn_outgoing (fold handle_output [a, b, d] c1)) = [b, d]
      \<and> map hc_data (hr_chunks ?rep @ filter (\<lambda>c. hc_stream_epoch c = ''stream'') [b, d]) = [''one'', ''two'']"
    using client_stream_complete [OF run q cur le reg p sm ev(1) le0 ev(2) none] gap
    unfolding chunks Let_def out by (auto simp: abd)
  then show ?thesis using sy gap unfolding events Let_def by (intro exI [of _ c1] exI [of _ ?rep]) (auto simp: abd)
qed

end
