(* ===== verification/Message_Store.thy ===== *)
theory Message_Store
  imports Message_Types
begin

text \<open>
  The durable message store of the Proxy (\<open>message_store.rs\<close>): send, get, list, receive,
  acknowledge, import of legacy mail and the event outbox.  The PostgreSQL tables are lists of rows
  in insertion order, with the constraints of \<open>SCHEMA\<close> checked by every insert.  A public operation
  is one transaction under an advisory lock or row locks; rows are only added, and only
  \<open>acknowledged_at\<close> and \<open>dispatched_at\<close> change, so it is one function from the tables to a result
  and the new tables, and an error leaves them unchanged.  Losing the database is not modelled.

  What the code takes from other crates is the record \<open>message_env\<close>: RFC 3339 timestamps, the
  collation of the database, SHA-256, the JSON encodings and base64.  The clock and UUIDs an
  operation reads are the record \<open>call_env\<close>.
\<close>

section \<open>Rows\<close>

record message_row =
  mr_message_id :: string
  mr_workspace_id :: string
  mr_sender_kind :: string
  mr_sender_id :: string
  mr_sender_name :: string
  mr_sender_role :: "string option"
  mr_body :: string
  mr_created_at :: string
  mr_expires_at :: "string option"
  mr_correlation_id :: "string option"
  mr_trace_id :: "string option"
  mr_external_source :: "json option"
  mr_sender_path :: "string option"
  mr_sender_endpoint :: "string option"

record delivery_row =
  dr_delivery_id :: string
  dr_message_id :: string
  dr_workspace_id :: string
  dr_recipient_kind :: string
  dr_recipient_id :: string
  dr_recipient_name :: string
  dr_recipient_role :: "string option"
  dr_position :: nat
  dr_created_at :: string
  dr_acknowledged_at :: "string option"
  dr_expires_at :: "string option"
  dr_recipient_path :: "string option"
  dr_recipient_endpoint :: string

record context_row =
  xr_message_id :: string
  xr_workspace_id :: string
  xr_context_message_id :: string
  xr_position :: nat

record idempotency_row =
  ir_workspace_id :: string
  ir_sender_kind :: string
  ir_sender_id :: string
  ir_idempotency_key :: string
  ir_request_hash :: string
  ir_message_id :: string
  ir_created_at :: string

record ack_operation_row =
  ao_workspace_id :: string
  ao_principal_kind :: string
  ao_principal_id :: string
  ao_operation_id :: string
  ao_request_hash :: string
  ao_response :: json
  ao_created_at :: string

record import_operation_row =
  io_workspace_id :: string
  io_operation_id :: string
  io_request_hash :: string
  io_response :: json
  io_created_at :: string
  io_actor_kind :: string
  io_actor_id :: string

record outbox_row =
  ox_event_id :: string
  ox_workspace_id :: string
  ox_action :: string
  ox_envelope :: json
  ox_created_at :: string
  ox_dispatched_at :: "string option"
  ox_attempts :: nat

text \<open>\<open>mt_changed\<close> counts the calls of \<open>changed.notify_waiters()\<close>.\<close>

record message_tables =
  mt_messages :: "message_row list"
  mt_deliveries :: "delivery_row list"
  mt_contexts :: "context_row list"
  mt_idempotency :: "idempotency_row list"
  mt_ack_operations :: "ack_operation_row list"
  mt_import_operations :: "import_operation_row list"
  mt_outbox :: "outbox_row list"
  mt_changed :: nat

definition message_open :: message_tables where
  "message_open = \<lparr>mt_messages = [], mt_deliveries = [], mt_contexts = [], mt_idempotency = [],
     mt_ack_operations = [], mt_import_operations = [], mt_outbox = [], mt_changed = 0\<rparr>"

section \<open>Errors and the environment\<close>

text \<open>\<open>Panicked\<close> is a failing \<open>expect\<close>.\<close>

datatype message_store_error = Contract string string | Database string | Corrupt | Panicked string

fun message_error_code :: "message_store_error \<Rightarrow> string" where
  "message_error_code (Contract c m) = c"
| "message_error_code (Database m) = ''message_store_unavailable''"
| "message_error_code Corrupt = ''message_store_corrupt''"
| "message_error_code (Panicked m) = []"

type_synonym 'a msg_res = "message_store_error + 'a"

record send_fingerprint =
  sf_sender_endpoint :: "string option"
  sf_recipients :: "message_principal list"
  sf_context_ids :: "string list"
  sf_body :: string
  sf_expires_at :: "datetime option"
  sf_correlation_id :: "string option"
  sf_trace_id :: "string option"
  sf_external_source :: "message_external_source option"

record message_env =
  me_to_rfc3339 :: "datetime \<Rightarrow> string"
  me_parse_rfc3339 :: "string \<Rightarrow> datetime option"
  me_collation_key :: "string \<Rightarrow> string"
  me_sha256_hex :: "string \<Rightarrow> string"
  me_send_bytes :: "send_fingerprint \<Rightarrow> string option"
  me_ids_bytes :: "string list \<Rightarrow> string option"
  me_scoped_ids_bytes :: "string \<times> string list \<Rightarrow> string option"
  me_legacy_bytes :: "legacy_mail_message list \<Rightarrow> string option"
  me_source_codec :: "message_external_source json_codec"
  me_envelope_codec :: "domain_event_envelope json_codec"
  me_ack_codec :: "acknowledge_messages_response json_codec"
  me_import_codec :: "import_messages_response json_codec"
  me_b64_encode :: "string \<Rightarrow> string"
  me_b64_decode :: "string \<Rightarrow> string option"

record call_env =
  ce_check_now :: datetime
  ce_now :: datetime
  ce_count_now :: datetime
  ce_uuid :: "nat \<Rightarrow> string"

definition text_less :: "message_env \<Rightarrow> string \<Rightarrow> string \<Rightarrow> bool" where
  "text_less x a b \<longleftrightarrow> me_collation_key x a < me_collation_key x b"

section \<open>Validation\<close>

definition MAX_IMPORT_MESSAGES :: nat where "MAX_IMPORT_MESSAGES = 1000"
definition MAX_ACK_DELIVERIES :: nat where "MAX_ACK_DELIVERIES = 100"
definition OUTBOX_BATCH_SIZE :: nat where "OUTBOX_BATCH_SIZE = 100"
definition MAX_MESSAGE_ID_BYTES :: nat where "MAX_MESSAGE_ID_BYTES = 256"
definition MAX_MESSAGE_SNAPSHOT_NAME_BYTES :: nat where "MAX_MESSAGE_SNAPSHOT_NAME_BYTES = 256"
definition MAX_MESSAGE_SNAPSHOT_ROLE_BYTES :: nat where "MAX_MESSAGE_SNAPSHOT_ROLE_BYTES = 128"
definition MAX_MESSAGE_LINEAGE_ID_BYTES :: nat where "MAX_MESSAGE_LINEAGE_ID_BYTES = 256"

lemmas message_limits =
  MAX_IMPORT_MESSAGES_def MAX_ACK_DELIVERIES_def OUTBOX_BATCH_SIZE_def MAX_MESSAGE_ID_BYTES_def
  MAX_MESSAGE_SNAPSHOT_NAME_BYTES_def MAX_MESSAGE_SNAPSHOT_ROLE_BYTES_def MAX_MESSAGE_LINEAGE_ID_BYTES_def
  MAX_MESSAGE_BODY_BYTES_def MAX_MESSAGE_RECIPIENTS_def MAX_MESSAGE_CONTEXTS_def MAX_MESSAGE_PAGE_SIZE_def
  MAX_MESSAGE_WAIT_MILLISECONDS_def MAX_MESSAGE_IDEMPOTENCY_KEY_BYTES_def
  MAX_MESSAGE_EXTERNAL_METADATA_ENTRIES_def

definition validate_workspace_and_principal :: "string \<Rightarrow> message_principal \<Rightarrow> unit msg_res" where
  "validate_workspace_and_principal w p =
     (if w = [] \<or> MAX_MESSAGE_ID_BYTES < length w \<or> mp_id p = [] \<or> has_control w
         \<or> has_control (mp_id p) then
        Inl (Contract ''message_principal_invalid''
          ''workspace and principal IDs must be non-empty and bounded'')
      else if MAX_MESSAGE_ID_BYTES < length (mp_id p)
         \<or> is_some_and (mp_app_endpoint p) (\<lambda>key.
             mp_kind p \<noteq> MessageAgent \<or> \<not> valid_message_app_endpoint key)
         \<or> mp_name p = [] \<or> MAX_MESSAGE_SNAPSHOT_NAME_BYTES < length (mp_name p)
         \<or> is_some_and (mp_path p) (\<lambda>path.
             4096 < length path \<or> \<not> starts_with path ''/'' \<or> has_control path)
         \<or> has_control (mp_name p)
         \<or> is_some_and (mp_role p) (\<lambda>role.
             role = [] \<or> MAX_MESSAGE_SNAPSHOT_ROLE_BYTES < length role \<or> has_control role) then
        Inl (Contract ''message_principal_invalid'' ''principal identity snapshot is invalid'')
      else Inr ())"

definition validate_external_source :: "message_external_source \<Rightarrow> unit msg_res" where
  "validate_external_source source =
     (if list_ex (\<lambda>v. v = [] \<or> 512 < length v)
           [es_channel source, es_conversation_id source, es_message_id source]
         \<or> is_some_and (es_account_id source) (\<lambda>v. 512 < length v)
         \<or> MAX_MESSAGE_EXTERNAL_METADATA_ENTRIES < length (es_metadata source)
         \<or> list_ex (\<lambda>(key, v). key = [] \<or> 128 < length key \<or> 1024 < length v) (es_metadata source) then
        Inl (Contract ''message_external_source_invalid''
          ''external source annotation is empty or exceeds its bounds'')
      else Inr ())"

definition recipient_key :: "message_principal \<Rightarrow> message_principal_kind \<times> string \<times> string option" where
  "recipient_key p = (mp_kind p, mp_id p, mp_app_endpoint p)"

definition validate_lineage :: "string option \<times> string \<Rightarrow> unit msg_res" where
  "validate_lineage vl = (case vl of (v, label) \<Rightarrow>
     (if is_some_and v (\<lambda>v. v = [] \<or> MAX_MESSAGE_LINEAGE_ID_BYTES < length v \<or> has_control v) then
        Inl (Contract ''message_lineage_invalid''
          (''message '' @ label @ '' ID is empty or exceeds its bounds''))
      else Inr ()))"

text \<open>A \<open>HashSet\<close> of the keys has as many elements as the list exactly when the keys are distinct.\<close>

definition validate_send ::
  "datetime \<Rightarrow> message_principal list \<Rightarrow> send_message_request \<Rightarrow> unit msg_res" where
  "validate_send now recipients request =
     (if trim (sm_body request) = [] \<or> MAX_MESSAGE_BODY_BYTES < length (sm_body request) then
        Inl (Contract ''message_body_invalid''
          (''message body must contain 1-'' @ dec_string MAX_MESSAGE_BODY_BYTES @ '' bytes''))
      else if recipients = [] \<or> MAX_MESSAGE_RECIPIENTS < length recipients then
        Inl (Contract ''message_recipients_invalid''
          (''message must have 1-'' @ dec_string MAX_MESSAGE_RECIPIENTS @ '' recipients''))
      else if length recipients \<noteq> length (sm_recipients request)
         \<or> list_ex (\<lambda>target. trim target = [] \<or> MAX_MESSAGE_ID_BYTES < length target)
             (sm_recipients request) then
        Inl (Contract ''message_recipients_invalid''
          ''resolved recipients do not match the bounded request targets'')
      else if MAX_MESSAGE_CONTEXTS < length (sm_context_ids request) then
        Inl (Contract ''message_contexts_invalid''
          (''message may reference at most '' @ dec_string MAX_MESSAGE_CONTEXTS @ '' contexts''))
      else if \<not> distinct (map recipient_key recipients) then
        Inl (Contract ''message_recipients_duplicate'' ''message recipients must be unique'')
      else if \<not> distinct (sm_context_ids request)
         \<or> list_ex (\<lambda>i. i = [] \<or> 256 < length i) (sm_context_ids request) then
        Inl (Contract ''message_contexts_invalid''
          ''message context IDs must be unique, non-empty, and bounded'')
      else if is_some_and (sm_idempotency_key request) (\<lambda>key.
           key = [] \<or> MAX_MESSAGE_IDEMPOTENCY_KEY_BYTES < length key) then
        Inl (Contract ''message_idempotency_key_invalid''
          (''message idempotency key must contain 1-'' @ dec_string MAX_MESSAGE_IDEMPOTENCY_KEY_BYTES @ '' bytes''))
      else
        and_then (try_all validate_lineage
          [(sm_correlation_id request, ''correlation''), (sm_trace_id request, ''trace'')]) (\<lambda>_.
        if is_some_and (sm_expires_at request) (\<lambda>expires. expires \<le> now) then
          Inl (Contract ''message_expiry_invalid'' ''message expiry must be in the future'')
        else
          and_then (case sm_external_source request of
              None \<Rightarrow> Inr () | Some source \<Rightarrow> validate_external_source source) (\<lambda>_.
          try_all (validate_workspace_and_principal ''resolved'') recipients)))"

definition validate_page_size :: "nat \<Rightarrow> unit msg_res" where
  "validate_page_size limit =
     (if limit = 0 \<or> MAX_MESSAGE_PAGE_SIZE < limit then
        Inl (Contract ''message_limit_invalid''
          (''message limit must be between 1 and '' @ dec_string MAX_MESSAGE_PAGE_SIZE))
      else Inr ())"

definition validate_endpoint_scope :: "string option \<Rightarrow> unit msg_res" where
  "validate_endpoint_scope endpoint = (case endpoint of
      Some e \<Rightarrow> if \<not> valid_message_app_endpoint e then
                  Inl (Contract ''message_endpoint_invalid'' ''invalid App endpoint'')
                else Inr ()
    | None \<Rightarrow> Inr ())"

definition validate_ack :: "acknowledge_messages_request \<Rightarrow> unit msg_res" where
  "validate_ack request =
     (if aq_delivery_ids request = [] \<or> MAX_ACK_DELIVERIES < length (aq_delivery_ids request) then
        Inl (Contract ''message_ack_invalid''
          (''acknowledgement must contain 1-'' @ dec_string MAX_ACK_DELIVERIES @ '' deliveries''))
      else if aq_operation_id request = []
         \<or> MAX_MESSAGE_IDEMPOTENCY_KEY_BYTES < length (aq_operation_id request) then
        Inl (Contract ''message_ack_operation_invalid''
          ''acknowledgement operation ID is empty or too long'')
      else if \<not> distinct (aq_delivery_ids request)
         \<or> list_ex (\<lambda>i. i = [] \<or> 256 < length i) (aq_delivery_ids request) then
        Inl (Contract ''message_ack_invalid'' ''delivery IDs must be unique, non-empty, and bounded'')
      else Inr ())"

definition validate_import :: "string \<Rightarrow> import_messages_request \<Rightarrow> unit msg_res" where
  "validate_import w request =
     (if im_format request \<noteq> ''legacy-mail-v1'' then
        Inl (Contract ''message_import_format_unsupported'' ''only legacy-mail-v1 imports are supported'')
      else if im_operation_id request = []
         \<or> MAX_MESSAGE_IDEMPOTENCY_KEY_BYTES < length (im_operation_id request)
         \<or> im_messages request = [] \<or> MAX_IMPORT_MESSAGES < length (im_messages request) then
        Inl (Contract ''message_import_invalid''
          (''import must contain 1-'' @ dec_string MAX_IMPORT_MESSAGES
           @ '' messages and a bounded operation ID''))
      else if list_ex (\<lambda>m. lm_workspace_id m \<noteq> w) (im_messages request) then
        Inl (Contract ''message_import_workspace_mismatch''
          ''every imported message must belong to the target workspace'')
      else Inr ())"

definition validate_legacy_message :: "string \<Rightarrow> legacy_mail_message \<Rightarrow> unit msg_res" where
  "validate_legacy_message w m =
     and_then (validate_workspace_and_principal w (lm_sender m)) (\<lambda>_.
     if mp_app_endpoint (lm_sender m) \<noteq> None
        \<or> list_ex (\<lambda>r. mp_app_endpoint (lr_principal r) \<noteq> None) (lm_recipients m) then
       Inl (Contract ''message_import_record_invalid'' ''legacy imports cannot assert App subtree identities'')
     else if lm_message_id m = [] \<or> 256 < length (lm_message_id m) \<or> trim (lm_body m) = []
        \<or> MAX_MESSAGE_BODY_BYTES < length (lm_body m) \<or> lm_recipients m = []
        \<or> MAX_MESSAGE_RECIPIENTS < length (lm_recipients m)
        \<or> MAX_MESSAGE_CONTEXTS < length (lm_context_ids m) then
       Inl (Contract ''message_import_record_invalid''
         ''legacy message record is empty or exceeds Core limits'')
     else if \<not> distinct (map (\<lambda>r. (mp_kind (lr_principal r), mp_id (lr_principal r))) (lm_recipients m))
        \<or> \<not> distinct (map lr_position (lm_recipients m)) \<or> \<not> distinct (lm_context_ids m) then
       Inl (Contract ''message_import_record_invalid''
         ''legacy recipients, positions, and contexts must be unique'')
     else try_all (\<lambda>r. validate_workspace_and_principal w (lr_principal r)) (lm_recipients m))"

section \<open>Inserts with the constraints of the schema\<close>

definition kind_column_ok :: "string \<Rightarrow> bool" where
  "kind_column_ok k = (k \<in> {''agent'', ''human'', ''machine'', ''service''})"

definition message_exists :: "message_tables \<Rightarrow> string \<Rightarrow> string \<Rightarrow> bool" where
  "message_exists t w i = list_ex (\<lambda>r. mr_workspace_id r = w \<and> mr_message_id r = i) (mt_messages t)"

definition insert_message :: "message_row \<Rightarrow> message_tables \<Rightarrow> message_tables msg_res" where
  "insert_message r t =
     (if message_exists t (mr_workspace_id r) (mr_message_id r) then Inl (Database ''unique_violation'')
      else if \<not> kind_column_ok (mr_sender_kind r) then Inl (Database ''check_violation'')
      else Inr (t\<lparr>mt_messages := mt_messages t @ [r]\<rparr>))"

definition delivery_address :: "delivery_row \<Rightarrow> string \<times> string \<times> string \<times> string \<times> string" where
  "delivery_address r = (dr_workspace_id r, dr_message_id r, dr_recipient_kind r, dr_recipient_id r,
     dr_recipient_endpoint r)"

definition delivery_slot :: "delivery_row \<Rightarrow> string \<times> string \<times> nat" where
  "delivery_slot r = (dr_workspace_id r, dr_message_id r, dr_position r)"

definition insert_delivery :: "delivery_row \<Rightarrow> message_tables \<Rightarrow> message_tables msg_res" where
  "insert_delivery r t =
     (if list_ex (\<lambda>d. dr_delivery_id d = dr_delivery_id r \<or> delivery_slot d = delivery_slot r
           \<or> delivery_address d = delivery_address r) (mt_deliveries t) then
        Inl (Database ''unique_violation'')
      else if \<not> kind_column_ok (dr_recipient_kind r) then Inl (Database ''check_violation'')
      else if \<not> message_exists t (dr_workspace_id r) (dr_message_id r) then
        Inl (Database ''foreign_key_violation'')
      else Inr (t\<lparr>mt_deliveries := mt_deliveries t @ [r]\<rparr>))"

definition insert_context :: "context_row \<Rightarrow> message_tables \<Rightarrow> message_tables msg_res" where
  "insert_context r t =
     (if list_ex (\<lambda>c. xr_workspace_id c = xr_workspace_id r \<and> xr_message_id c = xr_message_id r
           \<and> (xr_context_message_id c = xr_context_message_id r \<or> xr_position c = xr_position r))
           (mt_contexts t) then
        Inl (Database ''unique_violation'')
      else if \<not> message_exists t (xr_workspace_id r) (xr_message_id r)
         \<or> \<not> message_exists t (xr_workspace_id r) (xr_context_message_id r) then
        Inl (Database ''foreign_key_violation'')
      else Inr (t\<lparr>mt_contexts := mt_contexts t @ [r]\<rparr>))"

definition idempotency_key :: "idempotency_row \<Rightarrow> string \<times> string \<times> string \<times> string" where
  "idempotency_key r = (ir_workspace_id r, ir_sender_kind r, ir_sender_id r, ir_idempotency_key r)"

definition insert_idempotency :: "idempotency_row \<Rightarrow> message_tables \<Rightarrow> message_tables msg_res" where
  "insert_idempotency r t =
     (if list_ex (\<lambda>q. idempotency_key q = idempotency_key r) (mt_idempotency t) then
        Inl (Database ''unique_violation'')
      else if \<not> message_exists t (ir_workspace_id r) (ir_message_id r) then
        Inl (Database ''foreign_key_violation'')
      else Inr (t\<lparr>mt_idempotency := mt_idempotency t @ [r]\<rparr>))"

definition ack_key :: "ack_operation_row \<Rightarrow> string \<times> string \<times> string \<times> string" where
  "ack_key r = (ao_workspace_id r, ao_principal_kind r, ao_principal_id r, ao_operation_id r)"

definition insert_ack_operation :: "ack_operation_row \<Rightarrow> message_tables \<Rightarrow> message_tables msg_res" where
  "insert_ack_operation r t =
     (if list_ex (\<lambda>q. ack_key q = ack_key r) (mt_ack_operations t) then
        Inl (Database ''unique_violation'')
      else Inr (t\<lparr>mt_ack_operations := mt_ack_operations t @ [r]\<rparr>))"

definition import_key :: "import_operation_row \<Rightarrow> string \<times> string" where
  "import_key r = (io_workspace_id r, io_operation_id r)"

definition insert_import_operation :: "import_operation_row \<Rightarrow> message_tables \<Rightarrow> message_tables msg_res" where
  "insert_import_operation r t =
     (if list_ex (\<lambda>q. import_key q = import_key r) (mt_import_operations t) then
        Inl (Database ''unique_violation'')
      else Inr (t\<lparr>mt_import_operations := mt_import_operations t @ [r]\<rparr>))"

definition outbox_row_of :: "message_env \<Rightarrow> domain_event_envelope \<Rightarrow> json \<Rightarrow> outbox_row" where
  "outbox_row_of x envelope v =
     \<lparr>ox_event_id = ev_event_id envelope, ox_workspace_id = ev_workspace_id envelope,
      ox_action = ev_action envelope, ox_envelope = v,
      ox_created_at = me_to_rfc3339 x (ev_occurred_at envelope), ox_dispatched_at = None, ox_attempts = 0\<rparr>"

definition insert_outbox ::
  "message_env \<Rightarrow> domain_event_envelope \<Rightarrow> message_tables \<Rightarrow> message_tables msg_res" where
  "insert_outbox x envelope t =
     and_then (ok_or_else (jc_to_value (me_envelope_codec x) envelope) Corrupt) (\<lambda>v.
     if list_ex (\<lambda>q. ox_event_id q = ev_event_id envelope) (mt_outbox t) then
       Inl (Database ''unique_violation'')
     else Inr (t\<lparr>mt_outbox := mt_outbox t @ [outbox_row_of x envelope v]\<rparr>))"

section \<open>Reading messages\<close>

definition parse_kind :: "string \<Rightarrow> message_principal_kind msg_res" where
  "parse_kind k =
     (if k = ''agent'' then Inr MessageAgent else if k = ''human'' then Inr MessageHuman
      else if k = ''machine'' then Inr MessageMachine else if k = ''service'' then Inr MessageService
      else Inl Corrupt)"

definition principal_from_columns ::
  "string \<Rightarrow> string \<Rightarrow> string \<Rightarrow> string option \<Rightarrow> string option \<Rightarrow> string option
   \<Rightarrow> message_principal msg_res" where
  "principal_from_columns k i name role path app_endpoint =
     and_then (parse_kind k) (\<lambda>kind.
     Inr \<lparr>mp_app_endpoint = (case app_endpoint of None \<Rightarrow> None
            | Some key \<Rightarrow> if key = [] then None else Some key),
          mp_path = path, mp_kind = kind, mp_id = i, mp_name = name, mp_role = role\<rparr>)"

definition parse_timestamp :: "message_env \<Rightarrow> string \<Rightarrow> datetime msg_res" where
  "parse_timestamp x v = ok_or_else (me_parse_rfc3339 x v) Corrupt"

definition parse_optional_timestamp :: "message_env \<Rightarrow> string option \<Rightarrow> datetime option msg_res" where
  "parse_optional_timestamp x v = (case v of
      None \<Rightarrow> Inr None | Some s \<Rightarrow> and_then (parse_timestamp x s) (\<lambda>d. Inr (Some d)))"

definition recipient_from_row :: "delivery_row \<Rightarrow> message_principal msg_res" where
  "recipient_from_row r = principal_from_columns (dr_recipient_kind r) (dr_recipient_id r)
     (dr_recipient_name r) (dr_recipient_role r) (dr_recipient_path r) (Some (dr_recipient_endpoint r))"

definition message_deliveries :: "message_tables \<Rightarrow> string \<Rightarrow> string \<Rightarrow> delivery_row list" where
  "message_deliveries t w i =
     sort_key dr_position (filter (\<lambda>d. dr_workspace_id d = w \<and> dr_message_id d = i) (mt_deliveries t))"

definition message_contexts :: "message_tables \<Rightarrow> string \<Rightarrow> string \<Rightarrow> context_row list" where
  "message_contexts t w i =
     sort_key xr_position (filter (\<lambda>c. xr_workspace_id c = w \<and> xr_message_id c = i) (mt_contexts t))"

definition find_message :: "message_tables \<Rightarrow> string \<Rightarrow> string \<Rightarrow> message_row option" where
  "find_message t w i = find (\<lambda>r. mr_workspace_id r = w \<and> mr_message_id r = i) (mt_messages t)"

definition load_source :: "message_env \<Rightarrow> json option \<Rightarrow> message_external_source option msg_res" where
  "load_source x v = (case v of
      None \<Rightarrow> Inr None
    | Some j \<Rightarrow> and_then (ok_or_else (jc_from_value (me_source_codec x) j) Corrupt) (\<lambda>s. Inr (Some s)))"

definition load_message :: "message_env \<Rightarrow> message_tables \<Rightarrow> string \<Rightarrow> string \<Rightarrow> core_message msg_res" where
  "load_message x t w i =
     and_then (ok_or_else (find_message t w i)
       (Contract ''message_not_found'' ''message does not exist'')) (\<lambda>row.
     and_then (load_source x (mr_external_source row)) (\<lambda>external_source.
     and_then (principal_from_columns (mr_sender_kind row) (mr_sender_id row) (mr_sender_name row)
       (mr_sender_role row) (mr_sender_path row) (mr_sender_endpoint row)) (\<lambda>sender.
     and_then (try_map recipient_from_row (message_deliveries t w i)) (\<lambda>recipients.
     and_then (parse_timestamp x (mr_created_at row)) (\<lambda>created_at.
     and_then (parse_optional_timestamp x (mr_expires_at row)) (\<lambda>expires_at.
     Inr \<lparr>cm_schema_version = MESSAGE_SCHEMA_VERSION, cm_message_id = mr_message_id row,
       cm_workspace_id = mr_workspace_id row, cm_sender = sender, cm_recipients = recipients,
       cm_context_ids = map xr_context_message_id (message_contexts t w i), cm_body = mr_body row,
       cm_created_at = created_at, cm_expires_at = expires_at,
       cm_correlation_id = mr_correlation_id row, cm_trace_id = mr_trace_id row,
       cm_external_source = external_source\<rparr>))))))"

definition delivery_from_row ::
  "message_env \<Rightarrow> delivery_row \<Rightarrow> core_message \<Rightarrow> message_delivery msg_res" where
  "delivery_from_row x r message =
     and_then (recipient_from_row r) (\<lambda>recipient.
     and_then (parse_timestamp x (dr_created_at r)) (\<lambda>created_at.
     and_then (parse_optional_timestamp x (dr_acknowledged_at r)) (\<lambda>acknowledged_at.
     and_then (parse_optional_timestamp x (dr_expires_at r)) (\<lambda>expires_at.
     Inr \<lparr>md_delivery_id = dr_delivery_id r, md_message = message, md_recipient = recipient,
       md_created_at = created_at, md_acknowledged_at = acknowledged_at, md_expires_at = expires_at\<rparr>))))"

definition delivery_ids :: "message_tables \<Rightarrow> string \<Rightarrow> string \<Rightarrow> string list" where
  "delivery_ids t w i = map dr_delivery_id (message_deliveries t w i)"

definition message_visible :: "message_tables \<Rightarrow> string \<Rightarrow> message_principal \<Rightarrow> string \<Rightarrow> bool" where
  "message_visible t w p i =
     list_ex (\<lambda>m. mr_workspace_id m = w \<and> mr_message_id m = i
       \<and> (mr_sender_kind m = message_kind_as_str (mp_kind p) \<and> mr_sender_id m = mp_id p
          \<or> list_ex (\<lambda>d. dr_workspace_id d = w \<and> dr_message_id d = i
              \<and> dr_recipient_kind d = message_kind_as_str (mp_kind p) \<and> dr_recipient_id d = mp_id p)
              (mt_deliveries t))) (mt_messages t)"

definition ensure_visible :: "message_tables \<Rightarrow> string \<Rightarrow> message_principal \<Rightarrow> string \<Rightarrow> unit msg_res" where
  "ensure_visible t w p i =
     (if message_visible t w p i then Inr ()
      else Inl (Contract ''message_not_found'' ''message does not exist or is not visible''))"

definition message_get ::
  "message_env \<Rightarrow> message_tables \<Rightarrow> string \<Rightarrow> message_principal \<Rightarrow> string \<Rightarrow> core_message msg_res" where
  "message_get x t w p i = and_then (ensure_visible t w p i) (\<lambda>_. load_message x t w i)"

section \<open>Send\<close>

definition request_hash :: "message_env \<Rightarrow> string option \<Rightarrow> string msg_res" where
  "request_hash x encoded = and_then (ok_or_else encoded Corrupt) (\<lambda>b. Inr (me_sha256_hex x b))"

definition subtree_addressed :: "message_principal \<Rightarrow> message_principal list \<Rightarrow> bool" where
  "subtree_addressed sender recipients =
     (mp_app_endpoint sender \<noteq> None \<or> list_ex (\<lambda>r. mp_app_endpoint r \<noteq> None) recipients)"

definition fingerprint_recipient :: "bool \<Rightarrow> message_principal \<Rightarrow> message_principal" where
  "fingerprint_recipient subtree r =
     (if subtree then r\<lparr>mp_path := None, mp_name := [], mp_role := None\<rparr> else r\<lparr>mp_path := None\<rparr>)"

definition send_fingerprint_of ::
  "message_principal \<Rightarrow> message_principal list \<Rightarrow> send_message_request \<Rightarrow> send_fingerprint" where
  "send_fingerprint_of sender recipients request =
     \<lparr>sf_sender_endpoint = mp_app_endpoint sender,
      sf_recipients = map (fingerprint_recipient (subtree_addressed sender recipients)) recipients,
      sf_context_ids = sm_context_ids request, sf_body = sm_body request,
      sf_expires_at = sm_expires_at request, sf_correlation_id = sm_correlation_id request,
      sf_trace_id = sm_trace_id request, sf_external_source = sm_external_source request\<rparr>"

definition find_idempotency ::
  "message_tables \<Rightarrow> string \<Rightarrow> message_principal \<Rightarrow> string \<Rightarrow> idempotency_row option" where
  "find_idempotency t w sender key =
     find (\<lambda>r. idempotency_key r = (w, message_kind_as_str (mp_kind sender), mp_id sender, key))
       (mt_idempotency t)"

definition send_replay ::
  "message_env \<Rightarrow> string \<Rightarrow> string \<Rightarrow> idempotency_row \<Rightarrow> message_tables
   \<Rightarrow> (send_message_response \<times> message_tables) msg_res" where
  "send_replay x w hash row t =
     (if ir_request_hash row \<noteq> hash then
        Inl (Contract ''message_idempotency_conflict''
          ''idempotency key was already used for a different message'')
      else and_then (load_message x t w (ir_message_id row)) (\<lambda>message.
        Inr (\<lparr>sr_message = message, sr_delivery_ids = delivery_ids t w (ir_message_id row),
              sr_idempotent_replay = True\<rparr>, t)))"

definition check_context ::
  "message_tables \<Rightarrow> string \<Rightarrow> message_principal \<Rightarrow> string \<Rightarrow> unit msg_res" where
  "check_context t w sender context_id =
     (if message_visible t w sender context_id then Inr ()
      else Inl (Contract ''message_context_not_found'' ''a context message does not exist or is not visible''))"

definition send_row ::
  "message_env \<Rightarrow> datetime \<Rightarrow> string \<Rightarrow> string \<Rightarrow> message_principal \<Rightarrow> send_message_request
   \<Rightarrow> json option \<Rightarrow> message_row" where
  "send_row x now w i sender request source =
     \<lparr>mr_message_id = i, mr_workspace_id = w, mr_sender_kind = message_kind_as_str (mp_kind sender),
      mr_sender_id = mp_id sender, mr_sender_name = mp_name sender, mr_sender_role = mp_role sender,
      mr_body = sm_body request, mr_created_at = me_to_rfc3339 x now,
      mr_expires_at = map_option (me_to_rfc3339 x) (sm_expires_at request),
      mr_correlation_id = sm_correlation_id request, mr_trace_id = sm_trace_id request,
      mr_external_source = source, mr_sender_path = mp_path sender,
      mr_sender_endpoint = mp_app_endpoint sender\<rparr>"

definition send_delivery_row ::
  "message_env \<Rightarrow> datetime \<Rightarrow> string \<Rightarrow> string \<Rightarrow> send_message_request \<Rightarrow> string \<Rightarrow> nat
   \<Rightarrow> message_principal \<Rightarrow> delivery_row" where
  "send_delivery_row x now w i request delivery_id position recipient =
     \<lparr>dr_delivery_id = delivery_id, dr_message_id = i, dr_workspace_id = w,
      dr_recipient_kind = message_kind_as_str (mp_kind recipient), dr_recipient_id = mp_id recipient,
      dr_recipient_name = mp_name recipient, dr_recipient_role = mp_role recipient,
      dr_position = position, dr_created_at = me_to_rfc3339 x now, dr_acknowledged_at = None,
      dr_expires_at = map_option (me_to_rfc3339 x) (sm_expires_at request),
      dr_recipient_path = mp_path recipient,
      dr_recipient_endpoint = (case mp_app_endpoint recipient of None \<Rightarrow> [] | Some e \<Rightarrow> e)\<rparr>"

text \<open>UUID 0 names the message, the next ones its deliveries, and the last one the event.\<close>

definition new_message_id :: "call_env \<Rightarrow> string" where
  "new_message_id e = ''msg_'' @ ce_uuid e 0"

definition new_delivery_id :: "call_env \<Rightarrow> nat \<Rightarrow> string" where
  "new_delivery_id e position = ''dlv_'' @ ce_uuid e (Suc position)"

definition insert_deliveries ::
  "message_env \<Rightarrow> call_env \<Rightarrow> string \<Rightarrow> string \<Rightarrow> send_message_request \<Rightarrow> message_principal list
   \<Rightarrow> message_tables \<Rightarrow> message_tables msg_res" where
  "insert_deliveries x e w i request recipients =
     try_fold (\<lambda>(position, recipient). insert_delivery
       (send_delivery_row x (ce_now e) w i request (new_delivery_id e position) position recipient))
       (List.enumerate 0 recipients)"

definition insert_contexts ::
  "string \<Rightarrow> string \<Rightarrow> string list \<Rightarrow> message_tables \<Rightarrow> message_tables msg_res" where
  "insert_contexts w i context_ids =
     try_fold (\<lambda>(position, context_id). insert_context
       \<lparr>xr_message_id = i, xr_workspace_id = w, xr_context_message_id = context_id,
        xr_position = position\<rparr>) (List.enumerate 0 context_ids)"

definition insert_send_key ::
  "message_env \<Rightarrow> call_env \<Rightarrow> string \<Rightarrow> message_principal \<Rightarrow> string option \<Rightarrow> string \<Rightarrow> string
   \<Rightarrow> message_tables \<Rightarrow> message_tables msg_res" where
  "insert_send_key x e w sender key hash i t = (case key of
      None \<Rightarrow> Inr t
    | Some k \<Rightarrow> insert_idempotency
        \<lparr>ir_workspace_id = w, ir_sender_kind = message_kind_as_str (mp_kind sender),
         ir_sender_id = mp_id sender, ir_idempotency_key = k, ir_request_hash = hash,
         ir_message_id = i, ir_created_at = me_to_rfc3339 x (ce_now e)\<rparr> t)"

definition created_event ::
  "call_env \<Rightarrow> string \<Rightarrow> message_principal \<Rightarrow> message_principal list \<Rightarrow> send_message_request
   \<Rightarrow> nat option \<Rightarrow> string \<Rightarrow> string list \<Rightarrow> domain_event_envelope" where
  "created_event e w sender recipients request policy_revision i ids =
     \<lparr>ev_event_id = ''evt_'' @ ce_uuid e (Suc (length recipients)),
      ev_schema_version = DOMAIN_EVENT_SCHEMA_VERSION, ev_organization_id = None,
      ev_workspace_id = w,
      ev_actor = \<lparr>ea_kind = message_kind_as_str (mp_kind sender), ea_id = Some (mp_id sender)\<rparr>,
      ev_action = ''message.created'', ev_resource = \<lparr>er_kind = ''message'', er_id = i\<rparr>,
      ev_occurred_at = ce_now e, ev_trace_id = sm_trace_id request, ev_causation_id = None,
      ev_correlation_id = sm_correlation_id request, ev_workspace_revision = policy_revision,
      ev_payload = JObject [(''message_id'', JString i), (''delivery_ids'', JArray (map JString ids)),
        (''context_ids'', JArray (map JString (sm_context_ids request))),
        (''recipient_ids'', JArray (map (JString \<circ> mp_id) recipients))]\<rparr>"

definition source_value ::
  "message_env \<Rightarrow> message_external_source option \<Rightarrow> json option msg_res" where
  "source_value x source = (case source of
      None \<Rightarrow> Inr None
    | Some s \<Rightarrow> and_then (ok_or_else (jc_to_value (me_source_codec x) s) Corrupt) (\<lambda>v. Inr (Some v)))"

definition notify_changed :: "message_tables \<Rightarrow> message_tables" where
  "notify_changed t = t\<lparr>mt_changed := Suc (mt_changed t)\<rparr>"

definition send_new ::
  "message_env \<Rightarrow> call_env \<Rightarrow> string \<Rightarrow> message_principal \<Rightarrow> message_principal list
   \<Rightarrow> send_message_request \<Rightarrow> nat option \<Rightarrow> string \<Rightarrow> message_tables
   \<Rightarrow> (send_message_response \<times> message_tables) msg_res" where
  "send_new x e w sender recipients request policy_revision hash t =
     and_then (try_all (check_context t w sender) (sm_context_ids request)) (\<lambda>_.
     let i = new_message_id e; ids = map (new_delivery_id e) [0 ..< length recipients] in
     and_then (source_value x (sm_external_source request)) (\<lambda>source.
     and_then (insert_message (send_row x (ce_now e) w i sender request source) t) (\<lambda>t1.
     and_then (insert_deliveries x e w i request recipients t1) (\<lambda>t2.
     and_then (insert_contexts w i (sm_context_ids request) t2) (\<lambda>t3.
     and_then (insert_send_key x e w sender (sm_idempotency_key request) hash i t3) (\<lambda>t4.
     and_then (insert_outbox x (created_event e w sender recipients request policy_revision i ids) t4) (\<lambda>t5.
     and_then (load_message x t5 w i) (\<lambda>message.
     Inr (\<lparr>sr_message = message, sr_delivery_ids = ids, sr_idempotent_replay = False\<rparr>,
          notify_changed t5)))))))))"

definition send_with_policy_revision ::
  "message_env \<Rightarrow> call_env \<Rightarrow> string \<Rightarrow> message_principal \<Rightarrow> message_principal list
   \<Rightarrow> send_message_request \<Rightarrow> nat option \<Rightarrow> message_tables
   \<Rightarrow> (send_message_response \<times> message_tables) msg_res" where
  "send_with_policy_revision x e w sender recipients request policy_revision t =
     and_then (validate_workspace_and_principal w sender) (\<lambda>_.
     and_then (validate_send (ce_check_now e) recipients request) (\<lambda>_.
     and_then (request_hash x (me_send_bytes x (send_fingerprint_of sender recipients request))) (\<lambda>hash.
     case Option.bind (sm_idempotency_key request) (find_idempotency t w sender) of
       Some row \<Rightarrow> send_replay x w hash row t
     | None \<Rightarrow> send_new x e w sender recipients request policy_revision hash t)))"

section \<open>Cursors, listing and receiving\<close>

definition encode_cursor :: "message_env \<Rightarrow> datetime \<Rightarrow> string \<Rightarrow> string" where
  "encode_cursor x created_at i = me_b64_encode x (me_to_rfc3339 x created_at @ [CHR 0x0A] @ i)"

definition cursor_invalid :: message_store_error where
  "cursor_invalid = Contract ''message_cursor_invalid'' ''message cursor is invalid''"

definition decode_cursor :: "message_env \<Rightarrow> string \<Rightarrow> (datetime \<times> string) msg_res" where
  "decode_cursor x v =
     and_then (ok_or_else (me_b64_decode x v) cursor_invalid) (\<lambda>decoded.
     if \<not> utf8_valid decoded then Inl cursor_invalid
     else and_then (ok_or_else (split_once (CHR 0x0A) decoded) cursor_invalid) (\<lambda>(timestamp, i).
     if i = [] \<or> 256 < length i then Inl cursor_invalid
     else and_then (ok_or_else (me_parse_rfc3339 x timestamp) cursor_invalid) (\<lambda>at. Inr (at, i))))"

definition decode_optional_cursor ::
  "message_env \<Rightarrow> string option \<Rightarrow> (datetime \<times> string) option msg_res" where
  "decode_optional_cursor x v = (case v of
      None \<Rightarrow> Inr None | Some c \<Rightarrow> and_then (decode_cursor x c) (\<lambda>d. Inr (Some d)))"

definition unexpired :: "message_env \<Rightarrow> datetime \<Rightarrow> delivery_row \<Rightarrow> bool" where
  "unexpired x now d = is_none_or (dr_expires_at d) (text_less x (me_to_rfc3339 x now))"

definition pending_for ::
  "message_env \<Rightarrow> datetime \<Rightarrow> string \<Rightarrow> message_principal \<Rightarrow> delivery_row \<Rightarrow> bool" where
  "pending_for x now w p d =
     (dr_workspace_id d = w \<and> dr_recipient_kind d = message_kind_as_str (mp_kind p)
      \<and> dr_recipient_id d = mp_id p \<and> dr_acknowledged_at d = None \<and> unexpired x now d
      \<and> is_none_or (mp_app_endpoint p) (\<lambda>e. dr_recipient_endpoint d = e))"

definition unacknowledged_count ::
  "message_env \<Rightarrow> datetime \<Rightarrow> message_tables \<Rightarrow> string \<Rightarrow> message_principal \<Rightarrow> nat" where
  "unacknowledged_count x now t w p = length (filter (pending_for x now w p) (mt_deliveries t))"

definition message_sort_key :: "message_env \<Rightarrow> message_row \<Rightarrow> string \<times> string" where
  "message_sort_key x m = (me_collation_key x (mr_created_at m), me_collation_key x (mr_message_id m))"

definition delivery_sort_key :: "message_env \<Rightarrow> delivery_row \<Rightarrow> string \<times> string" where
  "delivery_sort_key x d = (me_collation_key x (dr_created_at d), me_collation_key x (dr_delivery_id d))"

definition cursor_key :: "message_env \<Rightarrow> datetime \<times> string \<Rightarrow> string \<times> string" where
  "cursor_key x c = (case c of (at, i) \<Rightarrow>
     (me_collation_key x (me_to_rfc3339 x at), me_collation_key x i))"

definition in_conversation ::
  "message_tables \<Rightarrow> string \<Rightarrow> message_principal \<Rightarrow> (string \<times> string) option \<Rightarrow> message_row \<Rightarrow> bool" where
  "in_conversation t w p address m =
     (mr_workspace_id m = w
      \<and> (mr_sender_kind m = message_kind_as_str (mp_kind p) \<and> mr_sender_id m = mp_id p
         \<or> list_ex (\<lambda>d. dr_workspace_id d = mr_workspace_id m \<and> dr_message_id d = mr_message_id m
             \<and> dr_recipient_kind d = message_kind_as_str (mp_kind p) \<and> dr_recipient_id d = mp_id p)
             (mt_deliveries t))
      \<and> is_none_or address (\<lambda>(owner, endpoint).
          mr_sender_kind m = ''agent'' \<and> mr_sender_id m = owner \<and> mr_sender_endpoint m = Some endpoint
          \<or> list_ex (\<lambda>peer. dr_workspace_id peer = mr_workspace_id m
              \<and> dr_message_id peer = mr_message_id m \<and> dr_recipient_kind peer = ''agent''
              \<and> dr_recipient_id peer = owner \<and> dr_recipient_endpoint peer = endpoint)
              (mt_deliveries t)))"

definition list_rows ::
  "message_env \<Rightarrow> message_tables \<Rightarrow> string \<Rightarrow> message_principal \<Rightarrow> (datetime \<times> string) option \<Rightarrow> nat
   \<Rightarrow> (string \<times> string) option \<Rightarrow> message_row list" where
  "list_rows x t w p cursor limit address =
     take limit (rev (sort_key (message_sort_key x) (filter (\<lambda>m. in_conversation t w p address m
       \<and> is_none_or cursor (\<lambda>c. message_sort_key x m < cursor_key x c)) (mt_messages t))))"

definition list_app_conversation ::
  "message_env \<Rightarrow> call_env \<Rightarrow> string \<Rightarrow> message_principal \<Rightarrow> string option \<Rightarrow> nat
   \<Rightarrow> (string \<times> string) option \<Rightarrow> message_tables \<Rightarrow> message_page msg_res" where
  "list_app_conversation x e w p before limit address t =
     and_then (validate_page_size limit) (\<lambda>_.
     and_then (decode_optional_cursor x before) (\<lambda>cursor.
     let rows = list_rows x t w p cursor (limit + 1) address;
         has_more = limit < length rows;
         page_rows = take limit rows in
     and_then (try_map (\<lambda>r. load_message x t w (mr_message_id r)) page_rows) (\<lambda>messages.
     and_then (if has_more \<and> page_rows \<noteq> [] then
           and_then (ok_or_else (me_parse_rfc3339 x (mr_created_at (last page_rows)))
             (Panicked ''query only returns valid stored timestamps'')) (\<lambda>at.
           Inr (Some (encode_cursor x at (mr_message_id (last page_rows)))))
         else Inr None) (\<lambda>next_cursor.
     Inr \<lparr>pg_messages = messages, pg_next_cursor = next_cursor,
          pg_remaining_unacknowledged = unacknowledged_count x (ce_count_now e) t w p\<rparr>))))"

definition message_list ::
  "message_env \<Rightarrow> call_env \<Rightarrow> string \<Rightarrow> message_principal \<Rightarrow> string option \<Rightarrow> nat \<Rightarrow> message_tables
   \<Rightarrow> message_page msg_res" where
  "message_list x e w p before limit t = list_app_conversation x e w p before limit None t"

definition receive_rows ::
  "message_env \<Rightarrow> datetime \<Rightarrow> message_tables \<Rightarrow> string \<Rightarrow> message_principal \<Rightarrow> nat
   \<Rightarrow> (datetime \<times> string) option \<Rightarrow> delivery_row list" where
  "receive_rows x now t w p limit after =
     take limit (sort_key (delivery_sort_key x) (filter (\<lambda>d. pending_for x now w p d
       \<and> is_none_or after (\<lambda>c. cursor_key x c < delivery_sort_key x d)) (mt_deliveries t)))"

definition receive_now ::
  "message_env \<Rightarrow> call_env \<Rightarrow> string \<Rightarrow> message_principal \<Rightarrow> nat \<Rightarrow> (datetime \<times> string) option
   \<Rightarrow> message_tables \<Rightarrow> receive_messages_response msg_res" where
  "receive_now x e w p limit after t =
     and_then (try_map (\<lambda>r. and_then (load_message x t w (dr_message_id r)) (delivery_from_row x r))
       (receive_rows x (ce_now e) t w p limit after)) (\<lambda>deliveries.
     Inr \<lparr>rr_next_cursor =
            (if (mp_app_endpoint p \<noteq> None \<or> after \<noteq> None) \<and> deliveries \<noteq> [] then
               Some (encode_cursor x (md_created_at (last deliveries)) (md_delivery_id (last deliveries)))
             else None),
          rr_deliveries = deliveries,
          rr_remaining_unacknowledged = unacknowledged_count x (ce_count_now e) t w p\<rparr>)"

text \<open>The tables \<open>t1\<close> and the clock \<open>e1\<close> are those after the wait.\<close>

definition receive_after ::
  "message_env \<Rightarrow> call_env \<Rightarrow> call_env \<Rightarrow> string \<Rightarrow> message_principal \<Rightarrow> nat \<Rightarrow> nat \<Rightarrow> string option
   \<Rightarrow> message_tables \<Rightarrow> message_tables \<Rightarrow> receive_messages_response msg_res" where
  "receive_after x e e1 w p limit wait_milliseconds after t t1 =
     and_then (validate_page_size limit) (\<lambda>_.
     and_then (validate_endpoint_scope (mp_app_endpoint p)) (\<lambda>_.
     and_then (decode_optional_cursor x after) (\<lambda>after.
     if MAX_MESSAGE_WAIT_MILLISECONDS < wait_milliseconds then
       Inl (Contract ''message_wait_invalid''
         (''message wait must be at most '' @ dec_string MAX_MESSAGE_WAIT_MILLISECONDS @ '' milliseconds''))
     else and_then (receive_now x e w p limit after t) (\<lambda>first.
       if rr_deliveries first \<noteq> [] \<or> wait_milliseconds = 0 then Inr first
       else receive_now x e1 w p limit after t1))))"

section \<open>Acknowledge\<close>

definition ack_bytes :: "message_env \<Rightarrow> acknowledge_messages_request \<Rightarrow> string option" where
  "ack_bytes x request = (case aq_app_endpoint request of
      Some endpoint \<Rightarrow> me_scoped_ids_bytes x (endpoint, aq_delivery_ids request)
    | None \<Rightarrow> me_ids_bytes x (aq_delivery_ids request))"

definition find_ack_operation ::
  "message_tables \<Rightarrow> string \<Rightarrow> message_principal \<Rightarrow> string \<Rightarrow> ack_operation_row option" where
  "find_ack_operation t w p operation_id =
     find (\<lambda>r. ack_key r = (w, message_kind_as_str (mp_kind p), mp_id p, operation_id))
       (mt_ack_operations t)"

definition owned_delivery ::
  "string \<Rightarrow> message_principal \<Rightarrow> string option \<Rightarrow> string \<Rightarrow> delivery_row \<Rightarrow> bool" where
  "owned_delivery w p endpoint i d =
     (dr_workspace_id d = w \<and> dr_delivery_id d = i
      \<and> dr_recipient_kind d = message_kind_as_str (mp_kind p) \<and> dr_recipient_id d = mp_id p
      \<and> is_none_or endpoint (\<lambda>e. dr_recipient_endpoint d = e))"

definition set_acknowledged ::
  "message_env \<Rightarrow> datetime \<Rightarrow> string \<Rightarrow> string \<Rightarrow> message_tables \<Rightarrow> message_tables" where
  "set_acknowledged x now w i t =
     t\<lparr>mt_deliveries := map (\<lambda>d. if dr_workspace_id d = w \<and> dr_delivery_id d = i
         then d\<lparr>dr_acknowledged_at := Some (me_to_rfc3339 x now)\<rparr> else d) (mt_deliveries t)\<rparr>"

definition acknowledged_event ::
  "call_env \<Rightarrow> string \<Rightarrow> message_principal \<Rightarrow> acknowledge_messages_request \<Rightarrow> nat option \<Rightarrow> nat
   \<Rightarrow> string \<Rightarrow> string \<Rightarrow> domain_event_envelope" where
  "acknowledged_event e w p request policy_revision n delivery_id message_id =
     \<lparr>ev_event_id = ''evt_'' @ ce_uuid e n,
      ev_schema_version = DOMAIN_EVENT_SCHEMA_VERSION, ev_organization_id = None,
      ev_workspace_id = w,
      ev_actor = \<lparr>ea_kind = message_kind_as_str (mp_kind p), ea_id = Some (mp_id p)\<rparr>,
      ev_action = ''message.acknowledged'',
      ev_resource = \<lparr>er_kind = ''message.delivery'', er_id = delivery_id\<rparr>,
      ev_occurred_at = ce_now e, ev_trace_id = None, ev_causation_id = None,
      ev_correlation_id = Some (aq_operation_id request), ev_workspace_revision = policy_revision,
      ev_payload = JObject [(''delivery_id'', JString delivery_id), (''message_id'', JString message_id)]\<rparr>"

type_synonym ack_state = "string list \<times> string list \<times> message_tables"

definition ack_one ::
  "message_env \<Rightarrow> call_env \<Rightarrow> string \<Rightarrow> message_principal \<Rightarrow> acknowledge_messages_request \<Rightarrow> nat option
   \<Rightarrow> string \<Rightarrow> ack_state \<Rightarrow> ack_state msg_res" where
  "ack_one x e w p request policy_revision i = (\<lambda>(acknowledged, already, t).
     and_then (ok_or_else (find (owned_delivery w p (aq_app_endpoint request) i) (mt_deliveries t))
       (Contract ''message_delivery_not_found''
         ''a delivery does not exist or is not owned by this principal'')) (\<lambda>row.
     if dr_acknowledged_at row \<noteq> None then Inr (acknowledged, already @ [i], t)
     else and_then (insert_outbox x
         (acknowledged_event e w p request policy_revision (length acknowledged) i (dr_message_id row))
         (set_acknowledged x (ce_now e) w i t)) (\<lambda>t1.
       Inr (acknowledged @ [i], already, t1))))"

definition acknowledge_with_policy_revision ::
  "message_env \<Rightarrow> call_env \<Rightarrow> string \<Rightarrow> message_principal \<Rightarrow> acknowledge_messages_request \<Rightarrow> nat option
   \<Rightarrow> message_tables \<Rightarrow> (acknowledge_messages_response \<times> message_tables) msg_res" where
  "acknowledge_with_policy_revision x e w p request policy_revision t =
     and_then (validate_ack request) (\<lambda>_.
     and_then (validate_endpoint_scope (aq_app_endpoint request)) (\<lambda>_.
     and_then (request_hash x (ack_bytes x request)) (\<lambda>hash.
     case find_ack_operation t w p (aq_operation_id request) of
       Some row \<Rightarrow>
         if ao_request_hash row \<noteq> hash then
           Inl (Contract ''message_ack_idempotency_conflict''
             ''acknowledgement operation ID was used for a different delivery set'')
         else and_then (ok_or_else (jc_from_value (me_ack_codec x) (ao_response row)) Corrupt) (\<lambda>response.
           Inr (response, t))
     | None \<Rightarrow>
         and_then (try_fold (ack_one x e w p request policy_revision) (aq_delivery_ids request) ([], [], t))
           (\<lambda>(acknowledged, already, t1).
         let response = \<lparr>as_acknowledged_delivery_ids = acknowledged,
               as_already_acknowledged_delivery_ids = already\<rparr> in
         and_then (ok_or_else (jc_to_value (me_ack_codec x) response) Corrupt) (\<lambda>v.
         and_then (insert_ack_operation \<lparr>ao_workspace_id = w,
             ao_principal_kind = message_kind_as_str (mp_kind p), ao_principal_id = mp_id p,
             ao_operation_id = aq_operation_id request, ao_request_hash = hash, ao_response = v,
             ao_created_at = me_to_rfc3339 x (ce_now e)\<rparr> t1) (\<lambda>t2.
         Inr (response, notify_changed t2)))))))"

section \<open>Import of legacy mail\<close>

definition legacy_delivery_id ::
  "message_env \<Rightarrow> string \<Rightarrow> string \<Rightarrow> message_principal \<Rightarrow> string" where
  "legacy_delivery_id x w i recipient =
     ''dlv_legacy_'' @ me_sha256_hex x (w @ [CHR 0x00] @ i @ [CHR 0x00]
       @ message_kind_as_str (mp_kind recipient) @ [CHR 0x00] @ mp_id recipient)"

definition legacy_row :: "message_env \<Rightarrow> legacy_mail_message \<Rightarrow> message_row" where
  "legacy_row x m =
     \<lparr>mr_message_id = lm_message_id m, mr_workspace_id = lm_workspace_id m,
      mr_sender_kind = message_kind_as_str (mp_kind (lm_sender m)), mr_sender_id = mp_id (lm_sender m),
      mr_sender_name = mp_name (lm_sender m), mr_sender_role = mp_role (lm_sender m),
      mr_body = lm_body m, mr_created_at = me_to_rfc3339 x (lm_created_at m), mr_expires_at = None,
      mr_correlation_id = None, mr_trace_id = None, mr_external_source = None,
      mr_sender_path = mp_path (lm_sender m), mr_sender_endpoint = None\<rparr>"

definition legacy_delivery_row ::
  "message_env \<Rightarrow> legacy_mail_message \<Rightarrow> legacy_mail_recipient \<Rightarrow> delivery_row" where
  "legacy_delivery_row x m r =
     \<lparr>dr_delivery_id = legacy_delivery_id x (lm_workspace_id m) (lm_message_id m) (lr_principal r),
      dr_message_id = lm_message_id m, dr_workspace_id = lm_workspace_id m,
      dr_recipient_kind = message_kind_as_str (mp_kind (lr_principal r)),
      dr_recipient_id = mp_id (lr_principal r), dr_recipient_name = mp_name (lr_principal r),
      dr_recipient_role = mp_role (lr_principal r), dr_position = lr_position r,
      dr_created_at = me_to_rfc3339 x (lm_created_at m),
      dr_acknowledged_at = map_option (me_to_rfc3339 x) (lr_read_at r), dr_expires_at = None,
      dr_recipient_path = mp_path (lr_principal r), dr_recipient_endpoint = []\<rparr>"

definition insert_legacy_message ::
  "message_env \<Rightarrow> legacy_mail_message \<Rightarrow> message_tables \<Rightarrow> message_tables msg_res" where
  "insert_legacy_message x m t =
     and_then (insert_message (legacy_row x m) t) (\<lambda>t1.
     and_then (try_fold (\<lambda>r. insert_delivery (legacy_delivery_row x m r)) (lm_recipients m) t1) (\<lambda>t2.
     insert_contexts (lm_workspace_id m) (lm_message_id m) (lm_context_ids m) t2))"

definition legacy_delivery_matches ::
  "message_env \<Rightarrow> delivery_row \<times> legacy_mail_recipient \<Rightarrow> bool msg_res" where
  "legacy_delivery_matches x dr = (case dr of (row, expected) \<Rightarrow>
     and_then (recipient_from_row row) (\<lambda>principal.
     and_then (parse_optional_timestamp x (dr_acknowledged_at row)) (\<lambda>acknowledged_at.
     Inr (principal = lr_principal expected \<and> dr_position row = lr_position expected
          \<and> acknowledged_at = lr_read_at expected))))"

fun try_forall :: "('a \<Rightarrow> bool msg_res) \<Rightarrow> 'a list \<Rightarrow> bool msg_res" where
  "try_forall f [] = Inr True"
| "try_forall f (y # ys) = and_then (f y) (\<lambda>ok. if ok then try_forall f ys else Inr False)"

definition legacy_message_matches ::
  "message_env \<Rightarrow> message_tables \<Rightarrow> legacy_mail_message \<Rightarrow> bool msg_res" where
  "legacy_message_matches x t expected =
     and_then (load_message x t (lm_workspace_id expected) (lm_message_id expected)) (\<lambda>actual.
     let expected_recipients = sort_key lr_position (lm_recipients expected) in
     if cm_workspace_id actual \<noteq> lm_workspace_id expected
        \<or> cm_message_id actual \<noteq> lm_message_id expected
        \<or> cm_sender actual \<noteq> lm_sender expected
        \<or> cm_recipients actual \<noteq> map lr_principal expected_recipients
        \<or> cm_context_ids actual \<noteq> lm_context_ids expected
        \<or> cm_body actual \<noteq> lm_body expected
        \<or> cm_created_at actual \<noteq> lm_created_at expected
        \<or> cm_expires_at actual \<noteq> None \<or> cm_correlation_id actual \<noteq> None
        \<or> cm_trace_id actual \<noteq> None \<or> cm_external_source actual \<noteq> None then Inr False
     else let rows = message_deliveries t (lm_workspace_id expected) (lm_message_id expected) in
       if length rows \<noteq> length expected_recipients then Inr False
       else try_forall (legacy_delivery_matches x) (zip rows expected_recipients))"

definition check_import_context ::
  "message_tables \<Rightarrow> string \<Rightarrow> string \<Rightarrow> unit msg_res" where
  "check_import_context t w context_id =
     (if message_exists t w context_id then Inr ()
      else Inl (Contract ''message_import_not_topological''
        ''legacy messages must be imported in topological order''))"

record import_state =
  ist_imported :: nat
  ist_existing :: nat
  ist_seen :: "string list"
  ist_message_ids :: "string list"
  ist_tables :: message_tables

definition import_one ::
  "message_env \<Rightarrow> string \<Rightarrow> legacy_mail_message \<Rightarrow> import_state \<Rightarrow> import_state msg_res" where
  "import_one x w m s =
     and_then (validate_legacy_message w m) (\<lambda>_.
     if lm_message_id m \<in> set (ist_seen s) then
       Inl (Contract ''message_import_duplicate'' ''import batch contains a duplicate message ID'')
     else
       let s1 = s\<lparr>ist_seen := lm_message_id m # ist_seen s\<rparr>; t = ist_tables s in
       if message_exists t w (lm_message_id m) then
         and_then (legacy_message_matches x t m) (\<lambda>matches.
         if \<not> matches then
           Inl (Contract ''message_import_conflict''
             ''an imported Message ID already exists with different data'')
         else Inr (s1\<lparr>ist_existing := Suc (ist_existing s),
                      ist_message_ids := ist_message_ids s @ [lm_message_id m]\<rparr>))
       else
         and_then (try_all (check_import_context t w) (lm_context_ids m)) (\<lambda>_.
         and_then (insert_legacy_message x m t) (\<lambda>t1.
         Inr (s1\<lparr>ist_imported := Suc (ist_imported s),
                 ist_message_ids := ist_message_ids s @ [lm_message_id m], ist_tables := t1\<rparr>))))"

definition imported_event ::
  "call_env \<Rightarrow> string \<Rightarrow> message_principal \<Rightarrow> string \<Rightarrow> import_messages_response \<Rightarrow> domain_event_envelope" where
  "imported_event e w importer operation_id response =
     \<lparr>ev_event_id = ''evt_'' @ ce_uuid e 0,
      ev_schema_version = DOMAIN_EVENT_SCHEMA_VERSION, ev_organization_id = None,
      ev_workspace_id = w,
      ev_actor = \<lparr>ea_kind = message_kind_as_str (mp_kind importer), ea_id = Some (mp_id importer)\<rparr>,
      ev_action = ''message.imported'',
      ev_resource = \<lparr>er_kind = ''message.import'', er_id = operation_id\<rparr>,
      ev_occurred_at = ce_now e, ev_trace_id = None, ev_causation_id = None,
      ev_correlation_id = Some operation_id, ev_workspace_revision = None,
      ev_payload = JObject [(''imported'', JNumber (is_imported response)),
        (''existing'', JNumber (is_existing response))]\<rparr>"

definition find_import_operation ::
  "message_tables \<Rightarrow> string \<Rightarrow> string \<Rightarrow> import_operation_row option" where
  "find_import_operation t w operation_id =
     find (\<lambda>r. import_key r = (w, operation_id)) (mt_import_operations t)"

definition import_legacy_mail ::
  "message_env \<Rightarrow> call_env \<Rightarrow> string \<Rightarrow> message_principal \<Rightarrow> import_messages_request \<Rightarrow> message_tables
   \<Rightarrow> (import_messages_response \<times> message_tables) msg_res" where
  "import_legacy_mail x e w importer request t =
     and_then (validate_import w request) (\<lambda>_.
     and_then (request_hash x (me_legacy_bytes x (im_messages request))) (\<lambda>hash.
     case find_import_operation t w (im_operation_id request) of
       Some row \<Rightarrow>
         if io_request_hash row \<noteq> hash then
           Inl (Contract ''message_import_idempotency_conflict''
             ''import operation ID was used for different data'')
         else and_then (ok_or_else (jc_from_value (me_import_codec x) (io_response row)) Corrupt) (\<lambda>response.
           Inr (response, t))
     | None \<Rightarrow>
         and_then (try_fold (import_one x w) (im_messages request)
           \<lparr>ist_imported = 0, ist_existing = 0, ist_seen = [], ist_message_ids = [], ist_tables = t\<rparr>) (\<lambda>s.
         let response = \<lparr>is_imported = ist_imported s, is_existing = ist_existing s,
               is_message_ids = ist_message_ids s\<rparr> in
         and_then (ok_or_else (jc_to_value (me_import_codec x) response) Corrupt) (\<lambda>v.
         and_then (insert_import_operation \<lparr>io_workspace_id = w, io_operation_id = im_operation_id request,
             io_request_hash = hash, io_response = v, io_created_at = me_to_rfc3339 x (ce_now e),
             io_actor_kind = message_kind_as_str (mp_kind importer), io_actor_id = mp_id importer\<rparr>
             (ist_tables s)) (\<lambda>t1.
         and_then (insert_outbox x (imported_event e w importer (im_operation_id request) response) t1) (\<lambda>t2.
         Inr (response, notify_changed t2)))))))"

section \<open>The outbox dispatcher\<close>

text \<open>
  \<open>locked\<close> holds the rows another dispatcher has locked, \<open>publish\<close> whether the event bus confirms
  an envelope, \<open>now\<close> the clock of each update.  The published envelopes are returned too: a
  published event stays published when the transaction is rolled back.
\<close>

definition pending_rows :: "message_env \<Rightarrow> string set \<Rightarrow> message_tables \<Rightarrow> outbox_row list" where
  "pending_rows x locked t =
     take OUTBOX_BATCH_SIZE (sort_key (\<lambda>r. (me_collation_key x (ox_created_at r), me_collation_key x (ox_event_id r)))
       (filter (\<lambda>r. ox_dispatched_at r = None \<and> ox_event_id r \<notin> locked) (mt_outbox t)))"

definition set_dispatched ::
  "message_env \<Rightarrow> datetime \<Rightarrow> string \<Rightarrow> message_tables \<Rightarrow> message_tables" where
  "set_dispatched x now i t =
     t\<lparr>mt_outbox := map (\<lambda>r. if ox_event_id r = i
         then r\<lparr>ox_dispatched_at := Some (me_to_rfc3339 x now), ox_attempts := Suc (ox_attempts r)\<rparr>
         else r) (mt_outbox t)\<rparr>"

fun dispatch_loop ::
  "message_env \<Rightarrow> (domain_event_envelope \<Rightarrow> bool) \<Rightarrow> datetime \<Rightarrow> outbox_row list \<Rightarrow> nat \<Rightarrow> message_tables
   \<Rightarrow> (nat \<times> message_tables) msg_res \<times> domain_event_envelope list" where
  "dispatch_loop x publish now [] dispatched t = (Inr (dispatched, t), [])"
| "dispatch_loop x publish now (row # rows) dispatched t =
     (case jc_from_value (me_envelope_codec x) (ox_envelope row) of
        None \<Rightarrow> (Inl Corrupt, [])
      | Some envelope \<Rightarrow>
          if \<not> publish envelope then (Inr (dispatched, t), [])
          else (case dispatch_loop x publish now rows (Suc dispatched)
                  (set_dispatched x now (ox_event_id row) t) of
              (r, published) \<Rightarrow> (r, envelope # published)))"

definition dispatch_pending ::
  "message_env \<Rightarrow> string set \<Rightarrow> (domain_event_envelope \<Rightarrow> bool) \<Rightarrow> datetime \<Rightarrow> message_tables
   \<Rightarrow> (nat \<times> message_tables) msg_res \<times> domain_event_envelope list" where
  "dispatch_pending x locked publish now t =
     dispatch_loop x publish now (pending_rows x locked t) 0 t"

end
