(* ===== verification/Message_History.thy ===== *)
theory Message_History
  imports Message_Store
begin

text \<open>
  Histories of the message store.  The store is a transition system whose steps are the successful
  operations; \<open>extends\<close> says what no operation ever does to the tables (remove or rewrite a row,
  forget an acknowledgement, touch the deliveries or contexts of an existing message), and
  \<open>tables_ok\<close> is the invariant that follows from the constraints of the schema.  On top of them:
  a send runs once per idempotency key, acknowledged deliveries are never delivered again, and the
  context graph has no cycles.
\<close>

section \<open>Steps\<close>

inductive message_step :: "message_env \<Rightarrow> message_tables \<Rightarrow> message_tables \<Rightarrow> bool" for x where
  step_send: "send_with_policy_revision x e w sender recipients request prev t = Inr (r, t')
    \<Longrightarrow> message_step x t t'"
| step_ack: "acknowledge_with_policy_revision x e w p arequest prev t = Inr (ar, t')
    \<Longrightarrow> message_step x t t'"
| step_import: "import_legacy_mail x e w importer irequest t = Inr (ir, t') \<Longrightarrow> message_step x t t'"
| step_dispatch: "dispatch_pending x locked publish now t = (Inr (n, t'), published)
    \<Longrightarrow> message_step x t t'"

section \<open>What operations keep\<close>

definition ack_only :: "delivery_row \<Rightarrow> delivery_row \<Rightarrow> bool" where
  "ack_only d d' \<longleftrightarrow> d' = d \<or> (dr_acknowledged_at d = None \<and> (\<exists>a. d' = d\<lparr>dr_acknowledged_at := Some a\<rparr>))"

definition dispatch_only :: "outbox_row \<Rightarrow> outbox_row \<Rightarrow> bool" where
  "dispatch_only r r' \<longleftrightarrow> ox_event_id r' = ox_event_id r \<and> ox_workspace_id r' = ox_workspace_id r
     \<and> ox_action r' = ox_action r \<and> ox_envelope r' = ox_envelope r \<and> ox_created_at r' = ox_created_at r
     \<and> (ox_dispatched_at r \<noteq> None \<longrightarrow> ox_dispatched_at r' \<noteq> None)"

definition contexts_grow :: "message_tables \<Rightarrow> context_row list \<Rightarrow> bool" where
  "contexts_grow t cs' \<longleftrightarrow> (\<exists>cs. cs' = mt_contexts t @ cs
     \<and> (\<forall>c \<in> set cs. \<not> message_exists t (xr_workspace_id c) (xr_message_id c)))"

definition deliveries_grow :: "message_tables \<Rightarrow> delivery_row list \<Rightarrow> bool" where
  "deliveries_grow t ds' \<longleftrightarrow> (\<exists>ds ns. ds' = ds @ ns \<and> list_all2 ack_only (mt_deliveries t) ds
     \<and> (\<forall>d \<in> set ns. \<not> message_exists t (dr_workspace_id d) (dr_message_id d)))"

definition outbox_grow :: "message_tables \<Rightarrow> outbox_row list \<Rightarrow> bool" where
  "outbox_grow t os' \<longleftrightarrow> (\<exists>os ns. os' = os @ ns \<and> list_all2 dispatch_only (mt_outbox t) os)"

definition extends :: "message_tables \<Rightarrow> message_tables \<Rightarrow> bool" where
  "extends t t' \<longleftrightarrow>
     prefix (mt_messages t) (mt_messages t') \<and> prefix (mt_idempotency t) (mt_idempotency t')
     \<and> prefix (mt_ack_operations t) (mt_ack_operations t')
     \<and> prefix (mt_import_operations t) (mt_import_operations t')
     \<and> contexts_grow t (mt_contexts t') \<and> deliveries_grow t (mt_deliveries t') \<and> outbox_grow t (mt_outbox t')"

lemma ack_only_refl [simp]: "ack_only d d"
  by (simp add: ack_only_def)

lemma ack_only_trans: "transp ack_only"
  by (auto simp: ack_only_def intro!: transpI)

lemma ack_only_fields:
  assumes "ack_only d d'"
  shows "dr_delivery_id d' = dr_delivery_id d" "dr_message_id d' = dr_message_id d"
    "dr_workspace_id d' = dr_workspace_id d" "dr_position d' = dr_position d"
    "delivery_slot d' = delivery_slot d" "delivery_address d' = delivery_address d"
    "recipient_from_row d' = recipient_from_row d" "delivery_sort_key x d' = delivery_sort_key x d"
    "dr_acknowledged_at d \<noteq> None \<Longrightarrow> d' = d"
  using assms by (auto simp: ack_only_def delivery_slot_def delivery_address_def recipient_from_row_def
      delivery_sort_key_def)

lemma dispatch_only_refl [simp]: "dispatch_only r r"
  by (simp add: dispatch_only_def)

lemma dispatch_only_trans: "transp dispatch_only"
  by (auto simp: dispatch_only_def intro!: transpI)

lemma message_exists_iff:
  "message_exists t w i \<longleftrightarrow> (w, i) \<in> (\<lambda>r. (mr_workspace_id r, mr_message_id r)) ` set (mt_messages t)"
  by (auto simp: message_exists_def list_ex_iff)

lemma exists_prefix:
  "prefix (mt_messages t) (mt_messages t') \<Longrightarrow> message_exists t w i \<Longrightarrow> message_exists t' w i"
  by (auto simp: message_exists_iff prefix_def)

lemma contexts_grow_refl [simp]: "contexts_grow t (mt_contexts t)"
  by (simp add: contexts_grow_def)

lemma contexts_grow_add:
  "contexts_grow t cs \<Longrightarrow> \<not> message_exists t (xr_workspace_id c) (xr_message_id c) \<Longrightarrow> contexts_grow t (cs @ [c])"
  by (auto simp: contexts_grow_def)

lemma deliveries_grow_rewrite: "list_all2 ack_only (mt_deliveries t) ds \<Longrightarrow> deliveries_grow t ds"
  unfolding deliveries_grow_def by (intro exI [of _ ds] exI [of _ "[]"]) simp

lemma deliveries_grow_refl [simp]: "deliveries_grow t (mt_deliveries t)"
  by (simp add: deliveries_grow_rewrite list.rel_refl)

lemma deliveries_grow_add:
  assumes "deliveries_grow t ds" "\<not> message_exists t (dr_workspace_id d) (dr_message_id d)"
  shows "deliveries_grow t (ds @ [d])"
proof -
  obtain us ns where "ds = us @ ns" "list_all2 ack_only (mt_deliveries t) us"
    "\<forall>d \<in> set ns. \<not> message_exists t (dr_workspace_id d) (dr_message_id d)"
    using assms(1) by (auto simp: deliveries_grow_def)
  then show ?thesis
    unfolding deliveries_grow_def using assms(2) by (intro exI [of _ us] exI [of _ "ns @ [d]"]) simp
qed

lemma outbox_grow_rewrite: "list_all2 dispatch_only (mt_outbox t) os \<Longrightarrow> outbox_grow t os"
  unfolding outbox_grow_def by (intro exI [of _ os] exI [of _ "[]"]) simp

lemma outbox_grow_refl [simp]: "outbox_grow t (mt_outbox t)"
  by (simp add: outbox_grow_rewrite list.rel_refl)

lemma outbox_grow_add: "outbox_grow t os \<Longrightarrow> outbox_grow t (os @ [r])"
  unfolding outbox_grow_def by (metis append.assoc)

lemma extends_refl [simp]: "extends t t"
  by (simp add: extends_def)

lemma extends_exists: "extends t t' \<Longrightarrow> message_exists t w i \<Longrightarrow> message_exists t' w i"
  by (auto simp: extends_def intro: exists_prefix)

lemma extends_trans:
  assumes a: "extends t u" and b: "extends u v"
  shows "extends t v"
proof -
  obtain ds ns where d1: "mt_deliveries u = ds @ ns" "list_all2 ack_only (mt_deliveries t) ds"
    "\<forall>d \<in> set ns. \<not> message_exists t (dr_workspace_id d) (dr_message_id d)"
    using a by (auto simp: extends_def deliveries_grow_def)
  obtain ds' ns' where d2: "mt_deliveries v = ds' @ ns'" "list_all2 ack_only (mt_deliveries u) ds'"
    "\<forall>d \<in> set ns'. \<not> message_exists u (dr_workspace_id d) (dr_message_id d)"
    using b by (auto simp: extends_def deliveries_grow_def)
  obtain us vs where uv: "ds' = us @ vs" "list_all2 ack_only (mt_deliveries t) us" "list_all2 ack_only ns vs"
    using list_all2_grow [OF ack_only_trans d1(2) d2(2) [unfolded d1(1)]] by auto
  have "\<not> message_exists t (dr_workspace_id d) (dr_message_id d)" if "d \<in> set vs" for d
    using list_all2_mem2 [OF uv(3) that] d1(3) ack_only_fields(2,3) by metis
  then have "\<forall>d \<in> set (vs @ ns'). \<not> message_exists t (dr_workspace_id d) (dr_message_id d)"
    using d2(3) extends_exists [OF a] by auto
  then have D: "deliveries_grow t (mt_deliveries v)"
    unfolding deliveries_grow_def using d2(1) uv by (intro exI [of _ us] exI [of _ "vs @ ns'"]) simp
  obtain os ns1 where o1: "mt_outbox u = os @ ns1" "list_all2 dispatch_only (mt_outbox t) os"
    using a by (auto simp: extends_def outbox_grow_def)
  obtain os' ns2 where o2: "mt_outbox v = os' @ ns2" "list_all2 dispatch_only (mt_outbox u) os'"
    using b by (auto simp: extends_def outbox_grow_def)
  have O: "outbox_grow t (mt_outbox v)"
    using list_all2_grow [OF dispatch_only_trans o1(2) o2(2) [unfolded o1(1)]] o2(1)
    unfolding outbox_grow_def by (metis append.assoc)
  obtain cs cs' where c: "mt_contexts u = mt_contexts t @ cs" "mt_contexts v = mt_contexts u @ cs'"
    "\<forall>c \<in> set cs. \<not> message_exists t (xr_workspace_id c) (xr_message_id c)"
    "\<forall>c \<in> set cs'. \<not> message_exists u (xr_workspace_id c) (xr_message_id c)"
    using a b by (auto simp: extends_def contexts_grow_def)
  then have C: "contexts_grow t (mt_contexts v)"
    unfolding contexts_grow_def using extends_exists [OF a] by (intro exI [of _ "cs @ cs'"]) auto
  show ?thesis
    using a b C D O by (auto simp: extends_def intro: prefix_order.trans)
qed

lemma extends_insert_message: "extends t0 t \<Longrightarrow> insert_message r t = Inr t' \<Longrightarrow> extends t0 t'"
  by (auto simp: insert_message_def extends_def split: if_splits)

lemma extends_insert_delivery:
  "extends t0 t \<Longrightarrow> insert_delivery r t = Inr t'
   \<Longrightarrow> \<not> message_exists t0 (dr_workspace_id r) (dr_message_id r) \<Longrightarrow> extends t0 t'"
  by (auto simp: insert_delivery_def extends_def intro: deliveries_grow_add split: if_splits)

lemma extends_insert_context:
  "extends t0 t \<Longrightarrow> insert_context r t = Inr t'
   \<Longrightarrow> \<not> message_exists t0 (xr_workspace_id r) (xr_message_id r) \<Longrightarrow> extends t0 t'"
  by (auto simp: insert_context_def extends_def intro: contexts_grow_add split: if_splits)

lemma extends_insert_idempotency:
  "extends t0 t \<Longrightarrow> insert_idempotency r t = Inr t' \<Longrightarrow> extends t0 t'"
  by (auto simp: insert_idempotency_def extends_def split: if_splits)

lemma extends_insert_ack: "extends t0 t \<Longrightarrow> insert_ack_operation r t = Inr t' \<Longrightarrow> extends t0 t'"
  by (auto simp: insert_ack_operation_def extends_def split: if_splits)

lemma extends_insert_import: "extends t0 t \<Longrightarrow> insert_import_operation r t = Inr t' \<Longrightarrow> extends t0 t'"
  by (auto simp: insert_import_operation_def extends_def split: if_splits)

lemma extends_insert_outbox: "extends t0 t \<Longrightarrow> insert_outbox x v t = Inr t' \<Longrightarrow> extends t0 t'"
  by (auto simp: insert_outbox_def extends_def res_simps intro: outbox_grow_add split: if_splits)

lemma extends_notify: "extends t0 t \<Longrightarrow> extends t0 (notify_changed t)"
  by (simp add: extends_def notify_changed_def)

lemma extends_set_acknowledged:
  assumes "\<And>d. d \<in> set (mt_deliveries t) \<Longrightarrow> dr_workspace_id d = w \<Longrightarrow> dr_delivery_id d = i
    \<Longrightarrow> dr_acknowledged_at d = None"
  shows "extends t (set_acknowledged x now w i t)"
  using assms by (auto simp: set_acknowledged_def extends_def list.rel_map ack_only_def
      intro!: deliveries_grow_rewrite list.rel_refl_strong)

lemma extends_set_dispatched: "extends t (set_dispatched x now i t)"
  by (auto simp: set_dispatched_def extends_def list.rel_map dispatch_only_def
      intro!: outbox_grow_rewrite list.rel_refl_strong)

lemmas extends_inserts = extends_insert_message extends_insert_delivery extends_insert_context
  extends_insert_idempotency extends_insert_ack extends_insert_import extends_insert_outbox extends_notify

section \<open>The invariant of the tables\<close>

definition json_codec_ok :: "'a json_codec \<Rightarrow> bool" where
  "json_codec_ok c \<longleftrightarrow> (\<forall>v. \<exists>j. jc_to_value c v = Some j \<and> jc_from_value c j = Some v)"

text \<open>
  Documented behaviour of the crates the store uses: formatted timestamps parse back, JSON encodings
  decode to what was encoded, a deterministic collation separates different texts.
\<close>

definition message_env_ok :: "message_env \<Rightarrow> bool" where
  "message_env_ok x \<longleftrightarrow>
     (\<forall>d. me_parse_rfc3339 x (me_to_rfc3339 x d) = Some d) \<and> inj (me_collation_key x)
     \<and> json_codec_ok (me_source_codec x) \<and> json_codec_ok (me_envelope_codec x)
     \<and> json_codec_ok (me_ack_codec x) \<and> json_codec_ok (me_import_codec x)"

lemma json_codec_okD: "json_codec_ok c \<Longrightarrow> \<exists>j. jc_to_value c v = Some j \<and> jc_from_value c j = Some v"
  by (simp add: json_codec_ok_def)

lemma message_env_okD:
  assumes "message_env_ok x"
  shows "me_parse_rfc3339 x (me_to_rfc3339 x d) = Some d" "inj (me_collation_key x)"
    "json_codec_ok (me_source_codec x)" "json_codec_ok (me_envelope_codec x)"
    "json_codec_ok (me_ack_codec x)" "json_codec_ok (me_import_codec x)"
  using assms by (simp_all add: message_env_ok_def)

definition message_key :: "message_row \<Rightarrow> string \<times> string" where
  "message_key r = (mr_workspace_id r, mr_message_id r)"

definition messages_ok :: "message_tables \<Rightarrow> bool" where
  "messages_ok t \<longleftrightarrow> distinct (map message_key (mt_messages t))"

definition deliveries_ok :: "message_tables \<Rightarrow> bool" where
  "deliveries_ok t \<longleftrightarrow> distinct (map dr_delivery_id (mt_deliveries t))
     \<and> (\<forall>d \<in> set (mt_deliveries t). message_exists t (dr_workspace_id d) (dr_message_id d)
          \<and> kind_column_ok (dr_recipient_kind d))"

definition context_older :: "message_row list \<Rightarrow> context_row \<Rightarrow> bool" where
  "context_older ms c \<longleftrightarrow> (\<exists>us m vs. ms = us @ m # vs
     \<and> message_key m = (xr_workspace_id c, xr_message_id c)
     \<and> (xr_workspace_id c, xr_context_message_id c) \<in> message_key ` set us)"

definition contexts_ok :: "message_tables \<Rightarrow> bool" where
  "contexts_ok t \<longleftrightarrow> (\<forall>c \<in> set (mt_contexts t). context_older (mt_messages t) c)"

definition keys_ok :: "message_tables \<Rightarrow> bool" where
  "keys_ok t \<longleftrightarrow> distinct (map idempotency_key (mt_idempotency t))
     \<and> (\<forall>r \<in> set (mt_idempotency t). message_exists t (ir_workspace_id r) (ir_message_id r))"

definition delivery_acked :: "message_tables \<Rightarrow> string \<Rightarrow> bool" where
  "delivery_acked t i \<longleftrightarrow>
     (\<exists>d \<in> set (mt_deliveries t). dr_delivery_id d = i \<and> dr_acknowledged_at d \<noteq> None)"

definition response_ids :: "acknowledge_messages_response \<Rightarrow> string set" where
  "response_ids r = set (as_acknowledged_delivery_ids r) \<union> set (as_already_acknowledged_delivery_ids r)"

definition acks_ok :: "message_env \<Rightarrow> message_tables \<Rightarrow> bool" where
  "acks_ok x t \<longleftrightarrow> (\<forall>q \<in> set (mt_ack_operations t). \<forall>r.
     jc_from_value (me_ack_codec x) (ao_response q) = Some r \<longrightarrow> (\<forall>i \<in> response_ids r. delivery_acked t i))"

definition event_ok :: "message_env \<Rightarrow> message_tables \<Rightarrow> outbox_row \<Rightarrow> bool" where
  "event_ok x t q \<longleftrightarrow> (\<exists>v. jc_from_value (me_envelope_codec x) (ox_envelope q) = Some v
     \<and> ev_event_id v = ox_event_id q
     \<and> (ev_action v = ''message.created'' \<longrightarrow> message_exists t (ev_workspace_id v) (er_id (ev_resource v))))"

definition created_for :: "message_env \<Rightarrow> string \<Rightarrow> string \<Rightarrow> outbox_row \<Rightarrow> bool" where
  "created_for x w i q = is_some_and (jc_from_value (me_envelope_codec x) (ox_envelope q))
     (\<lambda>v. ev_action v = ''message.created'' \<and> ev_workspace_id v = w \<and> er_id (ev_resource v) = i)"

definition events_ok :: "message_env \<Rightarrow> message_tables \<Rightarrow> bool" where
  "events_ok x t \<longleftrightarrow> distinct (map ox_event_id (mt_outbox t)) \<and> (\<forall>q \<in> set (mt_outbox t). event_ok x t q)
     \<and> (\<forall>w i. length (filter (created_for x w i) (mt_outbox t)) \<le> 1)"

definition message_readable :: "message_env \<Rightarrow> message_row \<Rightarrow> bool" where
  "message_readable x m \<longleftrightarrow> mr_created_at m \<in> range (me_to_rfc3339 x)
     \<and> is_none_or (mr_expires_at m) (\<lambda>s. s \<in> range (me_to_rfc3339 x))
     \<and> is_none_or (mr_external_source m) (\<lambda>j. jc_from_value (me_source_codec x) j \<noteq> None)
     \<and> kind_column_ok (mr_sender_kind m)"

definition delivery_readable :: "message_env \<Rightarrow> delivery_row \<Rightarrow> bool" where
  "delivery_readable x d \<longleftrightarrow> dr_created_at d \<in> range (me_to_rfc3339 x)
     \<and> is_none_or (dr_expires_at d) (\<lambda>s. s \<in> range (me_to_rfc3339 x))
     \<and> is_none_or (dr_acknowledged_at d) (\<lambda>s. s \<in> range (me_to_rfc3339 x))"

definition readable :: "message_env \<Rightarrow> message_tables \<Rightarrow> bool" where
  "readable x t \<longleftrightarrow> (\<forall>m \<in> set (mt_messages t). message_readable x m)
     \<and> (\<forall>d \<in> set (mt_deliveries t). delivery_readable x d)"

definition tables_ok :: "message_env \<Rightarrow> message_tables \<Rightarrow> bool" where
  "tables_ok x t \<longleftrightarrow> messages_ok t \<and> deliveries_ok t \<and> contexts_ok t \<and> keys_ok t \<and> acks_ok x t \<and> events_ok x t
     \<and> readable x t"

lemmas tables_ok_defs = tables_ok_def messages_ok_def deliveries_ok_def contexts_ok_def keys_ok_def
  acks_ok_def events_ok_def readable_def

lemma message_exists_update [simp]:
  "message_exists (t\<lparr>mt_deliveries := a\<rparr>) = message_exists t"
  "message_exists (t\<lparr>mt_contexts := b\<rparr>) = message_exists t"
  "message_exists (t\<lparr>mt_idempotency := c\<rparr>) = message_exists t"
  "message_exists (t\<lparr>mt_ack_operations := d\<rparr>) = message_exists t"
  "message_exists (t\<lparr>mt_import_operations := f\<rparr>) = message_exists t"
  "message_exists (t\<lparr>mt_outbox := g\<rparr>) = message_exists t"
  "message_exists (t\<lparr>mt_changed := h\<rparr>) = message_exists t"
  by (simp_all add: message_exists_def fun_eq_iff)

lemma message_exists_key: "message_exists t w i \<longleftrightarrow> (w, i) \<in> message_key ` set (mt_messages t)"
  by (auto simp: message_exists_iff message_key_def)

lemma message_exists_add:
  "message_exists (t\<lparr>mt_messages := mt_messages t @ [r]\<rparr>) w i \<longleftrightarrow> message_exists t w i \<or> message_key r = (w, i)"
  by (auto simp: message_exists_key)

lemma context_older_append: "context_older ms c \<Longrightarrow> context_older (ms @ ns) c"
  by (fastforce simp: context_older_def)

lemma acked_extends:
  assumes "extends t t'" "delivery_acked t i"
  shows "delivery_acked t' i"
proof -
  obtain ds ns where "mt_deliveries t' = ds @ ns" "list_all2 ack_only (mt_deliveries t) ds"
    using assms(1) by (auto simp: extends_def deliveries_grow_def)
  then show ?thesis
    using assms(2) list_all2_mem1 [of ack_only "mt_deliveries t" ds]
    by (fastforce simp: delivery_acked_def dest: ack_only_fields(9))
qed

lemma event_ok_mono: "event_ok x t q \<Longrightarrow> (\<And>w i. message_exists t w i \<Longrightarrow> message_exists t' w i) \<Longrightarrow> event_ok x t' q"
  by (auto simp: event_ok_def)

lemma ok_insert_message:
  assumes ok: "tables_ok x t" and ins: "insert_message r t = Inr t'" and "message_readable x r"
  shows "tables_ok x t'"
proof -
  have t': "t' = t\<lparr>mt_messages := mt_messages t @ [r]\<rparr>" and new: "\<not> message_exists t (mr_workspace_id r) (mr_message_id r)"
    using ins by (auto simp: insert_message_def split: if_splits)
  have "messages_ok t'"
    using ok new by (auto simp: t' tables_ok_defs message_exists_key message_key_def image_iff)
  moreover have "contexts_ok t'"
    using ok by (auto simp: t' tables_ok_defs intro: context_older_append)
  moreover have "events_ok x t'"
    using ok by (auto simp: t' tables_ok_defs message_exists_add intro: event_ok_mono)
  moreover have "acks_ok x t'"
    using ok by (auto simp: t' tables_ok_defs delivery_acked_def)
  ultimately show ?thesis
    using ok assms(3) by (auto simp: t' tables_ok_defs message_exists_add)
qed

lemma ok_insert_delivery:
  assumes ok: "tables_ok x t" and ins: "insert_delivery r t = Inr t'" and st: "delivery_readable x r"
  shows "tables_ok x t'"
proof -
  have t': "t' = t\<lparr>mt_deliveries := mt_deliveries t @ [r]\<rparr>"
    and new: "dr_delivery_id r \<notin> dr_delivery_id ` set (mt_deliveries t)"
      "message_exists t (dr_workspace_id r) (dr_message_id r)" "kind_column_ok (dr_recipient_kind r)"
    using ins by (auto simp: insert_delivery_def list_ex_iff split: if_splits)
  have "acks_ok x t'"
    using ok by (fastforce simp: t' tables_ok_defs delivery_acked_def)
  then show ?thesis using ok new st by (auto simp: t' tables_ok_defs intro: event_ok_mono)
qed

lemma ok_insert_context:
  assumes ok: "tables_ok x t" and ins: "insert_context r t = Inr t'" and ext: "extends t0 t"
    and old: "message_exists t0 (xr_workspace_id r) (xr_context_message_id r)"
    and new: "\<not> message_exists t0 (xr_workspace_id r) (xr_message_id r)"
  shows "tables_ok x t'"
proof -
  have t': "t' = t\<lparr>mt_contexts := mt_contexts t @ [r]\<rparr>"
    and ex: "message_exists t (xr_workspace_id r) (xr_message_id r)"
    using ins by (auto simp: insert_context_def split: if_splits)
  obtain ns where ns: "mt_messages t = mt_messages t0 @ ns" using ext by (auto simp: extends_def prefix_def)
  with ex new obtain m where m: "m \<in> set ns" "message_key m = (xr_workspace_id r, xr_message_id r)"
    by (auto simp: message_exists_key image_iff)
  from split_list [OF m(1)] obtain us vs where "ns = us @ m # vs" by blast
  then have "context_older (mt_messages t) r"
    unfolding context_older_def using ns m(2) old
    by (intro exI [of _ "mt_messages t0 @ us"] exI [of _ m] exI [of _ vs]) (auto simp: message_exists_key)
  then have "contexts_ok t'" using ok by (auto simp: t' tables_ok_defs)
  moreover have "acks_ok x t'" using ok by (auto simp: t' tables_ok_defs delivery_acked_def)
  ultimately show ?thesis using ok by (auto simp: t' tables_ok_defs intro: event_ok_mono)
qed

lemma ok_insert_idempotency:
  assumes ok: "tables_ok x t" and ins: "insert_idempotency r t = Inr t'"
  shows "tables_ok x t'"
proof -
  have t': "t' = t\<lparr>mt_idempotency := mt_idempotency t @ [r]\<rparr>"
    and new: "idempotency_key r \<notin> idempotency_key ` set (mt_idempotency t)"
      "message_exists t (ir_workspace_id r) (ir_message_id r)"
    using ins by (auto simp: insert_idempotency_def list_ex_iff split: if_splits)
  have "acks_ok x t'" using ok by (auto simp: t' tables_ok_defs delivery_acked_def)
  then show ?thesis using ok new by (auto simp: t' tables_ok_defs intro: event_ok_mono)
qed

lemma ok_insert_ack:
  assumes ok: "tables_ok x t" and ins: "insert_ack_operation r t = Inr t'"
    and acked: "\<And>a i. jc_from_value (me_ack_codec x) (ao_response r) = Some a \<Longrightarrow> i \<in> response_ids a \<Longrightarrow> delivery_acked t i"
  shows "tables_ok x t'"
proof -
  have t': "t' = t\<lparr>mt_ack_operations := mt_ack_operations t @ [r]\<rparr>"
    using ins by (auto simp: insert_ack_operation_def split: if_splits)
  have "acks_ok x t'" using ok acked by (auto simp: t' tables_ok_defs delivery_acked_def)
  then show ?thesis using ok by (auto simp: t' tables_ok_defs intro: event_ok_mono)
qed

lemma ok_insert_import:
  assumes ok: "tables_ok x t" and ins: "insert_import_operation r t = Inr t'"
  shows "tables_ok x t'"
proof -
  have t': "t' = t\<lparr>mt_import_operations := mt_import_operations t @ [r]\<rparr>"
    using ins by (auto simp: insert_import_operation_def split: if_splits)
  have "acks_ok x t'" using ok by (auto simp: t' tables_ok_defs delivery_acked_def)
  then show ?thesis using ok by (auto simp: t' tables_ok_defs intro: event_ok_mono)
qed

lemma ok_insert_outbox:
  assumes ok: "tables_ok x t" and ins: "insert_outbox x v t = Inr t'" and env: "message_env_ok x"
    and ex: "ev_action v = ''message.created'' \<longrightarrow> message_exists t (ev_workspace_id v) (er_id (ev_resource v))
      \<and> (\<forall>q \<in> set (mt_outbox t). \<not> created_for x (ev_workspace_id v) (er_id (ev_resource v)) q)"
  shows "tables_ok x t'"
proof -
  obtain j where j: "jc_to_value (me_envelope_codec x) v = Some j" "jc_from_value (me_envelope_codec x) j = Some v"
    using json_codec_okD [OF message_env_okD(4) [OF env]] by blast
  let ?r = "outbox_row_of x v j"
  have t': "t' = t\<lparr>mt_outbox := mt_outbox t @ [?r]\<rparr>"
    and r: "ox_event_id ?r \<notin> ox_event_id ` set (mt_outbox t)"
    using ins j(1) by (auto simp: insert_outbox_def outbox_row_of_def list_ex_iff split: if_splits)
  have "event_ok x t' ?r" using ex j r by (auto simp: event_ok_def outbox_row_of_def t')
  moreover have "length (filter (created_for x w i) (mt_outbox t')) \<le> 1" for w i
  proof (cases "created_for x w i ?r")
    case True
    then have "ev_action v = ''message.created''" "w = ev_workspace_id v" "i = er_id (ev_resource v)"
      using j(2) by (auto simp: created_for_def outbox_row_of_def)
    then have "filter (created_for x w i) (mt_outbox t) = []" using ex by (auto simp: filter_empty_conv)
    then show ?thesis using True by (simp add: t')
  next
    case False
    then show ?thesis using ok by (simp add: t' tables_ok_defs)
  qed
  ultimately have "events_ok x t'"
    using ok r by (auto simp: t' tables_ok_defs intro: event_ok_mono)
  moreover have "acks_ok x t'" using ok by (auto simp: t' tables_ok_defs delivery_acked_def)
  ultimately show ?thesis using ok by (simp add: t' tables_ok_defs)
qed

lemma ok_notify: "tables_ok x t \<Longrightarrow> tables_ok x (notify_changed t)"
  by (auto simp: notify_changed_def tables_ok_defs delivery_acked_def intro: event_ok_mono)

section \<open>Every operation extends the tables and keeps the invariant\<close>

definition grown :: "message_env \<Rightarrow> message_tables \<Rightarrow> message_tables \<Rightarrow> bool" where
  "grown x t u \<longleftrightarrow> tables_ok x u \<and> extends t u"

lemma is_none_or_map_range: "is_none_or (map_option f v) (\<lambda>s. s \<in> range f)"
  by (cases v) auto

lemma rows_readable:
  assumes "message_env_ok x"
  shows "source_value x (sm_external_source request) = Inr source
      \<Longrightarrow> message_readable x (send_row x now w i sender request source)"
    "delivery_readable x (send_delivery_row x now w i request di n recipient)"
    "message_readable x (legacy_row x m)" "delivery_readable x (legacy_delivery_row x m r)"
proof -
  have k: "kind_column_ok (message_kind_as_str k)" for k by (cases k) (simp_all add: kind_column_ok_def)
  have src: "is_none_or source (\<lambda>j. jc_from_value (me_source_codec x) j \<noteq> None)"
    if "source_value x v = Inr source" for v
    using that json_codec_okD [OF message_env_okD(3) [OF assms]]
    by (auto simp: source_value_def res_simps split: option.splits) (metis option.inject option.discI)
  show "source_value x (sm_external_source request) = Inr source
      \<Longrightarrow> message_readable x (send_row x now w i sender request source)"
    "delivery_readable x (send_delivery_row x now w i request di n recipient)"
    "message_readable x (legacy_row x m)" "delivery_readable x (legacy_delivery_row x m r)"
    by (simp_all add: message_readable_def delivery_readable_def send_row_def send_delivery_row_def legacy_row_def
        legacy_delivery_row_def is_none_or_map_range k src del: not_None_eq)
qed

lemma grown_insert:
  "grown x t0 t \<Longrightarrow> insert_message m t = Inr t' \<Longrightarrow> message_readable x m \<Longrightarrow> grown x t0 t'"
  "grown x t0 t \<Longrightarrow> insert_delivery d t = Inr t'
    \<Longrightarrow> \<not> message_exists t0 (dr_workspace_id d) (dr_message_id d)
    \<Longrightarrow> delivery_readable x d \<Longrightarrow> grown x t0 t'"
  "grown x t0 t \<Longrightarrow> insert_context c t = Inr t'
    \<Longrightarrow> message_exists t0 (xr_workspace_id c) (xr_context_message_id c)
    \<Longrightarrow> \<not> message_exists t0 (xr_workspace_id c) (xr_message_id c) \<Longrightarrow> grown x t0 t'"
  "grown x t0 t \<Longrightarrow> insert_idempotency k t = Inr t' \<Longrightarrow> grown x t0 t'"
  "grown x t0 t \<Longrightarrow> insert_import_operation q t = Inr t' \<Longrightarrow> grown x t0 t'"
  by (auto simp: grown_def intro: extends_inserts ok_insert_message ok_insert_delivery ok_insert_context
      ok_insert_idempotency ok_insert_import)

lemma grown_outbox:
  "grown x t0 t \<Longrightarrow> insert_outbox x v t = Inr t' \<Longrightarrow> message_env_ok x
    \<Longrightarrow> (ev_action v = ''message.created'' \<longrightarrow> message_exists t (ev_workspace_id v) (er_id (ev_resource v))
          \<and> (\<forall>q \<in> set (mt_outbox t). \<not> created_for x (ev_workspace_id v) (er_id (ev_resource v)) q))
    \<Longrightarrow> grown x t0 t'"
  by (auto simp: grown_def intro: extends_insert_outbox ok_insert_outbox)

lemma grown_notify: "grown x t0 t \<Longrightarrow> grown x t0 (notify_changed t)"
  by (simp add: grown_def ok_notify extends_notify)

lemma grown_deliveries:
  assumes "insert_deliveries x e w i request recipients t = Inr t'" "grown x t0 t" "\<not> message_exists t0 w i"
    "message_env_ok x"
  shows "grown x t0 t'"
  using assms(1,2) unfolding insert_deliveries_def
proof (rule try_fold_inv [where P = "grown x t0"])
  fix p u v
  assume "grown x t0 u" and ins: "(case p of (position, recipient) \<Rightarrow> insert_delivery
       (send_delivery_row x (ce_now e) w i request (new_delivery_id e position) position recipient)) u = Inr v"
  then show "grown x t0 v"
    using grown_insert(2) [of x t0 u _ v] assms(3) rows_readable(2) [OF assms(4)]
    by (cases p) (simp add: send_delivery_row_def)
qed

lemma grown_contexts:
  assumes "insert_contexts w i cs t = Inr t'" "grown x t0 t" "\<not> message_exists t0 w i"
    "\<And>c. c \<in> set cs \<Longrightarrow> message_exists t0 w c"
  shows "grown x t0 t'"
  using assms(1,2) unfolding insert_contexts_def
proof (rule try_fold_inv [where P = "grown x t0"])
  fix p :: "nat \<times> string" and u v
  obtain n c where nc: "p = (n, c)" by (cases p)
  assume p: "p \<in> set (List.enumerate 0 cs)" and "grown x t0 u" and "(case p of (position, context_id) \<Rightarrow>
      insert_context \<lparr>xr_message_id = i, xr_workspace_id = w, xr_context_message_id = context_id,
        xr_position = position\<rparr>) u = Inr v"
  moreover have "c \<in> set cs" using p by (auto simp: nc in_set_enumerate_eq)
  ultimately show "grown x t0 v"
    using grown_insert(3) [of x t0 u _ v] assms(3,4) by (simp add: nc)
qed

lemma add_deliveries_eq:
  "try_fold (\<lambda>a. insert_delivery (f a)) as t = Inr t' \<Longrightarrow> t' = t\<lparr>mt_deliveries := mt_deliveries t @ map f as\<rparr>"
proof (induction as arbitrary: t)
  case (Cons a as)
  then obtain u where "insert_delivery (f a) t = Inr u" "t' = u\<lparr>mt_deliveries := mt_deliveries u @ map f as\<rparr>"
    by (auto simp: res_simps)
  then show ?case by (auto simp: insert_delivery_def split: if_splits)
qed simp

lemma add_contexts_eq:
  "try_fold (\<lambda>a. insert_context (f a)) as t = Inr t' \<Longrightarrow> t' = t\<lparr>mt_contexts := mt_contexts t @ map f as\<rparr>"
proof (induction as arbitrary: t)
  case (Cons a as)
  then obtain u where "insert_context (f a) t = Inr u" "t' = u\<lparr>mt_contexts := mt_contexts u @ map f as\<rparr>"
    by (auto simp: res_simps)
  then show ?case by (auto simp: insert_context_def split: if_splits)
qed simp

lemma insert_deliveries_eq:
  assumes "insert_deliveries x e w i request recipients t = Inr t'"
  shows "t' = t\<lparr>mt_deliveries := mt_deliveries t @ map (\<lambda>p.
    send_delivery_row x (ce_now e) w i request (new_delivery_id e (fst p)) (fst p) (snd p)) (List.enumerate 0 recipients)\<rparr>"
  using assms unfolding insert_deliveries_def case_prod_unfold by (rule add_deliveries_eq)

lemma insert_contexts_eq:
  assumes "insert_contexts w i cs t = Inr t'"
  shows "t' = t\<lparr>mt_contexts := mt_contexts t @ map (\<lambda>p. \<lparr>xr_message_id = i, xr_workspace_id = w,
    xr_context_message_id = snd p, xr_position = fst p\<rparr>) (List.enumerate 0 cs)\<rparr>"
  using assms unfolding insert_contexts_def case_prod_unfold by (rule add_contexts_eq)

lemma insert_messages:
  "insert_message r t = Inr t' \<Longrightarrow> message_exists t' (mr_workspace_id r) (mr_message_id r)
     \<and> \<not> message_exists t (mr_workspace_id r) (mr_message_id r)"
  by (auto simp: insert_message_def message_exists_add message_key_def split: if_splits)

lemma visible_exists: "message_visible t w p i \<Longrightarrow> message_exists t w i"
  by (auto simp: message_visible_def message_exists_def list_ex_iff)

text \<open>The stages of a new message, as \<open>send_new\<close> runs them.\<close>

lemma send_newE:
  assumes "send_new x e w sender recipients request prev hash t = Inr (r, t')"
  obtains source t1 t2 t3 t4 t5 where
    "\<And>c. c \<in> set (sm_context_ids request) \<Longrightarrow> message_visible t w sender c"
    "source_value x (sm_external_source request) = Inr source"
    "insert_message (send_row x (ce_now e) w (new_message_id e) sender request source) t = Inr t1"
    "insert_deliveries x e w (new_message_id e) request recipients t1 = Inr t2"
    "insert_contexts w (new_message_id e) (sm_context_ids request) t2 = Inr t3"
    "insert_send_key x e w sender (sm_idempotency_key request) hash (new_message_id e) t3 = Inr t4"
    "insert_outbox x (created_event e w sender recipients request prev (new_message_id e)
       (map (new_delivery_id e) [0 ..< length recipients])) t4 = Inr t5"
    "load_message x t5 w (new_message_id e) = Inr (sr_message r)"
    "sr_delivery_ids r = map (new_delivery_id e) [0 ..< length recipients]" "\<not> sr_idempotent_replay r"
    "t' = notify_changed t5"
  using assms unfolding send_new_def Let_def
  by (auto simp: res_simps check_context_def split: if_splits)

lemma send_new_grown:
  assumes "send_new x e w sender recipients request prev hash t = Inr (r, t')" "tables_ok x t" "message_env_ok x"
  shows "grown x t t'"
  using assms(1)
proof (rule send_newE)
  fix source t1 t2 t3 t4 t5
  let ?i = "new_message_id e"
  assume vis: "\<And>c. c \<in> set (sm_context_ids request) \<Longrightarrow> message_visible t w sender c"
    and src: "source_value x (sm_external_source request) = Inr source"
    and 1: "insert_message (send_row x (ce_now e) w ?i sender request source) t = Inr t1"
    and 2: "insert_deliveries x e w ?i request recipients t1 = Inr t2"
    and 3: "insert_contexts w ?i (sm_context_ids request) t2 = Inr t3"
    and 4: "insert_send_key x e w sender (sm_idempotency_key request) hash ?i t3 = Inr t4"
    and 5: "insert_outbox x (created_event e w sender recipients request prev ?i
       (map (new_delivery_id e) [0 ..< length recipients])) t4 = Inr t5"
    and t': "t' = notify_changed t5"
  have ex: "message_exists t1 w ?i" and new: "\<not> message_exists t w ?i"
    using insert_messages [OF 1] by (simp_all add: send_row_def)
  have g1: "grown x t t1" using grown_insert(1) [of x t t, OF _ 1] assms(2) rows_readable(1) [OF assms(3) src]
    by (simp add: grown_def)
  have g2: "grown x t t2" by (rule grown_deliveries [OF 2 g1 new assms(3)])
  have g3: "grown x t t3"
    by (rule grown_contexts [OF 3 g2 new]) (auto intro: visible_exists vis)
  have g4: "grown x t t4"
    using 4 g3 by (auto simp: insert_send_key_def intro: grown_insert(4) split: option.splits)
  have t4: "mt_messages t4 = mt_messages t1" "mt_outbox t4 = mt_outbox t1"
    using 4 insert_contexts_eq [OF 3] insert_deliveries_eq [OF 2]
    by (auto simp: insert_send_key_def insert_idempotency_def split: option.splits if_splits)
  moreover have "mt_outbox t1 = mt_outbox t" using 1 by (auto simp: insert_message_def split: if_splits)
  moreover have "\<not> created_for x w ?i q" if "q \<in> set (mt_outbox t)" for q
  proof -
    have "event_ok x t q" using assms(2) that by (simp add: tables_ok_defs)
    then show ?thesis using new by (auto simp: event_ok_def created_for_def)
  qed
  moreover have "message_exists t4 w ?i" using ex t4(1) by (simp add: message_exists_def)
  ultimately have "grown x t t5"
    by (intro grown_outbox [OF g4 5 assms(3)]) (simp add: created_event_def)
  then show ?thesis by (simp add: t' grown_notify)
qed

lemma acked_set_acknowledged:
  "delivery_acked (set_acknowledged y now w i t) j \<longleftrightarrow>
   (\<exists>d \<in> set (mt_deliveries t). dr_delivery_id d = j
      \<and> (dr_acknowledged_at d \<noteq> None \<or> dr_workspace_id d = w \<and> dr_delivery_id d = i))"
  by (auto simp: delivery_acked_def set_acknowledged_def simp del: if_image_distrib split: if_splits)

lemma ok_set_acknowledged:
  assumes ok: "tables_ok x t"
  shows "tables_ok x (set_acknowledged x now w i t)"
proof -
  let ?t = "set_acknowledged x now w i t"
  have ids: "map dr_delivery_id (mt_deliveries ?t) = map dr_delivery_id (mt_deliveries t)"
    by (auto simp: set_acknowledged_def)
  have acked: "delivery_acked t j \<Longrightarrow> delivery_acked ?t j" for j
    unfolding acked_set_acknowledged by (auto simp: delivery_acked_def)
  have "deliveries_ok ?t"
    unfolding deliveries_ok_def ids using ok by (auto simp: set_acknowledged_def tables_ok_defs)
  moreover have "acks_ok x ?t"
    using ok acked by (fastforce simp: tables_ok_def acks_ok_def set_acknowledged_def)
  moreover have "readable x ?t"
    using ok by (auto simp: tables_ok_defs set_acknowledged_def delivery_readable_def)
  ultimately show ?thesis
    using ok by (auto simp: tables_ok_def messages_ok_def contexts_ok_def keys_ok_def events_ok_def
        set_acknowledged_def intro: event_ok_mono)
qed

lemma ack_oneE:
  assumes "ack_one x e w p request prev i (a, b, t) = Inr (a', b', t')"
  obtains (already) d where "find (owned_delivery w p (aq_app_endpoint request) i) (mt_deliveries t) = Some d"
      "dr_acknowledged_at d \<noteq> None" "a' = a" "b' = b @ [i]" "t' = t"
  | (fresh) d where "find (owned_delivery w p (aq_app_endpoint request) i) (mt_deliveries t) = Some d"
      "dr_acknowledged_at d = None" "a' = a @ [i]" "b' = b"
      "insert_outbox x (acknowledged_event e w p request prev (length a) i (dr_message_id d))
         (set_acknowledged x (ce_now e) w i t) = Inr t'"
  using assms by (auto simp: ack_one_def res_simps split: if_splits)

lemma owned_found:
  "find (owned_delivery w p ep i) ds = Some d
   \<Longrightarrow> d \<in> set ds \<and> dr_workspace_id d = w \<and> dr_delivery_id d = i \<and> owned_delivery w p ep i d"
  by (auto simp: find_Some_iff owned_delivery_def)

lemma unique_delivery:
  "tables_ok x t \<Longrightarrow> d \<in> set (mt_deliveries t) \<Longrightarrow> d' \<in> set (mt_deliveries t)
   \<Longrightarrow> dr_delivery_id d = dr_delivery_id d' \<Longrightarrow> d = d'"
  by (auto simp: tables_ok_defs distinct_map dest: inj_onD)

definition ack_progress :: "message_env \<Rightarrow> message_tables \<Rightarrow> ack_state \<Rightarrow> bool" where
  "ack_progress x t s \<longleftrightarrow> (case s of (a, b, u) \<Rightarrow>
     grown x t u \<and> (\<forall>i \<in> set a \<union> set b. delivery_acked u i))"

lemma ack_one_progress:
  assumes "ack_one x e w p request prev i s = Inr s'" "ack_progress x t s" "message_env_ok x"
  shows "ack_progress x t s'"
proof -
  obtain a b u where s: "s = (a, b, u)" by (cases s)
  obtain a' b' u' where s': "s' = (a', b', u')" by (cases s')
  have g: "grown x t u" and ok: "tables_ok x u" and acked: "\<And>j. j \<in> set a \<union> set b \<Longrightarrow> delivery_acked u j"
    using assms(2) by (auto simp: ack_progress_def s grown_def)
  from assms(1) [unfolded s s'] show ?thesis
  proof (cases rule: ack_oneE)
    case (already d)
    then have "delivery_acked u i" by (auto simp: delivery_acked_def dest: owned_found)
    then show ?thesis using already g acked by (auto simp: ack_progress_def s')
  next
    case (fresh d)
    note d = owned_found [OF fresh(1)]
    have ext: "extends u (set_acknowledged x (ce_now e) w i u)"
      using d fresh(2) unique_delivery [OF ok] by (intro extends_set_acknowledged) metis
    then have "grown x u (set_acknowledged x (ce_now e) w i u)"
      using ok_set_acknowledged [OF ok] by (simp add: grown_def)
    then have g1: "grown x u u'"
      by (rule grown_outbox [OF _ fresh(5) assms(3)]) (simp add: acknowledged_event_def)
    have "delivery_acked (set_acknowledged x (ce_now e) w i u) i"
      using d by (auto simp: acked_set_acknowledged)
    then have "delivery_acked u' i"
      using fresh(5) by (auto simp: insert_outbox_def res_simps delivery_acked_def split: if_splits)
    moreover have "delivery_acked u' j" if "j \<in> set a \<union> set b" for j
      using acked_extends g1 acked [OF that] by (auto simp: grown_def)
    moreover have "grown x t u'" using g g1 by (auto simp: grown_def intro: extends_trans)
    ultimately show ?thesis using fresh(3,4) by (auto simp: ack_progress_def s')
  qed
qed

lemma ack_loop_progress:
  "try_fold (ack_one x e w p request prev) is ([], [], t) = Inr s \<Longrightarrow> tables_ok x t \<Longrightarrow> message_env_ok x
   \<Longrightarrow> ack_progress x t s"
  by (erule try_fold_inv [where P = "ack_progress x t"])
    (auto simp: ack_progress_def [of x t "([], [], t)"] grown_def intro: ack_one_progress)

text \<open>A new acknowledgement, as the operation runs it.\<close>

lemma ack_newE:
  assumes "acknowledge_with_policy_revision x e w p request prev t = Inr (r, t')"
    and "find_ack_operation t w p (aq_operation_id request) = None"
  obtains u v t2 hash where
    "try_fold (ack_one x e w p request prev) (aq_delivery_ids request) ([], [], t)
       = Inr (as_acknowledged_delivery_ids r, as_already_acknowledged_delivery_ids r, u)"
    "jc_to_value (me_ack_codec x) r = Some v"
    "insert_ack_operation \<lparr>ao_workspace_id = w, ao_principal_kind = message_kind_as_str (mp_kind p),
       ao_principal_id = mp_id p, ao_operation_id = aq_operation_id request, ao_request_hash = hash,
       ao_response = v, ao_created_at = me_to_rfc3339 x (ce_now e)\<rparr> u = Inr t2"
    "t' = notify_changed t2" "validate_ack request = Inr ()"
  using assms by (auto simp: acknowledge_with_policy_revision_def res_simps Let_def)

lemma ack_grown:
  assumes "acknowledge_with_policy_revision x e w p request prev t = Inr (r, t')" "tables_ok x t" "message_env_ok x"
  shows "grown x t t' \<and> (\<forall>i \<in> response_ids r. delivery_acked t' i)"
proof (cases "find_ack_operation t w p (aq_operation_id request)")
  case (Some row)
  then have "row \<in> set (mt_ack_operations t)" by (auto simp: find_ack_operation_def find_Some_iff)
  with Some assms show ?thesis
    by (auto simp: acknowledge_with_policy_revision_def res_simps grown_def tables_ok_def acks_ok_def split: if_splits)
next
  case None
  obtain u v t2 hash where loop:
      "try_fold (ack_one x e w p request prev) (aq_delivery_ids request) ([], [], t)
         = Inr (as_acknowledged_delivery_ids r, as_already_acknowledged_delivery_ids r, u)"
    and v: "jc_to_value (me_ack_codec x) r = Some v"
    and ins: "insert_ack_operation \<lparr>ao_workspace_id = w, ao_principal_kind = message_kind_as_str (mp_kind p),
       ao_principal_id = mp_id p, ao_operation_id = aq_operation_id request, ao_request_hash = hash,
       ao_response = v, ao_created_at = me_to_rfc3339 x (ce_now e)\<rparr> u = Inr t2"
    and t': "t' = notify_changed t2" and "validate_ack request = Inr ()"
    by (rule ack_newE [OF assms(1) None])
  have pr: "grown x t u" "\<forall>i \<in> response_ids r. delivery_acked u i"
    using ack_loop_progress [OF loop assms(2,3)] by (auto simp: ack_progress_def response_ids_def)
  have "jc_from_value (me_ack_codec x) v = Some r"
    using json_codec_okD [OF message_env_okD(5) [OF assms(3)], of r] v by auto
  then have "tables_ok x t2"
    using pr by (intro ok_insert_ack [OF _ ins]) (auto simp: grown_def)
  then have "grown x t t'"
    using pr ins by (auto simp: grown_def t' intro: ok_notify extends_notify extends_insert_ack)
  moreover have "delivery_acked t' i" if "i \<in> response_ids r" for i
    using pr that ins by (auto simp: t' notify_changed_def delivery_acked_def insert_ack_operation_def split: if_splits)
  ultimately show ?thesis by blast
qed

lemma grown_trans: "grown x t u \<Longrightarrow> grown x u v \<Longrightarrow> grown x t v"
  by (auto simp: grown_def intro: extends_trans)

lemma grown_refl: "tables_ok x t \<Longrightarrow> grown x t t"
  by (simp add: grown_def)

lemma insert_legacy_grown:
  assumes "insert_legacy_message x m t = Inr t'" "tables_ok x t"
    "\<And>c. c \<in> set (lm_context_ids m) \<Longrightarrow> message_exists t (lm_workspace_id m) c"
    and env: "message_env_ok x"
  shows "grown x t t'"
proof -
  obtain t1 t2 where 1: "insert_message (legacy_row x m) t = Inr t1"
    and 2: "try_fold (\<lambda>r. insert_delivery (legacy_delivery_row x m r)) (lm_recipients m) t1 = Inr t2"
    and 3: "insert_contexts (lm_workspace_id m) (lm_message_id m) (lm_context_ids m) t2 = Inr t'"
    using assms(1) by (auto simp: insert_legacy_message_def res_simps)
  have new: "\<not> message_exists t (lm_workspace_id m) (lm_message_id m)"
    using insert_messages [OF 1] by (simp add: legacy_row_def)
  have "grown x t t1" using grown_insert(1) [OF grown_refl [OF assms(2)] 1] by (simp add: rows_readable(3) [OF env])
  with 2 have "grown x t t2"
  proof (rule try_fold_inv [where P = "grown x t"])
    fix r u v assume "grown x t u" "insert_delivery (legacy_delivery_row x m r) u = Inr v"
    then show "grown x t v"
      using grown_insert(2) [of x t u "legacy_delivery_row x m r" v] new rows_readable(4) [OF env]
      by (simp add: legacy_delivery_row_def)
  qed
  from grown_contexts [OF 3 this new] show ?thesis using assms(3) by blast
qed

lemma import_oneE:
  assumes "import_one x w m s = Inr s'"
  obtains (existing) "message_exists (ist_tables s) w (lm_message_id m)"
      "legacy_message_matches x (ist_tables s) m = Inr True" "ist_tables s' = ist_tables s"
      "ist_imported s' = ist_imported s" "ist_existing s' = Suc (ist_existing s)"
  | (new) "\<not> message_exists (ist_tables s) w (lm_message_id m)"
      "\<And>c. c \<in> set (lm_context_ids m) \<Longrightarrow> message_exists (ist_tables s) w c"
      "insert_legacy_message x m (ist_tables s) = Inr (ist_tables s')"
      "ist_imported s' = Suc (ist_imported s)" "ist_existing s' = ist_existing s"
  using assms by (auto simp: import_one_def Let_def res_simps check_import_context_def split: if_splits)

lemma import_loop_grown:
  assumes "try_fold (import_one x w) ms s = Inr s'" "tables_ok x (ist_tables s)"
    "\<And>m. m \<in> set ms \<Longrightarrow> lm_workspace_id m = w"
    and env: "message_env_ok x"
  shows "grown x (ist_tables s) (ist_tables s')"
  using assms(1)
proof (rule try_fold_inv [where P = "\<lambda>u. grown x (ist_tables s) (ist_tables u)"])
  fix m u v
  assume m: "m \<in> set ms" and g: "grown x (ist_tables s) (ist_tables u)" and one: "import_one x w m u = Inr v"
  from one show "grown x (ist_tables s) (ist_tables v)"
  proof (cases rule: import_oneE)
    case new
    have "grown x (ist_tables u) (ist_tables v)"
      using insert_legacy_grown [OF new(3) _ _ env] g new(2) assms(3) [OF m] by (auto simp: grown_def)
    with g show ?thesis by (rule grown_trans)
  qed (use g in simp)
qed (simp add: grown_refl assms(2))

lemma import_newE:
  assumes "import_legacy_mail x e w importer request t = Inr (r, t')"
    and "find_import_operation t w (im_operation_id request) = None"
  obtains s row t1 t2 where "validate_import w request = Inr ()"
    "try_fold (import_one x w) (im_messages request)
       \<lparr>ist_imported = 0, ist_existing = 0, ist_seen = [], ist_message_ids = [], ist_tables = t\<rparr> = Inr s"
    "insert_import_operation row (ist_tables s) = Inr t1"
    "insert_outbox x (imported_event e w importer (im_operation_id request) r) t1 = Inr t2"
    "t' = notify_changed t2" "is_imported r = ist_imported s" "is_existing r = ist_existing s"
  using assms by (auto simp: import_legacy_mail_def res_simps Let_def)

lemma import_grown:
  assumes "import_legacy_mail x e w importer request t = Inr (r, t')" "tables_ok x t" "message_env_ok x"
  shows "grown x t t'"
proof (cases "find_import_operation t w (im_operation_id request)")
  case (Some row)
  with assms show ?thesis
    by (auto simp: import_legacy_mail_def res_simps grown_refl split: if_splits)
next
  case None
  show ?thesis using assms(1) None
  proof (rule import_newE)
    fix s row t1 t2
    assume val: "validate_import w request = Inr ()"
      and loop: "try_fold (import_one x w) (im_messages request)
       \<lparr>ist_imported = 0, ist_existing = 0, ist_seen = [], ist_message_ids = [], ist_tables = t\<rparr> = Inr s"
      and row: "insert_import_operation row (ist_tables s) = Inr t1"
      and ev: "insert_outbox x (imported_event e w importer (im_operation_id request) r) t1 = Inr t2"
      and t': "t' = notify_changed t2"
    have "\<And>m. m \<in> set (im_messages request) \<Longrightarrow> lm_workspace_id m = w"
      using val by (auto simp: validate_import_def list_ex_iff split: if_splits)
    with import_loop_grown [OF loop _ _ assms(3)] assms(2) have "grown x t (ist_tables s)" by simp
    then have "grown x t t1" by (rule grown_insert(5) [OF _ row])
    then have "grown x t t2" by (rule grown_outbox [OF _ ev assms(3)]) (simp add: imported_event_def)
    then show ?thesis by (simp add: t' grown_notify)
  qed
qed

lemma ok_set_dispatched: "tables_ok x t \<Longrightarrow> tables_ok x (set_dispatched y now i t)"
proof -
  assume ok: "tables_ok x t"
  let ?t = "set_dispatched y now i t"
  have "map ox_event_id (mt_outbox ?t) = map ox_event_id (mt_outbox t)"
    by (auto simp: set_dispatched_def)
  moreover have "event_ok x ?t q" if "q \<in> set (mt_outbox ?t)" for q
  proof -
    from that obtain r where "r \<in> set (mt_outbox t)" "ox_envelope q = ox_envelope r" "ox_event_id q = ox_event_id r"
      by (auto simp: set_dispatched_def simp del: if_image_distrib split: if_splits)
    moreover have "event_ok x t r" if "r \<in> set (mt_outbox t)" for r
      using ok that by (simp add: tables_ok_defs)
    ultimately show ?thesis by (auto simp: event_ok_def set_dispatched_def)
  qed
  moreover have "length (filter (created_for x w i) (mt_outbox ?t)) = length (filter (created_for x w i) (mt_outbox t))" for w i
    by (auto simp: set_dispatched_def filter_map comp_def created_for_def intro!: arg_cong [where f = length] filter_cong)
  ultimately have "events_ok x ?t" using ok by (simp add: tables_ok_def events_ok_def)
  moreover have "acks_ok x ?t" using ok by (auto simp: set_dispatched_def tables_ok_defs delivery_acked_def)
  ultimately show ?thesis using ok by (simp add: tables_ok_defs set_dispatched_def)
qed

lemma dispatch_grown:
  "dispatch_loop x publish now rows n t = (Inr (k, t'), ps) \<Longrightarrow> tables_ok y t \<Longrightarrow> grown y t t'"
proof (induction rows arbitrary: n t ps)
  case (Cons row rows)
  show ?case
  proof (cases "\<exists>v. jc_from_value (me_envelope_codec x) (ox_envelope row) = Some v \<and> publish v")
    case True
    with Cons.prems obtain ps' where
      "dispatch_loop x publish now rows (Suc n) (set_dispatched x now (ox_event_id row) t) = (Inr (k, t'), ps')"
      by (auto split: prod.splits)
    from Cons.IH [OF this ok_set_dispatched [OF Cons.prems(2)]]
    show ?thesis by (auto simp: grown_def intro: extends_trans [OF extends_set_dispatched])
  qed (use Cons.prems in \<open>auto simp: grown_refl split: option.splits if_splits\<close>)
qed (simp add: grown_refl)

lemma send_grown:
  assumes "send_with_policy_revision x e w sender recipients request prev t = Inr (r, t')"
    "tables_ok x t" "message_env_ok x"
  shows "grown x t t'"
  using assms send_new_grown
  by (auto simp: send_with_policy_revision_def send_replay_def res_simps grown_refl split: option.splits if_splits)

lemma message_step_grown: "message_step x t t' \<Longrightarrow> tables_ok x t \<Longrightarrow> message_env_ok x \<Longrightarrow> grown x t t'"
  by (erule message_step.cases)
    (auto simp: dispatch_pending_def dest: send_grown ack_grown import_grown dispatch_grown)

definition store_inv :: "message_env \<Rightarrow> message_tables \<Rightarrow> bool" where
  "store_inv x t \<longleftrightarrow> message_env_ok x \<and> tables_ok x t"

definition store_init :: "message_env \<Rightarrow> message_tables \<Rightarrow> bool" where
  "store_init x t \<longleftrightarrow> message_env_ok x \<and> t = message_open"

interpretation store: growing_system "store_init x" "message_step x" "store_inv x" extends for x
proof
  show "store_inv x t" if "store_init x t" for t
    using that by (simp add: store_inv_def store_init_def message_open_def tables_ok_defs)
qed (auto simp: store_inv_def grown_def intro: extends_trans dest: message_step_grown)

section \<open>What stays readable\<close>

definition clear_ack :: "delivery_row \<Rightarrow> delivery_row" where
  "clear_ack d = d\<lparr>dr_acknowledged_at := None\<rparr>"

lemma clear_ack_fields [simp]:
  "dr_delivery_id (clear_ack d) = dr_delivery_id d" "dr_message_id (clear_ack d) = dr_message_id d"
  "dr_workspace_id (clear_ack d) = dr_workspace_id d" "dr_position (clear_ack d) = dr_position d"
  "recipient_from_row (clear_ack d) = recipient_from_row d"
  by (simp_all add: clear_ack_def recipient_from_row_def)

lemma ack_only_clear: "ack_only d d' \<Longrightarrow> clear_ack d' = clear_ack d"
  by (auto simp: ack_only_def clear_ack_def)

lemma message_deliveries_extends:
  assumes "extends t t'" "message_exists t w i"
  shows "map clear_ack (message_deliveries t' w i) = map clear_ack (message_deliveries t w i)"
proof -
  let ?P = "\<lambda>d. dr_workspace_id d = w \<and> dr_message_id d = i"
  obtain ds ns where d: "mt_deliveries t' = ds @ ns" "list_all2 ack_only (mt_deliveries t) ds"
    "\<forall>d \<in> set ns. \<not> message_exists t (dr_workspace_id d) (dr_message_id d)"
    using assms(1) by (auto simp: extends_def deliveries_grow_def)
  have "filter ?P ns = []" using d(3) assms(2) by (auto simp: filter_empty_conv)
  moreover have "map clear_ack (filter ?P ds) = map clear_ack (filter ?P (mt_deliveries t))"
    using d(2) by (induction rule: list_all2_induct) (auto dest: ack_only_clear ack_only_fields)
  ultimately show ?thesis
    by (simp add: message_deliveries_def map_sort_key d(1))
qed

lemma try_map_map: "try_map f (map g xs) = try_map (f \<circ> g) xs"
  by (induction xs) auto

lemma try_map_cong: "(\<And>a. a \<in> set xs \<Longrightarrow> f a = g a) \<Longrightarrow> try_map f xs = try_map g xs"
  by (induction xs) auto

lemma recipients_clear: "try_map recipient_from_row (map clear_ack ds) = try_map recipient_from_row ds"
  by (simp add: try_map_map cong: try_map_cong)

lemma delivery_ids_extends:
  "extends t t' \<Longrightarrow> message_exists t w i \<Longrightarrow> delivery_ids t' w i = delivery_ids t w i"
  using arg_cong [OF message_deliveries_extends, of t t' w i "map dr_delivery_id"]
  by (simp add: delivery_ids_def comp_def)

lemma find_message_extends:
  assumes "extends t t'" "message_exists t w i"
  shows "find_message t' w i = find_message t w i"
proof -
  obtain ns where ns: "mt_messages t' = mt_messages t @ ns" using assms(1) by (auto simp: extends_def prefix_def)
  have "find P (xs @ ys) = find P xs" if "list_ex P xs" for P and xs ys :: "message_row list"
    using that by (induction xs) auto
  with assms(2) show ?thesis by (simp add: find_message_def ns message_exists_def)
qed

lemma message_contexts_extends:
  "extends t t' \<Longrightarrow> message_exists t w i \<Longrightarrow> message_contexts t' w i = message_contexts t w i"
  by (auto simp: extends_def contexts_grow_def message_contexts_def filter_empty_conv intro!: arg_cong [where f = "sort_key xr_position"])

lemma load_message_extends:
  assumes "extends t t'" "message_exists t w i"
  shows "load_message x t' w i = load_message x t w i"
proof -
  have "try_map recipient_from_row (message_deliveries t' w i) = try_map recipient_from_row (message_deliveries t w i)"
    using message_deliveries_extends [OF assms] recipients_clear by metis
  then show ?thesis
    by (simp add: load_message_def find_message_extends [OF assms] message_contexts_extends [OF assms])
qed

lemma load_messageE:
  assumes "load_message x t w i = Inr m"
  obtains row where "row \<in> set (mt_messages t)" "mr_workspace_id row = w" "mr_message_id row = i"
    "principal_from_columns (mr_sender_kind row) (mr_sender_id row) (mr_sender_name row)
       (mr_sender_role row) (mr_sender_path row) (mr_sender_endpoint row) = Inr (cm_sender m)"
    "try_map recipient_from_row (message_deliveries t w i) = Inr (cm_recipients m)"
    "parse_timestamp x (mr_created_at row) = Inr (cm_created_at m)"
    "cm_workspace_id m = w" "cm_message_id m = i"
  using assms by (auto simp: load_message_def res_simps find_message_def dest!: find_mem)

section \<open>Sending once per idempotency key\<close>

definition recorded ::
  "message_env \<Rightarrow> string \<Rightarrow> message_principal \<Rightarrow> string \<Rightarrow> string \<Rightarrow> send_message_response \<Rightarrow> message_tables \<Rightarrow> bool" where
  "recorded x w sender key hash r t \<longleftrightarrow> (\<exists>row \<in> set (mt_idempotency t).
     idempotency_key row = (w, message_kind_as_str (mp_kind sender), mp_id sender, key)
     \<and> ir_request_hash row = hash \<and> load_message x t w (ir_message_id row) = Inr (sr_message r)
     \<and> delivery_ids t w (ir_message_id row) = sr_delivery_ids r)"

lemma find_distinct:
  "distinct (map f xs) \<Longrightarrow> a \<in> set xs \<Longrightarrow> find (\<lambda>b. f b = f a) xs = Some a"
  by (induction xs) auto

lemma recorded_extends:
  assumes "recorded x w sender key hash r t" "extends t t'" "tables_ok x t"
  shows "recorded x w sender key hash r t'"
proof -
  obtain row where row: "row \<in> set (mt_idempotency t)"
    "idempotency_key row = (w, message_kind_as_str (mp_kind sender), mp_id sender, key)"
    "ir_request_hash row = hash" "load_message x t w (ir_message_id row) = Inr (sr_message r)"
    "delivery_ids t w (ir_message_id row) = sr_delivery_ids r"
    using assms(1) by (auto simp: recorded_def)
  have "message_exists t w (ir_message_id row)"
    using row(1,2) assms(3) by (auto simp: tables_ok_defs idempotency_key_def)
  moreover have "row \<in> set (mt_idempotency t')" using row(1) assms(2) by (auto simp: extends_def prefix_def)
  ultimately show ?thesis
    using row load_message_extends [OF assms(2)] delivery_ids_extends [OF assms(2)]
    by (auto simp: recorded_def)
qed

lemma sort_key_sorted: "sorted (map k xs) \<Longrightarrow> sort_key k xs = xs"
  by (simp add: sorted_sort_id sort_key_id_if_sorted)

lemma send_new_recorded:
  assumes "send_new x e w sender recipients request prev hash t = Inr (r, t')" "tables_ok x t"
    "sm_idempotency_key request = Some key"
  shows "recorded x w sender key hash r t'"
  using assms(1)
proof (rule send_newE)
  fix source t1 t2 t3 t4 t5
  let ?i = "new_message_id e" and ?row = "\<lambda>p. send_delivery_row x (ce_now e) w (new_message_id e) request (new_delivery_id e (fst p)) (fst p) (snd p)"
  assume 1: "insert_message (send_row x (ce_now e) w ?i sender request source) t = Inr t1"
    and 2: "insert_deliveries x e w ?i request recipients t1 = Inr t2"
    and 3: "insert_contexts w ?i (sm_context_ids request) t2 = Inr t3"
    and 4: "insert_send_key x e w sender (sm_idempotency_key request) hash ?i t3 = Inr t4"
    and 5: "insert_outbox x (created_event e w sender recipients request prev ?i
       (map (new_delivery_id e) [0 ..< length recipients])) t4 = Inr t5"
    and l: "load_message x t5 w ?i = Inr (sr_message r)"
    and ids: "sr_delivery_ids r = map (new_delivery_id e) [0 ..< length recipients]"
    and t': "t' = notify_changed t5"
  obtain key_row where k: "mt_idempotency t4 = mt_idempotency t3 @ [key_row]" "mt_deliveries t4 = mt_deliveries t3"
    and kr: "idempotency_key key_row = (w, message_kind_as_str (mp_kind sender), mp_id sender, key)"
      "ir_request_hash key_row = hash" "ir_message_id key_row = ?i"
    using 4 assms(3) by (auto simp: insert_send_key_def insert_idempotency_def idempotency_key_def split: if_splits)
  have t5: "mt_idempotency t5 = mt_idempotency t4" "mt_deliveries t5 = mt_deliveries t4"
    using 5 by (auto simp: insert_outbox_def res_simps split: if_splits)
  have del: "mt_deliveries t5 = mt_deliveries t @ map ?row (List.enumerate 0 recipients)"
    using t5(2) k(2) insert_contexts_eq [OF 3] insert_deliveries_eq [OF 2] 1
    by (auto simp: insert_message_def split: if_splits)
  have new: "\<not> message_exists t w ?i" using insert_messages [OF 1] by (simp add: send_row_def)
  then have "filter (\<lambda>d. dr_workspace_id d = w \<and> dr_message_id d = ?i) (mt_deliveries t) = []"
    using assms(2) by (auto simp: tables_ok_defs filter_empty_conv)
  moreover have "filter (\<lambda>d. dr_workspace_id d = w \<and> dr_message_id d = ?i) (map ?row (List.enumerate 0 recipients))
      = map ?row (List.enumerate 0 recipients)"
    by (auto simp: filter_id_conv send_delivery_row_def)
  moreover have "sorted (map dr_position (map ?row (List.enumerate 0 recipients)))"
    using sorted_enumerate [of 0 recipients] by (simp add: comp_def send_delivery_row_def)
  ultimately have "message_deliveries t5 w ?i = map ?row (List.enumerate 0 recipients)"
    by (simp add: message_deliveries_def del sort_key_sorted)
  then have "delivery_ids t5 w ?i = map (new_delivery_id e) (map fst (List.enumerate 0 recipients))"
    by (simp add: delivery_ids_def comp_def send_delivery_row_def del: map_fst_enumerate)
  then have "delivery_ids t' w ?i = sr_delivery_ids r"
    by (simp add: ids t' delivery_ids_def message_deliveries_def notify_changed_def)
  moreover have "load_message x t' w ?i = Inr (sr_message r)"
    using l by (simp add: t' load_message_def find_message_def message_deliveries_def message_contexts_def notify_changed_def)
  moreover have "key_row \<in> set (mt_idempotency t')"
    using k(1) t5(1) by (simp add: t' notify_changed_def)
  ultimately show ?thesis unfolding recorded_def using kr by (intro bexI [of _ key_row]) simp_all
qed

lemma reach_store: "reach (store_init x) (message_step x) t \<Longrightarrow> tables_ok x t \<and> message_env_ok x"
  using store.reach_inv [of x t] by (auto simp: store_inv_def)

lemma history_store:
  "(message_step x)\<^sup>*\<^sup>* t t' \<Longrightarrow> tables_ok x t \<Longrightarrow> message_env_ok x \<Longrightarrow> tables_ok x t' \<and> extends t t'"
  using store.history_ext [of x t t'] by (auto simp: store_inv_def)

lemma find_recorded:
  assumes "tables_ok x t" "recorded x w sender key hash r t"
  obtains row where "find_idempotency t w sender key = Some row" "ir_request_hash row = hash"
    "load_message x t w (ir_message_id row) = Inr (sr_message r)" "delivery_ids t w (ir_message_id row) = sr_delivery_ids r"
proof -
  obtain row where row: "row \<in> set (mt_idempotency t)"
    "idempotency_key row = (w, message_kind_as_str (mp_kind sender), mp_id sender, key)"
    "ir_request_hash row = hash" "load_message x t w (ir_message_id row) = Inr (sr_message r)"
    "delivery_ids t w (ir_message_id row) = sr_delivery_ids r"
    using assms(2) by (auto simp: recorded_def)
  have "find_idempotency t w sender key = Some row"
    using find_distinct [of idempotency_key "mt_idempotency t" row] row(1,2) assms(1)
    by (simp add: find_idempotency_def tables_ok_defs)
  with that row(3-) show thesis by blast
qed

lemma send_recorded:
  assumes "send_with_policy_revision x e w sender recipients request prev t = Inr (r, t')" "tables_ok x t"
    "sm_idempotency_key request = Some key"
    "request_hash x (me_send_bytes x (send_fingerprint_of sender recipients request)) = Inr hash"
  shows "recorded x w sender key hash r t'"
proof (cases "find_idempotency t w sender key")
  case None
  with assms(1,3,4) have "send_new x e w sender recipients request prev hash t = Inr (r, t')"
    by (auto simp: send_with_policy_revision_def res_simps)
  from send_new_recorded [OF this assms(2,3)] show ?thesis .
next
  case (Some row)
  then have "row \<in> set (mt_idempotency t)"
    "idempotency_key row = (w, message_kind_as_str (mp_kind sender), mp_id sender, key)"
    by (auto simp: find_idempotency_def find_Some_iff)
  with Some assms(1,3,4) show ?thesis
    by (auto simp: send_with_policy_revision_def send_replay_def recorded_def res_simps split: if_splits)
qed

text \<open>What a later send with the same key and sender does, by whatever name and for whatever request.\<close>

lemma send_retry:
  assumes "reach (store_init x) (message_step x) t"
    and first: "send_with_policy_revision x e w sender recipients request prev t = Inr (r, t1)"
    and key: "sm_idempotency_key request = Some key"
    and hash: "request_hash x (me_send_bytes x (send_fingerprint_of sender recipients request)) = Inr hash"
    and later: "(message_step x)\<^sup>*\<^sup>* t1 t2"
    and retry: "mp_kind sender' = mp_kind sender" "mp_id sender' = mp_id sender" "sm_idempotency_key request' = Some key"
  shows "send_with_policy_revision x e' w sender' recipients' request' prev' t2 =
    and_then (validate_workspace_and_principal w sender') (\<lambda>_.
    and_then (validate_send (ce_check_now e') recipients' request') (\<lambda>_.
    and_then (request_hash x (me_send_bytes x (send_fingerprint_of sender' recipients' request'))) (\<lambda>hash'.
      if hash' = hash then Inr (r\<lparr>sr_idempotent_replay := True\<rparr>, t2)
      else Inl (Contract ''message_idempotency_conflict''
        ''idempotency key was already used for a different message''))))"
proof -
  have ok: "tables_ok x t" "message_env_ok x" using reach_store [OF assms(1)] by auto
  have ok1: "tables_ok x t1" using send_grown [OF first ok] by (simp add: grown_def)
  have ok2: "tables_ok x t2" and ext: "extends t1 t2" using history_store [OF later ok1 ok(2)] by auto
  have rec1: "recorded x w sender key hash r t1" by (rule send_recorded [OF first ok(1) key hash])
  have "recorded x w sender' key hash r t2"
    using recorded_extends [OF rec1 ext ok1] retry(1,2) by (simp add: recorded_def)
  then obtain row where "find_idempotency t2 w sender' key = Some row" "ir_request_hash row = hash"
    "load_message x t2 w (ir_message_id row) = Inr (sr_message r)"
    "delivery_ids t2 w (ir_message_id row) = sr_delivery_ids r"
    using find_recorded [OF ok2] by metis
  moreover from this have "send_replay x w h row t2 = (if h = hash then Inr (r\<lparr>sr_idempotent_replay := True\<rparr>, t2)
      else Inl (Contract ''message_idempotency_conflict'' ''idempotency key was already used for a different message''))" for h
    by (auto simp: send_replay_def)
  ultimately show ?thesis using retry(3) by (simp add: send_with_policy_revision_def)
qed

text \<open>
  C15: A send runs once per idempotency key.  In every reachable state, when a send with a key has
  succeeded, then after any later history every send by the same principal with the same key (by
  whatever display name, to whatever resolved recipients, for whatever request) leaves the tables as
  they are.  It is validated like any send and the error of that is returned; if it is valid and has
  the same fingerprint it returns the same message and delivery identifiers, marked as a replay, and
  otherwise it is refused as an idempotency conflict.
\<close>

theorem send_runs_once:
  assumes "reach (store_init x) (message_step x) t"
    and "send_with_policy_revision x e w sender recipients request prev t = Inr (r, t1)"
    and "sm_idempotency_key request = Some key"
    and "request_hash x (me_send_bytes x (send_fingerprint_of sender recipients request)) = Inr hash"
    and "(message_step x)\<^sup>*\<^sup>* t1 t2"
    and "mp_kind sender' = mp_kind sender" "mp_id sender' = mp_id sender" "sm_idempotency_key request' = Some key"
  shows "send_with_policy_revision x e' w sender' recipients' request' prev' t2 =
    and_then (validate_workspace_and_principal w sender') (\<lambda>_.
    and_then (validate_send (ce_check_now e') recipients' request') (\<lambda>_.
    and_then (request_hash x (me_send_bytes x (send_fingerprint_of sender' recipients' request'))) (\<lambda>hash'.
      if hash' = hash then Inr (r\<lparr>sr_idempotent_replay := True\<rparr>, t2)
      else Inl (Contract ''message_idempotency_conflict''
        ''idempotency key was already used for a different message''))))"
  using assms by (rule send_retry)

text \<open>Of the validation of a request only the expiry depends on the time.\<close>

lemma validate_send_later:
  assumes "validate_send now recipients request = Inr ()"
  shows "validate_send now' recipients request =
    (if is_some_and (sm_expires_at request) (\<lambda>d. d \<le> now')
     then Inl (Contract ''message_expiry_invalid'' ''message expiry must be in the future'') else Inr ())"
  using assms by (auto simp: validate_send_def res_simps split: if_splits)

text \<open>
  C16: Repeating an accepted request unchanged, with its key, returns the original identifiers and
  changes nothing as long as the expiry of the message is in the future.  From then on the very same
  request is refused as invalid, because the expiry is checked before the key is looked up, although
  the documentation promises the original identifiers to an identical request.
\<close>

theorem identical_retry_until_expiry:
  assumes "reach (store_init x) (message_step x) t"
    and first: "send_with_policy_revision x e w sender recipients request prev t = Inr (r, t1)"
    and key: "sm_idempotency_key request = Some key"
    and later: "(message_step x)\<^sup>*\<^sup>* t1 t2"
  shows "send_with_policy_revision x e' w sender recipients request prev' t2 =
    (if is_some_and (sm_expires_at request) (\<lambda>d. d \<le> ce_check_now e')
     then Inl (Contract ''message_expiry_invalid'' ''message expiry must be in the future'')
     else Inr (r\<lparr>sr_idempotent_replay := True\<rparr>, t2))"
proof -
  from first obtain hash where ok: "validate_workspace_and_principal w sender = Inr ()"
    "validate_send (ce_check_now e) recipients request = Inr ()"
    "request_hash x (me_send_bytes x (send_fingerprint_of sender recipients request)) = Inr hash"
    by (auto simp: send_with_policy_revision_def res_simps)
  show ?thesis
    unfolding send_retry [OF assms(1) first key ok(3) later refl refl key] using ok validate_send_later [OF ok(2)] by simp
qed

section \<open>Acknowledgement\<close>

lemma received_pending:
  assumes "receive_now x e w p limit after t = Inr r" "d \<in> set (rr_deliveries r)"
  shows "\<exists>row \<in> set (mt_deliveries t). pending_for x (ce_now e) w p row \<and> md_delivery_id d = dr_delivery_id row"
proof -
  obtain ds where ds: "rr_deliveries r = ds" "try_map (\<lambda>r. and_then (load_message x t w (dr_message_id r)) (delivery_from_row x r))
       (receive_rows x (ce_now e) t w p limit after) = Inr ds"
    using assms(1) by (auto simp: receive_now_def res_simps)
  then obtain row where "row \<in> set (receive_rows x (ce_now e) t w p limit after)"
    "and_then (load_message x t w (dr_message_id row)) (delivery_from_row x row) = Inr d"
    using assms(2) list_all2_mem2 [OF ds(2) [unfolded try_map_Inr]] by auto
  then show ?thesis
    by (auto simp: receive_rows_def delivery_from_row_def res_simps dest!: in_set_takeD)
qed

text \<open>
  C17: An acknowledged delivery is never delivered again.  In every reachable state, once an
  acknowledgement has reported a delivery (as acknowledged now or already before, also when the
  report is the stored answer to a retried operation), no receive in any later state, by whatever
  principal and endpoint and from whatever cursor, returns that delivery.
\<close>

theorem acknowledged_never_redelivered:
  assumes "reach (store_init x) (message_step x) t"
    and ack: "acknowledge_with_policy_revision x e w p request prev t = Inr (r, t1)"
    and i: "i \<in> set (as_acknowledged_delivery_ids r) \<union> set (as_already_acknowledged_delivery_ids r)"
    and later: "(message_step x)\<^sup>*\<^sup>* t1 t2"
    and got: "receive_now x e' w' p' limit after t2 = Inr out"
  shows "i \<notin> md_delivery_id ` set (rr_deliveries out)"
proof -
  have ok: "tables_ok x t" "message_env_ok x" using reach_store [OF assms(1)] by auto
  have "grown x t t1" and acked: "delivery_acked t1 i"
    using ack_grown [OF ack ok] i by (auto simp: response_ids_def)
  then have "tables_ok x t2" "extends t1 t2"
    using history_store [OF later _ ok(2)] by (auto simp: grown_def)
  then have ok2: "tables_ok x t2" and acked2: "delivery_acked t2 i" using acked_extends acked by auto
  show ?thesis
  proof
    assume "i \<in> md_delivery_id ` set (rr_deliveries out)"
    then obtain row where "row \<in> set (mt_deliveries t2)" "pending_for x (ce_now e') w' p' row" "dr_delivery_id row = i"
      using received_pending [OF got] by force
    with acked2 show False
      by (auto simp: delivery_acked_def pending_for_def dest: unique_delivery [OF ok2])
  qed
qed

definition acked_in :: "message_tables \<Rightarrow> string \<Rightarrow> bool" where
  "acked_in t i = list_ex (\<lambda>d. dr_delivery_id d = i \<and> dr_acknowledged_at d \<noteq> None) (mt_deliveries t)"

definition mark_acked :: "string \<Rightarrow> string list \<Rightarrow> delivery_row \<Rightarrow> delivery_row" where
  "mark_acked now is d = (if dr_delivery_id d \<in> set is then d\<lparr>dr_acknowledged_at := Some now\<rparr> else d)"

definition event_subject :: "message_env \<Rightarrow> outbox_row \<Rightarrow> (string \<times> string) option" where
  "event_subject x q = map_option (\<lambda>v. (ev_action v, er_id (ev_resource v))) (jc_from_value (me_envelope_codec x) (ox_envelope q))"

text \<open>What the loop has done after the identifiers \<open>is\<close>, relative to the tables \<open>t\<close> it started from.\<close>

definition ack_done ::
  "message_env \<Rightarrow> call_env \<Rightarrow> string \<Rightarrow> message_principal \<Rightarrow> string option \<Rightarrow> message_tables \<Rightarrow> string list \<Rightarrow> ack_state \<Rightarrow> bool" where
  "ack_done x e w p ep t is s \<longleftrightarrow> (case s of (a, b, u) \<Rightarrow>
     a = filter (\<lambda>i. \<not> acked_in t i) is \<and> b = filter (acked_in t) is
     \<and> mt_deliveries u = map (mark_acked (me_to_rfc3339 x (ce_now e)) a) (mt_deliveries t)
     \<and> (\<forall>i \<in> set is. \<exists>d \<in> set (mt_deliveries t). owned_delivery w p ep i d)
     \<and> (\<exists>rows. mt_outbox u = mt_outbox t @ rows
          \<and> map (event_subject x) rows = map (\<lambda>i. Some (''message.acknowledged'', i)) a)
     \<and> mt_messages u = mt_messages t \<and> mt_contexts u = mt_contexts t \<and> mt_idempotency u = mt_idempotency t)"

lemma mark_acked_fields [simp]:
  "dr_delivery_id (mark_acked now is d) = dr_delivery_id d" "dr_workspace_id (mark_acked now is d) = dr_workspace_id d"
  "owned_delivery w p ep i (mark_acked now is d) = owned_delivery w p ep i d"
  by (simp_all add: mark_acked_def owned_delivery_def)

lemma acked_in_unique:
  "tables_ok x t \<Longrightarrow> d \<in> set (mt_deliveries t) \<Longrightarrow> acked_in t (dr_delivery_id d) \<longleftrightarrow> dr_acknowledged_at d \<noteq> None"
  by (auto simp: acked_in_def list_ex_iff dest: unique_delivery)

lemma ack_one_done:
  assumes ok: "tables_ok x t" and env: "message_env_ok x" and i: "i \<notin> set is"
    and done_is: "ack_done x e w p (aq_app_endpoint request) t is s"
    and one: "ack_one x e w p request prev i s = Inr s'"
  shows "ack_done x e w p (aq_app_endpoint request) t (is @ [i]) s'"
proof -
  obtain a b u where s: "s = (a, b, u)" by (cases s)
  obtain a' b' u' where s': "s' = (a', b', u')" by (cases s')
  let ?now = "me_to_rfc3339 x (ce_now e)" and ?ep = "aq_app_endpoint request"
  have a: "a = filter (\<lambda>i. \<not> acked_in t i) is" "b = filter (acked_in t) is"
    and del: "mt_deliveries u = map (mark_acked ?now a) (mt_deliveries t)"
    and own: "\<forall>i \<in> set is. \<exists>d \<in> set (mt_deliveries t). owned_delivery w p ?ep i d"
    and u: "mt_messages u = mt_messages t" "mt_contexts u = mt_contexts t" "mt_idempotency u = mt_idempotency t"
    using done_is by (auto simp: ack_done_def s)
  obtain rows where rows: "mt_outbox u = mt_outbox t @ rows"
    "map (event_subject x) rows = map (\<lambda>i. Some (''message.acknowledged'', i)) a"
    using done_is by (auto simp: ack_done_def s)
  have found: "d \<in> set (mt_deliveries t) \<and> owned_delivery w p ?ep i d \<and> dr_workspace_id d = w \<and> dr_delivery_id d = i"
    if "find (owned_delivery w p ?ep i) (mt_deliveries u) = Some d" for d
  proof -
    have "d \<in> mark_acked ?now a ` set (mt_deliveries t)" and d: "owned_delivery w p ?ep i d"
      using owned_found [OF that] by (simp_all add: del)
    then obtain c where c: "c \<in> set (mt_deliveries t)" "d = mark_acked ?now a c" by blast
    then have "dr_delivery_id c = i" using d by (simp add: owned_delivery_def)
    then have "d = c" using c(2) i by (simp add: mark_acked_def a)
    then show ?thesis using c(1) d by (simp add: owned_delivery_def)
  qed
  from one [unfolded s s'] show ?thesis
  proof (cases rule: ack_oneE)
    case (already d)
    note d = found [OF already(1)]
    then have "acked_in t i" using acked_in_unique [OF ok, of d] already(2) by auto
    with already d a del own u rows show ?thesis by (auto simp: ack_done_def s')
  next
    case (fresh d)
    note d = found [OF fresh(1)]
    have na: "\<not> acked_in t i" using acked_in_unique [OF ok, of d] d fresh(2) by auto
    obtain j where j: "jc_to_value (me_envelope_codec x) (acknowledged_event e w p request prev (length a) i (dr_message_id d)) = Some j"
      "jc_from_value (me_envelope_codec x) j = Some (acknowledged_event e w p request prev (length a) i (dr_message_id d))"
      using json_codec_okD [OF message_env_okD(4) [OF env]] by blast
    let ?row = "outbox_row_of x (acknowledged_event e w p request prev (length a) i (dr_message_id d)) j"
    have u': "u' = (set_acknowledged x (ce_now e) w i u)\<lparr>mt_outbox := mt_outbox u @ [?row]\<rparr>"
      using fresh(5) j(1) by (auto simp: insert_outbox_def set_acknowledged_def split: if_splits)
    have "event_subject x ?row = Some (''message.acknowledged'', i)"
      using j(2) by (simp add: event_subject_def outbox_row_of_def acknowledged_event_def)
    then have sub: "map (event_subject x) (rows @ [?row]) = map (\<lambda>i. Some (''message.acknowledged'', i)) (a @ [i])"
      using rows(2) by simp
    have "mt_deliveries u' = map (mark_acked ?now (a @ [i])) (mt_deliveries t)"
      unfolding u' using unique_delivery [OF ok] d i a
      by (auto simp: set_acknowledged_def del mark_acked_def) 
    moreover have "mt_messages u' = mt_messages t" "mt_contexts u' = mt_contexts t" "mt_idempotency u' = mt_idempotency t"
      using u by (simp_all add: u' set_acknowledged_def)
    moreover have "mt_outbox u' = mt_outbox t @ (rows @ [?row])" by (simp add: u' rows(1))
    ultimately show ?thesis
      using fresh(3,4) na a own d sub unfolding ack_done_def s' by auto
  qed
qed

lemma ack_loop_done:
  assumes "tables_ok x t" "message_env_ok x"
  shows "try_fold (ack_one x e w p request prev) is ([], [], t) = Inr s \<Longrightarrow> distinct is
    \<Longrightarrow> ack_done x e w p (aq_app_endpoint request) t is s"
proof (induction "is" arbitrary: s rule: rev_induct)
  case Nil
  have "map (mark_acked now []) ds = ds" for now ds by (induction ds) (auto simp: mark_acked_def)
  then show ?case using Nil by (auto simp: ack_done_def)
next
  case (snoc i "is")
  then show ?case using ack_one_done [OF assms] by (auto simp: try_fold_append res_simps)
qed

text \<open>
  C18: An acknowledgement is exact and atomic.  A new acknowledgement operation that succeeds lists
  every requested delivery once, as already acknowledged or as acknowledged now according to the
  state before; all of them are deliveries to the caller, in the endpoint it names; exactly the
  newly acknowledged rows change, and only in their acknowledgement time; one event per newly
  acknowledged delivery is appended to the outbox in the same transaction, in order.
\<close>

theorem acknowledge_exact:
  assumes "reach (store_init x) (message_step x) t"
    and ack: "acknowledge_with_policy_revision x e w p request prev t = Inr (r, t')"
    and fresh: "find_ack_operation t w p (aq_operation_id request) = None"
  shows "as_acknowledged_delivery_ids r = filter (\<lambda>i. \<not> acked_in t i) (aq_delivery_ids request)
    \<and> as_already_acknowledged_delivery_ids r = filter (acked_in t) (aq_delivery_ids request)
    \<and> (\<forall>i \<in> set (aq_delivery_ids request). \<exists>d \<in> set (mt_deliveries t).
         owned_delivery w p (aq_app_endpoint request) i d)
    \<and> mt_deliveries t' = map (mark_acked (me_to_rfc3339 x (ce_now e)) (as_acknowledged_delivery_ids r)) (mt_deliveries t)
    \<and> (\<exists>rows. mt_outbox t' = mt_outbox t @ rows
         \<and> map (event_subject x) rows = map (\<lambda>i. Some (''message.acknowledged'', i)) (as_acknowledged_delivery_ids r))
    \<and> mt_messages t' = mt_messages t \<and> mt_contexts t' = mt_contexts t \<and> mt_idempotency t' = mt_idempotency t"
proof -
  have ok: "tables_ok x t" "message_env_ok x" using reach_store [OF assms(1)] by auto
  show ?thesis using ack fresh
  proof (rule ack_newE)
    fix u v t2 hash
    assume loop: "try_fold (ack_one x e w p request prev) (aq_delivery_ids request) ([], [], t)
         = Inr (as_acknowledged_delivery_ids r, as_already_acknowledged_delivery_ids r, u)"
      and ins: "insert_ack_operation \<lparr>ao_workspace_id = w, ao_principal_kind = message_kind_as_str (mp_kind p),
         ao_principal_id = mp_id p, ao_operation_id = aq_operation_id request, ao_request_hash = hash,
         ao_response = v, ao_created_at = me_to_rfc3339 x (ce_now e)\<rparr> u = Inr t2"
      and t': "t' = notify_changed t2" and val: "validate_ack request = Inr ()"
    have "distinct (aq_delivery_ids request)" using val by (auto simp: validate_ack_def split: if_splits)
    from ack_loop_done [OF ok loop this]
    have d: "ack_done x e w p (aq_app_endpoint request) t (aq_delivery_ids request)
        (as_acknowledged_delivery_ids r, as_already_acknowledged_delivery_ids r, u)" .
    have eq: "mt_deliveries t' = mt_deliveries u" "mt_outbox t' = mt_outbox u" "mt_messages t' = mt_messages u"
      "mt_contexts t' = mt_contexts u" "mt_idempotency t' = mt_idempotency u"
      using ins by (auto simp: t' notify_changed_def insert_ack_operation_def split: if_splits)
    show ?thesis using d unfolding ack_done_def prod.case eq by blast
  qed
qed

section \<open>Contexts\<close>

definition context_graph :: "message_tables \<Rightarrow> ((string \<times> string) \<times> (string \<times> string)) set" where
  "context_graph t = (\<lambda>c. ((xr_workspace_id c, xr_context_message_id c), (xr_workspace_id c, xr_message_id c)))
     ` set (mt_contexts t)"

definition message_rank :: "message_row list \<Rightarrow> string \<times> string \<Rightarrow> nat" where
  "message_rank ms k = length (takeWhile (\<lambda>m. message_key m \<noteq> k) ms)"

lemma rank_earlier:
  assumes "distinct (map message_key (us @ m # vs))" "k \<in> message_key ` set us"
  shows "message_rank (us @ m # vs) k < message_rank (us @ m # vs) (message_key m)"
proof -
  obtain u where u: "u \<in> set us" "message_key u = k" using assms(2) by blast
  have "length (takeWhile (\<lambda>a. message_key a \<noteq> k) us) < length us"
    using u by (induction us) auto
  then have "message_rank (us @ m # vs) k < length us"
    using u by (auto simp: message_rank_def takeWhile_append1)
  moreover have "message_rank (us @ m # vs) (message_key m) = length us"
  proof -
    have "\<forall>u \<in> set us. message_key u \<noteq> message_key m" using assms(1) by (auto simp: image_iff)
    then show ?thesis by (simp add: message_rank_def takeWhile_append2)
  qed
  ultimately show ?thesis by simp
qed

text \<open>
  C22: The context graph is acyclic.  In every reachable state, messages sent or imported in any
  interleaving, every context of a message is a stored message of the same workspace, and following
  contexts never returns to where it started, so any walk through earlier messages ends.
\<close>

theorem context_graph_acyclic:
  assumes "reach (store_init x) (message_step x) t"
  shows "acyclic (context_graph t)
    \<and> (\<forall>(c, m) \<in> context_graph t. fst c = fst m
        \<and> message_exists t (fst c) (snd c) \<and> message_exists t (fst m) (snd m))"
proof -
  have ok: "tables_ok x t" using reach_store [OF assms] by simp
  have older: "context_older (mt_messages t) c" if "c \<in> set (mt_contexts t)" for c
    using ok that by (simp add: tables_ok_defs)
  have "context_graph t \<subseteq> measure (message_rank (mt_messages t))"
  proof
    fix p assume "p \<in> context_graph t"
    then obtain c where c: "c \<in> set (mt_contexts t)"
      "p = ((xr_workspace_id c, xr_context_message_id c), (xr_workspace_id c, xr_message_id c))"
      by (auto simp: context_graph_def)
    from older [OF c(1)] obtain us m vs where "mt_messages t = us @ m # vs"
      "message_key m = (xr_workspace_id c, xr_message_id c)"
      "(xr_workspace_id c, xr_context_message_id c) \<in> message_key ` set us"
      by (auto simp: context_older_def)
    moreover from this(1) have "distinct (map message_key (us @ m # vs))" using ok by (simp add: tables_ok_defs)
    ultimately show "p \<in> measure (message_rank (mt_messages t))"
      using rank_earlier [of us m vs] by (auto simp: c(2))
  qed
  then have "acyclic (context_graph t)" by (meson acyclic_subset wf_acyclic wf_measure)
  moreover have "message_exists t (xr_workspace_id c) (xr_context_message_id c)
      \<and> message_exists t (xr_workspace_id c) (xr_message_id c)" if "c \<in> set (mt_contexts t)" for c
    using older [OF that] by (force simp: context_older_def message_exists_key)
  ultimately show ?thesis by (auto simp: context_graph_def)
qed

end
