(* ===== verification/Message_Outbox.thy ===== *)
theory Message_Outbox
  imports Message_History
begin

text \<open>
  The transactional outbox: every message that was sent has exactly one creation event, a dispatch
  publishes pending events in order and marks exactly those the event bus confirmed, and repeated
  dispatches drain the outbox.
\<close>

section \<open>One event per message\<close>

lemma outbox_extends_created:
  assumes "extends t t'" "q \<in> set (mt_outbox t)" "created_for x w i q"
  shows "\<exists>q' \<in> set (mt_outbox t'). created_for x w i q'"
proof -
  obtain os ns where "mt_outbox t' = os @ ns" "list_all2 dispatch_only (mt_outbox t) os"
    using assms(1) by (auto simp: extends_def outbox_grow_def)
  with list_all2_mem1 [OF this(2) assms(2)] obtain q' where "q' \<in> set (mt_outbox t')" "dispatch_only q q'" by auto
  with assms(3) show ?thesis by (intro bexI [of _ q']) (auto simp: dispatch_only_def created_for_def)
qed

lemma send_new_event:
  assumes "send_new x e w sender recipients request prev hash t = Inr (r, t')" "message_env_ok x"
  shows "\<exists>q \<in> set (mt_outbox t'). created_for x w (cm_message_id (sr_message r)) q"
  using assms(1)
proof (rule send_newE)
  fix source t1 t2 t3 t4 t5
  let ?i = "new_message_id e"
  let ?v = "created_event e w sender recipients request prev ?i (map (new_delivery_id e) [0 ..< length recipients])"
  assume ins: "insert_outbox x ?v t4 = Inr t5" and l: "load_message x t5 w ?i = Inr (sr_message r)"
    and t': "t' = notify_changed t5"
  obtain j where j: "jc_to_value (me_envelope_codec x) ?v = Some j" "jc_from_value (me_envelope_codec x) j = Some ?v"
    using json_codec_okD [OF message_env_okD(4) [OF assms(2)]] by blast
  have "outbox_row_of x ?v j \<in> set (mt_outbox t')"
    using ins j(1) by (auto simp: insert_outbox_def t' notify_changed_def split: if_splits)
  moreover have "cm_message_id (sr_message r) = ?i"
    using l by (rule load_messageE)
  moreover have "created_for x w ?i (outbox_row_of x ?v j)"
    using j(2) by (simp add: created_for_def outbox_row_of_def created_event_def)
  ultimately show ?thesis by (intro bexI [of _ "outbox_row_of x ?v j"]) simp_all
qed

text \<open>
  C20: Every sent message is announced exactly once.  When a send has created a message, then in the
  state after it and after any later history the outbox holds exactly one creation event for that
  message: it is written in the transaction of the message itself, retries add none, and no
  operation removes or rewrites it.
\<close>

theorem created_event_exactly_once:
  assumes "reach (store_init x) (message_step x) t"
    and send: "send_with_policy_revision x e w sender recipients request prev t = Inr (r, t1)"
    and new: "\<not> sr_idempotent_replay r"
    and later: "(message_step x)\<^sup>*\<^sup>* t1 t2"
  shows "length (filter (created_for x w (cm_message_id (sr_message r))) (mt_outbox t2)) = 1"
proof -
  have ok: "tables_ok x t" "message_env_ok x" using reach_store [OF assms(1)] by auto
  have ok1: "tables_ok x t1" using send_grown [OF send ok] by (simp add: grown_def)
  have ok2: "tables_ok x t2" and ext: "extends t1 t2" using history_store [OF later ok1 ok(2)] by auto
  obtain hash where "send_new x e w sender recipients request prev hash t = Inr (r, t1)"
    using send new by (auto simp: send_with_policy_revision_def send_replay_def res_simps split: option.splits if_splits)
  then obtain q where "q \<in> set (mt_outbox t1)" "created_for x w (cm_message_id (sr_message r)) q"
    using send_new_event ok(2) by blast
  then have "\<exists>q \<in> set (mt_outbox t2). created_for x w (cm_message_id (sr_message r)) q"
    using outbox_extends_created [OF ext] by blast
  then have "filter (created_for x w (cm_message_id (sr_message r))) (mt_outbox t2) \<noteq> []"
    by (auto simp: filter_empty_conv)
  moreover have "length (filter (created_for x w (cm_message_id (sr_message r))) (mt_outbox t2)) \<le> 1"
    using ok2 by (simp add: tables_ok_defs)
  ultimately show ?thesis by (metis One_nat_def le_antisym length_greater_0_conv Suc_leI)
qed

section \<open>Dispatch\<close>

definition envelope_of :: "message_env \<Rightarrow> outbox_row \<Rightarrow> domain_event_envelope" where
  "envelope_of x q = the (jc_from_value (me_envelope_codec x) (ox_envelope q))"

definition mark_dispatched :: "string \<Rightarrow> string set \<Rightarrow> outbox_row \<Rightarrow> outbox_row" where
  "mark_dispatched now ids q =
     (if ox_event_id q \<in> ids then q\<lparr>ox_dispatched_at := Some now, ox_attempts := Suc (ox_attempts q)\<rparr> else q)"

lemma set_dispatched_mark:
  "i \<notin> ids \<Longrightarrow> mt_outbox (set_dispatched x now i (t\<lparr>mt_outbox := map (mark_dispatched (me_to_rfc3339 x now) ids) os\<rparr>))
     = map (mark_dispatched (me_to_rfc3339 x now) (insert i ids)) os"
  by (auto simp: set_dispatched_def mark_dispatched_def)

lemma dispatch_loop_exact:
  assumes "\<And>q. q \<in> set rows \<Longrightarrow> jc_from_value (me_envelope_codec x) (ox_envelope q) \<noteq> None"
    and "distinct (map ox_event_id rows)" "ids \<inter> ox_event_id ` set rows = {}"
    and "done_rows = takeWhile (\<lambda>q. publish (envelope_of x q)) rows"
  shows "dispatch_loop x publish now rows n (t\<lparr>mt_outbox := map (mark_dispatched (me_to_rfc3339 x now) ids) os\<rparr>)
    = (Inr (n + length done_rows, t\<lparr>mt_outbox :=
         map (mark_dispatched (me_to_rfc3339 x now) (ids \<union> ox_event_id ` set done_rows)) os\<rparr>),
       map (envelope_of x) done_rows)"
  using assms
proof (induction rows arbitrary: n ids done_rows)
  case (Cons q rows)
  obtain v where v: "jc_from_value (me_envelope_codec x) (ox_envelope q) = Some v" using Cons.prems(1) by auto
  then have e: "envelope_of x q = v" by (simp add: envelope_of_def)
  show ?case
  proof (cases "publish v")
    case True
    have eq: "set_dispatched x now (ox_event_id q) (t\<lparr>mt_outbox := map (mark_dispatched (me_to_rfc3339 x now) ids) os\<rparr>)
        = t\<lparr>mt_outbox := map (mark_dispatched (me_to_rfc3339 x now) (insert (ox_event_id q) ids)) os\<rparr>"
      using Cons.prems(3) set_dispatched_mark [where i = "ox_event_id q" and ids = ids and x = x and now = now and os = os and t = t]
      by (simp add: set_dispatched_def)
    have "insert (ox_event_id q) ids \<inter> ox_event_id ` set rows = {}" using Cons.prems(2,3) by auto
    note IH = Cons.IH [of "insert (ox_event_id q) ids" "takeWhile (\<lambda>q. publish (envelope_of x q)) rows" "Suc n", OF _ _ this refl]
    show ?thesis using Cons.prems True v e IH by (simp add: eq)
  qed (use Cons.prems v e in simp)
qed simp

lemma mark_dispatched_none [simp]: "map (mark_dispatched now {}) os = os"
  by (induction os) (auto simp: mark_dispatched_def)

lemma pending_rows_ok:
  assumes "tables_ok x t"
  shows "set (pending_rows x locked t) \<subseteq> {q \<in> set (mt_outbox t). ox_dispatched_at q = None \<and> ox_event_id q \<notin> locked}"
    "distinct (map ox_event_id (pending_rows x locked t))"
proof -
  show "set (pending_rows x locked t) \<subseteq> {q \<in> set (mt_outbox t). ox_dispatched_at q = None \<and> ox_event_id q \<notin> locked}"
    by (auto simp: pending_rows_def dest!: in_set_takeD)
  have "distinct (map ox_event_id (mt_outbox t))" using assms by (simp add: tables_ok_defs)
  then show "distinct (map ox_event_id (pending_rows x locked t))"
    unfolding pending_rows_def take_map [symmetric]
    by (intro distinct_take) (auto simp: distinct_map intro: inj_on_subset)
qed

lemma dispatch_rows:
  assumes "reach (store_init x) (message_step x) t"
    and "rows = takeWhile (\<lambda>q. publish (envelope_of x q)) (pending_rows x locked t)"
  shows "dispatch_pending x locked publish now t =
      (Inr (length rows, t\<lparr>mt_outbox :=
         map (mark_dispatched (me_to_rfc3339 x now) (ox_event_id ` set rows)) (mt_outbox t)\<rparr>),
       map (envelope_of x) rows)
    \<and> length rows \<le> 100"
proof -
  have ok: "tables_ok x t" using reach_store [OF assms(1)] by simp
  have dec: "jc_from_value (me_envelope_codec x) (ox_envelope q) \<noteq> None" if "q \<in> set (pending_rows x locked t)" for q
  proof -
    have "q \<in> set (mt_outbox t)" using pending_rows_ok(1) [OF ok] that by blast
    then have "event_ok x t q" using ok by (simp add: tables_ok_defs)
    then show ?thesis by (auto simp: event_ok_def)
  qed
  from dispatch_loop_exact [where x = x and rows = "pending_rows x locked t" and ids = "{}" and done_rows = rows
      and publish = publish and now = now and n = 0 and t = t and os = "mt_outbox t",
      OF dec pending_rows_ok(2) [OF ok]] assms(2)
  have "dispatch_pending x locked publish now t =
      (Inr (length rows, t\<lparr>mt_outbox := map (mark_dispatched (me_to_rfc3339 x now) (ox_event_id ` set rows)) (mt_outbox t)\<rparr>),
       map (envelope_of x) rows)"
    by (simp add: dispatch_pending_def)
  moreover have "length rows \<le> length (pending_rows x locked t)" by (simp add: assms(2) length_takeWhile_le)
  moreover have "length (pending_rows x locked t) \<le> 100" by (simp add: pending_rows_def OUTBOX_BATCH_SIZE_def)
  ultimately show ?thesis by simp
qed

text \<open>
  A dispatch publishes in order and records exactly what was confirmed.  In every reachable
  state, whatever rows other dispatchers have locked and whatever the event bus answers, a dispatch
  succeeds; it publishes the oldest unlocked pending events one by one up to the first refusal, at
  most 100, reports their number, marks exactly these rows as dispatched with one more attempt and
  changes nothing else.
\<close>

theorem dispatch_exact:
  assumes "reach (store_init x) (message_step x) t"
    and "rows = takeWhile (\<lambda>q. publish (envelope_of x q)) (pending_rows x locked t)"
  shows "dispatch_pending x locked publish now t =
      (Inr (length rows, t\<lparr>mt_outbox :=
         map (mark_dispatched (me_to_rfc3339 x now) (ox_event_id ` set rows)) (mt_outbox t)\<rparr>),
       map (envelope_of x) rows)
    \<and> length rows \<le> 100"
  using assms by (rule dispatch_rows)

definition event_sort_key :: "message_env \<Rightarrow> outbox_row \<Rightarrow> string \<times> string" where
  "event_sort_key x r = (me_collation_key x (ox_created_at r), me_collation_key x (ox_event_id r))"

definition undispatched :: "message_env \<Rightarrow> message_tables \<Rightarrow> outbox_row list" where
  "undispatched x t = sort_key (event_sort_key x) (filter (\<lambda>r. ox_dispatched_at r = None) (mt_outbox t))"

fun dispatch_times ::
  "message_env \<Rightarrow> datetime \<Rightarrow> nat \<Rightarrow> message_tables \<Rightarrow> message_tables msg_res \<times> domain_event_envelope list" where
  "dispatch_times x now 0 t = (Inr t, [])"
| "dispatch_times x now (Suc n) t =
     (case dispatch_pending x {} (\<lambda>_. True) now t of
        (Inl e, ps) \<Rightarrow> (Inl e, ps)
      | (Inr (_, t1), ps) \<Rightarrow> (case dispatch_times x now n t1 of (r, qs) \<Rightarrow> (r, ps @ qs)))"

lemma pending_rows_all: "pending_rows x {} t = take 100 (undispatched x t)"
  by (simp add: pending_rows_def undispatched_def event_sort_key_def [abs_def] OUTBOX_BATCH_SIZE_def)

lemma undispatched_marked:
  assumes "distinct (map ox_event_id (mt_outbox t))"
  shows "undispatched x (t\<lparr>mt_outbox := map (mark_dispatched now (ox_event_id ` set (take n (undispatched x t)))) (mt_outbox t)\<rparr>)
    = drop n (undispatched x t)"
proof -
  let ?u = "undispatched x t" let ?ids = "ox_event_id ` set (take n ?u)"
  have "filter (\<lambda>r. ox_dispatched_at r = None) (map (mark_dispatched now ids) os)
      = filter (\<lambda>r. ox_event_id r \<notin> ids) (filter (\<lambda>r. ox_dispatched_at r = None) os)" for ids os
    by (induction os) (auto simp: mark_dispatched_def)
  then have "undispatched x (t\<lparr>mt_outbox := map (mark_dispatched now ?ids) (mt_outbox t)\<rparr>)
      = filter (\<lambda>r. ox_event_id r \<notin> ?ids) ?u"
    by (simp add: undispatched_def filter_sort)
  moreover have "distinct (map ox_event_id ?u)"
    using assms by (auto simp: undispatched_def distinct_map intro: inj_on_subset)
  then have d: "distinct (map ox_event_id (take n ?u @ drop n ?u))" by simp
  have "filter (\<lambda>r. ox_event_id r \<notin> ?ids) (take n ?u @ drop n ?u) = drop n ?u"
    using d unfolding map_append distinct_append set_map filter_append
    by (auto simp: filter_empty_conv filter_id_conv)
  ultimately show ?thesis by simp
qed

text \<open>
  C21: The outbox drains.  In every reachable state, while the event bus accepts events and no other
  dispatcher interferes, as many dispatches as there are hundreds of pending events (rounded up)
  publish every pending event exactly once, in the order of creation time and identifier, and leave
  none pending.
\<close>

theorem outbox_drains:
  assumes "reach (store_init x) (message_step x) t" "length (undispatched x t) \<le> 100 * n"
  shows "\<exists>t'. dispatch_times x now n t = (Inr t', map (envelope_of x) (undispatched x t)) \<and> undispatched x t' = []"
  using assms
proof (induction n arbitrary: t)
  case (Suc n)
  let ?rows = "take 100 (undispatched x t)"
  let ?t1 = "t\<lparr>mt_outbox := map (mark_dispatched (me_to_rfc3339 x now) (ox_event_id ` set ?rows)) (mt_outbox t)\<rparr>"
  have tw: "takeWhile (\<lambda>q. True) qs = qs" for qs :: "outbox_row list" by (induction qs) auto
  have one: "dispatch_pending x {} (\<lambda>_. True) now t = (Inr (length ?rows, ?t1), map (envelope_of x) ?rows)"
    using dispatch_rows [OF Suc.prems(1), of ?rows "\<lambda>_. True" "{}"] by (simp add: pending_rows_all tw)
  then have "message_step x t ?t1" by (rule step_dispatch)
  then have reach: "reach (store_init x) (message_step x) ?t1" by (rule reach_step [OF Suc.prems(1)])
  have "distinct (map ox_event_id (mt_outbox t))" using reach_store [OF Suc.prems(1)] by (simp add: tables_ok_defs)
  from undispatched_marked [OF this] have un: "undispatched x ?t1 = drop 100 (undispatched x t)" .
  moreover have "length (drop 100 (undispatched x t)) \<le> 100 * n" using Suc.prems(2) by simp
  ultimately obtain t' where "dispatch_times x now n ?t1 = (Inr t', map (envelope_of x) (drop 100 (undispatched x t)))"
    "undispatched x t' = []"
    using Suc.IH [OF reach] by auto
  then show ?case using one by (simp add: map_append [symmetric] del: map_append)
qed simp

end
