(* ===== verification/Message_Reads.thy ===== *)
theory Message_Reads
  imports Message_History
begin

text \<open>
  Reading the message store: a principal only ever reads messages it sent or received, and paging
  with cursors covers everything once.  Both scans (an inbox oldest first, a conversation newest
  first) are instances of one contract, \<open>keyset_pages\<close>: a page is the first rows after a key in a
  list sorted by keys.
\<close>

section \<open>Visibility\<close>

definition same_principal :: "message_principal \<Rightarrow> message_principal \<Rightarrow> bool" where
  "same_principal p q \<longleftrightarrow> mp_kind p = mp_kind q \<and> mp_id p = mp_id q"

definition party :: "message_principal \<Rightarrow> core_message \<Rightarrow> bool" where
  "party p m \<longleftrightarrow> same_principal p (cm_sender m) \<or> (\<exists>q \<in> set (cm_recipients m). same_principal p q)"

lemma parse_kind_as_str [simp]: "parse_kind (message_kind_as_str k) = Inr k"
  by (cases k) (simp_all add: parse_kind_def)

lemma columns_same:
  "principal_from_columns (message_kind_as_str (mp_kind p)) (mp_id p) n r pa e = Inr q \<Longrightarrow> same_principal p q"
  by (auto simp: principal_from_columns_def same_principal_def)

lemma unique_message:
  "tables_ok x t \<Longrightarrow> m \<in> set (mt_messages t) \<Longrightarrow> m' \<in> set (mt_messages t) \<Longrightarrow> message_key m = message_key m' \<Longrightarrow> m = m'"
  by (auto simp: tables_ok_defs distinct_map dest: inj_onD)

lemma recipient_party:
  assumes "load_message x t w i = Inr m" "d \<in> set (mt_deliveries t)" "dr_workspace_id d = w" "dr_message_id d = i"
    "dr_recipient_kind d = message_kind_as_str (mp_kind p)" "dr_recipient_id d = mp_id p"
  shows "party p m"
proof -
  have "try_map recipient_from_row (message_deliveries t w i) = Inr (cm_recipients m)"
    using assms(1) by (rule load_messageE)
  then have l: "list_all2 (\<lambda>d q. recipient_from_row d = Inr q) (message_deliveries t w i) (cm_recipients m)"
    by (simp add: try_map_Inr)
  have "d \<in> set (message_deliveries t w i)" using assms(2-4) by (simp add: message_deliveries_def)
  from list_all2_mem1 [OF l this] obtain q where "q \<in> set (cm_recipients m)" "recipient_from_row d = Inr q"
    by blast
  then show ?thesis using assms(5,6) by (auto simp: party_def recipient_from_row_def dest: columns_same)
qed

lemma sender_party:
  assumes "tables_ok x t" "load_message x t w i = Inr m" "r \<in> set (mt_messages t)" "mr_workspace_id r = w"
    "mr_message_id r = i" "mr_sender_kind r = message_kind_as_str (mp_kind p)" "mr_sender_id r = mp_id p"
  shows "party p m"
  using assms(2)
proof (rule load_messageE)
  fix row assume "row \<in> set (mt_messages t)" "mr_workspace_id row = w" "mr_message_id row = i"
    and s: "principal_from_columns (mr_sender_kind row) (mr_sender_id row) (mr_sender_name row)
       (mr_sender_role row) (mr_sender_path row) (mr_sender_endpoint row) = Inr (cm_sender m)"
  then have "row = r" using unique_message [OF assms(1), of row r] assms(3-5) by (simp add: message_key_def)
  with s assms(6,7) show ?thesis by (auto simp: party_def dest: columns_same)
qed

lemma conversation_party:
  assumes "tables_ok x t" "in_conversation t w p address r" "r \<in> set (mt_messages t)"
    "load_message x t w (mr_message_id r) = Inr m"
  shows "party p m"
  using assms(2) sender_party [OF assms(1,4,3)] recipient_party [OF assms(4)]
  by (auto simp: in_conversation_def list_ex_iff)

lemma list_rows_mem:
  "r \<in> set (list_rows x t w p cursor limit address) \<Longrightarrow> r \<in> set (mt_messages t) \<and> in_conversation t w p address r"
  by (auto simp: list_rows_def dest!: in_set_takeD)

text \<open>
  A principal reads only its own messages.  In every reachable state, whatever \<open>get\<close>, a page of
  \<open>list\<close> (of any App conversation and from any cursor) or \<open>receive\<close> returns to a principal is a
  message of the workspace it asked about that it sent or that is addressed to it, and a received
  delivery is a delivery to that principal itself.
\<close>

theorem reads_only_own_messages:
  assumes "reach (store_init x) (message_step x) t"
  shows "(message_get x t w p i = Inr m \<longrightarrow> party p m \<and> cm_workspace_id m = w \<and> cm_message_id m = i)
    \<and> (list_app_conversation x e w p before limit address t = Inr page
        \<longrightarrow> (\<forall>m \<in> set (pg_messages page). party p m \<and> cm_workspace_id m = w))
    \<and> (receive_now x e w p limit after t = Inr out
        \<longrightarrow> (\<forall>d \<in> set (rr_deliveries out). same_principal p (md_recipient d)
              \<and> party p (md_message d) \<and> cm_workspace_id (md_message d) = w))"
proof (intro conjI impI ballI)
  have ok: "tables_ok x t" using reach_store [OF assms] by simp
  have ws: "cm_workspace_id m = w \<and> cm_message_id m = i" if "load_message x t w i = Inr m" for i m
    using that by (rule load_messageE) simp
  show "party p m" "cm_workspace_id m = w" "cm_message_id m = i" if "message_get x t w p i = Inr m"
  proof -
    from that have vis: "message_visible t w p i" and l: "load_message x t w i = Inr m"
      by (auto simp: message_get_def ensure_visible_def res_simps split: if_splits)
    from vis sender_party [OF ok l] recipient_party [OF l] show "party p m"
      by (auto simp: message_visible_def list_ex_iff)
    from ws [OF l] show "cm_workspace_id m = w" "cm_message_id m = i" by simp_all
  qed
  fix m assume page: "list_app_conversation x e w p before limit address t = Inr page" and m: "m \<in> set (pg_messages page)"
  obtain cursor where "try_map (\<lambda>r. load_message x t w (mr_message_id r))
      (take limit (list_rows x t w p cursor (limit + 1) address)) = Inr (pg_messages page)"
    using page by (auto simp: list_app_conversation_def res_simps Let_def)
  from list_all2_mem2 [OF this [unfolded try_map_Inr] m] obtain r where
    "r \<in> set (list_rows x t w p cursor (limit + 1) address)" "load_message x t w (mr_message_id r) = Inr m"
    by (auto dest: in_set_takeD)
  then show "party p m" "cm_workspace_id m = w"
    using conversation_party [OF ok] list_rows_mem ws by blast+
next
  have ok: "tables_ok x t" using reach_store [OF assms] by simp
  fix d assume r: "receive_now x e w p limit after t = Inr out" and d: "d \<in> set (rr_deliveries out)"
  from r have "try_map (\<lambda>r. and_then (load_message x t w (dr_message_id r)) (delivery_from_row x r))
       (receive_rows x (ce_now e) t w p limit after) = Inr (rr_deliveries out)"
    by (auto simp: receive_now_def res_simps)
  from list_all2_mem2 [OF this [unfolded try_map_Inr] d] obtain row m where
    row: "row \<in> set (receive_rows x (ce_now e) t w p limit after)"
    and l: "load_message x t w (dr_message_id row) = Inr m" and dr: "delivery_from_row x row m = Inr d"
    by (auto simp: res_simps)
  from row have pend: "row \<in> set (mt_deliveries t)" "pending_for x (ce_now e) w p row"
    by (auto simp: receive_rows_def dest!: in_set_takeD)
  have md: "md_message d = m" and rec: "recipient_from_row row = Inr (md_recipient d)"
    using dr by (auto simp: delivery_from_row_def res_simps)
  show "same_principal p (md_recipient d)"
    using rec pend(2) by (auto simp: recipient_from_row_def pending_for_def dest: columns_same)
  show "party p (md_message d)"
    unfolding md using recipient_party [OF l pend(1)] pend(2) by (auto simp: pending_for_def)
  show "cm_workspace_id (md_message d) = w" unfolding md using l by (rule load_messageE) simp
qed

section \<open>Pages by key\<close>

definition after_key :: "('k \<Rightarrow> 'k \<Rightarrow> bool) \<Rightarrow> ('a \<Rightarrow> 'k) \<Rightarrow> 'k option \<Rightarrow> 'a list \<Rightarrow> 'a list" where
  "after_key before key c xs = filter (\<lambda>a. is_none_or c (\<lambda>k. before k (key a))) xs"

locale keyset_pages =
  fixes before :: "'k \<Rightarrow> 'k \<Rightarrow> bool" and key :: "'a \<Rightarrow> 'k" and ordered :: "'a list"
  assumes before_asym: "before a b \<Longrightarrow> \<not> before b a"
    and before_total: "before a b \<or> a = b \<or> before b a"
    and weakly_sorted: "sorted_wrt (\<lambda>a b. \<not> before (key b) (key a)) ordered"
begin

lemma after_none: "after_key before key None ordered = ordered"
  by (simp add: after_key_def)

lemma after_split:
  assumes "distinct (map key ordered)" "ordered = us @ a # vs"
  shows "after_key before key (Some (key a)) ordered = vs"
proof -
  have "\<not> before (key a) (key b)" if "b \<in> set us" for b
    using weakly_sorted that by (auto simp: assms(2) sorted_wrt_append)
  moreover have "before (key a) (key b)" if "b \<in> set vs" for b
    using weakly_sorted that assms(1) before_total [of "key a" "key b"]
    by (auto simp: assms(2) sorted_wrt_append)
  ultimately have "filter (\<lambda>b. before (key a) (key b)) us = []" "filter (\<lambda>b. before (key a) (key b)) vs = vs"
    by (simp_all add: filter_empty_conv filter_id_conv)
  then show ?thesis using before_asym [of "key a" "key a"] by (auto simp: after_key_def assms(2))
qed

text \<open>A page of at most \<open>n\<close> rows, and what the key of its last row leaves for the next one.\<close>

lemma after_page:
  assumes "distinct (map key ordered)" "ordered = us @ rest" "0 < n" "rest \<noteq> []"
  shows "after_key before key (Some (key (last (take n rest)))) ordered = drop n rest"
proof -
  have "take n rest \<noteq> []" using assms(3,4) by simp
  then have "ordered = (us @ butlast (take n rest)) @ last (take n rest) # drop n rest"
    using assms(2) append_butlast_last_id [of "take n rest"] append_take_drop_id [of n rest]
    by (metis append.assoc append_Cons append_Nil)
  from after_split [OF assms(1) this] show ?thesis .
qed

end

definition inbox ::
  "message_env \<Rightarrow> datetime \<Rightarrow> message_tables \<Rightarrow> string \<Rightarrow> message_principal \<Rightarrow> delivery_row list" where
  "inbox x now t w p = sort_key (delivery_sort_key x) (filter (pending_for x now w p) (mt_deliveries t))"

definition conversation ::
  "message_env \<Rightarrow> message_tables \<Rightarrow> string \<Rightarrow> message_principal \<Rightarrow> (string \<times> string) option \<Rightarrow> message_row list" where
  "conversation x t w p address =
     rev (sort_key (message_sort_key x) (filter (in_conversation t w p address) (mt_messages t)))"

interpretation inbox_pages: keyset_pages "(<)" "delivery_sort_key x" "inbox x now t w p" for x now t w p
proof
  show "sorted_wrt (\<lambda>a b. \<not> delivery_sort_key x b < delivery_sort_key x a) (inbox x now t w p)"
    using sorted_sort_key [of "delivery_sort_key x"] by (auto simp: inbox_def not_less sorted_map)
qed (auto simp: less_not_sym)

interpretation conversation_pages: keyset_pages "(>)" "message_sort_key x" "conversation x t w p address" for x t w p address
proof
  show "sorted_wrt (\<lambda>a b. \<not> message_sort_key x b > message_sort_key x a) (conversation x t w p address)"
    using sorted_sort_key [of "message_sort_key x"] by (auto simp: conversation_def not_less sorted_wrt_rev sorted_map)
qed auto

lemma receive_rows_page:
  "receive_rows x now t w p n c = take n (after_key (<) (delivery_sort_key x) (map_option (cursor_key x) c) (inbox x now t w p))"
  by (cases c) (simp_all add: receive_rows_def after_key_def inbox_def filter_sort conj_commute)

lemma list_rows_page:
  "list_rows x t w p c n address = take n (after_key (>) (message_sort_key x) (map_option (cursor_key x) c) (conversation x t w p address))"
  by (cases c) (simp_all add: list_rows_def after_key_def conversation_def filter_sort conj_commute flip: rev_filter)

section \<open>Stored rows can be read\<close>

lemma parse_timestamp_range:
  "message_env_ok x \<Longrightarrow> s \<in> range (me_to_rfc3339 x) \<Longrightarrow> \<exists>d. parse_timestamp x s = Inr d \<and> me_to_rfc3339 x d = s"
  by (auto simp: parse_timestamp_def message_env_okD)

lemma parse_optional_range:
  assumes "message_env_ok x" "is_none_or v (\<lambda>s. s \<in> range (me_to_rfc3339 x))"
  shows "\<exists>d. parse_optional_timestamp x v = Inr d"
  using assms by (cases v) (auto simp: parse_optional_timestamp_def parse_timestamp_def message_env_okD)

lemma parse_kind_column: "kind_column_ok k \<Longrightarrow> \<exists>r. parse_kind k = Inr r"
  by (auto simp: kind_column_ok_def parse_kind_def)

lemma recipient_readable: "tables_ok x t \<Longrightarrow> d \<in> set (mt_deliveries t) \<Longrightarrow> \<exists>q. recipient_from_row d = Inr q"
  using parse_kind_column by (fastforce simp: recipient_from_row_def principal_from_columns_def tables_ok_defs)

lemma try_map_total: "(\<And>a. a \<in> set as \<Longrightarrow> \<exists>b. f a = Inr b) \<Longrightarrow> \<exists>bs. try_map f as = Inr bs"
  by (induction as) fastforce+

lemma load_message_total:
  assumes ok: "tables_ok x t" and env: "message_env_ok x" and "message_exists t w i"
  shows "\<exists>m. load_message x t w i = Inr m"
proof -
  obtain row where f: "find_message t w i = Some row"
  proof (cases "find_message t w i")
    case None
    then show ?thesis using assms(3) by (auto simp: message_exists_def find_message_def list_ex_iff find_None_iff)
  qed (rule that)
  then have "row \<in> set (mt_messages t)" by (auto simp: find_message_def dest: find_mem)
  then have r: "message_readable x row" using ok by (simp add: tables_ok_defs)
  obtain s where s: "load_source x (mr_external_source row) = Inr s"
    using r by (cases "mr_external_source row") (auto simp: message_readable_def load_source_def)
  obtain k where k: "parse_kind (mr_sender_kind row) = Inr k"
    using r parse_kind_column by (auto simp: message_readable_def)
  obtain rs where rs: "try_map recipient_from_row (message_deliveries t w i) = Inr rs"
    using try_map_total [of "message_deliveries t w i" recipient_from_row] recipient_readable [OF ok]
    by (auto simp: message_deliveries_def)
  obtain c where c: "parse_timestamp x (mr_created_at row) = Inr c"
    using parse_timestamp_range [OF env] r by (auto simp: message_readable_def)
  obtain d where d: "parse_optional_timestamp x (mr_expires_at row) = Inr d"
    using parse_optional_range [OF env] r by (auto simp: message_readable_def)
  show ?thesis by (simp add: load_message_def f s k rs c d principal_from_columns_def)
qed

text \<open>The delivery a row is returned as.\<close>

definition shown_as :: "message_env \<Rightarrow> delivery_row \<Rightarrow> message_delivery \<Rightarrow> bool" where
  "shown_as x r d \<longleftrightarrow> md_delivery_id d = dr_delivery_id r \<and> me_to_rfc3339 x (md_created_at d) = dr_created_at r"

lemma row_shown:
  assumes ok: "tables_ok x t" and env: "message_env_ok x" and r: "r \<in> set (mt_deliveries t)" "dr_workspace_id r = w"
  shows "\<exists>d. and_then (load_message x t w (dr_message_id r)) (delivery_from_row x r) = Inr d \<and> shown_as x r d"
proof -
  have ex: "message_exists t w (dr_message_id r)" and rd: "delivery_readable x r"
    using ok r by (auto simp: tables_ok_defs)
  obtain m where m: "load_message x t w (dr_message_id r) = Inr m" using load_message_total [OF ok env ex] by blast
  obtain q where q: "recipient_from_row r = Inr q" using recipient_readable [OF ok r(1)] by blast
  obtain c where c: "parse_timestamp x (dr_created_at r) = Inr c" "me_to_rfc3339 x c = dr_created_at r"
    using parse_timestamp_range [OF env] rd by (auto simp: delivery_readable_def)
  obtain a where a: "parse_optional_timestamp x (dr_acknowledged_at r) = Inr a"
    using parse_optional_range [OF env] rd by (auto simp: delivery_readable_def)
  obtain b where b: "parse_optional_timestamp x (dr_expires_at r) = Inr b"
    using parse_optional_range [OF env] rd by (auto simp: delivery_readable_def)
  show ?thesis by (simp add: m delivery_from_row_def q c a b shown_as_def)
qed

lemma receive_now_shown:
  assumes "tables_ok x t" "message_env_ok x"
  shows "\<exists>ds. receive_now x e w p n c t = Inr \<lparr>rr_next_cursor =
        (if (mp_app_endpoint p \<noteq> None \<or> c \<noteq> None) \<and> ds \<noteq> [] then
           Some (encode_cursor x (md_created_at (last ds)) (md_delivery_id (last ds))) else None),
      rr_deliveries = ds, rr_remaining_unacknowledged = unacknowledged_count x (ce_count_now e) t w p\<rparr>
    \<and> list_all2 (shown_as x) (receive_rows x (ce_now e) t w p n c) ds"
proof -
  let ?rows = "receive_rows x (ce_now e) t w p n c" and ?f = "\<lambda>r. and_then (load_message x t w (dr_message_id r)) (delivery_from_row x r)"
  have sh: "\<exists>d. ?f r = Inr d \<and> shown_as x r d" if "r \<in> set ?rows" for r
    using that by (intro row_shown [OF assms]) (auto simp: receive_rows_def pending_for_def dest!: in_set_takeD)
  then obtain ds where ds: "try_map ?f ?rows = Inr ds" using try_map_total [of ?rows ?f] by blast
  have "list_all2 (shown_as x) ?rows ds"
    using ds [unfolded try_map_Inr]
  proof (rule list.rel_mono_strong)
    fix r d assume "r \<in> set ?rows" "?f r = Inr d"
    with sh [of r] show "shown_as x r d" by auto
  qed
  then show ?thesis using ds by (auto simp: receive_now_def)
qed

section \<open>Scanning an inbox\<close>

text \<open>Documented behaviour of base64 and of RFC 3339 texts that cursors rely on.\<close>

definition cursor_env_ok :: "message_env \<Rightarrow> bool" where
  "cursor_env_ok x \<longleftrightarrow> (\<forall>s. me_b64_decode x (me_b64_encode x s) = Some s)
     \<and> (\<forall>d. utf8_valid (me_to_rfc3339 x d) \<and> CHR 0x0A \<notin> set (me_to_rfc3339 x d))"

definition cursor_id_ok :: "string \<Rightarrow> bool" where
  "cursor_id_ok i \<longleftrightarrow> i \<noteq> [] \<and> length i \<le> 256 \<and> utf8_valid i"

lemma cursor_round_trip:
  assumes "message_env_ok x" "cursor_env_ok x" "cursor_id_ok i"
  shows "decode_cursor x (encode_cursor x d i) = Inr (d, i)"
proof -
  have "utf8_valid (CHR 0x0A # i)"
    using assms(3) by (cases i rule: utf8_head.cases) (auto simp: cursor_id_ok_def utf8_valid.simps [of "CHR 0x0A # _"])
  then have "utf8_valid (me_to_rfc3339 x d @ CHR 0x0A # i)"
    using assms(2) utf8_valid_append by (auto simp: cursor_env_ok_def)
  then show ?thesis
    using assms by (auto simp: decode_cursor_def encode_cursor_def cursor_env_ok_def cursor_id_ok_def
        split_once_append message_env_okD)
qed

fun receive_scan ::
  "message_env \<Rightarrow> call_env \<Rightarrow> string \<Rightarrow> message_principal \<Rightarrow> nat \<Rightarrow> message_tables \<Rightarrow> nat \<Rightarrow> string option
   \<Rightarrow> message_delivery list msg_res option" where
  "receive_scan x e w p limit t 0 after = None"
| "receive_scan x e w p limit t (Suc n) after =
     (case receive_after x e e w p limit 0 after t t of
        Inl err \<Rightarrow> Some (Inl err)
      | Inr r \<Rightarrow>
          if rr_deliveries r = [] then Some (Inr [])
          else (case receive_scan x e w p limit t n (rr_next_cursor r) of
              Some (Inr ds) \<Rightarrow> Some (Inr (rr_deliveries r @ ds))
            | other \<Rightarrow> other))"

lemma inbox_keys_distinct:
  assumes "tables_ok x t" "message_env_ok x"
  shows "distinct (map (delivery_sort_key x) (inbox x now t w p))"
proof -
  have d: "distinct (mt_deliveries t)" using assms(1) by (simp add: tables_ok_defs distinct_map)
  have "inj_on (delivery_sort_key x) (set (mt_deliveries t))"
    using unique_delivery [OF assms(1)] message_env_okD(2) [OF assms(2)]
    by (auto simp: inj_on_def delivery_sort_key_def inj_def)
  then have "inj_on (delivery_sort_key x) (set (inbox x now t w p))"
    by (rule inj_on_subset) (auto simp: inbox_def)
  then show ?thesis using d by (simp add: distinct_map inbox_def)
qed

lemma list_all2_last: "list_all2 R xs ys \<Longrightarrow> ys \<noteq> [] \<Longrightarrow> xs \<noteq> [] \<and> R (last xs) (last ys)"
  by (induction rule: list_all2_induct) auto

text \<open>One page of an endpoint scan, in terms of what is left of the inbox.\<close>

lemma receive_page:
  assumes ok: "tables_ok x t" and env: "message_env_ok x" "cursor_env_ok x"
    and ids: "\<And>d. d \<in> set (mt_deliveries t) \<Longrightarrow> cursor_id_ok (dr_delivery_id d)"
    and lim: "validate_page_size limit = Inr ()"
    and ep: "mp_app_endpoint p = Some endpoint" "valid_message_app_endpoint endpoint"
    and after: "decode_optional_cursor x after = Inr c" "inbox x (ce_now e) t w p = us @ rest"
      "after_key (<) (delivery_sort_key x) (map_option (cursor_key x) c) (inbox x (ce_now e) t w p) = rest"
  shows "\<exists>r ds. receive_after x e e w p limit 0 after t t = Inr r \<and> rr_deliveries r = ds
    \<and> map md_delivery_id ds = map dr_delivery_id (take limit rest)
    \<and> (rest \<noteq> [] \<longrightarrow> ds \<noteq> [] \<and> (\<exists>c'. decode_optional_cursor x (rr_next_cursor r) = Inr c'
         \<and> after_key (<) (delivery_sort_key x) (map_option (cursor_key x) c') (inbox x (ce_now e) t w p) = drop limit rest))"
proof -
  obtain r ds where now: "receive_now x e w p limit c t = Inr r" and r: "rr_deliveries r = ds"
    "rr_next_cursor r = (if ds \<noteq> [] then Some (encode_cursor x (md_created_at (last ds)) (md_delivery_id (last ds))) else None)"
    and sh: "list_all2 (shown_as x) (take limit rest) ds"
    using receive_now_shown [OF ok env(1), of e w p limit c] ep(1) after(3) by (auto simp: receive_rows_page)
  have run: "receive_after x e e w p limit 0 after t t = Inr r"
    using lim ep after(1) now by (simp add: receive_after_def validate_endpoint_scope_def)
  have idm: "map md_delivery_id ds = map dr_delivery_id (take limit rest)"
    using sh by (induction rule: list_all2_induct) (auto simp: shown_as_def)
  have "\<exists>c'. decode_optional_cursor x (rr_next_cursor r) = Inr c'
         \<and> after_key (<) (delivery_sort_key x) (map_option (cursor_key x) c') (inbox x (ce_now e) t w p) = drop limit rest"
    if ne: "rest \<noteq> []"
  proof -
    have l0: "0 < limit" using lim by (auto simp: validate_page_size_def split: if_splits)
    with ne have dne: "ds \<noteq> []" using sh by auto
    let ?l = "last (take limit rest)"
    have sl: "shown_as x ?l (last ds)" and tl: "take limit rest \<noteq> []" using list_all2_last [OF sh dne] by auto
    have "?l \<in> set (inbox x (ce_now e) t w p)" using in_set_takeD [OF last_in_set [OF tl]] by (simp add: after(2))
    then have "?l \<in> set (mt_deliveries t)" by (auto simp: inbox_def)
    with ids sl have "cursor_id_ok (md_delivery_id (last ds))" by (auto simp: shown_as_def)
    then have dec: "decode_optional_cursor x (rr_next_cursor r) = Inr (Some (md_created_at (last ds), md_delivery_id (last ds)))"
      using cursor_round_trip [OF env] dne by (simp add: r decode_optional_cursor_def)
    have "cursor_key x (md_created_at (last ds), md_delivery_id (last ds)) = delivery_sort_key x ?l"
      using sl by (simp add: cursor_key_def delivery_sort_key_def shown_as_def)
    moreover have "after_key (<) (delivery_sort_key x) (Some (delivery_sort_key x ?l)) (inbox x (ce_now e) t w p) = drop limit rest"
      by (rule inbox_pages.after_page [OF inbox_keys_distinct [OF ok env(1)] after(2) l0 ne])
    ultimately show ?thesis
      using dec by (intro exI [of _ "Some (md_created_at (last ds), md_delivery_id (last ds))"]) simp
  qed
  then show ?thesis using run r idm sh lim
    by (intro exI [of _ r] exI [of _ ds]) (auto simp: validate_page_size_def split: if_splits)
qed

lemma receive_scan_rest:
  assumes ok: "tables_ok x t" and env: "message_env_ok x" "cursor_env_ok x"
    and ids: "\<And>d. d \<in> set (mt_deliveries t) \<Longrightarrow> cursor_id_ok (dr_delivery_id d)"
    and lim: "validate_page_size limit = Inr ()"
    and ep: "mp_app_endpoint p = Some endpoint" "valid_message_app_endpoint endpoint"
  shows "decode_optional_cursor x after = Inr c \<Longrightarrow> inbox x (ce_now e) t w p = us @ rest
    \<Longrightarrow> after_key (<) (delivery_sort_key x) (map_option (cursor_key x) c) (inbox x (ce_now e) t w p) = rest
    \<Longrightarrow> length rest < n
    \<Longrightarrow> \<exists>ds. receive_scan x e w p limit t n after = Some (Inr ds) \<and> map md_delivery_id ds = map dr_delivery_id rest"
proof (induction n arbitrary: after c us rest)
  case (Suc n)
  obtain r ds where run: "receive_after x e e w p limit 0 after t t = Inr r" "rr_deliveries r = ds"
    "map md_delivery_id ds = map dr_delivery_id (take limit rest)"
    and more: "rest \<noteq> [] \<longrightarrow> ds \<noteq> [] \<and> (\<exists>c'. decode_optional_cursor x (rr_next_cursor r) = Inr c'
         \<and> after_key (<) (delivery_sort_key x) (map_option (cursor_key x) c') (inbox x (ce_now e) t w p) = drop limit rest)"
    using receive_page [OF ok env ids lim ep Suc.prems(1-3)] by metis
  show ?case
  proof (cases "rest = []")
    case True
    then show ?thesis using run by simp
  next
    case False
    with more obtain c' where c': "ds \<noteq> []" "decode_optional_cursor x (rr_next_cursor r) = Inr c'"
      "after_key (<) (delivery_sort_key x) (map_option (cursor_key x) c') (inbox x (ce_now e) t w p) = drop limit rest" by auto
    have "0 < limit" using lim by (auto simp: validate_page_size_def split: if_splits)
    moreover have "0 < length rest" using False by simp
    ultimately have "length (drop limit rest) < n" using Suc.prems(4) by (simp del: length_greater_0_conv)
    moreover have "inbox x (ce_now e) t w p = (us @ take limit rest) @ drop limit rest" using Suc.prems(2) by simp
    ultimately obtain ds' where ds': "receive_scan x e w p limit t n (rr_next_cursor r) = Some (Inr ds')"
      "map md_delivery_id ds' = map dr_delivery_id (drop limit rest)"
      using Suc.IH [OF c'(2) _ c'(3)] by blast
    have "map md_delivery_id (ds @ ds') = map dr_delivery_id (take limit rest @ drop limit rest)"
      using run(3) ds'(2) by (simp del: append_take_drop_id)
    then show ?thesis using run ds' c'(1) by simp
  qed
qed simp

text \<open>
  C19: A scan of an App endpoint's inbox ends and misses nothing.  In every reachable state, a client
  that starts without a cursor and passes on the cursor of each page, with any allowed page size,
  comes to an empty page after at most one page per pending delivery, and by then has received
  exactly the unacknowledged, unexpired deliveries of the endpoint, each once, in the order of
  creation time and identifier.
\<close>

theorem inbox_scan_complete:
  assumes "reach (store_init x) (message_step x) t" "cursor_env_ok x"
    and "\<forall>d \<in> set (mt_deliveries t). cursor_id_ok (dr_delivery_id d)"
    and "validate_page_size limit = Inr ()"
    and "mp_app_endpoint p = Some endpoint" "valid_message_app_endpoint endpoint"
    and "length (inbox x (ce_now e) t w p) < n"
  shows "\<exists>ds. receive_scan x e w p limit t n None = Some (Inr ds)
    \<and> map md_delivery_id ds = map dr_delivery_id (inbox x (ce_now e) t w p)"
  using receive_scan_rest [of x t limit p endpoint None None e w "[]" "inbox x (ce_now e) t w p" n]
    reach_store [OF assms(1)] assms(2-)
  by (simp add: decode_optional_cursor_def after_key_def)

end
