(* ===== verification/Message_Import.thy ===== *)
theory Message_Import
  imports Message_Reads
begin

text \<open>
  Importing legacy mail: an imported record reads back as itself, so importing a batch again under
  another operation identifier recognises every record and changes no message.
\<close>

section \<open>An imported record reads back as itself\<close>

lemma sort_key_map: "sort_key k (map f xs) = map f (sort_key (\<lambda>a. k (f a)) xs)"
proof -
  have "insort_key k (f a) (map f ys) = map f (insort_key (\<lambda>a. k (f a)) a ys)" for a ys
    by (induction ys) auto
  then show ?thesis by (induction xs) auto
qed

lemma insert_legacy_eq:
  assumes "insert_legacy_message x m t = Inr t'"
  shows "\<not> message_exists t (lm_workspace_id m) (lm_message_id m)
    \<and> t' = t\<lparr>mt_messages := mt_messages t @ [legacy_row x m],
        mt_deliveries := mt_deliveries t @ map (legacy_delivery_row x m) (lm_recipients m),
        mt_contexts := mt_contexts t @ map (\<lambda>p. \<lparr>xr_message_id = lm_message_id m, xr_workspace_id = lm_workspace_id m,
          xr_context_message_id = snd p, xr_position = fst p\<rparr>) (List.enumerate 0 (lm_context_ids m))\<rparr>"
proof -
  obtain t1 t2 where 1: "insert_message (legacy_row x m) t = Inr t1"
    and 2: "try_fold (\<lambda>r. insert_delivery (legacy_delivery_row x m r)) (lm_recipients m) t1 = Inr t2"
    and 3: "insert_contexts (lm_workspace_id m) (lm_message_id m) (lm_context_ids m) t2 = Inr t'"
    using assms by (auto simp: insert_legacy_message_def res_simps)
  show ?thesis
    using insert_messages [OF 1] 1 add_deliveries_eq [OF 2] insert_contexts_eq [OF 3]
    by (auto simp: legacy_row_def insert_message_def split: if_splits)
qed

lemma legacy_recipient:
  "mp_app_endpoint (lr_principal r) = None \<Longrightarrow> recipient_from_row (legacy_delivery_row x m r) = Inr (lr_principal r)"
  by (simp add: recipient_from_row_def legacy_delivery_row_def principal_from_columns_def)

lemma try_map_Inr_map: "(\<And>a. a \<in> set as \<Longrightarrow> f a = Inr (g a)) \<Longrightarrow> try_map f as = Inr (map g as)"
  by (induction as) auto

lemma try_forall_True: "(\<And>a. a \<in> set as \<Longrightarrow> f a = Inr True) \<Longrightarrow> try_forall f as = Inr True"
  by (induction as) auto

lemma new_message_rows:
  assumes ok: "tables_ok x t" and ins: "insert_legacy_message x m t = Inr t'"
  shows "message_deliveries t' (lm_workspace_id m) (lm_message_id m)
      = map (legacy_delivery_row x m) (sort_key lr_position (lm_recipients m))"
    "map xr_context_message_id (message_contexts t' (lm_workspace_id m) (lm_message_id m)) = lm_context_ids m"
    "find_message t' (lm_workspace_id m) (lm_message_id m) = Some (legacy_row x m)"
proof -
  let ?w = "lm_workspace_id m" and ?i = "lm_message_id m"
  note eq = insert_legacy_eq [OF ins]
  then have new: "\<not> message_exists t ?w ?i" by simp
  have "filter (\<lambda>d. dr_workspace_id d = ?w \<and> dr_message_id d = ?i) (mt_deliveries t) = []"
    using ok new by (auto simp: filter_empty_conv tables_ok_defs)
  moreover have "filter (\<lambda>d. dr_workspace_id d = ?w \<and> dr_message_id d = ?i) (map (legacy_delivery_row x m) rs)
      = map (legacy_delivery_row x m) rs" for rs
    by (auto simp: filter_id_conv legacy_delivery_row_def)
  moreover have "dr_position (legacy_delivery_row x m r) = lr_position r" for r by (simp add: legacy_delivery_row_def)
  ultimately show "message_deliveries t' ?w ?i = map (legacy_delivery_row x m) (sort_key lr_position (lm_recipients m))"
    using eq by (simp add: message_deliveries_def sort_key_map)
  let ?row = "\<lambda>p. \<lparr>xr_message_id = ?i, xr_workspace_id = ?w, xr_context_message_id = snd p, xr_position = fst p\<rparr>"
  have "\<not> (xr_workspace_id c = ?w \<and> xr_message_id c = ?i)" if "c \<in> set (mt_contexts t)" for c
    using ok that new by (fastforce simp: tables_ok_defs context_older_def message_exists_key)
  then have "filter (\<lambda>c. xr_workspace_id c = ?w \<and> xr_message_id c = ?i) (mt_contexts t) = []"
    by (simp add: filter_empty_conv)
  moreover have "sort_key xr_position (map ?row (List.enumerate 0 cs)) = map ?row (List.enumerate 0 cs)" for cs
    by (rule sort_key_sorted) (simp add: comp_def)
  ultimately show "map xr_context_message_id (message_contexts t' ?w ?i) = lm_context_ids m"
    using eq by (simp add: message_contexts_def comp_def)
  have "find (\<lambda>r. mr_workspace_id r = ?w \<and> mr_message_id r = ?i) (ms @ [legacy_row x m]) = Some (legacy_row x m)"
    if "\<not> list_ex (\<lambda>r. mr_workspace_id r = ?w \<and> mr_message_id r = ?i) ms" for ms
    using that by (induction ms) (auto simp: legacy_row_def)
  then show "find_message t' ?w ?i = Some (legacy_row x m)"
    using eq new by (simp add: find_message_def message_exists_def)
qed

lemma inserted_matches:
  assumes ok: "tables_ok x t" and env: "message_env_ok x" and ins: "insert_legacy_message x m t = Inr t'"
    and val: "validate_legacy_message w m = Inr ()"
  shows "legacy_message_matches x t' m = Inr True"
proof -
  let ?rs = "sort_key lr_position (lm_recipients m)"
  have ep: "mp_app_endpoint (lm_sender m) = None"
    "\<And>r. r \<in> set ?rs \<Longrightarrow> mp_app_endpoint (lr_principal r) = None"
    using val by (auto simp: validate_legacy_message_def res_simps list_ex_iff split: if_splits)
  note rows = new_message_rows [OF ok ins]
  have rec: "try_map recipient_from_row (map (legacy_delivery_row x m) ?rs) = Inr (map lr_principal ?rs)"
    unfolding try_map_map by (rule try_map_Inr_map) (simp add: legacy_recipient ep(2))
  have load: "load_message x t' (lm_workspace_id m) (lm_message_id m) = Inr \<lparr>cm_schema_version = MESSAGE_SCHEMA_VERSION,
      cm_message_id = lm_message_id m, cm_workspace_id = lm_workspace_id m, cm_sender = lm_sender m,
      cm_recipients = map lr_principal ?rs, cm_context_ids = lm_context_ids m, cm_body = lm_body m,
      cm_created_at = lm_created_at m, cm_expires_at = None, cm_correlation_id = None, cm_trace_id = None,
      cm_external_source = None\<rparr>"
    using ep(1) by (simp add: load_message_def rows rec load_source_def legacy_row_def principal_from_columns_def
        parse_timestamp_def parse_optional_timestamp_def message_env_okD(1) [OF env])
  have "legacy_delivery_matches x (legacy_delivery_row x m r, r) = Inr True" if "r \<in> set ?rs" for r
  proof -
    have "parse_optional_timestamp x (map_option (me_to_rfc3339 x) v) = Inr v" for v
      by (cases v) (simp_all add: parse_optional_timestamp_def parse_timestamp_def message_env_okD(1) [OF env])
    then show ?thesis
      using legacy_recipient [OF ep(2) [OF that]] by (simp add: legacy_delivery_matches_def) (simp add: legacy_delivery_row_def)
  qed
  then have "try_forall (legacy_delivery_matches x) (zip (map (legacy_delivery_row x m) ?rs) ?rs) = Inr True"
    by (intro try_forall_True) (auto simp: zip_map1 zip_same_conv_map)
  then show ?thesis by (simp add: legacy_message_matches_def load rows)
qed

lemma matches_cong:
  "load_message x t' (lm_workspace_id m) (lm_message_id m) = load_message x t (lm_workspace_id m) (lm_message_id m)
   \<Longrightarrow> message_deliveries t' (lm_workspace_id m) (lm_message_id m) = message_deliveries t (lm_workspace_id m) (lm_message_id m)
   \<Longrightarrow> legacy_message_matches x t' m = legacy_message_matches x t m"
  by (simp only: legacy_message_matches_def Let_def)

lemma insert_legacy_keeps:
  assumes "insert_legacy_message x m t = Inr t'" "message_exists t w i"
  shows "message_deliveries t' w i = message_deliveries t w i"
proof -
  have "filter (\<lambda>d. dr_workspace_id d = w \<and> dr_message_id d = i) (map (legacy_delivery_row x m) (lm_recipients m)) = []"
    using insert_legacy_eq [OF assms(1)] assms(2) by (auto simp: filter_empty_conv legacy_delivery_row_def)
  then show ?thesis using insert_legacy_eq [OF assms(1)] by (simp add: message_deliveries_def)
qed

section \<open>Importing twice\<close>

definition holds_record :: "message_env \<Rightarrow> string \<Rightarrow> message_tables \<Rightarrow> legacy_mail_message \<Rightarrow> bool" where
  "holds_record x w t m \<longleftrightarrow> validate_legacy_message w m = Inr () \<and> lm_workspace_id m = w
     \<and> message_exists t w (lm_message_id m) \<and> legacy_message_matches x t m = Inr True"

lemma holds_record_keeps:
  assumes "holds_record x w t m" "extends t t'" "message_deliveries t' w (lm_message_id m) = message_deliveries t w (lm_message_id m)"
  shows "holds_record x w t' m"
proof -
  have ex: "message_exists t w (lm_message_id m)" and w: "lm_workspace_id m = w" using assms(1) by (auto simp: holds_record_def)
  have "legacy_message_matches x t' m = legacy_message_matches x t m"
    using load_message_extends [OF assms(2) ex] assms(3) by (intro matches_cong) (simp_all add: w)
  then show ?thesis using assms(1) extends_exists [OF assms(2) ex] by (simp add: holds_record_def)
qed

lemma holds_record_cong:
  assumes eq: "mt_messages t' = mt_messages t" "mt_deliveries t' = mt_deliveries t" "mt_contexts t' = mt_contexts t"
  shows "holds_record x w t' m = holds_record x w t m"
proof -
  have rows: "message_deliveries t' v i = message_deliveries t v i" for v i by (simp only: message_deliveries_def eq)
  have "load_message x t' v i = load_message x t v i" for v i
    by (simp only: load_message_def find_message_def message_contexts_def rows eq)
  then have "legacy_message_matches x t' m = legacy_message_matches x t m" using rows by (intro matches_cong) simp_all
  then show ?thesis by (simp add: holds_record_def message_exists_def eq)
qed

definition import_done :: "message_env \<Rightarrow> string \<Rightarrow> legacy_mail_message list \<Rightarrow> import_state \<Rightarrow> bool" where
  "import_done x w ms s \<longleftrightarrow> tables_ok x (ist_tables s) \<and> (\<forall>m \<in> set ms. holds_record x w (ist_tables s) m)
     \<and> distinct (map lm_message_id ms) \<and> set (ist_seen s) = lm_message_id ` set ms"

lemma import_one_seen:
  assumes "import_one x w m s = Inr s'"
  shows "lm_message_id m \<notin> set (ist_seen s)" "set (ist_seen s') = insert (lm_message_id m) (set (ist_seen s))"
    "validate_legacy_message w m = Inr ()"
  using assms by (auto simp: import_one_def Let_def res_simps split: if_splits)

lemma import_one_done:
  assumes "import_done x w ms s" "import_one x w m s = Inr s'" "message_env_ok x" "lm_workspace_id m = w"
  shows "import_done x w (ms @ [m]) s'"
proof -
  note seen = import_one_seen [OF assms(2)]
  have ok: "tables_ok x (ist_tables s)" and old: "\<And>n. n \<in> set ms \<Longrightarrow> holds_record x w (ist_tables s) n"
    using assms(1) by (auto simp: import_done_def)
  have d: "distinct (map lm_message_id (ms @ [m]))" "set (ist_seen s') = lm_message_id ` set (ms @ [m])"
    using assms(1) seen by (auto simp: import_done_def)
  from assms(2) show ?thesis
  proof (cases rule: import_oneE)
    case existing
    then have "holds_record x w (ist_tables s') m" using seen(3) assms(4) by (simp add: holds_record_def)
    then show ?thesis using d ok old existing(3) by (auto simp: import_done_def)
  next
    case new
    have g: "grown x (ist_tables s) (ist_tables s')"
      using insert_legacy_grown [OF new(3) ok _ assms(3)] new(2) assms(4) by simp
    have "holds_record x w (ist_tables s') m"
      using inserted_matches [OF ok assms(3) new(3) seen(3)] seen(3) assms(4) insert_legacy_eq [OF new(3)]
      by (auto simp: holds_record_def message_exists_key message_key_def legacy_row_def)
    moreover have "holds_record x w (ist_tables s') n" if "n \<in> set ms" for n
    proof -
      have "message_exists (ist_tables s) w (lm_message_id n)" using old [OF that] by (simp add: holds_record_def)
      from insert_legacy_keeps [OF new(3) this] show ?thesis
        using holds_record_keeps [OF old [OF that]] g by (simp add: grown_def)
    qed
    ultimately show ?thesis using d g by (auto simp: import_done_def grown_def)
  qed
qed

lemma import_loop_done:
  assumes "message_env_ok x" "tables_ok x t"
  shows "try_fold (import_one x w) ms
      \<lparr>ist_imported = 0, ist_existing = 0, ist_seen = [], ist_message_ids = [], ist_tables = t\<rparr> = Inr s
    \<Longrightarrow> \<forall>m \<in> set ms. lm_workspace_id m = w \<Longrightarrow> import_done x w ms s"
proof (induction ms arbitrary: s rule: rev_induct)
  case Nil
  then show ?case using assms(2) by (auto simp: import_done_def)
next
  case (snoc m ms)
  then show ?case using import_one_done [OF _ _ assms(1)] by (auto simp: try_fold_append res_simps)
qed

lemma import_known:
  assumes "\<forall>m \<in> set ms. holds_record x w t m" "distinct (map lm_message_id ms)"
    "set (ist_seen s) \<inter> lm_message_id ` set ms = {}" "ist_tables s = t"
  shows "\<exists>s'. try_fold (import_one x w) ms s = Inr s' \<and> ist_imported s' = ist_imported s
    \<and> ist_existing s' = ist_existing s + length ms
    \<and> ist_message_ids s' = ist_message_ids s @ map lm_message_id ms \<and> ist_tables s' = t"
  using assms
proof (induction ms arbitrary: s)
  case (Cons m ms)
  let ?s1 = "s\<lparr>ist_seen := lm_message_id m # ist_seen s, ist_existing := Suc (ist_existing s),
      ist_message_ids := ist_message_ids s @ [lm_message_id m]\<rparr>"
  have "import_one x w m s = Inr ?s1"
    using Cons.prems by (auto simp: import_one_def holds_record_def Let_def)
  moreover have "set (ist_seen ?s1) \<inter> lm_message_id ` set ms = {}" using Cons.prems(2,3) by auto
  ultimately show ?case using Cons.IH [of ?s1] Cons.prems by auto
qed simp

text \<open>
  Importing a batch again changes nothing.  When a batch of legacy mail has been imported, then
  after any later history that has not acknowledged its deliveries, importing the same records under
  a new operation identifier succeeds, reports every record as already present, and leaves messages,
  deliveries and contexts as they are.
\<close>

theorem import_again_changes_nothing:
  assumes "reach (store_init x) (message_step x) t"
    and first: "import_legacy_mail x e w importer request t = Inr (r, t1)"
      "find_import_operation t w (im_operation_id request) = None"
    and later: "(message_step x)\<^sup>*\<^sup>* t1 t2"
    and unread: "\<forall>m \<in> set (im_messages request).
      message_deliveries t2 w (lm_message_id m) = message_deliveries t1 w (lm_message_id m)"
    and again: "validate_import w request' = Inr ()" "im_messages request' = im_messages request"
      "find_import_operation t2 w (im_operation_id request') = None"
      "''evt_'' @ ce_uuid e' 0 \<notin> ox_event_id ` set (mt_outbox t2)"
  shows "\<exists>t3. import_legacy_mail x e' w importer' request' t2 =
      Inr (\<lparr>is_imported = 0, is_existing = length (im_messages request),
            is_message_ids = map lm_message_id (im_messages request)\<rparr>, t3)
    \<and> mt_messages t3 = mt_messages t2 \<and> mt_deliveries t3 = mt_deliveries t2 \<and> mt_contexts t3 = mt_contexts t2"
proof -
  have ok: "tables_ok x t" and env: "message_env_ok x" using reach_store [OF assms(1)] by auto
  have ok1: "tables_ok x t1" using import_grown [OF first(1) ok env] by (simp add: grown_def)
  have ext: "extends t1 t2" using history_store [OF later ok1 env] by simp
  have done1: "distinct (map lm_message_id (im_messages request))
      \<and> (\<forall>m \<in> set (im_messages request). holds_record x w t1 m)"
    using first
  proof (rule import_newE)
    fix s row u v
    assume val: "validate_import w request = Inr ()"
      and loop: "try_fold (import_one x w) (im_messages request)
       \<lparr>ist_imported = 0, ist_existing = 0, ist_seen = [], ist_message_ids = [], ist_tables = t\<rparr> = Inr s"
      and row: "insert_import_operation row (ist_tables s) = Inr u"
      and ev: "insert_outbox x (imported_event e w importer (im_operation_id request) r) u = Inr v"
      and t1: "t1 = notify_changed v"
    have "\<forall>m \<in> set (im_messages request). lm_workspace_id m = w"
      using val by (auto simp: validate_import_def list_ex_iff split: if_splits)
    from import_loop_done [OF env ok loop this] have d: "import_done x w (im_messages request) s" .
    have eq: "mt_messages t1 = mt_messages (ist_tables s)" "mt_deliveries t1 = mt_deliveries (ist_tables s)"
      "mt_contexts t1 = mt_contexts (ist_tables s)"
      using row ev by (auto simp: t1 notify_changed_def insert_outbox_def insert_import_operation_def res_simps split: if_splits)
    then have "holds_record x w t1 m = holds_record x w (ist_tables s) m" for m by (rule holds_record_cong)
    with d show ?thesis by (auto simp: import_done_def)
  qed
  then have known: "\<forall>m \<in> set (im_messages request). holds_record x w t2 m"
    using holds_record_keeps ext unread by blast
  obtain s where s: "try_fold (import_one x w) (im_messages request)
       \<lparr>ist_imported = 0, ist_existing = 0, ist_seen = [], ist_message_ids = [], ist_tables = t2\<rparr> = Inr s"
    "ist_imported s = 0" "ist_existing s = length (im_messages request)"
    "ist_message_ids s = map lm_message_id (im_messages request)" "ist_tables s = t2"
    using import_known [OF known, of "\<lparr>ist_imported = 0, ist_existing = 0, ist_seen = [], ist_message_ids = [], ist_tables = t2\<rparr>"]
      done1 by auto
  let ?r = "\<lparr>is_imported = 0, is_existing = length (im_messages request),
            is_message_ids = map lm_message_id (im_messages request)\<rparr>"
  obtain hash where h: "request_hash x (me_legacy_bytes x (im_messages request)) = Inr hash"
    using first(1) by (auto simp: import_legacy_mail_def res_simps)
  obtain v where v: "jc_to_value (me_import_codec x) ?r = Some v"
    using json_codec_okD [OF message_env_okD(6) [OF env]] by blast
  obtain j where j: "jc_to_value (me_envelope_codec x) (imported_event e' w importer' (im_operation_id request') ?r) = Some j"
    using json_codec_okD [OF message_env_okD(4) [OF env]] by blast
  have fresh: "\<not> list_ex (\<lambda>q. import_key q = (w, im_operation_id request')) (mt_import_operations t2)"
    using again(3) by (auto simp: find_import_operation_def find_None_iff list_ex_iff)
  have ev: "\<not> list_ex (\<lambda>q. ox_event_id q = ''evt_'' @ ce_uuid e' 0) (mt_outbox t2)"
    using again(4) unfolding list_ex_iff image_iff by metis
  show ?thesis
    using fresh ev
    by (simp add: import_legacy_mail_def again h s v insert_import_operation_def import_key_def [of "\<lparr>io_workspace_id = _, io_operation_id = _, io_request_hash = _, io_response = _, io_created_at = _, io_actor_kind = _, io_actor_id = _\<rparr>"]
        insert_outbox_def j notify_changed_def) (simp add: imported_event_def)
qed

end
