(* ===== verification/Message_Examples.thy ===== *)
theory Message_Examples
  imports Message_Outbox Message_Import
begin

text \<open>
  A concrete environment that satisfies what the message store relies on, a short history of the
  store in it (a send, its retry, an import, an acknowledgement), and the instances of the message
  properties at that history.
\<close>

section \<open>An environment\<close>

fun unary :: "int \<Rightarrow> string" where
  "unary d = (if d < 0 then CHR ''-'' # replicate (nat (- d)) (CHR ''1'') else replicate (nat d) (CHR ''1''))"

definition of_unary :: "string \<Rightarrow> int option" where
  "of_unary s = Some (if s \<noteq> [] \<and> hd s = CHR ''-'' then - int (length (tl s)) else int (length s))"

lemma of_unary_unary: "of_unary (unary d) = Some d"
  by (cases "nat d") (auto simp: of_unary_def)

fun json_option :: "('a \<Rightarrow> json) \<Rightarrow> 'a option \<Rightarrow> json" where
  "json_option f None = JNull"
| "json_option f (Some v) = JArray [f v]"

fun option_json :: "(json \<Rightarrow> 'a) \<Rightarrow> json \<Rightarrow> 'a option" where
  "option_json f (JArray (v # vs)) = Some (f v)"
| "option_json f v = None"

fun json_string :: "json \<Rightarrow> string" where
  "json_string (JString s) = s"
| "json_string v = []"

fun json_nat :: "json \<Rightarrow> nat" where
  "json_nat (JNumber n) = n"
| "json_nat v = 0"

fun json_strings :: "json \<Rightarrow> string list" where
  "json_strings (JArray vs) = map json_string vs"
| "json_strings v = []"

fun json_map :: "json \<Rightarrow> string btree_map" where
  "json_map (JObject kvs) = map (\<lambda>(k, v). (k, json_string v)) kvs"
| "json_map v = []"

lemma option_json_inverse: "(\<And>v. g (f v) = v) \<Longrightarrow> option_json g (json_option f v) = v"
  by (cases v) simp_all

lemma json_map_inverse: "json_map (JObject (map (\<lambda>(k, v). (k, JString v)) m)) = m"
  by (induction m) auto

definition source_codec :: "message_external_source json_codec" where
  "source_codec = \<lparr>
     jc_to_value = (\<lambda>s. Some (JArray [JString (es_channel s), json_option JString (es_account_id s),
       JString (es_conversation_id s), JString (es_message_id s),
       JObject (map (\<lambda>(k, v). (k, JString v)) (es_metadata s))])),
     jc_from_value = (\<lambda>j. case j of
         JArray [c, a, v, m, d] \<Rightarrow> Some \<lparr>es_channel = json_string c, es_account_id = option_json json_string a,
           es_conversation_id = json_string v, es_message_id = json_string m, es_metadata = json_map d\<rparr>
       | _ \<Rightarrow> None)\<rparr>"

definition envelope_codec :: "domain_event_envelope json_codec" where
  "envelope_codec = \<lparr>
     jc_to_value = (\<lambda>v. Some (JArray [JString (ev_event_id v), JNumber (ev_schema_version v),
       json_option JString (ev_organization_id v), JString (ev_workspace_id v),
       JString (ea_kind (ev_actor v)), json_option JString (ea_id (ev_actor v)), JString (ev_action v),
       JString (er_kind (ev_resource v)), JString (er_id (ev_resource v)), JString (unary (ev_occurred_at v)),
       json_option JString (ev_trace_id v), json_option JString (ev_causation_id v),
       json_option JString (ev_correlation_id v), json_option JNumber (ev_workspace_revision v), ev_payload v])),
     jc_from_value = (\<lambda>j. case j of
         JArray [a, b, c, d, f, g, h, i, k, l, m, n, r, s, v] \<Rightarrow> Some
           \<lparr>ev_event_id = json_string a, ev_schema_version = json_nat b,
            ev_organization_id = option_json json_string c, ev_workspace_id = json_string d,
            ev_actor = \<lparr>ea_kind = json_string f, ea_id = option_json json_string g\<rparr>,
            ev_action = json_string h, ev_resource = \<lparr>er_kind = json_string i, er_id = json_string k\<rparr>,
            ev_occurred_at = the (of_unary (json_string l)), ev_trace_id = option_json json_string m,
            ev_causation_id = option_json json_string n, ev_correlation_id = option_json json_string r,
            ev_workspace_revision = option_json json_nat s, ev_payload = v\<rparr>
       | _ \<Rightarrow> None)\<rparr>"

definition ack_codec :: "acknowledge_messages_response json_codec" where
  "ack_codec = \<lparr>
     jc_to_value = (\<lambda>r. Some (JArray [JArray (map JString (as_acknowledged_delivery_ids r)),
       JArray (map JString (as_already_acknowledged_delivery_ids r))])),
     jc_from_value = (\<lambda>j. case j of
         JArray [a, b] \<Rightarrow> Some \<lparr>as_acknowledged_delivery_ids = json_strings a,
           as_already_acknowledged_delivery_ids = json_strings b\<rparr>
       | _ \<Rightarrow> None)\<rparr>"

definition import_codec :: "import_messages_response json_codec" where
  "import_codec = \<lparr>
     jc_to_value = (\<lambda>r. Some (JArray [JNumber (is_imported r), JNumber (is_existing r),
       JArray (map JString (is_message_ids r))])),
     jc_from_value = (\<lambda>j. case j of
         JArray [a, b, c] \<Rightarrow> Some \<lparr>is_imported = json_nat a, is_existing = json_nat b,
           is_message_ids = json_strings c\<rparr>
       | _ \<Rightarrow> None)\<rparr>"

lemmas json_inverse = option_json_inverse json_map_inverse of_unary_unary comp_def

lemma codecs_ok:
  "json_codec_ok source_codec" "json_codec_ok envelope_codec" "json_codec_ok ack_codec" "json_codec_ok import_codec"
  by (simp_all add: json_codec_ok_def source_codec_def envelope_codec_def ack_codec_def import_codec_def
      json_inverse del: unary.simps json_map.simps)

definition sample_env :: message_env where
  "sample_env = \<lparr>me_to_rfc3339 = unary, me_parse_rfc3339 = of_unary, me_collation_key = id, me_sha256_hex = id,
     me_send_bytes = (\<lambda>f. Some (sf_body f)), me_ids_bytes = (\<lambda>ids. Some (concat ids)),
     me_scoped_ids_bytes = (\<lambda>(e, ids). Some (e @ concat ids)),
     me_legacy_bytes = (\<lambda>ms. Some (concat (map lm_message_id ms))),
     me_source_codec = source_codec, me_envelope_codec = envelope_codec, me_ack_codec = ack_codec,
     me_import_codec = import_codec, me_b64_encode = id, me_b64_decode = Some\<rparr>"

lemma sample_env_ok: "message_env_ok sample_env"
  by (simp add: message_env_ok_def sample_env_def of_unary_unary codecs_ok inj_def del: unary.simps)

lemma ascii_utf8: "\<forall>c \<in> set s. ordb c < 128 \<Longrightarrow> utf8_valid s"
proof (induction s)
  case (Cons c s)
  have "utf8_head (c # s) = 1" using Cons.prems by (cases "c # s" rule: utf8_head.cases) auto
  then show ?case using Cons by (simp add: utf8_valid.simps [of "c # s"])
qed (simp add: utf8_valid.simps)

lemma sample_cursor_ok: "cursor_env_ok sample_env"
  by (auto simp: cursor_env_ok_def sample_env_def intro!: ascii_utf8)

section \<open>A history\<close>

definition alice :: message_principal where
  "alice = \<lparr>mp_app_endpoint = None, mp_path = None, mp_kind = MessageHuman, mp_id = ''a'', mp_name = ''A'', mp_role = None\<rparr>"

definition bob :: message_principal where
  "bob = \<lparr>mp_app_endpoint = Some ''in'', mp_path = None, mp_kind = MessageAgent, mp_id = ''b'', mp_name = ''B'', mp_role = None\<rparr>"

definition call :: "char \<Rightarrow> datetime \<Rightarrow> call_env" where
  "call c now = \<lparr>ce_check_now = now, ce_now = now, ce_count_now = now, ce_uuid = (\<lambda>n. c # replicate n (CHR ''1''))\<rparr>"

definition sample_request :: "string \<Rightarrow> send_message_request" where
  "sample_request body = \<lparr>sm_sender_endpoint = None, sm_recipients = [''bob''], sm_context_ids = [], sm_body = body,
     sm_expires_at = None, sm_idempotency_key = Some ''k'', sm_correlation_id = None, sm_trace_id = None,
     sm_external_source = None\<rparr>"

definition sent_row :: message_row where
  "sent_row = send_row sample_env 1 ''w'' ''msg_p'' alice (sample_request ''hi'') None"

definition sent_delivery :: delivery_row where
  "sent_delivery = send_delivery_row sample_env 1 ''w'' ''msg_p'' (sample_request ''hi'') ''dlv_p1'' 0 bob"

definition sent_event :: domain_event_envelope where
  "sent_event = created_event (call (CHR ''p'') 1) ''w'' alice [bob] (sample_request ''hi'') None ''msg_p'' [''dlv_p1'']"

definition sent :: message_tables where
  "sent = message_open\<lparr>mt_messages := [sent_row], mt_deliveries := [sent_delivery],
     mt_idempotency := [\<lparr>ir_workspace_id = ''w'', ir_sender_kind = ''human'', ir_sender_id = ''a'',
       ir_idempotency_key = ''k'', ir_request_hash = ''hi'', ir_message_id = ''msg_p'', ir_created_at = ''1''\<rparr>],
     mt_outbox := [outbox_row_of sample_env sent_event (the (jc_to_value envelope_codec sent_event))],
     mt_changed := 1\<rparr>"

definition sent_response :: send_message_response where
  "sent_response = \<lparr>sr_message = \<lparr>cm_schema_version = 1, cm_message_id = ''msg_p'', cm_workspace_id = ''w'',
       cm_sender = alice, cm_recipients = [bob], cm_context_ids = [], cm_body = ''hi'', cm_created_at = 1,
       cm_expires_at = None, cm_correlation_id = None, cm_trace_id = None, cm_external_source = None\<rparr>,
     sr_delivery_ids = [''dlv_p1''], sr_idempotent_replay = False\<rparr>"

lemma trim_samples: "trim ''bob'' \<noteq> []" "trim ''hi'' \<noteq> []" "trim ''ho'' \<noteq> []"
  by code_simp+

lemma validate_sample:
  "validate_workspace_and_principal ''w'' alice = Inr ()"
  "validate_send 1 [bob] (sample_request ''hi'') = Inr ()"
  "validate_send 2 [bob] (sample_request ''ho'') = Inr ()"
  by (simp_all add: validate_workspace_and_principal_def validate_send_def alice_def bob_def sample_request_def
      message_limits valid_message_app_endpoint_def endpoint_segment_ok_def is_ascii_alphanumeric_def validate_lineage_def
      recipient_key_def trim_samples)

lemma call_fields [simp]:
  "ce_check_now (call c now) = now" "ce_now (call c now) = now" "ce_count_now (call c now) = now"
  "ce_uuid (call c now) n = c # replicate n (CHR ''1'')"
  by (simp_all add: call_def)

lemma send_sample:
  "send_with_policy_revision sample_env (call (CHR ''p'') 1) ''w'' alice [bob] (sample_request ''hi'') None message_open
     = Inr (sent_response, sent)"
  unfolding send_with_policy_revision_def validate_sample call_fields and_then_simps
  by code_simp

lemma reach_open: "reach (store_init sample_env) (message_step sample_env) message_open"
  by (rule reach_init) (simp add: store_init_def sample_env_ok)

lemma reach_sent: "reach (store_init sample_env) (message_step sample_env) sent"
  using reach_open step_send [OF send_sample] by (rule reach_step)

definition ack_request :: acknowledge_messages_request where
  "ack_request = \<lparr>aq_app_endpoint = Some ''in'', aq_delivery_ids = [''dlv_p1''], aq_operation_id = ''o''\<rparr>"

definition ack_response :: acknowledge_messages_response where
  "ack_response = \<lparr>as_acknowledged_delivery_ids = [''dlv_p1''], as_already_acknowledged_delivery_ids = []\<rparr>"

definition acked_event :: domain_event_envelope where
  "acked_event = acknowledged_event (call (CHR ''q'') 2) ''w'' bob ack_request None 0 ''dlv_p1'' ''msg_p''"

definition acked :: message_tables where
  "acked = sent\<lparr>mt_deliveries := [sent_delivery\<lparr>dr_acknowledged_at := Some ''11''\<rparr>],
     mt_ack_operations := [\<lparr>ao_workspace_id = ''w'', ao_principal_kind = ''agent'', ao_principal_id = ''b'',
       ao_operation_id = ''o'', ao_request_hash = ''indlv_p1'',
       ao_response = the (jc_to_value ack_codec ack_response), ao_created_at = ''11''\<rparr>],
     mt_outbox := mt_outbox sent @ [outbox_row_of sample_env acked_event (the (jc_to_value envelope_codec acked_event))],
     mt_changed := 2\<rparr>"

lemma validate_ack_sample: "validate_ack ack_request = Inr ()"
  by (simp add: validate_ack_def ack_request_def message_limits)

lemma endpoint_sample: "valid_message_app_endpoint ''in''"
  by (simp add: valid_message_app_endpoint_def endpoint_segment_ok_def is_ascii_alphanumeric_def)

lemma endpoint_bob: "mp_app_endpoint bob = Some ''in''"
  by (simp add: bob_def)

lemma ack_sample:
  "acknowledge_with_policy_revision sample_env (call (CHR ''q'') 2) ''w'' bob ack_request None sent = Inr (ack_response, acked)"
  unfolding acknowledge_with_policy_revision_def validate_ack_sample and_then_simps
  by (simp add: validate_endpoint_scope_def endpoint_sample ack_request_def) code_simp

definition carol :: message_principal where
  "carol = bob\<lparr>mp_app_endpoint := None\<rparr>"

definition legacy_message :: "string \<Rightarrow> string list \<Rightarrow> legacy_mail_message" where
  "legacy_message i contexts = \<lparr>lm_message_id = i, lm_workspace_id = ''w'', lm_sender = alice,
     lm_recipients = [\<lparr>lr_principal = carol, lr_position = 0, lr_read_at = Some 1\<rparr>], lm_context_ids = contexts,
     lm_body = ''hi'', lm_created_at = 0\<rparr>"

definition import_request :: "string \<Rightarrow> import_messages_request" where
  "import_request operation_id = \<lparr>im_format = ''legacy-mail-v1'', im_operation_id = operation_id,
     im_messages = [legacy_message ''l'' [], legacy_message ''m'' [''l'']]\<rparr>"

definition import_response :: import_messages_response where
  "import_response = \<lparr>is_imported = 2, is_existing = 0, is_message_ids = [''l'', ''m'']\<rparr>"

definition import_event :: domain_event_envelope where
  "import_event = imported_event (call (CHR ''r'') 3) ''w'' alice ''o'' import_response"

definition imported :: message_tables where
  "imported = message_open\<lparr>
     mt_messages := [legacy_row sample_env (legacy_message ''l'' []), legacy_row sample_env (legacy_message ''m'' [''l''])],
     mt_deliveries := map (\<lambda>i. legacy_delivery_row sample_env (legacy_message i [])
       \<lparr>lr_principal = carol, lr_position = 0, lr_read_at = Some 1\<rparr>) [''l'', ''m''],
     mt_contexts := [\<lparr>xr_message_id = ''m'', xr_workspace_id = ''w'', xr_context_message_id = ''l'', xr_position = 0\<rparr>],
     mt_import_operations := [\<lparr>io_workspace_id = ''w'', io_operation_id = ''o'', io_request_hash = ''lm'',
       io_response = the (jc_to_value import_codec import_response), io_created_at = ''111'', io_actor_kind = ''human'',
       io_actor_id = ''a''\<rparr>],
     mt_outbox := [outbox_row_of sample_env import_event (the (jc_to_value envelope_codec import_event))],
     mt_changed := 1\<rparr>"

lemma validate_import_sample: "validate_import ''w'' (import_request ''o'') = Inr ()" "validate_import ''w'' (import_request ''n'') = Inr ()"
  by (simp_all add: validate_import_def import_request_def message_limits legacy_message_def)

lemma validate_legacy_sample: "validate_legacy_message ''w'' (legacy_message ''l'' []) = Inr ()"
  "validate_legacy_message ''w'' (legacy_message ''m'' [''l'']) = Inr ()"
  by (simp_all add: validate_legacy_message_def legacy_message_def carol_def validate_workspace_and_principal_def
      alice_def bob_def message_limits trim_samples)

lemma import_messages_sample: "im_messages (import_request operation_id) = [legacy_message ''l'' [], legacy_message ''m'' [''l'']]"
  by (simp add: import_request_def)

lemma import_sample:
  "import_legacy_mail sample_env (call (CHR ''r'') 3) ''w'' alice (import_request ''o'') message_open
     = Inr (import_response, imported)"
  unfolding import_legacy_mail_def validate_import_sample and_then_simps import_messages_sample try_fold.simps
    import_one_def validate_legacy_sample
  by code_simp

section \<open>Instances of the properties\<close>

theorem send_runs_once_witness:
  "send_with_policy_revision sample_env (call (CHR ''q'') 1) ''w'' alice [bob] (sample_request ''hi'') None acked
     = Inr (sent_response\<lparr>sr_idempotent_replay := True\<rparr>, acked)
   \<and> send_with_policy_revision sample_env (call (CHR ''q'') 2) ''w'' alice [bob] (sample_request ''ho'') None acked
     = Inl (Contract ''message_idempotency_conflict'' ''idempotency key was already used for a different message'')"
proof -
  have later: "(message_step sample_env)\<^sup>*\<^sup>* sent acked" using step_ack [OF ack_sample] by blast
  have hash: "request_hash sample_env (me_send_bytes sample_env (send_fingerprint_of alice [bob] (sample_request body))) = Inr body" for body
    by (simp add: request_hash_def sample_env_def send_fingerprint_of_def sample_request_def)
  note * = send_runs_once [OF reach_open send_sample _ hash later, where key = "''k''" and sender' = alice and recipients' = "[bob]"]
  show ?thesis
    using * [where request' = "sample_request ''hi''" and e' = "call (CHR ''q'') 1" and prev' = None]
      * [where request' = "sample_request ''ho''" and e' = "call (CHR ''q'') 2" and prev' = None]
      hash validate_sample by (simp add: sample_request_def)
qed

text \<open>A message that expires at 10, sent at 1 and sent again at 9 and at 10.\<close>

definition brief_request :: send_message_request where
  "brief_request = (sample_request ''hi'')\<lparr>sm_expires_at := Some 10\<rparr>"

definition brief_sent :: "send_message_response \<times> message_tables" where
  "brief_sent = (case send_with_policy_revision sample_env (call (CHR ''p'') 1) ''w'' alice [bob] brief_request None message_open of
     Inr rt \<Rightarrow> rt | Inl _ \<Rightarrow> (sent_response, message_open))"

theorem identical_retry_until_expiry_witness:
  "send_with_policy_revision sample_env (call (CHR ''q'') 9) ''w'' alice [bob] brief_request None (snd brief_sent)
     = Inr ((fst brief_sent)\<lparr>sr_idempotent_replay := True\<rparr>, snd brief_sent)
   \<and> send_with_policy_revision sample_env (call (CHR ''q'') 10) ''w'' alice [bob] brief_request None (snd brief_sent)
     = Inl (Contract ''message_expiry_invalid'' ''message expiry must be in the future'')"
proof -
  have valid: "validate_send 1 [bob] brief_request = Inr ()"
    by (simp add: validate_send_def bob_def brief_request_def sample_request_def validate_workspace_and_principal_def
      message_limits valid_message_app_endpoint_def endpoint_segment_ok_def is_ascii_alphanumeric_def validate_lineage_def
      recipient_key_def trim_samples)
  have "(case send_with_policy_revision sample_env (call (CHR ''p'') 1) ''w'' alice [bob] brief_request None message_open of
      Inr _ \<Rightarrow> True | Inl _ \<Rightarrow> False)"
    unfolding send_with_policy_revision_def validate_sample call_fields and_then_simps valid by code_simp
  then have "send_with_policy_revision sample_env (call (CHR ''p'') 1) ''w'' alice [bob] brief_request None message_open
      = Inr (fst brief_sent, snd brief_sent)"
    by (auto simp: brief_sent_def split: sum.splits)
  from identical_retry_until_expiry [OF reach_open this _ rtranclp.rtrancl_refl, where key = "''k''" and prev' = None]
  show ?thesis by (simp add: brief_request_def sample_request_def call_fields is_some_and_def)
qed

theorem acknowledged_never_redelivered_witness:
  "\<exists>out. receive_now sample_env (call (CHR ''z'') 5) ''w'' bob 10 None acked = Inr out
     \<and> ''dlv_p1'' \<notin> md_delivery_id ` set (rr_deliveries out)"
proof -
  have got: "receive_now sample_env (call (CHR ''z'') 5) ''w'' bob 10 None acked
      = Inr \<lparr>rr_next_cursor = None, rr_deliveries = [], rr_remaining_unacknowledged = 0\<rparr>" by code_simp
  show ?thesis
    using acknowledged_never_redelivered [OF reach_sent ack_sample _ _ got, of "''dlv_p1''"] got
    by (simp add: ack_response_def)
qed

theorem acknowledge_exact_witness:
  "as_acknowledged_delivery_ids ack_response = filter (\<lambda>i. \<not> acked_in sent i) (aq_delivery_ids ack_request)
   \<and> mt_deliveries acked = map (mark_acked ''11'' [''dlv_p1'']) (mt_deliveries sent)"
proof -
  have "find_ack_operation sent ''w'' bob (aq_operation_id ack_request) = None" by code_simp
  moreover have "me_to_rfc3339 sample_env (ce_now (call (CHR ''q'') 2)) = ''11''" by code_simp
  ultimately show ?thesis using acknowledge_exact [OF reach_sent ack_sample] by (simp add: ack_response_def)
qed

theorem context_graph_acyclic_witness:
  "acyclic (context_graph imported) \<and> context_graph imported = {((''w'', ''l''), (''w'', ''m''))}"
proof -
  have "reach (store_init sample_env) (message_step sample_env) imported"
    using reach_open step_import [OF import_sample] by (rule reach_step)
  from context_graph_acyclic [OF this] show ?thesis by (simp add: context_graph_def imported_def)
qed

theorem reads_only_own_messages_witness:
  "message_get sample_env sent ''w'' bob ''msg_p'' = Inr (sr_message sent_response) \<and> party bob (sr_message sent_response)
   \<and> message_get sample_env sent ''w'' (bob\<lparr>mp_id := ''c''\<rparr>) ''msg_p''
       = Inl (Contract ''message_not_found'' ''message does not exist or is not visible'')"
proof -
  have "message_get sample_env sent ''w'' bob ''msg_p'' = Inr (sr_message sent_response)" by code_simp
  moreover have "message_get sample_env sent ''w'' (bob\<lparr>mp_id := ''c''\<rparr>) ''msg_p''
      = Inl (Contract ''message_not_found'' ''message does not exist or is not visible'')" by code_simp
  ultimately show ?thesis using reads_only_own_messages [OF reach_sent] by blast
qed

theorem inbox_scan_complete_witness:
  "\<exists>ds. receive_scan sample_env (call (CHR ''z'') 5) ''w'' bob 1 sent 2 None = Some (Inr ds)
     \<and> map md_delivery_id ds = [''dlv_p1'']"
proof -
  have ids: "\<forall>d \<in> set (mt_deliveries sent). cursor_id_ok (dr_delivery_id d)"
    by (simp add: sent_def sent_delivery_def send_delivery_row_def cursor_id_ok_def ascii_utf8)
  have limit: "validate_page_size 1 = Inr ()" by (simp add: validate_page_size_def message_limits)
  have "map dr_delivery_id (inbox sample_env (ce_now (call (CHR ''z'') 5)) sent ''w'' bob) = [''dlv_p1'']"
    by code_simp
  moreover from this have "length (inbox sample_env (ce_now (call (CHR ''z'') 5)) sent ''w'' bob) < 2"
    by (metis length_map length_Cons list.size(3) less_2_cases_iff One_nat_def)
  ultimately show ?thesis
    using inbox_scan_complete [OF reach_sent sample_cursor_ok ids limit endpoint_bob endpoint_sample] by metis
qed

theorem created_event_exactly_once_witness:
  "length (filter (created_for sample_env ''w'' ''msg_p'') (mt_outbox acked)) = 1"
proof -
  have later: "(message_step sample_env)\<^sup>*\<^sup>* sent acked" using step_ack [OF ack_sample] by blast
  show ?thesis using created_event_exactly_once [OF reach_open send_sample _ later] by (simp add: sent_response_def)
qed

theorem dispatch_exact_witness:
  "\<exists>t. dispatch_pending sample_env {} (\<lambda>v. ev_workspace_id v = ''w'') 7 sent = (Inr (1, t), [sent_event])"
proof -
  let ?rows = "takeWhile (\<lambda>q. (\<lambda>v. ev_workspace_id v = ''w'') (envelope_of sample_env q)) (pending_rows sample_env {} sent)"
  have "length ?rows = 1 \<and> map (envelope_of sample_env) ?rows = [sent_event]" by code_simp
  with dispatch_exact [OF reach_sent refl, of "{}" "\<lambda>v. ev_workspace_id v = ''w''" 7] show ?thesis by auto
qed

theorem outbox_drains_witness:
  "\<exists>t. dispatch_times sample_env 7 1 sent = (Inr t, map (envelope_of sample_env) (undispatched sample_env sent))
     \<and> undispatched sample_env t = [] \<and> undispatched sample_env sent \<noteq> []"
proof -
  have "length (undispatched sample_env sent) = 1" by code_simp
  with outbox_drains [OF reach_sent, of 1] show ?thesis by fastforce
qed

theorem import_again_changes_nothing_witness:
  "\<exists>t. import_legacy_mail sample_env (call (CHR ''s'') 4) ''w'' alice (import_request ''n'') imported =
      Inr (\<lparr>is_imported = 0, is_existing = 2, is_message_ids = [''l'', ''m'']\<rparr>, t)
    \<and> mt_messages t = mt_messages imported \<and> mt_deliveries t = mt_deliveries imported
    \<and> mt_contexts t = mt_contexts imported"
proof -
  have new: "find_import_operation message_open ''w'' (im_operation_id (import_request ''o'')) = None"
    "find_import_operation imported ''w'' (im_operation_id (import_request ''n'')) = None" by code_simp+
  have fresh: "''evt_'' @ ce_uuid (call (CHR ''s'') 4) 0 \<notin> ox_event_id ` set (mt_outbox imported)" by code_simp
  show ?thesis
    using import_again_changes_nothing [OF reach_open import_sample new(1) _ _ validate_import_sample(2) _ new(2) fresh, of alice]
    by (simp add: import_messages_sample legacy_message_def numeral_2_eq_2)
qed

end
