(* ===== verification/Org_Types.thy ===== *)
theory Org_Types
  imports Workload_Store Message_Types "HOL-Library.Word"
begin

text \<open>
  The rows that decide who may do what: users, organizations, their members and groups,
  workspaces with their user and group grants, invitations and the audit trail, as
  \<open>schema.sql\<close> declares them, with the machine tables a workspace deletion touches and the three
  maps of \<open>AuthStore\<close> that shadow them.  A table is a list of rows; the
  primary keys, foreign keys and checks that PostgreSQL enforces refuse a statement that breaks them.

  A method of \<open>AuthStore\<close> returns its answer with the state it leaves behind.  A method that works
  in one transaction returns the old state with an error; one that runs its statements directly on
  the pool keeps the statements that were executed before the error (\<open>try_op\<close>).
\<close>

section \<open>Rows\<close>

datatype admin_actor = ActorUser string | ActorAgent (actor_agent_id: string) (actor_workspace_id: string)

datatype organization_role = RoleOwner | RoleAdmin | RoleMember

fun organization_role_as_str :: "organization_role \<Rightarrow> string" where
  "organization_role_as_str RoleOwner = ''owner''"
| "organization_role_as_str RoleAdmin = ''admin''"
| "organization_role_as_str RoleMember = ''member''"

definition organization_role_parse :: "string \<Rightarrow> organization_role option" where
  "organization_role_parse v =
     (if v = ''owner'' then Some RoleOwner else if v = ''admin'' then Some RoleAdmin
      else if v = ''member'' then Some RoleMember else None)"

record user_row =
  us_id :: string
  us_email :: string
  us_preferred_name :: string

record organization_row =
  or_id :: string
  or_name :: string
  or_created_at :: string
  or_created_by :: string

record member_row =
  om_org :: string
  om_user :: string
  om_role :: string
  om_joined_at :: string

record workspace_row =
  ws_id :: string
  ws_org :: string
  ws_name :: string
  ws_created_at :: string
  ws_created_by :: string
  ws_access_mode :: string
  ws_deleted_at :: "string option"
  ws_deleted_by :: "string option"

record group_row =
  og_id :: string
  og_org :: string
  og_name :: string
  og_created_at :: string
  og_created_by :: string

record group_member_row =
  gm_group :: string
  gm_user :: string
  gm_added_at :: string
  gm_added_by :: string

record user_grant_row =
  ug_workspace :: string
  ug_user :: string
  ug_role :: string
  ug_created_at :: string
  ug_created_by :: string

record group_grant_row =
  wg_workspace :: string
  wg_group :: string
  wg_role :: string
  wg_created_at :: string
  wg_created_by :: string

record invitation_row =
  iv_token :: string
  iv_id :: string
  iv_created_at :: string
  iv_created_by :: string
  iv_created_by_kind :: string
  iv_created_by_name :: "string option"
  iv_kind :: string
  iv_org :: "string option"
  iv_role :: "string option"
  iv_email :: "string option"
  iv_expires_at :: "datetime option"
  iv_revoked_at :: "datetime option"
  iv_used_at :: "string option"
  iv_used_by :: "string option"
  iv_group_ids :: "string list"
  iv_workspace_ids :: "string list"
  iv_explicit_role :: bool

record audit_row =
  aud_organization :: string
  aud_workspace :: "string option"
  aud_occurred_at :: string
  aud_actor_kind :: string
  aud_actor_id :: "string option"
  aud_actor_name :: "string option"
  aud_source :: string
  aud_action :: string
  aud_resource_kind :: string
  aud_resource_id :: string
  aud_resource_name :: "string option"
  aud_payload :: json

record platform_audit_row =
  pa_occurred_at :: string
  pa_action :: string
  pa_resource_kind :: string
  pa_resource_id :: string
  pa_resource_name :: string
  pa_payload :: json

record machine_row =
  mc_server :: string
  mc_workspace :: string
  mc_revoked_at :: "string option"

record enrollment_row =
  en_token :: string
  en_workspace :: string
  en_used_at :: "string option"

record agent_credential_row =
  cr_agent :: string
  cr_workspace :: string
  cr_revoked_at :: "string option"

record launch_profile_row =
  lp_workspace :: string
  lp_name :: string
  lp_description :: string
  lp_command :: string
  lp_args :: "string list"
  lp_created_at :: string
  lp_created_by :: string

text \<open>
  Tables of which only the workspace and the key matter here are lists of (workspace, key);
  \<open>db_agent_names\<close> also has the name.  \<open>db_cached_credentials\<close>, \<open>db_cached_ingresses\<close> and
  \<open>db_virtual_hosts_map\<close> are the in-memory maps, \<open>db_hosts_revision\<close> the \<open>AtomicU64\<close> beside them.
\<close>

record org_db =
  db_users :: "user_row list"
  db_organizations :: "organization_row list"
  db_members :: "member_row list"
  db_workspaces :: "workspace_row list"
  db_groups :: "group_row list"
  db_group_members :: "group_member_row list"
  db_user_grants :: "user_grant_row list"
  db_group_grants :: "group_grant_row list"
  db_invitations :: "invitation_row list"
  db_audit :: "audit_row list"
  db_platform_audit :: "platform_audit_row list"
  db_profiles :: "launch_profile_row list"
  db_machines :: "machine_row list"
  db_machine_names :: "(string \<times> string) list"
  db_machine_services :: "(string \<times> string) list"
  db_agent_names :: "(string \<times> string \<times> string) list"
  db_virtual_network_hosts :: "(string \<times> string) list"
  db_enrollments :: "enrollment_row list"
  db_credentials :: "agent_credential_row list"
  db_apps :: "(string \<times> string) list"
  db_traffic :: "(string \<times> string) list"
  db_agent_traffic :: "(string \<times> string) list"
  db_network_receipts :: "(string \<times> string) list"
  db_cached_credentials :: "(string \<times> string) list"
  db_cached_ingresses :: "(string \<times> string) list"
  db_virtual_hosts_map :: "string list"
  db_hosts_revision :: "64 word"

text \<open>
  The configuration of \<open>AuthStore\<close> and the libraries its queries use: \<open>lower()\<close> and the collation
  of the database as a sort key, the hash and the time and URL crates, and the bundled launch
  profiles.  \<open>tick\<close> is the clock of one call, as text and as \<open>now()\<close>.
\<close>

record launch_profile =
  dp_name :: string
  dp_description :: string
  dp_command :: string
  dp_args :: "string list"

record org_env =
  oe_disabled :: bool
  oe_invitation_required :: bool
  oe_has_sender :: bool
  oe_lower :: "string \<Rightarrow> string"
  oe_collate :: "string \<Rightarrow> string"
  oe_secret_hash :: "string \<Rightarrow> string"
  oe_parse_rfc3339 :: "string \<Rightarrow> datetime option"
  oe_invitation_url :: "string \<Rightarrow> string"
  oe_bundle :: "(string \<times> launch_profile list) option"

record tick =
  tk_stamp :: string
  tk_now :: datetime

section \<open>Failures and methods\<close>

definition auth_forbidden :: "string \<Rightarrow> string \<Rightarrow> auth_failure" where
  "auth_forbidden c m = \<lparr>af_status = 403, af_error = protocol_error_new c m\<rparr>"

definition auth_internal :: "string \<Rightarrow> string \<Rightarrow> auth_failure" where
  "auth_internal c m = \<lparr>af_status = 500, af_error = protocol_error_new c m\<rparr>"

definition agent_scope_denied :: auth_failure where
  "agent_scope_denied = auth_forbidden ''agent_scope_denied''
     ''Agents administer only their own workspace and its organization''"

definition last_owner :: auth_failure where
  "last_owner = auth_conflict ''last_owner'' ''an organization must keep at least one owner''"

definition invalid_invitation :: auth_failure where
  "invalid_invitation = bad_request ''invalid_invitation'' ''invitation is invalid or already used''"

definition workspace_not_found :: auth_failure where
  "workspace_not_found = auth_not_found ''workspace_not_found'' ''workspace does not exist''"

definition organization_access_denied :: auth_failure where
  "organization_access_denied = auth_forbidden ''organization_access_denied''
     ''you are not a member of this organization''"

definition organization_owner_required :: auth_failure where
  "organization_owner_required = auth_forbidden ''organization_owner_required''
     ''organization owner access required''"

definition organization_not_found :: auth_failure where
  "organization_not_found = auth_not_found ''organization_not_found'' ''organization does not exist''"

definition member_not_found :: auth_failure where
  "member_not_found = auth_not_found ''member_not_found'' ''member does not exist''"

type_synonym 'a outcome = "'a auth_res \<times> org_db"

text \<open>\<open>?\<close> on a result computed while the stored state is \<open>db\<close>, and the end of a transaction.\<close>

definition try_op :: "'a auth_res \<Rightarrow> org_db \<Rightarrow> ('a \<Rightarrow> 'b outcome) \<Rightarrow> 'b outcome" where
  "try_op r db k = (case r of Inl e \<Rightarrow> (Inl e, db) | Inr v \<Rightarrow> k v)"

definition commit_op :: "('a \<times> org_db) auth_res \<Rightarrow> org_db \<Rightarrow> 'a outcome" where
  "commit_op r db = (case r of Inl e \<Rightarrow> (Inl e, db) | Inr (v, db') \<Rightarrow> (Inr v, db'))"

definition ensure :: "bool \<Rightarrow> auth_failure \<Rightarrow> unit auth_res" where
  "ensure b e = (if b then Inr () else Inl e)"

lemma ensure_simps [simp]: "ensure True e = Inr ()" "ensure False e = Inl e"
  by (simp_all add: ensure_def)

lemma ensure_Inr [simp]: "ensure b e = Inr u \<longleftrightarrow> b"
  by (simp add: ensure_def)

lemma ensure_Inl [simp]: "ensure b e = Inl f \<longleftrightarrow> \<not> b \<and> f = e"
  by (auto simp: ensure_def)

lemma try_op_simps [simp]: "try_op (Inl e) db k = (Inl e, db)" "try_op (Inr v) db k = k v"
  by (simp_all add: try_op_def)

lemma commit_op_simps [simp]:
  "commit_op (Inl e) db = (Inl e, db)" "commit_op (Inr (v, db')) db = (Inr v, db')"
  by (simp_all add: commit_op_def)

lemma try_op_state:
  "P db \<Longrightarrow> (\<And>v. r = Inr v \<Longrightarrow> P (snd (k v))) \<Longrightarrow> P (snd (try_op r db k))"
  by (cases r) auto

lemma commit_op_state:
  "P db \<Longrightarrow> (\<And>v db'. r = Inr (v, db') \<Longrightarrow> P db') \<Longrightarrow> P (snd (commit_op r db))"
  by (cases r) auto

lemma pair_state: "P db \<Longrightarrow> P (snd (r, db))"
  by simp

lemma try_op_Inr [res_simps]: "fst (try_op r db k) = Inr y \<longleftrightarrow> (\<exists>v. r = Inr v \<and> fst (k v) = Inr y)"
  by (cases r) auto

lemma commit_op_Inr [res_simps]: "fst (commit_op r db) = Inr y \<longleftrightarrow> (\<exists>db'. r = Inr (y, db'))"
  by (cases r) auto

section \<open>Actors\<close>

fun actor_kind :: "admin_actor \<Rightarrow> string" where
  "actor_kind (ActorUser u) = ''user''"
| "actor_kind (ActorAgent a w) = ''agent''"

fun actor_id :: "admin_actor \<Rightarrow> string" where
  "actor_id (ActorUser u) = u"
| "actor_id (ActorAgent a w) = a"

fun actor_label :: "admin_actor \<Rightarrow> string" where
  "actor_label (ActorUser u) = u"
| "actor_label (ActorAgent a w) = ''agent:'' @ a"

fun actor_user_id :: "admin_actor \<Rightarrow> string option" where
  "actor_user_id (ActorUser u) = Some u"
| "actor_user_id (ActorAgent a w) = None"

section \<open>Lookups by key\<close>

definition live_workspace :: "org_db \<Rightarrow> string \<Rightarrow> workspace_row option" where
  "live_workspace db w = find (\<lambda>r. ws_id r = w \<and> ws_deleted_at r = None) (db_workspaces db)"

definition member_of :: "org_db \<Rightarrow> string \<Rightarrow> string \<Rightarrow> member_row option" where
  "member_of db o' u = find (\<lambda>m. om_org m = o' \<and> om_user m = u) (db_members db)"

definition user_grant_of :: "org_db \<Rightarrow> string \<Rightarrow> string \<Rightarrow> user_grant_row option" where
  "user_grant_of db w u = find (\<lambda>g. ug_workspace g = w \<and> ug_user g = u) (db_user_grants db)"

definition organization_of :: "org_db \<Rightarrow> string \<Rightarrow> organization_row option" where
  "organization_of db o' = find (\<lambda>r. or_id r = o') (db_organizations db)"

definition user_of :: "org_db \<Rightarrow> string \<Rightarrow> user_row option" where
  "user_of db u = find (\<lambda>r. us_id r = u) (db_users db)"

section \<open>Audit\<close>

text \<open>
  The insert fails when the organization does not exist (foreign key).  The random event ID,
  the constant outcome and the second copy of the workspace ID are left out.
\<close>

definition audit_actor_name :: "org_db \<Rightarrow> string \<Rightarrow> string option \<Rightarrow> string option" where
  "audit_actor_name db kind i = (case i of None \<Rightarrow> None | Some a \<Rightarrow>
     if kind = ''agent'' then map_option (snd \<circ> snd) (find (\<lambda>(w, g, n). g = a) (db_agent_names db))
     else map_option us_preferred_name (user_of db a))"

definition audit_insert ::
  "tick \<Rightarrow> string \<Rightarrow> string option \<Rightarrow> string \<Rightarrow> string option \<Rightarrow> string \<Rightarrow> string \<Rightarrow> string \<Rightarrow> string
   \<Rightarrow> string option \<Rightarrow> json \<Rightarrow> org_db \<Rightarrow> org_db auth_res" where
  "audit_insert t o' w kind i source action rkind rid rname payload db =
     (if organization_of db o' = None then Inl auth_database_error
      else Inr (db\<lparr>db_audit := db_audit db @ [\<lparr>aud_organization = o', aud_workspace = w,
         aud_occurred_at = tk_stamp t, aud_actor_kind = kind, aud_actor_id = i,
         aud_actor_name = audit_actor_name db kind i, aud_source = source, aud_action = action,
         aud_resource_kind = rkind, aud_resource_id = rid, aud_resource_name = rname,
         aud_payload = payload\<rparr>]\<rparr>))"

definition record_organization_audit ::
  "tick \<Rightarrow> string \<Rightarrow> admin_actor \<Rightarrow> string \<Rightarrow> string \<Rightarrow> string \<Rightarrow> string option \<Rightarrow> json
   \<Rightarrow> org_db \<Rightarrow> org_db auth_res" where
  "record_organization_audit t o' actor action rkind rid rname payload =
     audit_insert t o' None (actor_kind actor) (Some (actor_id actor)) ''api'' action rkind rid rname payload"

definition record_workspace_audit ::
  "tick \<Rightarrow> string \<Rightarrow> string \<Rightarrow> string option \<Rightarrow> string \<Rightarrow> string \<Rightarrow> string \<Rightarrow> string option \<Rightarrow> json
   \<Rightarrow> org_db \<Rightarrow> org_db auth_res" where
  "record_workspace_audit t w kind i action rkind rid rname payload db =
     (case find (\<lambda>r. ws_id r = w) (db_workspaces db) of
        None \<Rightarrow> Inl auth_database_error
      | Some r \<Rightarrow> audit_insert t (ws_org r) (Some w) kind i ''runtime'' action rkind rid rname payload db)"

definition record_access_audit ::
  "tick \<Rightarrow> string \<Rightarrow> admin_actor \<Rightarrow> string \<Rightarrow> string \<Rightarrow> string \<Rightarrow> json \<Rightarrow> org_db \<Rightarrow> org_db auth_res" where
  "record_access_audit t w actor action rkind rid =
     record_workspace_audit t w (actor_kind actor) (Some (actor_id actor)) action rkind rid None"

end
