(* ===== verification/Org_Access.thy ===== *)
theory Org_Access
  imports Org_Types
begin

text \<open>
  Who has access: the membership and ownership checks of \<open>auth/machines.rs\<close>,
  \<open>auth/organizations.rs\<close> and \<open>auth/org_admin.rs\<close>, for human sessions and for Agents, and the four
  places that report access to a workspace: the role check, the list of a workspace's humans, the
  list of a user's workspaces and the effective access of the settings page.
\<close>

section \<open>Membership\<close>

definition membership_role :: "org_env \<Rightarrow> org_db \<Rightarrow> string \<Rightarrow> string \<Rightarrow> string option" where
  "membership_role x db o' u =
     (if oe_disabled x then
        (if organization_of db o' \<noteq> None then Some ''owner'' else None)
      else map_option om_role (member_of db o' u))"

definition require_organization_member :: "org_env \<Rightarrow> org_db \<Rightarrow> string \<Rightarrow> string \<Rightarrow> string auth_res" where
  "require_organization_member x db o' u = ok_or_else (membership_role x db o' u) organization_access_denied"

definition require_manager :: "org_env \<Rightarrow> org_db \<Rightarrow> string \<Rightarrow> string \<Rightarrow> string auth_res" where
  "require_manager x db o' u = and_then (require_organization_member x db o' u) (\<lambda>role.
     if role \<in> {''owner'', ''admin''} then Inr role
     else Inl (auth_forbidden ''organization_manager_required''
       ''organization owner or administrator access required''))"

definition workspace_organization :: "org_db \<Rightarrow> string \<Rightarrow> string auth_res" where
  "workspace_organization db w = ok_or_else (map_option ws_org (live_workspace db w)) workspace_not_found"

definition require_agent_organization :: "org_db \<Rightarrow> string \<Rightarrow> string \<Rightarrow> unit auth_res" where
  "require_agent_organization db agent_workspace o' =
     and_then (workspace_organization db agent_workspace) (\<lambda>own. ensure (own = o') agent_scope_denied)"

fun require_agent_workspace :: "admin_actor \<Rightarrow> string \<Rightarrow> unit auth_res" where
  "require_agent_workspace (ActorAgent a own) w = ensure (own = w) agent_scope_denied"
| "require_agent_workspace (ActorUser u) w = Inr ()"

fun require_member_as :: "org_env \<Rightarrow> org_db \<Rightarrow> string \<Rightarrow> admin_actor \<Rightarrow> string auth_res" where
  "require_member_as x db o' (ActorUser u) = require_organization_member x db o' u"
| "require_member_as x db o' (ActorAgent a w) =
     and_then (require_agent_organization db w o') (\<lambda>_. Inr ''agent'')"

fun require_manager_as :: "org_env \<Rightarrow> org_db \<Rightarrow> string \<Rightarrow> admin_actor \<Rightarrow> string auth_res" where
  "require_manager_as x db o' (ActorUser u) = require_manager x db o' u"
| "require_manager_as x db o' (ActorAgent a w) = require_member_as x db o' (ActorAgent a w)"

definition require_owner_as :: "org_env \<Rightarrow> org_db \<Rightarrow> string \<Rightarrow> admin_actor \<Rightarrow> string auth_res" where
  "require_owner_as x db o' actor = and_then (require_member_as x db o' actor) (\<lambda>role.
     if role \<in> {''owner'', ''agent''} then Inr role else Inl organization_owner_required)"

section \<open>Workspace roles\<close>

text \<open>A group grant on the workspace that satisfies \<open>P\<close>, through a group the user is in.\<close>

definition group_grant_exists :: "org_db \<Rightarrow> string \<Rightarrow> string \<Rightarrow> (group_grant_row \<Rightarrow> bool) \<Rightarrow> bool" where
  "group_grant_exists db w u P =
     list_ex (\<lambda>wg. wg_workspace wg = w \<and> P wg
        \<and> list_ex (\<lambda>gm. gm_group gm = wg_group wg \<and> gm_user gm = u) (db_group_members db))
       (db_group_grants db)"

definition workspace_role_case :: "org_db \<Rightarrow> workspace_row \<Rightarrow> member_row \<Rightarrow> string \<Rightarrow> string option" where
  "workspace_role_case db r om u =
     (let ug = user_grant_of db (ws_id r) u in
      if om_role om \<in> {''owner'', ''admin''} then Some ''owner''
      else if is_some_and ug (\<lambda>g. ug_role g = ''owner'')
              \<or> group_grant_exists db (ws_id r) u (\<lambda>wg. wg_role wg = ''owner'') then Some ''owner''
      else if ws_access_mode r = ''organization'' \<or> ug \<noteq> None
              \<or> group_grant_exists db (ws_id r) u (\<lambda>wg. True) then Some ''member''
      else None)"

definition workspace_member_role :: "org_env \<Rightarrow> org_db \<Rightarrow> string \<Rightarrow> string \<Rightarrow> string auth_res" where
  "workspace_member_role x db w u =
     (if oe_disabled x then
        (if live_workspace db w \<noteq> None then Inr ''owner'' else Inl workspace_not_found)
      else case live_workspace db w of
          None \<Rightarrow> Inl workspace_not_found
        | Some r \<Rightarrow> (case Option.bind (member_of db (ws_org r) u) (\<lambda>om. workspace_role_case db r om u) of
              Some role \<Rightarrow> Inr role
            | None \<Rightarrow> Inl (auth_forbidden ''workspace_access_denied''
                ''you do not have access to this workspace'')))"

definition require_workspace_member :: "org_env \<Rightarrow> org_db \<Rightarrow> string \<Rightarrow> string \<Rightarrow> unit auth_res" where
  "require_workspace_member x db w u = and_then (workspace_member_role x db w u) (\<lambda>_. Inr ())"

definition workspace_owner_required :: auth_failure where
  "workspace_owner_required = auth_forbidden ''workspace_owner_required'' ''workspace owner access required''"

definition require_workspace_owner :: "org_env \<Rightarrow> org_db \<Rightarrow> string \<Rightarrow> string \<Rightarrow> unit auth_res" where
  "require_workspace_owner x db w u = and_then (workspace_member_role x db w u) (\<lambda>role.
     ensure (role = ''owner'') workspace_owner_required)"

fun workspace_role_as :: "org_env \<Rightarrow> org_db \<Rightarrow> string \<Rightarrow> admin_actor \<Rightarrow> string auth_res" where
  "workspace_role_as x db w (ActorUser u) = workspace_member_role x db w u"
| "workspace_role_as x db w (ActorAgent a own) =
     and_then (require_agent_workspace (ActorAgent a own) w) (\<lambda>_.
     and_then (workspace_organization db w) (\<lambda>_. Inr ''agent''))"

definition require_workspace_owner_as :: "org_env \<Rightarrow> org_db \<Rightarrow> string \<Rightarrow> admin_actor \<Rightarrow> unit auth_res" where
  "require_workspace_owner_as x db w actor = and_then (workspace_role_as x db w actor) (\<lambda>role.
     ensure (role \<in> {''owner'', ''agent''}) workspace_owner_required)"

section \<open>Organizations and members\<close>

record organization_info =
  oi_organization_id :: string
  oi_name :: string
  oi_role :: string
  oi_created_at :: string

record organization_member =
  mm_user_id :: string
  mm_email :: string
  mm_preferred_name :: string
  mm_role :: string
  mm_joined_at :: string

record organization_group =
  gr_group_id :: string
  gr_organization_id :: string
  gr_name :: string
  gr_member_ids :: "string list"

definition organization_info_of :: "organization_row \<Rightarrow> string \<Rightarrow> organization_info" where
  "organization_info_of r role = \<lparr>oi_organization_id = or_id r, oi_name = or_name r, oi_role = role,
     oi_created_at = or_created_at r\<rparr>"

definition by_name :: "org_env \<Rightarrow> string \<Rightarrow> string \<Rightarrow> string \<times> string" where
  "by_name x name i = (oe_collate x (oe_lower x name), oe_collate x i)"

definition list_organizations :: "org_env \<Rightarrow> org_db \<Rightarrow> string \<Rightarrow> organization_info list" where
  "list_organizations x db u =
     (if oe_disabled x then
        map (\<lambda>r. organization_info_of r ''owner'')
          (sort_key (\<lambda>r. by_name x (or_name r) (or_id r)) (db_organizations db))
      else map (\<lambda>(r, m). organization_info_of r (om_role m))
          (sort_key (\<lambda>(r, m). by_name x (or_name r) (or_id r))
             [(r, m). r \<leftarrow> db_organizations db, m \<leftarrow> db_members db, om_org m = or_id r \<and> om_user m = u]))"

definition role_order :: "string \<Rightarrow> nat" where
  "role_order role = (if role = ''owner'' then 0 else if role = ''admin'' then 1 else 2)"

definition list_members_as :: "org_env \<Rightarrow> org_db \<Rightarrow> string \<Rightarrow> admin_actor \<Rightarrow> organization_member list auth_res" where
  "list_members_as x db o' actor = and_then (require_member_as x db o' actor) (\<lambda>_.
     Inr (map (\<lambda>(m, u). \<lparr>mm_user_id = us_id u, mm_email = us_email u,
             mm_preferred_name = us_preferred_name u, mm_role = om_role m, mm_joined_at = om_joined_at m\<rparr>)
       (sort_key (\<lambda>(m, u). (role_order (om_role m), by_name x (us_preferred_name u) (oe_lower x (us_email u))))
          [(m, u). m \<leftarrow> db_members db, om_org m = o', u \<leftarrow> db_users db, us_id u = om_user m])))"

definition list_organization_groups_as ::
  "org_env \<Rightarrow> org_db \<Rightarrow> string \<Rightarrow> admin_actor \<Rightarrow> organization_group list auth_res" where
  "list_organization_groups_as x db o' actor = and_then (require_member_as x db o' actor) (\<lambda>_.
     Inr (map (\<lambda>g. \<lparr>gr_group_id = og_id g, gr_organization_id = og_org g, gr_name = og_name g,
             gr_member_ids = sort_key (oe_collate x)
               (map gm_user (filter (\<lambda>gm. gm_group gm = og_id g) (db_group_members db)))\<rparr>)
       (sort_key (\<lambda>g. by_name x (og_name g) (og_id g)) (filter (\<lambda>g. og_org g = o') (db_groups db)))))"

section \<open>The reports on workspace access\<close>

record workspace_human =
  wh_user_id :: string
  wh_preferred_name :: string
  wh_role :: string

record workspace_info =
  wi_workspace_id :: string
  wi_name :: string
  wi_created_at :: datetime

definition workspace_from_row :: "org_env \<Rightarrow> workspace_row \<Rightarrow> workspace_info auth_res" where
  "workspace_from_row x r = (case oe_parse_rfc3339 x (ws_created_at r) of
      None \<Rightarrow> Inl (auth_internal ''database_error'' ''workspace timestamp is invalid'')
    | Some t \<Rightarrow> Inr \<lparr>wi_workspace_id = ws_id r, wi_name = ws_name r, wi_created_at = t\<rparr>)"

definition all_workspaces :: "org_env \<Rightarrow> org_db \<Rightarrow> workspace_info list auth_res" where
  "all_workspaces x db = try_map (workspace_from_row x)
     (sort_key (\<lambda>r. oe_collate x (ws_id r)) (filter (\<lambda>r. ws_deleted_at r = None) (db_workspaces db)))"

definition human_owner :: "org_db \<Rightarrow> string \<Rightarrow> member_row \<Rightarrow> bool" where
  "human_owner db w m \<longleftrightarrow> om_role m \<in> {''owner'', ''admin''}
     \<or> is_some_and (user_grant_of db w (om_user m)) (\<lambda>g. ug_role g = ''owner'')"

definition list_workspace_humans :: "org_env \<Rightarrow> org_db \<Rightarrow> string \<Rightarrow> workspace_human list" where
  "list_workspace_humans x db w =
     (case live_workspace db w of
        None \<Rightarrow> []
      | Some r \<Rightarrow>
          map (\<lambda>(m, u). \<lparr>wh_user_id = us_id u, wh_preferred_name = us_preferred_name u,
             wh_role = (if human_owner db w m \<or> group_grant_exists db w (us_id u) (\<lambda>wg. wg_role wg = ''owner'')
                        then ''owner'' else ''member'')\<rparr>)
           (sort_key (\<lambda>(m, u). (if human_owner db w m then 0 else 1 :: nat,
                                oe_collate x (oe_lower x (us_preferred_name u)), oe_collate x (us_id u)))
             [(m, u). m \<leftarrow> db_members db, om_org m = ws_org r, u \<leftarrow> db_users db, us_id u = om_user m
                \<and> (ws_access_mode r = ''organization'' \<or> om_role m \<in> {''owner'', ''admin''}
                   \<or> user_grant_of db w (us_id u) \<noteq> None
                   \<or> group_grant_exists db w (us_id u) (\<lambda>wg. True))]))"

definition visible_workspace :: "org_db \<Rightarrow> string \<Rightarrow> bool \<Rightarrow> workspace_row \<Rightarrow> bool" where
  "visible_workspace db u all r \<longleftrightarrow> all \<or> ws_access_mode r = ''organization''
     \<or> list_ex (\<lambda>m. om_org m = ws_org r \<and> om_user m = u \<and> om_role m \<in> {''owner'', ''admin''}) (db_members db)
     \<or> list_ex (\<lambda>g. ug_workspace g = ws_id r \<and> ug_user g = u) (db_user_grants db)
     \<or> group_grant_exists db (ws_id r) u (\<lambda>wg. True)"

definition list_workspaces_as ::
  "org_env \<Rightarrow> org_db \<Rightarrow> string \<Rightarrow> admin_actor \<Rightarrow> workspace_info list auth_res" where
  "list_workspaces_as x db o' actor = and_then (require_member_as x db o' actor) (\<lambda>_.
     let u = (case actor_user_id actor of Some u \<Rightarrow> u | None \<Rightarrow> []) in
     try_map (workspace_from_row x)
       (sort_key (\<lambda>r. by_name x (ws_name r) (ws_id r))
         (filter (\<lambda>r. ws_org r = o' \<and> ws_deleted_at r = None
             \<and> visible_workspace db u (oe_disabled x \<or> actor_user_id actor = None) r) (db_workspaces db))))"

datatype access_via_kind = ViaOrgRole | ViaGroup | ViaDirect

record access_via =
  av_kind :: access_via_kind
  av_detail :: string

record effective_access_member =
  ea_user_id :: string
  ea_user_name :: string
  ea_user_email :: string
  ea_role :: string
  ea_via :: "access_via list"

text \<open>The groups through which a user is granted the workspace: (group name, granted role).\<close>

definition access_groups :: "org_env \<Rightarrow> org_db \<Rightarrow> string \<Rightarrow> string \<Rightarrow> (string \<times> string) list" where
  "access_groups x db w u = map (\<lambda>(wg, g). (og_name g, wg_role wg))
     (sort_key (\<lambda>(wg, g). by_name x (og_name g) (og_id g))
       [(wg, g). wg \<leftarrow> db_group_grants db, wg_workspace wg = w, g \<leftarrow> db_groups db, og_id g = wg_group wg,
                 gm \<leftarrow> db_group_members db, gm_group gm = wg_group wg \<and> gm_user gm = u])"

definition access_member ::
  "org_env \<Rightarrow> org_db \<Rightarrow> string \<Rightarrow> string \<Rightarrow> member_row \<times> user_row \<Rightarrow> effective_access_member option" where
  "access_member x db w mode = (\<lambda>(m, u).
     let org_role = om_role m;
         direct = user_grant_of db w (us_id u);
         groups = access_groups x db w (us_id u);
         manager = org_role \<in> {''owner'', ''admin''};
         owner = (manager \<or> list_ex (\<lambda>(n, role). role = ''owner'') groups
                  \<or> is_some_and direct (\<lambda>g. ug_role g = ''owner''));
         via = (if manager \<or> mode = ''organization'' then [\<lparr>av_kind = ViaOrgRole, av_detail = org_role\<rparr>] else [])
               @ map (\<lambda>(n, role). \<lparr>av_kind = ViaGroup, av_detail = n @ '' ('' @ role @ '')''\<rparr>) groups
               @ (case direct of None \<Rightarrow> [] | Some g \<Rightarrow> [\<lparr>av_kind = ViaDirect, av_detail = ug_role g\<rparr>])
     in if via = [] then None
        else Some \<lparr>ea_user_id = us_id u, ea_user_name = us_preferred_name u, ea_user_email = us_email u,
                   ea_role = (if owner then ''owner'' else ''member''), ea_via = via\<rparr>)"

definition effective_workspace_access ::
  "org_env \<Rightarrow> org_db \<Rightarrow> string \<Rightarrow> admin_actor \<Rightarrow> (effective_access_member list \<times> string) auth_res" where
  "effective_workspace_access x db w actor = and_then (workspace_role_as x db w actor) (\<lambda>_.
     and_then (ok_or_else (live_workspace db w) auth_database_error) (\<lambda>r.
       Inr (sort_key (\<lambda>e. if ea_role e = ''owner'' then 0 else 1 :: nat)
              (List.map_filter (access_member x db w (ws_access_mode r))
                (sort_key (\<lambda>(m, u). by_name x (us_preferred_name u) (us_id u))
                  [(m, u). m \<leftarrow> db_members db, om_org m = ws_org r, u \<leftarrow> db_users db, us_id u = om_user m])),
            ws_access_mode r)))"

record workspace_access_member =
  wm_user_id :: string
  wm_preferred_name :: string
  wm_email :: string
  wm_role :: string

record workspace_access_group =
  wag_group_id :: string
  wag_name :: string
  wag_role :: string
  wag_member_count :: nat

record workspace_access_info =
  wa_workspace_id :: string
  wa_access_mode :: string
  wa_current_role :: string
  wa_members :: "workspace_access_member list"
  wa_groups :: "workspace_access_group list"

definition grant_order :: "string \<Rightarrow> nat" where
  "grant_order role = (if role = ''owner'' then 0 else 1)"

definition workspace_access_info_as ::
  "org_env \<Rightarrow> org_db \<Rightarrow> string \<Rightarrow> admin_actor \<Rightarrow> workspace_access_info auth_res" where
  "workspace_access_info_as x db w actor = and_then (workspace_role_as x db w actor) (\<lambda>current_role.
     and_then (ok_or_else (live_workspace db w) auth_database_error) (\<lambda>live.
       Inr \<lparr>wa_workspace_id = w, wa_access_mode = ws_access_mode live, wa_current_role = current_role,
            wa_members = map (\<lambda>(g, u). \<lparr>wm_user_id = us_id u, wm_preferred_name = us_preferred_name u,
                                wm_email = us_email u, wm_role = ug_role g\<rparr>)
              (sort_key (\<lambda>(g, u). (grant_order (ug_role g), by_name x (us_preferred_name u) (us_id u)))
                [(g, u). g \<leftarrow> db_user_grants db, ug_workspace g = w, r \<leftarrow> db_workspaces db, ws_id r = w,
                         m \<leftarrow> db_members db, om_org m = ws_org r \<and> om_user m = ug_user g,
                         u \<leftarrow> db_users db, us_id u = ug_user g]),
            wa_groups = map (\<lambda>(wg, g). \<lparr>wag_group_id = og_id g, wag_name = og_name g, wag_role = wg_role wg,
                                wag_member_count =
                                  length (filter (\<lambda>gm. gm_group gm = og_id g) (db_group_members db))\<rparr>)
              (sort_key (\<lambda>(wg, g). (grant_order (wg_role wg), by_name x (og_name g) (og_id g)))
                [(wg, g). wg \<leftarrow> db_group_grants db, wg_workspace wg = w,
                          g \<leftarrow> db_groups db, og_id g = wg_group wg])\<rparr>))"

definition actor_name :: "org_db \<Rightarrow> admin_actor \<Rightarrow> string" where
  "actor_name db actor = (case audit_actor_name db (actor_kind actor) (Some (actor_id actor)) of
      Some n \<Rightarrow> n | None \<Rightarrow> actor_id actor)"

definition organization_count :: "org_db \<Rightarrow> nat" where
  "organization_count db = length (db_organizations db)"

definition user_count :: "org_db \<Rightarrow> nat" where
  "user_count db = length (db_users db)"

definition active_machine_count :: "org_db \<Rightarrow> nat" where
  "active_machine_count db = length (filter (\<lambda>m. mc_revoked_at m = None) (db_machines db))"

end
