(* ===== verification/Org_Admin.thy ===== *)
theory Org_Admin
  imports Org_Access
begin

text \<open>
  The methods that change organizations, groups, workspaces and their grants
  (\<open>auth/organizations.rs\<close>, the lifecycle part of \<open>auth/org_admin.rs\<close> and the member methods of
  \<open>auth/accounts.rs\<close>).  IDs drawn from the \<open>uuid\<close> crate are arguments.
\<close>

section \<open>Validation\<close>

definition validate_workspace_role :: "string \<Rightarrow> unit auth_res" where
  "validate_workspace_role role = ensure (role \<in> {''owner'', ''member''})
     (bad_request ''invalid_workspace_role'' ''workspace role must be owner or member'')"

definition validate_workspace_id :: "string \<Rightarrow> unit auth_res" where
  "validate_workspace_id v = ensure
     (v \<noteq> [] \<and> length v \<le> 128 \<and> list_all (\<lambda>b. is_ascii_alphanumeric b \<or> b \<in> {CHR ''_'', CHR ''-''}) v)
     (bad_request ''invalid_workspace_id'' (''workspace_id must be 1-128 ASCII letters, digits, '' @
        [CHR 0x27] @ ''_'' @ [CHR 0x27] @ '' or '' @ [CHR 0x27] @ ''-'' @ [CHR 0x27]))"

section \<open>Organizations\<close>

definition insert_organization ::
  "tick \<Rightarrow> string \<Rightarrow> string \<Rightarrow> string \<Rightarrow> org_db \<Rightarrow> org_db auth_res" where
  "insert_organization t o' name by db =
     (if organization_of db o' \<noteq> None then Inl auth_database_error
      else Inr (db\<lparr>db_organizations := db_organizations db @
             [\<lparr>or_id = o', or_name = name, or_created_at = tk_stamp t, or_created_by = by\<rparr>]\<rparr>))"

text \<open>The insert of a member: the primary key and the two foreign keys of the table.\<close>

definition insert_member ::
  "tick \<Rightarrow> string \<Rightarrow> string \<Rightarrow> string \<Rightarrow> org_db \<Rightarrow> org_db auth_res" where
  "insert_member t o' u role db =
     (if member_of db o' u \<noteq> None \<or> organization_of db o' = None \<or> user_of db u = None
      then Inl auth_database_error
      else Inr (db\<lparr>db_members := db_members db @
             [\<lparr>om_org = o', om_user = u, om_role = role, om_joined_at = tk_stamp t\<rparr>]\<rparr>))"

definition create_organization ::
  "org_env \<Rightarrow> tick \<Rightarrow> string \<Rightarrow> string \<Rightarrow> string \<Rightarrow> org_db \<Rightarrow> organization_info outcome" where
  "create_organization x t o' u name db =
     try_op (validate_resource_name name ''organization'') db (\<lambda>name.
     commit_op
       (and_then (insert_organization t o' name u db) (\<lambda>db1.
        and_then (if user_of db1 u = None then Inr db1 else insert_member t o' u ''owner'' db1) (\<lambda>db2.
        and_then (audit_insert t o' None ''user'' (Some u) ''api'' ''organization.created'' ''organization'' o'
                    (Some name) (JObject []) db2) (\<lambda>db3.
        Inr (\<lparr>oi_organization_id = o', oi_name = name, oi_role = ''owner'', oi_created_at = tk_stamp t\<rparr>, db3)))))
       db)"

definition rename_organization_as ::
  "org_env \<Rightarrow> tick \<Rightarrow> string \<Rightarrow> admin_actor \<Rightarrow> string \<Rightarrow> org_db \<Rightarrow> organization_info outcome" where
  "rename_organization_as x t o' actor name db =
     try_op (require_manager_as x db o' actor) db (\<lambda>role.
     try_op (validate_resource_name name ''organization'') db (\<lambda>name.
     commit_op
       (and_then (ok_or_else (organization_of db o') organization_not_found) (\<lambda>old.
        let db1 = db\<lparr>db_organizations :=
              map (\<lambda>r. if or_id r = o' then r\<lparr>or_name := name\<rparr> else r) (db_organizations db)\<rparr>
        in and_then (audit_insert t o' None (actor_kind actor) (Some (actor_id actor)) ''api''
              ''organization.renamed'' ''organization'' o' (Some name)
              (JObject [(''old_name'', JString (or_name old)), (''new_name'', JString name)]) db1) (\<lambda>db2.
           Inr (\<lparr>oi_organization_id = o', oi_name = name, oi_role = role, oi_created_at = or_created_at old\<rparr>, db2))))
       db))"

text \<open>
  The cascade of a deleted organization: its members, groups and their members, workspaces with
  the rows that reference them, invitations and audit events.  \<open>machines\<close>, \<open>machine_names\<close>,
  \<open>machine_enrollments\<close>, \<open>agent_names\<close> and \<open>agent_credentials\<close> have no foreign key and stay.
\<close>

definition workspaces_of :: "org_db \<Rightarrow> string \<Rightarrow> string set" where
  "workspaces_of db o' = set (map ws_id (filter (\<lambda>r. ws_org r = o') (db_workspaces db)))"

definition groups_of :: "org_db \<Rightarrow> string \<Rightarrow> string set" where
  "groups_of db o' = set (map og_id (filter (\<lambda>g. og_org g = o') (db_groups db)))"

definition cascade_organization :: "string \<Rightarrow> org_db \<Rightarrow> org_db" where
  "cascade_organization o' db =
     (let ws = workspaces_of db o'; gs = groups_of db o' in
      db\<lparr>db_organizations := filter (\<lambda>r. or_id r \<noteq> o') (db_organizations db),
         db_members := filter (\<lambda>m. om_org m \<noteq> o') (db_members db),
         db_groups := filter (\<lambda>g. og_org g \<noteq> o') (db_groups db),
         db_group_members := filter (\<lambda>gm. gm_group gm \<notin> gs) (db_group_members db),
         db_workspaces := filter (\<lambda>r. ws_org r \<noteq> o') (db_workspaces db),
         db_user_grants := filter (\<lambda>g. ug_workspace g \<notin> ws) (db_user_grants db),
         db_group_grants := filter (\<lambda>g. wg_workspace g \<notin> ws \<and> wg_group g \<notin> gs) (db_group_grants db),
         db_profiles := filter (\<lambda>p. lp_workspace p \<notin> ws) (db_profiles db),
         db_machine_services := filter (\<lambda>(w, _). w \<notin> ws) (db_machine_services db),
         db_virtual_network_hosts := filter (\<lambda>(w, _). w \<notin> ws) (db_virtual_network_hosts db),
         db_apps := filter (\<lambda>(w, _). w \<notin> ws) (db_apps db),
         db_invitations := filter (\<lambda>i. iv_org i \<noteq> Some o') (db_invitations db),
         db_audit := filter (\<lambda>e. aud_organization e \<noteq> o') (db_audit db)\<rparr>)"

definition delete_organization ::
  "org_env \<Rightarrow> tick \<Rightarrow> string \<Rightarrow> admin_actor \<Rightarrow> string \<Rightarrow> org_db \<Rightarrow> (nat + unit) outcome" where
  "delete_organization x t o' actor confirm_name db =
     try_op (require_owner_as x db o' actor) db (\<lambda>_.
     commit_op
       (and_then (ok_or_else (organization_of db o') organization_not_found) (\<lambda>r.
        and_then (ensure (confirm_name = or_name r)
          (bad_request ''confirmation_mismatch'' ''confirm_name must equal the organization name'')) (\<lambda>_.
        let blocking = length (filter (\<lambda>w. ws_org w = o' \<and> ws_deleted_at w = None) (db_workspaces db)) in
        if blocking \<noteq> 0 then Inr (Inl blocking, db)
        else
          let ws = workspaces_of db o';
              db1 = db\<lparr>db_traffic := filter (\<lambda>(w, _). w \<notin> ws) (db_traffic db),
                       db_agent_traffic := filter (\<lambda>(w, _). w \<notin> ws) (db_agent_traffic db),
                       db_network_receipts := filter (\<lambda>(w, _). w \<notin> ws) (db_network_receipts db),
                       db_platform_audit := db_platform_audit db @
                         [\<lparr>pa_occurred_at = tk_stamp t, pa_action = ''organization.deleted'',
                           pa_resource_kind = ''organization'', pa_resource_id = o', pa_resource_name = or_name r,
                           pa_payload = JObject [(''actor_kind'', JString (actor_kind actor)),
                                                 (''actor_id'', JString (actor_id actor))]\<rparr>]\<rparr>
          in Inr (Inr (), cascade_organization o' db1))))
       db)"

section \<open>Members\<close>

definition lock_member_roles :: "org_env \<Rightarrow> org_db \<Rightarrow> string \<Rightarrow> (string \<times> string) list" where
  "lock_member_roles x db o' = map (\<lambda>m. (om_user m, om_role m))
     (sort_key (\<lambda>m. oe_collate x (om_user m)) (filter (\<lambda>m. om_org m = o') (db_members db)))"

definition role_in :: "(string \<times> string) list \<Rightarrow> string \<Rightarrow> string option" where
  "role_in roles u = map_option snd (find (\<lambda>(i, _). i = u) roles)"

definition owner_count :: "(string \<times> string) list \<Rightarrow> nat" where
  "owner_count roles = length (filter (\<lambda>(_, role). role = ''owner'') roles)"

definition remove_member_rows :: "string \<Rightarrow> string \<Rightarrow> org_db \<Rightarrow> org_db" where
  "remove_member_rows o' u db =
     db\<lparr>db_group_members := filter (\<lambda>gm. \<not> (gm_user gm = u
            \<and> list_ex (\<lambda>g. og_id g = gm_group gm \<and> og_org g = o') (db_groups db))) (db_group_members db),
        db_user_grants := filter (\<lambda>g. \<not> (ug_user g = u
            \<and> list_ex (\<lambda>r. ws_id r = ug_workspace g \<and> ws_org r = o') (db_workspaces db))) (db_user_grants db),
        db_members := filter (\<lambda>m. \<not> (om_org m = o' \<and> om_user m = u)) (db_members db)\<rparr>"

definition set_member_role :: "string \<Rightarrow> string \<Rightarrow> string \<Rightarrow> org_db \<Rightarrow> org_db" where
  "set_member_role o' u role db = db\<lparr>db_members :=
     map (\<lambda>m. if om_org m = o' \<and> om_user m = u then m\<lparr>om_role := role\<rparr> else m) (db_members db)\<rparr>"

definition leave_organization :: "org_env \<Rightarrow> tick \<Rightarrow> string \<Rightarrow> string \<Rightarrow> org_db \<Rightarrow> unit outcome" where
  "leave_organization x t o' u db = commit_op
     (let roles = lock_member_roles x db o' in
      and_then (ok_or_else (role_in roles u) organization_access_denied) (\<lambda>role.
      and_then (ensure (\<not> (role = ''owner'' \<and> owner_count roles \<le> 1)) last_owner) (\<lambda>_.
      and_then (audit_insert t o' None ''user'' (Some u) ''api'' ''member.left'' ''organization_member'' u None
                  (JObject [(''role'', JString role)]) (remove_member_rows o' u db)) (\<lambda>db1.
      Inr ((), db1)))))
     db"

definition transfer_organization ::
  "org_env \<Rightarrow> tick \<Rightarrow> string \<Rightarrow> string \<Rightarrow> string \<Rightarrow> org_db \<Rightarrow> unit outcome" where
  "transfer_organization x t o' u target db = commit_op
     (let roles = lock_member_roles x db o' in
      and_then (case role_in roles u of
          None \<Rightarrow> Inl organization_access_denied
        | Some role \<Rightarrow> ensure (role = ''owner'') organization_owner_required) (\<lambda>_.
      and_then (ensure (target \<noteq> u)
        (bad_request ''invalid_transfer_target'' ''choose another member to receive ownership'')) (\<lambda>_.
      and_then (ok_or_else (role_in roles target) member_not_found) (\<lambda>previous.
      and_then (audit_insert t o' None ''user'' (Some u) ''api'' ''organization.ownership_transferred''
                  ''organization_member'' target None
                  (JObject [(''previous_role'', JString previous), (''previous_owner_role'', JString ''admin'')])
                  (set_member_role o' u ''admin'' (set_member_role o' target ''owner'' db))) (\<lambda>db1.
      Inr ((), db1))))))
     db"

definition update_member_role_as ::
  "org_env \<Rightarrow> tick \<Rightarrow> string \<Rightarrow> admin_actor \<Rightarrow> string \<Rightarrow> string \<Rightarrow> org_db \<Rightarrow> unit outcome" where
  "update_member_role_as x t o' actor target role db =
     try_op (require_owner_as x db o' actor) db (\<lambda>_.
     try_op (ensure (role \<in> {''owner'', ''admin'', ''member''})
       (bad_request ''invalid_member_role'' ''member role must be owner, admin or member'')) db (\<lambda>_.
     commit_op
       (let roles = lock_member_roles x db o' in
        and_then (ok_or_else (role_in roles target) member_not_found) (\<lambda>old_role.
        and_then (ensure (\<not> (old_role = ''owner'' \<and> role \<noteq> ''owner'' \<and> owner_count roles \<le> 1)) last_owner) (\<lambda>_.
        and_then (audit_insert t o' None (actor_kind actor) (Some (actor_id actor)) ''api'' ''member.role_updated''
                    ''organization_member'' target (map_option us_preferred_name (user_of db target))
                    (JObject [(''old_role'', JString old_role), (''new_role'', JString role)])
                    (set_member_role o' target role db)) (\<lambda>db1.
        Inr ((), db1)))))
       db))"

definition remove_member_as ::
  "org_env \<Rightarrow> tick \<Rightarrow> string \<Rightarrow> admin_actor \<Rightarrow> string \<Rightarrow> org_db \<Rightarrow> unit outcome" where
  "remove_member_as x t o' actor target db =
     try_op (require_manager_as x db o' actor) db (\<lambda>actor_role.
     commit_op
       (let roles = lock_member_roles x db o' in
        and_then (ok_or_else (role_in roles target) member_not_found) (\<lambda>target_role.
        and_then (ensure (\<not> (target_role = ''owner'' \<and> actor_role = ''admin''))
          (auth_conflict ''owner_cannot_be_removed'' ''only an organization owner can remove an owner'')) (\<lambda>_.
        and_then (ensure (\<not> (target_role = ''owner'' \<and> owner_count roles \<le> 1)) last_owner) (\<lambda>_.
        and_then (audit_insert t o' None (actor_kind actor) (Some (actor_id actor)) ''api'' ''member.removed''
                    ''organization_member'' target
                    (Some (case user_of db target of Some r \<Rightarrow> us_preferred_name r | None \<Rightarrow> []))
                    (JObject [(''role'', JString target_role)]) (remove_member_rows o' target db)) (\<lambda>db1.
        Inr ((), db1))))))
       db)"

section \<open>Groups\<close>

text \<open>The name of a group is unique in its organization up to \<open>lower()\<close>.\<close>

definition create_organization_group_as ::
  "org_env \<Rightarrow> tick \<Rightarrow> string \<Rightarrow> string \<Rightarrow> admin_actor \<Rightarrow> string \<Rightarrow> org_db \<Rightarrow> organization_group outcome" where
  "create_organization_group_as x t g o' actor name db =
     try_op (require_manager_as x db o' actor) db (\<lambda>_.
     try_op (validate_resource_name name ''group'') db (\<lambda>name.
     if list_ex (\<lambda>r. og_id r = g \<or> og_org r = o' \<and> oe_lower x (og_name r) = oe_lower x name) (db_groups db) then
       (Inl (auth_conflict ''group_exists'' ''group name already exists''), db)
     else if organization_of db o' = None then (Inl auth_database_error, db)
     else
       let db1 = db\<lparr>db_groups := db_groups db @
             [\<lparr>og_id = g, og_org = o', og_name = name, og_created_at = tk_stamp t,
               og_created_by = actor_label actor\<rparr>]\<rparr>
       in try_op (record_organization_audit t o' actor ''group.created'' ''group'' g (Some name) (JObject []) db1)
            db1 (\<lambda>db2.
          (Inr \<lparr>gr_group_id = g, gr_organization_id = o', gr_name = name, gr_member_ids = []\<rparr>, db2))))"

definition cascade_group :: "string \<Rightarrow> org_db \<Rightarrow> org_db" where
  "cascade_group g db =
     db\<lparr>db_groups := filter (\<lambda>r. og_id r \<noteq> g) (db_groups db),
        db_group_members := filter (\<lambda>gm. gm_group gm \<noteq> g) (db_group_members db),
        db_group_grants := filter (\<lambda>wg. wg_group wg \<noteq> g) (db_group_grants db)\<rparr>"

definition delete_organization_group_as ::
  "org_env \<Rightarrow> tick \<Rightarrow> string \<Rightarrow> admin_actor \<Rightarrow> string \<Rightarrow> org_db \<Rightarrow> unit outcome" where
  "delete_organization_group_as x t o' actor g db =
     try_op (require_manager_as x db o' actor) db (\<lambda>_.
     if \<not> list_ex (\<lambda>r. og_org r = o' \<and> og_id r = g) (db_groups db) then
       (Inl (auth_not_found ''group_not_found'' ''group does not exist''), db)
     else
       let db1 = cascade_group g db in
       try_op (record_organization_audit t o' actor ''group.deleted'' ''group'' g None (JObject []) db1) db1 (\<lambda>db2.
       (Inr (), db2)))"

text \<open>
  The membership check and the insert of a group member are two statements; each is a definition
  of its own, since another request may run between them.
\<close>

definition group_member_valid :: "org_db \<Rightarrow> string \<Rightarrow> string \<Rightarrow> string \<Rightarrow> bool" where
  "group_member_valid db o' g u = list_ex (\<lambda>r. og_org r = o' \<and> og_id r = g
     \<and> list_ex (\<lambda>m. om_org m = og_org r \<and> om_user m = u) (db_members db)) (db_groups db)"

definition insert_group_member ::
  "tick \<Rightarrow> string \<Rightarrow> string \<Rightarrow> string \<Rightarrow> org_db \<Rightarrow> org_db auth_res" where
  "insert_group_member t by g u db =
     (if list_ex (\<lambda>gm. gm_group gm = g \<and> gm_user gm = u) (db_group_members db) then Inr db
      else if list_ex (\<lambda>r. og_id r = g) (db_groups db) \<and> user_of db u \<noteq> None then
        Inr (db\<lparr>db_group_members := db_group_members db @
               [\<lparr>gm_group = g, gm_user = u, gm_added_at = tk_stamp t, gm_added_by = by\<rparr>]\<rparr>)
      else Inl auth_database_error)"

definition delete_group_member :: "string \<Rightarrow> string \<Rightarrow> org_db \<Rightarrow> org_db" where
  "delete_group_member g u db = db\<lparr>db_group_members :=
     filter (\<lambda>gm. \<not> (gm_group gm = g \<and> gm_user gm = u)) (db_group_members db)\<rparr>"

definition group_member_checks ::
  "org_env \<Rightarrow> string \<Rightarrow> admin_actor \<Rightarrow> string \<Rightarrow> string \<Rightarrow> org_db \<Rightarrow> unit auth_res" where
  "group_member_checks x o' actor g u db =
     and_then (require_manager_as x db o' actor) (\<lambda>_.
     ensure (group_member_valid db o' g u)
       (bad_request ''invalid_group_member'' ''the group and member must belong to the organization''))"

definition group_member_writes ::
  "org_env \<Rightarrow> tick \<Rightarrow> string \<Rightarrow> admin_actor \<Rightarrow> string \<Rightarrow> string \<Rightarrow> bool \<Rightarrow> org_db
   \<Rightarrow> organization_group list outcome" where
  "group_member_writes x t o' actor g u present db =
     try_op (if present then insert_group_member t (actor_label actor) g u db
             else Inr (delete_group_member g u db)) db (\<lambda>db1.
     try_op (record_organization_audit t o' actor (if present then ''group.member_added'' else ''group.member_removed'')
               ''group'' g None (JObject [(''user_id'', JString u)]) db1) db1 (\<lambda>db2.
     (list_organization_groups_as x db2 o' actor, db2)))"

definition set_organization_group_member_as ::
  "org_env \<Rightarrow> tick \<Rightarrow> string \<Rightarrow> admin_actor \<Rightarrow> string \<Rightarrow> string \<Rightarrow> bool \<Rightarrow> org_db
   \<Rightarrow> organization_group list outcome" where
  "set_organization_group_member_as x t o' actor g u present db =
     try_op (group_member_checks x o' actor g u db) db (\<lambda>_.
     group_member_writes x t o' actor g u present db)"

section \<open>Workspace access\<close>

definition set_access_mode :: "string \<Rightarrow> string \<Rightarrow> org_db \<Rightarrow> org_db" where
  "set_access_mode w mode db = db\<lparr>db_workspaces :=
     map (\<lambda>r. if ws_id r = w \<and> ws_deleted_at r = None then r\<lparr>ws_access_mode := mode\<rparr> else r) (db_workspaces db)\<rparr>"

definition update_workspace_access_mode_as ::
  "org_env \<Rightarrow> tick \<Rightarrow> string \<Rightarrow> admin_actor \<Rightarrow> string \<Rightarrow> org_db \<Rightarrow> workspace_access_info outcome" where
  "update_workspace_access_mode_as x t w actor mode db =
     try_op (require_workspace_owner_as x db w actor) db (\<lambda>_.
     try_op (ensure (mode \<in> {''organization'', ''restricted''})
       (bad_request ''invalid_workspace_access_mode'' ''workspace access mode must be organization or restricted''))
       db (\<lambda>_.
     let db1 = set_access_mode w mode db in
     try_op (record_access_audit t w actor ''workspace.access.mode_updated'' ''workspace'' w
               (JObject [(''access_mode'', JString mode)]) db1) db1 (\<lambda>db2.
     (workspace_access_info_as x db2 w actor, db2))))"

definition upsert_user_grant ::
  "tick \<Rightarrow> string \<Rightarrow> string \<Rightarrow> string \<Rightarrow> string \<Rightarrow> org_db \<Rightarrow> org_db auth_res" where
  "upsert_user_grant t by w u role db =
     (if user_grant_of db w u \<noteq> None then
        Inr (db\<lparr>db_user_grants := map (\<lambda>g. if ug_workspace g = w \<and> ug_user g = u then g\<lparr>ug_role := role\<rparr> else g)
               (db_user_grants db)\<rparr>)
      else if list_ex (\<lambda>r. ws_id r = w) (db_workspaces db) \<and> user_of db u \<noteq> None then
        Inr (db\<lparr>db_user_grants := db_user_grants db @
               [\<lparr>ug_workspace = w, ug_user = u, ug_role = role, ug_created_at = tk_stamp t, ug_created_by = by\<rparr>]\<rparr>)
      else Inl auth_database_error)"

definition belongs_to_workspace :: "org_db \<Rightarrow> string \<Rightarrow> string \<Rightarrow> bool" where
  "belongs_to_workspace db w u = list_ex (\<lambda>r. ws_id r = w \<and> ws_deleted_at r = None
     \<and> list_ex (\<lambda>m. om_org m = ws_org r \<and> om_user m = u) (db_members db)) (db_workspaces db)"

definition user_grant_checks ::
  "org_env \<Rightarrow> string \<Rightarrow> admin_actor \<Rightarrow> string \<Rightarrow> string \<Rightarrow> org_db \<Rightarrow> unit auth_res" where
  "user_grant_checks x w actor u role db =
     and_then (require_workspace_owner_as x db w actor) (\<lambda>_.
     and_then (validate_workspace_role role) (\<lambda>_.
     and_then (ensure (\<not> (actor_user_id actor = Some u \<and> role \<noteq> ''owner''))
       (auth_conflict ''workspace_owner_cannot_demote_self''
          ''add another owner before changing your own workspace role'')) (\<lambda>_.
     ensure (belongs_to_workspace db w u)
       (bad_request ''workspace_member_must_belong_to_organization''
          ''workspace members must belong to the organization''))))"

definition user_grant_writes ::
  "org_env \<Rightarrow> tick \<Rightarrow> string \<Rightarrow> admin_actor \<Rightarrow> string \<Rightarrow> string \<Rightarrow> org_db \<Rightarrow> workspace_access_info outcome" where
  "user_grant_writes x t w actor u role db =
     try_op (upsert_user_grant t (actor_label actor) w u role db) db (\<lambda>db1.
     try_op (record_access_audit t w actor ''workspace.access.user_granted'' ''user'' u
               (JObject [(''role'', JString role)]) db1) db1 (\<lambda>db2.
     (workspace_access_info_as x db2 w actor, db2)))"

definition upsert_workspace_user_grant_as ::
  "org_env \<Rightarrow> tick \<Rightarrow> string \<Rightarrow> admin_actor \<Rightarrow> string \<Rightarrow> string \<Rightarrow> org_db \<Rightarrow> workspace_access_info outcome" where
  "upsert_workspace_user_grant_as x t w actor u role db =
     try_op (user_grant_checks x w actor u role db) db (\<lambda>_. user_grant_writes x t w actor u role db)"

definition delete_user_grant :: "string \<Rightarrow> string \<Rightarrow> org_db \<Rightarrow> org_db" where
  "delete_user_grant w u db = db\<lparr>db_user_grants :=
     filter (\<lambda>g. \<not> (ug_workspace g = w \<and> ug_user g = u)) (db_user_grants db)\<rparr>"

definition remove_workspace_user_grant_as ::
  "org_env \<Rightarrow> tick \<Rightarrow> string \<Rightarrow> admin_actor \<Rightarrow> string \<Rightarrow> org_db \<Rightarrow> workspace_access_info outcome" where
  "remove_workspace_user_grant_as x t w actor u db =
     try_op (require_workspace_owner_as x db w actor) db (\<lambda>_.
     try_op (ensure (actor_user_id actor \<noteq> Some u)
       (auth_conflict ''workspace_owner_cannot_remove_self'' ''another workspace owner must remove your access'')) db (\<lambda>_.
     let db1 = delete_user_grant w u db in
     try_op (record_access_audit t w actor ''workspace.access.user_revoked'' ''user'' u (JObject []) db1) db1 (\<lambda>db2.
     (workspace_access_info_as x db2 w actor, db2))))"

definition upsert_group_grant ::
  "tick \<Rightarrow> string \<Rightarrow> string \<Rightarrow> string \<Rightarrow> string \<Rightarrow> org_db \<Rightarrow> org_db auth_res" where
  "upsert_group_grant t by w g role db =
     (if list_ex (\<lambda>wg. wg_workspace wg = w \<and> wg_group wg = g) (db_group_grants db) then
        Inr (db\<lparr>db_group_grants := map (\<lambda>wg. if wg_workspace wg = w \<and> wg_group wg = g then wg\<lparr>wg_role := role\<rparr> else wg)
               (db_group_grants db)\<rparr>)
      else if list_ex (\<lambda>r. ws_id r = w) (db_workspaces db) \<and> list_ex (\<lambda>r. og_id r = g) (db_groups db) then
        Inr (db\<lparr>db_group_grants := db_group_grants db @
               [\<lparr>wg_workspace = w, wg_group = g, wg_role = role, wg_created_at = tk_stamp t, wg_created_by = by\<rparr>]\<rparr>)
      else Inl auth_database_error)"

definition group_in_organization :: "org_db \<Rightarrow> string \<Rightarrow> string \<Rightarrow> bool" where
  "group_in_organization db w g = list_ex (\<lambda>r. ws_id r = w \<and> ws_deleted_at r = None
     \<and> list_ex (\<lambda>og. og_org og = ws_org r \<and> og_id og = g) (db_groups db)) (db_workspaces db)"

definition upsert_workspace_group_grant_as ::
  "org_env \<Rightarrow> tick \<Rightarrow> string \<Rightarrow> admin_actor \<Rightarrow> string \<Rightarrow> string \<Rightarrow> org_db \<Rightarrow> workspace_access_info outcome" where
  "upsert_workspace_group_grant_as x t w actor g role db =
     try_op (require_workspace_owner_as x db w actor) db (\<lambda>_.
     try_op (validate_workspace_role role) db (\<lambda>_.
     try_op (ensure (group_in_organization db w g)
       (bad_request ''workspace_group_must_belong_to_organization''
          ''workspace groups must belong to the organization'')) db (\<lambda>_.
     try_op (upsert_group_grant t (actor_label actor) w g role db) db (\<lambda>db1.
     try_op (record_access_audit t w actor ''workspace.access.group_granted'' ''group'' g
               (JObject [(''role'', JString role)]) db1) db1 (\<lambda>db2.
     (workspace_access_info_as x db2 w actor, db2))))))"

definition delete_group_grant :: "string \<Rightarrow> string \<Rightarrow> org_db \<Rightarrow> org_db" where
  "delete_group_grant w g db = db\<lparr>db_group_grants :=
     filter (\<lambda>wg. \<not> (wg_workspace wg = w \<and> wg_group wg = g)) (db_group_grants db)\<rparr>"

definition remove_workspace_group_grant_as ::
  "org_env \<Rightarrow> tick \<Rightarrow> string \<Rightarrow> admin_actor \<Rightarrow> string \<Rightarrow> org_db \<Rightarrow> workspace_access_info outcome" where
  "remove_workspace_group_grant_as x t w actor g db =
     try_op (require_workspace_owner_as x db w actor) db (\<lambda>_.
     let db1 = delete_group_grant w g db in
     try_op (record_access_audit t w actor ''workspace.access.group_revoked'' ''group'' g (JObject []) db1) db1 (\<lambda>db2.
     (workspace_access_info_as x db2 w actor, db2)))"

section \<open>Workspaces\<close>

definition default_agent_launch_profiles :: "org_env \<Rightarrow> launch_profile list auth_res" where
  "default_agent_launch_profiles x = (case oe_bundle x of
      None \<Rightarrow> Inl (auth_internal ''invalid_default_profiles'' ''invalid bundled launcher profiles'')
    | Some (schema, profiles) \<Rightarrow>
        if schema \<noteq> ''treer.launcher-profiles/v1'' then
          Inl (auth_internal ''invalid_default_profiles'' ''unsupported bundled launcher profiles schema'')
        else Inr (map (dp_command_update (\<lambda>_. ''treer-launch'')) profiles @
          [\<lparr>dp_name = ''Claude (terminal)'', dp_description = ''Anthropic Claude Code in a plain terminal.'',
            dp_command = ''claude'', dp_args = []\<rparr>,
           \<lparr>dp_name = ''Codex (terminal)'', dp_description = ''OpenAI Codex in a plain terminal.'',
            dp_command = ''codex'', dp_args = []\<rparr>]))"

definition insert_default_agent_launch_profiles ::
  "org_env \<Rightarrow> tick \<Rightarrow> string \<Rightarrow> string \<Rightarrow> org_db \<Rightarrow> org_db auth_res" where
  "insert_default_agent_launch_profiles x t w by db =
     and_then (default_agent_launch_profiles x) (\<lambda>profiles.
     Inr (db\<lparr>db_profiles := db_profiles db @ map (\<lambda>p. \<lparr>lp_workspace = w, lp_name = dp_name p,
       lp_description = dp_description p, lp_command = dp_command p, lp_args = dp_args p,
       lp_created_at = tk_stamp t, lp_created_by = by\<rparr>) profiles\<rparr>))"

definition insert_workspace ::
  "tick \<Rightarrow> string \<Rightarrow> string \<Rightarrow> string \<Rightarrow> string \<Rightarrow> org_db \<Rightarrow> org_db auth_res" where
  "insert_workspace t w o' name by db =
     (if list_ex (\<lambda>r. ws_id r = w) (db_workspaces db) then
        Inl (auth_conflict ''workspace_exists'' ''workspace already exists'')
      else if organization_of db o' = None then Inl auth_database_error
      else Inr (db\<lparr>db_workspaces := db_workspaces db @
             [\<lparr>ws_id = w, ws_org = o', ws_name = name, ws_created_at = tk_stamp t, ws_created_by = by,
               ws_access_mode = ''organization'', ws_deleted_at = None, ws_deleted_by = None\<rparr>]\<rparr>))"

definition create_workspace_as ::
  "org_env \<Rightarrow> tick \<Rightarrow> string \<Rightarrow> string \<Rightarrow> string \<Rightarrow> admin_actor \<Rightarrow> org_db \<Rightarrow> workspace_info outcome" where
  "create_workspace_as x t o' w name actor db =
     try_op (validate_workspace_id w) db (\<lambda>_.
     try_op (require_member_as x db o' actor) db (\<lambda>_.
     try_op (validate_resource_name name ''workspace'') db (\<lambda>name.
     let u = actor_label actor in
     commit_op
       (and_then (insert_workspace t w o' name u db) (\<lambda>db1.
        and_then (if user_of db1 u = None then Inr db1 else upsert_user_grant t u w u ''owner'' db1) (\<lambda>db2.
        and_then (insert_default_agent_launch_profiles x t w u db2) (\<lambda>db3.
        and_then (audit_insert t o' (Some w) (actor_kind actor) (Some (actor_id actor)) ''api'' ''workspace.created''
                    ''workspace'' w (Some name) (JObject []) db3) (\<lambda>db4.
        Inr (\<lparr>wi_workspace_id = w, wi_name = name, wi_created_at = tk_now t\<rparr>, db4))))))
       db)))"

definition rename_workspace_as ::
  "org_env \<Rightarrow> tick \<Rightarrow> string \<Rightarrow> admin_actor \<Rightarrow> string \<Rightarrow> org_db \<Rightarrow> workspace_info outcome" where
  "rename_workspace_as x t w actor name db =
     try_op (workspace_role_as x db w actor) db (\<lambda>_.
     try_op (validate_resource_name name ''workspace'') db (\<lambda>name.
     commit_op
       (and_then (ok_or_else (live_workspace db w) workspace_not_found) (\<lambda>old.
        let db1 = db\<lparr>db_workspaces := map (\<lambda>r. if ws_id r = w \<and> ws_deleted_at r = None then r\<lparr>ws_name := name\<rparr> else r)
              (db_workspaces db)\<rparr>
        in and_then (audit_insert t (ws_org old) (Some w) (actor_kind actor) (Some (actor_id actor)) ''api''
              ''workspace.renamed'' ''workspace'' w (Some name)
              (JObject [(''old_name'', JString (ws_name old)), (''new_name'', JString name)]) db1) (\<lambda>db2.
           and_then (ok_or_else (live_workspace db2 w) auth_database_error) (\<lambda>r.
           and_then (workspace_from_row x r) (\<lambda>info. Inr (info, db2))))))
       db))"

record delete_workspace_request =
  dw_confirm_name :: "string option"
  dw_revoke_machines :: bool

record deleted_workspace =
  de_workspace_id :: string
  de_organization_id :: string
  de_name :: string
  de_machine_count :: nat
  de_agent_count :: nat
  de_app_count :: nat

definition validate_workspace_deletion :: "string \<Rightarrow> delete_workspace_request \<Rightarrow> unit auth_res" where
  "validate_workspace_deletion name request = (case dw_confirm_name request of
      Some confirm \<Rightarrow> ensure (confirm = name)
        (bad_request ''confirmation_mismatch'' ''confirm_name must equal the workspace name'')
    | None \<Rightarrow> ensure (\<not> dw_revoke_machines request)
        (bad_request ''confirmation_required'' ''revoke_machines requires confirm_name''))"

definition revoke_workspace_machines :: "tick \<Rightarrow> string \<Rightarrow> org_db \<Rightarrow> org_db" where
  "revoke_workspace_machines t w db =
     db\<lparr>db_machines := map (\<lambda>m. if mc_workspace m = w \<and> mc_revoked_at m = None
            then m\<lparr>mc_revoked_at := Some (tk_stamp t)\<rparr> else m) (db_machines db),
        db_machine_names := filter (\<lambda>(v, _). v \<noteq> w) (db_machine_names db),
        db_machine_services := filter (\<lambda>(v, _). v \<noteq> w) (db_machine_services db),
        db_agent_names := filter (\<lambda>(v, _). v \<noteq> w) (db_agent_names db),
        db_virtual_network_hosts := filter (\<lambda>(v, _). v \<noteq> w) (db_virtual_network_hosts db),
        db_enrollments := map (\<lambda>e. if en_workspace e = w \<and> en_used_at e = None
            then e\<lparr>en_used_at := Some (tk_stamp t)\<rparr> else e) (db_enrollments db)\<rparr>"

definition revoke_workspace_credentials :: "tick \<Rightarrow> string \<Rightarrow> org_db \<Rightarrow> org_db" where
  "revoke_workspace_credentials t w db =
     db\<lparr>db_credentials := map (\<lambda>c. if cr_workspace c = w \<and> cr_revoked_at c = None
            then c\<lparr>cr_revoked_at := Some (tk_stamp t)\<rparr> else c) (db_credentials db)\<rparr>"

definition mark_workspace_deleted :: "tick \<Rightarrow> admin_actor \<Rightarrow> string \<Rightarrow> org_db \<Rightarrow> org_db" where
  "mark_workspace_deleted t actor w db = db\<lparr>db_workspaces :=
     map (\<lambda>r. if ws_id r = w \<and> ws_deleted_at r = None
              then r\<lparr>ws_deleted_at := Some (tk_stamp t), ws_deleted_by := Some (actor_label actor)\<rparr> else r)
       (db_workspaces db)\<rparr>"

definition drop_workspace_caches :: "string \<Rightarrow> org_db \<Rightarrow> org_db" where
  "drop_workspace_caches w db =
     db\<lparr>db_cached_credentials := filter (\<lambda>(_, v). v \<noteq> w) (db_cached_credentials db),
        db_cached_ingresses := filter (\<lambda>(_, v). v \<noteq> w) (db_cached_ingresses db),
        db_virtual_hosts_map := filter (\<lambda>v. v \<noteq> w) (db_virtual_hosts_map db),
        db_hosts_revision := (if w \<in> set (db_virtual_hosts_map db) then db_hosts_revision db + 1
                              else db_hosts_revision db)\<rparr>"

definition delete_workspace_as ::
  "org_env \<Rightarrow> tick \<Rightarrow> string \<Rightarrow> admin_actor \<Rightarrow> delete_workspace_request \<Rightarrow> org_db \<Rightarrow> deleted_workspace outcome" where
  "delete_workspace_as x t w actor request db =
     try_op (require_workspace_owner_as x db w actor) db (\<lambda>_.
     commit_op
       (and_then (ok_or_else (live_workspace db w) workspace_not_found) (\<lambda>r.
        and_then (validate_workspace_deletion (ws_name r) request) (\<lambda>_.
        let machines = length (filter (\<lambda>m. mc_workspace m = w \<and> mc_revoked_at m = None) (db_machines db)) in
        and_then (ensure (\<not> (machines \<noteq> 0 \<and> \<not> dw_revoke_machines request))
          (auth_conflict ''workspace_has_machines''
             ''delete all machines in this workspace first, or pass revoke_machines'')) (\<lambda>_.
        let agents = length (filter (\<lambda>c. cr_workspace c = w) (db_credentials db));
            apps = length (filter (\<lambda>(v, _). v = w) (db_apps db));
            db1 = (if dw_revoke_machines request then revoke_workspace_machines t w db else db);
            db2 = revoke_workspace_credentials t w db1
        in and_then (audit_insert t (ws_org r) (Some w) (actor_kind actor) (Some (actor_id actor)) ''api''
             ''workspace.deleted'' ''workspace'' w (Some (ws_name r))
             (JObject [(''machines_revoked'', JBool (dw_revoke_machines request)), (''machine_count'', JNumber machines),
                       (''agent_count'', JNumber agents), (''app_count'', JNumber apps)]) db2) (\<lambda>db3.
           Inr (\<lparr>de_workspace_id = w, de_organization_id = ws_org r, de_name = ws_name r,
                 de_machine_count = machines, de_agent_count = agents, de_app_count = apps\<rparr>,
                drop_workspace_caches w (mark_workspace_deleted t actor w db3)))))))
       db)"

end
