(* ===== verification/Org_Invitations.thy ===== *)
theory Org_Invitations
  imports Org_Admin
begin

text \<open>
  Invitations: creation, listing and revocation (\<open>auth/org_admin.rs\<close>), preview, acceptance by a
  signed-in user and use at registration (\<open>auth/accounts.rs\<close>).  Sending mail, hashing passwords and
  opening the session of a new account are not part of the state.
\<close>

section \<open>Requests\<close>

definition INVITATION_DEFAULT_EXPIRES_HOURS :: nat where "INVITATION_DEFAULT_EXPIRES_HOURS = 168"
definition INVITATION_MAX_EXPIRES_HOURS :: nat where "INVITATION_MAX_EXPIRES_HOURS = 720"
definition MAX_INVITATION_GRANTS :: nat where "MAX_INVITATION_GRANTS = 64"

definition hours :: "nat \<Rightarrow> datetime" where
  "hours n = int n * 3600 * 1000000000"

text \<open>
  A \<open>timestamptz\<close> holds microseconds and a \<open>bigint\<close> of milliseconds is rounded from it; both round
  to the nearest (times after 1970).
\<close>

definition to_micros :: "datetime \<Rightarrow> datetime" where
  "to_micros d = (d + 500) div 1000 * 1000"

definition to_millis :: "datetime \<Rightarrow> datetime" where
  "to_millis d = (d + 500000) div 1000000 * 1000000"

record create_invitation_request =
  ci_email :: "string option"
  ci_role :: organization_role
  ci_expires_in_hours :: "nat option"
  ci_group_ids :: "string list"
  ci_workspace_ids :: "string list"

record created_invitation =
  cv_id :: string
  cv_url :: string
  cv_email :: "string option"
  cv_role :: organization_role
  cv_expires_at :: datetime
  cv_created_at :: datetime
  cv_created_by :: "string \<times> string \<times> string"
  cv_group_ids :: "string list"
  cv_workspace_ids :: "string list"
  cv_email_queued :: bool

datatype invitation_status = InvitePending | InviteAccepted | InviteRevoked | InviteExpired

record invitation_summary =
  su_id :: string
  su_email :: "string option"
  su_role :: organization_role
  su_status :: invitation_status
  su_created_at :: datetime
  su_expires_at :: "datetime option"
  su_created_by :: "string \<times> string \<times> string"
  su_group_ids :: "string list"
  su_workspace_ids :: "string list"

record invitation_acceptance =
  ia_organization_id :: string
  ia_role :: string
  ia_already_member :: bool

record registration_invitation =
  ri_token :: string
  ri_kind :: string
  ri_organization_id :: "string option"
  ri_role :: "string option"

definition is_ascii_whitespace :: "char \<Rightarrow> bool" where
  "is_ascii_whitespace c \<longleftrightarrow> ordb c \<in> {9, 10, 12, 13, 32}"

definition is_ascii_control :: "char \<Rightarrow> bool" where
  "is_ascii_control c \<longleftrightarrow> ordb c < 32 \<or> ordb c = 127"

definition normalize_email :: "string \<Rightarrow> string auth_res" where
  "normalize_email v =
     (let email = to_ascii_lowercase (trim v);
          valid = length email \<le> 254 \<and> \<not> list_ex (\<lambda>b. is_ascii_whitespace b \<or> is_ascii_control b) email
            \<and> is_some_and (split_once CHR ''@'' email) (\<lambda>(local, domain).
                local \<noteq> [] \<and> length local \<le> 64 \<and> CHR ''.'' \<in> set domain
                \<and> \<not> starts_with domain ''.'' \<and> \<not> starts_with (rev domain) ''.'')
      in and_then (ensure valid (bad_request ''invalid_email'' ''enter a valid email address'')) (\<lambda>_. Inr email))"

definition validate_preferred_name :: "string \<Rightarrow> string auth_res" where
  "validate_preferred_name v =
     (let name = trim v in
      and_then (ensure (\<not> (name = [] \<or> 80 < chars_count name \<or> has_control name))
        (bad_request ''invalid_preferred_name'' ''preferred name must contain 1-80 visible characters'')) (\<lambda>_.
      Inr name))"

definition dedupe_ids :: "string list \<Rightarrow> string \<Rightarrow> string list auth_res" where
  "dedupe_ids values field =
     (let ids = map trim values in
      and_then (ensure (\<not> list_ex (\<lambda>i. i = [] \<or> 128 < length i) ids)
        (bad_request ''invalid_invitation_grants'' (field @ '' entries must be non-empty IDs''))) (\<lambda>_.
      let ids = remdups_adj (sort ids) in
      and_then (ensure (length ids \<le> MAX_INVITATION_GRANTS)
        (bad_request ''invalid_invitation_grants'' (field @ '' accepts at most 64 IDs''))) (\<lambda>_.
      Inr ids)))"

section \<open>Creating, listing and revoking\<close>

definition invitation_usable :: "tick \<Rightarrow> invitation_row \<Rightarrow> bool" where
  "invitation_usable t i \<longleftrightarrow> iv_used_at i = None \<and> iv_revoked_at i = None
     \<and> is_none_or (iv_expires_at i) (\<lambda>e. tk_now t < e)"

definition insert_invitation :: "invitation_row \<Rightarrow> org_db \<Rightarrow> org_db auth_res" where
  "insert_invitation i db =
     (if list_ex (\<lambda>r. iv_token r = iv_token i \<or> iv_id r = iv_id i) (db_invitations db)
         \<or> \<not> is_none_or (iv_org i) (\<lambda>o'. organization_of db o' \<noteq> None)
      then Inl auth_database_error
      else Inr (db\<lparr>db_invitations := db_invitations db @ [i]\<rparr>))"

definition insert_organization_invitation ::
  "org_env \<Rightarrow> tick \<Rightarrow> string \<Rightarrow> string \<Rightarrow> string \<Rightarrow> admin_actor \<Rightarrow> create_invitation_request \<Rightarrow> bool
   \<Rightarrow> org_db \<Rightarrow> created_invitation outcome" where
  "insert_organization_invitation x t token i o' actor request explicit_role db =
     try_op (require_manager_as x db o' actor) db (\<lambda>actor_role.
     try_op (ensure (\<not> (ci_role request = RoleOwner \<and> actor_role = ''admin''))
       (auth_forbidden ''organization_owner_required'' ''only an organization owner can invite an owner'')) db (\<lambda>_.
     let h = (case ci_expires_in_hours request of Some h \<Rightarrow> h | None \<Rightarrow> INVITATION_DEFAULT_EXPIRES_HOURS) in
     try_op (ensure (1 \<le> h \<and> h \<le> INVITATION_MAX_EXPIRES_HOURS)
       (bad_request ''invalid_invitation_expiry'' ''expires_in_hours must be between 1 and 720'')) db (\<lambda>_.
     try_op (case ci_email request of
         None \<Rightarrow> Inr None
       | Some e \<Rightarrow> if trim e = [] then Inr None else and_then (normalize_email (trim e)) (\<lambda>n. Inr (Some n))) db (\<lambda>email.
     try_op (dedupe_ids (ci_group_ids request) ''group_ids'') db (\<lambda>group_ids.
     try_op (dedupe_ids (ci_workspace_ids request) ''workspace_ids'') db (\<lambda>workspace_ids.
     try_op (ensure (length (filter (\<lambda>g. og_org g = o' \<and> og_id g \<in> set group_ids) (db_groups db)) = length group_ids)
       (bad_request ''invitation_group_not_found'' ''every group must belong to the organization'')) db (\<lambda>_.
     try_op (ensure (length (filter (\<lambda>r. ws_org r = o' \<and> ws_id r \<in> set workspace_ids \<and> ws_deleted_at r = None)
                               (db_workspaces db)) = length workspace_ids)
       (bad_request ''invitation_workspace_not_found''
          ''every workspace must be an active workspace of the organization'')) db (\<lambda>_.
     let expires = tk_now t + hours h;
         by = (actor_id actor, actor_name db actor, actor_kind actor) in
     try_op (and_then (insert_invitation
           \<lparr>iv_token = token, iv_id = i, iv_created_at = tk_stamp t, iv_created_by = actor_id actor,
             iv_created_by_kind = actor_kind actor, iv_created_by_name = Some (actor_name db actor),
             iv_kind = ''organization'', iv_org = Some o', iv_role = Some (organization_role_as_str (ci_role request)),
             iv_email = email, iv_expires_at = Some (to_micros expires), iv_revoked_at = None, iv_used_at = None, iv_used_by = None,
             iv_group_ids = group_ids, iv_workspace_ids = workspace_ids, iv_explicit_role = explicit_role\<rparr> db)
         (audit_insert t o' None (actor_kind actor) (Some (actor_id actor)) ''api'' ''invitation.created''
            ''invitation'' i None
            (JObject [(''role'', JString (organization_role_as_str (ci_role request))), (''expires_in_hours'', JNumber h),
                      (''has_email'', JBool (email \<noteq> None)), (''group_count'', JNumber (length group_ids)),
                      (''workspace_count'', JNumber (length workspace_ids))]))) db (\<lambda>db1.
     (Inr \<lparr>cv_id = i, cv_url = oe_invitation_url x token, cv_email = email, cv_role = ci_role request,
           cv_expires_at = expires, cv_created_at = tk_now t, cv_created_by = by, cv_group_ids = group_ids,
           cv_workspace_ids = workspace_ids, cv_email_queued = (email \<noteq> None \<and> oe_has_sender x)\<rparr>, db1))))))))))"

definition create_organization_invitation ::
  "org_env \<Rightarrow> tick \<Rightarrow> string \<Rightarrow> string \<Rightarrow> string \<Rightarrow> admin_actor \<Rightarrow> create_invitation_request
   \<Rightarrow> org_db \<Rightarrow> created_invitation outcome" where
  "create_organization_invitation x t token i o' actor request =
     insert_organization_invitation x t token i o' actor request True"

definition create_personal_invitation :: "tick \<Rightarrow> string \<Rightarrow> string \<Rightarrow> org_db \<Rightarrow> string outcome" where
  "create_personal_invitation t token i db =
     try_op (insert_invitation
       \<lparr>iv_token = token, iv_id = i, iv_created_at = tk_stamp t, iv_created_by = ''platform-admin'',
         iv_created_by_kind = ''user'', iv_created_by_name = None, iv_kind = ''personal'', iv_org = None,
         iv_role = None, iv_email = None, iv_expires_at = None, iv_revoked_at = None, iv_used_at = None,
         iv_used_by = None, iv_group_ids = [], iv_workspace_ids = [], iv_explicit_role = False\<rparr> db) db (\<lambda>db1.
     (Inr token, db1))"

definition invitation_status_of :: "tick \<Rightarrow> invitation_row \<Rightarrow> invitation_status" where
  "invitation_status_of t i =
     (if iv_used_at i \<noteq> None then InviteAccepted
      else if iv_revoked_at i \<noteq> None then InviteRevoked
      else if is_some_and (iv_expires_at i) (\<lambda>e. e \<le> tk_now t) then InviteExpired
      else InvitePending)"

definition invitation_summary_of :: "org_env \<Rightarrow> tick \<Rightarrow> org_db \<Rightarrow> invitation_row \<Rightarrow> invitation_summary" where
  "invitation_summary_of x t db i =
     (let name = (case iv_created_by_name i of
            Some n \<Rightarrow> n
          | None \<Rightarrow> (case (if iv_created_by_kind i = ''agent'' then None
                          else map_option us_preferred_name (user_of db (iv_created_by i))) of
                        Some n \<Rightarrow> n | None \<Rightarrow> iv_created_by i)) in
      \<lparr>su_id = iv_id i, su_email = iv_email i,
       su_role = (case Option.bind (iv_role i) organization_role_parse of Some r \<Rightarrow> r | None \<Rightarrow> RoleMember),
       su_status = invitation_status_of t i,
       su_created_at = (case oe_parse_rfc3339 x (iv_created_at i) of Some d \<Rightarrow> d | None \<Rightarrow> 0),
       su_expires_at = map_option to_millis (iv_expires_at i),
       su_created_by = (iv_created_by i, name, iv_created_by_kind i),
       su_group_ids = iv_group_ids i, su_workspace_ids = iv_workspace_ids i\<rparr>)"

text \<open>
  \<open>ORDER BY created_at DESC, invitation_id LIMIT 500\<close>: a stable sort by ID, reversed around a
  stable sort by the time, so that the newest come first and ties keep the order of the IDs.
\<close>

definition list_organization_invitations ::
  "org_env \<Rightarrow> tick \<Rightarrow> org_db \<Rightarrow> string \<Rightarrow> admin_actor \<Rightarrow> invitation_summary list auth_res" where
  "list_organization_invitations x t db o' actor = and_then (require_manager_as x db o' actor) (\<lambda>_.
     Inr (map (invitation_summary_of x t db)
       (take 500 (rev (sort_key (\<lambda>i. oe_collate x (iv_created_at i))
          (rev (sort_key (\<lambda>i. oe_collate x (iv_id i))
            (filter (\<lambda>i. iv_kind i = ''organization'' \<and> iv_org i = Some o') (db_invitations db)))))))))"

definition revoke_organization_invitation ::
  "org_env \<Rightarrow> tick \<Rightarrow> string \<Rightarrow> admin_actor \<Rightarrow> string \<Rightarrow> org_db \<Rightarrow> unit outcome" where
  "revoke_organization_invitation x t o' actor i db =
     try_op (require_manager_as x db o' actor) db (\<lambda>_.
     commit_op
       (and_then (ok_or_else (find (\<lambda>r. iv_kind r = ''organization'' \<and> iv_org r = Some o' \<and> iv_id r = i)
                                (db_invitations db))
          (auth_not_found ''invitation_not_found'' ''invitation does not exist'')) (\<lambda>r.
        and_then (ensure (iv_used_at r = None)
          (auth_conflict ''invitation_already_accepted''
             ''an accepted invitation cannot be revoked; remove the member instead'')) (\<lambda>_.
        if iv_revoked_at r \<noteq> None then Inr ((), db)
        else and_then (audit_insert t o' None (actor_kind actor) (Some (actor_id actor)) ''api''
               ''invitation.revoked'' ''invitation'' i None (JObject [])
               (db\<lparr>db_invitations := map (\<lambda>r. if iv_id r = i then r\<lparr>iv_revoked_at := Some (tk_now t)\<rparr> else r)
                     (db_invitations db)\<rparr>)) (\<lambda>db1.
             Inr ((), db1)))))
       db)"

section \<open>Using an invitation\<close>

text \<open>\<open>CASE WHEN explicit_role THEN role ELSE 'member' END\<close>.\<close>

definition offered_role :: "invitation_row \<Rightarrow> string option" where
  "offered_role i = (if iv_explicit_role i then iv_role i else Some ''member'')"

definition joining_role :: "invitation_row \<Rightarrow> string" where
  "joining_role n = (case offered_role n of Some r \<Rightarrow> r | None \<Rightarrow> ''member'')"

definition invitation_of :: "org_db \<Rightarrow> string \<Rightarrow> invitation_row option" where
  "invitation_of db token = find (\<lambda>i. iv_token i = token) (db_invitations db)"

definition preview_invitation ::
  "tick \<Rightarrow> org_db \<Rightarrow> string \<Rightarrow> string \<times> string option \<times> string option \<times> string option" where
  "preview_invitation t db token =
     (case (if token = [] \<or> 256 < length token then None
            else find (\<lambda>i. iv_token i = token \<and> invitation_usable t i) (db_invitations db)) of
        None \<Rightarrow> (''invalid'', None, None, None)
      | Some i \<Rightarrow> (let o' = Option.bind (iv_org i) (organization_of db) in
          (''valid'', Some (iv_kind i), map_option or_id o', map_option or_name o')))"

text \<open>
  The grants of an invitation that still exist, given to the member who joined; a conflicting row
  is left as it is.
\<close>

definition invited_groups :: "org_db \<Rightarrow> invitation_row \<Rightarrow> string \<Rightarrow> string list" where
  "invited_groups db i u = map og_id (filter (\<lambda>g. Some (og_org g) = iv_org i \<and> og_id g \<in> set (iv_group_ids i)
     \<and> \<not> list_ex (\<lambda>gm. gm_group gm = og_id g \<and> gm_user gm = u) (db_group_members db)) (db_groups db))"

definition invited_workspaces :: "org_db \<Rightarrow> invitation_row \<Rightarrow> string \<Rightarrow> string list" where
  "invited_workspaces db i u = map ws_id (filter (\<lambda>r. Some (ws_org r) = iv_org i \<and> ws_deleted_at r = None
     \<and> ws_id r \<in> set (iv_workspace_ids i) \<and> user_grant_of db (ws_id r) u = None) (db_workspaces db))"

definition apply_invitation_grants :: "tick \<Rightarrow> string \<Rightarrow> string \<Rightarrow> string \<Rightarrow> org_db \<Rightarrow> org_db" where
  "apply_invitation_grants t token o' u db =
     (case find (\<lambda>i. iv_token i = token \<and> iv_org i = Some o') (db_invitations db) of
        None \<Rightarrow> db
      | Some i \<Rightarrow>
          db\<lparr>db_group_members := db_group_members db @ map (\<lambda>g. \<lparr>gm_group = g, gm_user = u,
               gm_added_at = tk_stamp t, gm_added_by = ''invitation''\<rparr>) (invited_groups db i u),
             db_user_grants := db_user_grants db @ map (\<lambda>w. \<lparr>ug_workspace = w, ug_user = u, ug_role = ''member'',
               ug_created_at = tk_stamp t, ug_created_by = ''invitation''\<rparr>) (invited_workspaces db i u)\<rparr>)"

definition mark_used :: "tick \<Rightarrow> string \<Rightarrow> string \<Rightarrow> org_db \<Rightarrow> org_db" where
  "mark_used t u token db = db\<lparr>db_invitations :=
     map (\<lambda>i. if iv_token i = token then i\<lparr>iv_used_at := Some (tk_stamp t), iv_used_by := Some u\<rparr> else i)
       (db_invitations db)\<rparr>"

definition acceptance_payload :: "org_env \<Rightarrow> string \<Rightarrow> string \<Rightarrow> string \<Rightarrow> bool \<Rightarrow> json" where
  "acceptance_payload x token role key flag = JObject [(''role'', JString role), (key, JBool flag),
     (''invitation_ref'', JString (oe_secret_hash x token))]"

text \<open>
  Without a member row the insert cannot meet a conflict, so \<open>inserted\<close> is true on the last branch.
\<close>

definition accept_invitation ::
  "org_env \<Rightarrow> tick \<Rightarrow> string \<Rightarrow> string \<Rightarrow> org_db \<Rightarrow> invitation_acceptance outcome" where
  "accept_invitation x t token u db =
     try_op (ensure (token \<noteq> [] \<and> length token \<le> 256) invalid_invitation) db (\<lambda>_.
     commit_op
       (and_then (ok_or_else (invitation_of db token) invalid_invitation) (\<lambda>i.
        if iv_kind i \<noteq> ''organization'' then
          (if iv_used_at i \<noteq> None then Inl invalid_invitation
           else Inl (bad_request ''not_organization_invite''
             ''only organization invitations can be accepted after login''))
        else and_then (ok_or_else (iv_org i) auth_database_error) (\<lambda>o'.
        and_then (ensure (\<not> (iv_used_at i \<noteq> None \<and> iv_used_by i \<noteq> Some u)) invalid_invitation) (\<lambda>_.
        case member_of db o' u of
          Some m \<Rightarrow>
            and_then (audit_insert t o' None ''user'' (Some u) ''api'' ''invitation.accepted'' ''organization'' o' None
              (acceptance_payload x token (om_role m) ''already_member'' True) db) (\<lambda>db1.
            Inr (\<lparr>ia_organization_id = o', ia_role = om_role m, ia_already_member = True\<rparr>, db1))
        | None \<Rightarrow>
            and_then (ensure (iv_used_at i = None \<and> iv_revoked_at i = None
                \<and> is_none_or (iv_expires_at i) (\<lambda>e. tk_now t < e)) invalid_invitation) (\<lambda>_.
            let role = joining_role i in
            and_then (insert_member t o' u role db) (\<lambda>db1.
            let db2 = mark_used t u token (apply_invitation_grants t token o' u db1) in
            and_then (audit_insert t o' None ''user'' (Some u) ''api'' ''invitation.accepted'' ''organization'' o' None
              (acceptance_payload x token role ''already_member'' False) db2) (\<lambda>db3.
            Inr (\<lparr>ia_organization_id = o', ia_role = role, ia_already_member = False\<rparr>, db3))))))))
       db)"

section \<open>Registration\<close>

definition load_registration_invitation ::
  "org_env \<Rightarrow> tick \<Rightarrow> string option \<Rightarrow> bool \<Rightarrow> org_db \<Rightarrow> registration_invitation option auth_res" where
  "load_registration_invitation x t invite join_organization db =
     (case (case invite of None \<Rightarrow> None | Some v \<Rightarrow> if v = [] then None else Some v) of
        None \<Rightarrow> if oe_invitation_required x then
             Inl (bad_request ''invitation_required'' ''a valid invitation is required to create an account'')
           else Inr None
      | Some v \<Rightarrow>
          and_then (ok_or_else (find (\<lambda>i. iv_token i = v \<and> invitation_usable t i) (db_invitations db))
            invalid_invitation) (\<lambda>i.
          if iv_kind i = ''organization'' \<and> \<not> join_organization then
            (if oe_invitation_required x then Inl invalid_invitation else Inr None)
          else Inr (Some \<lparr>ri_token = v, ri_kind = iv_kind i, ri_organization_id = iv_org i,
                          ri_role = offered_role i\<rparr>)))"

definition insert_user :: "org_env \<Rightarrow> string \<Rightarrow> string \<Rightarrow> string \<Rightarrow> org_db \<Rightarrow> org_db auth_res" where
  "insert_user x u email name db =
     (if list_ex (\<lambda>r. us_id r = u \<or> oe_lower x (us_email r) = oe_lower x email) (db_users db) then
        Inl (auth_conflict ''email_exists'' ''email is already registered'')
      else Inr (db\<lparr>db_users := db_users db @ [\<lparr>us_id = u, us_email = email, us_preferred_name = name\<rparr>]\<rparr>))"

definition apply_registration_membership ::
  "org_env \<Rightarrow> tick \<Rightarrow> string \<Rightarrow> registration_invitation option \<Rightarrow> string \<Rightarrow> string \<Rightarrow> org_db \<Rightarrow> org_db auth_res" where
  "apply_registration_membership x t fresh_org invitation u name db =
     and_then (case invitation of
         None \<Rightarrow> Inr db
       | Some i \<Rightarrow> and_then (ensure (list_ex (\<lambda>r. iv_token r = ri_token i \<and> iv_used_at r = None) (db_invitations db))
             invalid_invitation) (\<lambda>_. Inr (mark_used t u (ri_token i) db))) (\<lambda>db1.
     if is_none_or invitation (\<lambda>i. ri_kind i = ''personal'') then
       and_then (insert_organization t fresh_org (name @ '' Personal'') u db1)
         (insert_member t fresh_org u ''owner'')
     else case invitation of
         Some i \<Rightarrow>
           if ri_kind i = ''organization'' then
             and_then (ok_or_else (ri_organization_id i) invalid_invitation) (\<lambda>o'.
             let role = (case ri_role i of Some r \<Rightarrow> r | None \<Rightarrow> ''member'') in
             and_then (insert_member t o' u role db1) (\<lambda>db2.
             audit_insert t o' None ''user'' (Some u) ''api'' ''invitation.accepted'' ''organization'' o' None
               (acceptance_payload x (ri_token i) role ''registration'' True)
               (apply_invitation_grants t (ri_token i) o' u db2)))
           else Inl (auth_internal ''invalid_invitation_state'' ''invitation has an unsupported kind'')
       | None \<Rightarrow> Inl invalid_invitation)"

text \<open>
  The transaction of \<open>register_with_client\<close>: \<open>password\<close> stands for the outcome of validating and
  hashing the password, \<open>uuid\<close> for the random part of the new user's ID, which is the answer.
\<close>

definition register_with_client ::
  "org_env \<Rightarrow> tick \<Rightarrow> string \<Rightarrow> string \<Rightarrow> string option \<Rightarrow> string \<Rightarrow> string \<Rightarrow> unit auth_res \<Rightarrow> bool
   \<Rightarrow> org_db \<Rightarrow> string outcome" where
  "register_with_client x t uuid fresh_org invite email name password join_organization db =
     try_op (normalize_email email) db (\<lambda>email.
     try_op (validate_preferred_name name) db (\<lambda>name.
     try_op password db (\<lambda>_.
     let u = ''usr_'' @ uuid in
     commit_op
       (and_then (load_registration_invitation x t invite join_organization db) (\<lambda>invitation.
        and_then (insert_user x u email name db) (\<lambda>db1.
        and_then (apply_registration_membership x t fresh_org invitation u name db1) (\<lambda>db2.
        Inr (u, db2)))))
       db)))"

end
