(* ===== verification/Org_System.thy ===== *)
theory Org_System
  imports Org_Invitations
begin

text \<open>
  All methods that change memberships, groups, grants, workspaces and invitations as one transition
  system (\<open>org_step\<close>, labelled with the acting principal), and the change each of them makes to the
  nine tables that decide access (\<open>org_change\<close>).  The properties of the component are proved once
  per kind of change; \<open>step_changes\<close> carries them to the methods.
\<close>

section \<open>Requests as steps\<close>

text \<open>
  A session belongs to a row of \<open>users\<close>, so a signed-in user exists; IDs and tokens from the \<open>uuid\<close>
  crate are arbitrary, since a collision is refused by the primary keys.
\<close>

inductive org_step :: "org_env \<Rightarrow> admin_actor \<Rightarrow> org_db \<Rightarrow> org_db \<Rightarrow> bool" for x where
  step_create_organization:
    "user_of db u \<noteq> None \<Longrightarrow> org_step x (ActorUser u) db (snd (create_organization x t i u name db))"
| step_rename_organization: "org_step x actor db (snd (rename_organization_as x t i actor name db))"
| step_delete_organization: "org_step x actor db (snd (delete_organization x t i actor confirm db))"
| step_leave: "org_step x (ActorUser u) db (snd (leave_organization x t i u db))"
| step_transfer: "org_step x (ActorUser u) db (snd (transfer_organization x t i u target db))"
| step_role: "org_step x actor db (snd (update_member_role_as x t i actor target role db))"
| step_remove: "org_step x actor db (snd (remove_member_as x t i actor target db))"
| step_create_group: "org_step x actor db (snd (create_organization_group_as x t g i actor name db))"
| step_delete_group: "org_step x actor db (snd (delete_organization_group_as x t i actor g db))"
| step_group_member: "org_step x actor db (snd (set_organization_group_member_as x t i actor g u present db))"
| step_mode: "org_step x actor db (snd (update_workspace_access_mode_as x t w actor mode db))"
| step_user_grant: "org_step x actor db (snd (upsert_workspace_user_grant_as x t w actor u role db))"
| step_user_revoke: "org_step x actor db (snd (remove_workspace_user_grant_as x t w actor u db))"
| step_group_grant: "org_step x actor db (snd (upsert_workspace_group_grant_as x t w actor g role db))"
| step_group_revoke: "org_step x actor db (snd (remove_workspace_group_grant_as x t w actor g db))"
| step_create_workspace: "org_step x actor db (snd (create_workspace_as x t i w name actor db))"
| step_rename_workspace: "org_step x actor db (snd (rename_workspace_as x t w actor name db))"
| step_delete_workspace: "org_step x actor db (snd (delete_workspace_as x t w actor request db))"
| step_invite: "org_step x actor db (snd (create_organization_invitation x t token n i actor invite db))"
| step_revoke_invitation: "org_step x actor db (snd (revoke_organization_invitation x t i actor n db))"
| step_personal_invitation: "org_step x (ActorUser ''platform-admin'') db (snd (create_personal_invitation t token n db))"
| step_accept: "user_of db u \<noteq> None \<Longrightarrow> org_step x (ActorUser u) db (snd (accept_invitation x t token u db))"
| step_register:
    "u = ''usr_'' @ uuid
     \<Longrightarrow> org_step x (ActorUser u) db (snd (register_with_client x t uuid i invite_token email name password join db))"

definition any_step :: "org_env \<Rightarrow> org_db \<Rightarrow> org_db \<Rightarrow> bool" where
  "any_step x db db' \<longleftrightarrow> (\<exists>actor. org_step x actor db db')"

definition empty_db :: org_db where
  "empty_db = \<lparr>db_users = [], db_organizations = [], db_members = [], db_workspaces = [], db_groups = [],
     db_group_members = [], db_user_grants = [], db_group_grants = [], db_invitations = [], db_audit = [],
     db_platform_audit = [], db_profiles = [], db_machines = [], db_machine_names = [],
     db_machine_services = [], db_agent_names = [], db_virtual_network_hosts = [], db_enrollments = [],
     db_credentials = [], db_apps = [], db_traffic = [], db_agent_traffic = [], db_network_receipts = [],
     db_cached_credentials = [], db_cached_ingresses = [], db_virtual_hosts_map = [], db_hosts_revision = 0\<rparr>"

section \<open>The tables that decide access\<close>

definition same_access :: "org_db \<Rightarrow> org_db \<Rightarrow> bool" where
  "same_access a b \<longleftrightarrow> db_users a = db_users b \<and> db_organizations a = db_organizations b
     \<and> db_members a = db_members b \<and> db_workspaces a = db_workspaces b \<and> db_groups a = db_groups b
     \<and> db_group_members a = db_group_members b \<and> db_user_grants a = db_user_grants b
     \<and> db_group_grants a = db_group_grants b \<and> db_invitations a = db_invitations b"

lemma same_access_refl [simp, intro]: "same_access a a"
  by (simp add: same_access_def)

lemma same_access_trans: "same_access a b \<Longrightarrow> same_access b c \<Longrightarrow> same_access a c"
  by (simp add: same_access_def)

lemma audit_same_access: "audit_insert t i w k a s act rk rid rn p db = Inr db' \<Longrightarrow> same_access db' db"
  by (auto simp: audit_insert_def same_access_def split: if_splits)

lemma record_organization_same_access:
  "record_organization_audit t i a act rk rid rn p db = Inr db' \<Longrightarrow> same_access db' db"
  unfolding record_organization_audit_def by (rule audit_same_access)

lemma record_access_same_access: "record_access_audit t w a act rk rid p db = Inr db' \<Longrightarrow> same_access db' db"
  by (auto simp: record_access_audit_def record_workspace_audit_def split: option.splits
      dest: audit_same_access)

lemma profiles_same_access:
  "insert_default_agent_launch_profiles x t w by db = Inr db' \<Longrightarrow> same_access db' db"
  by (auto simp: insert_default_agent_launch_profiles_def same_access_def res_simps)

lemmas audits_same_access = audit_same_access record_organization_same_access record_access_same_access
  profiles_same_access

section \<open>Changes\<close>

text \<open>
  The changes the methods make to these tables, each with the conditions under which the code makes
  it.  \<open>removal_by\<close> is who may take a member out: the member, or a manager, where an
  administrator may not take out an owner.
\<close>

definition removal_by :: "org_env \<Rightarrow> org_db \<Rightarrow> string \<Rightarrow> admin_actor \<Rightarrow> string \<Rightarrow> string \<Rightarrow> bool" where
  "removal_by x db i actor target role \<longleftrightarrow> actor = ActorUser target
     \<or> (\<exists>r. require_manager_as x db i actor = Inr r \<and> \<not> (role = ''owner'' \<and> r = ''admin''))"

inductive org_change :: "org_env \<Rightarrow> admin_actor \<Rightarrow> org_db \<Rightarrow> org_db \<Rightarrow> bool" for x actor db where
  ch_organization:
    "actor = ActorUser u \<Longrightarrow> insert_organization t i name u db = Inr db1
     \<Longrightarrow> insert_member t i u ''owner'' db1 = Inr db2 \<Longrightarrow> org_change x actor db db2"
| ch_rename:
    "require_manager_as x db i actor = Inr r
     \<Longrightarrow> org_change x actor db (db\<lparr>db_organizations :=
           map (\<lambda>r. if or_id r = i then r\<lparr>or_name := name\<rparr> else r) (db_organizations db)\<rparr>)"
| ch_delete:
    "require_owner_as x db i actor = Inr r
     \<Longrightarrow> \<forall>w \<in> set (db_workspaces db). ws_org w = i \<longrightarrow> ws_deleted_at w \<noteq> None
     \<Longrightarrow> org_change x actor db (cascade_organization i db)"
| ch_remove:
    "role_in (lock_member_roles x db i) target = Some role
     \<Longrightarrow> \<not> (role = ''owner'' \<and> owner_count (lock_member_roles x db i) \<le> 1)
     \<Longrightarrow> removal_by x db i actor target role
     \<Longrightarrow> org_change x actor db (remove_member_rows i target db)"
| ch_transfer:
    "actor = ActorUser u \<Longrightarrow> role_in (lock_member_roles x db i) u = Some ''owner'' \<Longrightarrow> target \<noteq> u
     \<Longrightarrow> role_in (lock_member_roles x db i) target = Some previous
     \<Longrightarrow> org_change x actor db (set_member_role i u ''admin'' (set_member_role i target ''owner'' db))"
| ch_role:
    "require_owner_as x db i actor = Inr r \<Longrightarrow> role \<in> {''owner'', ''admin'', ''member''}
     \<Longrightarrow> role_in (lock_member_roles x db i) target = Some old
     \<Longrightarrow> \<not> (old = ''owner'' \<and> role \<noteq> ''owner'' \<and> owner_count (lock_member_roles x db i) \<le> 1)
     \<Longrightarrow> org_change x actor db (set_member_role i target role db)"
| ch_group:
    "require_manager_as x db i actor = Inr r \<Longrightarrow> og_id g \<notin> og_id ` set (db_groups db) \<Longrightarrow> og_org g = i
     \<Longrightarrow> organization_of db i \<noteq> None
     \<Longrightarrow> org_change x actor db (db\<lparr>db_groups := db_groups db @ [g]\<rparr>)"
| ch_delete_group:
    "require_manager_as x db i actor = Inr r \<Longrightarrow> g \<in> set (db_groups db) \<Longrightarrow> og_org g = i
     \<Longrightarrow> org_change x actor db (cascade_group (og_id g) db)"
| ch_group_join:
    "require_manager_as x db i actor = Inr r \<Longrightarrow> group_member_valid db i g u
     \<Longrightarrow> insert_group_member t by g u db = Inr db1 \<Longrightarrow> org_change x actor db db1"
| ch_group_leave:
    "require_manager_as x db i actor = Inr r \<Longrightarrow> group_member_valid db i g u
     \<Longrightarrow> org_change x actor db (delete_group_member g u db)"
| ch_mode:
    "require_workspace_owner_as x db w actor = Inr () \<Longrightarrow> mode \<in> {''organization'', ''restricted''}
     \<Longrightarrow> org_change x actor db (set_access_mode w mode db)"
| ch_user_grant:
    "require_workspace_owner_as x db w actor = Inr () \<Longrightarrow> belongs_to_workspace db w u
     \<Longrightarrow> upsert_user_grant t by w u role db = Inr db1 \<Longrightarrow> role \<in> {''owner'', ''member''}
     \<Longrightarrow> org_change x actor db db1"
| ch_user_revoke:
    "require_workspace_owner_as x db w actor = Inr () \<Longrightarrow> org_change x actor db (delete_user_grant w u db)"
| ch_group_grant:
    "require_workspace_owner_as x db w actor = Inr () \<Longrightarrow> group_in_organization db w g
     \<Longrightarrow> upsert_group_grant t by w g role db = Inr db1 \<Longrightarrow> role \<in> {''owner'', ''member''}
     \<Longrightarrow> org_change x actor db db1"
| ch_group_revoke:
    "require_workspace_owner_as x db w actor = Inr () \<Longrightarrow> org_change x actor db (delete_group_grant w g db)"
| ch_workspace:
    "require_member_as x db i actor = Inr r \<Longrightarrow> insert_workspace t w i name u db = Inr db1
     \<Longrightarrow> u = actor_label actor \<Longrightarrow> org_change x actor db db1"
| ch_workspace_owned:
    "require_member_as x db i actor = Inr r \<Longrightarrow> insert_workspace t w i name u db = Inr db1
     \<Longrightarrow> u = actor_label actor \<Longrightarrow> user_of db u \<noteq> None \<Longrightarrow> upsert_user_grant t u w u ''owner'' db1 = Inr db2
     \<Longrightarrow> org_change x actor db db2"
| ch_rename_workspace:
    "workspace_role_as x db w actor = Inr r
     \<Longrightarrow> org_change x actor db (db\<lparr>db_workspaces :=
           map (\<lambda>r. if ws_id r = w \<and> ws_deleted_at r = None then r\<lparr>ws_name := name\<rparr> else r) (db_workspaces db)\<rparr>)"
| ch_delete_workspace:
    "require_workspace_owner_as x db w actor = Inr ()
     \<Longrightarrow> org_change x actor db (mark_workspace_deleted t actor w db)"
| ch_invite:
    "insert_invitation n db = Inr db1 \<Longrightarrow> require_manager_as x db i actor = Inr r
     \<Longrightarrow> iv_kind n = ''organization'' \<Longrightarrow> iv_org n = Some i \<Longrightarrow> iv_used_at n = None
     \<Longrightarrow> iv_role n = Some (organization_role_as_str role) \<Longrightarrow> \<not> (role = RoleOwner \<and> r = ''admin'')
     \<Longrightarrow> org_change x actor db db1"
| ch_personal_invite:
    "insert_invitation n db = Inr db1 \<Longrightarrow> actor = ActorUser ''platform-admin'' \<Longrightarrow> iv_kind n = ''personal''
     \<Longrightarrow> iv_org n = None \<Longrightarrow> iv_role n = None \<Longrightarrow> iv_used_at n = None \<Longrightarrow> org_change x actor db db1"
| ch_revoke_invite:
    "require_manager_as x db i actor = Inr r \<Longrightarrow> n \<in> set (db_invitations db) \<Longrightarrow> iv_org n = Some i
     \<Longrightarrow> iv_used_at n = None
     \<Longrightarrow> org_change x actor db (db\<lparr>db_invitations := map (\<lambda>r. if iv_id r = iv_id n
           then r\<lparr>iv_revoked_at := Some now\<rparr> else r) (db_invitations db)\<rparr>)"
| ch_accept:
    "actor = ActorUser u \<Longrightarrow> n \<in> set (db_invitations db) \<Longrightarrow> iv_token n = token \<Longrightarrow> invitation_usable t n
     \<Longrightarrow> iv_org n = Some i \<Longrightarrow> role = joining_role n
     \<Longrightarrow> insert_member t i u role db = Inr db1
     \<Longrightarrow> org_change x actor db (mark_used t u token (apply_invitation_grants t token i u db1))"
| ch_register_personal:
    "actor = ActorUser u \<Longrightarrow> u = ''usr_'' @ uuid \<Longrightarrow> insert_user x u email name db = Inr db1
     \<Longrightarrow> db2 = db1 \<or> (\<exists>n \<in> set (db_invitations db). invitation_usable t n \<and> db2 = mark_used t u (iv_token n) db1)
     \<Longrightarrow> insert_organization t i title u db2 = Inr db3
     \<Longrightarrow> insert_member t i u ''owner'' db3 = Inr db4 \<Longrightarrow> org_change x actor db db4"
| ch_register:
    "actor = ActorUser u \<Longrightarrow> u = ''usr_'' @ uuid \<Longrightarrow> insert_user x u email name db = Inr db1
     \<Longrightarrow> n \<in> set (db_invitations db) \<Longrightarrow> iv_token n = token \<Longrightarrow> invitation_usable t n \<Longrightarrow> iv_org n = Some i
     \<Longrightarrow> role = joining_role n
     \<Longrightarrow> insert_member t i u role (mark_used t u token db1) = Inr db2
     \<Longrightarrow> org_change x actor db (apply_invitation_grants t token i u db2)"

text \<open>A method leaves the tables alone or makes one of the changes.\<close>

definition changes :: "org_env \<Rightarrow> admin_actor \<Rightarrow> org_db \<Rightarrow> org_db \<Rightarrow> bool" where
  "changes x actor db db' \<longleftrightarrow> same_access db' db \<or> (\<exists>db1. org_change x actor db db1 \<and> same_access db' db1)"

lemma changes_same [intro]: "same_access db' db \<Longrightarrow> changes x actor db db'"
  by (simp add: changes_def)

lemma changes_refl [simp]: "changes x actor db db"
  by (simp add: changes_def)

lemma changes_by: "org_change x actor db db1 \<Longrightarrow> same_access db' db1 \<Longrightarrow> changes x actor db db'"
  by (auto simp: changes_def)

section \<open>Every method makes one of the changes\<close>

lemmas ch_ops =
  try_op_state [where P = "changes x actor db" for x actor db]
  commit_op_state [where P = "changes x actor db" for x actor db]
  pair_state [where P = "changes x actor db" for x actor db]
  changes_refl

lemma create_organization_changes:
  assumes "user_of db u \<noteq> None"
  shows "changes x (ActorUser u) db (snd (create_organization x t i u name db))"
  unfolding create_organization_def
proof (intro ch_ops)
  fix name1 info db'
  assume "and_then (insert_organization t i name1 u db) (\<lambda>db1.
      and_then (if user_of db1 u = None then Inr db1 else insert_member t i u ''owner'' db1) (\<lambda>db2.
      and_then (audit_insert t i None ''user'' (Some u) ''api'' ''organization.created'' ''organization'' i
        (Some name1) (JObject []) db2) (\<lambda>db3.
      Inr (\<lparr>oi_organization_id = i, oi_name = name1, oi_role = ''owner'', oi_created_at = tk_stamp t\<rparr>, db3))))
    = Inr (info, db')"
  then obtain db1 db2 db3 where 1: "insert_organization t i name1 u db = Inr db1"
    and 2: "(if user_of db1 u = None then Inr db1 else insert_member t i u ''owner'' db1) = Inr db2"
    and 3: "same_access db3 db2" "db' = db3"
    by (auto simp: res_simps dest!: audits_same_access)
  have "user_of db1 u \<noteq> None" using 1 assms by (auto simp: insert_organization_def user_of_def split: if_splits)
  with 2 have "insert_member t i u ''owner'' db1 = Inr db2" by simp
  with 1 3 show "changes x (ActorUser u) db db'" by (blast intro: changes_by ch_organization)
qed

lemma rename_organization_changes: "changes x actor db (snd (rename_organization_as x t i actor name db))"
  unfolding rename_organization_as_def Let_def
  by (intro ch_ops)
    (auto simp: res_simps dest!: audits_same_access intro: changes_by [OF ch_rename])

lemma delete_organization_changes: "changes x actor db (snd (delete_organization x t i actor confirm db))"
  unfolding delete_organization_def Let_def
  apply (intro ch_ops)
  apply (auto simp: res_simps filter_empty_conv split: if_splits)
  apply (rule changes_by [OF ch_delete, of _ _ i])
    apply (auto simp: same_access_def cascade_organization_def Let_def workspaces_of_def groups_of_def)
  done

lemma leave_changes: "changes x (ActorUser u) db (snd (leave_organization x t i u db))"
  unfolding leave_organization_def Let_def
  apply (intro ch_ops)
  apply (clarsimp simp: res_simps dest!: audits_same_access)
  apply (rule changes_by [OF ch_remove])
     apply (auto simp: removal_by_def)
  done

lemma transfer_changes: "changes x (ActorUser u) db (snd (transfer_organization x t i u target db))"
  unfolding transfer_organization_def Let_def
  by (intro ch_ops)
    (auto simp: res_simps split: option.splits dest!: audits_same_access intro: changes_by [OF ch_transfer])

lemma role_changes: "changes x actor db (snd (update_member_role_as x t i actor target role db))"
  unfolding update_member_role_as_def Let_def
  apply (intro ch_ops)
  apply (clarsimp simp: res_simps dest!: audits_same_access)
  apply (rule changes_by [OF ch_role])
      apply auto
  done

lemma remove_changes: "changes x actor db (snd (remove_member_as x t i actor target db))"
  unfolding remove_member_as_def Let_def
  apply (intro ch_ops)
  apply (clarsimp simp: res_simps dest!: audits_same_access)
  apply (rule changes_by [OF ch_remove])
     apply (auto simp: removal_by_def)
  done

lemma create_group_changes: "changes x actor db (snd (create_organization_group_as x t g i actor name db))"
proof -
  let ?row = "\<lambda>name. \<lparr>og_id = g, og_org = i, og_name = name, og_created_at = tk_stamp t, og_created_by = actor_label actor\<rparr>"
  have *: "org_change x actor db (db\<lparr>db_groups := db_groups db @ [?row n]\<rparr>)"
    if "require_manager_as x db i actor = Inr r"
      "\<not> list_ex (\<lambda>r. og_id r = g \<or> og_org r = i \<and> oe_lower x (og_name r) = oe_lower x n) (db_groups db)"
      "organization_of db i \<noteq> None" for r n
    using that by (intro ch_group [where i = i]) (auto simp: list_ex_iff)
  show ?thesis
    unfolding create_organization_group_as_def Let_def
    by (intro ch_ops)
      (auto intro!: ch_ops changes_by [OF *] dest: audits_same_access)
qed

lemma delete_group_changes: "changes x actor db (snd (delete_organization_group_as x t i actor g db))"
proof -
  have *: "org_change x actor db (cascade_group g db)"
    if "require_manager_as x db i actor = Inr r" "list_ex (\<lambda>r. og_org r = i \<and> og_id r = g) (db_groups db)" for r
    using that ch_delete_group [of x db i actor r] by (auto simp: list_ex_iff)
  show ?thesis
    unfolding delete_organization_group_as_def Let_def
    by (intro ch_ops)
      (auto intro!: ch_ops changes_by [OF *] dest: audits_same_access)
qed

lemma group_member_changes: "changes x actor db (snd (set_organization_group_member_as x t i actor g u present db))"
  unfolding set_organization_group_member_as_def group_member_checks_def group_member_writes_def
  by (intro ch_ops)
    (auto simp: res_simps split: if_splits dest!: audits_same_access
      intro: changes_by [OF ch_group_join] changes_by [OF ch_group_leave])

lemma mode_changes: "changes x actor db (snd (update_workspace_access_mode_as x t w actor mode db))"
  unfolding update_workspace_access_mode_as_def Let_def
  by (intro ch_ops) (auto dest!: audits_same_access intro: changes_by [OF ch_mode])

lemma user_grant_changes: "changes x actor db (snd (upsert_workspace_user_grant_as x t w actor u role db))"
  unfolding upsert_workspace_user_grant_as_def user_grant_checks_def user_grant_writes_def
  by (intro ch_ops)
    (auto simp: validate_workspace_role_def res_simps dest!: audits_same_access intro: changes_by [OF ch_user_grant])

lemma user_revoke_changes: "changes x actor db (snd (remove_workspace_user_grant_as x t w actor u db))"
  unfolding remove_workspace_user_grant_as_def Let_def
  by (intro ch_ops) (auto dest!: audits_same_access intro: changes_by [OF ch_user_revoke])

lemma group_grant_changes: "changes x actor db (snd (upsert_workspace_group_grant_as x t w actor g role db))"
  unfolding upsert_workspace_group_grant_as_def
  by (intro ch_ops)
    (auto simp: validate_workspace_role_def dest!: audits_same_access intro: changes_by [OF ch_group_grant])

lemma group_revoke_changes: "changes x actor db (snd (remove_workspace_group_grant_as x t w actor g db))"
  unfolding remove_workspace_group_grant_as_def Let_def
  by (intro ch_ops) (auto dest!: audits_same_access intro: changes_by [OF ch_group_revoke])

lemma create_workspace_changes: "changes x actor db (snd (create_workspace_as x t i w name actor db))"
proof -
  have 1: "changes x actor db db'" if "require_member_as x db i actor = Inr r"
      "insert_workspace t w i n (actor_label actor) db = Inr db1"
      "(if user_of db1 (actor_label actor) = None then Inr db1
        else upsert_user_grant t (actor_label actor) w (actor_label actor) ''owner'' db1) = Inr db2"
      "same_access db' db2" for r n db1 db2 db'
  proof (cases "user_of db1 (actor_label actor) = None")
    case True
    with that show ?thesis by (auto intro: changes_by [OF ch_workspace])
  next
    case False
    moreover have "user_of db (actor_label actor) = user_of db1 (actor_label actor)"
      using that(2) by (auto simp: insert_workspace_def user_of_def split: if_splits)
    ultimately show ?thesis using that by (auto intro: changes_by [OF ch_workspace_owned])
  qed
  show ?thesis
    unfolding create_workspace_as_def Let_def
    by (intro ch_ops) (clarsimp simp: res_simps, erule (2) 1,
        auto dest!: audits_same_access intro: same_access_trans)
qed

lemma rename_workspace_changes: "changes x actor db (snd (rename_workspace_as x t w actor name db))"
  unfolding rename_workspace_as_def Let_def
  by (intro ch_ops) (auto simp: res_simps dest!: audits_same_access intro: changes_by [OF ch_rename_workspace])

lemma delete_workspace_changes: "changes x actor db (snd (delete_workspace_as x t w actor request db))"
  unfolding delete_workspace_as_def Let_def
  apply (intro ch_ops)
  apply (clarsimp simp: res_simps simp del: fun_upd_apply)
  apply (rule changes_by [OF ch_delete_workspace [where t = t and w = w]])
   apply simp
  apply (drule audits_same_access)
  apply (auto simp: same_access_def drop_workspace_caches_def mark_workspace_deleted_def
      revoke_workspace_credentials_def revoke_workspace_machines_def)
  done

lemma invite_changes:
  "changes x actor db (snd (create_organization_invitation x t token n i actor request db))"
  unfolding create_organization_invitation_def insert_organization_invitation_def Let_def
  apply (intro ch_ops)
  apply (clarsimp simp: res_simps dest!: audits_same_access simp del: split_paired_Ex)
  apply (rule changes_by, erule ch_invite [where i = i and role = "ci_role request"])
       apply auto
  done

lemma revoke_invitation_changes: "changes x actor db (snd (revoke_organization_invitation x t i actor n db))"
  unfolding revoke_organization_invitation_def Let_def
  by (intro ch_ops) (auto simp: res_simps split: if_splits dest!: audits_same_access find_mem
      intro: changes_by [OF ch_revoke_invite])

lemma personal_invitation_changes: "changes x (ActorUser ''platform-admin'') db (snd (create_personal_invitation t token n db))"
  unfolding create_personal_invitation_def
  by (intro ch_ops) (erule changes_by [OF ch_personal_invite], simp_all)

lemma joining_changes:
  assumes "insert_member t i u (joining_role n) db = Inr db1" "n \<in> set (db_invitations db)"
    "invitation_usable t n" "iv_org n = Some i"
    "same_access db' (mark_used t u (iv_token n) (apply_invitation_grants t (iv_token n) i u db1))"
  shows "changes x (ActorUser u) db db'"
  using assms by (blast intro: changes_by ch_accept)

lemma accept_changes: "changes x (ActorUser u) db (snd (accept_invitation x t token u db))"
  unfolding accept_invitation_def Let_def
  by (intro ch_ops)
    (auto simp: res_simps invitation_usable_def invitation_of_def split: if_splits option.splits
      dest!: find_mem audits_same_access intro: joining_changes)

lemma register_changes:
  assumes u: "u = ''usr_'' @ uuid"
  shows "changes x (ActorUser u) db (snd (register_with_client x t uuid i invite email name password join db))"
proof -
  have *: "changes x (ActorUser u) db db2"
    if load: "load_registration_invitation x t invite join db = Inr v" and new: "insert_user x u e n db = Inr db1"
      and join: "apply_registration_membership x t i v u n db1 = Inr db2" for v e n db1 db2
  proof (cases "is_none_or v (\<lambda>i. ri_kind i = ''personal'')")
    case True
    with join obtain db3 db4 where 3: "db3 = db1 \<or> (\<exists>r. v = Some r \<and> db3 = mark_used t u (ri_token r) db1)"
      "insert_organization t i (n @ '' Personal'') u db3 = Inr db4" "insert_member t i u ''owner'' db4 = Inr db2"
      by (cases v) (auto simp: apply_registration_membership_def res_simps)
    have "\<exists>m \<in> set (db_invitations db). invitation_usable t m \<and> iv_token m = ri_token r" if "v = Some r" for r
      using load that
      by (auto simp: load_registration_invitation_def res_simps split: option.splits if_splits dest!: find_mem)
    with 3(1) have "db3 = db1 \<or> (\<exists>m \<in> set (db_invitations db). invitation_usable t m \<and> db3 = mark_used t u (iv_token m) db1)"
      by metis
    note 3 = this 3(2,3)
    from 3 new u show ?thesis by (blast intro: changes_by ch_register_personal)
  next
    case False
    then obtain r where v: "v = Some r" "ri_kind r \<noteq> ''personal''" by (cases v) auto
    from load v(1) obtain m where m: "m \<in> set (db_invitations db)" "invitation_usable t m"
      "r = \<lparr>ri_token = iv_token m, ri_kind = iv_kind m, ri_organization_id = iv_org m, ri_role = offered_role m\<rparr>"
      by (auto simp: load_registration_invitation_def res_simps split: option.splits if_splits dest!: find_mem)
    from join v m(3) obtain o' db3 where 3: "iv_org m = Some o'"
      "insert_member t o' u (joining_role m) (mark_used t u (iv_token m) db1) = Inr db3"
      "same_access db2 (apply_invitation_grants t (iv_token m) o' u db3)"
      by (auto simp: apply_registration_membership_def joining_role_def res_simps Let_def
          split: if_splits dest!: audits_same_access)
    from new u m(1,2) 3 show ?thesis by (blast intro: changes_by ch_register)
  qed
  show ?thesis
    unfolding register_with_client_def Let_def u [symmetric]
    by (intro ch_ops) (auto simp: res_simps intro: *)
qed

theorem step_changes: "org_step x actor db db' \<Longrightarrow> changes x actor db db'"
  by (induction rule: org_step.induct)
    (simp_all add: create_organization_changes rename_organization_changes delete_organization_changes
      leave_changes transfer_changes role_changes remove_changes create_group_changes delete_group_changes
      group_member_changes mode_changes user_grant_changes user_revoke_changes group_grant_changes
      group_revoke_changes create_workspace_changes rename_workspace_changes delete_workspace_changes
      invite_changes revoke_invitation_changes personal_invitation_changes accept_changes register_changes)

end
