(* ===== verification/Org_Invariant.thy ===== *)
theory Org_Invariant
  imports Org_System
begin

text \<open>
  The invariant of the access tables: the primary keys and foreign keys of the schema, the scope of
  groups and grants (a group member or a directly granted user belongs to the organization, a group
  grant joins a workspace and a group of one organization) and that every organization has an owner.
\<close>

section \<open>The invariant\<close>

definition org_keys_ok :: "org_db \<Rightarrow> bool" where
  "org_keys_ok db \<longleftrightarrow> distinct (map us_id (db_users db)) \<and> distinct (map or_id (db_organizations db))
     \<and> distinct (map (\<lambda>m. (om_org m, om_user m)) (db_members db))
     \<and> distinct (map ws_id (db_workspaces db)) \<and> distinct (map og_id (db_groups db))
     \<and> distinct (map (\<lambda>g. (ug_workspace g, ug_user g)) (db_user_grants db))
     \<and> distinct (map iv_token (db_invitations db)) \<and> distinct (map iv_id (db_invitations db))
     \<and> (\<forall>r \<in> set (db_users db). take 4 (us_id r) = ''usr_'')"

definition refs_ok :: "org_db \<Rightarrow> bool" where
  "refs_ok db \<longleftrightarrow>
     (\<forall>m \<in> set (db_members db). om_org m \<in> or_id ` set (db_organizations db) \<and> om_user m \<in> us_id ` set (db_users db))
     \<and> (\<forall>r \<in> set (db_workspaces db). ws_org r \<in> or_id ` set (db_organizations db))
     \<and> (\<forall>g \<in> set (db_groups db). og_org g \<in> or_id ` set (db_organizations db))
     \<and> (\<forall>gm \<in> set (db_group_members db). gm_group gm \<in> og_id ` set (db_groups db))
     \<and> (\<forall>g \<in> set (db_user_grants db). ug_workspace g \<in> ws_id ` set (db_workspaces db))
     \<and> (\<forall>g \<in> set (db_group_grants db). wg_workspace g \<in> ws_id ` set (db_workspaces db)
          \<and> wg_group g \<in> og_id ` set (db_groups db))"

definition is_member :: "org_db \<Rightarrow> string \<Rightarrow> string \<Rightarrow> bool" where
  "is_member db i u \<longleftrightarrow> (i, u) \<in> (\<lambda>m. (om_org m, om_user m)) ` set (db_members db)"

definition scope_ok :: "org_db \<Rightarrow> bool" where
  "scope_ok db \<longleftrightarrow>
     (\<forall>gm \<in> set (db_group_members db). \<forall>g \<in> set (db_groups db).
        og_id g = gm_group gm \<longrightarrow> is_member db (og_org g) (gm_user gm))
     \<and> (\<forall>ug \<in> set (db_user_grants db). \<forall>r \<in> set (db_workspaces db).
        ws_id r = ug_workspace ug \<longrightarrow> is_member db (ws_org r) (ug_user ug))
     \<and> (\<forall>wg \<in> set (db_group_grants db). \<forall>r \<in> set (db_workspaces db). \<forall>g \<in> set (db_groups db).
        ws_id r = wg_workspace wg \<longrightarrow> og_id g = wg_group wg \<longrightarrow> ws_org r = og_org g)"

definition owners :: "org_db \<Rightarrow> string \<Rightarrow> string set" where
  "owners db i = om_user ` {m \<in> set (db_members db). om_org m = i \<and> om_role m = ''owner''}"

definition owned :: "org_db \<Rightarrow> bool" where
  "owned db \<longleftrightarrow> (\<forall>r \<in> set (db_organizations db). owners db (or_id r) \<noteq> {})"

definition org_inv :: "org_db \<Rightarrow> bool" where
  "org_inv db \<longleftrightarrow> org_keys_ok db \<and> refs_ok db \<and> scope_ok db \<and> owned db"

lemma same_access_inv: "same_access a b \<Longrightarrow> org_inv a = org_inv b"
  by (simp add: same_access_def org_inv_def org_keys_ok_def refs_ok_def scope_ok_def is_member_def owned_def owners_def)

lemma empty_db_inv: "org_inv empty_db"
  by (simp add: org_inv_def org_keys_ok_def refs_ok_def scope_ok_def is_member_def owned_def owners_def empty_db_def)

section \<open>Lookups\<close>

lemma is_member_iff: "is_member db i u \<longleftrightarrow> (\<exists>m \<in> set (db_members db). om_org m = i \<and> om_user m = u)"
  by (auto simp: is_member_def image_iff)

lemma organization_of_None: "organization_of db i = None \<longleftrightarrow> i \<notin> or_id ` set (db_organizations db)"
  by (auto simp: organization_of_def find_None_iff)

lemma user_of_None: "user_of db u = None \<longleftrightarrow> u \<notin> us_id ` set (db_users db)"
  by (auto simp: user_of_def find_None_iff)

lemma member_of_None: "member_of db i u = None \<longleftrightarrow> \<not> is_member db i u"
  by (auto simp: member_of_def is_member_def find_None_iff)

lemma user_grant_of_None: "user_grant_of db w u = None \<longleftrightarrow>
    (w, u) \<notin> (\<lambda>g. (ug_workspace g, ug_user g)) ` set (db_user_grants db)"
  by (auto simp: user_grant_of_def find_None_iff)

lemmas lookups_None = organization_of_None user_of_None member_of_None user_grant_of_None

lemma organization_of_Some: "organization_of db i = Some r \<Longrightarrow> i \<in> or_id ` set (db_organizations db)"
  using organization_of_None [of db i] by auto

lemma user_of_Some: "user_of db u = Some r \<Longrightarrow> u \<in> us_id ` set (db_users db)"
  using user_of_None [of db u] by auto

lemma map_key_update: "(\<And>r. k (f r) = k r) \<Longrightarrow> map k (map (\<lambda>r. if P r then f r else r) xs) = map k xs"
  by (induction xs) auto

lemma image_key_update:
  assumes "\<And>r. k (f r) = k r"
  shows "k ` (\<lambda>r. if P r then f r else r) ` S = k ` S"
proof -
  have "k (if P r then f r else r) = k r" for r by (simp add: assms)
  then show ?thesis by (simp add: image_image del: if_image_distrib)
qed

section \<open>Primary keys\<close>

lemma invited_workspaces_new:
  assumes "distinct (map ws_id (db_workspaces db))"
  shows "distinct (invited_workspaces db n u)" "w \<in> set (invited_workspaces db n u) \<Longrightarrow> user_grant_of db w u = None"
  using assms by (auto simp: invited_workspaces_def distinct_map_filter)

lemma apply_grants_keys:
  assumes "org_keys_ok db"
  shows "org_keys_ok (apply_invitation_grants t token i u db)"
proof (cases "find (\<lambda>n. iv_token n = token \<and> iv_org n = Some i) (db_invitations db)")
  case (Some n)
  let ?k = "\<lambda>g. (ug_workspace g, ug_user g)"
  let ?ws = "invited_workspaces db n u"
  let ?new = "map (\<lambda>w. \<lparr>ug_workspace = w, ug_user = u, ug_role = ''member'', ug_created_at = tk_stamp t,
                      ug_created_by = ''invitation''\<rparr>) ?ws"
  have d: "distinct (map ws_id (db_workspaces db))" "distinct (map ?k (db_user_grants db))"
    using assms by (simp_all add: org_keys_ok_def)
  have "distinct (map ?k ?new)"
    using invited_workspaces_new(1) [OF d(1)] by (simp add: comp_def distinct_map inj_on_def)
  moreover have "set (map ?k (db_user_grants db)) \<inter> set (map ?k ?new) = {}"
    using invited_workspaces_new(2) [OF d(1)] by (auto simp: user_grant_of_None)
  ultimately have "distinct (map ?k (db_user_grants db @ ?new))"
    using d(2) by (simp del: map_map set_map)
  with assms Some show ?thesis by (simp add: apply_invitation_grants_def org_keys_ok_def)
qed (use assms in \<open>simp add: apply_invitation_grants_def\<close>)

lemma mark_used_keys: "org_keys_ok db \<Longrightarrow> org_keys_ok (mark_used t u token db)"
  by (simp add: org_keys_ok_def mark_used_def map_key_update del: map_map)

lemma insert_member_keys: "insert_member t i u role db = Inr db' \<Longrightarrow> org_keys_ok db \<Longrightarrow> org_keys_ok db'"
  by (auto simp: insert_member_def org_keys_ok_def member_of_None is_member_def split: if_splits)

lemma insert_organization_keys: "insert_organization t i name u db = Inr db' \<Longrightarrow> org_keys_ok db \<Longrightarrow> org_keys_ok db'"
  by (auto simp: insert_organization_def org_keys_ok_def organization_of_None split: if_splits)

lemma insert_user_keys: "insert_user x u e n db = Inr db' \<Longrightarrow> u = ''usr_'' @ uuid \<Longrightarrow> org_keys_ok db \<Longrightarrow> org_keys_ok db'"
  by (force simp: insert_user_def org_keys_ok_def list_ex_iff split: if_splits)

lemma upsert_user_grant_keys: "upsert_user_grant t by w u role db = Inr db' \<Longrightarrow> org_keys_ok db \<Longrightarrow> org_keys_ok db'"
  by (auto simp: upsert_user_grant_def org_keys_ok_def user_grant_of_None map_key_update simp del: map_map split: if_splits)

lemma insert_workspace_keys: "insert_workspace t w i n u db = Inr db' \<Longrightarrow> org_keys_ok db \<Longrightarrow> org_keys_ok db'"
  by (auto simp: insert_workspace_def org_keys_ok_def list_ex_iff split: if_splits)

lemma insert_invitation_keys: "insert_invitation n db = Inr db' \<Longrightarrow> org_keys_ok db \<Longrightarrow> org_keys_ok db'"
  by (force simp: insert_invitation_def org_keys_ok_def list_ex_iff split: if_splits)

lemma update_keys:
  assumes "org_keys_ok db"
  shows "org_keys_ok (db\<lparr>db_organizations := map (\<lambda>r. if P r then r\<lparr>or_name := n\<rparr> else r) (db_organizations db)\<rparr>)"
    "org_keys_ok (set_member_role i u role db)" "org_keys_ok (set_access_mode w mode db)"
    "org_keys_ok (mark_workspace_deleted t actor w db)"
    "org_keys_ok (db\<lparr>db_workspaces := map (\<lambda>r. if Q r then r\<lparr>ws_name := n\<rparr> else r) (db_workspaces db)\<rparr>)"
    "org_keys_ok (db\<lparr>db_invitations := map (\<lambda>r. if R r then r\<lparr>iv_revoked_at := v\<rparr> else r) (db_invitations db)\<rparr>)"
  using assms
  by (simp_all add: org_keys_ok_def set_member_role_def set_access_mode_def mark_workspace_deleted_def map_key_update
      del: map_map)

lemma delete_keys:
  assumes "org_keys_ok db"
  shows "org_keys_ok (cascade_organization i db)" "org_keys_ok (remove_member_rows i u db)" "org_keys_ok (cascade_group g db)"
    "org_keys_ok (delete_group_member g u db)" "org_keys_ok (delete_user_grant w u db)" "org_keys_ok (delete_group_grant w g db)"
  using assms
  by (simp_all add: org_keys_ok_def cascade_organization_def remove_member_rows_def cascade_group_def Let_def
      delete_group_member_def delete_user_grant_def delete_group_grant_def distinct_map_filter)

lemma group_table_keys:
  "insert_group_member t by g u db = Inr db' \<Longrightarrow> org_keys_ok db \<Longrightarrow> org_keys_ok db'"
  "upsert_group_grant t by w g role db = Inr db' \<Longrightarrow> org_keys_ok db \<Longrightarrow> org_keys_ok db'"
  by (auto simp: insert_group_member_def upsert_group_grant_def org_keys_ok_def split: if_splits)

lemma change_keys: "org_change x actor db db' \<Longrightarrow> org_keys_ok db \<Longrightarrow> org_keys_ok db'"
proof (induction rule: org_change.induct)
  case (ch_group i r g)
  then show ?case by (auto simp: org_keys_ok_def)
next
  case (ch_register_personal u uuid email name db1 db2 t i title db3 db4)
  then show ?case by (metis insert_user_keys mark_used_keys insert_organization_keys insert_member_keys)
next
  case (ch_register u uuid email name db1 token n t i role db2)
  then show ?case by (metis insert_user_keys mark_used_keys insert_member_keys apply_grants_keys)
qed (auto simp: update_keys delete_keys mark_used_keys apply_grants_keys dest: insert_member_keys
    insert_organization_keys insert_user_keys upsert_user_grant_keys insert_workspace_keys insert_invitation_keys
    group_table_keys)

section \<open>Foreign keys\<close>

lemma insert_refs:
  "insert_organization t i name u db = Inr db' \<Longrightarrow> refs_ok db \<Longrightarrow> refs_ok db'"
  "insert_member t i u role db = Inr db' \<Longrightarrow> refs_ok db \<Longrightarrow> refs_ok db'"
  "insert_user x u e n db = Inr db' \<Longrightarrow> refs_ok db \<Longrightarrow> refs_ok db'"
  "insert_workspace t w i n u db = Inr db' \<Longrightarrow> refs_ok db \<Longrightarrow> refs_ok db'"
  "insert_invitation m db = Inr db' \<Longrightarrow> refs_ok db \<Longrightarrow> refs_ok db'"
  "insert_group_member t by g u db = Inr db' \<Longrightarrow> refs_ok db \<Longrightarrow> refs_ok db'"
  by (auto simp: insert_organization_def insert_member_def insert_user_def insert_workspace_def
      insert_invitation_def insert_group_member_def refs_ok_def list_ex_iff split: if_splits
      dest!: organization_of_Some user_of_Some)

lemma upsert_refs:
  "upsert_user_grant t by w u role db = Inr db' \<Longrightarrow> refs_ok db \<Longrightarrow> refs_ok db'"
  "upsert_group_grant t by w g role db = Inr db' \<Longrightarrow> refs_ok db \<Longrightarrow> refs_ok db'"
  by (auto simp: upsert_user_grant_def upsert_group_grant_def refs_ok_def list_ex_iff split: if_splits)

lemma update_refs:
  assumes "refs_ok db"
  shows "refs_ok (db\<lparr>db_organizations := map (\<lambda>r. if P r then r\<lparr>or_name := n\<rparr> else r) (db_organizations db)\<rparr>)"
    "refs_ok (set_member_role i u role db)" "refs_ok (set_access_mode w mode db)"
    "refs_ok (mark_workspace_deleted t actor w db)" "refs_ok (mark_used t u token db)"
    "refs_ok (db\<lparr>db_workspaces := map (\<lambda>r. if Q r then r\<lparr>ws_name := n\<rparr> else r) (db_workspaces db)\<rparr>)"
    "refs_ok (db\<lparr>db_invitations := is\<rparr>)"
  using assms
  by (simp_all add: refs_ok_def set_member_role_def set_access_mode_def mark_workspace_deleted_def mark_used_def
      image_key_update del: image_image if_image_distrib) blast

lemma cascade_organization_refs: "refs_ok db \<Longrightarrow> refs_ok (cascade_organization i db)"
  by (fastforce simp: refs_ok_def cascade_organization_def workspaces_of_def groups_of_def Let_def)

lemma delete_refs:
  assumes "refs_ok db"
  shows "refs_ok (remove_member_rows i u db)" "refs_ok (cascade_group g db)"
    "refs_ok (delete_group_member g u db)" "refs_ok (delete_user_grant w u db)" "refs_ok (delete_group_grant w g db)"
  using assms
  by (auto simp: refs_ok_def remove_member_rows_def cascade_group_def delete_group_member_def
      delete_user_grant_def delete_group_grant_def)

lemma apply_grants_refs: "refs_ok db \<Longrightarrow> refs_ok (apply_invitation_grants t token i u db)"
  by (auto simp: apply_invitation_grants_def refs_ok_def invited_groups_def invited_workspaces_def split: option.splits)

lemma change_refs: "org_change x actor db db' \<Longrightarrow> refs_ok db \<Longrightarrow> refs_ok db'"
proof (induction rule: org_change.induct)
  case (ch_group i r g)
  then show ?case by (auto simp: refs_ok_def organization_of_None)
next
  case (ch_register_personal u uuid email name db1 db2 t i title db3 db4)
  then show ?case by (metis insert_refs(1,2,3) update_refs(5))
next
  case (ch_register u uuid email name db1 token n t i role db2)
  then show ?case by (metis insert_refs(2,3) update_refs(5) apply_grants_refs)
qed (auto simp: update_refs delete_refs cascade_organization_refs apply_grants_refs dest: insert_refs upsert_refs)

section \<open>Scope of groups and grants\<close>

lemma distinct_key: "distinct (map k xs) \<Longrightarrow> a \<in> set xs \<Longrightarrow> b \<in> set xs \<Longrightarrow> k a = k b \<Longrightarrow> a = b"
  by (auto simp: distinct_map inj_on_def)

lemma keys_workspace:
  "org_keys_ok db \<Longrightarrow> r \<in> set (db_workspaces db) \<Longrightarrow> s \<in> set (db_workspaces db) \<Longrightarrow> ws_id r = ws_id s \<Longrightarrow> r = s"
  by (auto simp: org_keys_ok_def intro: distinct_key)

lemma keys_group:
  "org_keys_ok db \<Longrightarrow> r \<in> set (db_groups db) \<Longrightarrow> s \<in> set (db_groups db) \<Longrightarrow> og_id r = og_id s \<Longrightarrow> r = s"
  by (auto simp: org_keys_ok_def intro: distinct_key)

lemma keys_member:
  "org_keys_ok db \<Longrightarrow> m \<in> set (db_members db) \<Longrightarrow> n \<in> set (db_members db) \<Longrightarrow> om_org m = om_org n
   \<Longrightarrow> om_user m = om_user n \<Longrightarrow> m = n"
  by (auto simp: org_keys_ok_def dest: distinct_key)

lemma scope_grow:
  assumes "scope_ok db" "\<And>i u. is_member db i u \<Longrightarrow> is_member db' i u"
    "set (db_groups db') \<subseteq> set (db_groups db)" "set (db_group_members db') \<subseteq> set (db_group_members db)"
    "(\<lambda>r. (ws_id r, ws_org r)) ` set (db_workspaces db') \<subseteq> (\<lambda>r. (ws_id r, ws_org r)) ` set (db_workspaces db)"
    "(\<lambda>g. (ug_workspace g, ug_user g)) ` set (db_user_grants db')
       \<subseteq> (\<lambda>g. (ug_workspace g, ug_user g)) ` set (db_user_grants db)"
    "(\<lambda>g. (wg_workspace g, wg_group g)) ` set (db_group_grants db')
       \<subseteq> (\<lambda>g. (wg_workspace g, wg_group g)) ` set (db_group_grants db)"
  shows "scope_ok db'"
proof -
  have ws: "\<exists>s \<in> set (db_workspaces db). ws_id r = ws_id s \<and> ws_org r = ws_org s" if "r \<in> set (db_workspaces db')" for r
    using assms(5) that by (auto simp: image_subset_iff image_iff)
  have ug: "\<exists>h \<in> set (db_user_grants db). ug_workspace g = ug_workspace h \<and> ug_user g = ug_user h"
    if "g \<in> set (db_user_grants db')" for g
    using assms(6) that by (auto simp: image_subset_iff image_iff)
  have wg: "\<exists>h \<in> set (db_group_grants db). wg_workspace g = wg_workspace h \<and> wg_group g = wg_group h"
    if "g \<in> set (db_group_grants db')" for g
    using assms(7) that by (auto simp: image_subset_iff image_iff)
  show ?thesis
    unfolding scope_ok_def
  proof (intro conjI ballI impI)
    fix gm g
    assume "gm \<in> set (db_group_members db')" "g \<in> set (db_groups db')" "og_id g = gm_group gm"
    then show "is_member db' (og_org g) (gm_user gm)"
      using assms(1-4) unfolding scope_ok_def by (meson subsetD)
  next
    fix g r
    assume g: "g \<in> set (db_user_grants db')" "r \<in> set (db_workspaces db')" "ws_id r = ug_workspace g"
    from ug [OF g(1)] ws [OF g(2)] g(3) assms(1,2) show "is_member db' (ws_org r) (ug_user g)"
      unfolding scope_ok_def by metis
  next
    fix wg r g
    assume g: "wg \<in> set (db_group_grants db')" "r \<in> set (db_workspaces db')" "g \<in> set (db_groups db')"
      "ws_id r = wg_workspace wg" "og_id g = wg_group wg"
    from wg [OF g(1)] ws [OF g(2)] g(3-5) assms(1,3) show "ws_org r = og_org g"
      unfolding scope_ok_def by (metis subsetD)
  qed
qed

lemma insert_scope:
  "insert_organization t i name u db = Inr db' \<Longrightarrow> scope_ok db \<Longrightarrow> scope_ok db'"
  "insert_member t i u role db = Inr db' \<Longrightarrow> scope_ok db \<Longrightarrow> scope_ok db'"
  "insert_user x u e n db = Inr db' \<Longrightarrow> scope_ok db \<Longrightarrow> scope_ok db'"
  "insert_invitation m db = Inr db' \<Longrightarrow> scope_ok db \<Longrightarrow> scope_ok db'"
  by (rule scope_grow; auto simp: insert_organization_def insert_member_def insert_user_def insert_invitation_def
      is_member_def split: if_splits)+

lemma set_role_member: "is_member (set_member_role i u role db) j v = is_member db j v"
  by (simp add: is_member_def set_member_role_def image_key_update del: image_image if_image_distrib)

lemma update_scope:
  assumes "scope_ok db"
  shows "scope_ok (db\<lparr>db_organizations := os\<rparr>)" "scope_ok (db\<lparr>db_invitations := is\<rparr>)"
    "scope_ok (mark_used t u token db)"
  using assms by (simp_all add: scope_ok_def is_member_def mark_used_def)

lemma update_row_scope:
  assumes "scope_ok db"
  shows "scope_ok (set_member_role i u role db)"
    "scope_ok (set_access_mode w mode db)" "scope_ok (mark_workspace_deleted t actor w db)"
    "scope_ok (db\<lparr>db_workspaces := map (\<lambda>r. if Q r then r\<lparr>ws_name := n\<rparr> else r) (db_workspaces db)\<rparr>)"
proof -
  have "scope_ok db'" if "\<And>i u. is_member db i u \<Longrightarrow> is_member db' i u" "db_groups db' = db_groups db"
      "db_group_members db' = db_group_members db" "db_user_grants db' = db_user_grants db"
      "db_group_grants db' = db_group_grants db"
      "(\<lambda>r. (ws_id r, ws_org r)) ` set (db_workspaces db') = (\<lambda>r. (ws_id r, ws_org r)) ` set (db_workspaces db)"
    for db'
    using that by (intro scope_grow [OF assms]) auto
  note update = this
  show "scope_ok (set_member_role i u role db)"
    by (rule update) (simp_all add: set_role_member, simp_all add: set_member_role_def)
  show "scope_ok (set_access_mode w mode db)" "scope_ok (mark_workspace_deleted t actor w db)"
    "scope_ok (db\<lparr>db_workspaces := map (\<lambda>r. if Q r then r\<lparr>ws_name := n\<rparr> else r) (db_workspaces db)\<rparr>)"
    by (rule update; simp add: set_access_mode_def mark_workspace_deleted_def is_member_def image_key_update
        del: image_image if_image_distrib)+
qed

lemma remove_member_member: "is_member (remove_member_rows i u db) j v \<longleftrightarrow> is_member db j v \<and> \<not> (j = i \<and> v = u)"
  by (auto simp: is_member_def remove_member_rows_def)

lemma remove_member_scope: "scope_ok db \<Longrightarrow> scope_ok (remove_member_rows i u db)"
  unfolding scope_ok_def remove_member_member
  by (auto simp: remove_member_rows_def list_ex_iff)

lemma delete_scope:
  assumes "scope_ok db"
  shows "scope_ok (cascade_group g db)" "scope_ok (delete_group_member g u db)"
    "scope_ok (delete_user_grant w u db)" "scope_ok (delete_group_grant w g db)"
  by (rule scope_grow [OF assms]; auto simp: cascade_group_def delete_group_member_def delete_user_grant_def
      delete_group_grant_def is_member_def)+

lemma cascade_organization_scope:
  assumes "scope_ok db"
  shows "scope_ok (cascade_organization i db)"
proof -
  have m: "is_member (cascade_organization i db) j u \<longleftrightarrow> is_member db j u \<and> j \<noteq> i" for j u
    by (auto simp: is_member_def cascade_organization_def Let_def)
  show ?thesis
    using assms unfolding scope_ok_def m
    by (auto simp: cascade_organization_def Let_def)
qed

lemma insert_group_member_scope:
  assumes "org_keys_ok db" "scope_ok db" "group_member_valid db i g u" "insert_group_member t by g u db = Inr db'"
  shows "scope_ok db'"
proof -
  obtain r where r: "r \<in> set (db_groups db)" "og_id r = g" "og_org r = i" "is_member db i u"
    using assms(3) unfolding group_member_valid_def list_ex_iff is_member_iff by blast
  have "is_member db (og_org s) u" if "s \<in> set (db_groups db)" "og_id s = g" for s
    using keys_group [OF assms(1) that(1) r(1)] that r by simp
  then show ?thesis
    using assms(2,4) by (auto simp: insert_group_member_def scope_ok_def is_member_def split: if_splits)
qed

lemma upsert_user_grant_scope:
  assumes "org_keys_ok db" "scope_ok db" "r \<in> set (db_workspaces db)" "ws_id r = w" "is_member db (ws_org r) u"
    "upsert_user_grant t by w u role db = Inr db'"
  shows "scope_ok db'"
proof (cases "user_grant_of db w u = None")
  case True
  have "is_member db (ws_org s) u" if "s \<in> set (db_workspaces db)" "ws_id s = w" for s
    using keys_workspace [OF assms(1) that(1) assms(3)] that assms(4,5) by simp
  with True assms(2,6) show ?thesis
    by (auto simp: upsert_user_grant_def scope_ok_def is_member_def split: if_splits)
next
  case False
  with assms(6) show ?thesis
    by (intro scope_grow [OF assms(2)])
      (auto simp: upsert_user_grant_def is_member_def image_key_update simp del: image_image if_image_distrib)
qed

lemma upsert_group_grant_scope:
  assumes "org_keys_ok db" "scope_ok db" "group_in_organization db w g" "upsert_group_grant t by w g role db = Inr db'"
  shows "scope_ok db'"
proof (cases "list_ex (\<lambda>wg. wg_workspace wg = w \<and> wg_group wg = g) (db_group_grants db)")
  case True
  with assms(4) show ?thesis
    by (intro scope_grow [OF assms(2)])
      (auto simp: upsert_group_grant_def is_member_def image_key_update simp del: image_image if_image_distrib)
next
  case False
  obtain r og where r: "r \<in> set (db_workspaces db)" "ws_id r = w" "og \<in> set (db_groups db)" "og_id og = g"
    "og_org og = ws_org r"
    using assms(3) by (auto simp: group_in_organization_def list_ex_iff)
  have "ws_org s = og_org h" if "s \<in> set (db_workspaces db)" "ws_id s = w" "h \<in> set (db_groups db)" "og_id h = g" for s h
    using keys_workspace [OF assms(1) that(1) r(1)] keys_group [OF assms(1) that(3) r(3)] that r by simp
  with False assms(2,4) show ?thesis
    by (auto simp: upsert_group_grant_def scope_ok_def is_member_def split: if_splits)
qed

lemma insert_workspace_scope:
  assumes "refs_ok db" "scope_ok db" "insert_workspace t w i n u db = Inr db'"
  shows "scope_ok db'"
  using assms by (fastforce simp: insert_workspace_def scope_ok_def refs_ok_def is_member_def list_ex_iff split: if_splits)

lemma apply_grants_scope:
  assumes "org_keys_ok db" "scope_ok db" "is_member db i u"
  shows "scope_ok (apply_invitation_grants t token i u db)"
proof (cases "find (\<lambda>n. iv_token n = token \<and> iv_org n = Some i) (db_invitations db)")
  case (Some n)
  then have n: "iv_org n = Some i" by (auto dest: find_mem)
  have g: "is_member db (og_org g) u" if "g \<in> set (db_groups db)" "og_id g \<in> set (invited_groups db n u)" for g
    using that n assms(3) keys_group [OF assms(1) that(1)] by (auto simp: invited_groups_def)
  have w: "is_member db (ws_org r) u" if "r \<in> set (db_workspaces db)" "ws_id r \<in> set (invited_workspaces db n u)" for r
    using that n assms(3) keys_workspace [OF assms(1) that(1)] by (auto simp: invited_workspaces_def)
  show ?thesis
    using assms(2) g w unfolding apply_invitation_grants_def Some scope_ok_def is_member_def by auto
qed (use assms in \<open>simp add: apply_invitation_grants_def\<close>)

text \<open>Who passes the checks: with authentication enabled a user is a member of the organization.\<close>

lemma membership_role_Some:
  "\<not> oe_disabled x \<Longrightarrow> membership_role x db i u = Some role
   \<Longrightarrow> \<exists>m \<in> set (db_members db). om_org m = i \<and> om_user m = u \<and> om_role m = role"
  by (auto simp: membership_role_def member_of_def dest: find_mem)

lemma require_member_user:
  "\<not> oe_disabled x \<Longrightarrow> require_member_as x db i (ActorUser u) = Inr role
   \<Longrightarrow> \<exists>m \<in> set (db_members db). om_org m = i \<and> om_user m = u \<and> om_role m = role"
  by (auto simp: require_organization_member_def res_simps dest: membership_role_Some)

lemma belongs_member:
  assumes "belongs_to_workspace db w u"
  obtains r where "r \<in> set (db_workspaces db)" "ws_id r = w" "is_member db (ws_org r) u"
  using assms unfolding belongs_to_workspace_def list_ex_iff is_member_iff by blast

lemma insert_workspace_row:
  "insert_workspace t w i n u db = Inr db1 \<Longrightarrow>
   \<exists>r \<in> set (db_workspaces db1). ws_id r = w \<and> ws_org r = i"
  by (auto simp: insert_workspace_def split: if_splits)

lemma insert_workspace_members: "insert_workspace t w i n u db = Inr db1 \<Longrightarrow> is_member db1 j v = is_member db j v"
  by (auto simp: insert_workspace_def is_member_def split: if_splits)

lemma insert_member_member: "insert_member t i u role db = Inr db1 \<Longrightarrow> is_member db1 i u"
  by (auto simp: insert_member_def is_member_def split: if_splits)

text \<open>The label of an Agent is never the ID of a user.\<close>

lemma agent_label_no_user: "org_keys_ok db \<Longrightarrow> user_of db (actor_label (ActorAgent a w)) = None"
proof -
  assume k: "org_keys_ok db"
  have "us_id r \<noteq> ''agent:'' @ a" if "r \<in> set (db_users db)" for r
  proof
    assume "us_id r = ''agent:'' @ a"
    then have "take 4 (us_id r) = ''agen''" by simp
    with that k show False by (auto simp: org_keys_ok_def)
  qed
  then show ?thesis by (auto simp: user_of_def find_None_iff)
qed

lemma change_scope:
  assumes "org_change x actor db db'" "\<not> oe_disabled x" "org_keys_ok db" "refs_ok db" "scope_ok db"
  shows "scope_ok db'"
  using assms
proof (induction rule: org_change.induct)
  case (ch_organization u t i name db1 db2)
  then show ?case by (blast intro: insert_scope)
next
  case (ch_group i r g)
  then show ?case by (auto simp: scope_ok_def refs_ok_def is_member_def)
next
  case (ch_user_grant w u t creator role db1)
  then show ?case by (metis belongs_member upsert_user_grant_scope)
next
  case (ch_workspace_owned i r t w name u db1 db2)
  obtain v where v: "actor = ActorUser v"
    using ch_workspace_owned agent_label_no_user [of db] by (cases actor) auto
  have "is_member db i v"
    using require_member_user [of x db i v r] ch_workspace_owned v by (auto simp: is_member_iff)
  moreover obtain s where "s \<in> set (db_workspaces db1)" "ws_id s = w" "ws_org s = i"
    using insert_workspace_row ch_workspace_owned by blast
  ultimately show ?case
    using ch_workspace_owned v insert_workspace_keys [of t w i name u db db1]
      insert_workspace_scope [of db t w i name u db1] insert_workspace_members [of t w i name u db db1 i v]
      upsert_user_grant_scope [of db1 s w v t u "''owner''" db2]
    by simp
next
  case (ch_accept u n token t i role db1)
  then show ?case
    by (auto intro!: update_scope apply_grants_scope dest: insert_member_keys insert_scope insert_member_member)
next
  case (ch_register_personal u uuid email name db1 db2 t i title db3 db4)
  then show ?case by (metis insert_scope(1,2,3) update_scope(3))
next
  case (ch_register u uuid email name db1 n token t i role db2)
  let ?m = "mark_used t u token db1"
  have m: "org_keys_ok ?m" "scope_ok ?m"
    using ch_register insert_user_keys insert_scope(3) by (blast intro: mark_used_keys update_scope)+
  with ch_register have "org_keys_ok db2" "scope_ok db2" "is_member db2 i u"
    by (blast intro: insert_member_keys insert_scope insert_member_member)+
  then show ?case by (rule apply_grants_scope)
qed (auto intro: update_scope update_row_scope delete_scope remove_member_scope cascade_organization_scope insert_scope
    insert_group_member_scope upsert_group_grant_scope insert_workspace_scope)

section \<open>Owners\<close>

lemma owners_iff:
  "u \<in> owners db i \<longleftrightarrow> (\<exists>m \<in> set (db_members db). om_org m = i \<and> om_user m = u \<and> om_role m = ''owner'')"
  by (auto simp: owners_def image_iff)

lemma owners_role: "owners (set_member_role i u role db) j =
    (if j = i then (if role = ''owner'' then (if is_member db i u then insert u (owners db i) else owners db i)
                    else owners db i - {u})
     else owners db j)"
proof (rule set_eqI)
  fix v
  have "v \<in> owners (set_member_role i u role db) j \<longleftrightarrow> (\<exists>m \<in> set (db_members db). om_org m = j \<and> om_user m = v
          \<and> (if j = i \<and> v = u then role = ''owner'' else om_role m = ''owner''))"
    unfolding owners_iff set_member_role_def by (auto simp del: if_image_distrib)
  then show "v \<in> owners (set_member_role i u role db) j \<longleftrightarrow> v \<in> (if j = i
      then (if role = ''owner'' then (if is_member db i u then insert u (owners db i) else owners db i)
            else owners db i - {u}) else owners db j)"
    by (auto simp: owners_iff is_member_iff)
qed

lemma owners_remove: "owners (remove_member_rows i u db) j = (if j = i then owners db i - {u} else owners db j)"
  by (auto simp: owners_def remove_member_rows_def)

lemma roles_find:
  assumes "org_keys_ok db"
  shows "role_in (lock_member_roles x db i) u = Some role
     \<longleftrightarrow> (\<exists>m \<in> set (db_members db). om_org m = i \<and> om_user m = u \<and> om_role m = role)"
proof
  assume "role_in (lock_member_roles x db i) u = Some role"
  then show "\<exists>m \<in> set (db_members db). om_org m = i \<and> om_user m = u \<and> om_role m = role"
    by (auto simp: role_in_def lock_member_roles_def dest!: find_mem)
next
  assume "\<exists>m \<in> set (db_members db). om_org m = i \<and> om_user m = u \<and> om_role m = role"
  then obtain m where m: "m \<in> set (db_members db)" "om_org m = i" "om_user m = u" "om_role m = role" by blast
  let ?rs = "lock_member_roles x db i"
  have "(u, role) \<in> set ?rs" using m by (auto simp: lock_member_roles_def)
  then obtain p where p: "find (\<lambda>(j, _). j = u) ?rs = Some p"
    by (cases "find (\<lambda>(j, _). j = u) ?rs") (auto simp: find_None_iff)
  then obtain n where n: "n \<in> set (db_members db)" "om_org n = i" "om_user n = u" "p = (u, om_role n)"
    by (auto simp: lock_member_roles_def dest!: find_mem)
  then have "n = m" using keys_member [OF assms] m by auto
  with p n m show "role_in ?rs u = Some role" by (simp add: role_in_def)
qed

lemma owner_count_card:
  assumes "org_keys_ok db"
  shows "owner_count (lock_member_roles x db i) = card (owners db i)"
proof -
  let ?ms = "filter (\<lambda>m. om_org m = i \<and> om_role m = ''owner'') (db_members db)"
  have "distinct (map (\<lambda>m. (om_org m, om_user m)) (db_members db))"
    using assms by (simp add: org_keys_ok_def)
  then have d: "distinct (map (\<lambda>m. (om_org m, om_user m)) ?ms)"
    by (rule distinct_map_filter)
  have "distinct (map om_user ?ms)"
    using d by (auto simp: distinct_map inj_on_def)
  then have "card (set (map om_user ?ms)) = length (map om_user ?ms)"
    by (rule distinct_card)
  moreover have "set (map om_user ?ms) = owners db i"
    by (auto simp: owners_def)
  moreover have "owner_count (lock_member_roles x db i) = length ?ms"
    by (simp add: owner_count_def lock_member_roles_def filter_map comp_def filter_sort)
  ultimately show ?thesis by simp
qed

lemma owner_iff_role:
  assumes "org_keys_ok db"
  shows "u \<in> owners db i \<longleftrightarrow> role_in (lock_member_roles x db i) u = Some ''owner''"
  by (auto simp: roles_find [OF assms] owners_def)

lemma last_owner_kept:
  assumes "org_keys_ok db" "role_in (lock_member_roles x db i) u = Some role"
    "\<not> (role = ''owner'' \<and> owner_count (lock_member_roles x db i) \<le> 1)" "owners db i \<noteq> {}"
  shows "owners db i - {u} \<noteq> {}"
proof
  assume "owners db i - {u} = {}"
  with assms(4) have o: "owners db i = {u}" by blast
  then have "role = ''owner''" using owner_iff_role [OF assms(1), of u i x] assms(2) by simp
  moreover have "owner_count (lock_member_roles x db i) = 1"
    by (simp add: owner_count_card [OF assms(1)] o)
  ultimately show False using assms(3) by simp
qed

lemma owned_same:
  assumes "owned db" "db_members db' = db_members db"
    "or_id ` set (db_organizations db') \<subseteq> or_id ` set (db_organizations db)"
  shows "owned db'"
proof -
  have "owners db' = owners db" using assms(2) by (simp add: owners_def fun_eq_iff)
  moreover have "\<exists>s \<in> set (db_organizations db). or_id r = or_id s" if "r \<in> set (db_organizations db')" for r
    using assms(3) that by (auto simp: image_subset_iff image_iff)
  ultimately show ?thesis using assms(1) unfolding owned_def by metis
qed

lemma owned_grow:
  assumes "owned db" "set (db_members db) \<subseteq> set (db_members db')"
    "or_id ` set (db_organizations db') \<subseteq> or_id ` set (db_organizations db) \<union> {i. owners db' i \<noteq> {}}"
  shows "owned db'"
proof -
  have sub: "owners db j \<subseteq> owners db' j" for j using assms(2) by (auto simp: owners_def)
  show ?thesis
    unfolding owned_def
  proof
    fix r
    assume "r \<in> set (db_organizations db')"
    then have "or_id r \<in> or_id ` set (db_organizations db) \<or> owners db' (or_id r) \<noteq> {}" using assms(3) by auto
    then show "owners db' (or_id r) \<noteq> {}" using assms(1) sub [of "or_id r"] by (auto simp: owned_def)
  qed
qed

lemma insert_owned:
  "insert_member t i u role db = Inr db' \<Longrightarrow> owned db \<Longrightarrow> owned db'"
  "insert_user x u e n db = Inr db' \<Longrightarrow> owned db \<Longrightarrow> owned db'"
  "owned db \<Longrightarrow> owned (mark_used t u token db)"
  "owned db \<Longrightarrow> owned (apply_invitation_grants t token i u db)"
  by (rule owned_grow; auto simp: insert_member_def insert_user_def mark_used_def apply_invitation_grants_def
      split: if_splits option.splits)+

lemma new_organization_owned:
  assumes "insert_organization t i name u db = Inr db1" "insert_member t i u ''owner'' db1 = Inr db2" "owned db"
  shows "owned db2"
proof (rule owned_grow [OF assms(3)])
  have "u \<in> owners db2 i" using assms(2) by (auto simp: insert_member_def owners_iff split: if_splits)
  then show "or_id ` set (db_organizations db2) \<subseteq> or_id ` set (db_organizations db) \<union> {i. owners db2 i \<noteq> {}}"
    using assms(1,2) by (auto simp: insert_organization_def insert_member_def split: if_splits)
qed (use assms(1,2) in \<open>auto simp: insert_organization_def insert_member_def split: if_splits\<close>)

lemma same_members_owned:
  "insert_group_member t by g u db = Inr db' \<Longrightarrow> owned db \<Longrightarrow> owned db'"
  "upsert_user_grant t by w u role db = Inr db' \<Longrightarrow> owned db \<Longrightarrow> owned db'"
  "upsert_group_grant t by w g role db = Inr db' \<Longrightarrow> owned db \<Longrightarrow> owned db'"
  "insert_workspace t w i n u db = Inr db' \<Longrightarrow> owned db \<Longrightarrow> owned db'"
  "insert_invitation m db = Inr db' \<Longrightarrow> owned db \<Longrightarrow> owned db'"
  by (rule owned_same; auto simp: insert_group_member_def upsert_user_grant_def upsert_group_grant_def
      insert_workspace_def insert_invitation_def split: if_splits)+

lemma change_owned:
  assumes "org_change x actor db db'" "org_keys_ok db" "owned db"
  shows "owned db'"
  using assms
proof (induction rule: org_change.induct)
  case (ch_rename i r name)
  show ?case
    by (rule owned_same [OF ch_rename(3)]) (simp_all add: image_key_update del: image_image if_image_distrib)
next
  case (ch_delete i r)
  then show ?case by (auto simp: cascade_organization_def owned_def owners_def Let_def)
next
  case (ch_remove i target role)
  have "db_organizations (remove_member_rows i target db) = db_organizations db"
    by (simp add: remove_member_rows_def)
  then show ?case using last_owner_kept [OF ch_remove(4,1,2)] ch_remove(5)
    by (auto simp: owned_def owners_remove)
next
  case (ch_transfer u i target previous)
  have "is_member db i target" using ch_transfer by (auto simp: roles_find is_member_iff)
  then show ?case using ch_transfer
    by (auto simp: owned_def owners_role set_role_member) (auto simp: set_member_role_def)
next
  case (ch_role i r role target old)
  have m: "is_member db i target" using ch_role by (auto simp: roles_find is_member_iff)
  have "db_organizations (set_member_role i target role db) = db_organizations db"
    by (simp add: set_member_role_def)
  moreover have "owners db i - {target} \<noteq> {}" if "role \<noteq> ''owner''" "owners db i \<noteq> {}"
    using last_owner_kept [OF ch_role(5,3)] ch_role(4) that by blast
  ultimately show ?case using m ch_role(6) by (auto simp: owned_def owners_role)
next
  case (ch_register_personal u uuid email name db1 db2 t i title db3 db4)
  then show ?case by (metis insert_owned(2,3) new_organization_owned)
next
  case (ch_register u uuid email name db1 n token t i role db2)
  then have "owned (mark_used t u token db1)" by (blast intro: insert_owned)
  with ch_register have "owned db2" by (blast intro: insert_owned)
  then show ?case by (rule insert_owned)
qed (auto intro: insert_owned new_organization_owned same_members_owned,
    auto simp: owned_def owners_def set_access_mode_def mark_workspace_deleted_def cascade_group_def
      delete_group_member_def delete_user_grant_def delete_group_grant_def)

section \<open>The transition system\<close>

lemma step_inv:
  assumes "org_inv db" "\<not> oe_disabled x" "org_step x actor db db'"
  shows "org_inv db'"
proof -
  have "org_inv db1" if "org_change x actor db db1" for db1
    using that assms(1,2) change_keys change_refs change_scope change_owned unfolding org_inv_def by blast
  then show ?thesis
    using step_changes [OF assms(3)] assms(1) same_access_inv unfolding changes_def by blast
qed

interpretation org_sys: inv_system "\<lambda>db. db = empty_db" "any_step x" "\<lambda>db. \<not> oe_disabled x \<longrightarrow> org_inv db" for x
  by unfold_locales (auto simp: any_step_def empty_db_inv intro: step_inv)

end
