(* ===== verification/Org_Views.thy ===== *)
theory Org_Views
  imports Org_Invariant
begin

text \<open>
  One rule decides access to a workspace, and four queries of the Proxy compute it: the role check
  before every request, the list of a workspace's humans, the effective access of the settings page
  and the list of a user's workspaces.  \<open>access_spec\<close> states the rule over the rows as sets;
  \<open>access_view\<close> is the contract of a query that reports it.
\<close>

section \<open>The rule\<close>

definition manages :: "org_db \<Rightarrow> string \<Rightarrow> string \<Rightarrow> bool" where
  "manages db i u \<longleftrightarrow> (\<exists>m \<in> set (db_members db). om_org m = i \<and> om_user m = u \<and> om_role m \<in> {''owner'', ''admin''})"

definition granted :: "org_db \<Rightarrow> string \<Rightarrow> string \<Rightarrow> string set \<Rightarrow> bool" where
  "granted db w u roles \<longleftrightarrow>
     (\<exists>g \<in> set (db_user_grants db). ug_workspace g = w \<and> ug_user g = u \<and> ug_role g \<in> roles)
     \<or> (\<exists>wg \<in> set (db_group_grants db). \<exists>gm \<in> set (db_group_members db).
          wg_workspace wg = w \<and> wg_role wg \<in> roles \<and> gm_group gm = wg_group wg \<and> gm_user gm = u)"

definition access_spec :: "org_db \<Rightarrow> workspace_row \<Rightarrow> string \<Rightarrow> string option" where
  "access_spec db r u =
     (if \<not> is_member db (ws_org r) u then None
      else if manages db (ws_org r) u \<or> granted db (ws_id r) u {''owner''} then Some ''owner''
      else if ws_access_mode r = ''organization'' \<or> granted db (ws_id r) u UNIV then Some ''member''
      else None)"

locale access_view =
  fixes view :: "org_db \<Rightarrow> string \<Rightarrow> string \<Rightarrow> string option"
  assumes view_spec: "org_keys_ok db \<Longrightarrow> refs_ok db \<Longrightarrow> live_workspace db w = Some r \<Longrightarrow> view db w u = access_spec db r u"
begin

lemma outsiders_have_no_access:
  "org_keys_ok db \<Longrightarrow> refs_ok db \<Longrightarrow> live_workspace db w = Some r \<Longrightarrow> \<not> is_member db (ws_org r) u \<Longrightarrow> view db w u = None"
  by (simp add: view_spec access_spec_def)

lemma managers_own:
  "org_keys_ok db \<Longrightarrow> refs_ok db \<Longrightarrow> live_workspace db w = Some r \<Longrightarrow> manages db (ws_org r) u \<Longrightarrow> view db w u = Some ''owner''"
  by (auto simp: view_spec access_spec_def manages_def is_member_iff)

lemma restricted_needs_grant:
  "org_keys_ok db \<Longrightarrow> refs_ok db \<Longrightarrow> live_workspace db w = Some r \<Longrightarrow> ws_access_mode r \<noteq> ''organization''
   \<Longrightarrow> \<not> manages db (ws_org r) u \<Longrightarrow> \<not> granted db w u UNIV \<Longrightarrow> view db w u = None"
  by (auto simp: view_spec access_spec_def granted_def live_workspace_def dest!: find_mem)

end

section \<open>The role check\<close>

lemma user_grant_of_iff:
  assumes "org_keys_ok db"
  shows "user_grant_of db w u = Some g \<longleftrightarrow> g \<in> set (db_user_grants db) \<and> ug_workspace g = w \<and> ug_user g = u"
proof
  assume g: "g \<in> set (db_user_grants db) \<and> ug_workspace g = w \<and> ug_user g = u"
  then obtain h where h: "user_grant_of db w u = Some h"
    by (cases "user_grant_of db w u") (auto simp: user_grant_of_None)
  then have "h \<in> set (db_user_grants db)" "ug_workspace h = w" "ug_user h = u"
    by (auto simp: user_grant_of_def dest: find_mem)
  moreover have "distinct (map (\<lambda>g. (ug_workspace g, ug_user g)) (db_user_grants db))"
    using assms by (simp add: org_keys_ok_def)
  ultimately show "user_grant_of db w u = Some g" using g h by (auto dest: distinct_key)
qed (auto simp: user_grant_of_def dest: find_mem)

lemma member_of_iff:
  assumes "org_keys_ok db"
  shows "member_of db i u = Some m \<longleftrightarrow> m \<in> set (db_members db) \<and> om_org m = i \<and> om_user m = u"
proof
  assume m: "m \<in> set (db_members db) \<and> om_org m = i \<and> om_user m = u"
  then obtain n where n: "member_of db i u = Some n"
    by (cases "member_of db i u") (auto simp: member_of_None is_member_iff)
  then have "n \<in> set (db_members db)" "om_org n = i" "om_user n = u"
    by (auto simp: member_of_def dest: find_mem)
  with m n keys_member [OF assms] show "member_of db i u = Some m" by auto
qed (auto simp: member_of_def dest: find_mem)

lemma granted_iff:
  assumes "org_keys_ok db"
  shows "granted db w u roles \<longleftrightarrow> is_some_and (user_grant_of db w u) (\<lambda>g. ug_role g \<in> roles)
     \<or> group_grant_exists db w u (\<lambda>wg. wg_role wg \<in> roles)"
  by (auto simp: granted_def is_some_and_iff user_grant_of_iff [OF assms] group_grant_exists_def list_ex_iff)

lemma role_case_spec:
  assumes "org_keys_ok db" "m \<in> set (db_members db)" "om_org m = ws_org r" "om_user m = u"
  shows "workspace_role_case db r m u = access_spec db r u"
proof -
  have "manages db (ws_org r) u \<longleftrightarrow> om_role m \<in> {''owner'', ''admin''}"
    unfolding manages_def using assms(2-4) keys_member [OF assms(1)] by metis
  moreover have "is_member db (ws_org r) u" using assms by (auto simp: is_member_iff)
  moreover have "granted db (ws_id r) u UNIV \<longleftrightarrow> user_grant_of db (ws_id r) u \<noteq> None
      \<or> group_grant_exists db (ws_id r) u (\<lambda>wg. True)"
    by (auto simp: granted_iff [OF assms(1)] is_some_and_iff)
  ultimately show ?thesis
    by (simp add: workspace_role_case_def access_spec_def granted_iff [OF assms(1)] Let_def)
qed

lemma live_workspace_row:
  "live_workspace db w = Some r \<Longrightarrow> r \<in> set (db_workspaces db) \<and> ws_id r = w \<and> ws_deleted_at r = None"
  by (auto simp: live_workspace_def dest: find_mem)

definition role_view :: "org_env \<Rightarrow> org_db \<Rightarrow> string \<Rightarrow> string \<Rightarrow> string option" where
  "role_view x db w u = (case workspace_member_role x db w u of Inr role \<Rightarrow> Some role | Inl _ \<Rightarrow> None)"

lemma role_view_spec:
  assumes "\<not> oe_disabled x" "org_keys_ok db" "live_workspace db w = Some r"
  shows "role_view x db w u = access_spec db r u"
proof (cases "member_of db (ws_org r) u")
  case None
  moreover from None have "\<not> is_member db (ws_org r) u" by (simp add: member_of_None)
  ultimately show ?thesis
    using assms by (simp add: role_view_def workspace_member_role_def access_spec_def)
next
  case (Some m)
  then have "workspace_role_case db r m u = access_spec db r u"
    using role_case_spec [OF assms(2), of m r u] by (auto simp: member_of_iff [OF assms(2)])
  with Some assms show ?thesis
    by (simp add: role_view_def workspace_member_role_def split: option.splits)
qed

section \<open>The list of humans\<close>

definition humans_view :: "org_env \<Rightarrow> org_db \<Rightarrow> string \<Rightarrow> string \<Rightarrow> string option" where
  "humans_view x db w u = map_option wh_role (find (\<lambda>h. wh_user_id h = u) (list_workspace_humans x db w))"

text \<open>A report whose entries are exactly the pairs of the rule reports the rule.\<close>

lemma find_report:
  assumes "\<And>u role. (\<exists>e \<in> set es. uid e = u \<and> rl e = role) \<longleftrightarrow> f u = Some role"
  shows "map_option rl (find (\<lambda>e. uid e = u) es) = f u"
proof (cases "find (\<lambda>e. uid e = u) es")
  case None
  then have "f u \<noteq> Some role" for role using assms [of u role] by (auto simp: find_None_iff)
  with None show ?thesis by (cases "f u") auto
next
  case (Some e)
  then have "e \<in> set es" "uid e = u" by (auto dest: find_mem)
  then have "f u = Some (rl e)" using assms by blast
  with Some show ?thesis by simp
qed

definition reported_role :: "org_db \<Rightarrow> workspace_row \<Rightarrow> member_row \<Rightarrow> string \<Rightarrow> string option" where
  "reported_role db r m u =
     (if ws_access_mode r = ''organization'' \<or> om_role m \<in> {''owner'', ''admin''}
         \<or> user_grant_of db (ws_id r) u \<noteq> None \<or> group_grant_exists db (ws_id r) u (\<lambda>wg. True)
      then Some (if human_owner db (ws_id r) m \<or> group_grant_exists db (ws_id r) u (\<lambda>wg. wg_role wg = ''owner'')
                 then ''owner'' else ''member'') else None)"

lemma reported_role_spec:
  assumes "org_keys_ok db" "m \<in> set (db_members db)" "om_org m = ws_org r" "om_user m = u"
  shows "reported_role db r m u = access_spec db r u"
proof -
  have "workspace_role_case db r m u = access_spec db r u"
    using assms by (intro role_case_spec) auto
  moreover have "group_grant_exists db w u P \<Longrightarrow> group_grant_exists db w u (\<lambda>wg. True)" for w u P
    by (auto simp: group_grant_exists_def list_ex_iff)
  ultimately show ?thesis
    unfolding workspace_role_case_def Let_def reported_role_def human_owner_def assms(4)
    by (auto simp: is_some_and_iff split: if_splits)
qed

text \<open>The members of a workspace's organization, joined with their user rows.\<close>

lemma member_users:
  assumes "org_keys_ok db" "refs_ok db"
    "\<And>m v. m \<in> set (db_members db) \<Longrightarrow> om_org m = ws_org r \<Longrightarrow> v \<in> set (db_users db) \<Longrightarrow> us_id v = om_user m
       \<Longrightarrow> F m v = access_spec db r (us_id v)"
  shows "(\<exists>m \<in> set (db_members db). \<exists>v \<in> set (db_users db). om_org m = ws_org r \<and> us_id v = om_user m
            \<and> us_id v = u \<and> F m v = Some role) \<longleftrightarrow> access_spec db r u = Some role"
    (is "?L \<longleftrightarrow> ?R")
proof
  assume ?R
  then have "is_member db (ws_org r) u" by (simp add: access_spec_def split: if_splits)
  then obtain m where m: "m \<in> set (db_members db)" "om_org m = ws_org r" "om_user m = u"
    by (auto simp: is_member_iff)
  from assms(2) m(1) have "om_user m \<in> us_id ` set (db_users db)" unfolding refs_ok_def by blast
  then obtain v where v: "v \<in> set (db_users db)" "us_id v = om_user m" by (metis imageE)
  with \<open>?R\<close> m assms(3) [OF m(1,2) v] have "F m v = Some role" by simp
  with m v show ?L by metis
next
  assume ?L
  then show ?R using assms(3) by metis
qed

lemma rows_report:
  "(\<exists>(m, v) \<in> {(m, v). m \<in> M \<and> Org m \<and> v \<in> V \<and> J m v \<and> C m v}. K v \<and> R m v = role) \<longleftrightarrow>
   (\<exists>m \<in> M. \<exists>v \<in> V. Org m \<and> J m v \<and> K v \<and> (if C m v then Some (R m v) else None) = Some role)"
  by auto

lemma humans_report:
  assumes "org_keys_ok db" "refs_ok db" "live_workspace db w = Some r"
  shows "(\<exists>h \<in> set (list_workspace_humans x db w). wh_user_id h = u \<and> wh_role h = role)
     \<longleftrightarrow> access_spec db r u = Some role"
proof -
  have w: "w = ws_id r" using live_workspace_row [OF assms(3)] by simp
  let ?cond = "\<lambda>m v. ws_access_mode r = ''organization'' \<or> om_role m \<in> {''owner'', ''admin''}
     \<or> user_grant_of db w (us_id v) \<noteq> None \<or> group_grant_exists db w (us_id v) (\<lambda>wg. True)"
  let ?rows = "[(m, v). m \<leftarrow> db_members db, om_org m = ws_org r, v \<leftarrow> db_users db, us_id v = om_user m \<and> ?cond m v]"
  have rows: "set ?rows = {(m, v). m \<in> set (db_members db) \<and> om_org m = ws_org r \<and> v \<in> set (db_users db)
      \<and> us_id v = om_user m \<and> ?cond m v}"
    by auto
  have "(\<exists>h \<in> set (list_workspace_humans x db w). wh_user_id h = u \<and> wh_role h = role) \<longleftrightarrow>
      (\<exists>(m, v) \<in> set ?rows. us_id v = u \<and> (if human_owner db w m
          \<or> group_grant_exists db w (us_id v) (\<lambda>wg. wg_role wg = ''owner'') then ''owner'' else ''member'') = role)"
    unfolding list_workspace_humans_def assms(3)
    by (simp only: option.case set_map set_sort) (simp only: bex_simps case_prod_beta' workspace_human.simps)
  also have "\<dots> \<longleftrightarrow> (\<exists>m \<in> set (db_members db). \<exists>v \<in> set (db_users db). om_org m = ws_org r \<and> us_id v = om_user m
            \<and> us_id v = u \<and> reported_role db r m (us_id v) = Some role)"
    unfolding rows reported_role_def w [symmetric] by (rule rows_report)
  also have "\<dots> \<longleftrightarrow> access_spec db r u = Some role"
    using reported_role_spec [OF assms(1)] by (intro member_users [OF assms(1,2)]) simp
  finally show ?thesis .
qed

section \<open>The effective access of the settings page\<close>

definition settings_view :: "org_env \<Rightarrow> string \<Rightarrow> org_db \<Rightarrow> string \<Rightarrow> string \<Rightarrow> string option" where
  "settings_view x a db w u = (case effective_workspace_access x db w (ActorAgent a w) of
      Inl _ \<Rightarrow> None
    | Inr (members, _) \<Rightarrow> map_option ea_role (find (\<lambda>e. ea_user_id e = u) members))"

lemma access_groups_set:
  "set (access_groups x db w u) = {(og_name g, wg_role wg) | wg g. wg \<in> set (db_group_grants db)
     \<and> wg_workspace wg = w \<and> g \<in> set (db_groups db) \<and> og_id g = wg_group wg
     \<and> (\<exists>gm \<in> set (db_group_members db). gm_group gm = wg_group wg \<and> gm_user gm = u)}"
    (is "_ = ?R")
proof -
  let ?rows = "[(wg, g). wg \<leftarrow> db_group_grants db, wg_workspace wg = w, g \<leftarrow> db_groups db, og_id g = wg_group wg,
                 gm \<leftarrow> db_group_members db, gm_group gm = wg_group wg \<and> gm_user gm = u]"
  have "set ?rows = {(wg, g). wg \<in> set (db_group_grants db) \<and> wg_workspace wg = w \<and> g \<in> set (db_groups db)
     \<and> og_id g = wg_group wg \<and> (\<exists>gm \<in> set (db_group_members db). gm_group gm = wg_group wg \<and> gm_user gm = u)}"
    by (auto split: if_splits)
  then have "set (access_groups x db w u) = (\<lambda>(wg, g). (og_name g, wg_role wg)) `
     {(wg, g). wg \<in> set (db_group_grants db) \<and> wg_workspace wg = w \<and> g \<in> set (db_groups db)
     \<and> og_id g = wg_group wg \<and> (\<exists>gm \<in> set (db_group_members db). gm_group gm = wg_group wg \<and> gm_user gm = u)}"
    unfolding access_groups_def set_map set_sort by simp
  also have "\<dots> = ?R" by (auto simp: image_def)
  finally show ?thesis .
qed

lemma access_groups_exists:
  assumes "refs_ok db"
  shows "(\<exists>(n, role) \<in> set (access_groups x db w u). P role) \<longleftrightarrow> group_grant_exists db w u (\<lambda>wg. P (wg_role wg))"
proof -
  have "\<exists>g \<in> set (db_groups db). og_id g = wg_group wg" if "wg \<in> set (db_group_grants db)" for wg
    using assms that unfolding refs_ok_def by (metis imageE)
  then show ?thesis
    unfolding access_groups_set group_grant_exists_def list_ex_iff by blast
qed

lemma access_member_role:
  assumes "refs_ok db" "us_id v = om_user m"
  shows "map_option ea_role (access_member x db (ws_id r) (ws_access_mode r) (m, v)) = reported_role db r m (us_id v)"
    and "access_member x db (ws_id r) (ws_access_mode r) (m, v) = Some e \<Longrightarrow> ea_user_id e = us_id v"
proof -
  let ?gs = "access_groups x db (ws_id r) (us_id v)"
  have 1: "list_ex (\<lambda>(n, role). role = ''owner'') ?gs \<longleftrightarrow>
      group_grant_exists db (ws_id r) (us_id v) (\<lambda>wg. wg_role wg = ''owner'')"
    using access_groups_exists [OF assms(1), of x "ws_id r" "us_id v" "\<lambda>role. role = ''owner''"]
    by (simp add: list_ex_iff)
  have 2: "?gs = [] \<longleftrightarrow> \<not> group_grant_exists db (ws_id r) (us_id v) (\<lambda>wg. True)"
    using access_groups_exists [OF assms(1), of x "ws_id r" "us_id v" "\<lambda>_. True"] by (cases ?gs) auto
  show "map_option ea_role (access_member x db (ws_id r) (ws_access_mode r) (m, v)) = reported_role db r m (us_id v)"
    unfolding access_member_def reported_role_def human_owner_def Let_def assms(2) [symmetric]
    by (simp add: 1 2 split: option.splits)
  show "access_member x db (ws_id r) (ws_access_mode r) (m, v) = Some e \<Longrightarrow> ea_user_id e = us_id v"
    by (auto simp: access_member_def Let_def split: if_splits)
qed

lemma access_member_report:
  assumes "refs_ok db" "us_id v = om_user m"
  shows "(\<exists>e. access_member x db (ws_id r) (ws_access_mode r) (m, v) = Some e \<and> ea_user_id e = u \<and> ea_role e = role)
     \<longleftrightarrow> us_id v = u \<and> reported_role db r m (us_id v) = Some role"
  unfolding access_member_role(1) [OF assms, symmetric, where x = x] using access_member_role(2) [OF assms] by auto

lemma set_map_filter: "set (List.map_filter f xs) = {y. \<exists>a \<in> set xs. f a = Some y}"
  by (force simp: List.map_filter_def)

lemma settings_report:
  assumes "org_keys_ok db" "refs_ok db" "live_workspace db w = Some r"
    "effective_workspace_access x db w actor = Inr (members, mode)"
  shows "(\<exists>e \<in> set members. ea_user_id e = u \<and> ea_role e = role) \<longleftrightarrow> access_spec db r u = Some role"
proof -
  have w: "w = ws_id r" using live_workspace_row [OF assms(3)] by simp
  let ?am = "access_member x db (ws_id r) (ws_access_mode r)"
  let ?rows = "[(m, v). m \<leftarrow> db_members db, om_org m = ws_org r, v \<leftarrow> db_users db, us_id v = om_user m]"
  have "set members = {e. \<exists>p \<in> set ?rows. ?am p = Some e}"
    using assms(3,4) unfolding effective_workspace_access_def w
    by (simp only: res_simps ok_or_else_simps and_then_simps option.simps sum.inject prod.inject)
      (elim exE conjE, drule sym [of _ members], simp only: set_sort set_map_filter)
  moreover have "set ?rows = {(m, v). m \<in> set (db_members db) \<and> om_org m = ws_org r \<and> v \<in> set (db_users db)
      \<and> us_id v = om_user m}"
    by auto
  ultimately have "(\<exists>e \<in> set members. ea_user_id e = u \<and> ea_role e = role) \<longleftrightarrow>
      (\<exists>m \<in> set (db_members db). \<exists>v \<in> set (db_users db). om_org m = ws_org r \<and> us_id v = om_user m
         \<and> (\<exists>e. ?am (m, v) = Some e \<and> ea_user_id e = u \<and> ea_role e = role))"
    by auto
  also have "\<dots> \<longleftrightarrow> (\<exists>m \<in> set (db_members db). \<exists>v \<in> set (db_users db). om_org m = ws_org r \<and> us_id v = om_user m
         \<and> us_id v = u \<and> reported_role db r m (us_id v) = Some role)"
    using access_member_report [OF assms(2)] by (intro bex_cong refl) blast
  also have "\<dots> \<longleftrightarrow> access_spec db r u = Some role"
    using reported_role_spec [OF assms(1)] by (intro member_users [OF assms(1,2)]) simp
  finally show ?thesis .
qed

section \<open>The list of a user's workspaces\<close>

definition listed :: "org_env \<Rightarrow> org_db \<Rightarrow> string \<Rightarrow> string \<Rightarrow> string \<Rightarrow> bool" where
  "listed x db i u w \<longleftrightarrow> (case list_workspaces_as x db i (ActorUser u) of
      Inl _ \<Rightarrow> False | Inr ws \<Rightarrow> w \<in> wi_workspace_id ` set ws)"

lemma workspace_rows:
  "(\<forall>r \<in> set rs. oe_parse_rfc3339 x (ws_created_at r) \<noteq> None)
   \<Longrightarrow> \<exists>ws. try_map (workspace_from_row x) rs = Inr ws \<and> wi_workspace_id ` set ws = ws_id ` set rs"
proof (induction rs)
  case (Cons r rs)
  then obtain ws where "try_map (workspace_from_row x) rs = Inr ws" "wi_workspace_id ` set ws = ws_id ` set rs"
    by auto
  with Cons show ?case by (auto simp: workspace_from_row_def)
qed simp

lemma granted_mono: "granted db w u roles \<Longrightarrow> granted db w u UNIV"
  by (auto simp: granted_def)

lemma visible_iff:
  assumes "org_keys_ok db"
  shows "visible_workspace db u False r \<longleftrightarrow> ws_access_mode r = ''organization'' \<or> manages db (ws_org r) u
     \<or> granted db (ws_id r) u UNIV"
  by (auto simp: visible_workspace_def manages_def granted_def list_ex_iff group_grant_exists_def)

lemma listed_report:
  assumes "\<not> oe_disabled x" "org_keys_ok db" "live_workspace db w = Some r"
    "\<forall>s \<in> set (db_workspaces db). oe_parse_rfc3339 x (ws_created_at s) \<noteq> None"
  shows "listed x db (ws_org r) u w \<longleftrightarrow> access_spec db r u \<noteq> None"
proof (cases "is_member db (ws_org r) u")
  case False
  then have "membership_role x db (ws_org r) u = None"
    using assms(1) member_of_None [of db "ws_org r" u] by (simp add: membership_role_def)
  then have "\<not> listed x db (ws_org r) u w"
    by (simp add: listed_def list_workspaces_as_def require_organization_member_def)
  with False show ?thesis by (simp add: access_spec_def)
next
  case True
  let ?rows = "filter (\<lambda>s. ws_org s = ws_org r \<and> ws_deleted_at s = None \<and> visible_workspace db u False s) (db_workspaces db)"
  obtain m where "membership_role x db (ws_org r) u = Some m"
    using True assms(1) member_of_None [of db "ws_org r" u]
    by (cases "member_of db (ws_org r) u") (auto simp: membership_role_def)
  moreover obtain ws where "try_map (workspace_from_row x) (sort_key (\<lambda>r. by_name x (ws_name r) (ws_id r)) ?rows) = Inr ws"
    "wi_workspace_id ` set ws = ws_id ` set ?rows"
    using workspace_rows [of "sort_key (\<lambda>r. by_name x (ws_name r) (ws_id r)) ?rows" x] assms(4) by auto
  ultimately have "listed x db (ws_org r) u w \<longleftrightarrow> w \<in> ws_id ` set ?rows"
    using assms(1) by (simp add: listed_def list_workspaces_as_def require_organization_member_def)
  also have "\<dots> \<longleftrightarrow> visible_workspace db u False r"
    using live_workspace_row [OF assms(3)] keys_workspace [OF assms(2)] by (auto simp: image_iff)
  also have "\<dots> \<longleftrightarrow> access_spec db r u \<noteq> None"
    using True granted_mono [of db "ws_id r" u] by (auto simp: visible_iff [OF assms(2)] access_spec_def)
  finally show ?thesis .
qed

section \<open>The views meet the contract\<close>

definition enabled :: "org_env \<Rightarrow> org_env" where
  "enabled x = x\<lparr>oe_disabled := False\<rparr>"

lemma enabled_id: "\<not> oe_disabled x \<Longrightarrow> enabled x = x"
  by (simp add: enabled_def)

interpretation role_check: access_view "role_view (enabled x)" for x
  by unfold_locales (simp add: role_view_spec enabled_def)

interpretation humans: access_view "humans_view x" for x
  unfolding humans_view_def by unfold_locales (rule find_report, rule humans_report)

interpretation settings: access_view "settings_view x a" for x a
proof
  fix db w r u
  assume a: "org_keys_ok db" "refs_ok db" "live_workspace db w = Some r"
  then obtain members mode where e: "effective_workspace_access x db w (ActorAgent a w) = Inr (members, mode)"
    by (simp add: effective_workspace_access_def workspace_organization_def)
  then show "settings_view x a db w u = access_spec db r u"
    unfolding settings_view_def e sum.case prod.case by (intro find_report settings_report [OF a e])
qed

text \<open>
  C6: The four reports on workspace access agree in every reachable state: a user passes the role
  check of a live workspace with a role exactly when the workspace's list of humans has the user
  with that role, and exactly when the effective access of the settings page, whoever may open it,
  has the user with that role; and the workspace is in the user's own list exactly when the check
  passes at all.
\<close>

theorem access_views_agree:
  assumes "\<not> oe_disabled x" "reach (\<lambda>db. db = empty_db) (any_step x) db" "live_workspace db w = Some r"
    and "\<forall>s \<in> set (db_workspaces db). oe_parse_rfc3339 x (ws_created_at s) \<noteq> None"
  shows "(workspace_member_role x db w u = Inr role \<longleftrightarrow>
        (\<exists>h \<in> set (list_workspace_humans x db w). wh_user_id h = u \<and> wh_role h = role))
    \<and> (\<forall>actor members mode. effective_workspace_access x db w actor = Inr (members, mode) \<longrightarrow>
        (workspace_member_role x db w u = Inr role \<longleftrightarrow> (\<exists>e \<in> set members. ea_user_id e = u \<and> ea_role e = role)))
    \<and> ((\<exists>q. workspace_member_role x db w u = Inr q) \<longleftrightarrow>
        (\<exists>ws. list_workspaces_as x db (ws_org r) (ActorUser u) = Inr ws \<and> w \<in> wi_workspace_id ` set ws))"
proof -
  have inv: "org_keys_ok db" "refs_ok db"
    using org_sys.reach_inv [OF assms(2)] assms(1) by (simp_all add: org_inv_def)
  have role: "workspace_member_role x db w u = Inr q \<longleftrightarrow> access_spec db r u = Some q" for q
    using role_view_spec [OF assms(1) inv(1) assms(3), of u] by (auto simp: role_view_def split: sum.splits)
  have 1: "workspace_member_role x db w u = Inr role \<longleftrightarrow>
      (\<exists>h \<in> set (list_workspace_humans x db w). wh_user_id h = u \<and> wh_role h = role)"
    using role humans_report [OF inv assms(3)] by simp
  have 2: "workspace_member_role x db w u = Inr role \<longleftrightarrow> (\<exists>e \<in> set members. ea_user_id e = u \<and> ea_role e = role)"
    if "effective_workspace_access x db w actor = Inr (members, mode)" for actor members mode
    using role settings_report [OF inv assms(3) that] by simp
  have 3: "(\<exists>q. workspace_member_role x db w u = Inr q) \<longleftrightarrow>
      (\<exists>ws. list_workspaces_as x db (ws_org r) (ActorUser u) = Inr ws \<and> w \<in> wi_workspace_id ` set ws)"
    using role listed_report [OF assms(1) inv(1) assms(3,4), of u]
    by (auto simp: listed_def split: sum.splits)
  from 1 2 3 show ?thesis by blast
qed

end
