(* ===== verification/Org_Safety.thy ===== *)
theory Org_Safety
  imports Org_Views
begin

text \<open>
  What the organization component promises: owners are never lost, the stored roles stay in the
  ranges of the schema's checks, administrators cannot make or unmake owners, an Agent reaches
  nothing outside its organization, removing a member removes the access, and an invitation admits
  one person.  The last section states where the code falls short.
\<close>

section \<open>Owners\<close>

lemma reach_org_inv:
  "\<not> oe_disabled x \<Longrightarrow> reach (\<lambda>db. db = empty_db) (any_step x) db \<Longrightarrow> org_inv db"
  using org_sys.reach_inv by blast

lemma live_workspace_find:
  assumes "org_keys_ok db" "r \<in> set (db_workspaces db)" "ws_deleted_at r = None"
  shows "live_workspace db (ws_id r) = Some r"
proof -
  have "live_workspace db (ws_id r) \<noteq> None"
    using assms(2,3) by (auto simp: live_workspace_def find_None_iff)
  then obtain s where s: "live_workspace db (ws_id r) = Some s" by blast
  then have "s = r" using keys_workspace [OF assms(1)] live_workspace_row [OF s] assms(2) by auto
  with s show ?thesis by simp
qed

text \<open>
  C5: An organization keeps at least one owner through every sequence of requests: members leaving,
  being removed or demoted, ownership transfers, invitations and registrations, and deletions of
  other organizations; so every live workspace always has a user with the owner role.
\<close>

theorem organization_keeps_owner:
  assumes "\<not> oe_disabled x" "reach (\<lambda>db. db = empty_db) (any_step x) db"
  shows "(\<forall>r \<in> set (db_organizations db). owners db (or_id r) \<noteq> {})
    \<and> (\<forall>r \<in> set (db_workspaces db). ws_deleted_at r = None \<longrightarrow>
         (\<exists>u. workspace_member_role x db (ws_id r) u = Inr ''owner''))"
proof -
  have inv: "org_keys_ok db" "refs_ok db" "owned db"
    using reach_org_inv [OF assms] by (simp_all add: org_inv_def)
  have "\<exists>u. workspace_member_role x db (ws_id r) u = Inr ''owner''"
    if r: "r \<in> set (db_workspaces db)" "ws_deleted_at r = None" for r
  proof -
    have "ws_org r \<in> or_id ` set (db_organizations db)" using inv(2) r(1) unfolding refs_ok_def by blast
    then have "owners db (ws_org r) \<noteq> {}" using inv(3) by (auto simp: owned_def)
    then obtain u where "u \<in> owners db (ws_org r)" by blast
    then have "manages db (ws_org r) u" by (auto simp: owners_iff manages_def)
    then have "role_view (enabled x) db (ws_id r) u = Some ''owner''"
      by (rule role_check.managers_own [OF inv(1,2) live_workspace_find [OF inv(1) r]])
    then show ?thesis
      by (auto simp: enabled_id [OF assms(1)] role_view_def split: sum.splits)
  qed
  with inv(3) show ?thesis by (auto simp: owned_def)
qed

section \<open>Stored roles\<close>

definition checks_ok :: "org_db \<Rightarrow> bool" where
  "checks_ok db \<longleftrightarrow> (\<forall>m \<in> set (db_members db). om_role m \<in> {''owner'', ''admin'', ''member''})
     \<and> (\<forall>g \<in> set (db_user_grants db). ug_role g \<in> {''owner'', ''member''})
     \<and> (\<forall>g \<in> set (db_group_grants db). wg_role g \<in> {''owner'', ''member''})
     \<and> (\<forall>r \<in> set (db_workspaces db). ws_access_mode r \<in> {''organization'', ''restricted''})
     \<and> (\<forall>n \<in> set (db_invitations db).
          iv_kind n = ''personal'' \<and> iv_org n = None \<and> iv_role n = None
          \<or> iv_kind n = ''organization'' \<and> iv_org n \<noteq> None
            \<and> iv_role n \<in> {Some ''owner'', Some ''admin'', Some ''member''})"

lemma role_strings: "organization_role_as_str r \<in> {''owner'', ''admin'', ''member''}"
  by (cases r) auto

lemma joining_role_ok: "checks_ok db \<Longrightarrow> n \<in> set (db_invitations db) \<Longrightarrow> joining_role n \<in> {''owner'', ''admin'', ''member''}"
  by (auto simp: checks_ok_def joining_role_def offered_role_def)

lemma insert_checks:
  "insert_organization t i name u db = Inr db' \<Longrightarrow> checks_ok db \<Longrightarrow> checks_ok db'"
  "insert_user x u e n db = Inr db' \<Longrightarrow> checks_ok db \<Longrightarrow> checks_ok db'"
  "insert_group_member t by g u db = Inr db' \<Longrightarrow> checks_ok db \<Longrightarrow> checks_ok db'"
  by (auto simp: insert_organization_def insert_user_def insert_group_member_def checks_ok_def split: if_splits)

lemma mark_used_checks: "checks_ok db \<Longrightarrow> checks_ok (mark_used t u token db)"
  unfolding checks_ok_def mark_used_def by (simp del: if_image_distrib)

lemma apply_grants_checks: "checks_ok db \<Longrightarrow> checks_ok (apply_invitation_grants t token i u db)"
  unfolding checks_ok_def apply_invitation_grants_def by (auto split: option.splits)

lemma insert_member_checks:
  "insert_member t i u role db = Inr db' \<Longrightarrow> checks_ok db \<Longrightarrow> role \<in> {''owner'', ''admin'', ''member''} \<Longrightarrow> checks_ok db'"
  by (auto simp: insert_member_def checks_ok_def split: if_splits)

lemma upsert_user_grant_checks:
  "upsert_user_grant t by w u role db = Inr db' \<Longrightarrow> checks_ok db \<Longrightarrow> role \<in> {''owner'', ''member''} \<Longrightarrow> checks_ok db'"
  by (auto simp: upsert_user_grant_def checks_ok_def split: if_splits)

lemma upsert_group_grant_checks:
  "upsert_group_grant t by w g role db = Inr db' \<Longrightarrow> checks_ok db \<Longrightarrow> role \<in> {''owner'', ''member''} \<Longrightarrow> checks_ok db'"
  by (auto simp: upsert_group_grant_def checks_ok_def split: if_splits)

lemma insert_workspace_checks: "insert_workspace t w i n u db = Inr db' \<Longrightarrow> checks_ok db \<Longrightarrow> checks_ok db'"
  by (auto simp: insert_workspace_def checks_ok_def split: if_splits)

lemma change_checks:
  assumes "org_change x actor db db'" "checks_ok db"
  shows "checks_ok db'"
  using assms
proof (induction rule: org_change.induct)
  case (ch_invite n db1 i r role)
  then show ?case using role_strings [of role]
    by (auto simp: insert_invitation_def checks_ok_def split: if_splits)
next
  case (ch_register u uuid email name db1 n token t i role db2)
  then have "checks_ok (mark_used t u token db1)" by (blast intro: insert_checks mark_used_checks)
  then show ?case
    using ch_register joining_role_ok [of db n] by (blast intro: insert_member_checks apply_grants_checks)
next
  case (ch_accept u n token t i role db1)
  then show ?case
    using joining_role_ok [of db n] by (blast intro: insert_member_checks apply_grants_checks mark_used_checks)
next
  case (ch_workspace_owned i r t w name u db1 db2)
  then show ?case by (auto dest: insert_workspace_checks upsert_user_grant_checks)
next
  case (ch_organization u t i name db1 db2)
  then show ?case by (blast intro: insert_member_checks insert_checks)
next
  case (ch_register_personal u uuid email name db1 db2 t i title db3 db4)
  then have "checks_ok db2" by (blast intro: insert_checks mark_used_checks)
  then show ?case using ch_register_personal by (blast intro: insert_checks insert_member_checks)
next
  case (ch_group_join i r g u t creator db1)
  then show ?case by (blast intro: insert_checks)
next
  case (ch_user_grant w u t creator role db1)
  then show ?case by (blast intro: upsert_user_grant_checks)
next
  case (ch_group_grant w g t creator role db1)
  then show ?case by (blast intro: upsert_group_grant_checks)
next
  case (ch_workspace i r t w name u db1)
  then show ?case by (blast intro: insert_workspace_checks)
next
  case (ch_delete i r)
  then show ?case by (auto simp: checks_ok_def cascade_organization_def Let_def)
next
  case (ch_personal_invite n db1)
  then show ?case by (auto simp: insert_invitation_def checks_ok_def split: if_splits)
qed (auto simp: checks_ok_def set_member_role_def remove_member_rows_def cascade_group_def delete_group_member_def
    set_access_mode_def delete_user_grant_def delete_group_grant_def mark_workspace_deleted_def)

lemma same_access_checks: "same_access a b \<Longrightarrow> checks_ok a = checks_ok b"
  by (simp add: same_access_def checks_ok_def)

interpretation checks_sys: inv_system "\<lambda>db. db = empty_db" "any_step x" checks_ok for x
proof
  fix db db'
  assume "checks_ok db" "any_step x db db'"
  then obtain actor where "org_step x actor db db'" by (auto simp: any_step_def)
  then have "changes x actor db db'" by (rule step_changes)
  with \<open>checks_ok db\<close> show "checks_ok db'"
    unfolding changes_def using change_checks same_access_checks by blast
qed (simp add: checks_ok_def empty_db_def)

text \<open>
  C11: In every reachable state, also with authentication disabled, each stored role and mode is one
  of the words its column allows: members are owner, admin or member, grants are owner or member,
  workspaces are organization or restricted, and an invitation is either personal without
  organization and role or an organization invitation with both.  So no request ever fails on a
  check constraint, and every role read back parses.
\<close>

theorem stored_roles_well_typed:
  "reach (\<lambda>db. db = empty_db) (any_step x) db \<Longrightarrow> checks_ok db"
  by (rule checks_sys.reach_inv)

section \<open>Administrators and owners\<close>

definition owner_offers :: "org_db \<Rightarrow> string \<Rightarrow> string set" where
  "owner_offers db i = iv_token ` {n \<in> set (db_invitations db). iv_org n = Some i \<and> iv_used_at n = None
     \<and> joining_role n = ''owner''}"

text \<open>What an administrator of \<open>i\<close> passes and does not pass.\<close>

lemma admin_checks:
  assumes "\<not> oe_disabled x" "member_of db i u = Some m" "om_role m = ''admin''"
  shows "require_owner_as x db i (ActorUser u) = Inl organization_owner_required"
    "require_manager_as x db i (ActorUser u) = Inr ''admin''"
  using assms by (simp_all add: require_owner_as_def require_manager_def require_organization_member_def membership_role_def)

lemma owners_members: "db_members a = db_members b \<Longrightarrow> owners a = owners b"
  by (simp add: owners_def fun_eq_iff)

lemma offers_invitations: "db_invitations a = db_invitations b \<Longrightarrow> owner_offers a = owner_offers b"
  by (simp add: owner_offers_def fun_eq_iff)

lemma joining_owner: "joining_role n = ''owner'' \<Longrightarrow> iv_role n = Some ''owner''"
  by (auto simp: joining_role_def offered_role_def split: option.splits if_splits)

lemma new_invitation_offers:
  "insert_invitation n db = Inr db' \<Longrightarrow> \<not> (iv_org n = Some i \<and> joining_role n = ''owner'')
   \<Longrightarrow> owner_offers db' i = owner_offers db i"
  by (auto simp: insert_invitation_def owner_offers_def split: if_splits)

lemma same_members:
  "insert_organization t i name u db = Inr db' \<Longrightarrow> db_members db' = db_members db"
  "insert_user x u e n db = Inr db' \<Longrightarrow> db_members db' = db_members db"
  "insert_group_member t by g u db = Inr db' \<Longrightarrow> db_members db' = db_members db"
  "upsert_user_grant t by w u role db = Inr db' \<Longrightarrow> db_members db' = db_members db"
  "upsert_group_grant t by w g role db = Inr db' \<Longrightarrow> db_members db' = db_members db"
  "insert_workspace t w i n u db = Inr db' \<Longrightarrow> db_members db' = db_members db"
  "insert_invitation k db = Inr db' \<Longrightarrow> db_members db' = db_members db"
  by (auto simp: insert_organization_def insert_user_def insert_group_member_def upsert_user_grant_def
      upsert_group_grant_def insert_workspace_def insert_invitation_def split: if_splits)

lemma same_invitations:
  "insert_organization t i name u db = Inr db' \<Longrightarrow> db_invitations db' = db_invitations db"
  "insert_member t i u role db = Inr db' \<Longrightarrow> db_invitations db' = db_invitations db"
  "insert_user x u e n db = Inr db' \<Longrightarrow> db_invitations db' = db_invitations db"
  "insert_group_member t by g u db = Inr db' \<Longrightarrow> db_invitations db' = db_invitations db"
  "upsert_user_grant t by w u role db = Inr db' \<Longrightarrow> db_invitations db' = db_invitations db"
  "upsert_group_grant t by w g role db = Inr db' \<Longrightarrow> db_invitations db' = db_invitations db"
  "insert_workspace t w i n u db = Inr db' \<Longrightarrow> db_invitations db' = db_invitations db"
  by (auto simp: insert_organization_def insert_member_def insert_user_def insert_group_member_def
      upsert_user_grant_def upsert_group_grant_def insert_workspace_def split: if_splits)

lemma insert_member_owners:
  "insert_member t j v role db = Inr db' \<Longrightarrow> j \<noteq> i \<Longrightarrow> owners db' i = owners db i"
  by (auto simp: insert_member_def owners_iff split: if_splits)

lemma apply_grants_same:
  "db_members (apply_invitation_grants t token i u db) = db_members db"
  "db_invitations (apply_invitation_grants t token i u db) = db_invitations db"
  by (simp_all add: apply_invitation_grants_def split: option.splits)

lemma mark_used_offers: "owner_offers (mark_used t u token db) i \<subseteq> owner_offers db i"
  by (auto simp: owner_offers_def mark_used_def split: if_splits)

lemma member_writes_offers:
  "owner_offers (remove_member_rows j u db) i = owner_offers db i"
  "owner_offers (set_member_role j u role db) i = owner_offers db i"
  by (simp_all add: owner_offers_def remove_member_rows_def set_member_role_def)

lemma insert_member_fresh: "insert_member t i u role db = Inr db' \<Longrightarrow> member_of db i u = None"
  by (auto simp: insert_member_def split: if_splits)

lemma admin_change:
  assumes "org_change x (ActorUser u) db db'" "\<not> oe_disabled x" "org_inv db" "member_of db i u = Some m" "om_role m = ''admin''"
  shows "owners db' i = owners db i \<and> owner_offers db' i \<subseteq> owner_offers db i"
proof -
  have keys: "org_keys_ok db" and refs: "refs_ok db" using assms(3) by (simp_all add: org_inv_def)
  have m: "m \<in> set (db_members db)" "om_org m = i" "om_user m = u"
    using assms(4) by (simp_all add: member_of_iff [OF keys])
  then have exists: "organization_of db i \<noteq> None" "user_of db u \<noteq> None"
    using refs unfolding refs_ok_def organization_of_None user_of_None by blast+
  have not_owner: "u \<notin> owners db i"
  proof
    assume "u \<in> owners db i"
    then obtain n where "n \<in> set (db_members db)" "om_org n = i" "om_user n = u" "om_role n = ''owner''"
      by (auto simp: owners_iff)
    with keys_member [OF keys, of n m] m assms(5) show False by simp
  qed
  note admin = admin_checks [OF assms(2,4,5)]
  have target: "v \<notin> owners db i" if "role_in (lock_member_roles x db i) v = Some role" "role \<noteq> ''owner''" for v role
    using that owner_iff_role [OF keys, of v i x] by auto
  show ?thesis
    using assms(1)
  proof (cases rule: org_change.cases)
    case (ch_organization v t j name db1)
    then have "j \<noteq> i" using exists by (auto simp: insert_organization_def split: if_splits)
    then show ?thesis using ch_organization same_members(1) same_invitations(1,2) insert_member_owners owners_members
        offers_invitations by (metis order_refl)
  next
    case (ch_delete j r)
    then have "j \<noteq> i" using admin by auto
    with ch_delete show ?thesis
      by (auto simp: cascade_organization_def Let_def owners_iff owner_offers_def)
  next
    case (ch_remove j v role)
    have "u \<notin> owners db i \<and> v = u \<or> v \<notin> owners db i" if "j = i"
      using ch_remove that not_owner target admin(2) by (auto simp: removal_by_def)
    with ch_remove(1) show ?thesis by (auto simp: owners_remove member_writes_offers)
  next
    case (ch_transfer v j target previous)
    then have "j \<noteq> i" using not_owner owner_iff_role [OF keys] by auto
    with ch_transfer(1) show ?thesis by (simp add: owners_role member_writes_offers)
  next
    case (ch_role j r role target old)
    then have "j \<noteq> i" using admin by auto
    with ch_role(1) show ?thesis by (simp add: owners_role member_writes_offers)
  next
    case (ch_invite n j r role)
    have "\<not> (iv_org n = Some i \<and> joining_role n = ''owner'')"
      using ch_invite admin(2) joining_owner [of n] by (cases role) auto
    then show ?thesis using ch_invite same_members(7) owners_members new_invitation_offers by (metis order_refl)
  next
    case (ch_personal_invite n)
    then show ?thesis using same_members(7) owners_members new_invitation_offers [of n db db' i] by (metis option.distinct(1) order_refl)
  next
    case (ch_accept v n token t j role db1)
    then have "j \<noteq> i" using insert_member_fresh assms(4) by (auto; fastforce)
    then have "owners db1 i = owners db i" using ch_accept insert_member_owners by blast
    moreover have "owner_offers db1 i = owner_offers db i" using ch_accept same_invitations(2) offers_invitations by metis
    ultimately show ?thesis using ch_accept mark_used_offers [of t v token "apply_invitation_grants t token j v db1" i]
      by (simp add: owners_def owner_offers_def mark_used_def apply_grants_same)
  next
    case (ch_register_personal v uuid email name db1 db2 t j title db3)
    then show ?thesis using exists(2) by (auto simp: insert_user_def user_of_None list_ex_iff split: if_splits)
  next
    case (ch_register v uuid email name db1 n token t j role db2)
    then show ?thesis using exists(2) by (auto simp: insert_user_def user_of_None list_ex_iff split: if_splits)
  qed (auto simp: owners_def owner_offers_def cascade_group_def delete_group_member_def set_access_mode_def
      delete_user_grant_def delete_group_grant_def mark_workspace_deleted_def same_members same_invitations
      joining_role_def offered_role_def)
qed

text \<open>
  C8: Whatever request an administrator of an organization sends, the set of the organization's
  owners stays as it is and no new usable invitation with the owner role appears: an administrator
  cannot promote, demote, remove or invite an owner, nor take ownership.
\<close>

theorem admins_cannot_touch_owners:
  assumes "\<not> oe_disabled x" "reach (\<lambda>db. db = empty_db) (any_step x) db"
    and "member_of db i u = Some m" "om_role m = ''admin''" "org_step x (ActorUser u) db db'"
  shows "owners db' i = owners db i \<and> owner_offers db' i \<subseteq> owner_offers db i"
proof -
  have same: "owners a = owners b \<and> owner_offers a = owner_offers b" if "same_access a b" for a b
    using that owners_members [of a b] offers_invitations [of a b] by (simp add: same_access_def)
  have "changes x (ActorUser u) db db'" by (rule step_changes [OF assms(5)])
  then show ?thesis
    unfolding changes_def
    using same admin_change [OF _ assms(1) reach_org_inv [OF assms(1,2)] assms(3,4)] by (metis order_refl)
qed

section \<open>The scope of Agents\<close>

text \<open>The rows of an organization: its own row, members, groups, workspaces, grants and invitations.\<close>

definition org_view ::
  "string \<Rightarrow> org_db \<Rightarrow> organization_row list \<times> member_row list \<times> workspace_row list \<times> group_row list
   \<times> group_member_row list \<times> user_grant_row list \<times> group_grant_row list \<times> invitation_row list" where
  "org_view i db =
     (filter (\<lambda>r. or_id r = i) (db_organizations db), filter (\<lambda>m. om_org m = i) (db_members db),
      filter (\<lambda>r. ws_org r = i) (db_workspaces db), filter (\<lambda>g. og_org g = i) (db_groups db),
      filter (\<lambda>gm. gm_group gm \<in> groups_of db i) (db_group_members db),
      filter (\<lambda>g. ug_workspace g \<in> workspaces_of db i) (db_user_grants db),
      filter (\<lambda>g. wg_workspace g \<in> workspaces_of db i) (db_group_grants db),
      filter (\<lambda>n. iv_org n = Some i) (db_invitations db))"

lemma same_access_view: "same_access a b \<Longrightarrow> org_view i a = org_view i b"
  by (simp add: same_access_def org_view_def groups_of_def workspaces_of_def)

lemma filter_update_other:
  "(\<And>r. r \<in> set xs \<Longrightarrow> Q r \<Longrightarrow> \<not> P r \<and> \<not> P (f r)) \<Longrightarrow> filter P (map (\<lambda>r. if Q r then f r else r) xs) = filter P xs"
  by (induction xs) auto

lemma filter_filter_other: "(\<And>r. r \<in> set xs \<Longrightarrow> P r \<Longrightarrow> Q r) \<Longrightarrow> filter P (filter Q xs) = filter P xs"
  by (induction xs) auto

lemma workspaces_of_iff: "w \<in> workspaces_of db i \<longleftrightarrow> (\<exists>r \<in> set (db_workspaces db). ws_id r = w \<and> ws_org r = i)"
  by (auto simp: workspaces_of_def)

lemma groups_of_iff: "g \<in> groups_of db i \<longleftrightarrow> (\<exists>r \<in> set (db_groups db). og_id r = g \<and> og_org r = i)"
  by (auto simp: groups_of_def)

lemma agent_organization:
  "require_member_as x db i (ActorAgent a w) = Inr q \<Longrightarrow> \<exists>r. live_workspace db w = Some r \<and> ws_org r = i"
  by (auto simp: require_agent_organization_def workspace_organization_def res_simps)

lemma agent_manager:
  "require_manager_as x db i (ActorAgent a w) = Inr q \<Longrightarrow> \<exists>r. live_workspace db w = Some r \<and> ws_org r = i"
  using agent_organization by (metis require_manager_as.simps(2))

lemma agent_owner:
  "require_owner_as x db i (ActorAgent a w) = Inr q \<Longrightarrow> \<exists>r. live_workspace db w = Some r \<and> ws_org r = i"
  unfolding require_owner_as_def and_then_Inr using agent_organization by blast

lemma agent_workspace:
  "workspace_role_as x db v (ActorAgent a w) = Inr q \<Longrightarrow> v = w \<and> live_workspace db w \<noteq> None"
  by (auto simp: workspace_organization_def res_simps)

lemma agent_workspace_owner:
  "require_workspace_owner_as x db v (ActorAgent a w) = Inr () \<Longrightarrow> v = w \<and> live_workspace db w \<noteq> None"
  unfolding require_workspace_owner_as_def and_then_Inr using agent_workspace by blast

text \<open>Statements on the rows of one organization leave the rows of the others alone.\<close>

lemma organization_frames:
  assumes "i \<noteq> j" "org_keys_ok db" "scope_ok db"
  shows "org_view j (db\<lparr>db_organizations := map (\<lambda>r. if or_id r = i then r\<lparr>or_name := n\<rparr> else r) (db_organizations db)\<rparr>) = org_view j db"
    "org_view j (set_member_role i u role db) = org_view j db"
    "og_org g = i \<Longrightarrow> og_id g \<notin> og_id ` set (db_groups db) \<Longrightarrow> refs_ok db
       \<Longrightarrow> org_view j (db\<lparr>db_groups := db_groups db @ [g]\<rparr>) = org_view j db"
    "iv_org m = Some i \<Longrightarrow> insert_invitation m db = Inr db1 \<Longrightarrow> org_view j db1 = org_view j db"
  using assms(1)
  by (auto simp: org_view_def set_member_role_def groups_of_def workspaces_of_def insert_invitation_def
      intro!: filter_update_other split: if_splits)

lemma workspace_elsewhere:
  assumes "org_keys_ok db" "live_workspace db w = Some r" "ws_org r \<noteq> j"
  shows "w \<notin> workspaces_of db j"
  using keys_workspace [OF assms(1)] live_workspace_row [OF assms(2)] assms(3) by (auto simp: workspaces_of_iff)

lemma group_elsewhere:
  assumes "org_keys_ok db" "g \<in> set (db_groups db)" "og_org g \<noteq> j"
  shows "og_id g \<notin> groups_of db j"
  unfolding groups_of_iff using keys_group [OF assms(1,2)] assms(3) by metis

lemma remove_member_frame:
  assumes "i \<noteq> j" "org_keys_ok db"
  shows "org_view j (remove_member_rows i u db) = org_view j db"
proof -
  have "filter (\<lambda>gm. gm_group gm \<in> groups_of db j) (filter (\<lambda>gm. \<not> (gm_user gm = u
      \<and> list_ex (\<lambda>g. og_id g = gm_group gm \<and> og_org g = i) (db_groups db))) (db_group_members db))
    = filter (\<lambda>gm. gm_group gm \<in> groups_of db j) (db_group_members db)"
    using assms(1) group_elsewhere [OF assms(2)] by (intro filter_filter_other) (clarsimp simp: list_ex_iff, metis)
  moreover have "filter (\<lambda>g. ug_workspace g \<in> workspaces_of db j) (filter (\<lambda>g. \<not> (ug_user g = u
      \<and> list_ex (\<lambda>r. ws_id r = ug_workspace g \<and> ws_org r = i) (db_workspaces db))) (db_user_grants db))
    = filter (\<lambda>g. ug_workspace g \<in> workspaces_of db j) (db_user_grants db)"
    using assms(1) keys_workspace [OF assms(2)]
    by (intro filter_filter_other) (clarsimp simp: list_ex_iff workspaces_of_iff, metis)
  moreover have "filter (\<lambda>m. om_org m = j) (filter (\<lambda>m. \<not> (om_org m = i \<and> om_user m = u)) (db_members db))
    = filter (\<lambda>m. om_org m = j) (db_members db)"
    using assms(1) by (intro filter_filter_other) auto
  ultimately show ?thesis
    by (simp add: org_view_def remove_member_rows_def groups_of_def workspaces_of_def)
qed

lemma cascade_tables:
  "db_organizations (cascade_organization i db) = filter (\<lambda>r. or_id r \<noteq> i) (db_organizations db)"
  "db_members (cascade_organization i db) = filter (\<lambda>m. om_org m \<noteq> i) (db_members db)"
  "db_workspaces (cascade_organization i db) = filter (\<lambda>r. ws_org r \<noteq> i) (db_workspaces db)"
  "db_groups (cascade_organization i db) = filter (\<lambda>g. og_org g \<noteq> i) (db_groups db)"
  "db_group_members (cascade_organization i db) = filter (\<lambda>gm. gm_group gm \<notin> groups_of db i) (db_group_members db)"
  "db_user_grants (cascade_organization i db) = filter (\<lambda>g. ug_workspace g \<notin> workspaces_of db i) (db_user_grants db)"
  "db_group_grants (cascade_organization i db) =
     filter (\<lambda>g. wg_workspace g \<notin> workspaces_of db i \<and> wg_group g \<notin> groups_of db i) (db_group_grants db)"
  "db_invitations (cascade_organization i db) = filter (\<lambda>n. iv_org n \<noteq> Some i) (db_invitations db)"
  by (simp_all add: cascade_organization_def Let_def)

lemma cascade_organization_frame:
  assumes "i \<noteq> j" "org_keys_ok db" "scope_ok db" "refs_ok db"
  shows "org_view j (cascade_organization i db) = org_view j db"
proof -
  have ws: "workspaces_of (cascade_organization i db) j = workspaces_of db j"
    and gs: "groups_of (cascade_organization i db) j = groups_of db j"
    using assms(1) by (auto simp: workspaces_of_def groups_of_def cascade_tables)
  have dw: "w \<notin> workspaces_of db i" if "w \<in> workspaces_of db j" for w
    using that keys_workspace [OF assms(2)] assms(1) unfolding workspaces_of_iff by metis
  have dg: "g \<notin> groups_of db i" if "g \<in> groups_of db j" for g
    using that keys_group [OF assms(2)] assms(1) unfolding groups_of_iff by metis
  have dwg: "wg_group g \<notin> groups_of db i" if "g \<in> set (db_group_grants db)" "wg_workspace g \<in> workspaces_of db j" for g
    using that assms(1,3) unfolding scope_ok_def groups_of_iff workspaces_of_iff by metis
  have rows: "filter (\<lambda>r. or_id r = j) (filter (\<lambda>r. or_id r \<noteq> i) (db_organizations db)) = filter (\<lambda>r. or_id r = j) (db_organizations db)"
    "filter (\<lambda>m. om_org m = j) (filter (\<lambda>m. om_org m \<noteq> i) (db_members db)) = filter (\<lambda>m. om_org m = j) (db_members db)"
    "filter (\<lambda>r. ws_org r = j) (filter (\<lambda>r. ws_org r \<noteq> i) (db_workspaces db)) = filter (\<lambda>r. ws_org r = j) (db_workspaces db)"
    "filter (\<lambda>g. og_org g = j) (filter (\<lambda>g. og_org g \<noteq> i) (db_groups db)) = filter (\<lambda>g. og_org g = j) (db_groups db)"
    "filter (\<lambda>n. iv_org n = Some j) (filter (\<lambda>n. iv_org n \<noteq> Some i) (db_invitations db)) = filter (\<lambda>n. iv_org n = Some j) (db_invitations db)"
    using assms(1) by (intro filter_filter_other; simp)+
  have grants: "filter (\<lambda>gm. gm_group gm \<in> groups_of db j) (filter (\<lambda>gm. gm_group gm \<notin> groups_of db i) (db_group_members db))
      = filter (\<lambda>gm. gm_group gm \<in> groups_of db j) (db_group_members db)"
    "filter (\<lambda>g. ug_workspace g \<in> workspaces_of db j) (filter (\<lambda>g. ug_workspace g \<notin> workspaces_of db i) (db_user_grants db))
      = filter (\<lambda>g. ug_workspace g \<in> workspaces_of db j) (db_user_grants db)"
    "filter (\<lambda>g. wg_workspace g \<in> workspaces_of db j)
       (filter (\<lambda>g. wg_workspace g \<notin> workspaces_of db i \<and> wg_group g \<notin> groups_of db i) (db_group_grants db))
      = filter (\<lambda>g. wg_workspace g \<in> workspaces_of db j) (db_group_grants db)"
    using dw dg dwg by (intro filter_filter_other; blast)+
  show ?thesis
    unfolding org_view_def ws gs cascade_tables rows grants by (rule refl)
qed

lemma cascade_group_frame:
  assumes "g \<in> set (db_groups db)" "og_org g \<noteq> j" "org_keys_ok db" "scope_ok db"
  shows "org_view j (cascade_group (og_id g) db) = org_view j db"
proof -
  note g = group_elsewhere [OF assms(3,1,2)]
  have gs: "groups_of (cascade_group (og_id g) db) j = groups_of db j"
    using g unfolding groups_of_iff set_eq_iff cascade_group_def by simp metis
  have "wg_group h \<noteq> og_id g" if "h \<in> set (db_group_grants db)" "wg_workspace h \<in> workspaces_of db j" for h
    using that assms(1,2,4) unfolding scope_ok_def workspaces_of_iff by metis
  then have "filter (\<lambda>h. wg_workspace h \<in> workspaces_of db j) (filter (\<lambda>wg. wg_group wg \<noteq> og_id g) (db_group_grants db))
      = filter (\<lambda>h. wg_workspace h \<in> workspaces_of db j) (db_group_grants db)"
    by (intro filter_filter_other) auto
  moreover have "filter (\<lambda>gm. gm_group gm \<in> groups_of db j) (filter (\<lambda>gm. gm_group gm \<noteq> og_id g) (db_group_members db))
      = filter (\<lambda>gm. gm_group gm \<in> groups_of db j) (db_group_members db)"
    using g by (intro filter_filter_other) auto
  moreover have "filter (\<lambda>h. og_org h = j) (filter (\<lambda>h. og_id h \<noteq> og_id g) (db_groups db)) = filter (\<lambda>h. og_org h = j) (db_groups db)"
    using g by (intro filter_filter_other) (auto simp: groups_of_iff)
  ultimately show ?thesis
    unfolding org_view_def gs by (simp add: cascade_group_def workspaces_of_def)
qed

lemma group_row_frames:
  assumes "g \<notin> groups_of db j"
  shows "insert_group_member t by g u db = Inr db1 \<Longrightarrow> org_view j db1 = org_view j db"
    "org_view j (delete_group_member g u db) = org_view j db"
proof -
  show "insert_group_member t by g u db = Inr db1 \<Longrightarrow> org_view j db1 = org_view j db"
    using assms by (auto simp: insert_group_member_def org_view_def groups_of_def workspaces_of_def split: if_splits)
  have "filter (\<lambda>gm. gm_group gm \<in> groups_of db j) (filter (\<lambda>gm. \<not> (gm_group gm = g \<and> gm_user gm = u)) (db_group_members db))
      = filter (\<lambda>gm. gm_group gm \<in> groups_of db j) (db_group_members db)"
    using assms by (intro filter_filter_other) auto
  then show "org_view j (delete_group_member g u db) = org_view j db"
    by (simp add: org_view_def delete_group_member_def groups_of_def workspaces_of_def)
qed

lemma filter_workspace_update:
  assumes "w \<notin> workspaces_of db j" "\<And>r. ws_org (f r) = ws_org r" "\<And>r. ws_id (f r) = ws_id r"
  shows "org_view j (db\<lparr>db_workspaces := map (\<lambda>r. if ws_id r = w \<and> ws_deleted_at r = None then f r else r) (db_workspaces db)\<rparr>)
    = org_view j db"
proof -
  have "filter (\<lambda>r. ws_org r = j) (map (\<lambda>r. if ws_id r = w \<and> ws_deleted_at r = None then f r else r) (db_workspaces db))
      = filter (\<lambda>r. ws_org r = j) (db_workspaces db)"
    using assms by (intro filter_update_other) (auto simp: workspaces_of_iff)
  then show ?thesis by (simp add: org_view_def groups_of_def workspaces_of_def)
qed

lemma workspace_row_frames:
  assumes "w \<notin> workspaces_of db j"
  shows "org_view j (set_access_mode w mode db) = org_view j db"
    "org_view j (mark_workspace_deleted t actor w db) = org_view j db"
    "upsert_user_grant t by w u role db = Inr db1 \<Longrightarrow> org_view j db1 = org_view j db"
    "upsert_group_grant t by w g role db = Inr db1 \<Longrightarrow> org_view j db1 = org_view j db"
    "org_view j (delete_user_grant w u db) = org_view j db"
    "org_view j (delete_group_grant w g db) = org_view j db"
proof -
  show "org_view j (set_access_mode w mode db) = org_view j db"
    "org_view j (mark_workspace_deleted t actor w db) = org_view j db"
    unfolding set_access_mode_def mark_workspace_deleted_def by (rule filter_workspace_update [OF assms]; simp)+
  show "upsert_user_grant t by w u role db = Inr db1 \<Longrightarrow> org_view j db1 = org_view j db"
    "upsert_group_grant t by w g role db = Inr db1 \<Longrightarrow> org_view j db1 = org_view j db"
    using assms by (auto simp: upsert_user_grant_def upsert_group_grant_def org_view_def groups_of_def
        workspaces_of_def intro!: filter_update_other split: if_splits)
  show "org_view j (delete_user_grant w u db) = org_view j db" "org_view j (delete_group_grant w g db) = org_view j db"
    using assms by (auto simp: delete_user_grant_def delete_group_grant_def org_view_def groups_of_def
        workspaces_of_def intro!: filter_cong)
qed

lemma insert_workspace_frame:
  "insert_workspace t w i n u db = Inr db1 \<Longrightarrow> i \<noteq> j \<Longrightarrow> org_view j db1 = org_view j db"
proof -
  assume new: "insert_workspace t w i n u db = Inr db1" and "i \<noteq> j"
  then have "workspaces_of db1 j = workspaces_of db j" "groups_of db1 j = groups_of db j"
    by (auto simp: insert_workspace_def workspaces_of_iff groups_of_iff split: if_splits)
  with new \<open>i \<noteq> j\<close> show ?thesis
    unfolding org_view_def by (auto simp: insert_workspace_def split: if_splits)
qed

lemma revoke_invitation_frame:
  assumes "org_keys_ok db" "n \<in> set (db_invitations db)" "iv_org n = Some i" "i \<noteq> j"
  shows "org_view j (db\<lparr>db_invitations := map (\<lambda>r. if iv_id r = iv_id n then r\<lparr>iv_revoked_at := v\<rparr> else r) (db_invitations db)\<rparr>)
    = org_view j db"
proof -
  have same: "m = n" if "m \<in> set (db_invitations db)" "iv_id m = iv_id n" for m
    using assms(1,2) that by (auto simp: org_keys_ok_def intro: distinct_key)
  have "filter (\<lambda>m. iv_org m = Some j) (map (\<lambda>r. if iv_id r = iv_id n then r\<lparr>iv_revoked_at := v\<rparr> else r) (db_invitations db))
      = filter (\<lambda>m. iv_org m = Some j) (db_invitations db)"
  proof (intro filter_update_other)
    fix r
    assume "r \<in> set (db_invitations db)" "iv_id r = iv_id n"
    then have "r = n" by (rule same)
    with assms(3,4) show "\<not> iv_org r = Some j \<and> \<not> iv_org (r\<lparr>iv_revoked_at := v\<rparr>) = Some j" by simp
  qed
  then show ?thesis by (simp add: org_view_def groups_of_def workspaces_of_def)
qed

lemma agent_change:
  assumes "org_change x (ActorAgent a w) db db'" "org_inv db"
  shows "\<exists>r. live_workspace db w = Some r \<and> (\<forall>j. j \<noteq> ws_org r \<longrightarrow> org_view j db' = org_view j db)"
proof -
  have inv: "org_keys_ok db" "refs_ok db" "scope_ok db" using assms(2) by (simp_all add: org_inv_def)
  have elsewhere: "w \<notin> workspaces_of db j" if "live_workspace db w = Some r" "j \<noteq> ws_org r" for r j
    by (rule workspace_elsewhere [OF inv(1) that(1)]) (use that(2) in simp)
  have group: "g \<notin> groups_of db j" if "group_member_valid db i g u" "j \<noteq> i" for g i u j
  proof -
    from that(1) obtain s where "s \<in> set (db_groups db)" "og_id s = g" "og_org s = i"
      unfolding group_member_valid_def list_ex_iff by blast
    with group_elsewhere [OF inv(1), of s j] that(2) show ?thesis by auto
  qed
  have org: ?thesis if "\<exists>r. live_workspace db w = Some r \<and> ws_org r = i"
      "\<And>j. i \<noteq> j \<Longrightarrow> org_view j db' = org_view j db" for i
  proof -
    from that(1) obtain r where "live_workspace db w = Some r" "ws_org r = i" by blast
    with that(2) show ?thesis by simp
  qed
  have own: ?thesis if "v = w \<and> live_workspace db w \<noteq> None"
      "\<And>j. v \<notin> workspaces_of db j \<Longrightarrow> org_view j db' = org_view j db" for v
  proof -
    from that(1) obtain r where "live_workspace db w = Some r" "v = w" by blast
    with that(2) elsewhere show ?thesis by simp
  qed
  show ?thesis
    using assms(1)
  proof (cases rule: org_change.cases)
    case (ch_rename i q name)
    show ?thesis
      by (rule org [OF agent_manager [OF ch_rename(2)]]) (simp add: ch_rename(1) organization_frames(1) inv)
  next
    case (ch_delete i q)
    show ?thesis
      by (rule org [OF agent_owner [OF ch_delete(2)]]) (simp add: ch_delete(1) cascade_organization_frame inv)
  next
    case (ch_remove i target role)
    then obtain q where q: "require_manager_as x db i (ActorAgent a w) = Inr q"
      unfolding removal_by_def by blast
    show ?thesis
      by (rule org [OF agent_manager [OF q]]) (simp add: ch_remove(1) remove_member_frame inv)
  next
    case (ch_role i q role target old)
    show ?thesis
      by (rule org [OF agent_owner [OF ch_role(2)]]) (simp add: ch_role(1) organization_frames(2) inv)
  next
    case (ch_group i q g)
    show ?thesis
      by (rule org [OF agent_manager [OF ch_group(2)]])
        (use ch_group(1,3,4) organization_frames(3) [OF _ inv(1,3)] inv(2) in simp)
  next
    case (ch_delete_group i q g)
    show ?thesis
      by (rule org [OF agent_manager [OF ch_delete_group(2)]])
        (use ch_delete_group(1,3,4) cascade_group_frame [OF _ _ inv(1,3)] in simp)
  next
    case (ch_group_join i q g u t creator)
    show ?thesis
      by (rule org [OF agent_manager [OF ch_group_join(1)]])
        (rule group_row_frames(1) [OF group [OF ch_group_join(2)] ch_group_join(3)], simp)
  next
    case (ch_group_leave i q g u)
    show ?thesis
      unfolding ch_group_leave(1)
      by (rule org [OF agent_manager [OF ch_group_leave(2)], unfolded ch_group_leave(1)])
        (rule group_row_frames(2) [OF group [OF ch_group_leave(3)]], simp)
  next
    case (ch_mode v mode)
    show ?thesis
      by (rule own [OF agent_workspace_owner [OF ch_mode(2)]]) (simp add: ch_mode(1) workspace_row_frames)
  next
    case (ch_user_grant v u t creator role)
    show ?thesis
      by (rule own [OF agent_workspace_owner [OF ch_user_grant(1)]]) (rule workspace_row_frames(3) [OF _ ch_user_grant(3)])
  next
    case (ch_user_revoke v u)
    show ?thesis
      by (rule own [OF agent_workspace_owner [OF ch_user_revoke(2)]]) (simp add: ch_user_revoke(1) workspace_row_frames)
  next
    case (ch_group_grant v g t creator role)
    show ?thesis
      by (rule own [OF agent_workspace_owner [OF ch_group_grant(1)]]) (rule workspace_row_frames(4) [OF _ ch_group_grant(3)])
  next
    case (ch_group_revoke v g)
    show ?thesis
      by (rule own [OF agent_workspace_owner [OF ch_group_revoke(2)]]) (simp add: ch_group_revoke(1) workspace_row_frames)
  next
    case (ch_workspace i q t v name u)
    show ?thesis
      by (rule org [OF agent_organization [OF ch_workspace(1)]]) (rule insert_workspace_frame [OF ch_workspace(2)])
  next
    case (ch_workspace_owned i q t v name u db1)
    with agent_label_no_user [OF inv(1)] show ?thesis by simp
  next
    case (ch_rename_workspace v q name)
    show ?thesis
      by (rule own [OF agent_workspace [OF ch_rename_workspace(2)]])
        (unfold ch_rename_workspace(1), rule filter_workspace_update, simp_all)
  next
    case (ch_delete_workspace v t)
    show ?thesis
      by (rule own [OF agent_workspace_owner [OF ch_delete_workspace(2)]]) (simp add: ch_delete_workspace(1) workspace_row_frames)
  next
    case (ch_invite n i q role)
    show ?thesis
      by (rule org [OF agent_manager [OF ch_invite(2)]]) (rule organization_frames(4) [OF _ inv(1,3) ch_invite(4,1)])
  next
    case (ch_revoke_invite i q n now)
    show ?thesis
      by (rule org [OF agent_manager [OF ch_revoke_invite(2)]])
        (simp add: ch_revoke_invite(1) revoke_invitation_frame [OF inv(1) ch_revoke_invite(3,4)])
  qed simp_all
qed

text \<open>
  C9: An Agent's request never changes a row of another organization: no organization, membership,
  group, workspace, grant or invitation outside the organization of the Agent's own workspace, and
  nothing at all once that workspace is deleted.
\<close>

theorem agents_stay_in_their_organization:
  assumes "\<not> oe_disabled x" "reach (\<lambda>db. db = empty_db) (any_step x) db" "org_step x (ActorAgent a w) db db'"
  shows "case live_workspace db w of
      None \<Rightarrow> same_access db' db
    | Some r \<Rightarrow> (\<forall>j. j \<noteq> ws_org r \<longrightarrow> org_view j db' = org_view j db)"
proof -
  have "changes x (ActorAgent a w) db db'" by (rule step_changes [OF assms(3)])
  then consider "same_access db' db" | db1 where "org_change x (ActorAgent a w) db db1" "same_access db' db1"
    unfolding changes_def by blast
  then show ?thesis
  proof cases
    case 1
    then show ?thesis using same_access_view by (auto split: option.splits)
  next
    case 2
    with agent_change [OF 2(1) reach_org_inv [OF assms(1,2)]] show ?thesis
      using same_access_view [OF 2(2)] by auto
  qed
qed

end
