(* ===== verification/Org_Removal.thy ===== *)
theory Org_Removal
  imports Org_Safety
begin

text \<open>
  Leaving: what a removed member loses and what nobody else loses.  Joining: an invitation admits
  one person, once.  And two places where the code does not keep these promises: a grant that races
  with a removal, and a revocation that is reported as refused although it took effect.
\<close>

section \<open>Removing a member\<close>

lemma same_access_role:
  assumes "same_access a b"
  shows "workspace_member_role x a w u = workspace_member_role x b w u"
proof -
  have "live_workspace a w = live_workspace b w" "member_of a i u = member_of b i u" for i
    using assms by (simp_all add: live_workspace_def member_of_def same_access_def)
  moreover have "workspace_role_case a r m u = workspace_role_case b r m u" for r m
    using assms by (simp add: workspace_role_case_def user_grant_of_def group_grant_exists_def same_access_def Let_def)
  ultimately show ?thesis by (simp add: workspace_member_role_def cong: option.case_cong)
qed

definition removes :: "org_env \<Rightarrow> string \<Rightarrow> string \<Rightarrow> org_db \<Rightarrow> org_db \<Rightarrow> bool" where
  "removes x i u db db' \<longleftrightarrow> (\<exists>t. leave_organization x t i u db = (Inr (), db'))
     \<or> (\<exists>t actor. remove_member_as x t i actor u db = (Inr (), db'))"

lemma leave_effect:
  "leave_organization x t i u db = (Inr (), db') \<Longrightarrow> same_access db' (remove_member_rows i u db)"
  by (auto simp: leave_organization_def Let_def commit_op_def res_simps split: sum.splits
      dest!: audit_same_access)

lemma remove_effect:
  "remove_member_as x t i actor u db = (Inr (), db') \<Longrightarrow> same_access db' (remove_member_rows i u db)"
  by (auto simp: remove_member_as_def Let_def commit_op_def try_op_def res_simps split: sum.splits
      dest!: audit_same_access)

lemma removes_effect: "removes x i u db db' \<Longrightarrow> same_access db' (remove_member_rows i u db)"
  unfolding removes_def using leave_effect remove_effect by blast

lemma find_filter_same: "(\<And>a. a \<in> set xs \<Longrightarrow> P a \<Longrightarrow> Q a) \<Longrightarrow> find P (filter Q xs) = find P xs"
  by (induction xs) auto

lemma remove_member_lookups:
  assumes "org_keys_ok db"
  shows "live_workspace (remove_member_rows i u db) w = live_workspace db w"
    "(j, v) \<noteq> (i, u) \<Longrightarrow> member_of (remove_member_rows i u db) j v = member_of db j v"
    "live_workspace db w = Some r \<Longrightarrow> (ws_org r, v) \<noteq> (i, u)
       \<Longrightarrow> user_grant_of (remove_member_rows i u db) w v = user_grant_of db w v"
proof -
  show "live_workspace (remove_member_rows i u db) w = live_workspace db w"
    by (simp add: live_workspace_def remove_member_rows_def)
  show "member_of (remove_member_rows i u db) j v = member_of db j v" if "(j, v) \<noteq> (i, u)"
    unfolding member_of_def remove_member_rows_def using that by (auto intro!: find_filter_same)
  show "user_grant_of (remove_member_rows i u db) w v = user_grant_of db w v"
    if r: "live_workspace db w = Some r" "(ws_org r, v) \<noteq> (i, u)"
  proof -
    have "\<not> list_ex (\<lambda>s. ws_id s = w \<and> ws_org s = i) (db_workspaces db)" if "v = u"
      using keys_workspace [OF assms] live_workspace_row [OF r(1)] r(2) that by (auto simp: list_ex_iff)
    then show ?thesis
      unfolding user_grant_of_def remove_member_rows_def by (auto intro!: find_filter_same)
  qed
qed

lemma remove_member_groups:
  assumes "org_keys_ok db" "scope_ok db" "refs_ok db" "live_workspace db w = Some r" "(ws_org r, v) \<noteq> (i, u)"
  shows "group_grant_exists (remove_member_rows i u db) w v P = group_grant_exists db w v P"
proof -
  have "\<not> (v = u \<and> list_ex (\<lambda>g. og_id g = wg_group wg \<and> og_org g = i) (db_groups db))"
    if "wg \<in> set (db_group_grants db)" "wg_workspace wg = w" for wg
    using that assms(2,5) live_workspace_row [OF assms(4)] unfolding scope_ok_def list_ex_iff by (metis prod.inject)
  then show ?thesis
    unfolding group_grant_exists_def list_ex_iff remove_member_rows_def by (simp, metis)
qed

lemma remove_member_others:
  assumes "org_inv db" "live_workspace db w = Some r" "(ws_org r, v) \<noteq> (i, u)"
  shows "workspace_member_role x (remove_member_rows i u db) w v = workspace_member_role x db w v"
proof -
  have inv: "org_keys_ok db" "refs_ok db" "scope_ok db" using assms(1) by (simp_all add: org_inv_def)
  have w: "ws_id r = w" using live_workspace_row [OF assms(2)] by simp
  have "workspace_role_case (remove_member_rows i u db) r m v = workspace_role_case db r m v" for m
    using remove_member_lookups(3) [OF inv(1) assms(2,3)] remove_member_groups [OF inv(1,3,2) assms(2,3)]
    by (simp add: workspace_role_case_def w Let_def)
  then show ?thesis
    using remove_member_lookups(1,2) [OF inv(1)] assms(2,3) by (simp add: workspace_member_role_def)
qed

lemma remove_member_target:
  assumes "\<not> oe_disabled x"
  shows "live_workspace db w = Some r \<Longrightarrow> ws_org r = i \<Longrightarrow> workspace_member_role x (remove_member_rows i u db) w u
     = Inl (auth_forbidden ''workspace_access_denied'' ''you do not have access to this workspace'')"
proof -
  assume r: "live_workspace db w = Some r" "ws_org r = i"
  have "member_of (remove_member_rows i u db) i u = None"
    by (simp add: member_of_None remove_member_member)
  with r assms show ?thesis
    by (simp add: workspace_member_role_def live_workspace_def remove_member_rows_def)
qed

text \<open>
  C7: When a member has left or been removed, every live workspace of the organization answers the
  user with 403, and no group membership and no direct grant of the user is left in the
  organization; every other answer of the role check, of other users and for workspaces of other
  organizations, is what it was.
\<close>

theorem removed_member_has_no_access:
  assumes "\<not> oe_disabled x" "reach (\<lambda>db. db = empty_db) (any_step x) db" "removes x i u db db'"
    and "live_workspace db w = Some r"
  shows "(ws_org r = i \<longrightarrow> workspace_member_role x db' w u
             = Inl (auth_forbidden ''workspace_access_denied'' ''you do not have access to this workspace''))
    \<and> (\<forall>gm \<in> set (db_group_members db'). \<not> (gm_user gm = u \<and> gm_group gm \<in> groups_of db' i))
    \<and> (\<forall>g \<in> set (db_user_grants db'). \<not> (ug_user g = u \<and> ug_workspace g \<in> workspaces_of db' i))
    \<and> (\<forall>v. (ws_org r, v) \<noteq> (i, u) \<longrightarrow> workspace_member_role x db' w v = workspace_member_role x db w v)"
proof -
  let ?db = "remove_member_rows i u db"
  have inv: "org_inv db" by (rule reach_org_inv [OF assms(1,2)])
  have same: "same_access db' ?db" by (rule removes_effect [OF assms(3)])
  have "\<forall>gm \<in> set (db_group_members ?db). \<not> (gm_user gm = u \<and> gm_group gm \<in> groups_of ?db i)"
    "\<forall>g \<in> set (db_user_grants ?db). \<not> (ug_user g = u \<and> ug_workspace g \<in> workspaces_of ?db i)"
    by (auto simp: remove_member_rows_def groups_of_def workspaces_of_def list_ex_iff)
  moreover have "groups_of db' i = groups_of ?db i" "workspaces_of db' i = workspaces_of ?db i"
    "db_group_members db' = db_group_members ?db" "db_user_grants db' = db_user_grants ?db"
    using same by (simp_all add: same_access_def groups_of_def workspaces_of_def)
  ultimately show ?thesis
    using remove_member_target [OF assms(1,4)] remove_member_others [OF inv assms(4)] same_access_role [OF same]
    by simp
qed

section \<open>Using an invitation\<close>

text \<open>The invitation of an organization that \<open>u\<close> has used.\<close>

definition used_by :: "org_db \<Rightarrow> string \<Rightarrow> string \<Rightarrow> string \<Rightarrow> bool" where
  "used_by db i token u \<longleftrightarrow> (\<exists>n \<in> set (db_invitations db). iv_token n = token \<and> iv_org n = Some i
     \<and> iv_kind n = ''organization'' \<and> iv_used_at n \<noteq> None \<and> iv_used_by n = Some u)"

lemma used_by_same: "same_access a b \<Longrightarrow> used_by a i token u = used_by b i token u"
  by (simp add: used_by_def same_access_def)

lemma used_by_invitations: "db_invitations a = db_invitations b \<Longrightarrow> used_by a i token u = used_by b i token u"
  by (simp add: used_by_def)

lemma keys_token:
  "org_keys_ok db \<Longrightarrow> m \<in> set (db_invitations db) \<Longrightarrow> n \<in> set (db_invitations db) \<Longrightarrow> iv_token m = iv_token n \<Longrightarrow> m = n"
  by (auto simp: org_keys_ok_def intro: distinct_key)

lemma mark_used_other:
  assumes "used_by db i token u" "other \<noteq> token"
  shows "used_by (mark_used t v other db) i token u"
proof -
  from assms(1) obtain n where n: "n \<in> set (db_invitations db)" "iv_token n = token" "iv_org n = Some i"
    "iv_kind n = ''organization''" "iv_used_at n \<noteq> None" "iv_used_by n = Some u"
    unfolding used_by_def by blast
  with assms(2) have "n \<in> set (db_invitations (mark_used t v other db))"
    by (force simp: mark_used_def)
  with n show ?thesis unfolding used_by_def by blast
qed

lemma usable_token:
  assumes "org_keys_ok db" "used_by db i token u" "n \<in> set (db_invitations db)" "invitation_usable t n"
  shows "iv_token n \<noteq> token"
proof
  assume "iv_token n = token"
  moreover from assms(2) obtain m where "m \<in> set (db_invitations db)" "iv_token m = token" "iv_used_at m \<noteq> None"
    unfolding used_by_def by blast
  ultimately have "m = n" "iv_used_at m \<noteq> None" using keys_token [OF assms(1)] assms(3) by auto
  with assms(4) show False by (simp add: invitation_usable_def)
qed

lemma insert_invitation_used: "insert_invitation n db = Inr db' \<Longrightarrow> used_by db i token u \<Longrightarrow> used_by db' i token u"
  by (auto simp: insert_invitation_def used_by_def split: if_splits)

lemma change_used:
  assumes "org_change x actor db db'" "org_keys_ok db" "used_by db i token u" "i \<in> or_id ` set (db_organizations db')"
  shows "used_by db' i token u"
  using assms
proof (induction rule: org_change.induct)
  case (ch_delete j r)
  then show ?case by (auto simp: cascade_organization_def Let_def used_by_def)
next
  case (ch_revoke_invite j r n now)
  from ch_revoke_invite(6) obtain m where m: "m \<in> set (db_invitations db)" "iv_token m = token" "iv_org m = Some i"
    "iv_kind m = ''organization''" "iv_used_at m \<noteq> None" "iv_used_by m = Some u"
    unfolding used_by_def by blast
  let ?f = "\<lambda>r. if iv_id r = iv_id n then r\<lparr>iv_revoked_at := Some now\<rparr> else r"
  have "?f m \<in> set (map ?f (db_invitations db))" using m(1) by (simp del: if_image_distrib)
  then show ?case using m unfolding used_by_def by (intro bexI [of _ "?f m"]) auto
next
  case (ch_accept v n tok t j role db1)
  have "used_by db1 i token u" using ch_accept used_by_invitations same_invitations(2) by metis
  then have "used_by (apply_invitation_grants t tok j v db1) i token u"
    using used_by_invitations apply_grants_same(2) by metis
  then show ?case using usable_token [of db i token u n t] ch_accept by (intro mark_used_other) auto
next
  case (ch_register_personal v uuid email name db1 db2 t j title db3 db4)
  have "used_by db1 i token u" using ch_register_personal used_by_invitations same_invitations(3) by metis
  then have "used_by db2 i token u"
    using ch_register_personal(4) mark_used_other usable_token [of db i token u] ch_register_personal by blast
  moreover have "used_by db4 i token u = used_by db2 i token u"
    using ch_register_personal used_by_invitations same_invitations(1,2) by metis
  ultimately show ?case using ch_register_personal by blast
next
  case (ch_register v uuid email name db1 n tok t j role db2)
  have "used_by db1 i token u" using ch_register used_by_invitations same_invitations(3) by metis
  then have "used_by (mark_used t v tok db1) i token u"
    using usable_token [of db i token u n t] ch_register by (intro mark_used_other) auto
  then have "used_by db2 i token u" using ch_register used_by_invitations same_invitations(2) by metis
  then show ?case using used_by_invitations apply_grants_same(2) by metis
qed (use insert_invitation_used used_by_invitations same_invitations in \<open>auto simp: used_by_def set_member_role_def
    remove_member_rows_def cascade_group_def delete_group_member_def set_access_mode_def delete_user_grant_def
    delete_group_grant_def mark_workspace_deleted_def\<close>)

lemma step_used:
  assumes "any_step x db db'" "org_inv db" "used_by db i token u" "i \<in> or_id ` set (db_organizations db')"
  shows "used_by db' i token u"
proof -
  obtain actor where "org_step x actor db db'" using assms(1) by (auto simp: any_step_def)
  then have "changes x actor db db'" by (rule step_changes)
  then consider "same_access db' db" | db1 where "org_change x actor db db1" "same_access db' db1"
    unfolding changes_def by blast
  then show ?thesis
  proof cases
    case 1
    then show ?thesis using used_by_same assms(3) by blast
  next
    case 2
    then have "i \<in> or_id ` set (db_organizations db1)" using assms(4) by (simp add: same_access_def)
    with 2 show ?thesis
      using change_used [of x actor db db1 i token u] used_by_same [OF 2(2)] assms(2,3) by (simp add: org_inv_def)
  qed
qed

text \<open>A history in which the organization \<open>i\<close> is not deleted.\<close>

definition history_of :: "org_env \<Rightarrow> string \<Rightarrow> org_db \<Rightarrow> org_db \<Rightarrow> bool" where
  "history_of x i = (\<lambda>a b. any_step x a b \<and> i \<in> or_id ` set (db_organizations b))\<^sup>*\<^sup>*"

lemma history_used:
  assumes "history_of x i db db'" "\<not> oe_disabled x" "org_inv db" "used_by db i token u"
  shows "org_inv db' \<and> used_by db' i token u"
  using assms unfolding history_of_def
proof (induction rule: rtranclp_induct)
  case (step a b)
  then have "org_inv a" "used_by a i token u" by simp_all
  with step show ?case using step_used [of x a b] step_inv [of a x] by (auto simp: any_step_def)
qed simp

lemma accept_state:
  assumes "accept_invitation x t token u db = (Inr ans, db')" "\<not> ia_already_member ans"
  shows "\<exists>n db1. n \<in> set (db_invitations db) \<and> iv_token n = token \<and> iv_kind n = ''organization''
    \<and> iv_org n = Some (ia_organization_id ans) \<and> token \<noteq> []
    \<and> insert_member t (ia_organization_id ans) u (joining_role n) db = Inr db1
    \<and> same_access db' (mark_used t u token (apply_invitation_grants t token (ia_organization_id ans) u db1))"
  using assms
  by (auto simp: accept_invitation_def try_op_def commit_op_def res_simps Let_def invitation_of_def
      split: sum.splits if_splits option.splits dest!: find_mem audit_same_access)

lemma mark_used_self:
  assumes "n \<in> set (db_invitations db)" "iv_token n = token" "iv_org n = Some i" "iv_kind n = ''organization''"
  shows "used_by (mark_used t u token db) i token u"
proof -
  let ?f = "\<lambda>i. if iv_token i = token then i\<lparr>iv_used_at := Some (tk_stamp t), iv_used_by := Some u\<rparr> else i"
  have "?f n \<in> set (map ?f (db_invitations db))" using assms(1) by (simp del: if_image_distrib)
  then show ?thesis
    unfolding used_by_def mark_used_def using assms(2-4) by (intro bexI [of _ "?f n"]) simp_all
qed

lemma accept_marks_used:
  assumes "accept_invitation x t token u db = (Inr ans, db')" "\<not> ia_already_member ans"
  shows "used_by db' (ia_organization_id ans) token u \<and> token \<noteq> []"
proof -
  let ?i = "ia_organization_id ans"
  from accept_state [OF assms] obtain n db1 where n: "n \<in> set (db_invitations db)" "iv_token n = token"
    "iv_kind n = ''organization''" "iv_org n = Some ?i" "token \<noteq> []"
    "insert_member t ?i u (joining_role n) db = Inr db1"
    "same_access db' (mark_used t u token (apply_invitation_grants t token ?i u db1))"
    by blast
  have "db_invitations (apply_invitation_grants t token ?i u db1) = db_invitations db"
    using n(6) same_invitations(2) apply_grants_same(2) by metis
  then have "used_by (mark_used t u token (apply_invitation_grants t token ?i u db1)) ?i token u"
    using n(1-4) by (intro mark_used_self) auto
  with n(5,7) show ?thesis using used_by_same by blast
qed

lemma used_accept:
  assumes "org_keys_ok db" "used_by db i token u" "accept_invitation x t token v db = (Inr ans, db')"
  shows "v = u \<and> ia_already_member ans \<and> (\<exists>e. db' = db\<lparr>db_audit := db_audit db @ [e]\<rparr>)"
proof -
  from assms(2) obtain n where n: "n \<in> set (db_invitations db)" "iv_token n = token" "iv_used_at n \<noteq> None"
    "iv_used_by n = Some u" unfolding used_by_def by blast
  have "invitation_of db token = Some n"
  proof -
    obtain m where m: "invitation_of db token = Some m"
      using n(1,2) by (cases "invitation_of db token") (auto simp: invitation_of_def find_None_iff)
    then have "m = n" using keys_token [OF assms(1)] n(1,2) by (auto simp: invitation_of_def dest!: find_mem)
    with m show ?thesis by simp
  qed
  with assms(3) n(3,4) show ?thesis
    by (auto simp: accept_invitation_def try_op_def commit_op_def res_simps audit_insert_def
        split: sum.splits if_splits option.splits)
qed

lemma used_register:
  assumes "org_keys_ok db" "used_by db i token u" "token \<noteq> []"
  shows "load_registration_invitation x t (Some token) join db = Inl invalid_invitation"
proof -
  have "find (\<lambda>n. iv_token n = token \<and> invitation_usable t n) (db_invitations db) = None"
    using usable_token [OF assms(1,2)] by (auto simp: find_None_iff)
  with assms(3) show ?thesis by (simp add: load_registration_invitation_def)
qed

text \<open>
  C10: An invitation admits one person, once.  After an acceptance that made \<open>u\<close> a member, and for as
  long as the organization exists, whatever else happens (the member may be removed again), nobody
  else can accept the same invitation, \<open>u\<close> can accept it only while already a member, which adds one
  audit row and leaves every other table as it is, and no account can be registered with it.
\<close>

theorem invitation_admits_once:
  assumes "\<not> oe_disabled x" "reach (\<lambda>db. db = empty_db) (any_step x) db"
    and "accept_invitation x t token u db = (Inr ans, db1)" "\<not> ia_already_member ans" "user_of db u \<noteq> None"
    and "history_of x (ia_organization_id ans) db1 db'"
  shows "(\<forall>t' v ans' db2. accept_invitation x t' token v db' = (Inr ans', db2) \<longrightarrow>
        v = u \<and> ia_already_member ans' \<and> (\<exists>e. db2 = db'\<lparr>db_audit := db_audit db' @ [e]\<rparr>))
    \<and> (\<forall>t' join. load_registration_invitation x t' (Some token) join db' = Inl invalid_invitation)"
proof -
  have "org_step x (ActorUser u) db db1"
    using step_accept [OF assms(5), of x t token] assms(3) by simp
  then have inv: "org_inv db1" using step_inv [OF reach_org_inv [OF assms(1,2)] assms(1)] by blast
  have used: "used_by db1 (ia_organization_id ans) token u" "token \<noteq> []"
    using accept_marks_used [OF assms(3,4)] by simp_all
  have "org_keys_ok db'" "used_by db' (ia_organization_id ans) token u"
    using history_used [OF assms(6,1) inv used(1)] by (simp_all add: org_inv_def)
  then show ?thesis using used_accept used_register used(2) by blast
qed

section \<open>Where the promises break\<close>

lemma find_append_None: "find P xs = None \<Longrightarrow> find P (xs @ ys) = find P ys"
  by (induction xs) auto

text \<open>
  \<open>upsert_workspace_user_grant_as\<close> checks the membership of the user and inserts the grant in two
  statements without a transaction.
\<close>

lemma grant_after_removal:
  assumes "org_inv db" "user_of db u \<noteq> None" "live_workspace db w = Some r"
    and "same_access db1 (remove_member_rows (ws_org r) u db)"
  shows "\<exists>g. user_grant_of (snd (user_grant_writes x t w actor u role db1)) w u = Some g \<and> ug_role g = role"
    and "db_members (snd (user_grant_writes x t w actor u role db1)) = db_members db1"
    and "db_workspaces (snd (user_grant_writes x t w actor u role db1)) = db_workspaces db1"
    and "org_keys_ok (snd (user_grant_writes x t w actor u role db1))"
proof -
  let ?r = "remove_member_rows (ws_org r) u db"
  have keys: "org_keys_ok db" using assms(1) by (simp add: org_inv_def)
  have row: "r \<in> set (db_workspaces db)" "ws_id r = w" using live_workspace_row [OF assms(3)] by simp_all
  have "user_grant_of ?r w u = None"
    using row by (auto simp: user_grant_of_None remove_member_rows_def list_ex_iff)
  then have none: "user_grant_of db1 w u = None"
    using assms(4) by (simp add: user_grant_of_def same_access_def)
  let ?g = "\<lparr>ug_workspace = w, ug_user = u, ug_role = role, ug_created_at = tk_stamp t, ug_created_by = actor_label actor\<rparr>"
  have "list_ex (\<lambda>s. ws_id s = w) (db_workspaces db1)" "user_of db1 u \<noteq> None"
    using assms(2,4) row by (auto simp: same_access_def list_ex_iff user_of_def remove_member_rows_def)
  with none have up: "upsert_user_grant t (actor_label actor) w u role db1
      = Inr (db1\<lparr>db_user_grants := db_user_grants db1 @ [?g]\<rparr>)"
    by (auto simp: upsert_user_grant_def)
  have same: "same_access (snd (user_grant_writes x t w actor u role db1))
      (db1\<lparr>db_user_grants := db_user_grants db1 @ [?g]\<rparr>)"
    by (auto simp: user_grant_writes_def up try_op_def split: sum.splits dest!: record_access_same_access)
  have "user_grant_of (db1\<lparr>db_user_grants := db_user_grants db1 @ [?g]\<rparr>) w u = Some ?g"
    using none unfolding user_grant_of_def by (simp add: find_append_None)
  then show "\<exists>g. user_grant_of (snd (user_grant_writes x t w actor u role db1)) w u = Some g \<and> ug_role g = role"
    using same by (simp add: user_grant_of_def same_access_def)
  show "db_members (snd (user_grant_writes x t w actor u role db1)) = db_members db1"
    "db_workspaces (snd (user_grant_writes x t w actor u role db1)) = db_workspaces db1"
    using same by (simp_all add: same_access_def)
  have "org_keys_ok db1" using delete_keys(2) [OF keys] assms(4) by (simp add: org_keys_ok_def same_access_def)
  then have "org_keys_ok (db1\<lparr>db_user_grants := db_user_grants db1 @ [?g]\<rparr>)" using upsert_user_grant_keys [OF up] by blast
  then show "org_keys_ok (snd (user_grant_writes x t w actor u role db1))"
    using same by (simp add: org_keys_ok_def same_access_def)
qed

text \<open>Joining leaves a grant that is already there as it is.\<close>

lemma accept_keeps_grant:
  assumes "accept_invitation x t token u db = (Inr ans, db')" "\<not> ia_already_member ans" "org_keys_ok db"
    and "user_grant_of db w v = Some g"
  shows "user_grant_of db' w v = Some g \<and> is_member db' (ia_organization_id ans) u
    \<and> db_workspaces db' = db_workspaces db \<and> org_keys_ok db'"
proof -
  let ?i = "ia_organization_id ans"
  from accept_state [OF assms(1,2)] obtain n db1 where n:
    "insert_member t ?i u (joining_role n) db = Inr db1"
    "same_access db' (mark_used t u token (apply_invitation_grants t token ?i u db1))"
    by blast
  let ?f = "mark_used t u token (apply_invitation_grants t token ?i u db1)"
  have keys: "org_keys_ok ?f"
    using insert_member_keys [OF n(1) assms(3)] by (intro mark_used_keys apply_grants_keys)
  have "set (db_user_grants db1) = set (db_user_grants db)" "db_workspaces db1 = db_workspaces db"
    using n(1) by (auto simp: insert_member_def split: if_splits)
  then have "set (db_user_grants db) \<subseteq> set (db_user_grants ?f)" "db_workspaces ?f = db_workspaces db"
    "db_members ?f = db_members db1"
    by (auto simp: mark_used_def apply_invitation_grants_def split: option.splits)
  moreover have "g \<in> set (db_user_grants db)" "ug_workspace g = w" "ug_user g = v"
    using assms(3,4) by (simp_all add: user_grant_of_iff)
  moreover have "is_member db1 ?i u" by (rule insert_member_member [OF n(1)])
  ultimately have "user_grant_of ?f w v = Some g" "is_member ?f ?i u" "db_workspaces ?f = db_workspaces db"
    using user_grant_of_iff [OF keys] by (auto simp: is_member_def)
  then show ?thesis
    using n(2) keys by (simp add: user_grant_of_def is_member_def org_keys_ok_def same_access_def)
qed

lemma accept_already:
  "accept_invitation x t token u db = (Inr ans, db') \<Longrightarrow> ia_already_member ans
   \<Longrightarrow> is_member db (ia_organization_id ans) u"
  using member_of_None [of db "ia_organization_id ans" u]
  by (auto simp: accept_invitation_def try_op_def commit_op_def res_simps Let_def
      split: sum.splits if_splits option.splits)

lemma grant_gives_owner:
  assumes "\<not> oe_disabled x" "live_workspace db w = Some r" "is_member db (ws_org r) u"
    and "user_grant_of db w u = Some g" "ug_role g = ''owner''"
  shows "workspace_member_role x db w u = Inr ''owner''"
proof -
  obtain m where "member_of db (ws_org r) u = Some m"
    using assms(3) member_of_None [of db "ws_org r" u] by (cases "member_of db (ws_org r) u") auto
  moreover have "ws_id r = w" using live_workspace_row [OF assms(2)] by simp
  ultimately show ?thesis
    using assms by (simp add: workspace_member_role_def workspace_role_case_def Let_def is_some_and_def)
qed

text \<open>
  C12: The defect: an owner's grant of the owner role to a member passes its check, the member is
  removed from the organization, and then the grant is inserted, for somebody who is no longer a
  member.  The row breaks the invariant that a grant belongs to a member; when the user then accepts another invitation of the organization, whatever role it offers,
  the user owns the workspace at once.
\<close>

theorem grant_survives_removal:
  assumes "\<not> oe_disabled x" "reach (\<lambda>db. db = empty_db) (any_step x) db" "live_workspace db w = Some r"
    and "user_grant_checks x w actor u ''owner'' db = Inr ()" "removes x (ws_org r) u db db1"
    and "db2 = snd (user_grant_writes x t w actor u ''owner'' db1)"
    and "accept_invitation x t' token u db2 = (Inr ans, db3)" "ia_organization_id ans = ws_org r"
  shows "\<not> scope_ok db2 \<and> \<not> is_member db2 (ws_org r) u \<and> workspace_member_role x db3 w u = Inr ''owner''"
proof -
  let ?i = "ws_org r"
  have inv: "org_inv db" "refs_ok db" using reach_org_inv [OF assms(1,2)] by (simp_all add: org_inv_def)
  have row: "r \<in> set (db_workspaces db)" "ws_id r = w" using live_workspace_row [OF assms(3)] by simp_all
  have same: "same_access db1 (remove_member_rows ?i u db)" by (rule removes_effect [OF assms(5)])
  have "belongs_to_workspace db w u" using assms(4) by (auto simp: user_grant_checks_def res_simps)
  then obtain s m where s: "s \<in> set (db_workspaces db)" "ws_id s = w" "m \<in> set (db_members db)" "om_org m = ws_org s"
    "om_user m = u" by (auto simp: belongs_to_workspace_def list_ex_iff)
  have "s = r" using keys_workspace [of db s r] inv(1) row s by (simp add: org_inv_def)
  with s have "is_member db ?i u" by (force simp: is_member_def)
  have "u \<in> us_id ` set (db_users db)" using inv(2) s(3,5) unfolding refs_ok_def by blast
  then have "user_of db u \<noteq> None" by (auto simp: user_of_def find_None_iff)
  from grant_after_removal [OF inv(1) this assms(3) same, of x t actor "''owner''"]
  obtain g where g: "user_grant_of db2 w u = Some g" "ug_role g = ''owner''" "org_keys_ok db2"
    "db_members db2 = db_members db1" "db_workspaces db2 = db_workspaces db1"
    using assms(6) by blast
  have out: "\<not> is_member db2 ?i u"
    using g(4) same remove_member_member [of ?i u db] by (simp add: is_member_def same_access_def)
  have ws: "db_workspaces db2 = db_workspaces db" using g(5) same by (simp add: same_access_def remove_member_rows_def)
  have "\<not> scope_ok db2"
    using out g(1,3) row ws by (auto simp: user_grant_of_iff scope_ok_def)
  moreover have "user_grant_of db3 w u = Some g" "is_member db3 ?i u" "db_workspaces db3 = db_workspaces db2"
    using accept_keeps_grant [OF assms(7) _ g(3,1)] accept_already [OF assms(7)] out assms(8) by auto
  moreover from this have "live_workspace db3 w = Some r" using assms(3) ws by (simp add: live_workspace_def)
  ultimately show ?thesis using grant_gives_owner [OF assms(1)] g(2) out by blast
qed

text \<open>
  C13: Revoking a group's access is carried out before the answer is computed with the caller's
  remaining access.  A caller whose only access to a restricted workspace came through that group
  is answered with 403 as if the revocation had been refused, while the grants of the group are
  gone and the revocation is in the audit trail.
\<close>

theorem group_revocation_reported_as_denied:
  assumes "\<not> oe_disabled x" "reach (\<lambda>db. db = empty_db) (any_step x) db" "live_workspace db w = Some r"
    and "ws_access_mode r = ''restricted''" "require_workspace_owner_as x db w (ActorUser u) = Inr ()"
    and "\<not> manages db (ws_org r) u" "user_grant_of db w u = None"
    and "\<not> group_grant_exists db w u (\<lambda>wg. wg_group wg \<noteq> g)"
    and "remove_workspace_group_grant_as x t w (ActorUser u) g db = (ans, db')"
  shows "ans = Inl (auth_forbidden ''workspace_access_denied'' ''you do not have access to this workspace'')
    \<and> db_group_grants db' = filter (\<lambda>wg. \<not> (wg_workspace wg = w \<and> wg_group wg = g)) (db_group_grants db)
    \<and> aud_action (last (db_audit db')) = ''workspace.access.group_revoked''
    \<and> aud_resource_id (last (db_audit db')) = g"
proof -
  let ?db = "delete_group_grant w g db"
  have inv: "org_keys_ok db" "refs_ok db" using reach_org_inv [OF assms(1,2)] by (simp_all add: org_inv_def)
  have row: "r \<in> set (db_workspaces db)" "ws_id r = w" using live_workspace_row [OF assms(3)] by simp_all
  have "ws_org r \<in> or_id ` set (db_organizations db)" using row(1) inv(2) unfolding refs_ok_def by blast
  then have "find (\<lambda>s. ws_id s = w) (db_workspaces ?db) \<noteq> None" "organization_of ?db (ws_org r) \<noteq> None"
    using row by (auto simp: find_None_iff delete_group_grant_def organization_of_def)
  moreover have "find (\<lambda>s. ws_id s = w) (db_workspaces ?db) = Some s \<Longrightarrow> s = r" for s
    using keys_workspace [OF inv(1)] row by (auto simp: delete_group_grant_def dest!: find_mem)
  ultimately obtain e where e: "record_access_audit t w (ActorUser u) ''workspace.access.group_revoked'' ''group'' g (JObject []) ?db
      = Inr (?db\<lparr>db_audit := db_audit ?db @ [e]\<rparr>)"
    "aud_action e = ''workspace.access.group_revoked''" "aud_resource_id e = g"
    by (auto simp: record_access_audit_def record_workspace_audit_def audit_insert_def)
  let ?db2 = "?db\<lparr>db_audit := db_audit ?db @ [e]\<rparr>"
  have "group_grant_exists ?db2 w u P = False" for P
    using assms(8) by (auto simp: group_grant_exists_def list_ex_iff delete_group_grant_def)
  moreover have "live_workspace ?db2 w = Some r" "user_grant_of ?db2 w u = None" "member_of ?db2 = member_of db"
    using assms(3,7) by (simp_all add: live_workspace_def user_grant_of_def member_of_def delete_group_grant_def fun_eq_iff)
  moreover have "om_role m \<notin> {''owner'', ''admin''}" if "member_of db (ws_org r) u = Some m" for m
    using assms(6) that by (auto simp: manages_def member_of_def dest!: find_mem)
  ultimately have "workspace_member_role x ?db2 w u
      = Inl (auth_forbidden ''workspace_access_denied'' ''you do not have access to this workspace'')"
    using assms(1,4) row(2)
    by (cases "member_of db (ws_org r) u")
      (simp_all add: workspace_member_role_def workspace_role_case_def Let_def is_some_and_def)
  then show ?thesis
    using assms(5,9) e by (auto simp: remove_workspace_group_grant_as_def workspace_access_info_as_def delete_group_grant_def)
qed

end
