(* ===== verification/Org_Examples.thy ===== *)
theory Org_Examples
  imports Org_Removal
begin

text \<open>
  A short history of one organization, from the registration of its founder to the removal of a
  member, and the instances of the properties of the component at its states.
\<close>

section \<open>A history\<close>

definition org_env0 :: org_env where
  "org_env0 = \<lparr>oe_disabled = False, oe_invitation_required = False, oe_has_sender = False, oe_lower = (\<lambda>s. s),
     oe_collate = (\<lambda>s. s), oe_secret_hash = (\<lambda>s. s), oe_parse_rfc3339 = (\<lambda>s. Some 0), oe_invitation_url = (\<lambda>s. s),
     oe_bundle = Some (''treer.launcher-profiles/v1'', [])\<rparr>"

definition tick0 :: tick where
  "tick0 = \<lparr>tk_stamp = ''t'', tk_now = 0\<rparr>"

definition ann :: string where "ann = ''usr_a''"
definition bea :: string where "bea = ''usr_b''"

definition sign_up :: "string \<Rightarrow> string \<Rightarrow> string \<Rightarrow> org_db \<Rightarrow> string outcome" where
  "sign_up uuid org email = register_with_client org_env0 tick0 uuid org None email uuid (Inr ()) False"

definition invite_of :: "org_db \<Rightarrow> string \<Rightarrow> string \<Rightarrow> created_invitation outcome" where
  "invite_of db token i = create_organization_invitation org_env0 tick0 token i ''o'' (ActorUser ann)
     \<lparr>ci_email = None, ci_role = RoleMember, ci_expires_in_hours = None, ci_group_ids = [], ci_workspace_ids = []\<rparr> db"

definition founded :: org_db where
  "founded = snd (create_workspace_as org_env0 tick0 ''o'' ''w'' ''W'' (ActorUser ann)
     (snd (sign_up ''b'' ''p'' ''b@x.y'' (snd (sign_up ''a'' ''o'' ''a@x.y'' empty_db)))))"

definition invited :: org_db where
  "invited = snd (invite_of (snd (invite_of founded ''l'' ''j'')) ''k'' ''i'')"

definition joined :: org_db where
  "joined = snd (accept_invitation org_env0 tick0 ''k'' bea invited)"

definition promoted :: org_db where
  "promoted = snd (update_member_role_as org_env0 tick0 ''o'' (ActorUser ann) bea ''admin'' joined)"

definition left_again :: org_db where
  "left_again = snd (leave_organization org_env0 tick0 ''o'' bea joined)"

definition row_w :: "string \<Rightarrow> workspace_row" where
  "row_w mode = \<lparr>ws_id = ''w'', ws_org = ''o'', ws_name = ''W'', ws_created_at = ''t'', ws_created_by = ann,
     ws_access_mode = mode, ws_deleted_at = None, ws_deleted_by = None\<rparr>"

abbreviation reached :: "org_db \<Rightarrow> bool" where
  "reached \<equiv> reach (\<lambda>db. db = empty_db) (any_step org_env0)"

lemma reached_by: "reached db \<Longrightarrow> org_step org_env0 actor db db' \<Longrightarrow> reached db'"
  using reach_step [of "\<lambda>db. db = empty_db" "any_step org_env0" db db'] by (auto simp: any_step_def)

lemma org_env0_enabled: "\<not> oe_disabled org_env0"
  by (simp add: org_env0_def)

lemma reached_sign_up: "reached db \<Longrightarrow> reached (snd (sign_up uuid org email db))"
  unfolding sign_up_def by (rule reached_by [OF _ step_register [OF refl]])

lemma reached_founded: "reached founded"
  unfolding founded_def
  by (intro reached_sign_up reach_init reached_by [OF _ step_create_workspace] refl)

lemma reached_invited: "reached invited"
  unfolding invited_def invite_of_def
  by (rule reached_by [OF reached_by [OF reached_founded step_invite] step_invite])

lemma bea_known: "user_of invited bea \<noteq> None"
  by code_simp

lemma step_joined: "org_step org_env0 (ActorUser bea) invited joined"
  unfolding joined_def by (rule step_accept [OF bea_known])

lemma reached_joined: "reached joined"
  by (rule reached_by [OF reached_invited step_joined])

lemma reached_promoted: "reached promoted"
  unfolding promoted_def by (rule reached_by [OF reached_joined step_role])

lemma accepted_once: "accept_invitation org_env0 tick0 ''k'' bea invited
   = (Inr \<lparr>ia_organization_id = ''o'', ia_role = ''member'', ia_already_member = False\<rparr>, joined)"
proof -
  have "fst (accept_invitation org_env0 tick0 ''k'' bea invited)
     = Inr \<lparr>ia_organization_id = ''o'', ia_role = ''member'', ia_already_member = False\<rparr>" by code_simp
  then show ?thesis by (simp add: joined_def prod_eq_iff)
qed

lemma live_joined: "live_workspace joined ''w'' = Some (row_w ''organization'')"
  by code_simp

lemma removes_bea: "removes org_env0 ''o'' bea joined left_again"
proof -
  have "fst (leave_organization org_env0 tick0 ''o'' bea joined) = Inr ()" by code_simp
  then show ?thesis unfolding removes_def left_again_def by (metis prod.collapse)
qed

section \<open>Instances\<close>

theorem access_views_agree_witness:
  "workspace_member_role org_env0 joined ''w'' bea = Inr ''member''
   \<and> (\<exists>h \<in> set (list_workspace_humans org_env0 joined ''w''). wh_user_id h = bea \<and> wh_role h = ''member'')"
proof -
  have "workspace_member_role org_env0 joined ''w'' bea = Inr ''member''" by code_simp
  then show ?thesis
    using access_views_agree [OF org_env0_enabled reached_joined live_joined, of bea "''member''"]
    by (simp add: org_env0_def)
qed

theorem organization_keeps_owner_witness:
  "owners joined ''o'' \<noteq> {} \<and> (\<exists>u. workspace_member_role org_env0 joined ''w'' u = Inr ''owner'')"
proof -
  have "list_ex (\<lambda>r. or_id r = ''o'') (db_organizations joined)"
    "list_ex (\<lambda>r. ws_id r = ''w'' \<and> ws_deleted_at r = None) (db_workspaces joined)" by code_simp+
  then show ?thesis
    using organization_keeps_owner [OF org_env0_enabled reached_joined] by (fastforce simp: list_ex_iff)
qed

theorem stored_roles_well_typed_witness: "checks_ok promoted"
  by (rule stored_roles_well_typed [OF reached_promoted])

theorem admins_cannot_touch_owners_witness:
  "owners (snd (remove_member_as org_env0 tick0 ''o'' (ActorUser bea) ann promoted)) ''o'' = owners promoted ''o''"
proof -
  have "member_of promoted ''o'' bea
      = Some \<lparr>om_org = ''o'', om_user = bea, om_role = ''admin'', om_joined_at = ''t''\<rparr>" by code_simp
  from admins_cannot_touch_owners [OF org_env0_enabled reached_promoted this _ step_remove] show ?thesis by simp
qed

theorem agents_stay_in_their_organization_witness:
  "org_view ''p'' (snd (delete_organization org_env0 tick0 ''p'' (ActorAgent ''g'' ''w'') ''b Personal'' joined))
   = org_view ''p'' joined"
proof -
  let ?db = "snd (delete_organization org_env0 tick0 ''p'' (ActorAgent ''g'' ''w'') ''b Personal'' joined)"
  have "org_step org_env0 (ActorAgent ''g'' ''w'') joined ?db" by (rule step_delete_organization)
  from agents_stay_in_their_organization [OF org_env0_enabled reached_joined this] show ?thesis
    by (simp only: live_joined option.case) (simp add: row_w_def)
qed

theorem removed_member_has_no_access_witness:
  "workspace_member_role org_env0 left_again ''w'' bea
     = Inl (auth_forbidden ''workspace_access_denied'' ''you do not have access to this workspace'')
   \<and> workspace_member_role org_env0 left_again ''w'' ann = workspace_member_role org_env0 joined ''w'' ann"
  using removed_member_has_no_access [OF org_env0_enabled reached_joined removes_bea live_joined]
  by (simp add: row_w_def ann_def bea_def)

theorem invitation_admits_once_witness:
  "history_of org_env0 ''o'' joined left_again
   \<and> load_registration_invitation org_env0 tick0 (Some ''k'') True left_again = Inl invalid_invitation"
proof -
  have "list_ex (\<lambda>r. or_id r = ''o'') (db_organizations left_again)" by code_simp
  moreover have "any_step org_env0 joined left_again"
    unfolding any_step_def left_again_def using step_leave by blast
  ultimately have "history_of org_env0 ''o'' joined left_again"
    unfolding history_of_def by (intro r_into_rtranclp) (force simp: list_ex_iff)
  then show ?thesis
    using invitation_admits_once [OF org_env0_enabled reached_invited accepted_once _ bea_known, of left_again] by simp
qed

section \<open>The grant that outlives the membership\<close>

definition late_grant :: org_db where
  "late_grant = snd (user_grant_writes org_env0 tick0 ''w'' (ActorUser ann) bea ''owner'' left_again)"

lemma rejoined: "fst (accept_invitation org_env0 tick0 ''l'' bea late_grant)
   = Inr \<lparr>ia_organization_id = ''o'', ia_role = ''member'', ia_already_member = False\<rparr>"
  by code_simp

theorem grant_survives_removal_witness:
  "\<not> scope_ok late_grant
   \<and> workspace_member_role org_env0 (snd (accept_invitation org_env0 tick0 ''l'' bea late_grant)) ''w'' bea = Inr ''owner''"
proof -
  have checks: "user_grant_checks org_env0 ''w'' (ActorUser ann) bea ''owner'' joined = Inr ()" by code_simp
  have removed: "removes org_env0 (ws_org (row_w ''organization'')) bea joined left_again"
    using removes_bea by (simp add: row_w_def)
  have again: "accept_invitation org_env0 tick0 ''l'' bea late_grant
      = (Inr \<lparr>ia_organization_id = ''o'', ia_role = ''member'', ia_already_member = False\<rparr>,
         snd (accept_invitation org_env0 tick0 ''l'' bea late_grant))"
    using rejoined by (simp add: prod_eq_iff)
  show ?thesis
    using grant_survives_removal [OF org_env0_enabled reached_joined live_joined checks removed late_grant_def again]
    by (simp add: row_w_def)
qed

section \<open>The revocation that is reported as denied\<close>

definition grouped :: org_db where
  "grouped = snd (upsert_workspace_group_grant_as org_env0 tick0 ''w'' (ActorUser ann) ''g'' ''owner''
     (snd (update_workspace_access_mode_as org_env0 tick0 ''w'' (ActorUser ann) ''restricted''
     (snd (set_organization_group_member_as org_env0 tick0 ''o'' (ActorUser ann) ''g'' bea True
     (snd (create_organization_group_as org_env0 tick0 ''g'' ''o'' (ActorUser ann) ''G'' joined)))))))"

lemma reached_grouped: "reached grouped"
  unfolding grouped_def
  by (rule reached_by [OF reached_by [OF reached_by [OF reached_by [OF reached_joined step_create_group]
        step_group_member] step_mode] step_group_grant])

text \<open>The situation of a member who owns the workspace \<open>w\<close> of \<open>o\<close> through the group \<open>g\<close> only.\<close>

definition owner_by_group :: "string \<Rightarrow> org_db \<Rightarrow> bool" where
  "owner_by_group u db \<longleftrightarrow> live_workspace db ''w'' = Some (row_w ''restricted'')
     \<and> require_workspace_owner_as org_env0 db ''w'' (ActorUser u) = Inr ()
     \<and> list_all (\<lambda>m. \<not> (om_org m = ''o'' \<and> om_user m = u \<and> om_role m \<in> {''owner'', ''admin''})) (db_members db)
     \<and> user_grant_of db ''w'' u = None \<and> \<not> group_grant_exists db ''w'' u (\<lambda>wg. wg_group wg \<noteq> ''g'')
     \<and> filter (\<lambda>wg. \<not> (wg_workspace wg = ''w'' \<and> wg_group wg = ''g'')) (db_group_grants db) = []"

lemma bea_by_group: "owner_by_group bea grouped"
  by code_simp

theorem group_revocation_reported_as_denied_witness:
  "fst (remove_workspace_group_grant_as org_env0 tick0 ''w'' (ActorUser bea) ''g'' grouped)
     = Inl (auth_forbidden ''workspace_access_denied'' ''you do not have access to this workspace'')
   \<and> db_group_grants (snd (remove_workspace_group_grant_as org_env0 tick0 ''w'' (ActorUser bea) ''g'' grouped)) = []"
proof -
  note facts = bea_by_group [unfolded owner_by_group_def]
  have live: "live_workspace grouped ''w'' = Some (row_w ''restricted'')"
    and owner: "require_workspace_owner_as org_env0 grouped ''w'' (ActorUser bea) = Inr ()"
    and none: "user_grant_of grouped ''w'' bea = None"
    and only: "\<not> group_grant_exists grouped ''w'' bea (\<lambda>wg. wg_group wg \<noteq> ''g'')" using facts by blast+
  have plain: "\<not> manages grouped (ws_org (row_w ''restricted'')) bea"
    using facts by (auto simp: manages_def row_w_def list_all_iff)
  show ?thesis
    using group_revocation_reported_as_denied [OF org_env0_enabled reached_grouped live _ owner plain none only
        prod.collapse [symmetric], of tick0] facts
    by (simp add: row_w_def)
qed

end
