(* ===== verification/Workspace_Pins.thy ===== *)
theory Workspace_Pins
  imports Workload_Store "HOL-Library.List_Lexorder" "HOL-Library.Product_Lexorder" "HOL-Library.Char_ord"
begin

text \<open>
  The list of pinned items of a workspace (\<open>auth/pins.rs\<close>) and its routes (\<open>api/pins.rs\<close>).  A pin
  names an Agent, an App or a folder of the workspace by its ID.  The state is that of one
  workspace: its Tree tables, the users, the pins and the signals published to its clients.  Other
  requests change the Tree and the users at any time; the foreign keys of \<open>workspace_pins\<close> then
  remove the pins of deleted items and forget deleted users.
\<close>

section \<open>State\<close>

text \<open>\<open>pr_pinned_at\<close> is in microseconds since 1970, the resolution of the column.\<close>

record pin_row =
  pr_agent :: "string option"
  pr_app :: "string option"
  pr_folder :: "string option"
  pr_pinned_at :: int
  pr_pinned_by :: "string option"

record workspace_pin =
  wp_kind :: workspace_pin_kind
  wp_id :: string
  wp_pinned_at :: string
  wp_pinned_by :: "string option"

datatype workspace_pin_action = Pinned | Unpinned

record pin_state =
  ps_tree :: tree_tables
  ps_users :: "string list"
  ps_pins :: "pin_row list"
  ps_signals :: "(workspace_pin_action \<times> workspace_pin_kind \<times> string) list"

text \<open>
  \<open>pe_rfc3339\<close> is \<open>from_timestamp_millis\<close> followed by \<open>to_rfc3339_opts\<close> of the time crate (None
  outside of its range); \<open>pe_collate\<close> the collation of the database as a sort key.
\<close>

record pin_env =
  pe_rfc3339 :: "int \<Rightarrow> string option"
  pe_collate :: "string \<Rightarrow> string"

definition WORKSPACE_PINS_LIMIT :: nat where "WORKSPACE_PINS_LIMIT = 50"

definition pin_item_not_found :: auth_failure where
  "pin_item_not_found = auth_not_found ''pin_item_not_found'' ''The item is not in this workspace''"

definition pin_corrupt :: "string \<Rightarrow> auth_failure" where
  "pin_corrupt m = \<lparr>af_status = 500, af_error = protocol_error_new ''pin_corrupt'' m\<rparr>"

section \<open>Rows\<close>

fun column_for :: "workspace_pin_kind \<Rightarrow> pin_row \<Rightarrow> string option" where
  "column_for PinAgent r = pr_agent r"
| "column_for PinApp r = pr_app r"
| "column_for PinFolder r = pr_folder r"

definition pin_item :: "pin_row \<Rightarrow> (workspace_pin_kind \<times> string) option" where
  "pin_item r = (case (pr_agent r, pr_app r, pr_folder r) of
      (Some i, None, None) \<Rightarrow> Some (PinAgent, i)
    | (None, Some i, None) \<Rightarrow> Some (PinApp, i)
    | (None, None, Some i) \<Rightarrow> Some (PinFolder, i)
    | _ \<Rightarrow> None)"

text \<open>\<open>(EXTRACT(EPOCH FROM pinned_at)*1000)::BIGINT\<close> rounds to the nearest millisecond.\<close>

definition pinned_at_ms :: "pin_row \<Rightarrow> int" where
  "pinned_at_ms r = (pr_pinned_at r + 500) div 1000"

definition pin_from_row :: "pin_env \<Rightarrow> pin_row \<Rightarrow> workspace_pin auth_res" where
  "pin_from_row x r =
     and_then (ok_or_else (pin_item r) (pin_corrupt ''pin row does not name exactly one item'')) (\<lambda>(kind, i).
     and_then (ok_or_else (pe_rfc3339 x (pinned_at_ms r)) (pin_corrupt ''pin time out of range'')) (\<lambda>at.
     Inr \<lparr>wp_kind = kind, wp_id = i, wp_pinned_at = at, wp_pinned_by = pr_pinned_by r\<rparr>))"

text \<open>The items that count as existing; a revoked Agent keeps its row.\<close>

fun item_exists :: "tree_tables \<Rightarrow> workspace_pin_kind \<Rightarrow> string \<Rightarrow> bool" where
  "item_exists t PinAgent i \<longleftrightarrow> (i, False) \<in> set (tt_credentials t)"
| "item_exists t PinApp i \<longleftrightarrow> list_ex (\<lambda>r. ar_app_id r = i) (tt_apps t)"
| "item_exists t PinFolder i \<longleftrightarrow> list_ex (\<lambda>f. folder_id f = i) (tt_folders t)"

definition pin_visible :: "tree_tables \<Rightarrow> pin_row \<Rightarrow> bool" where
  "pin_visible t r \<longleftrightarrow> is_some_and (pr_agent r) (item_exists t PinAgent)
     \<or> is_some_and (pr_app r) (item_exists t PinApp) \<or> is_some_and (pr_folder r) (item_exists t PinFolder)"

text \<open>\<open>ORDER BY pinned_at DESC, agent_id, app_id, folder_id\<close>, where NULL sorts last.\<close>

definition nulls_last :: "pin_env \<Rightarrow> string option \<Rightarrow> nat \<times> string" where
  "nulls_last x v = (case v of Some s \<Rightarrow> (0, pe_collate x s) | None \<Rightarrow> (1, []))"

definition pin_order :: "pin_env \<Rightarrow> pin_row \<Rightarrow> int \<times> (nat \<times> string) \<times> (nat \<times> string) \<times> (nat \<times> string)" where
  "pin_order x r = (- pr_pinned_at r, nulls_last x (pr_agent r), nulls_last x (pr_app r), nulls_last x (pr_folder r))"

definition workspace_pins :: "pin_env \<Rightarrow> pin_state \<Rightarrow> workspace_pin list auth_res" where
  "workspace_pins x s = try_map (pin_from_row x) (sort_key (pin_order x) (filter (pin_visible (ps_tree s)) (ps_pins s)))"

section \<open>Pinning and unpinning\<close>

definition pinned_row :: "workspace_pin_kind \<Rightarrow> string \<Rightarrow> int \<Rightarrow> string \<Rightarrow> pin_row" where
  "pinned_row kind i now u =
     \<lparr>pr_agent = (if kind = PinAgent then Some i else None), pr_app = (if kind = PinApp then Some i else None),
       pr_folder = (if kind = PinFolder then Some i else None), pr_pinned_at = now, pr_pinned_by = Some u\<rparr>"

text \<open>Pins of revoked Agents, which are invisible, do not hold a slot.\<close>

definition revoked_pin :: "tree_tables \<Rightarrow> pin_row \<Rightarrow> bool" where
  "revoked_pin t r \<longleftrightarrow> is_some_and (pr_agent r) (\<lambda>i. (i, True) \<in> set (tt_credentials t))"

text \<open>
  The transaction; an error rolls it back.  The insert fails on a user that does not exist (foreign
  key); the item exists and is not pinned yet when it is reached.
\<close>

definition pin_workspace_item ::
  "pin_env \<Rightarrow> int \<Rightarrow> workspace_pin_kind \<Rightarrow> string \<Rightarrow> string \<Rightarrow> pin_state \<Rightarrow> (workspace_pin \<times> bool) auth_res \<times> pin_state" where
  "pin_workspace_item x now kind i u s =
     (case and_then (lock_workload_tree (ps_tree s)) (\<lambda>_.
        case find (\<lambda>r. column_for kind r = Some i) (ps_pins s) of
          Some r \<Rightarrow> and_then (pin_from_row x r) (\<lambda>pin. Inr ((pin, False), s))
        | None \<Rightarrow>
            if \<not> item_exists (ps_tree s) kind i then Inl pin_item_not_found
            else
              let live = filter (\<lambda>r. \<not> revoked_pin (ps_tree s) r) (ps_pins s) in
              if WORKSPACE_PINS_LIMIT \<le> length live then
                Inl (auth_conflict ''pins_limit_reached'' ''This workspace already has the maximum number of pinned items'')
              else if u \<notin> set (ps_users s) then Inl auth_database_error
              else
                let row = pinned_row kind i now u in
                and_then (pin_from_row x row) (\<lambda>pin.
                Inr ((pin, True), s\<lparr>ps_pins := live @ [row],
                  ps_tree := insert_workspace_mutation ''tree.pin.create'' (pin_kind_as_str kind) i (ps_tree s)\<rparr>))) of
        Inl e \<Rightarrow> (Inl e, s) | Inr (a, s') \<Rightarrow> (Inr a, s'))"

definition unpin_workspace_item ::
  "workspace_pin_kind \<Rightarrow> string \<Rightarrow> pin_state \<Rightarrow> bool auth_res \<times> pin_state" where
  "unpin_workspace_item kind i s =
     (case lock_workload_tree (ps_tree s) of
        Inl e \<Rightarrow> (Inl e, s)
      | Inr _ \<Rightarrow>
          let rest = filter (\<lambda>r. column_for kind r \<noteq> Some i) (ps_pins s);
              removed = length rest < length (ps_pins s)
          in (Inr removed, s\<lparr>ps_pins := rest,
               ps_tree := (if removed then insert_workspace_mutation ''tree.pin.delete'' (pin_kind_as_str kind) i (ps_tree s)
                           else ps_tree s)\<rparr>))"

section \<open>Routes\<close>

text \<open>The outcome of \<open>authorize_tree\<close> is given; a refusal ends the request.\<close>

record workspace_pins_response =
  wr_pins :: "workspace_pin list"
  wr_limit :: nat
  wr_can_pin :: bool
  wr_revision :: nat

definition parse_target :: "string \<Rightarrow> string \<Rightarrow> workspace_pin_kind auth_res" where
  "parse_target kind i =
     and_then (ok_or_else (pin_kind_parse kind)
       (bad_request ''pin_kind_invalid'' ''kind must be agent, app or folder'')) (\<lambda>k.
     if workspace_pin_id_ok i then Inr k
     else Inl (bad_request ''pin_id_invalid'' ''item ID has an unexpected shape''))"

definition signal :: "workspace_pin_action \<Rightarrow> workspace_pin_kind \<Rightarrow> string \<Rightarrow> pin_state \<Rightarrow> pin_state" where
  "signal action kind i s = s\<lparr>ps_signals := ps_signals s @ [(action, kind, i)]\<rparr>"

definition list_workspace_pins ::
  "pin_env \<Rightarrow> unit auth_res \<Rightarrow> unit auth_res \<Rightarrow> nat option \<Rightarrow> pin_state \<Rightarrow> workspace_pins_response auth_res" where
  "list_workspace_pins x may_read may_manage revision s =
     and_then may_read (\<lambda>_.
     and_then (workspace_pins x s) (\<lambda>pins.
     Inr \<lparr>wr_pins = pins, wr_limit = WORKSPACE_PINS_LIMIT,
          wr_can_pin = (case may_manage of Inr _ \<Rightarrow> True | Inl _ \<Rightarrow> False),
          wr_revision = (case revision of Some r \<Rightarrow> r | None \<Rightarrow> 0)\<rparr>))"

definition put_workspace_pin ::
  "pin_env \<Rightarrow> unit auth_res \<Rightarrow> int \<Rightarrow> string \<Rightarrow> string \<Rightarrow> string \<Rightarrow> pin_state \<Rightarrow> workspace_pin auth_res \<times> pin_state" where
  "put_workspace_pin x may_manage now kind i u s =
     (case and_then (parse_target kind i) (\<lambda>k. and_then may_manage (\<lambda>_. Inr k)) of
        Inl e \<Rightarrow> (Inl e, s)
      | Inr k \<Rightarrow> (case pin_workspace_item x now k i u s of
            (Inl e, s1) \<Rightarrow> (Inl e, s1)
          | (Inr (pin, created), s1) \<Rightarrow> (Inr pin, if created then signal Pinned k i s1 else s1)))"

definition delete_workspace_pin ::
  "unit auth_res \<Rightarrow> string \<Rightarrow> string \<Rightarrow> pin_state \<Rightarrow> unit auth_res \<times> pin_state" where
  "delete_workspace_pin may_manage kind i s =
     (case and_then (parse_target kind i) (\<lambda>k. and_then may_manage (\<lambda>_. Inr k)) of
        Inl e \<Rightarrow> (Inl e, s)
      | Inr k \<Rightarrow> (case unpin_workspace_item k i s of
            (Inl e, s1) \<Rightarrow> (Inl e, s1)
          | (Inr removed, s1) \<Rightarrow> (Inr (), if removed then signal Unpinned k i s1 else s1)))"

section \<open>Steps\<close>

text \<open>
  What the foreign keys leave of a pin when other transactions have changed the Tree tables and the
  users: nothing when the row it references is gone, and no user when the user is gone.
\<close>

fun row_referenced :: "tree_tables \<Rightarrow> workspace_pin_kind \<Rightarrow> string \<Rightarrow> bool" where
  "row_referenced t PinAgent i \<longleftrightarrow> i \<in> fst ` set (tt_credentials t)"
| "row_referenced t PinApp i \<longleftrightarrow> item_exists t PinApp i"
| "row_referenced t PinFolder i \<longleftrightarrow> item_exists t PinFolder i"

definition forget_user :: "string list \<Rightarrow> pin_row \<Rightarrow> pin_row" where
  "forget_user us r = (if is_some_and (pr_pinned_by r) (\<lambda>u. u \<notin> set us) then r\<lparr>pr_pinned_by := None\<rparr> else r)"

definition cascade_pins :: "tree_tables \<Rightarrow> string list \<Rightarrow> pin_row list \<Rightarrow> pin_row list" where
  "cascade_pins t us rs = map (forget_user us)
     (filter (\<lambda>r. is_none_or (pr_agent r) (row_referenced t PinAgent) \<and> is_none_or (pr_app r) (row_referenced t PinApp)
        \<and> is_none_or (pr_folder r) (row_referenced t PinFolder)) rs)"

definition drop_agent_pins :: "string \<Rightarrow> pin_row list \<Rightarrow> pin_row list" where
  "drop_agent_pins a = filter (\<lambda>r. pr_agent r \<noteq> Some a)"

inductive pin_step :: "pin_env \<Rightarrow> pin_state \<Rightarrow> pin_state \<Rightarrow> bool" for x where
  step_put: "pin_step x s (snd (put_workspace_pin x allowed now kind i u s))"
| step_delete: "pin_step x s (snd (delete_workspace_pin allowed kind i s))"
| step_agent_deleted: "pin_step x s (s\<lparr>ps_pins := drop_agent_pins a (ps_pins s)\<rparr>)"
| step_other: "pin_step x s (s\<lparr>ps_tree := t, ps_users := us, ps_pins := cascade_pins t us (ps_pins s)\<rparr>)"

definition no_pins :: "pin_state \<Rightarrow> bool" where
  "no_pins s \<longleftrightarrow> ps_pins s = []"

section \<open>The list is well-formed\<close>

text \<open>
  Every row names one item whose row exists, no item is pinned twice, and there are at most 50 rows.
  \<open>num_nonnulls(...) = 1\<close> is the check of the table.
\<close>

definition pins_ok :: "pin_state \<Rightarrow> bool" where
  "pins_ok s \<longleftrightarrow> length (ps_pins s) \<le> WORKSPACE_PINS_LIMIT
     \<and> distinct (map pin_item (ps_pins s))
     \<and> (\<forall>r \<in> set (ps_pins s). \<exists>k i. pin_item r = Some (k, i) \<and> row_referenced (ps_tree s) k i)"

lemma pin_item_column: "pin_item r = Some (k, i) \<Longrightarrow> column_for k' r = (if k' = k then Some i else None)"
  by (cases k'; cases k) (auto simp: pin_item_def split: option.splits)

lemma pin_item_pinned_row [simp]: "pin_item (pinned_row kind i now u) = Some (kind, i)"
  by (cases kind) (simp_all add: pin_item_def pinned_row_def)

lemma pin_item_forget [simp]: "pin_item (forget_user us r) = pin_item r"
proof -
  have "pr_agent (forget_user us r) = pr_agent r" "pr_app (forget_user us r) = pr_app r"
    "pr_folder (forget_user us r) = pr_folder r" by (simp_all add: forget_user_def)
  then show ?thesis by (simp only: pin_item_def)
qed

lemma item_referenced: "item_exists t k i \<Longrightarrow> row_referenced t k i"
  by (cases k) force+

lemma referenced_audit [simp]: "row_referenced (insert_workspace_mutation a k' j t) k i = row_referenced t k i"
  by (cases k) (simp_all add: insert_workspace_mutation_def)

lemma pins_ok_filter:
  assumes "pins_ok s" "ps_tree s' = ps_tree s \<or> (\<exists>a k i. ps_tree s' = insert_workspace_mutation a k i (ps_tree s))"
    and "ps_pins s' = filter P (ps_pins s)"
  shows "pins_ok s'"
proof -
  have "length (filter P (ps_pins s)) \<le> WORKSPACE_PINS_LIMIT"
    using assms(1) unfolding pins_ok_def by (meson length_filter_le le_trans)
  then show ?thesis using assms by (auto simp: pins_ok_def distinct_map_filter)
qed

lemma pin_cases:
  "pin_workspace_item x now kind i u s = (r, s') \<Longrightarrow> s' = s
   \<or> (\<exists>live. live = filter (\<lambda>r. \<not> revoked_pin (ps_tree s) r) (ps_pins s) \<and> length live < WORKSPACE_PINS_LIMIT
       \<and> item_exists (ps_tree s) kind i \<and> find (\<lambda>r. column_for kind r = Some i) (ps_pins s) = None
       \<and> s' = s\<lparr>ps_pins := live @ [pinned_row kind i now u],
            ps_tree := insert_workspace_mutation ''tree.pin.create'' (pin_kind_as_str kind) i (ps_tree s)\<rparr>)"
  by (auto simp: pin_workspace_item_def Let_def res_simps split: sum.splits option.splits if_splits)

lemma pins_ok_pin:
  assumes "pins_ok s" "pin_workspace_item x now kind i u s = (r, s')"
  shows "pins_ok s'"
proof (cases "s' = s")
  case False
  then have new: "find (\<lambda>r. column_for kind r = Some i) (ps_pins s) = None" "item_exists (ps_tree s) kind i"
    and len: "length (filter (\<lambda>r. \<not> revoked_pin (ps_tree s) r) (ps_pins s)) < WORKSPACE_PINS_LIMIT"
    and s': "s' = s\<lparr>ps_pins := filter (\<lambda>r. \<not> revoked_pin (ps_tree s) r) (ps_pins s) @ [pinned_row kind i now u],
      ps_tree := insert_workspace_mutation ''tree.pin.create'' (pin_kind_as_str kind) i (ps_tree s)\<rparr>"
    using pin_cases [OF assms(2)] by blast+
  have "pin_item r \<noteq> Some (kind, i)" if "r \<in> set (ps_pins s)" for r
    using new(1) that pin_item_column [of r kind i kind] by (auto simp: find_None_iff)
  then show ?thesis
    using assms(1) len item_referenced [OF new(2)] by (auto simp: pins_ok_def s' distinct_map_filter)
qed (use assms in simp)

lemma pins_ok_unpin:
  assumes "pins_ok s" "unpin_workspace_item kind i s = (r, s')"
  shows "pins_ok s'"
proof (cases "lock_workload_tree (ps_tree s)")
  case (Inr a)
  with assms(2) have "ps_pins s' = filter (\<lambda>r. column_for kind r \<noteq> Some i) (ps_pins s)"
    "ps_tree s' = ps_tree s \<or> ps_tree s' = insert_workspace_mutation ''tree.pin.delete'' (pin_kind_as_str kind) i (ps_tree s)"
    by (auto simp: unpin_workspace_item_def Let_def)
  then show ?thesis using pins_ok_filter [OF assms(1)] by blast
qed (use assms in \<open>simp add: unpin_workspace_item_def\<close>)

lemma pins_ok_signal [simp]: "pins_ok (signal a k i s) = pins_ok s"
  by (simp add: pins_ok_def signal_def)

lemma pins_ok_cascade:
  assumes "pins_ok s"
  shows "pins_ok (s\<lparr>ps_tree := t, ps_users := us, ps_pins := cascade_pins t us (ps_pins s)\<rparr>)"
proof -
  have "row_referenced t k i"
    if "pin_item r = Some (k, i)" "is_none_or (pr_agent r) (row_referenced t PinAgent)"
      "is_none_or (pr_app r) (row_referenced t PinApp)" "is_none_or (pr_folder r) (row_referenced t PinFolder)" for r k i
    using that by (cases k) (auto simp: pin_item_def is_none_or_def split: option.splits)
  moreover have "length (filter P (ps_pins s)) \<le> WORKSPACE_PINS_LIMIT" for P
    using assms unfolding pins_ok_def by (meson length_filter_le le_trans)
  moreover have "distinct (map pin_item (filter P (ps_pins s)))" "\<forall>r \<in> set (ps_pins s). \<exists>k i. pin_item r = Some (k, i)" for P
    using assms unfolding pins_ok_def by (blast intro: distinct_map_filter)+
  ultimately show ?thesis by (auto simp: pins_ok_def cascade_pins_def comp_def)
qed

lemma pins_ok_step: "pin_step x s s' \<Longrightarrow> pins_ok s \<Longrightarrow> pins_ok s'"
proof (induction rule: pin_step.induct)
  case (step_put s allowed now kind i u)
  then show ?case
    by (auto simp: put_workspace_pin_def split: sum.splits prod.splits dest: pins_ok_pin)
next
  case (step_delete s allowed kind i)
  then show ?case
    by (auto simp: delete_workspace_pin_def split: sum.splits prod.splits dest: pins_ok_unpin)
next
  case (step_agent_deleted s a)
  then show ?case by (auto simp: drop_agent_pins_def intro: pins_ok_filter)
next
  case (step_other s t us)
  then show ?case by (rule pins_ok_cascade)
qed

interpretation pin_sys: inv_system no_pins "pin_step x" pins_ok
proof unfold_locales
  show "no_pins s \<Longrightarrow> pins_ok s" for s by (simp add: no_pins_def pins_ok_def)
qed (rule pins_ok_step)

section \<open>What the list shows\<close>

lemma find_append_pins: "find P (xs @ ys) = (case find P xs of Some x \<Rightarrow> Some x | None \<Rightarrow> find P ys)"
  by (induction xs) auto

lemma pin_visible_item: "pin_item r = Some (k, i) \<Longrightarrow> pin_visible t r = item_exists t k i"
  by (cases k) (auto simp: pin_item_def pin_visible_def is_some_and_def split: option.splits)

lemma pins_from_rows:
  assumes "\<forall>r \<in> set rs. pin_item r \<noteq> None \<and> pe_rfc3339 x (pinned_at_ms r) \<noteq> None"
  shows "\<exists>pins. try_map (pin_from_row x) rs = Inr pins \<and> map (\<lambda>p. Some (wp_kind p, wp_id p)) pins = map pin_item rs"
  using assms
proof (induction rs)
  case (Cons r rs)
  then obtain pins where "try_map (pin_from_row x) rs = Inr pins"
    "map (\<lambda>p. Some (wp_kind p, wp_id p)) pins = map pin_item rs" by auto
  moreover from Cons.prems obtain k i at where "pin_item r = Some (k, i)" "pe_rfc3339 x (pinned_at_ms r) = Some at" by auto
  moreover from this have "pin_from_row x r
      = Inr \<lparr>wp_kind = k, wp_id = i, wp_pinned_at = at, wp_pinned_by = pr_pinned_by r\<rparr>" by (simp add: pin_from_row_def)
  ultimately show ?case by auto
qed simp

text \<open>
  C33: Whatever requests, deletions and revocations happen, a workspace never holds more than 50 pins,
  and its list can be read: it shows each pinned item that still exists exactly once and nothing else.
\<close>

theorem pins_stay_well_formed:
  assumes "reach no_pins (pin_step x) s" "\<forall>r \<in> set (ps_pins s). pe_rfc3339 x (pinned_at_ms r) \<noteq> None"
  shows "length (ps_pins s) \<le> 50 \<and> (\<exists>pins. workspace_pins x s = Inr pins
    \<and> distinct (map (\<lambda>p. (wp_kind p, wp_id p)) pins)
    \<and> (\<forall>k i. (k, i) \<in> (\<lambda>p. (wp_kind p, wp_id p)) ` set pins \<longleftrightarrow>
         Some (k, i) \<in> pin_item ` set (ps_pins s) \<and> item_exists (ps_tree s) k i))"
proof -
  have ok: "pins_ok s" by (rule pin_sys.reach_inv [OF assms(1)])
  let ?rs = "sort_key (pin_order x) (filter (pin_visible (ps_tree s)) (ps_pins s))"
  have item: "pin_item r \<noteq> None" if "r \<in> set (ps_pins s)" for r using ok that by (auto simp: pins_ok_def)
  then obtain pins where pins: "workspace_pins x s = Inr pins"
    "map (\<lambda>p. Some (wp_kind p, wp_id p)) pins = map pin_item ?rs"
    using pins_from_rows [of ?rs x] assms(2) by (auto simp: workspace_pins_def)
  have "distinct (map pin_item ?rs)" using ok by (auto simp: pins_ok_def distinct_map intro: inj_on_subset)
  then have "distinct (map Some (map (\<lambda>p. (wp_kind p, wp_id p)) pins))" using pins(2) by (simp add: comp_def)
  then have "distinct (map (\<lambda>p. (wp_kind p, wp_id p)) pins)" unfolding distinct_map [of Some] by blast
  moreover have "(k, i) \<in> (\<lambda>p. (wp_kind p, wp_id p)) ` set pins \<longleftrightarrow>
      Some (k, i) \<in> pin_item ` set (ps_pins s) \<and> item_exists (ps_tree s) k i" for k i
  proof -
    have "(k, i) \<in> (\<lambda>p. (wp_kind p, wp_id p)) ` set pins \<longleftrightarrow> Some (k, i) \<in> set (map pin_item ?rs)"
      unfolding pins(2) [symmetric] by auto
    also have "\<dots> \<longleftrightarrow> (\<exists>r \<in> set (ps_pins s). pin_visible (ps_tree s) r \<and> pin_item r = Some (k, i))" by force
    also have "\<dots> \<longleftrightarrow> (\<exists>r \<in> set (ps_pins s). pin_item r = Some (k, i)) \<and> item_exists (ps_tree s) k i"
      using pin_visible_item [of _ k i "ps_tree s"] by blast
    finally show ?thesis by (simp add: image_iff eq_commute)
  qed
  ultimately show ?thesis using pins(1) ok by (auto simp: pins_ok_def WORKSPACE_PINS_LIMIT_def)
qed

text \<open>A workspace with a folder and a revoked Agent, in which the folder is pinned.\<close>

definition pin_env0 :: pin_env where
  "pin_env0 = \<lparr>pe_rfc3339 = (\<lambda>ms. Some ''t''), pe_collate = (\<lambda>s. s)\<rparr>"

definition unpinned0 :: pin_state where
  "unpinned0 = \<lparr>ps_tree = empty_tables\<lparr>tt_folders := [\<lparr>folder_id = ''f'', folder_name = ''F'', parent_id = None\<rparr>],
     tt_credentials := [(''a'', True)]\<rparr>, ps_users = [''u''], ps_pins = [], ps_signals = []\<rparr>"

definition pinned0 :: pin_state where
  "pinned0 = snd (put_workspace_pin pin_env0 (Inr ()) 0 ''folder'' ''f'' ''u'' unpinned0)"

theorem pins_stay_well_formed_witness:
  "length (ps_pins pinned0) = 1 \<and> (\<exists>pins. workspace_pins pin_env0 pinned0 = Inr pins
     \<and> (PinFolder, ''f'') \<in> (\<lambda>p. (wp_kind p, wp_id p)) ` set pins)"
proof -
  have pins: "ps_pins pinned0 = [pinned_row PinFolder ''f'' 0 ''u'']" by code_simp
  have "item_exists (ps_tree pinned0) PinFolder ''f''" by code_simp
  moreover have "reach no_pins (pin_step pin_env0) pinned0"
  proof (rule reach_step)
    show "reach no_pins (pin_step pin_env0) unpinned0" by (rule reach_init) (simp add: no_pins_def unpinned0_def)
    show "pin_step pin_env0 unpinned0 pinned0" unfolding pinned0_def by (rule step_put)
  qed
  ultimately show ?thesis
    using pins_stay_well_formed [of pin_env0 pinned0] pins by (auto simp: pin_env0_def)
qed

text \<open>
  Pinning an item that is pinned, by whomever and whenever, answers with the stored pin and changes
  nothing; only the first call is audited, and unpinning takes the item off the list.
\<close>

lemma pin_idempotent:
  assumes "pin_workspace_item x now kind i u s = (Inr (pin, created), s')"
  shows "pin_workspace_item x now' kind i v s' = (Inr (pin, False), s')"
    and "tt_audit (ps_tree s') = tt_audit (ps_tree s) @ (if created then [(''tree.pin.create'', pin_kind_as_str kind, i)] else [])"
    and "fst (unpin_workspace_item kind i s') = Inr True"
proof -
  have lock: "lock_workload_tree (ps_tree s') = Inr ()" "lock_workload_tree (ps_tree s) = Inr ()"
    using assms by (auto simp: pin_workspace_item_def lock_workload_tree_def insert_workspace_mutation_def Let_def res_simps
        split: sum.splits option.splits if_splits)
  obtain r where r: "find (\<lambda>r. column_for kind r = Some i) (ps_pins s') = Some r" "pin_from_row x r = Inr pin"
  proof (cases "find (\<lambda>r. column_for kind r = Some i) (ps_pins s)")
    case None
    then have "find (\<lambda>r. column_for kind r = Some i) (filter P (ps_pins s)) = None" for P
      by (auto simp: find_None_iff)
    with None assms that show ?thesis
      by (cases kind) (auto simp: pin_workspace_item_def Let_def res_simps find_append_pins pinned_row_def
          split: sum.splits option.splits if_splits)
  qed (use assms that in \<open>auto simp: pin_workspace_item_def res_simps split: sum.splits\<close>)
  then show "pin_workspace_item x now' kind i v s' = (Inr (pin, False), s')"
    using lock by (simp add: pin_workspace_item_def)
  show "tt_audit (ps_tree s') = tt_audit (ps_tree s) @ (if created then [(''tree.pin.create'', pin_kind_as_str kind, i)] else [])"
    using assms by (auto simp: pin_workspace_item_def insert_workspace_mutation_def Let_def res_simps
        split: sum.splits option.splits if_splits)
  from r(1) have "\<exists>r \<in> set (ps_pins s'). column_for kind r = Some i" by (auto simp: find_Some_iff)
  then show "fst (unpin_workspace_item kind i s') = Inr True"
    using lock by (auto simp: unpin_workspace_item_def Let_def length_filter_less)
qed

end
