(* ===== verification/Spec2Isabelle.thy ===== *)
theory Spec2Isabelle
  imports Workload_Store Policy_Batch Upload_Scenario Ingress_Guard Host_Daemon Message_Examples
    Org_Examples Workspace_Pins
begin

text \<open>
  Verification of the treer control plane.

  The program.  A treer Proxy (\<open>src/crates/treer-proxy\<close>) connects machines, agents and Apps of a
  workspace.  A workspace belongs to an organization, whose members have access to it through their
  role, through groups or through grants (\<open>auth/organizations.rs\<close>, \<open>auth/org_admin.rs\<close>); people join
  by invitation (\<open>auth/accounts.rs\<close>), and Agents administer the organization of their workspace.
  Workloads are organised in a Tree of folders (\<open>auth/workload_tree.rs\<close>; names and
  paths are resolved by \<open>treer-protocol/targets.rs\<close>).  Every request an agent or App makes is
  authorized by the policy engine (\<open>policy.rs\<close>), from a policy document of the workspace
  (\<open>policy_store.rs\<close>) or from a Policy App bound as provider (\<open>policy_provider_store.rs\<close>), with the
  requests placed in the Tree by a snapshot (\<open>policy_tree.rs\<close>) and matched by path conditions
  (\<open>policy_path_match.rs\<close>).  Public HTTP traffic passes the ingress guard (\<open>ingress_guard.rs\<close>).
  Files reach a machine as chunked uploads: the routes (\<open>api/agents/machine_upload.rs\<close>) admit parts
  through the upload gate (\<open>upload_gate.rs\<close>), keep a row per upload (\<open>upload_store.rs\<close>) and send
  commands to the Controller of the machine, which stages and publishes the file
  (\<open>treer-agent-server/machine_upload.rs\<close>).  Agents, people and Apps exchange durable
  messages through the message store (\<open>message_store.rs\<close>), whose outbox announces them on the event
  bus.  On each machine an agent host
  (\<open>treer-agent-host\<close> over \<open>treer-agent-runtime\<close>, speaking \<open>treer-host-protocol\<close>) keeps the
  workload processes alive across restarts of the controller.

  The theories, in the order they build on each other:

  \<^item> \<open>Treer_Prelude\<close>: \<open>Result\<close> as a sum, the fragment of \<open>str\<close> the code calls (a string is its list
    of UTF-8 bytes), protocol errors, and the contracts used throughout: \<open>inv_system\<close> (an invariant
    of a transition system), \<open>growing_system\<close> (one whose states only grow) and \<open>occ_register\<close> (a
    register written with expected revisions).
  \<^item> \<open>Workload_Tree\<close>: the Tree as the protocol crate sends it, paths and their resolution.
    Printing and resolving are inverse; a bare name never leaves the caller's folder.
  \<^item> \<open>Workload_Store\<close>: the SQL tables as lists of rows and every operation on them, with the error
    each check returns.  Reachable Trees have no cycles and no dangling parents, positions stay
    dense; \<open>remove_breaks_unique_siblings\<close> shows that deleting a folder can produce two sibling
    folders of one name.
  \<^item> \<open>Workspace_Pins\<close>: the pinned items of a workspace and their routes, with the changes other requests
    make to the Tree underneath; the list stays bounded and shows existing items once.
  \<^item> \<open>Policy_Types\<close>, \<open>Policy_Path\<close>, \<open>Policy_Validation\<close>: documents, path matching, validation.
  \<^item> \<open>Policy_Store\<close>: rows, compare-and-swap replacement and provider bindings.  The JSON codec
    and the clock are parameters.
  \<^item> \<open>Policy_Compile\<close>: compilation to indexed, sorted rules and their evaluation, refined to a
    declarative reading of the document.
  \<^item> \<open>Policy_Tree\<close>: snapshots of the Tree and the contexts requests get from them.  The last section of
    this theory joins them with the store: conditions by path and by ID in every reachable Tree.
  \<^item> \<open>Policy_Evaluator\<close>: the document and provider evaluators with their caches, time to live,
    failure modes and the App protocol.  What the App answers, and the clock, come from an
    environment the theorems quantify over.
  \<^item> \<open>Policy_Engine\<close>: single and sensitive-read authorization and the bounded decision log.
  \<^item> \<open>Policy_Batch\<close>: batch authorization, equivalent to authorizing each request alone.
  \<^item> \<open>Upload_Gate\<close>: part-body slots and per-key minute windows.
  \<^item> \<open>Upload_Controller\<close>, \<open>Upload_Staging\<close>: the Controller's registry of uploads with its journals,
    every file operation succeeding or failing as an environment says, and the registry as a
    transition system with restarts.  Published files are the verified parts, receipts are true;
    \<open>recovery_blocks_uploads\<close> shows a journal that no recovery accepts any more.
  \<^item> \<open>Upload_Store\<close>, \<open>Upload_Examples\<close>: the rows and every statement on them.  Ended rows are final, a
    lease has one holder, a machine keeps its quota under every interleaving of begins, and
    \<open>user_quota_can_be_exceeded\<close> shows that a user does not.
  \<^item> \<open>Upload_Api\<close>, \<open>Upload_Flow\<close>, \<open>Upload_Stream\<close>, \<open>Upload_Scenario\<close>: the handlers, in a world whose
    table other requests change between any two accesses.  Uploads of others are invisible, leases
    are given back, a streamed part is what the Controller commits (\<open>chunk_sink\<close> is the contract
    between the two).
  \<^item> \<open>Ip_Addr\<close>, \<open>Token_Bucket\<close>, \<open>Ingress_Guard\<close>: addresses as words with the standard library's
    parsers, token buckets with every double operation rounded to nearest even, and the guard:
    forged client addresses, in-flight permits, table sizes, rate limits.  Requests read the clock
    before they take the lock, so the rate limit is stated for calls at any times.
  \<^item> \<open>Host_Protocol\<close>, \<open>Host_Output\<close>, \<open>Host_Runtime\<close>, \<open>Host_Daemon\<close>: frames of the host protocol,
    the output buffer of a process with its revisions and replay, the registry of processes as a
    transition system whose steps are requests, output and exits in any order, and the daemon's
    result cache and connections.  The binary codec, the serialisation of times and the answers of the
    operating system are parameters.  A process may be respawned under its identifier, and the output
    of several incarnations may meet in one connection.  \<open>failed_respawn_leaks\<close> shows a process entry that is never cleaned up.
  \<^item> \<open>Message_Types\<close>, \<open>Message_Store\<close>: messages on the wire, and every operation of the message
    store on its seven tables: validation, send, get, list, receive, acknowledge, import and
    dispatch.  Timestamps as text, collation, hashing, JSON and base64 are parameters.
  \<^item> \<open>Message_History\<close>, \<open>Message_Reads\<close>, \<open>Message_Outbox\<close>, \<open>Message_Import\<close>: the store as a
    growing transition system.  Sends run once per idempotency key (and an identical request is
    answered again until the message expires), acknowledged deliveries never
    come back, principals read only their own messages, paging an inbox ends and misses nothing,
    every message is announced exactly once, the outbox drains, importing again changes nothing.
    \<open>Message_Examples\<close> evaluates a history and instantiates these properties there.
  \<^item> \<open>Org_Types\<close>, \<open>Org_Access\<close>, \<open>Org_Admin\<close>, \<open>Org_Invitations\<close>: the tables of users, organizations,
    members, groups, workspaces, grants and invitations, the checks every request passes, the four
    reports of who has access, and every operation that changes these tables, registration included.
    An operation in one transaction leaves the state alone when it fails; one that runs its
    statements one by one keeps those before the failure.
  \<^item> \<open>Org_System\<close>, \<open>Org_Invariant\<close>, \<open>Org_Views\<close>, \<open>Org_Safety\<close>, \<open>Org_Removal\<close>: all operations as one
    transition system, and the kinds of change they make (\<open>org_change\<close>), over which each property is
    proved once.  Every organization keeps an owner, the reports agree with the role check
    (\<open>access_view\<close> is their contract), administrators cannot touch owners, Agents stay in their
    organization, removed members lose all access, an invitation admits once.
    \<open>grant_survives_removal\<close> shows a grant that races with a removal and outlives the membership,
    \<open>group_revocation_reported_as_denied\<close> a revocation that takes effect but is answered with 403.
    \<open>Org_Examples\<close> evaluates a history and instantiates these properties there.

  State and concurrency.  Code that runs under one mutex, or in one SQL transaction, is one step;
  the theorems about histories hold for every interleaving of such steps.
  The operations on organizations are one step each, although some run several statements without a
  transaction; \<open>grant_survives_removal\<close> splits one of them and shows what then goes wrong.  Awaits between steps
  are explicit where they matter: the evaluators and the engine thread the world through each
  load, and the environment may answer differently at every call.  The publication of an upload is two
  steps although the Controller runs its commands one at a time: a superset of its histories.

  Bounds and fuel.  Loops over parents are bounded by the number of folders, as in the code; the
  other recursions are structural.  Only the client loop \<open>receive_scan\<close> takes a number of pages, and
  \<open>inbox_scan_complete\<close> shows how many are enough.
  The host's revisions are \<open>u64\<close> counters that saturate; its theorems assume fewer pieces than that.

  Not modelled: HTTP and WebSocket handling, SQL syntax, sessions, passwords and OAuth,
  machine enrollment and credentials, App deployments, the routing
  state of connected machines, the machine controller apart from uploads, the agent launcher and the
  Apps.  They are
  input and output, or need a model of the operating system or of third-party processes.
\<close>

section \<open>The Tree store and folder conditions\<close>

text \<open>
  C30: Naming a folder by its path is naming the folders with that path by their IDs.  Take any Tree
  the operations of the store can reach, a snapshot loaded from it, and a request enriched by that
  snapshot.  Then \<open>resource_below_folder\<close> with the path of a folder matches exactly when it matches
  with the ID of some folder that has this path, strict or not, and whatever kind of node the resource
  is.  Where sibling names are unique this is the folder itself, so its ID and its path are the same
  condition; removals can break that uniqueness.
\<close>

theorem folder_id_and_path_agree:
  assumes "reach tree_init tree_step tables" "td_folders db = tt_folders tables"
    and load: "load_snapshot (Some db) = Inr s" and p: "folder_path (db_tree db) (Some i) = Inr p"
    and target: "req_resource_tree (snapshot_enrich s request) = Some target"
  shows "(folder_matches (RefPath p) rule request' target strict
      \<longleftrightarrow> (\<exists>j. folder_path (db_tree db) (Some j) = Inr p \<and> folder_matches (RefId j) rule request' target strict))
    \<and> (unique_siblings (tt_folders tables) \<longrightarrow>
      folder_matches (RefPath p) rule request' target strict = folder_matches (RefId i) rule request' target strict)"
proof -
  have "store_inv tables" using assms(1) by (rule tree_sys.reach_inv)
  then have wf: "wf_folders (folders (db_tree db))" using assms(2) by (simp add: db_tree_wf store_inv_def)
  have any: "folder_matches (RefPath p) rule request' target strict
      \<longleftrightarrow> (\<exists>j. folder_path (db_tree db) (Some j) = Inr p \<and> folder_matches (RefId j) rule request' target strict)"
    using wf snapshot_node [OF load target] folder_path_not_root [OF wf p] by (rule folder_path_condition)
  moreover have "j = i" if "unique_siblings (tt_folders tables)" "folder_path (db_tree db) (Some j) = Inr p" for j
    using folder_path_unique [OF wf _ that(2) p] that(1) assms(2) by (simp add: db_tree_wf)
  ultimately show ?thesis using p by blast
qed

text \<open>A folder \<open>/x\<close> that the store created, and an Agent placed in it.\<close>

definition placed_db :: tree_db where
  "placed_db = \<lparr>td_tree_revision = Some 1, td_folders = tt_folders example_tables,
     td_placements = [\<lparr>pl_agent_id = ''ag_1'', pl_folder_id = Some ''folder_a'', pl_position = 0\<rparr>],
     td_credentials = [\<lparr>cr_agent_id = ''ag_1'', cr_server_id = ''srv'', cr_revoked = False\<rparr>],
     td_agent_names = [(''ag_1'', ''bob'')], td_deployments = [], td_deleted_agents = []\<rparr>"

definition placed_snapshot :: tree_snapshot where
  "placed_snapshot = projr (load_snapshot (Some placed_db))"

definition placed_agent :: policy_tree_context where
  "placed_agent = the (map_of (ts_nodes placed_snapshot) ''ag_1'')"

theorem folder_id_and_path_agree_witness:
  "folder_matches (RefPath ''/x'') example_tree_rule example_tree_request placed_agent False
   \<and> folder_matches (RefId ''folder_a'') example_tree_rule example_tree_request placed_agent False"
proof -
  have run: "load_snapshot (Some placed_db) = Inr placed_snapshot"
    "folder_path (db_tree placed_db) (Some ''folder_a'') = Inr ''/x''"
    "req_resource_tree (snapshot_enrich placed_snapshot example_tree_request) = Some placed_agent"
    by code_simp+
  have "unique_siblings (tt_folders example_tables)"
    "folder_matches (RefId ''folder_a'') example_tree_rule example_tree_request placed_agent False" by code_simp+
  moreover have "td_folders placed_db = tt_folders example_tables" by (simp add: placed_db_def)
  ultimately show ?thesis using folder_id_and_path_agree [OF example_tables_reach _ run] by blast
qed

end
